(* ===== verification/Prelude.thy ===== *)
theory Prelude
  imports Main "HOL-Library.Word" "HOL-Library.AList"
begin

text \<open>
  Shared vocabulary of the development.

  \<^item> The machine integers of the Rust sources at their width (\<open>u16\<close>, \<open>u32\<close>, \<open>u64\<close>): the release
    profile of \<^verbatim>\<open>runtime/Cargo.toml\<close> leaves overflow checks off, so \<open>+\<close>, \<open>-\<close> and \<open>*\<close> wrap, and the
    saturating operations the sources call are defined here.
  \<^item> \<open>HashMap\<close> as an association list whose order stands for the (unspecified) iteration order,
    behind the interface \<open>keyed_table\<close>: lookup after insert, remove and retain.
  \<^item> Reachable states of a component under its operations, behind the interface
    \<open>step_invariant\<close>: an invariant that holds initially and that every step keeps.
\<close>

named_theorems table_simps \<open>lookup laws of the hash-map model\<close>
named_theorems sat_simps \<open>unsigned readings of the saturating operations\<close>

subsection \<open>Machine integers\<close>

type_synonym u16 = "16 word"
type_synonym u32 = "32 word"
type_synonym u64 = "64 word"
type_synonym usize = "64 word"

definition saturating_add :: "'a::len word \<Rightarrow> 'a word \<Rightarrow> 'a word" where
  "saturating_add a b = (if unat a + unat b < 2 ^ LENGTH('a) then a + b else - 1)"

definition saturating_sub :: "'a::len word \<Rightarrow> 'a word \<Rightarrow> 'a word" where
  "saturating_sub a b = (if a < b then 0 else a - b)"

definition saturating_mul :: "'a::len word \<Rightarrow> 'a word \<Rightarrow> 'a word" where
  "saturating_mul a b = (if unat a * unat b < 2 ^ LENGTH('a) then a * b else - 1)"

definition abs_diff :: "'a::len word \<Rightarrow> 'a word \<Rightarrow> 'a word" where
  "abs_diff a b = (if a < b then b - a else a - b)"

definition clamp :: "'a::linorder \<Rightarrow> 'a \<Rightarrow> 'a \<Rightarrow> 'a" where
  "clamp lo hi v = (if v < lo then lo else if v > hi then hi else v)"

lemma unat_lt_pow: "unat (a :: 'a::len word) < 2 ^ LENGTH('a)"
  by (rule unsigned_less)

lemma unat_max_word: "unat (- 1 :: 'a::len word) = 2 ^ LENGTH('a) - 1"
  by (simp add: unsigned_minus_1_eq_mask mask_eq_exp_minus_1)

lemma unat_add_exact:
  fixes a b :: "'a::len word"
  assumes "unat a + unat b < 2 ^ LENGTH('a)"
  shows "unat (a + b) = unat a + unat b"
  using assms by (simp add: unat_word_ariths)

lemma unat_saturating_add [sat_simps]:
  fixes a b :: "'a::len word"
  shows "unat (saturating_add a b) = min (unat a + unat b) (2 ^ LENGTH('a) - 1)"
  by (auto simp: saturating_add_def unat_add_exact unat_max_word)

lemma unat_saturating_sub [sat_simps]:
  "unat (saturating_sub a b) = unat a - unat b"
  by (auto simp: saturating_sub_def word_less_nat_alt unat_sub word_le_nat_alt not_less)

lemma unat_saturating_mul [sat_simps]:
  fixes a b :: "'a::len word"
  shows "unat (saturating_mul a b) = min (unat a * unat b) (2 ^ LENGTH('a) - 1)"
  by (auto simp: saturating_mul_def unat_word_ariths unat_max_word)

lemma unat_abs_diff [sat_simps]:
  "unat (abs_diff a b) = (if unat a < unat b then unat b - unat a else unat a - unat b)"
  by (auto simp: abs_diff_def word_less_nat_alt unat_sub word_le_nat_alt not_less)

lemma clamp_range: "lo \<le> hi \<Longrightarrow> lo \<le> clamp lo hi v \<and> clamp lo hi v \<le> hi"
  by (auto simp: clamp_def)

lemma clamp_id: "lo \<le> v \<Longrightarrow> v \<le> hi \<Longrightarrow> clamp lo hi v = v"
  by (auto simp: clamp_def)

lemma unat_succ: "(n :: 'a::len word) + 1 \<noteq> 0 \<Longrightarrow> unat (n + 1) = Suc (unat n)"
  using unatSuc [of n] by (simp add: add.commute)

lemma word_less_succ: "(n :: 'a::len word) + 1 \<noteq> 0 \<Longrightarrow> i \<le> n \<Longrightarrow> i < n + 1"
  by (simp add: word_less_nat_alt word_le_nat_alt unat_succ)

subsection \<open>Iterator idioms\<close>

text \<open>\<open>Iterator::position\<close>, \<open>Iterator::find\<close> and \<open>Iterator::min_by_key\<close> (the first minimum wins).\<close>

fun position :: "('a \<Rightarrow> bool) \<Rightarrow> 'a list \<Rightarrow> nat option" where
  "position P [] = None"
| "position P (x # xs) = (if P x then Some 0 else map_option Suc (position P xs))"

fun min_by_key :: "('a \<Rightarrow> 'k::linorder) \<Rightarrow> 'a list \<Rightarrow> 'a option" where
  "min_by_key k [] = None"
| "min_by_key k (x # xs) =
     (case min_by_key k xs of None \<Rightarrow> Some x | Some y \<Rightarrow> if k y < k x then Some y else Some x)"

lemma position_None: "position P xs = None \<longleftrightarrow> (\<forall>x \<in> set xs. \<not> P x)"
  by (induction xs) auto

lemma position_Some:
  "position P xs = Some i \<Longrightarrow> i < length xs \<and> P (xs ! i) \<and> (\<forall>j < i. \<not> P (xs ! j))"
proof (induction xs arbitrary: i)
  case (Cons x xs)
  then show ?case by (auto split: if_splits simp: nth_Cons split: nat.splits)
qed simp

lemma position_exists: "x \<in> set xs \<Longrightarrow> P x \<Longrightarrow> \<exists>i. position P xs = Some i"
  using position_None by (metis not_Some_eq)

lemma position_append:
  "\<forall>x \<in> set xs. \<not> P x \<Longrightarrow> P p \<Longrightarrow> position P (xs @ p # ys) = Some (length xs)"
  by (induction xs) auto

lemma filter_absent: "t \<notin> set xs \<Longrightarrow> filter (\<lambda>i. i \<noteq> t) xs = xs"
  by (induction xs) auto

lemma mem_map_filter: "y \<in> set (List.map_filter f xs) \<longleftrightarrow> (\<exists>x \<in> set xs. f x = Some y)"
  by (induction xs) (auto simp: List.map_filter_simps split: option.splits)

lemma min_by_key_None: "min_by_key k xs = None \<longleftrightarrow> xs = []"
  by (cases xs) (auto split: option.splits)

lemma min_by_key_mem: "min_by_key k xs = Some y \<Longrightarrow> y \<in> set xs"
  by (induction xs arbitrary: y) (auto split: option.splits if_splits)

lemma min_by_key_le: "min_by_key k xs = Some y \<Longrightarrow> x \<in> set xs \<Longrightarrow> k y \<le> k x"
proof (induction xs arbitrary: y)
  case (Cons a xs)
  show ?case
  proof (cases "min_by_key k xs")
    case None
    then have "xs = []" by (simp add: min_by_key_None)
    with Cons.prems show ?thesis by simp
  next
    case (Some z)
    then have "x \<in> set xs \<Longrightarrow> k z \<le> k x" using Cons.IH by blast
    with Some Cons.prems show ?thesis by (auto split: if_splits)
  qed
qed simp

lemma find_mem: "List.find P xs = Some x \<Longrightarrow> x \<in> set xs \<and> P x"
  by (auto simp: find_Some_iff)

subsection \<open>Hash maps\<close>

text \<open>
  The interface the components rely on: what a lookup returns after each update.
  A \<open>retain\<close> keeps the entries its predicate accepts.
\<close>

locale keyed_table =
  fixes get :: "'t \<Rightarrow> 'k \<Rightarrow> 'v option"
    and put :: "'k \<Rightarrow> 'v \<Rightarrow> 't \<Rightarrow> 't"
    and del :: "'k \<Rightarrow> 't \<Rightarrow> 't"
    and keep :: "('k \<Rightarrow> 'v \<Rightarrow> bool) \<Rightarrow> 't \<Rightarrow> 't"
    and ok :: "'t \<Rightarrow> bool"
  assumes get_put: "get (put k v t) k' = (if k' = k then Some v else get t k')"
    and get_del: "get (del k t) k' = (if k' = k then None else get t k')"
    and get_keep: "ok t \<Longrightarrow>
      get (keep P t) k = (case get t k of None \<Rightarrow> None | Some v \<Rightarrow> if P k v then Some v else None)"
    and ok_put: "ok t \<Longrightarrow> ok (put k v t)"
    and ok_del: "ok t \<Longrightarrow> ok (del k t)"
    and ok_keep: "ok t \<Longrightarrow> ok (keep P t)"
begin

lemma get_put_same [simp]: "get (put k v t) k = Some v"
  by (simp add: get_put)

lemma get_put_other: "k' \<noteq> k \<Longrightarrow> get (put k v t) k' = get t k'"
  by (simp add: get_put)

lemma get_del_same [simp]: "get (del k t) k = None"
  by (simp add: get_del)

lemma get_fold_del: "get (fold del ks t) k = (if k \<in> set ks then None else get t k)"
  by (induction ks arbitrary: t) (auto simp: get_del)

lemma ok_fold_del: "ok t \<Longrightarrow> ok (fold del ks t)"
  by (induction ks arbitrary: t) (auto simp: ok_del)

end

type_synonym ('k, 'v) hmap = "('k \<times> 'v) list"

definition hm_get :: "('k, 'v) hmap \<Rightarrow> 'k \<Rightarrow> 'v option" where
  "hm_get m k = map_of m k"

definition hm_insert :: "'k \<Rightarrow> 'v \<Rightarrow> ('k, 'v) hmap \<Rightarrow> ('k, 'v) hmap" where
  "hm_insert k v m = AList.update k v m"

definition hm_remove :: "'k \<Rightarrow> ('k, 'v) hmap \<Rightarrow> ('k, 'v) hmap" where
  "hm_remove k m = AList.delete k m"

definition hm_retain :: "('k \<Rightarrow> 'v \<Rightarrow> bool) \<Rightarrow> ('k, 'v) hmap \<Rightarrow> ('k, 'v) hmap" where
  "hm_retain P m = filter (\<lambda>(k, v). P k v) m"

definition hm_contains :: "('k, 'v) hmap \<Rightarrow> 'k \<Rightarrow> bool" where
  "hm_contains m k = (hm_get m k \<noteq> None)"

definition hm_keys :: "('k, 'v) hmap \<Rightarrow> 'k list" where
  "hm_keys m = map fst m"

definition hm_ok :: "('k, 'v) hmap \<Rightarrow> bool" where
  "hm_ok m = distinct (map fst m)"

lemma map_of_filter_distinct:
  "distinct (map fst m) \<Longrightarrow>
   map_of (filter (\<lambda>(k, v). P k v) m) k =
     (case map_of m k of None \<Rightarrow> None | Some v \<Rightarrow> if P k v then Some v else None)"
proof (induction m)
  case (Cons a m)
  obtain k' v where a: "a = (k', v)" by (cases a)
  have "k \<notin> fst ` set m \<Longrightarrow> map_of (filter (\<lambda>(k, v). P k v) m) k = None"
    by (auto simp: map_of_eq_None_iff)
  with Cons a show ?case by (auto split: option.splits)
qed simp

interpretation hm: keyed_table hm_get hm_insert hm_remove hm_retain hm_ok
proof unfold_locales
  fix m :: "('k, 'v) hmap" and k k' :: 'k and v :: 'v and P :: "'k \<Rightarrow> 'v \<Rightarrow> bool"
  show "hm_get (hm_insert k v m) k' = (if k' = k then Some v else hm_get m k')"
    by (simp add: hm_get_def hm_insert_def update_conv')
  show "hm_get (hm_remove k m) k' = (if k' = k then None else hm_get m k')"
    by (simp add: hm_get_def hm_remove_def delete_conv')
  show "hm_ok m \<Longrightarrow> hm_get (hm_retain P m) k =
      (case hm_get m k of None \<Rightarrow> None | Some v \<Rightarrow> if P k v then Some v else None)"
    by (simp add: hm_get_def hm_retain_def hm_ok_def map_of_filter_distinct)
  show "hm_ok m \<Longrightarrow> hm_ok (hm_insert k v m)"
    by (simp add: hm_ok_def hm_insert_def distinct_update)
  show "hm_ok m \<Longrightarrow> hm_ok (hm_remove k m)"
    by (simp add: hm_ok_def hm_remove_def distinct_delete)
  show "hm_ok m \<Longrightarrow> hm_ok (hm_retain P m)"
    unfolding hm_ok_def hm_retain_def by (induction m) auto
qed

lemmas hm_laws [table_simps] = hm.get_put hm.get_del hm_contains_def

lemma hm_get_empty [simp]: "hm_get [] k = None"
  by (simp add: hm_get_def)

lemma hm_get_mem: "hm_get m k = Some v \<Longrightarrow> (k, v) \<in> set m"
  by (simp add: hm_get_def map_of_SomeD)

lemma hm_mem_get: "hm_ok m \<Longrightarrow> (k, v) \<in> set m \<Longrightarrow> hm_get m k = Some v"
  by (simp add: hm_get_def hm_ok_def)

subsection \<open>Invariants of reachable states\<close>

text \<open>
  A component is a set of initial states and a labelled step function or relation; an invariant
  that holds initially and is kept by every step holds in every reachable state.
\<close>

inductive reaches :: "('s \<Rightarrow> 's \<Rightarrow> bool) \<Rightarrow> 's \<Rightarrow> 's \<Rightarrow> bool" for step where
  reaches_refl: "reaches step s s"
| reaches_step: "reaches step s t \<Longrightarrow> step t u \<Longrightarrow> reaches step s u"

locale step_invariant =
  fixes init :: "'s \<Rightarrow> bool"
    and step :: "'s \<Rightarrow> 's \<Rightarrow> bool"
    and inv :: "'s \<Rightarrow> bool"
  assumes init_inv: "init s \<Longrightarrow> inv s"
    and step_inv: "inv s \<Longrightarrow> step s t \<Longrightarrow> inv t"
begin

lemma reaches_inv: "reaches step s t \<Longrightarrow> inv s \<Longrightarrow> inv t"
  by (induction rule: reaches.induct) (auto intro: step_inv)

lemma reachable_inv: "init s \<Longrightarrow> reaches step s t \<Longrightarrow> inv t"
  by (blast intro: init_inv reaches_inv)

end

end
