(* ===== verification/F32.thy ===== *)
theory F32
  imports Complex_Main Prelude "HOL-Library.Log_Nat"
begin

text \<open>
  The Rust primitive \<open>f32\<close> (IEEE 754 binary32), as far as the layout engine uses it: literals,
  comparison, \<open>clamp\<close>, \<open>is_finite\<close>, addition, negation, multiplication, \<open>f32::round\<close> and the saturating
  casts \<open>u16 as f32\<close> and \<open>f32 as u16\<close>.  A finite value is the rational it denotes; every arithmetic
  result is rounded to nearest, ties to even, with the precision (24 bits) and exponent range of
  binary32, and overflows to an infinity.  The two zeros are one value: the sources never divide by
  a float and comparison does not tell them apart.
\<close>

datatype f32 = NaN | Inf bool | Fin rat

definition pow2 :: "int \<Rightarrow> rat" where
  "pow2 e = 2 powi e"

text \<open>\<open>f32_exponent q\<close> is \<open>\<lfloor>log\<^sub>2 q\<rfloor>\<close> for a positive rational.\<close>

definition f32_exponent :: "rat \<Rightarrow> int" where
  "f32_exponent q =
     (case quotient_of q of (n, d) \<Rightarrow>
        let e = bitlen n - bitlen d in if pow2 e \<le> q then e else e - 1)"

text \<open>The distance between neighbouring binary32 values at the magnitude of \<open>q\<close>.\<close>

definition f32_ulp :: "rat \<Rightarrow> rat" where
  "f32_ulp q = pow2 (max (f32_exponent \<bar>q\<bar> - 23) (- 149))"

definition round_half_even :: "rat \<Rightarrow> int" where
  "round_half_even r =
     (let f = \<lfloor>r\<rfloor>; d = r - of_int f in
      if d < 1 / 2 then f else if d > 1 / 2 then f + 1 else if even f then f else f + 1)"

definition f32_nearest :: "rat \<Rightarrow> rat" where
  "f32_nearest q = (if q = 0 then 0 else of_int (round_half_even (q / f32_ulp q)) * f32_ulp q)"

definition f32_of_rat :: "rat \<Rightarrow> f32" where
  "f32_of_rat q =
     (let v = f32_nearest q in
      if v \<ge> 2 ^ 128 then Inf False else if v \<le> - (2 ^ 128) then Inf True else Fin v)"

subsection \<open>Operations\<close>

fun f32_is_finite :: "f32 \<Rightarrow> bool" where
  "f32_is_finite (Fin _) = True"
| "f32_is_finite _ = False"

fun f32_lt :: "f32 \<Rightarrow> f32 \<Rightarrow> bool" where
  "f32_lt (Fin a) (Fin b) = (a < b)"
| "f32_lt (Inf s) (Fin b) = s"
| "f32_lt (Fin a) (Inf s) = (\<not> s)"
| "f32_lt (Inf s) (Inf s') = (s \<and> \<not> s')"
| "f32_lt _ _ = False"

text \<open>\<open>==\<close> of \<open>f32\<close>: \<open>NaN\<close> differs from itself.\<close>

fun f32_eq :: "f32 \<Rightarrow> f32 \<Rightarrow> bool" where
  "f32_eq NaN _ = False"
| "f32_eq _ NaN = False"
| "f32_eq a b = (a = b)"

definition f32_clamp :: "f32 \<Rightarrow> f32 \<Rightarrow> f32 \<Rightarrow> f32" where
  "f32_clamp v lo hi = (if f32_lt v lo then lo else if f32_lt hi v then hi else v)"

fun f32_neg :: "f32 \<Rightarrow> f32" where
  "f32_neg NaN = NaN"
| "f32_neg (Inf s) = Inf (\<not> s)"
| "f32_neg (Fin a) = Fin (- a)"

fun f32_add :: "f32 \<Rightarrow> f32 \<Rightarrow> f32" where
  "f32_add (Fin a) (Fin b) = f32_of_rat (a + b)"
| "f32_add (Inf s) (Fin b) = Inf s"
| "f32_add (Fin a) (Inf s) = Inf s"
| "f32_add (Inf s) (Inf s') = (if s = s' then Inf s else NaN)"
| "f32_add _ _ = NaN"

fun f32_mul :: "f32 \<Rightarrow> f32 \<Rightarrow> f32" where
  "f32_mul (Fin a) (Fin b) = f32_of_rat (a * b)"
| "f32_mul (Inf s) (Fin b) = (if b = 0 then NaN else Inf (s \<noteq> (b < 0)))"
| "f32_mul (Fin a) (Inf s) = (if a = 0 then NaN else Inf (s \<noteq> (a < 0)))"
| "f32_mul (Inf s) (Inf s') = Inf (s \<noteq> s')"
| "f32_mul _ _ = NaN"

text \<open>\<open>f32::round\<close>: to the nearest integer, ties away from zero.\<close>

fun f32_round :: "f32 \<Rightarrow> f32" where
  "f32_round (Fin a) =
     Fin (of_int (if 0 \<le> a then \<lfloor>a + 1 / 2\<rfloor> else - \<lfloor>- a + 1 / 2\<rfloor>))"
| "f32_round v = v"

definition u16_as_f32 :: "u16 \<Rightarrow> f32" where
  "u16_as_f32 w = Fin (of_nat (unat w))"

text \<open>\<open>as u16\<close>: truncates towards zero and saturates; \<open>NaN\<close> becomes 0.\<close>

fun f32_as_u16 :: "f32 \<Rightarrow> u16" where
  "f32_as_u16 NaN = 0"
| "f32_as_u16 (Inf s) = (if s then 0 else - 1)"
| "f32_as_u16 (Fin a) =
     (if a \<le> 0 then 0 else if a \<ge> 65535 then - 1 else of_int \<lfloor>a\<rfloor>)"

subsection \<open>Rounding\<close>

lemma pow2_pos: "0 < pow2 e"
  by (simp add: pow2_def)

lemma pow2_neg_div: "e \<le> 0 \<Longrightarrow> x / pow2 e = x * 2 ^ nat (- e)"
  by (simp add: pow2_def power_int_def field_simps)

lemma round_half_even_of_int [simp]: "round_half_even (of_int n) = n"
  by (simp add: round_half_even_def)

lemma round_half_even_bounds: "\<lfloor>r\<rfloor> \<le> round_half_even r \<and> round_half_even r \<le> \<lceil>r\<rceil>"
proof (cases "r = of_int \<lfloor>r\<rfloor>")
  case True
  then show ?thesis by (metis ceiling_of_int floor_of_int order_refl round_half_even_of_int)
next
  case False
  then have "\<lceil>r\<rceil> = \<lfloor>r\<rfloor> + 1"
    by (metis ceiling_altdef)
  then show ?thesis by (auto simp: round_half_even_def Let_def)
qed

lemma round_half_even_le_int: "r \<le> of_int n \<Longrightarrow> round_half_even r \<le> n"
  using round_half_even_bounds [of r] by (meson ceiling_le_iff order_trans)

lemma round_half_even_ge_int: "of_int n \<le> r \<Longrightarrow> n \<le> round_half_even r"
  using round_half_even_bounds [of r] by (meson le_floor_iff order_trans)

lemma pow2_less_iff: "pow2 a < pow2 b \<longleftrightarrow> a < b"
  unfolding pow2_def
  by (metis linorder_not_less one_less_numeral_iff power_int_increasing
      power_int_strict_increasing semiring_norm(76) one_le_numeral)

lemma pow2_nat: "pow2 (int n) = 2 ^ n"
  by (simp add: pow2_def)

lemma quotient_of_pos:
  "0 < q \<Longrightarrow> quotient_of q = (n, d) \<Longrightarrow> 0 < n \<and> 0 < d \<and> q = of_int n / of_int d"
  using quotient_of_denom_pos [of q n d] quotient_of_div [of q n d]
  by (simp add: zero_less_divide_iff)

lemma f32_exponent_le: "0 < q \<Longrightarrow> pow2 (f32_exponent q) \<le> q"
proof -
  assume q: "0 < q"
  obtain n d where nd: "quotient_of q = (n, d)" by (cases "quotient_of q")
  with q have pos: "0 < n" "0 < d" and qnd: "q = of_int n / of_int d"
    using quotient_of_pos by auto
  let ?e = "bitlen n - bitlen d"
  have "pow2 (?e - 1) \<le> q"
  proof -
    have n: "(2::int) ^ nat (bitlen n - 1) \<le> n" and d: "d < (2::int) ^ nat (bitlen d)"
      using bitlen_bounds [of n] bitlen_bounds [of d] pos by auto
    have bn: "1 \<le> bitlen n" and bd: "0 \<le> bitlen d"
      using pos bitlen_nonneg bitlen_eq_zero_iff
      by (metis int_one_le_iff_zero_less leD order_le_less, metis bitlen_nonneg)
    have "pow2 (bitlen n - 1) \<le> of_int n"
      using n bn by (simp add: pow2_def power_int_def)
    moreover have "of_int d \<le> pow2 (bitlen d)"
      using d bd by (simp add: pow2_def power_int_def)
    moreover have "pow2 (?e - 1) = pow2 (bitlen n - 1) / pow2 (bitlen d)"
      by (simp add: pow2_def algebra_simps flip: power_int_diff)
    ultimately show ?thesis
      using pos pow2_pos [of "bitlen d"] pow2_pos [of "bitlen n - 1"] unfolding qnd
      by (simp add: frac_le)
  qed
  then show ?thesis
    by (auto simp: f32_exponent_def nd Let_def)
qed

text \<open>
  Below \<open>2 ^ 16\<close> the spacing of binary32 values divides 1, so rounding never passes an integer bound.
\<close>

lemma f32_ulp_below:
  assumes "0 < q" and "q < 2 ^ 16"
  obtains k where "f32_ulp q = pow2 (- int k)"
proof -
  have "pow2 (f32_exponent q) < pow2 16"
    using f32_exponent_le [OF assms(1)] assms(2) by (simp add: pow2_def)
  then have "f32_exponent q < 16" by (simp add: pow2_less_iff)
  then have "max (f32_exponent q - 23) (- 149) \<le> 0" by simp
  then obtain k where "max (f32_exponent q - 23) (- 149) = - int k"
    by (metis minus_minus neg_0_le_iff_le zero_le_imp_eq_int)
  with assms(1) have "f32_ulp q = pow2 (- int k)" by (simp add: f32_ulp_def)
  then show thesis by (rule that)
qed

lemma f32_nearest_range:
  assumes "0 \<le> q" and "q \<le> of_nat w" and "w < 2 ^ 16"
  shows "0 \<le> f32_nearest q" and "f32_nearest q \<le> of_nat w"
proof -
  show "0 \<le> f32_nearest q"
    using assms(1) pow2_pos round_half_even_ge_int [of 0 "q / f32_ulp q"]
    by (auto simp: f32_nearest_def f32_ulp_def less_imp_le intro!: mult_nonneg_nonneg divide_nonneg_nonneg)
  show "f32_nearest q \<le> of_nat w"
  proof (cases "q = 0")
    case False
    with assms(1) have pos: "0 < q" by simp
    have "(of_nat w :: rat) < of_nat (2 ^ 16)" using assms(3) by (simp only: of_nat_less_iff)
    with assms(2) have lt: "q < 2 ^ 16" by simp
    from f32_ulp_below [OF pos lt] obtain k where k: "f32_ulp q = pow2 (- int k)" .
    have "q / f32_ulp q \<le> of_int (int w * 2 ^ k)"
      using assms(2) by (simp add: k pow2_neg_div mult_right_mono)
    then have "round_half_even (q / f32_ulp q) \<le> int w * 2 ^ k"
      by (rule round_half_even_le_int)
    then have "of_int (round_half_even (q / f32_ulp q)) * f32_ulp q \<le> of_int (int w * 2 ^ k) * f32_ulp q"
      by (simp add: k pow2_pos less_imp_le mult_right_mono del: of_int_mult of_int_of_nat_eq of_int_power)
    also have "\<dots> = of_nat w"
      by (simp add: k pow2_def power_int_minus field_simps)
    finally show ?thesis using False by (simp add: f32_nearest_def)
  qed (simp add: f32_nearest_def)
qed

lemma f32_of_rat_range:
  assumes "0 \<le> q" and "q \<le> of_nat w" and "w < 2 ^ 16"
  obtains v where "f32_of_rat q = Fin v" and "0 \<le> v" and "v \<le> of_nat w"
proof -
  have *: "0 \<le> f32_nearest q" "f32_nearest q \<le> of_nat w"
    using f32_nearest_range [OF assms] by auto
  have "(of_nat w :: rat) < of_nat (2 ^ 16)" using assms(3) by (simp only: of_nat_less_iff)
  with * have "f32_of_rat q = Fin (f32_nearest q)"
    by (auto simp: f32_of_rat_def Let_def)
  with * show thesis by (auto intro: that)
qed

lemma f32_round_as_u16_le:
  assumes "0 \<le> v" and "v \<le> of_nat w" and "w < 2 ^ 16"
  shows "unat (f32_as_u16 (f32_round (Fin v))) \<le> w"
proof -
  have "v + 1 / 2 < of_int (int w + 1)" using assms(2) by simp
  then have le: "\<lfloor>v + 1 / 2\<rfloor> \<le> int w" by linarith
  have ge: "0 \<le> \<lfloor>v + 1 / 2\<rfloor>" using assms(1) by simp
  then obtain n where n: "\<lfloor>v + 1 / 2\<rfloor> = int n" by (rule nonneg_int_cases)
  with le assms(3) have "n \<le> w" and small: "n < 2 ^ 16" by simp_all
  have "unat (of_nat n :: u16) = n"
    using small by (simp add: unsigned_of_nat take_bit_nat_eq_self)
  then have "unat (f32_as_u16 (Fin (of_int \<lfloor>v + 1 / 2\<rfloor>))) = n"
    using small by (auto simp: n unat_max_word)
  with assms(1) \<open>n \<le> w\<close> show ?thesis by simp
qed

text \<open>Scaling a cell count by a ratio between 0 and 1 never exceeds it.\<close>

lemma f32_scale_le:
  assumes "0 \<le> r" and "r \<le> 1"
  shows "f32_as_u16 (f32_round (f32_mul (u16_as_f32 w) (Fin r))) \<le> w"
proof -
  have w: "unat w < 2 ^ 16" using unat_lt_pow [of w] by simp
  have "of_nat (unat w) * r \<le> of_nat (unat w)"
    by (rule mult_left_le [OF assms(2) of_nat_0_le_iff])
  moreover have "0 \<le> of_nat (unat w) * r"
    by (rule mult_nonneg_nonneg [OF of_nat_0_le_iff assms(1)])
  ultimately obtain v where "f32_of_rat (of_nat (unat w) * r) = Fin v"
    and "0 \<le> v" and "v \<le> of_nat (unat w)"
    using f32_of_rat_range w by blast
  then show ?thesis
    using f32_round_as_u16_le [of v "unat w"] w
    by (simp add: u16_as_f32_def word_le_nat_alt)
qed

end
