(* ===== verification/Layout.thy ===== *)
theory Layout
  imports F32 "HOL-Library.Product_Lexorder"
begin

text \<open>
  The BSP tiling layout of \<^verbatim>\<open>runtime/src/layout.rs\<close>: a binary tree of splits over pane ids, the
  focused pane, the pane focused before it, the geometry computed from the tree and the directional
  navigation over that geometry.

  \<open>Vec\<close> accumulators (\<open>&mut result\<close>) become returned lists; a function that writes through
  \<open>&mut Node\<close> returns the new node; \<open>None\<close> in the result of \<open>close_focused\<close> and \<open>close_pane\<close> is the
  panic of \<open>unwrap\<close>.  The widget library \<open>ratatui\<close> is not part of the sources: its constructor
  \<open>Rect::new\<close> and its constant \<open>Borders::NONE\<close> are the fields of the argument \<open>R\<close> of the
  definitions that use them, and \<open>rect_new_exact\<close> is its documented behaviour.
\<close>

named_theorems layout_simps \<open>equations of the layout operations\<close>

subsection \<open>Data\<close>

type_synonym pane_id = u32

datatype direction = Horizontal | Vertical

datatype nav_direction = NavLeft | NavRight | NavUp | NavDown

record rect =
  rect_x :: u16
  rect_y :: u16
  rect_width :: u16
  rect_height :: u16

record 'b ratatui =
  rect_new :: "u16 \<Rightarrow> u16 \<Rightarrow> u16 \<Rightarrow> u16 \<Rightarrow> rect"
  borders_none :: 'b

record 'b pane_info =
  info_id :: pane_id
  info_rect :: rect
  info_inner_rect :: rect
  info_scrollbar_rect :: "rect option"
  info_borders :: 'b
  info_is_focused :: bool

record split_border =
  border_pos :: u16
  border_direction :: direction
  border_ratio :: f32
  border_area :: rect
  border_path :: "bool list"

datatype node = Pane pane_id | Split direction f32 node node

record tile_layout =
  root :: node
  focus :: pane_id
  prev_focus :: "pane_id option"

subsection \<open>Pane ids\<close>

text \<open>The global counter \<open>NEXT_PANE_ID\<close> is passed and returned; \<open>fetch_add\<close> wraps.\<close>

definition alloc :: "u32 \<Rightarrow> pane_id \<times> u32" where
  "alloc next_id = (next_id, next_id + 1)"

subsection \<open>Tree operations\<close>

fun count_panes :: "node \<Rightarrow> nat" where
  "count_panes (Pane _) = 1"
| "count_panes (Split _ _ first second) = count_panes first + count_panes second"

fun collect_ids :: "node \<Rightarrow> pane_id list" where
  "collect_ids (Pane pid) = [pid]"
| "collect_ids (Split _ _ first second) = collect_ids first @ collect_ids second"

fun split_ratios_at :: "node \<Rightarrow> bool list \<Rightarrow> (bool list \<times> f32) list" where
  "split_ratios_at (Pane _) path = []"
| "split_ratios_at (Split _ ratio first second) path =
     (path, ratio) # split_ratios_at first (path @ [False]) @ split_ratios_at second (path @ [True])"

definition split_ratios :: "node \<Rightarrow> (bool list \<times> f32) list" where
  "split_ratios node = split_ratios_at node []"

fun swap_pane_ids :: "node \<Rightarrow> pane_id \<Rightarrow> pane_id \<Rightarrow> node" where
  "swap_pane_ids (Pane pid) first second =
     (if pid = first then Pane second else if pid = second then Pane first else Pane pid)"
| "swap_pane_ids (Split d r l r') first second =
     Split d r (swap_pane_ids l first second) (swap_pane_ids r' first second)"

text \<open>
  \<open>find_pane_mut node target\<close> is a mutable reference to the first matching leaf; its callers
  overwrite the leaf, so the model takes the node written through the reference.
\<close>

fun find_pane_mut :: "node \<Rightarrow> pane_id \<Rightarrow> node \<Rightarrow> node option" where
  "find_pane_mut (Pane pid) target new = (if pid = target then Some new else None)"
| "find_pane_mut (Split d r first second) target new =
     (case find_pane_mut first target new of
        Some first' \<Rightarrow> Some (Split d r first' second)
      | None \<Rightarrow>
          (case find_pane_mut second target new of
             Some second' \<Rightarrow> Some (Split d r first second')
           | None \<Rightarrow> None))"

definition split_node :: "pane_id \<Rightarrow> direction \<Rightarrow> pane_id \<Rightarrow> f32 \<Rightarrow> node" where
  "split_node target direction new_id split_ratio =
     Split direction split_ratio (Pane target) (Pane new_id)"

definition ratio_min :: f32 where "ratio_min = f32_of_rat (1 / 10)"
definition ratio_max :: f32 where "ratio_max = f32_of_rat (9 / 10)"
definition ratio_half :: f32 where "ratio_half = f32_of_rat (1 / 2)"

definition valid_split_ratio :: "f32 \<Rightarrow> f32" where
  "valid_split_ratio ratio =
     (if f32_is_finite ratio then f32_clamp ratio ratio_min ratio_max else ratio_half)"

fun remove_pane :: "node \<Rightarrow> pane_id \<Rightarrow> node option" where
  "remove_pane (Pane pid) target = (if pid = target then None else Some (Pane pid))"
| "remove_pane (Split d r first second) target =
     (case (remove_pane first target, remove_pane second target) of
        (None, Some s) \<Rightarrow> Some s
      | (Some f, None) \<Rightarrow> Some f
      | (Some f, Some s) \<Rightarrow> Some (Split d r f s)
      | (None, None) \<Rightarrow> None)"

text \<open>The node after the call and whether the path named a split.\<close>

fun node_set_ratio_at :: "node \<Rightarrow> bool list \<Rightarrow> f32 \<Rightarrow> node \<times> bool" where
  "node_set_ratio_at (Split d r first second) [] new_ratio = (Split d new_ratio first second, True)"
| "node_set_ratio_at (Split d r first second) (p # path) new_ratio =
     (if p
      then (case node_set_ratio_at second path new_ratio of (s, ok) \<Rightarrow> (Split d r first s, ok))
      else (case node_set_ratio_at first path new_ratio of (f, ok) \<Rightarrow> (Split d r f second, ok)))"
| "node_set_ratio_at (Pane pid) path new_ratio = (Pane pid, False)"

fun get_ratio_at :: "node \<Rightarrow> bool list \<Rightarrow> f32 option" where
  "get_ratio_at (Split d r first second) [] = Some r"
| "get_ratio_at (Split d r first second) (p # path) =
     (if p then get_ratio_at second path else get_ratio_at first path)"
| "get_ratio_at (Pane pid) path = None"

subsection \<open>Geometry\<close>

definition split_rect :: "'b ratatui \<Rightarrow> rect \<Rightarrow> direction \<Rightarrow> f32 \<Rightarrow> rect \<times> rect" where
  "split_rect R area direction ratio =
     (case direction of
        Horizontal \<Rightarrow>
          (let first_w = f32_as_u16 (f32_round (f32_mul (u16_as_f32 (rect_width area)) ratio));
               second_w = saturating_sub (rect_width area) first_w
           in (rect_new R (rect_x area) (rect_y area) first_w (rect_height area),
               rect_new R (rect_x area + first_w) (rect_y area) second_w (rect_height area)))
      | Vertical \<Rightarrow>
          (let first_h = f32_as_u16 (f32_round (f32_mul (u16_as_f32 (rect_height area)) ratio));
               second_h = saturating_sub (rect_height area) first_h
           in (rect_new R (rect_x area) (rect_y area) (rect_width area) first_h,
               rect_new R (rect_x area) (rect_y area + first_h) (rect_width area) second_h)))"

fun collect_panes :: "'b ratatui \<Rightarrow> node \<Rightarrow> rect \<Rightarrow> pane_id \<Rightarrow> 'b pane_info list" where
  "collect_panes R (Pane pid) area foc =
     [\<lparr>info_id = pid, info_rect = area, info_inner_rect = area, info_scrollbar_rect = None,
       info_borders = borders_none R, info_is_focused = (pid = foc)\<rparr>]"
| "collect_panes R (Split d ratio first second) area foc =
     (case split_rect R area d ratio of
        (a, b) \<Rightarrow> collect_panes R first a foc @ collect_panes R second b foc)"

fun collect_splits :: "'b ratatui \<Rightarrow> node \<Rightarrow> rect \<Rightarrow> bool list \<Rightarrow> split_border list" where
  "collect_splits R (Pane pid) area path = []"
| "collect_splits R (Split d ratio first second) area path =
     (case split_rect R area d ratio of
        (a, b) \<Rightarrow>
          \<lparr>border_pos = (case d of Horizontal \<Rightarrow> rect_x a + rect_width a
                                  | Vertical \<Rightarrow> rect_y a + rect_height a),
           border_direction = d, border_ratio = ratio, border_area = area, border_path = path\<rparr>
          # collect_splits R first a (path @ [False]) @ collect_splits R second b (path @ [True]))"

subsection \<open>The layout's operations\<close>

definition tile_layout_new :: "u32 \<Rightarrow> (tile_layout \<times> pane_id) \<times> u32" where
  "tile_layout_new next_id =
     (case alloc next_id of
        (root_id, next_id') \<Rightarrow>
          ((\<lparr>root = Pane root_id, focus = root_id, prev_focus = None\<rparr>, root_id), next_id'))"

definition set_focus :: "tile_layout \<Rightarrow> pane_id \<Rightarrow> tile_layout" where
  "set_focus l pid =
     (if pid \<noteq> focus l then l\<lparr>prev_focus := Some (focus l), focus := pid\<rparr> else l)"

definition focused :: "tile_layout \<Rightarrow> pane_id" where
  "focused l = focus l"

definition pane_count :: "tile_layout \<Rightarrow> nat" where
  "pane_count l = count_panes (root l)"

definition pane_ids :: "tile_layout \<Rightarrow> pane_id list" where
  "pane_ids l = collect_ids (root l)"

definition panes :: "'b ratatui \<Rightarrow> tile_layout \<Rightarrow> rect \<Rightarrow> 'b pane_info list" where
  "panes R l area = collect_panes R (root l) area (focus l)"

definition panes_after_split ::
    "'b ratatui \<Rightarrow> tile_layout \<Rightarrow> rect \<Rightarrow> pane_id \<Rightarrow> direction \<Rightarrow> f32 \<Rightarrow> ('b pane_info list \<times> nat) option" where
  "panes_after_split R l area target direction ratio =
     (let ps = panes R l area in
      case position (\<lambda>info. info_id info = target) ps of
        None \<Rightarrow> None
      | Some index \<Rightarrow>
          (case split_rect R (info_rect (ps ! index)) direction (valid_split_ratio ratio) of
             (first, second) \<Rightarrow>
               let old = (ps ! index)\<lparr>info_rect := first, info_inner_rect := first\<rparr>;
                   new_pane = old\<lparr>info_rect := second, info_inner_rect := second, info_is_focused := False\<rparr>
               in Some (take index ps @ old # new_pane # drop (index + 1) ps, index + 1)))"

definition splits :: "'b ratatui \<Rightarrow> tile_layout \<Rightarrow> rect \<Rightarrow> split_border list" where
  "splits R l area = collect_splits R (root l) area []"

definition split_pane ::
    "tile_layout \<Rightarrow> pane_id \<Rightarrow> direction \<Rightarrow> f32 \<Rightarrow> u32 \<Rightarrow> (tile_layout \<times> pane_id option) \<times> u32" where
  "split_pane l target direction ratio next_id =
     (case alloc next_id of
        (new_id, next_id') \<Rightarrow>
          (case find_pane_mut (root l) target
                  (split_node target direction new_id (valid_split_ratio ratio)) of
             None \<Rightarrow> ((l, None), next_id)
           | Some r \<Rightarrow> ((l\<lparr>root := r\<rparr>, Some new_id), next_id')))"

definition insert_pane_near ::
    "tile_layout \<Rightarrow> pane_id \<Rightarrow> pane_id \<Rightarrow> direction \<Rightarrow> f32 \<Rightarrow> bool \<Rightarrow> tile_layout \<times> bool" where
  "insert_pane_near l target moved direction ratio foc =
     (if target = moved then (l, False)
      else if moved \<in> set (pane_ids l) then (l, False)
      else
        (case find_pane_mut (root l) target
                (split_node target direction moved (valid_split_ratio ratio)) of
           None \<Rightarrow> (l, False)
         | Some r \<Rightarrow>
             (let l' = l\<lparr>root := r\<rparr> in (if foc then set_focus l' moved else l', True))))"

definition close_focused :: "tile_layout \<Rightarrow> (tile_layout \<times> bool) option" where
  "close_focused l =
     (if pane_count l \<le> 1 then Some (l, False)
      else
        let target = focus l; ids = pane_ids l in
        (case position (\<lambda>pid. pid = target) ids of
           None \<Rightarrow> None
         | Some pos \<Rightarrow>
             let ordered = (if pos + 1 < length ids then ids ! (pos + 1) else ids ! (pos - 1));
                 new_focus = (case prev_focus l of
                                Some prev \<Rightarrow>
                                  if prev \<noteq> target \<and> prev \<in> set ids then prev else ordered
                              | None \<Rightarrow> ordered)
             in (case remove_pane (root l) target of
                   Some new_root \<Rightarrow>
                     Some (l\<lparr>root := new_root, focus := new_focus, prev_focus := None\<rparr>, True)
                 | None \<Rightarrow> Some (l\<lparr>root := Pane 0\<rparr>, False))))"

definition close_pane :: "tile_layout \<Rightarrow> pane_id \<Rightarrow> (tile_layout \<times> bool) option" where
  "close_pane l pid =
     (if focus l = pid then close_focused l
      else if pane_count l \<le> 1 \<or> pid \<notin> set (pane_ids l) then Some (l, False)
      else
        (case remove_pane (root l) pid of
           None \<Rightarrow> Some (l\<lparr>root := Pane 0\<rparr>, False)
         | Some new_root \<Rightarrow>
             (let l' = l\<lparr>root := new_root\<rparr> in
              Some (if prev_focus l' = Some pid then l'\<lparr>prev_focus := None\<rparr> else l', True))))"

definition focus_pane :: "tile_layout \<Rightarrow> pane_id \<Rightarrow> tile_layout" where
  "focus_pane l pid = (if pid \<in> set (pane_ids l) then set_focus l pid else l)"

definition swap_panes :: "tile_layout \<Rightarrow> pane_id \<Rightarrow> pane_id \<Rightarrow> tile_layout \<times> bool" where
  "swap_panes l first second =
     (if first = second then (l, False)
      else if first \<notin> set (pane_ids l) \<or> second \<notin> set (pane_ids l) then (l, False)
      else (l\<lparr>root := swap_pane_ids (root l) first second\<rparr>, True))"

definition set_ratio_at :: "tile_layout \<Rightarrow> bool list \<Rightarrow> f32 \<Rightarrow> tile_layout \<times> bool" where
  "set_ratio_at l path ratio =
     (case node_set_ratio_at (root l) path (f32_clamp ratio ratio_min ratio_max) of
        (r, ok) \<Rightarrow> (l\<lparr>root := r\<rparr>, ok))"

definition from_saved :: "node \<Rightarrow> pane_id \<Rightarrow> tile_layout" where
  "from_saved r f = \<lparr>root = r, focus = f, prev_focus = None\<rparr>"

subsection \<open>Resizing and directional navigation\<close>

definition ranges_overlap :: "u16 \<Rightarrow> u16 \<Rightarrow> u16 \<Rightarrow> u16 \<Rightarrow> bool" where
  "ranges_overlap a_start a_len b_start b_len \<longleftrightarrow> a_start < b_start + b_len \<and> a_start + a_len > b_start"

text \<open>\<open>(a as i32 - b as i32).unsigned_abs()\<close> of two \<open>u16\<close> values: no overflow is possible.\<close>

definition i32_distance :: "u16 \<Rightarrow> u16 \<Rightarrow> nat" where
  "i32_distance a b = nat \<bar>uint a - uint b\<bar>"

definition split_edge_distance :: "split_border \<Rightarrow> rect \<Rightarrow> nav_direction \<Rightarrow> nat" where
  "split_edge_distance s foc nav =
     (case nav of
        NavLeft \<Rightarrow> i32_distance (border_pos s) (rect_x foc)
      | NavRight \<Rightarrow> i32_distance (border_pos s) (rect_x foc + rect_width foc)
      | NavUp \<Rightarrow> i32_distance (border_pos s) (rect_y foc)
      | NavDown \<Rightarrow> i32_distance (border_pos s) (rect_y foc + rect_height foc))"

definition split_on_requested_edge :: "split_border \<Rightarrow> rect \<Rightarrow> nav_direction \<Rightarrow> bool" where
  "split_on_requested_edge s foc nav \<longleftrightarrow> split_edge_distance s foc nav \<le> 1"

definition split_area_overlaps_focused_pane :: "split_border \<Rightarrow> rect \<Rightarrow> nav_direction \<Rightarrow> bool" where
  "split_area_overlaps_focused_pane s foc nav =
     (if nav = NavLeft \<or> nav = NavRight
      then ranges_overlap (rect_y (border_area s)) (rect_height (border_area s)) (rect_y foc) (rect_height foc)
      else ranges_overlap (rect_x (border_area s)) (rect_width (border_area s)) (rect_x foc) (rect_width foc))"

definition nearest_resize_split ::
    "split_border list \<Rightarrow> direction \<Rightarrow> rect \<Rightarrow> nav_direction \<Rightarrow> split_border option" where
  "nearest_resize_split ss target_dir foc nav =
     min_by_key (\<lambda>s. split_edge_distance s foc nav)
       (filter (\<lambda>s. split_on_requested_edge s foc nav)
         (filter (\<lambda>s. split_area_overlaps_focused_pane s foc nav)
           (filter (\<lambda>s. border_direction s = target_dir) ss)))"

fun opposite_direction :: "nav_direction \<Rightarrow> nav_direction" where
  "opposite_direction NavLeft = NavRight"
| "opposite_direction NavRight = NavLeft"
| "opposite_direction NavUp = NavDown"
| "opposite_direction NavDown = NavUp"

definition resize_focused :: "'b ratatui \<Rightarrow> tile_layout \<Rightarrow> nav_direction \<Rightarrow> f32 \<Rightarrow> rect \<Rightarrow> tile_layout" where
  "resize_focused R l nav delta area =
     (case List.find info_is_focused (panes R l area) of
        None \<Rightarrow> l
      | Some foc \<Rightarrow>
          (let focused_rect = info_rect foc;
               ss = splits R l area;
               target_dir = (if nav = NavLeft \<or> nav = NavRight then Horizontal else Vertical);
               grows = (nav = NavRight \<or> nav = NavDown);
               best = (case nearest_resize_split ss target_dir focused_rect nav of
                         Some s \<Rightarrow> Some s
                       | None \<Rightarrow> nearest_resize_split ss target_dir focused_rect (opposite_direction nav))
           in (case best of
                 None \<Rightarrow> l
               | Some s \<Rightarrow>
                   (let path = border_path s;
                        current_ratio = (case get_ratio_at (root l) path of
                                           Some r \<Rightarrow> r | None \<Rightarrow> ratio_half);
                        adj = (if grows then delta else f32_neg delta)
                    in fst (set_ratio_at l path (f32_add current_ratio adj))))))"

text \<open>\<open>Vec\<close> equality of \<open>split_ratios\<close> compares floats, so a stored \<open>NaN\<close> differs from itself.\<close>

definition ratios_eq :: "(bool list \<times> f32) list \<Rightarrow> (bool list \<times> f32) list \<Rightarrow> bool" where
  "ratios_eq = list_all2 (\<lambda>(p, r) (q, s). p = q \<and> f32_eq r s)"

definition resize_pane ::
    "'b ratatui \<Rightarrow> tile_layout \<Rightarrow> pane_id \<Rightarrow> nav_direction \<Rightarrow> f32 \<Rightarrow> rect \<Rightarrow> tile_layout \<times> bool" where
  "resize_pane R l pane nav delta area =
     (if pane \<notin> set (pane_ids l) then (l, False)
      else
        (let before = split_ratios (root l);
             previous_focus = focus l;
             l1 = resize_focused R (l\<lparr>focus := pane\<rparr>) nav delta area;
             l2 = l1\<lparr>focus := previous_focus\<rparr>
         in (l2, \<not> ratios_eq (split_ratios (root l2)) before)))"

definition range_overlap_amount :: "u16 \<Rightarrow> u16 \<Rightarrow> u16 \<Rightarrow> u16 \<Rightarrow> u16" where
  "range_overlap_amount a_start a_len b_start b_len =
     (let a_end = saturating_add a_start a_len; b_end = saturating_add b_start b_len
      in saturating_sub (min a_end b_end) (max a_start b_start))"

definition range_center_distance :: "u16 \<Rightarrow> u16 \<Rightarrow> u16 \<Rightarrow> u16 \<Rightarrow> u16" where
  "range_center_distance a_start a_len b_start b_len =
     (let a_center = saturating_add (saturating_mul a_start 2) a_len;
          b_center = saturating_add (saturating_mul b_start 2) b_len
      in abs_diff a_center b_center)"

definition nav_candidate :: "rect \<Rightarrow> nav_direction \<Rightarrow> rect \<Rightarrow> bool" where
  "nav_candidate fr direction r =
     (case direction of
        NavLeft \<Rightarrow> rect_x r + rect_width r \<le> rect_x fr
          \<and> ranges_overlap (rect_y r) (rect_height r) (rect_y fr) (rect_height fr)
      | NavRight \<Rightarrow> rect_x r \<ge> rect_x fr + rect_width fr
          \<and> ranges_overlap (rect_y r) (rect_height r) (rect_y fr) (rect_height fr)
      | NavUp \<Rightarrow> rect_y r + rect_height r \<le> rect_y fr
          \<and> ranges_overlap (rect_x r) (rect_width r) (rect_x fr) (rect_width fr)
      | NavDown \<Rightarrow> rect_y r \<ge> rect_y fr + rect_height fr
          \<and> ranges_overlap (rect_x r) (rect_width r) (rect_x fr) (rect_width fr))"

text \<open>
  The key \<open>(edge_distance, Reverse(overlap), center_distance, index)\<close>; \<open>Reverse\<close> is negation.
\<close>

definition nav_key :: "rect \<Rightarrow> nav_direction \<Rightarrow> nat \<Rightarrow> rect \<Rightarrow> u16 \<times> int \<times> u16 \<times> nat" where
  "nav_key fr direction index r =
     (let edge_distance =
            (case direction of
               NavLeft \<Rightarrow> saturating_sub (rect_x fr) (rect_x r + rect_width r)
             | NavRight \<Rightarrow> saturating_sub (rect_x r) (rect_x fr + rect_width fr)
             | NavUp \<Rightarrow> saturating_sub (rect_y fr) (rect_y r + rect_height r)
             | NavDown \<Rightarrow> saturating_sub (rect_y r) (rect_y fr + rect_height fr));
          horizontal = (direction = NavLeft \<or> direction = NavRight);
          overlap =
            (if horizontal
             then range_overlap_amount (rect_y r) (rect_height r) (rect_y fr) (rect_height fr)
             else range_overlap_amount (rect_x r) (rect_width r) (rect_x fr) (rect_width fr));
          center_distance =
            (if horizontal
             then range_center_distance (rect_y r) (rect_height r) (rect_y fr) (rect_height fr)
             else range_center_distance (rect_x r) (rect_width r) (rect_x fr) (rect_width fr))
      in (edge_distance, - uint overlap, center_distance, index))"

definition find_in_direction ::
    "'b pane_info \<Rightarrow> nav_direction \<Rightarrow> 'b pane_info list \<Rightarrow> pane_id option" where
  "find_in_direction foc direction ps =
     map_option (\<lambda>(_, p). info_id p)
       (min_by_key (\<lambda>(index, p). nav_key (info_rect foc) direction index (info_rect p))
         (filter (\<lambda>(_, p). nav_candidate (info_rect foc) direction (info_rect p))
           (filter (\<lambda>(_, p). info_id p \<noteq> info_id foc) (enumerate 0 ps))))"

text \<open>The well-formed ratios, and the invariant of a layout: pane ids occur once, the focused pane is
  in the tree, the previously focused pane is another pane of the tree, every ratio is a finite value
  between the two bounds.\<close>

definition ratio_ok :: "f32 \<Rightarrow> bool" where
  "ratio_ok r \<longleftrightarrow> f32_is_finite r \<and> \<not> f32_lt r ratio_min \<and> \<not> f32_lt ratio_max r"

fun ratios_ok :: "node \<Rightarrow> bool" where
  "ratios_ok (Pane _) = True"
| "ratios_ok (Split _ r first second) = (ratio_ok r \<and> ratios_ok first \<and> ratios_ok second)"

definition layout_inv :: "tile_layout \<Rightarrow> bool" where
  "layout_inv l \<longleftrightarrow>
     distinct (pane_ids l) \<and> focus l \<in> set (pane_ids l)
     \<and> (\<forall>p. prev_focus l = Some p \<longrightarrow> p \<in> set (pane_ids l) \<and> p \<noteq> focus l)
     \<and> ratios_ok (root l)"

subsection \<open>The ratio bounds\<close>

lemma ratio_min_val: "ratio_min = Fin (13421773 / 134217728)"
  by code_simp
lemma ratio_max_val: "ratio_max = Fin (7549747 / 8388608)"
  by code_simp
lemma ratio_half_val: "ratio_half = Fin (1 / 2)"
  by code_simp

subsection \<open>Lemmas on trees\<close>

lemma count_panes_length: "count_panes n = length (collect_ids n)"
  by (induction n) auto

lemma collect_ids_nonempty [simp]: "collect_ids n \<noteq> []"
  by (induction n) auto

lemma find_pane_mut_None: "find_pane_mut n t new = None \<longleftrightarrow> t \<notin> set (collect_ids n)"
  by (induction n) (auto split: option.splits)

lemma find_pane_mut_ids:
  "find_pane_mut n t new = Some n' \<Longrightarrow>
   \<exists>xs ys. collect_ids n = xs @ t # ys \<and> t \<notin> set xs \<and> collect_ids n' = xs @ collect_ids new @ ys"
proof (induction n arbitrary: n')
  case (Pane pid)
  then show ?case by (auto split: if_splits intro: exI [of _ "[]"])
next
  case (Split d r l r')
  show ?case
  proof (cases "find_pane_mut l t new")
    case None
    with Split.prems obtain s where s: "find_pane_mut r' t new = Some s" and n': "n' = Split d r l s"
      by (auto split: option.splits)
    from Split.IH(2) [OF s] obtain xs ys where
      "collect_ids r' = xs @ t # ys" "t \<notin> set xs" "collect_ids s = xs @ collect_ids new @ ys" by blast
    moreover from None have "t \<notin> set (collect_ids l)" by (simp add: find_pane_mut_None)
    ultimately show ?thesis using n'
      by (intro exI [of _ "collect_ids l @ xs"] exI [of _ ys]) auto
  next
    case (Some f)
    with Split.prems have n': "n' = Split d r f r'" by simp
    from Split.IH(1) [OF Some] obtain xs ys where
      "collect_ids l = xs @ t # ys" "t \<notin> set xs" "collect_ids f = xs @ collect_ids new @ ys" by blast
    with n' show ?thesis
      by (intro exI [of _ xs] exI [of _ "ys @ collect_ids r'"]) auto
  qed
qed

lemma remove_pane_None: "remove_pane n t = None \<longleftrightarrow> (\<forall>i \<in> set (collect_ids n). i = t)"
  by (induction n) (auto split: option.splits)

lemma remove_pane_ids:
  "remove_pane n t = Some n' \<Longrightarrow> collect_ids n' = filter (\<lambda>i. i \<noteq> t) (collect_ids n)"
proof (induction n arbitrary: n')
  case (Split d r l r')
  show ?case
  proof (cases "remove_pane l t")
    case None
    then have "filter (\<lambda>i. i \<noteq> t) (collect_ids l) = []"
      by (simp add: remove_pane_None filter_empty_conv)
    with None Split show ?thesis by (auto split: option.splits)
  next
    case (Some f)
    show ?thesis
    proof (cases "remove_pane r' t")
      case None
      then have "filter (\<lambda>i. i \<noteq> t) (collect_ids r') = []"
        by (simp add: remove_pane_None filter_empty_conv)
      with None Some Split show ?thesis by auto
    next
      case (Some s)
      with \<open>remove_pane l t = Some f\<close> Split show ?thesis by auto
    qed
  qed
qed (auto split: if_splits)

lemma remove_pane_absent: "t \<notin> set (collect_ids n) \<Longrightarrow> remove_pane n t = Some n"
  by (induction n) auto

lemma remove_after_insert:
  "find_pane_mut n t (split_node t d new r) = Some n' \<Longrightarrow> new \<notin> set (collect_ids n) \<Longrightarrow>
   remove_pane n' new = Some n"
proof (induction n arbitrary: n')
  case (Pane pid)
  then show ?case by (auto simp: split_node_def split: if_splits)
next
  case (Split d' r' f s)
  show ?case
  proof (cases "find_pane_mut f t (split_node t d new r)")
    case None
    with Split show ?thesis by (auto split: option.splits simp: remove_pane_absent)
  next
    case (Some f')
    with Split show ?thesis by (auto simp: remove_pane_absent)
  qed
qed

lemma swap_pane_ids_ids:
  "collect_ids (swap_pane_ids n a b) =
   map (\<lambda>i. if i = a then b else if i = b then a else i) (collect_ids n)"
  by (induction n) auto

lemma swap_pane_ids_involutive: "swap_pane_ids (swap_pane_ids n a b) a b = n"
  by (induction n) auto

lemma node_set_ratio_at_ids: "collect_ids (fst (node_set_ratio_at n p r)) = collect_ids n"
  by (induction n p r rule: node_set_ratio_at.induct) (auto split: prod.splits)

lemma get_set_ratio_at:
  "node_set_ratio_at n p r = (n', ok) \<Longrightarrow>
   get_ratio_at n' q = (if ok \<and> q = p then Some r else get_ratio_at n q)"
proof (induction n p r arbitrary: n' q ok rule: node_set_ratio_at.induct)
  case (1 d r f s new)
  then show ?case by (cases q) auto
next
  case (2 d r f s p path new)
  then show ?case by (cases q) (auto split: prod.splits if_splits)
qed auto

lemma node_set_ratio_at_ok: "snd (node_set_ratio_at n p r) \<longleftrightarrow> get_ratio_at n p \<noteq> None"
  by (induction n p r rule: node_set_ratio_at.induct) (auto split: prod.splits)

lemma ratio_ok_clamp: "r \<noteq> NaN \<Longrightarrow> ratio_ok (f32_clamp r ratio_min ratio_max)"
  by (cases r) (auto simp: ratio_ok_def f32_clamp_def ratio_min_val ratio_max_val)

lemma ratio_ok_half: "ratio_ok ratio_half"
  by (simp add: ratio_ok_def ratio_min_val ratio_max_val ratio_half_val)

lemma ratio_ok_valid: "ratio_ok (valid_split_ratio r)"
  by (cases r) (simp_all add: valid_split_ratio_def ratio_ok_clamp ratio_ok_half)

lemma ratio_okE:
  assumes "ratio_ok r"
  obtains q where "r = Fin q" and "0 < q" and "q < 1"
  using assms by (cases r) (auto simp: ratio_ok_def ratio_min_val ratio_max_val)

lemma find_pane_mut_ratios:
  "find_pane_mut n t new = Some n' \<Longrightarrow> ratios_ok n \<Longrightarrow> ratios_ok new \<Longrightarrow> ratios_ok n'"
  by (induction n arbitrary: n') (auto split: if_splits option.splits)

lemma remove_pane_ratios: "remove_pane n t = Some n' \<Longrightarrow> ratios_ok n \<Longrightarrow> ratios_ok n'"
  by (induction n arbitrary: n') (auto split: if_splits option.splits)

lemma swap_pane_ids_ratios: "ratios_ok (swap_pane_ids n a b) = ratios_ok n"
  by (induction n) auto

lemma node_set_ratio_at_ratios:
  "ratios_ok n \<Longrightarrow> ratio_ok r \<Longrightarrow> ratios_ok (fst (node_set_ratio_at n p r))"
  by (induction n p r rule: node_set_ratio_at.induct) (auto split: prod.splits)

lemma get_ratio_at_ok: "ratios_ok n \<Longrightarrow> get_ratio_at n p = Some r \<Longrightarrow> ratio_ok r"
  by (induction n p rule: get_ratio_at.induct) (auto split: if_splits)

lemma ratios_ok_split_node: "ratios_ok (split_node t d new (valid_split_ratio r))"
  by (simp add: split_node_def ratio_ok_valid)

subsection \<open>Every operation keeps the invariant\<close>

lemma tile_layout_new_inv: "tile_layout_new n = ((l, i), n') \<Longrightarrow> layout_inv l"
  by (auto simp: tile_layout_new_def alloc_def layout_inv_def pane_ids_def)

lemma set_focus_inv: "layout_inv l \<Longrightarrow> p \<in> set (pane_ids l) \<Longrightarrow> layout_inv (set_focus l p)"
  by (auto simp: layout_inv_def set_focus_def pane_ids_def)

lemma focus_pane_inv: "layout_inv l \<Longrightarrow> layout_inv (focus_pane l p)"
  by (simp add: focus_pane_def set_focus_inv)

text \<open>Writing a new leaf next to an existing one.\<close>

lemma insert_leaf_inv:
  assumes inv: "layout_inv l"
    and found: "find_pane_mut (root l) t (split_node t d new (valid_split_ratio r)) = Some n'"
    and fresh: "new \<notin> set (pane_ids l)"
  shows "layout_inv (l\<lparr>root := n'\<rparr>)" and "new \<in> set (collect_ids n')"
    and "\<exists>xs ys. pane_ids l = xs @ t # ys \<and> collect_ids n' = xs @ t # new # ys"
proof -
  from find_pane_mut_ids [OF found] obtain xs ys where
    ids: "collect_ids (root l) = xs @ t # ys" "collect_ids n' = xs @ t # new # ys"
    by (auto simp: split_node_def)
  moreover have "ratios_ok n'"
    using find_pane_mut_ratios [OF found _ ratios_ok_split_node] inv by (simp add: layout_inv_def)
  ultimately show "layout_inv (l\<lparr>root := n'\<rparr>)"
    using inv fresh by (auto simp: layout_inv_def pane_ids_def)
  show "new \<in> set (collect_ids n')" using ids by simp
  show "\<exists>xs ys. pane_ids l = xs @ t # ys \<and> collect_ids n' = xs @ t # new # ys"
    using ids by (auto simp: pane_ids_def)
qed

lemma split_pane_inv:
  assumes "layout_inv l" and "next_id \<notin> set (pane_ids l)"
    and "split_pane l t d r next_id = ((l', res), next_id')"
  shows "layout_inv l'"
  using assms insert_leaf_inv(1) [OF assms(1) _ assms(2)]
  by (auto simp: split_pane_def alloc_def split: option.splits)

lemma insert_pane_near_inv:
  assumes "layout_inv l"
  shows "layout_inv (fst (insert_pane_near l t m d r f))"
proof (cases "m \<in> set (pane_ids l) \<or> t = m \<or> find_pane_mut (root l) t (split_node t d m (valid_split_ratio r)) = None")
  case True
  with assms show ?thesis by (auto simp: insert_pane_near_def)
next
  case False
  then obtain n' where n': "find_pane_mut (root l) t (split_node t d m (valid_split_ratio r)) = Some n'"
    by auto
  from False have "m \<notin> set (pane_ids l)" by simp
  note ins = insert_leaf_inv [OF assms n' this]
  have "layout_inv (set_focus (l\<lparr>root := n'\<rparr>) m)"
    by (rule set_focus_inv [OF ins(1)]) (use ins(2) in \<open>simp add: pane_ids_def\<close>)
  with False n' ins(1) show ?thesis by (auto simp: insert_pane_near_def Let_def)
qed

lemma remove_leaf_inv:
  assumes "layout_inv l" and "remove_pane (root l) t = Some n'" and "f \<in> set (pane_ids l)" "f \<noteq> t"
    and "\<forall>p. pf = Some p \<longrightarrow> p \<in> set (pane_ids l) \<and> p \<noteq> t \<and> p \<noteq> f"
  shows "layout_inv (l\<lparr>root := n', focus := f, prev_focus := pf\<rparr>)"
  using assms remove_pane_ids [OF assms(2)] remove_pane_ratios [OF assms(2)]
  by (auto simp: layout_inv_def pane_ids_def)

lemma neighbour_mem:
  assumes "distinct ids" and "position (\<lambda>i. i = t) ids = Some pos" and "1 < length ids"
  shows "(if pos + 1 < length ids then ids ! (pos + 1) else ids ! (pos - 1)) \<in> set ids - {t}"
proof -
  from position_Some [OF assms(2)] have pos: "pos < length ids" "ids ! pos = t" by auto
  show ?thesis
  proof (cases "pos + 1 < length ids")
    case True
    with pos assms(1) show ?thesis by (auto simp: nth_eq_iff_index_eq)
  next
    case False
    with pos assms(3) have "pos - 1 < length ids" "pos - 1 \<noteq> pos" by auto
    with False pos assms(1) show ?thesis by (auto simp: nth_eq_iff_index_eq)
  qed
qed

lemma remove_pane_some:
  "distinct (collect_ids n) \<Longrightarrow> 1 < count_panes n \<Longrightarrow> \<exists>n'. remove_pane n t = Some n'"
proof (rule ccontr)
  assume d: "distinct (collect_ids n)" and c: "1 < count_panes n"
    and "\<nexists>n'. remove_pane n t = Some n'"
  then have "set (collect_ids n) \<subseteq> {t}" by (auto simp: remove_pane_None)
  then have "card (set (collect_ids n)) \<le> 1" using card_mono [of "{t}"] by simp
  with d c show False by (simp add: distinct_card count_panes_length)
qed

text \<open>Closing the focused pane of a well-formed layout with several panes never panics, and moves the
  focus to the previously focused pane, or to the neighbour in reading order.\<close>

lemma close_focused_step:
  assumes inv: "layout_inv l" and many: "1 < pane_count l"
  obtains l' where "close_focused l = Some (l', True)" and "layout_inv l'"
    and "pane_ids l' = filter (\<lambda>i. i \<noteq> focus l) (pane_ids l)"
    and "\<forall>p. prev_focus l = Some p \<longrightarrow> focus l' = p" and "prev_focus l' = None"
proof -
  let ?ids = "pane_ids l"
  from inv have d: "distinct ?ids" and mem: "focus l \<in> set ?ids" by (auto simp: layout_inv_def)
  from position_exists [OF mem, of "\<lambda>i. i = focus l"]
  obtain pos where pos: "position (\<lambda>i. i = focus l) ?ids = Some pos" by auto
  obtain n' where n': "remove_pane (root l) (focus l) = Some n'"
    using remove_pane_some [of "root l"] d many by (auto simp: pane_ids_def pane_count_def)
  let ?ord = "if pos + 1 < length ?ids then ?ids ! (pos + 1) else ?ids ! (pos - 1)"
  let ?f = "case prev_focus l of Some prev \<Rightarrow> if prev \<noteq> focus l \<and> prev \<in> set ?ids then prev else ?ord
            | None \<Rightarrow> ?ord"
  have "?ord \<in> set ?ids - {focus l}"
    using neighbour_mem [OF d pos] many by (simp add: pane_count_def count_panes_length pane_ids_def)
  then have f: "?f \<in> set ?ids" "?f \<noteq> focus l" by (auto split: option.split)
  let ?l = "l\<lparr>root := n', focus := ?f, prev_focus := None\<rparr>"
  have "close_focused l = Some (?l, True)"
    using many pos n' by (simp add: close_focused_def Let_def)
  moreover have "layout_inv ?l" by (rule remove_leaf_inv [OF inv n' f]) simp
  moreover have "pane_ids ?l = filter (\<lambda>i. i \<noteq> focus l) ?ids"
    using remove_pane_ids [OF n'] by (simp add: pane_ids_def)
  moreover have "\<forall>p. prev_focus l = Some p \<longrightarrow> ?f = p"
    using inv by (auto simp: layout_inv_def)
  ultimately show thesis by (intro that) auto
qed

lemma close_focused_inv:
  assumes "layout_inv l"
  shows "\<exists>l' b. close_focused l = Some (l', b) \<and> layout_inv l'"
proof (cases "pane_count l \<le> 1")
  case True
  with assms show ?thesis
    by (intro exI [of _ l] exI [of _ False]) (simp add: close_focused_def)
next
  case False
  then have "1 < pane_count l" by simp
  from close_focused_step [OF assms this] show ?thesis by metis
qed

lemma close_pane_inv:
  assumes inv: "layout_inv l"
  shows "\<exists>l' b. close_pane l p = Some (l', b) \<and> layout_inv l'"
proof (cases "focus l = p")
  case True
  with close_focused_inv [OF inv] show ?thesis by (simp add: close_pane_def)
next
  case other: False
  show ?thesis
  proof (cases "pane_count l \<le> 1 \<or> p \<notin> set (pane_ids l)")
    case True
    with other inv show ?thesis
      by (intro exI [of _ l] exI [of _ False]) (simp add: close_pane_def)
  next
    case False
    then obtain n' where n': "remove_pane (root l) p = Some n'"
      using remove_pane_some [of "root l"] inv
      by (auto simp: layout_inv_def pane_ids_def pane_count_def)
    let ?pf = "if prev_focus l = Some p then None else prev_focus l"
    have "layout_inv (l\<lparr>root := n', focus := focus l, prev_focus := ?pf\<rparr>)"
      by (rule remove_leaf_inv [OF inv n']) (use inv other in \<open>auto simp: layout_inv_def\<close>)
    with False other n' show ?thesis by (auto simp: close_pane_def Let_def)
  qed
qed

lemma swap_image:
  "a \<in> A \<Longrightarrow> b \<in> A \<Longrightarrow> (\<lambda>i. if i = a then b else if i = b then a else i) ` A = A"
  by (auto simp: image_iff)

lemma swap_inj: "inj_on (\<lambda>i. if i = a then b else if i = b then a else i) A"
  by (rule inj_onI) (simp split: if_splits)

lemma swap_panes_inv: "layout_inv l \<Longrightarrow> layout_inv (fst (swap_panes l a b))"
proof (cases "a = b \<or> a \<notin> set (pane_ids l) \<or> b \<notin> set (pane_ids l)")
  case True
  moreover assume "layout_inv l"
  ultimately show ?thesis by (auto simp: swap_panes_def)
next
  case False
  then have mem: "a \<in> set (pane_ids l)" "b \<in> set (pane_ids l)" by auto
  assume inv: "layout_inv l"
  let ?l = "l\<lparr>root := swap_pane_ids (root l) a b\<rparr>"
  have ids: "pane_ids ?l = map (\<lambda>i. if i = a then b else if i = b then a else i) (pane_ids l)"
    by (simp add: pane_ids_def swap_pane_ids_ids)
  then have "set (pane_ids ?l) = set (pane_ids l)"
    using swap_image [OF mem] by (simp only: set_map)
  moreover have "distinct (pane_ids ?l)"
    unfolding ids distinct_map using inv by (simp add: layout_inv_def swap_inj)
  ultimately have "layout_inv ?l"
    using inv by (simp add: layout_inv_def swap_pane_ids_ratios)
  with False show ?thesis by (simp add: swap_panes_def)
qed

lemma set_ratio_at_simps:
  "root (fst (set_ratio_at l p r)) = fst (node_set_ratio_at (root l) p (f32_clamp r ratio_min ratio_max))"
  "focus (fst (set_ratio_at l p r)) = focus l"
  "prev_focus (fst (set_ratio_at l p r)) = prev_focus l"
  "pane_ids (fst (set_ratio_at l p r)) = pane_ids l"
  by (simp_all add: set_ratio_at_def pane_ids_def split_beta node_set_ratio_at_ids)

lemma set_ratio_at_inv: "layout_inv l \<Longrightarrow> r \<noteq> NaN \<Longrightarrow> layout_inv (fst (set_ratio_at l p r))"
  by (simp add: layout_inv_def set_ratio_at_simps node_set_ratio_at_ratios ratio_ok_clamp)

text \<open>A resize moves at most one ratio: the ids, the focus and the focus history stay.\<close>

lemma resize_focused_cases:
  "resize_focused R l nav delta area = l
   \<or> (\<exists>p r. resize_focused R l nav delta area =
          fst (set_ratio_at l p (f32_add r (if nav = NavRight \<or> nav = NavDown then delta else f32_neg delta)))
        \<and> (get_ratio_at (root l) p = Some r \<or> r = ratio_half))"
proof (cases "List.find info_is_focused (panes R l area)")
  case None
  then show ?thesis by (simp add: resize_focused_def)
next
  case (Some foc)
  define best where "best =
    (let dir = (if nav = NavLeft \<or> nav = NavRight then Horizontal else Vertical); ss = splits R l area in
     case nearest_resize_split ss dir (info_rect foc) nav of
       Some s \<Rightarrow> Some s
     | None \<Rightarrow> nearest_resize_split ss dir (info_rect foc) (opposite_direction nav))"
  define adj where "adj = (if nav = NavRight \<or> nav = NavDown then delta else f32_neg delta)"
  have eq: "resize_focused R l nav delta area =
    (case best of
       None \<Rightarrow> l
     | Some s \<Rightarrow> fst (set_ratio_at l (border_path s)
         (f32_add (case get_ratio_at (root l) (border_path s) of Some r \<Rightarrow> r | None \<Rightarrow> ratio_half) adj)))"
    by (simp only: resize_focused_def Some option.case Let_def best_def adj_def)
  show ?thesis
  proof (cases best)
    case None
    with eq show ?thesis by simp
  next
    case (Some s)
    let ?r = "case get_ratio_at (root l) (border_path s) of Some r \<Rightarrow> r | None \<Rightarrow> ratio_half"
    have "get_ratio_at (root l) (border_path s) = Some ?r \<or> ?r = ratio_half"
      by (simp split: option.split)
    moreover have "resize_focused R l nav delta area =
        fst (set_ratio_at l (border_path s) (f32_add ?r adj))"
      by (simp only: eq Some option.case)
    ultimately show ?thesis unfolding adj_def by blast
  qed
qed

lemma f32_add_not_NaN: "f32_is_finite a \<Longrightarrow> b \<noteq> NaN \<Longrightarrow> f32_add a b \<noteq> NaN"
  by (cases a; cases b) (auto simp: f32_of_rat_def Let_def)

lemma f32_neg_NaN: "f32_neg r = NaN \<longleftrightarrow> r = NaN"
  by (cases r) auto

lemma resize_focused_ratios:
  assumes "ratios_ok (root l)" and "delta \<noteq> NaN"
  shows "ratios_ok (root (resize_focused R l nav delta area))"
proof (cases "resize_focused R l nav delta area = l")
  case True
  with assms show ?thesis by simp
next
  case False
  then obtain p r where eq: "resize_focused R l nav delta area =
      fst (set_ratio_at l p (f32_add r (if nav = NavRight \<or> nav = NavDown then delta else f32_neg delta)))"
    and "get_ratio_at (root l) p = Some r \<or> r = ratio_half"
    using resize_focused_cases [of R l nav delta area] by blast
  then have "ratio_ok r"
    using assms(1) get_ratio_at_ok ratio_ok_half by auto
  then have "f32_is_finite r" by (simp add: ratio_ok_def)
  with assms(2) have "f32_add r (if nav = NavRight \<or> nav = NavDown then delta else f32_neg delta) \<noteq> NaN"
    by (intro f32_add_not_NaN) (auto simp: f32_neg_NaN)
  then show ?thesis
    unfolding eq by (simp add: set_ratio_at_simps node_set_ratio_at_ratios ratio_ok_clamp assms(1))
qed

lemma resize_focused_frame:
  "pane_ids (resize_focused R l nav delta area) = pane_ids l"
  "focus (resize_focused R l nav delta area) = focus l"
  "prev_focus (resize_focused R l nav delta area) = prev_focus l"
  using resize_focused_cases [of R l nav delta area] by (auto simp: set_ratio_at_simps)

lemma resize_focused_inv:
  "layout_inv l \<Longrightarrow> delta \<noteq> NaN \<Longrightarrow> layout_inv (resize_focused R l nav delta area)"
  by (simp add: layout_inv_def resize_focused_frame resize_focused_ratios)

lemma resize_pane_frame:
  "pane_ids (fst (resize_pane R l p nav delta area)) = pane_ids l"
  "focus (fst (resize_pane R l p nav delta area)) = focus l"
  "prev_focus (fst (resize_pane R l p nav delta area)) = prev_focus l"
  using resize_focused_frame [of R "l\<lparr>focus := p\<rparr>" nav delta area]
  by (simp_all add: resize_pane_def Let_def pane_ids_def)

lemma resize_pane_inv:
  assumes "layout_inv l" and "delta \<noteq> NaN"
  shows "layout_inv (fst (resize_pane R l p nav delta area))"
proof -
  have "ratios_ok (root (fst (resize_pane R l p nav delta area)))"
    using assms resize_focused_ratios [of "l\<lparr>focus := p\<rparr>" delta R nav area]
    by (simp add: resize_pane_def Let_def layout_inv_def)
  with assms show ?thesis by (simp add: layout_inv_def resize_pane_frame)
qed

end
