(* ===== verification/Layout_Theorems.thy ===== *)
theory Layout_Theorems
  imports Layout
begin

text \<open>
  What the layout of \<open>Layout\<close> promises: the geometry it computes (every cell of the area belongs to
  exactly one pane, a predicted split is the split that happens), the behaviour of its operations on
  reachable layouts, and its directional navigation.
\<close>

subsection \<open>Geometry\<close>

text \<open>
  \<open>Rect::new\<close> returns the rectangle it is given whenever the far edges stay below \<open>u16::MAX\<close>.
  A rectangle covers a set of cells; \<open>rect_fits\<close> keeps its far edges representable.
\<close>

definition rect_fits :: "rect \<Rightarrow> bool" where
  "rect_fits r \<longleftrightarrow> unat (rect_x r) + unat (rect_width r) < 2 ^ 16
                \<and> unat (rect_y r) + unat (rect_height r) < 2 ^ 16"

definition rect_new_exact :: "'b ratatui \<Rightarrow> bool" where
  "rect_new_exact R \<longleftrightarrow>
     (\<forall>x y w h. rect_fits \<lparr>rect_x = x, rect_y = y, rect_width = w, rect_height = h\<rparr> \<longrightarrow>
        rect_new R x y w h = \<lparr>rect_x = x, rect_y = y, rect_width = w, rect_height = h\<rparr>)"

definition in_rect :: "rect \<Rightarrow> nat \<times> nat \<Rightarrow> bool" where
  "in_rect r c \<longleftrightarrow>
     unat (rect_x r) \<le> fst c \<and> fst c < unat (rect_x r) + unat (rect_width r)
     \<and> unat (rect_y r) \<le> snd c \<and> snd c < unat (rect_y r) + unat (rect_height r)"

lemma rect_newD:
  "rect_new_exact R \<Longrightarrow> rect_fits \<lparr>rect_x = x, rect_y = y, rect_width = w, rect_height = h\<rparr> \<Longrightarrow>
   rect_new R x y w h = \<lparr>rect_x = x, rect_y = y, rect_width = w, rect_height = h\<rparr>"
  by (simp add: rect_new_exact_def)

lemma split_amount:
  fixes w :: u16
  assumes "ratio_ok r"
  shows "unat (f32_as_u16 (f32_round (f32_mul (u16_as_f32 w) r)))
         + unat (saturating_sub w (f32_as_u16 (f32_round (f32_mul (u16_as_f32 w) r)))) = unat w"
proof -
  from assms obtain q where "r = Fin q" "0 < q" "q < 1" by (rule ratio_okE)
  then have "f32_as_u16 (f32_round (f32_mul (u16_as_f32 w) r)) \<le> w"
    using f32_scale_le [of q w] by simp
  then show ?thesis by (simp add: sat_simps word_le_nat_alt)
qed

text \<open>A split cuts a rectangle into two that cover it exactly, without overlap.\<close>

lemma split_rect_tiles:
  assumes R: "rect_new_exact R" and fits: "rect_fits area" and ok: "ratio_ok r"
    and split: "split_rect R area d r = (a, b)"
  shows "rect_fits a" and "rect_fits b"
    and "in_rect area c \<longleftrightarrow> in_rect a c \<or> in_rect b c" and "\<not> (in_rect a c \<and> in_rect b c)"
proof -
  define n where "n = (case d of Horizontal \<Rightarrow> rect_width area | Vertical \<Rightarrow> rect_height area)"
  define k where "k = f32_as_u16 (f32_round (f32_mul (u16_as_f32 n) r))"
  have sum: "unat k + unat (saturating_sub n k) = unat n"
    unfolding k_def by (rule split_amount [OF ok])
  have far: "unat (rect_x area) + unat (rect_width area) < 65536"
    "unat (rect_y area) + unat (rect_height area) < 65536"
    using fits by (simp_all add: rect_fits_def)
  have "rect_fits a \<and> rect_fits b \<and> (in_rect area c \<longleftrightarrow> in_rect a c \<or> in_rect b c)
        \<and> \<not> (in_rect a c \<and> in_rect b c)"
  proof (cases d)
    case Horizontal
    then have n: "n = rect_width area" by (simp add: n_def)
    have x: "unat (rect_x area + k) = unat (rect_x area) + unat k"
      using far sum by (intro unat_add_exact) (simp add: n)
    have ab: "a = \<lparr>rect_x = rect_x area, rect_y = rect_y area, rect_width = k, rect_height = rect_height area\<rparr>"
      "b = \<lparr>rect_x = rect_x area + k, rect_y = rect_y area, rect_width = saturating_sub n k,
             rect_height = rect_height area\<rparr>"
      using split far sum x unfolding k_def n
      by (auto simp: split_rect_def Horizontal Let_def rect_newD [OF R] rect_fits_def)
    show ?thesis using far sum unfolding ab rect_fits_def in_rect_def by (auto simp: x n)
  next
    case Vertical
    then have n: "n = rect_height area" by (simp add: n_def)
    have y: "unat (rect_y area + k) = unat (rect_y area) + unat k"
      using far sum by (intro unat_add_exact) (simp add: n)
    have ab: "a = \<lparr>rect_x = rect_x area, rect_y = rect_y area, rect_width = rect_width area, rect_height = k\<rparr>"
      "b = \<lparr>rect_x = rect_x area, rect_y = rect_y area + k, rect_width = rect_width area,
             rect_height = saturating_sub n k\<rparr>"
      using split far sum y unfolding k_def n
      by (auto simp: split_rect_def Vertical Let_def rect_newD [OF R] rect_fits_def)
    show ?thesis using far sum unfolding ab rect_fits_def in_rect_def by (auto simp: y n)
  qed
  then show "rect_fits a" "rect_fits b" "in_rect area c \<longleftrightarrow> in_rect a c \<or> in_rect b c"
    "\<not> (in_rect a c \<and> in_rect b c)" by auto
qed

lemma collect_panes_tiles:
  assumes "rect_new_exact R"
  shows "rect_fits area \<Longrightarrow> ratios_ok n \<Longrightarrow>
    length (filter (\<lambda>p. in_rect (info_rect p) c) (collect_panes R n area f)) = (if in_rect area c then 1 else 0)"
proof (induction n arbitrary: area)
  case (Split d r first second)
  obtain a b where ab: "split_rect R area d r = (a, b)" by (cases "split_rect R area d r")
  from Split.prems have "ratio_ok r" by simp
  note t = split_rect_tiles [OF assms Split.prems(1) this ab]
  from Split.IH(1) [OF t(1)] Split.IH(2) [OF t(2)] Split.prems(2) t(3,4) [of c] ab
  show ?case by auto
qed simp

lemma collect_panes_ids: "map info_id (collect_panes R n area f) = collect_ids n"
  by (induction n arbitrary: area) (auto split: prod.split)

lemma collect_panes_focused:
  "map info_is_focused (collect_panes R n area f) = map (\<lambda>i. i = f) (collect_ids n)"
  by (induction n arbitrary: area) (auto split: prod.split)

text \<open>Replacing a leaf replaces exactly its entry by the entries of the new subtree in its rectangle.\<close>

lemma collect_panes_find_pane_mut:
  "find_pane_mut n t new = Some n' \<Longrightarrow>
   \<exists>xs p ys. collect_panes R n area f = xs @ p # ys \<and> info_id p = t \<and> (\<forall>x \<in> set xs. info_id x \<noteq> t)
     \<and> collect_panes R n' area f = xs @ collect_panes R new (info_rect p) f @ ys"
proof (induction n arbitrary: n' area)
  case (Pane pid)
  then show ?case by (auto split: if_splits intro: exI [of _ "[]"])
next
  case (Split d r l r')
  obtain a b where ab: "split_rect R area d r = (a, b)" by (cases "split_rect R area d r")
  show ?case
  proof (cases "find_pane_mut l t new")
    case None
    with Split.prems obtain s where s: "find_pane_mut r' t new = Some s" and n': "n' = Split d r l s"
      by (auto split: option.splits)
    from Split.IH(2) [OF s, of b] obtain xs p ys where
      "collect_panes R r' b f = xs @ p # ys" "info_id p = t" "\<forall>x \<in> set xs. info_id x \<noteq> t"
      "collect_panes R s b f = xs @ collect_panes R new (info_rect p) f @ ys" by blast
    moreover have "\<forall>x \<in> set (collect_panes R l a f). info_id x \<noteq> t"
      using None collect_panes_ids [of R l a f] by (metis find_pane_mut_None image_eqI list.set_map)
    ultimately show ?thesis using n' ab
      by (intro exI [of _ "collect_panes R l a f @ xs"] exI [of _ p] exI [of _ ys]) auto
  next
    case (Some l')
    with Split.prems have n': "n' = Split d r l' r'" by simp
    from Split.IH(1) [OF Some, of a] obtain xs p ys where
      "collect_panes R l a f = xs @ p # ys" "info_id p = t" "\<forall>x \<in> set xs. info_id x \<noteq> t"
      "collect_panes R l' a f = xs @ collect_panes R new (info_rect p) f @ ys" by blast
    with n' ab show ?thesis
      by (intro exI [of _ xs] exI [of _ p] exI [of _ "ys @ collect_panes R r' b f"]) auto
  qed
qed

lemma collect_splits_paths:
  "map (\<lambda>s. (border_path s, border_ratio s)) (collect_splits R n area path) = split_ratios_at n path"
  by (induction n arbitrary: area path) (auto split: prod.split)

lemma split_ratios_at_prefix:
  "split_ratios_at n path = map (apfst ((@) path)) (split_ratios_at n [])"
proof (induction n arbitrary: path)
  case (Split d r f s)
  show ?case
    using Split.IH(1) [of "path @ [False]"] Split.IH(2) [of "path @ [True]"]
      Split.IH(1) [of "[False]"] Split.IH(2) [of "[True]"]
    by (simp add: apfst_def map_prod_def split_beta)
qed simp

lemma split_ratios_get: "(q, r) \<in> set (split_ratios n) \<longleftrightarrow> get_ratio_at n q = Some r"
  unfolding split_ratios_def
proof (induction n arbitrary: q)
  case (Split d r' f s)
  show ?case
  proof (cases q)
    case Nil
    then show ?thesis
      by (auto simp: split_ratios_at_prefix [of f "[False]"] split_ratios_at_prefix [of s "[True]"])
  next
    case (Cons b q')
    have "(b # q', r) \<in> set (split_ratios_at f [False]) \<longleftrightarrow> \<not> b \<and> (q', r) \<in> set (split_ratios_at f [])"
      by (subst split_ratios_at_prefix) (auto simp: image_iff, force)
    moreover have "(b # q', r) \<in> set (split_ratios_at s [True]) \<longleftrightarrow> b \<and> (q', r) \<in> set (split_ratios_at s [])"
      by (subst split_ratios_at_prefix) (auto simp: image_iff, force)
    ultimately show ?thesis using Split.IH [of q'] Cons by auto
  qed
qed simp

lemma length_split_ratios: "Suc (length (split_ratios_at n path)) = count_panes n"
proof (induction n arbitrary: path)
  case (Split d r f s)
  show ?case using Split.IH(1) [of "path @ [False]"] Split.IH(2) [of "path @ [True]"] by simp
qed simp

subsection \<open>Reachable layouts\<close>

text \<open>
  The operations a tab performs on its layout, with the id counter as part of the state.  A split
  allocates while the counter has not wrapped; an inserted pane carries an id allocated earlier; the
  ratios and deltas that arrive are numbers.
\<close>

inductive layout_step :: "'b ratatui \<Rightarrow> tile_layout \<times> u32 \<Rightarrow> tile_layout \<times> u32 \<Rightarrow> bool" for R where
  step_split: "n + 1 \<noteq> 0 \<Longrightarrow> split_pane l t d r n = ((l', res), n') \<Longrightarrow> layout_step R (l, n) (l', n')"
| step_insert: "m < n \<Longrightarrow> layout_step R (l, n) (fst (insert_pane_near l t m d r f), n)"
| step_close: "close_pane l p = Some (l', b) \<Longrightarrow> layout_step R (l, n) (l', n)"
| step_focus: "layout_step R (l, n) (focus_pane l p, n)"
| step_swap: "layout_step R (l, n) (fst (swap_panes l p q), n)"
| step_ratio: "r \<noteq> NaN \<Longrightarrow> layout_step R (l, n) (fst (set_ratio_at l path r), n)"
| step_resize: "delta \<noteq> NaN \<Longrightarrow> layout_step R (l, n) (fst (resize_pane R l p nav delta area), n)"

inductive_simps layout_step_iff: "layout_step R (l, n) (l', n')"





lemma swap_panes_ids: "set (pane_ids (fst (swap_panes l a b))) = set (pane_ids l)"
proof (cases "a = b \<or> a \<notin> set (pane_ids l) \<or> b \<notin> set (pane_ids l)")
  case False
  then have "a \<in> set (pane_ids l)" "b \<in> set (pane_ids l)" by auto
  from swap_image [OF this] False show ?thesis
    by (simp add: swap_panes_def pane_ids_def swap_pane_ids_ids del: image_insert)
qed (auto simp: swap_panes_def)





subsection \<open>Properties\<close>

definition exact_ratatui :: "unit ratatui" where
  "exact_ratatui =
     \<lparr>rect_new = (\<lambda>x y w h. \<lparr>rect_x = x, rect_y = y, rect_width = w, rect_height = h\<rparr>),
      borders_none = ()\<rparr>"

lemma exact_ratatui_ok: "rect_new_exact exact_ratatui"
  by (simp add: rect_new_exact_def exact_ratatui_def)

lemma neighbour_eq:
  assumes "xs @ t # ys = ids" and "position (\<lambda>i. i = t) ids = Some pos" and "t \<notin> set xs"
    and "1 < length ids"
  shows "(if pos + 1 < length ids then ids ! (pos + 1) else ids ! (pos - 1)) =
         (if ys \<noteq> [] then hd ys else last xs)"
proof -
  have "pos = length xs"
    using position_append [of xs "\<lambda>i. i = t" t ys] assms(1,2,3) by auto
  with assms(1,4) show ?thesis
    by (cases ys) (auto simp: nth_append last_conv_nth)
qed

lemma close_focused_focus:
  assumes inv: "layout_inv l" and none: "prev_focus l = None" and ids: "pane_ids l = xs @ focus l # ys"
    and eq: "close_focused l = Some (l', True)"
  shows "focus l' = (if ys \<noteq> [] then hd ys else last xs)"
proof -
  have many: "1 < pane_count l" using eq by (auto simp: close_focused_def split: if_splits)
  have "focus l \<notin> set xs" using inv ids by (simp add: layout_inv_def)
  then have pos: "position (\<lambda>i. i = focus l) (pane_ids l) = Some (length xs)"
    unfolding ids by (intro position_append) auto
  from neighbour_eq [OF ids [symmetric] pos \<open>focus l \<notin> set xs\<close>] many
  have "(if length xs + 1 < length (pane_ids l) then pane_ids l ! (length xs + 1)
         else pane_ids l ! (length xs - 1)) = (if ys \<noteq> [] then hd ys else last xs)"
    by (simp add: pane_count_def count_panes_length pane_ids_def)
  with many pos none eq show ?thesis
    by (auto simp: close_focused_def Let_def simp del: One_nat_def split: option.splits if_splits)
qed

lemma collect_panes_swap:
  "map info_rect (collect_panes R (swap_pane_ids n a b) area f) = map info_rect (collect_panes R n area f')"
  by (induction n arbitrary: area) (auto split: prod.split)

lemma node_set_ratio_at_miss: "node_set_ratio_at n p r = (n', False) \<Longrightarrow> n' = n"
  by (induction n p r arbitrary: n' rule: node_set_ratio_at.induct) (auto split: prod.splits if_splits)

lemma node_set_ratio_at_same: "get_ratio_at n p = Some r \<Longrightarrow> node_set_ratio_at n p r = (n, True)"
  by (induction n p r rule: node_set_ratio_at.induct) (auto split: prod.splits if_splits)

lemma ratios_eq_refl:
  "ratios_ok n \<Longrightarrow> ratios_eq (split_ratios_at n path) (split_ratios_at n path)"
proof (induction n arbitrary: path)
  case (Split d r f s)
  then have "f32_eq r r" by (cases r) (auto simp: ratio_ok_def)
  with Split show ?case by (simp add: ratios_eq_def list_all2_appendI)
qed (simp add: ratios_eq_def)

lemma ratios_eq_imp_eq: "ratios_eq xs ys \<Longrightarrow> xs = ys"
  unfolding ratios_eq_def
proof (induction rule: list_all2_induct)
  case (Cons x xs y ys)
  obtain p r q s where "x = (p, r)" "y = (q, s)" by (cases x; cases y)
  with Cons show ?case by (cases r; cases s) auto
qed simp

lemma set_ratio_changes:
  assumes "ratios_ok n" and "node_set_ratio_at n p r = (n', ok)" and "ratio_ok r"
  shows "ratios_eq (split_ratios n') (split_ratios n) \<longleftrightarrow> n' = n"
proof
  assume "ratios_eq (split_ratios n') (split_ratios n)"
  then have eq: "split_ratios n' = split_ratios n" by (rule ratios_eq_imp_eq)
  show "n' = n"
  proof (cases ok)
    case True
    with assms(2) have "get_ratio_at n' p = Some r" by (simp add: get_set_ratio_at)
    then have "get_ratio_at n p = Some r" by (simp flip: split_ratios_get add: eq)
    with assms(2) show ?thesis by (simp add: node_set_ratio_at_same)
  next
    case False
    with assms(2) show ?thesis by (auto dest: node_set_ratio_at_miss)
  qed
next
  assume "n' = n"
  with assms(1) show "ratios_eq (split_ratios n') (split_ratios n)"
    by (simp add: split_ratios_def ratios_eq_refl)
qed

text \<open>C1: reachable layouts.\<close>


text \<open>
C27. The rectangles computed for the panes of a well-formed layout tile the area: every cell
inside the area belongs to exactly one pane and no pane covers a cell outside it, through the
f32 rounding of every split ratio.
\<close>

theorem panes_tile_area:
  assumes "rect_new_exact R" and "rect_fits area" and "layout_inv l"
  shows "length (filter (\<lambda>p. in_rect (info_rect p) c) (panes R l area)) = (if in_rect area c then 1 else 0)"
  using assms collect_panes_tiles unfolding panes_def layout_inv_def by blast

lemma collect_panes_id_set: "info_id ` set (collect_panes R n area f) = set (collect_ids n)"
  by (metis collect_panes_ids list.set_map)

lemma panes_position_None:
  "position (\<lambda>info. info_id info = t) (panes R l area) = None \<longleftrightarrow> t \<notin> set (pane_ids l)"
  unfolding panes_def pane_ids_def collect_panes_id_set [of R _ area "focus l", symmetric]
  by (auto simp: position_None)

text \<open>
C35. panes_after_split predicts the geometry of the split it describes: it fails exactly when
split_pane fails, and otherwise its rectangles are those of the layout after the split, with the
new pane at the returned index.
\<close>

theorem panes_after_split_predicts:
  assumes split: "split_pane l target d r n = ((l', res), n')"
  shows "case res of
      None \<Rightarrow> panes_after_split R l area target d r = None
    | Some new \<Rightarrow> \<exists>ps i. panes_after_split R l area target d r = Some (ps, i)
        \<and> map info_rect ps = map info_rect (panes R l' area) \<and> pane_ids l' ! i = new"
proof (cases res)
  case None
  then have "target \<notin> set (pane_ids l)"
    using split by (auto simp: split_pane_def alloc_def pane_ids_def find_pane_mut_None split: option.splits)
  then show ?thesis
    using None panes_position_None [of target R l area] by (simp add: panes_after_split_def)
next
  case (Some new)
  with split obtain x where
    x: "find_pane_mut (root l) target (split_node target d new (valid_split_ratio r)) = Some x"
    and l': "l' = l\<lparr>root := x\<rparr>"
    by (auto simp: split_pane_def alloc_def split: option.splits)
  from collect_panes_find_pane_mut [OF x, of R area "focus l"]
  obtain xs p ys where before: "panes R l area = xs @ p # ys" "info_id p = target"
    "\<forall>x \<in> set xs. info_id x \<noteq> target"
    and after: "panes R l' area =
      xs @ collect_panes R (split_node target d new (valid_split_ratio r)) (info_rect p) (focus l) @ ys"
    by (auto simp: panes_def l')
  obtain a b where ab: "split_rect R (info_rect p) d (valid_split_ratio r) = (a, b)"
    by (cases "split_rect R (info_rect p) d (valid_split_ratio r)")
  have "position (\<lambda>info. info_id info = target) (panes R l area) = Some (length xs)"
    unfolding before(1) using before(2,3) by (intro position_append) auto
  moreover have "pane_ids l' = map info_id (panes R l' area)"
    by (simp add: panes_def pane_ids_def collect_panes_ids)
  ultimately show ?thesis
    by (simp add: Some panes_after_split_def before(1) ab after split_node_def nth_append)
qed

lemma close_split_pane:
  assumes "layout_inv l" and "n \<notin> set (pane_ids l)"
    and "split_pane l target d r n = ((l', Some new), n')"
  shows "close_pane l' new = Some (l, True)"
proof -
  from assms(3) obtain x where
    x: "find_pane_mut (root l) target (split_node target d new (valid_split_ratio r)) = Some x"
    and l': "l' = l\<lparr>root := x\<rparr>" and new: "new = n"
    by (auto simp: split_pane_def alloc_def split: option.splits)
  note fresh = assms(2) [folded new]
  have "remove_pane x new = Some (root l)"
    by (rule remove_after_insert [OF x]) (use fresh in \<open>simp add: pane_ids_def\<close>)
  moreover have "focus l \<noteq> new" "prev_focus l \<noteq> Some new"
    using assms(1) fresh by (auto simp: layout_inv_def)
  moreover obtain xs ys where "collect_ids x = xs @ target # new # ys"
    using insert_leaf_inv(3) [OF assms(1) x fresh] by auto
  ultimately show ?thesis
    by (simp add: close_pane_def l' pane_count_def pane_ids_def count_panes_length)
qed

theorem split_close_roundtrip:
  assumes "layout_inv l" and "n \<notin> set (pane_ids l)"
    and "split_pane l target d r n = ((l', Some new), n')"
  shows "close_pane l' new = Some (l, True)"
  using assms by (rule close_split_pane)

text \<open>
C36. Closing the focused pane of a well-formed layout refuses the last pane; otherwise it
removes exactly that pane and returns the focus to the previously focused pane, or without one
to the next pane in reading order, or to the previous one for the last pane.
\<close>

theorem close_focused_behaviour:
  assumes "layout_inv l" and "pane_ids l = xs @ focus l # ys"
  shows "if pane_count l \<le> 1 then close_focused l = Some (l, False)
    else \<exists>l'. close_focused l = Some (l', True) \<and> pane_ids l' = xs @ ys \<and> prev_focus l' = None
      \<and> focus l' = (case prev_focus l of Some p \<Rightarrow> p | None \<Rightarrow> if ys \<noteq> [] then hd ys else last xs)"
proof (cases "pane_count l \<le> 1")
  case True
  then show ?thesis by (simp add: close_focused_def)
next
  case False
  then have "1 < pane_count l" by simp
  from close_focused_step [OF assms(1) this] obtain l' where l': "close_focused l = Some (l', True)"
    "pane_ids l' = filter (\<lambda>i. i \<noteq> focus l) (pane_ids l)"
    "\<forall>p. prev_focus l = Some p \<longrightarrow> focus l' = p" "prev_focus l' = None" .
  have "focus l \<notin> set xs" "focus l \<notin> set ys" using assms by (auto simp: layout_inv_def)
  then have "filter (\<lambda>i. i \<noteq> focus l) (pane_ids l) = xs @ ys"
    unfolding assms(2) by (simp add: filter_absent)
  moreover have "focus l' = (case prev_focus l of Some p \<Rightarrow> p | None \<Rightarrow> if ys \<noteq> [] then hd ys else last xs)"
    using l'(3) close_focused_focus [OF assms(1) _ assms(2) l'(1)] by (auto split: option.split)
  ultimately show ?thesis using False l' by auto
qed

theorem swap_panes_geometry:
  assumes "swap_panes l a b = (l', True)"
  shows "map info_rect (panes R l' area) = map info_rect (panes R l area)
    \<and> pane_ids l' = map (\<lambda>i. if i = a then b else if i = b then a else i) (pane_ids l)
    \<and> focus l' = focus l \<and> swap_panes l' a b = (l, True)"
proof -
  from assms have l': "l' = l\<lparr>root := swap_pane_ids (root l) a b\<rparr>" and mem: "a \<noteq> b"
    "a \<in> set (pane_ids l)" "b \<in> set (pane_ids l)"
    by (auto simp: swap_panes_def split: if_splits)
  have "set (pane_ids l') = set (pane_ids l)"
    using swap_panes_ids [of l a b] assms by simp
  with mem show ?thesis
    by (simp add: l' swap_panes_def swap_pane_ids_involutive panes_def
        collect_panes_swap [where f' = "focus l"] pane_ids_def swap_pane_ids_ids)
qed


lemma resize_focused_change:
  assumes "ratios_ok (root l)" and "delta \<noteq> NaN"
  shows "\<exists>path. (\<forall>q. q \<noteq> path \<longrightarrow>
      get_ratio_at (root (resize_focused R l nav delta area)) q = get_ratio_at (root l) q)
    \<and> (ratios_eq (split_ratios (root (resize_focused R l nav delta area))) (split_ratios (root l)) \<longleftrightarrow>
       root (resize_focused R l nav delta area) = root l)"
proof (cases "resize_focused R l nav delta area = l")
  case True
  with assms(1) show ?thesis by (simp add: split_ratios_def ratios_eq_refl)
next
  case False
  then obtain p r where eq: "resize_focused R l nav delta area =
      fst (set_ratio_at l p (f32_add r (if nav = NavRight \<or> nav = NavDown then delta else f32_neg delta)))"
    and r: "get_ratio_at (root l) p = Some r \<or> r = ratio_half"
    using resize_focused_cases [of R l nav delta area] by blast
  define v where "v = f32_add r (if nav = NavRight \<or> nav = NavDown then delta else f32_neg delta)"
  have "ratio_ok r" using assms(1) r get_ratio_at_ok ratio_ok_half by auto
  then have "v \<noteq> NaN"
    unfolding v_def using assms(2) by (intro f32_add_not_NaN) (auto simp: f32_neg_NaN ratio_ok_def)
  then have ok: "ratio_ok (f32_clamp v ratio_min ratio_max)" by (rule ratio_ok_clamp)
  obtain n' b where n': "node_set_ratio_at (root l) p (f32_clamp v ratio_min ratio_max) = (n', b)"
    by (cases "node_set_ratio_at (root l) p (f32_clamp v ratio_min ratio_max)")
  have root: "root (resize_focused R l nav delta area) = n'"
    by (simp add: eq set_ratio_at_simps flip: v_def) (simp add: n')
  have "\<forall>q. q \<noteq> p \<longrightarrow> get_ratio_at n' q = get_ratio_at (root l) q"
    using get_set_ratio_at [OF n'] by simp
  with set_ratio_changes [OF assms(1) n' ok] show ?thesis unfolding root by blast
qed

theorem resize_pane_one_ratio:
  assumes "layout_inv l" and "delta \<noteq> NaN" and "resize_pane R l p nav delta area = (l', changed)"
  shows "layout_inv l' \<and> pane_ids l' = pane_ids l \<and> focus l' = focus l \<and> prev_focus l' = prev_focus l
    \<and> (changed \<longleftrightarrow> root l' \<noteq> root l)
    \<and> (\<exists>path. \<forall>q. q \<noteq> path \<longrightarrow> get_ratio_at (root l') q = get_ratio_at (root l) q)"
proof -
  have l': "l' = fst (resize_pane R l p nav delta area)" by (simp add: assms(3))
  have "ratios_ok (root (l\<lparr>focus := p\<rparr>))" using assms(1) by (simp add: layout_inv_def)
  note change = resize_focused_change [OF this assms(2), of R nav area, simplified]
  have "(changed \<longleftrightarrow> root l' \<noteq> root l)
    \<and> (\<exists>path. \<forall>q. q \<noteq> path \<longrightarrow> get_ratio_at (root l') q = get_ratio_at (root l) q)"
  proof (cases "p \<in> set (pane_ids l)")
    case True
    with assms(3) have "root l' = root (resize_focused R (l\<lparr>focus := p\<rparr>) nav delta area)"
      and "changed \<longleftrightarrow> \<not> ratios_eq (split_ratios (root l')) (split_ratios (root l))"
      by (auto simp: resize_pane_def Let_def)
    with change show ?thesis by metis
  next
    case False
    with assms(3) show ?thesis by (simp add: resize_pane_def)
  qed
  then show ?thesis
    using resize_pane_inv [OF assms(1,2), of R p nav area] resize_pane_frame [of R l p nav delta area]
    by (simp add: l')
qed

theorem splits_address_ratios:
  assumes "s \<in> set (splits R l area)"
  shows "Suc (length (splits R l area)) = pane_count l
    \<and> get_ratio_at (root l) (border_path s) = Some (border_ratio s)
    \<and> snd (set_ratio_at l (border_path s) r)
    \<and> get_ratio_at (root (fst (set_ratio_at l (border_path s) r))) q =
        (if q = border_path s then Some (f32_clamp r ratio_min ratio_max) else get_ratio_at (root l) q)"
proof -
  have paths: "map (\<lambda>s. (border_path s, border_ratio s)) (splits R l area) = split_ratios (root l)"
    by (simp add: splits_def split_ratios_def collect_splits_paths)
  then have "length (splits R l area) = length (split_ratios (root l))"
    by (metis length_map)
  then have len: "Suc (length (splits R l area)) = pane_count l"
    by (simp add: split_ratios_def length_split_ratios pane_count_def)
  have "(border_path s, border_ratio s) \<in> set (split_ratios (root l))"
    unfolding paths [symmetric] using assms by auto
  then have get: "get_ratio_at (root l) (border_path s) = Some (border_ratio s)"
    by (simp add: split_ratios_get)
  obtain n' ok where n': "node_set_ratio_at (root l) (border_path s) (f32_clamp r ratio_min ratio_max) = (n', ok)"
    by (cases "node_set_ratio_at (root l) (border_path s) (f32_clamp r ratio_min ratio_max)")
  have ok using node_set_ratio_at_ok [of "root l" "border_path s"] n' get
    by (metis option.simps(3) snd_conv)
  with len get get_set_ratio_at [OF n', of q] show ?thesis
    by (simp add: set_ratio_at_def n')
qed

definition demo_layout :: tile_layout where
  "demo_layout = \<lparr>root = Split Horizontal (Fin (1 / 2)) (Pane 1) (Pane 2), focus = 2, prev_focus = Some 1\<rparr>"

definition demo_area :: rect where
  "demo_area = \<lparr>rect_x = 0, rect_y = 0, rect_width = 81, rect_height = 24\<rparr>"

lemma demo_layout_inv: "layout_inv demo_layout"
  by (simp add: layout_inv_def demo_layout_def pane_ids_def ratio_ok_def ratio_min_val ratio_max_val)

lemma demo_area_fits: "rect_fits demo_area"
  by (simp add: rect_fits_def demo_area_def)


theorem panes_tile_area_witness:
  "length (filter (\<lambda>p. in_rect (info_rect p) (41, 3)) (panes exact_ratatui demo_layout demo_area)) = 1"
proof -
  have "in_rect demo_area (41, 3)" by (simp add: in_rect_def demo_area_def)
  with panes_tile_area [OF exact_ratatui_ok demo_area_fits demo_layout_inv, of "(41, 3)"]
  show ?thesis by simp
qed

theorem panes_after_split_predicts_witness:
  "\<exists>l' ps i. split_pane demo_layout 1 Vertical (Fin (1 / 4)) 3 = ((l', Some 3), 4)
     \<and> panes_after_split exact_ratatui demo_layout demo_area 1 Vertical (Fin (1 / 4)) = Some (ps, i)
     \<and> map info_rect ps = map info_rect (panes exact_ratatui l' demo_area) \<and> pane_ids l' ! i = 3"
proof -
  obtain l' where split: "split_pane demo_layout 1 Vertical (Fin (1 / 4)) 3 = ((l', Some 3), 4)"
    by (simp add: split_pane_def alloc_def demo_layout_def)
  from panes_after_split_predicts [OF this, of exact_ratatui demo_area] split show ?thesis by auto
qed

theorem split_close_roundtrip_witness:
  "\<exists>l'. split_pane demo_layout 1 Vertical (Fin (1 / 4)) 3 = ((l', Some 3), 4) \<and> l' \<noteq> demo_layout
     \<and> close_pane l' 3 = Some (demo_layout, True)"
proof -
  obtain l' where split: "split_pane demo_layout 1 Vertical (Fin (1 / 4)) 3 = ((l', Some 3), 4)"
    and ne: "l' \<noteq> demo_layout"
    by (simp add: split_pane_def alloc_def demo_layout_def split_node_def)
  have "3 \<notin> set (pane_ids demo_layout)" by (simp add: pane_ids_def demo_layout_def)
  from split_close_roundtrip [OF demo_layout_inv this split] split ne show ?thesis by blast
qed

theorem close_focused_behaviour_witness:
  "\<exists>l'. close_focused demo_layout = Some (l', True) \<and> pane_ids l' = [1] \<and> focus l' = 1"
proof -
  have ids: "pane_ids demo_layout = [1] @ focus demo_layout # []" by (simp add: pane_ids_def demo_layout_def)
  have "\<not> pane_count demo_layout \<le> 1" "prev_focus demo_layout = Some 1"
    by (simp_all add: pane_count_def demo_layout_def)
  with close_focused_behaviour [OF demo_layout_inv ids] show ?thesis by auto
qed

theorem swap_panes_geometry_witness:
  "\<exists>l'. swap_panes demo_layout 1 2 = (l', True) \<and> pane_ids l' = [2, 1]
     \<and> map info_rect (panes exact_ratatui l' demo_area) = map info_rect (panes exact_ratatui demo_layout demo_area)
     \<and> swap_panes l' 1 2 = (demo_layout, True)"
proof -
  obtain l' where swap: "swap_panes demo_layout 1 2 = (l', True)"
    by (simp add: swap_panes_def pane_ids_def demo_layout_def)
  have "pane_ids demo_layout = [1, 2]" by (simp add: pane_ids_def demo_layout_def)
  with swap_panes_geometry [OF swap, of exact_ratatui demo_area] swap show ?thesis by auto
qed



theorem resize_pane_one_ratio_witness:
  "\<exists>l'. resize_pane exact_ratatui demo_layout 1 NavRight (Fin (1 / 8)) demo_area = (l', True)
     \<and> layout_inv l' \<and> root l' \<noteq> root demo_layout \<and> pane_ids l' = pane_ids demo_layout"
proof -
  have "snd (resize_pane exact_ratatui demo_layout 1 NavRight (Fin (1 / 8)) demo_area)" by code_simp
  then obtain l' where r: "resize_pane exact_ratatui demo_layout 1 NavRight (Fin (1 / 8)) demo_area = (l', True)"
    by (cases "resize_pane exact_ratatui demo_layout 1 NavRight (Fin (1 / 8)) demo_area") simp
  with resize_pane_one_ratio [OF demo_layout_inv _ r] show ?thesis by simp
qed

theorem splits_address_ratios_witness:
  "snd (set_ratio_at demo_layout [] (Fin 5))
   \<and> get_ratio_at (root (fst (set_ratio_at demo_layout [] (Fin 5)))) [] = Some (f32_clamp (Fin 5) ratio_min ratio_max)"
proof -
  have "\<exists>s \<in> set (splits exact_ratatui demo_layout demo_area). border_path s = []"
    by (cases "split_rect exact_ratatui demo_area Horizontal (Fin (1 / 2))")
       (simp add: splits_def demo_layout_def)
  then obtain s where s: "s \<in> set (splits exact_ratatui demo_layout demo_area)" "border_path s = []" by blast
  with splits_address_ratios [OF s(1), of "Fin 5" "[]"] show ?thesis by simp
qed

end
