(* ===== verification/Input_Lease.thy ===== *)
theory Input_Lease
  imports Prelude
begin

text \<open>
  Input leases (\<^verbatim>\<open>runtime/src/input/lease.rs\<close>) and the part of the key model they read
  (\<^verbatim>\<open>runtime/src/input/model.rs\<close>).  A lease remembers what became of a key press until its release:
  it was forwarded to a target, or consumed by the client in some context.  Repeats of a held key
  follow the lease, and a release goes to the target that saw the press.

  \<open>crossterm\<close>'s \<open>KeyCode\<close> and \<open>KeyModifiers\<close> are type parameters, its constructor \<open>KeyCode::Char\<close> the
  argument \<open>key_char\<close>, and a character its scalar value; \<open>KeyEventKind\<close> has its three documented values.
\<close>

subsection \<open>Keys\<close>

datatype key_event_kind = Press | Repeat | Release

record windows_key_record =
  key_down :: bool
  wkr_repeat_count :: u16
  virtual_key_code :: u16
  virtual_scan_code :: u16
  unicode :: u16
  control_key_state :: u32

datatype physical_key_id = PhysicalKeyId u32

datatype 'c key_identity = Physical physical_key_id | Semantic 'c

datatype key_source =
    Synthesized
  | Vt "8 word list"
  | WindowsConsole windows_key_record "physical_key_id option"

record ('c, 'm) terminal_key =
  code :: 'c
  modifiers :: 'm
  kind :: key_event_kind
  repeat_count :: u16
  shifted_codepoint :: "u32 option"
  generated_text :: "string option"
  physical_identity_hint :: bool
  windows_dead_key :: bool
  layout_key :: "nat option"
  key_source_of :: key_source

definition wkr_physical_key_id :: "windows_key_record \<Rightarrow> physical_key_id option" where
  "wkr_physical_key_id r =
     (if virtual_scan_code r \<noteq> 0
      then Some (PhysicalKeyId
             (or (ucast (virtual_scan_code r))
                 (push_bit 16 (if and (control_key_state r) 0x0100 \<noteq> 0 then 1 else 0))))
      else None)"

definition with_kind :: "('c, 'm) terminal_key \<Rightarrow> key_event_kind \<Rightarrow> ('c, 'm) terminal_key" where
  "with_kind key k =
     (let key' = (if k = Release then key\<lparr>repeat_count := 1, generated_text := None\<rparr> else key)
      in key'\<lparr>kind := k\<rparr>)"

definition with_repeat_count :: "('c, 'm) terminal_key \<Rightarrow> u16 \<Rightarrow> ('c, 'm) terminal_key" where
  "with_repeat_count key n = key\<lparr>repeat_count := (if kind key = Release then 1 else max n 1)\<rparr>"

definition key_physical_key_id :: "('c, 'm) terminal_key \<Rightarrow> u32 option" where
  "key_physical_key_id key =
     (case key_source_of key of
        WindowsConsole _ (Some (PhysicalKeyId i)) \<Rightarrow> Some i
      | WindowsConsole _ None \<Rightarrow> None
      | Synthesized \<Rightarrow> None
      | Vt _ \<Rightarrow> None)"

definition has_physical_identity :: "('c, 'm) terminal_key \<Rightarrow> bool" where
  "has_physical_identity key \<longleftrightarrow> physical_identity_hint key \<or> key_physical_key_id key \<noteq> None"

definition key_identity_of :: "(nat \<Rightarrow> 'c) \<Rightarrow> ('c, 'm) terminal_key \<Rightarrow> 'c key_identity" where
  "key_identity_of key_char key =
     (case key_source_of key of
        WindowsConsole _ (Some physical_key) \<Rightarrow> Physical physical_key
      | WindowsConsole _ None \<Rightarrow> Semantic (code key)
      | Synthesized \<Rightarrow> Semantic (case layout_key key of None \<Rightarrow> code key | Some ch \<Rightarrow> key_char ch)
      | Vt _ \<Rightarrow> Semantic (case layout_key key of None \<Rightarrow> code key | Some ch \<Rightarrow> key_char ch))"

subsection \<open>Leases\<close>

record ('s, 'c) input_lease_key =
  lease_source :: 's
  lease_identity :: "'c key_identity"

definition input_lease_key_new :: "(nat \<Rightarrow> 'c) \<Rightarrow> 's \<Rightarrow> ('c, 'm) terminal_key \<Rightarrow> ('s, 'c) input_lease_key" where
  "input_lease_key_new key_char src key = \<lparr>lease_source = src, lease_identity = key_identity_of key_char key\<rparr>"

definition is_text_press :: "('c, 'm) terminal_key \<Rightarrow> bool" where
  "is_text_press key \<longleftrightarrow> generated_text key \<noteq> None \<and> key_physical_key_id key = None"

record ('t, 'c, 'm) forwarded_input_lease =
  fwd_target :: 't
  fwd_key :: "('c, 'm) terminal_key"

datatype 'x consumed_input_lease = ReprocessRepeats 'x | SuppressRepeats

datatype ('x, 't, 'c, 'm) input_lease =
    Forwarded "('t, 'c, 'm) forwarded_input_lease"
  | Consumed "'x consumed_input_lease"

datatype ('x, 't) repeat_plan =
    PlanForwarded 't
  | Reprocess 'x u16 bool
  | Ignore

type_synonym ('s, 'x, 't, 'c, 'm) input_lease_table =
  "(('s, 'c) input_lease_key, ('x, 't, 'c, 'm) input_lease) hmap"

definition insert_forwarded ::
    "('s, 'c) input_lease_key \<Rightarrow> 't \<Rightarrow> ('c, 'm) terminal_key \<Rightarrow>
     ('s, 'x, 't, 'c, 'm) input_lease_table \<Rightarrow> ('s, 'x, 't, 'c, 'm) input_lease_table" where
  "insert_forwarded lk target original tab =
     hm_insert lk (Forwarded \<lparr>fwd_target = target, fwd_key = original\<rparr>) tab"

definition insert_consumed ::
    "('s, 'c) input_lease_key \<Rightarrow> 'x consumed_input_lease \<Rightarrow>
     ('s, 'x, 't, 'c, 'm) input_lease_table \<Rightarrow> ('s, 'x, 't, 'c, 'm) input_lease_table" where
  "insert_consumed lk disposition tab = hm_insert lk (Consumed disposition) tab"

definition normalize_press ::
    "('s, 'x, 't, 'c, 'm) input_lease_table \<Rightarrow> ('s, 'c) input_lease_key \<Rightarrow> ('c, 'm) terminal_key \<Rightarrow>
     ('s, 'x, 't, 'c, 'm) input_lease_table \<times> ('c, 'm) terminal_key" where
  "normalize_press tab lk key =
     (if kind key \<noteq> Press \<or> (generated_text key \<noteq> None \<and> key_physical_key_id key = None) then (tab, key)
      else if has_physical_identity key \<and> hm_contains tab lk then (tab, with_kind key Repeat)
      else (hm_remove lk tab, key))"

definition complete_press ::
    "('s, 'x, 't, 'c, 'm) input_lease_table \<Rightarrow> ('s, 'c) input_lease_key \<Rightarrow> ('c, 'm) terminal_key \<Rightarrow>
     'x option \<Rightarrow> 'x option \<Rightarrow> 't option \<Rightarrow> ('s, 'x, 't, 'c, 'm) input_lease_table \<times> ('x, 't) repeat_plan" where
  "complete_press tab lk key initial_context resulting_context target =
     (if generated_text key \<noteq> None \<and> \<not> has_physical_identity key then (tab, Ignore)
      else
        (case target of
           Some t \<Rightarrow> (insert_forwarded lk t key tab, Ignore)
         | None \<Rightarrow>
             (let tab' =
                (if hm_contains tab lk then tab
                 else insert_consumed lk
                   (case (initial_context, resulting_context) of
                      (Some i, Some r) \<Rightarrow> if i = r then ReprocessRepeats i else SuppressRepeats
                    | _ \<Rightarrow> SuppressRepeats) tab)
              in (tab',
                  case hm_get tab' lk of
                    Some (Consumed (ReprocessRepeats ctx)) \<Rightarrow>
                      if repeat_count key > 1 then Reprocess ctx (repeat_count key - 1) True else Ignore
                  | _ \<Rightarrow> Ignore))))"

definition plan_repeat ::
    "('s, 'x, 't, 'c, 'm) input_lease_table \<Rightarrow> ('s, 'c) input_lease_key \<Rightarrow> ('c, 'm) terminal_key \<Rightarrow>
     'x option \<Rightarrow> ('s, 'x, 't, 'c, 'm) input_lease_table \<times> ('x, 't) repeat_plan" where
  "plan_repeat tab lk key current_context =
     (case hm_get tab lk of
        Some (Forwarded lease) \<Rightarrow> (tab, PlanForwarded (fwd_target lease))
      | Some (Consumed (ReprocessRepeats ctx)) \<Rightarrow>
          if current_context = Some ctx then (tab, Reprocess ctx (repeat_count key) True)
          else (insert_consumed lk SuppressRepeats tab, Ignore)
      | Some (Consumed SuppressRepeats) \<Rightarrow> (tab, Ignore)
      | None \<Rightarrow>
          (case current_context of
             Some ctx \<Rightarrow> (tab, Reprocess ctx (repeat_count key) False)
           | None \<Rightarrow> (tab, Ignore)))"

definition reprocess_allowed ::
    "('s, 'x, 't, 'c, 'm) input_lease_table \<Rightarrow> ('s, 'c) input_lease_key \<Rightarrow> 'x \<Rightarrow> 'x option \<Rightarrow> bool \<Rightarrow>
     ('s, 'x, 't, 'c, 'm) input_lease_table \<times> bool" where
  "reprocess_allowed tab lk expected_context current_context tracked =
     (let allowed = (current_context = Some expected_context)
      in (if tracked \<and> \<not> allowed then insert_consumed lk SuppressRepeats tab else tab, allowed))"

definition lease_remove ::
    "('s, 'x, 't, 'c, 'm) input_lease_table \<Rightarrow> ('s, 'c) input_lease_key \<Rightarrow>
     ('s, 'x, 't, 'c, 'm) input_lease_table \<times> ('x, 't, 'c, 'm) input_lease option" where
  "lease_remove tab lk = (hm_remove lk tab, hm_get tab lk)"

definition remove_sole_text_press ::
    "('s, 'x, 't, 'c, 'm) input_lease_table \<Rightarrow> 's \<Rightarrow>
     ('s, 'x, 't, 'c, 'm) input_lease_table \<times> ('x, 't, 'c, 'm) input_lease option" where
  "remove_sole_text_press tab src =
     (case filter (\<lambda>(lk, _). lease_source lk = src) tab of
        [(lk, lease)] \<Rightarrow>
          (case lease of
             Forwarded l \<Rightarrow> if is_text_press (fwd_key l) then lease_remove tab lk else (tab, None)
           | Consumed _ \<Rightarrow> (tab, None))
      | _ \<Rightarrow> (tab, None))"

fun remove_keys ::
    "('s, 'x, 't, 'c, 'm) input_lease_table \<Rightarrow> ('s, 'c) input_lease_key list \<Rightarrow>
     ('s, 'x, 't, 'c, 'm) input_lease_table \<times> ('t, 'c, 'm) forwarded_input_lease list" where
  "remove_keys tab [] = (tab, [])"
| "remove_keys tab (lk # lks) =
     (case remove_keys (hm_remove lk tab) lks of
        (tab', out) \<Rightarrow>
          (tab', case hm_get tab lk of Some (Forwarded lease) \<Rightarrow> lease # out | _ \<Rightarrow> out))"

definition remove_source ::
    "('s, 'x, 't, 'c, 'm) input_lease_table \<Rightarrow> 's \<Rightarrow>
     ('s, 'x, 't, 'c, 'm) input_lease_table \<times> ('t, 'c, 'm) forwarded_input_lease list" where
  "remove_source tab src = remove_keys tab (filter (\<lambda>lk. lease_source lk = src) (hm_keys tab))"

definition remove_target ::
    "('s, 'x, 't, 'c, 'm) input_lease_table \<Rightarrow> 't \<Rightarrow>
     ('s, 'x, 't, 'c, 'm) input_lease_table \<times> ('t, 'c, 'm) forwarded_input_lease list" where
  "remove_target tab target =
     remove_keys tab
       (List.map_filter
         (\<lambda>(lk, lease). case lease of
            Forwarded l \<Rightarrow> if fwd_target l = target then Some lk else None
          | Consumed _ \<Rightarrow> None) tab)"

subsection \<open>Runs of the table\<close>

text \<open>Everything the client does with its lease table, as events.\<close>

datatype ('s, 'x, 't, 'c, 'm) lease_event =
    EvNormalize "('s, 'c) input_lease_key" "('c, 'm) terminal_key"
  | EvComplete "('s, 'c) input_lease_key" "('c, 'm) terminal_key" "'x option" "'x option" "'t option"
  | EvRepeat "('s, 'c) input_lease_key" "('c, 'm) terminal_key" "'x option"
  | EvReprocess "('s, 'c) input_lease_key" 'x "'x option" bool
  | EvRemove "('s, 'c) input_lease_key"
  | EvSole 's
  | EvRemoveSource 's
  | EvRemoveTarget 't

fun lease_step :: "('s, 'x, 't, 'c, 'm) input_lease_table \<Rightarrow> ('s, 'x, 't, 'c, 'm) lease_event \<Rightarrow>
    ('s, 'x, 't, 'c, 'm) input_lease_table" where
  "lease_step tab (EvNormalize lk key) = fst (normalize_press tab lk key)"
| "lease_step tab (EvComplete lk key ic rc t) = fst (complete_press tab lk key ic rc t)"
| "lease_step tab (EvRepeat lk key ctx) = fst (plan_repeat tab lk key ctx)"
| "lease_step tab (EvReprocess lk expected current tracked) =
     fst (reprocess_allowed tab lk expected current tracked)"
| "lease_step tab (EvRemove lk) = fst (lease_remove tab lk)"
| "lease_step tab (EvSole s) = fst (remove_sole_text_press tab s)"
| "lease_step tab (EvRemoveSource s) = fst (remove_source tab s)"
| "lease_step tab (EvRemoveTarget t) = fst (remove_target tab t)"

definition lease_run where
  "lease_run tab evs = foldl lease_step tab evs"

text \<open>
  The events that leave the lease of a held key alone: work on other keys, repeats of the key itself,
  a host repeat delivered as a press of a physical key, a completed press that was not forwarded.
\<close>

fun keeps_lease :: "('s, 'c) input_lease_key \<Rightarrow> ('x, 't, 'c, 'm) input_lease \<Rightarrow>
    ('s, 'x, 't, 'c, 'm) lease_event \<Rightarrow> bool" where
  "keeps_lease lk lease (EvNormalize lk' key) =
     (lk' \<noteq> lk \<or> kind key \<noteq> Press \<or> is_text_press key \<or> has_physical_identity key)"
| "keeps_lease lk lease (EvComplete lk' key ic rc t) =
     (lk' \<noteq> lk \<or> t = None \<or> generated_text key \<noteq> None \<and> \<not> has_physical_identity key)"
| "keeps_lease lk lease (EvRepeat lk' key ctx) = True"
| "keeps_lease lk lease (EvReprocess lk' expected current tracked) =
     (lk' \<noteq> lk \<or> \<not> tracked \<or> lease = Consumed SuppressRepeats)"
| "keeps_lease lk lease (EvRemove lk') = (lk' \<noteq> lk)"
| "keeps_lease lk lease (EvSole s) =
     (s \<noteq> lease_source lk \<or> (case lease of Forwarded l \<Rightarrow> \<not> is_text_press (fwd_key l) | Consumed _ \<Rightarrow> True))"
| "keeps_lease lk lease (EvRemoveSource s) = (s \<noteq> lease_source lk)"
| "keeps_lease lk lease (EvRemoveTarget t) =
     (case lease of Forwarded l \<Rightarrow> fwd_target l \<noteq> t | Consumed _ \<Rightarrow> True)"

lemmas lease_defs = normalize_press_def complete_press_def plan_repeat_def reprocess_allowed_def
  lease_remove_def remove_sole_text_press_def insert_forwarded_def insert_consumed_def

lemma remove_keys_fst: "fst (remove_keys tab ks) = fold hm_remove ks tab"
  by (induction ks arbitrary: tab) (auto split: prod.splits simp: split_beta)

definition forwarded_of :: "('x, 't, 'c, 'm) input_lease option \<Rightarrow> ('t, 'c, 'm) forwarded_input_lease option" where
  "forwarded_of l = (case l of Some (Forwarded f) \<Rightarrow> Some f | _ \<Rightarrow> None)"

lemma remove_keys_snd:
  "distinct ks \<Longrightarrow> snd (remove_keys tab ks) = List.map_filter (\<lambda>k. forwarded_of (hm_get tab k)) ks"
proof (induction ks arbitrary: tab)
  case (Cons k ks)
  have "List.map_filter (\<lambda>k'. forwarded_of (hm_get (hm_remove k tab) k')) ks =
        List.map_filter (\<lambda>k'. forwarded_of (hm_get tab k')) ks"
    using Cons.prems by (auto simp: List.map_filter_def hm.get_del intro!: map_cong filter_cong)
  with Cons show ?case
    by (auto simp: split_beta forwarded_of_def List.map_filter_simps split: option.split input_lease.split)
qed (simp add: List.map_filter_simps)

lemma hm_keys_ok: "hm_ok tab \<Longrightarrow> distinct (hm_keys tab)"
  by (simp add: hm_ok_def hm_keys_def)

lemma hm_keys_mem: "k \<in> set (hm_keys tab) \<longleftrightarrow> hm_get tab k \<noteq> None"
  by (auto simp: hm_keys_def hm_get_def map_of_eq_None_iff)

text \<open>The keys \<open>remove_target\<close> collects.\<close>

definition target_keys where
  "target_keys tab t =
     List.map_filter
       (\<lambda>(lk, lease). case lease of
          Forwarded l \<Rightarrow> if fwd_target l = t then Some lk else None
        | Consumed _ \<Rightarrow> None) tab"

lemma target_keys_eq:
  "target_keys tab t =
   map fst (filter (\<lambda>(lk, lease). \<exists>l. lease = Forwarded l \<and> fwd_target l = t) tab)"
  unfolding target_keys_def List.map_filter_def
  by (induction tab) (auto split: input_lease.splits if_splits)

lemma target_keys_mem:
  "hm_ok tab \<Longrightarrow> k \<in> set (target_keys tab t) \<longleftrightarrow> (\<exists>l. hm_get tab k = Some (Forwarded l) \<and> fwd_target l = t)"
  by (auto simp: target_keys_eq dest: hm_mem_get hm_get_mem) (force dest: hm_get_mem)

lemma target_keys_distinct: "hm_ok tab \<Longrightarrow> distinct (target_keys tab t)"
  unfolding target_keys_eq hm_ok_def by (induction tab) auto

lemma lease_step_ok: "hm_ok tab \<Longrightarrow> hm_ok (lease_step tab ev)"
proof (cases ev)
  case (EvSole s)
  then show "hm_ok tab \<Longrightarrow> ?thesis"
    by (auto simp: lease_defs hm.ok_del split: list.splits prod.splits input_lease.splits)
next
  case (EvRemoveSource s)
  then show "hm_ok tab \<Longrightarrow> ?thesis" by (simp add: remove_source_def remove_keys_fst hm.ok_fold_del)
next
  case (EvRemoveTarget t)
  then show "hm_ok tab \<Longrightarrow> ?thesis" by (simp add: remove_target_def remove_keys_fst hm.ok_fold_del)
qed (auto simp: lease_defs Let_def hm.ok_put hm.ok_del
     split: option.splits input_lease.splits consumed_input_lease.splits)

lemma lease_run_ok: "hm_ok tab \<Longrightarrow> hm_ok (lease_run tab evs)"
  unfolding lease_run_def by (induction evs arbitrary: tab) (auto simp: lease_step_ok)

lemma sole_keeps:
  assumes ok: "hm_ok tab" and get: "hm_get tab lk = Some lease"
    and keep: "s \<noteq> lease_source lk \<or> (case lease of Forwarded l \<Rightarrow> \<not> is_text_press (fwd_key l) | Consumed _ \<Rightarrow> True)"
  shows "hm_get (fst (remove_sole_text_press tab s)) lk = Some lease"
proof (cases "\<exists>k l. filter (\<lambda>(lk, _). lease_source lk = s) tab = [(k, Forwarded l)] \<and> is_text_press (fwd_key l)")
  case True
  then obtain k l where f: "filter (\<lambda>(lk, _). lease_source lk = s) tab = [(k, Forwarded l)]"
    and txtp: "is_text_press (fwd_key l)" by blast
  then have "(k, Forwarded l) \<in> set (filter (\<lambda>(lk, _). lease_source lk = s) tab)" by simp
  then have "hm_get tab k = Some (Forwarded l)" and "lease_source k = s"
    using ok by (auto intro: hm_mem_get)
  with keep get txtp have "k \<noteq> lk" by auto
  with f txtp get show ?thesis by (simp add: lease_defs hm.get_del)
next
  case False
  with get show ?thesis
    by (auto simp: lease_defs split: list.splits prod.splits input_lease.splits)
qed

lemma keeps_lease_event:
  assumes "hm_ok tab" and "hm_get tab lk = Some lease" and "\<nexists>x. lease = Consumed (ReprocessRepeats x)"
    and "keeps_lease lk lease ev"
  shows "hm_get (lease_step tab ev) lk = Some lease"
proof (cases ev)
  case (EvSole s)
  with assms sole_keeps [OF assms(1,2)] show ?thesis by simp
next
  case (EvRemoveSource s)
  with assms show ?thesis by (simp add: remove_source_def remove_keys_fst hm.get_fold_del)
next
  case (EvRemoveTarget t)
  with assms target_keys_mem [OF assms(1), of lk t] show ?thesis
    by (auto simp: remove_target_def remove_keys_fst hm.get_fold_del simp flip: target_keys_def)
next
  case (EvRepeat lk' key ctx)
  with assms show ?thesis
    by (auto simp: lease_defs hm.get_put split: option.splits input_lease.splits consumed_input_lease.splits)
qed (use assms in \<open>auto simp: lease_defs Let_def hm.get_put hm.get_del hm_contains_def is_text_press_def
     split: option.splits input_lease.splits consumed_input_lease.splits\<close>)

lemma keeps_lease_run:
  assumes "\<nexists>x. lease = Consumed (ReprocessRepeats x)"
  shows "hm_ok tab \<Longrightarrow> hm_get tab lk = Some lease \<Longrightarrow> list_all (keeps_lease lk lease) evs \<Longrightarrow>
    hm_get (lease_run tab evs) lk = Some lease"
  unfolding lease_run_def
  by (induction evs arbitrary: tab) (auto simp: lease_step_ok keeps_lease_event [OF _ _ assms])

lemma forwarded_of_Some: "forwarded_of x = Some l \<longleftrightarrow> x = Some (Forwarded l)"
  by (auto simp: forwarded_of_def split: option.splits input_lease.splits)

subsection \<open>Properties\<close>

theorem held_lease_routes_repeats:
  assumes "hm_ok tab" and "hm_get tab lk = Some lease" and "\<nexists>x. lease = Consumed (ReprocessRepeats x)"
    and "list_all (keeps_lease lk lease) evs"
  shows "snd (plan_repeat (lease_run tab evs) lk key ctx) =
      (case lease of Forwarded l \<Rightarrow> PlanForwarded (fwd_target l) | Consumed _ \<Rightarrow> Ignore)
    \<and> snd (lease_remove (lease_run tab evs) lk) = Some lease
    \<and> snd (lease_remove (fst (lease_remove (lease_run tab evs) lk)) lk) = None"
proof -
  have "hm_get (lease_run tab evs) lk = Some lease"
    by (rule keeps_lease_run [OF assms(3,1,2,4)])
  with assms(3) show ?thesis
    by (auto simp: plan_repeat_def lease_remove_def split: input_lease.splits consumed_input_lease.splits)
qed

theorem changed_context_suppresses:
  assumes "hm_ok tab" and "hm_get tab lk = Some (Consumed (ReprocessRepeats x))" and "ctx \<noteq> Some x"
    and "list_all (keeps_lease lk (Consumed SuppressRepeats)) evs"
  shows "snd (plan_repeat tab lk key ctx) = Ignore
    \<and> snd (plan_repeat (lease_run (fst (plan_repeat tab lk key ctx)) evs) lk key' ctx') = Ignore"
proof -
  let ?tab = "fst (plan_repeat tab lk key ctx)"
  have tab: "plan_repeat tab lk key ctx = (insert_consumed lk SuppressRepeats tab, Ignore)"
    using assms(2,3) by (simp add: plan_repeat_def)
  then have "hm_ok ?tab" and "hm_get ?tab lk = Some (Consumed SuppressRepeats)"
    using assms(1) by (simp_all add: insert_consumed_def hm.ok_put hm.get_put)
  then have "hm_get (lease_run ?tab evs) lk = Some (Consumed SuppressRepeats)"
    using assms(4) by (intro keeps_lease_run) auto
  then have "snd (plan_repeat (lease_run ?tab evs) lk key' ctx') = Ignore"
    by (simp add: plan_repeat_def [of "lease_run ?tab evs"])
  with tab show ?thesis by simp
qed


theorem remove_source_releases_all:
  assumes "hm_ok tab"
  shows "case remove_source tab src of (tab', out) \<Rightarrow>
      (\<forall>lk. hm_get tab' lk = (if lease_source lk = src then None else hm_get tab lk))
      \<and> out = List.map_filter (\<lambda>(lk, lease). forwarded_of (Some lease)) (filter (\<lambda>(lk, _). lease_source lk = src) tab)"
proof -
  let ?ks = "filter (\<lambda>lk. lease_source lk = src) (hm_keys tab)"
  have "distinct ?ks" using assms by (simp add: hm_keys_ok)
  then have out: "snd (remove_source tab src) = List.map_filter (\<lambda>k. forwarded_of (hm_get tab k)) ?ks"
    by (simp add: remove_source_def remove_keys_snd)
  have "List.map_filter (\<lambda>k. forwarded_of (hm_get tab k)) (filter (\<lambda>lk. lease_source lk = src) (map fst xs)) =
        List.map_filter (\<lambda>(lk, lease). forwarded_of (Some lease)) (filter (\<lambda>(lk, _). lease_source lk = src) xs)"
    if "set xs \<subseteq> set tab" for xs
    using that
  proof (induction xs)
    case (Cons a xs)
    obtain k l where a: "a = (k, l)" by (cases a)
    with Cons.prems have "hm_get tab k = Some l" by (auto intro: hm_mem_get [OF assms])
    with Cons a show ?case by (simp add: List.map_filter_simps split: option.split)
  qed (simp add: List.map_filter_simps)
  from this [of tab] out
  have "snd (remove_source tab src) =
      List.map_filter (\<lambda>(lk, lease). forwarded_of (Some lease)) (filter (\<lambda>(lk, _). lease_source lk = src) tab)"
    by (simp add: hm_keys_def)
  moreover have "hm_get (fst (remove_source tab src)) lk = (if lease_source lk = src then None else hm_get tab lk)" for lk
    by (auto simp: remove_source_def remove_keys_fst hm.get_fold_del hm_keys_mem)
  ultimately show ?thesis by (simp add: split_beta)
qed

theorem remove_target_releases_all:
  assumes "hm_ok tab"
  shows "case remove_target tab t of (tab', out) \<Rightarrow>
      (\<forall>lk. hm_get tab' lk =
         (case hm_get tab lk of
            Some (Forwarded l) \<Rightarrow> if fwd_target l = t then None else Some (Forwarded l)
          | other \<Rightarrow> other))
      \<and> (\<forall>l. l \<in> set out \<longleftrightarrow> fwd_target l = t \<and> (\<exists>lk. hm_get tab lk = Some (Forwarded l)))"
proof -
  have rt: "remove_target tab t = remove_keys tab (target_keys tab t)"
    by (simp add: remove_target_def target_keys_def)
  have "hm_get (fst (remove_target tab t)) lk =
      (case hm_get tab lk of
         Some (Forwarded l) \<Rightarrow> if fwd_target l = t then None else Some (Forwarded l)
       | other \<Rightarrow> other)" for lk
    using target_keys_mem [OF assms, of lk t]
    by (auto simp: rt remove_keys_fst hm.get_fold_del split: option.splits input_lease.splits)
  moreover have "snd (remove_target tab t) =
      List.map_filter (\<lambda>k. forwarded_of (hm_get tab k)) (target_keys tab t)"
    by (simp add: rt remove_keys_snd target_keys_distinct assms)
  then have "l \<in> set (snd (remove_target tab t)) \<longleftrightarrow>
      fwd_target l = t \<and> (\<exists>lk. hm_get tab lk = Some (Forwarded l))" for l
    by (simp add: mem_map_filter forwarded_of_Some Bex_def target_keys_mem [OF assms]) (metis input_lease.inject(1) option.inject)
  ultimately show ?thesis by (simp add: split_beta)
qed


subsection \<open>Witnesses\<close>

definition demo_key :: "nat \<Rightarrow> (nat, unit) terminal_key" where
  "demo_key c = \<lparr>code = c, modifiers = (), kind = Press, repeat_count = 1, shifted_codepoint = None,
     generated_text = None, physical_identity_hint = True, windows_dead_key = False, layout_key = None,
     key_source_of = Vt []\<rparr>"

definition demo_lease_key :: "nat \<Rightarrow> nat \<Rightarrow> (nat, nat) input_lease_key" where
  "demo_lease_key s c = input_lease_key_new (\<lambda>n. n) s (demo_key c)"

definition demo_table :: "(nat, nat, nat, nat, unit) input_lease_table" where
  "demo_table =
     [(demo_lease_key 1 97, Forwarded \<lparr>fwd_target = 7, fwd_key = demo_key 97\<rparr>),
      (demo_lease_key 1 98, Consumed (ReprocessRepeats 3)),
      (demo_lease_key 2 97, Forwarded \<lparr>fwd_target = 8, fwd_key = demo_key 97\<rparr>)]"

definition demo_evs :: "(nat, nat, nat, nat, unit) lease_event list" where
  "demo_evs = [EvNormalize (demo_lease_key 1 97) (demo_key 97), EvRemove (demo_lease_key 1 98), EvRemoveSource 2]"

lemmas demo_lease_defs = demo_table_def demo_lease_key_def demo_key_def input_lease_key_new_def
  key_identity_of_def demo_evs_def

lemma demo_table_ok: "hm_ok demo_table"
  by (simp add: hm_ok_def demo_lease_defs)

lemma demo_table_get:
  "hm_get demo_table (demo_lease_key 1 97) = Some (Forwarded \<lparr>fwd_target = 7, fwd_key = demo_key 97\<rparr>)"
  "hm_get demo_table (demo_lease_key 1 98) = Some (Consumed (ReprocessRepeats 3))"
  by (simp_all add: hm_get_def demo_lease_defs)

theorem held_lease_routes_repeats_witness:
  "snd (plan_repeat (lease_run demo_table demo_evs) (demo_lease_key 1 97) (demo_key 97) None) = PlanForwarded 7"
  using held_lease_routes_repeats [OF demo_table_ok demo_table_get(1), of demo_evs "demo_key 97" None]
  by (simp add: demo_lease_defs has_physical_identity_def)

theorem changed_context_suppresses_witness:
  "snd (plan_repeat (lease_run (fst (plan_repeat demo_table (demo_lease_key 1 98) (demo_key 98) (Some 4)))
     [EvRemoveTarget 7, EvRemove (demo_lease_key 1 97)]) (demo_lease_key 1 98) (demo_key 98) (Some 3)) = Ignore"
  using changed_context_suppresses [OF demo_table_ok demo_table_get(2), of "Some 4"
      "[EvRemoveTarget 7, EvRemove (demo_lease_key 1 97)]" "demo_key 98" "demo_key 98" "Some 3"]
  by (simp add: demo_lease_defs)


theorem remove_source_releases_all_witness:
  "snd (remove_source demo_table 1) = [\<lparr>fwd_target = 7, fwd_key = demo_key 97\<rparr>]"
  using remove_source_releases_all [OF demo_table_ok, of 1]
  by (simp add: split_beta demo_lease_defs List.map_filter_simps forwarded_of_def)

theorem remove_target_releases_all_witness:
  "\<lparr>fwd_target = 7, fwd_key = demo_key 97\<rparr> \<in> set (snd (remove_target demo_table 7))
   \<and> hm_get (fst (remove_target demo_table 7)) (demo_lease_key 1 97) = None"
  using remove_target_releases_all [OF demo_table_ok, of 7] demo_table_get(1)
  by (auto simp: split_beta)

end
