(* ===== verification/Event_Hub.thy ===== *)
theory Event_Hub
  imports Prelude
begin

text \<open>
  The event hub (\<^verbatim>\<open>runtime/src/api/event_hub.rs\<close>), a bounded history of the events the runtime
  publishes, and the event subscriptions that read it (\<^verbatim>\<open>runtime/src/api/subscriptions.rs\<close>).

  The hub is shared behind a mutex: each operation runs under the lock, so the operations are atomic
  steps on one record, and \<open>poisoned\<close> is the state in which \<open>lock()\<close> fails.  The event envelope is a
  type parameter with its kind read by \<open>kind_of\<close>; the JSON encoding (\<open>serde_json::to_value\<close>) is the
  argument \<open>to_value\<close>.
\<close>

named_theorems hub_simps \<open>the hub after a run of pushes\<close>

subsection \<open>The hub\<close>

record 'e event_hub =
  poisoned :: bool
  next_sequence :: u64
  events :: "(u64 \<times> 'e) list"

datatype event_history_error = Lost | Unavailable

definition MAX_EVENTS :: nat where
  "MAX_EVENTS = 512"

definition hub_default :: "'e event_hub" where
  "hub_default = \<lparr>poisoned = False, next_sequence = 0, events = []\<rparr>"

definition push :: "'e event_hub \<Rightarrow> 'e \<Rightarrow> 'e event_hub" where
  "push h event =
     (if poisoned h then h
      else
        (let sequence = next_sequence h + 1;
             evs = events h @ [(sequence, event)];
             overflow = length evs - MAX_EVENTS
         in h\<lparr>next_sequence := sequence, events := (if overflow > 0 then drop overflow evs else evs)\<rparr>))"

definition events_after :: "'e event_hub \<Rightarrow> u64 \<Rightarrow> (u64 \<times> 'e) list" where
  "events_after h sequence =
     (if poisoned h then [] else filter (\<lambda>(event_sequence, _). event_sequence > sequence) (events h))"

definition events_after_checked :: "'e event_hub \<Rightarrow> u64 \<Rightarrow> event_history_error + (u64 \<times> 'e) list" where
  "events_after_checked h sequence =
     (if poisoned h then Inl Unavailable
      else if (case events h of [] \<Rightarrow> False | (first, _) # _ \<Rightarrow> sequence < saturating_sub first 1)
      then Inl Lost
      else Inr (filter (\<lambda>(event_sequence, _). event_sequence > sequence) (events h)))"

definition current_sequence :: "'e event_hub \<Rightarrow> u64" where
  "current_sequence h = (if poisoned h then 0 else next_sequence h)"

subsection \<open>Event subscriptions\<close>

record 'k active_event_subscription =
  event_kind :: 'k
  last_sequence :: u64

record error_body =
  err_code :: string
  err_message :: string

definition subscription_events_after :: "'e event_hub \<Rightarrow> u64 \<Rightarrow> error_body + (u64 \<times> 'e) list" where
  "subscription_events_after h sequence =
     (case events_after_checked h sequence of
        Inl Lost \<Rightarrow> Inl \<lparr>err_code = ''events_lost'',
          err_message = ''event subscription fell behind retained history; resubscribe and resync with session.snapshot''\<rparr>
      | Inl Unavailable \<Rightarrow> Inl \<lparr>err_code = ''server_unavailable'', err_message = ''event history is unavailable''\<rparr>
      | Inr evs \<Rightarrow> Inr evs)"

definition event_encoding_error :: "string \<Rightarrow> error_body" where
  "event_encoding_error err =
     \<lparr>err_code = ''internal_error'', err_message = ''failed to encode subscription event: '' @ err\<rparr>"

fun event_poll_loop ::
    "('e \<Rightarrow> 'k) \<Rightarrow> ('e \<Rightarrow> string + 'j) \<Rightarrow> (u64 \<times> 'e) list \<Rightarrow> 'k active_event_subscription \<Rightarrow>
     'k active_event_subscription \<times> 'j option" where
  "event_poll_loop kind_of to_value [] sub = (sub, None)"
| "event_poll_loop kind_of to_value ((sequence, event) # evs) sub =
     (let sub = sub\<lparr>last_sequence := sequence\<rparr>
      in if kind_of event = event_kind sub
         then (sub, case to_value event of Inl _ \<Rightarrow> None | Inr j \<Rightarrow> Some j)
         else event_poll_loop kind_of to_value evs sub)"

definition event_poll ::
    "('e \<Rightarrow> 'k) \<Rightarrow> ('e \<Rightarrow> string + 'j) \<Rightarrow> 'e event_hub \<Rightarrow> 'k active_event_subscription \<Rightarrow>
     'k active_event_subscription \<times> 'j option" where
  "event_poll kind_of to_value h sub =
     event_poll_loop kind_of to_value (events_after h (last_sequence sub)) sub"

fun event_batch_loop ::
    "('e \<Rightarrow> 'k) \<Rightarrow> ('e \<Rightarrow> string + 'j) \<Rightarrow> (u64 \<times> 'e) list \<Rightarrow> 'k active_event_subscription \<Rightarrow> 'j list \<Rightarrow>
     'k active_event_subscription \<times> (error_body + 'j list)" where
  "event_batch_loop kind_of to_value [] sub matching = (sub, Inr matching)"
| "event_batch_loop kind_of to_value ((sequence, event) # evs) sub matching =
     (let sub = sub\<lparr>last_sequence := sequence\<rparr>
      in if kind_of event = event_kind sub
         then (case to_value event of
                 Inl err \<Rightarrow> (sub, Inl (event_encoding_error err))
               | Inr j \<Rightarrow> event_batch_loop kind_of to_value evs sub (matching @ [j]))
         else event_batch_loop kind_of to_value evs sub matching)"

text \<open>The \<open>Self::Event\<close> arm of \<open>ActiveSubscription::poll_batch\<close>.\<close>

definition event_poll_batch ::
    "('e \<Rightarrow> 'k) \<Rightarrow> ('e \<Rightarrow> string + 'j) \<Rightarrow> 'e event_hub \<Rightarrow> 'k active_event_subscription \<Rightarrow>
     'k active_event_subscription \<times> (error_body + 'j list)" where
  "event_poll_batch kind_of to_value h sub =
     (case subscription_events_after h (last_sequence sub) of
        Inl err \<Rightarrow> (sub, Inl err)
      | Inr evs \<Rightarrow> event_batch_loop kind_of to_value evs sub [])"

subsection \<open>The hub as a window on the log\<close>

text \<open>
  The abstract state is the log of every event pushed; the hub keeps its last \<open>MAX_EVENTS\<close> entries,
  numbered from one.
\<close>

definition numbered :: "'e list \<Rightarrow> (u64 \<times> 'e) list" where
  "numbered log = map (\<lambda>i. (of_nat (Suc i), log ! i)) [0..<length log]"

definition hub_of :: "'e list \<Rightarrow> 'e event_hub" where
  "hub_of log = foldl push hub_default log"

lemma length_numbered [simp]: "length (numbered log) = length log"
  by (simp add: numbered_def)

lemma numbered_nth: "i < length log \<Longrightarrow> numbered log ! i = (of_nat (Suc i), log ! i)"
  by (simp add: numbered_def)

lemma numbered_snoc: "numbered (log @ [e]) = numbered log @ [(of_nat (Suc (length log)), e)]"
  by (rule nth_equalityI) (auto simp: numbered_nth nth_append less_Suc_eq simp del: of_nat_Suc)

lemma push_state:
  assumes "h = \<lparr>poisoned = False, next_sequence = of_nat (length log),
                events = drop (length log - MAX_EVENTS) (numbered log)\<rparr>"
  shows "push h e = \<lparr>poisoned = False, next_sequence = of_nat (length (log @ [e])),
                events = drop (length (log @ [e]) - MAX_EVENTS) (numbered (log @ [e]))\<rparr>"
proof (cases "length log < MAX_EVENTS")
  case True
  then show ?thesis by (simp add: assms push_def Let_def numbered_snoc add.commute)
next
  case False
  then have "Suc (length log) - MAX_EVENTS = Suc (length log - MAX_EVENTS)" by (simp add: Suc_diff_le)
  with False show ?thesis
    by (simp add: assms push_def Let_def numbered_snoc add.commute)
qed

lemma hub_of_eq [hub_simps]:
  "hub_of log = \<lparr>poisoned = False, next_sequence = of_nat (length log),
                events = drop (length log - MAX_EVENTS) (numbered log)\<rparr>"
proof (induction log rule: rev_induct)
  case Nil
  then show ?case by (simp add: hub_of_def hub_default_def numbered_def)
next
  case (snoc e log)
  then show ?case unfolding hub_of_def by (simp only: foldl_append foldl.simps push_state)
qed

lemma filter_numbered:
  assumes "length log < 2 ^ 64" and "s \<le> length log" and "k \<le> s"
  shows "filter (\<lambda>(n, _). n > (of_nat s :: u64)) (drop k (numbered log)) = drop s (numbered log)"
proof -
  have gt: "(of_nat (Suc i) :: u64) > of_nat s \<longleftrightarrow> s \<le> i" if "i < length log" for i
    using that assms(1,2) by (simp add: word_less_nat_alt unat_of_nat less_Suc_eq_le del: of_nat_Suc)
  have "drop k (numbered log) = take (s - k) (drop k (numbered log)) @ drop s (numbered log)"
    using assms by (metis append_take_drop_id drop_drop le_add_diff_inverse2)
  moreover have "filter (\<lambda>(n, _). n > (of_nat s :: u64)) (take (s - k) (drop k (numbered log))) = []"
    using assms gt by (fastforce simp: filter_empty_conv in_set_conv_nth numbered_nth simp del: of_nat_Suc)
  moreover have "filter (\<lambda>(n, _). n > (of_nat s :: u64)) (drop s (numbered log)) = drop s (numbered log)"
    using assms gt by (auto simp: filter_id_conv in_set_conv_nth numbered_nth simp del: of_nat_Suc)
  ultimately show ?thesis by (metis append_Nil filter_append)
qed

lemma checked_window:
  assumes "length log < 2 ^ 64" and "s \<le> length log"
  shows "events_after_checked (hub_of log) (of_nat s) =
     (if length log - s > MAX_EVENTS then Inl Lost else Inr (drop s (numbered log)))"
proof (cases "log = []")
  case True
  then show ?thesis by (simp add: hub_simps events_after_checked_def numbered_def)
next
  case False
  let ?k = "length log - MAX_EVENTS"
  have k: "?k < length log" using False by (simp add: MAX_EVENTS_def)
  have "numbered log ! ?k = (of_nat (Suc ?k), log ! ?k)"
    using k by (rule numbered_nth)
  then have evs: "drop ?k (numbered log) = (of_nat (Suc ?k), log ! ?k) # drop (Suc ?k) (numbered log)"
    using k Cons_nth_drop_Suc [of ?k "numbered log"] by simp
  have "unat (saturating_sub (of_nat (Suc ?k) :: u64) 1) = ?k"
    using k assms(1) by (simp add: sat_simps unat_of_nat del: of_nat_Suc)
  then have lost: "(of_nat s :: u64) < saturating_sub (of_nat (Suc ?k)) 1 \<longleftrightarrow> s < ?k"
    using assms by (simp add: word_less_nat_alt unat_of_nat del: of_nat_Suc)
  have "filter (\<lambda>(n, _). n > (of_nat s :: u64)) (drop ?k (numbered log)) = drop s (numbered log)" if "\<not> s < ?k"
    using filter_numbered [OF assms, of ?k] that by simp
  with evs lost show ?thesis
    by (simp add: hub_simps events_after_checked_def less_diff_conv add.commute del: of_nat_Suc)
qed

subsection \<open>A subscriber between publishers\<close>

text \<open>
  Publishers and one subscriber interleave at the hub's lock.  The connection ends with the first
  error a poll reports.  \<open>lag_ok n ops\<close>: at every poll at most \<open>MAX_EVENTS\<close> events are waiting, when
  \<open>n\<close> are waiting at the start.
\<close>

datatype 'e hub_op = Publish 'e | Poll

fun subscriber_run ::
    "('e \<Rightarrow> 'k) \<Rightarrow> ('e \<Rightarrow> string + 'j) \<Rightarrow> 'e event_hub \<Rightarrow> 'k active_event_subscription \<Rightarrow> 'e hub_op list \<Rightarrow>
     'j list \<Rightarrow> error_body + 'j list" where
  "subscriber_run kind_of to_value h sub [] out = Inr out"
| "subscriber_run kind_of to_value h sub (Publish e # ops) out =
     subscriber_run kind_of to_value (push h e) sub ops out"
| "subscriber_run kind_of to_value h sub (Poll # ops) out =
     (case event_poll_batch kind_of to_value h sub of
        (_, Inl err) \<Rightarrow> Inl err
      | (sub', Inr js) \<Rightarrow> subscriber_run kind_of to_value h sub' ops (out @ js))"

fun published :: "'e hub_op list \<Rightarrow> 'e list" where
  "published [] = []"
| "published (Publish e # ops) = e # published ops"
| "published (Poll # ops) = published ops"

fun lag_ok :: "nat \<Rightarrow> 'e hub_op list \<Rightarrow> bool" where
  "lag_ok n [] = True"
| "lag_ok n (Publish e # ops) = lag_ok (Suc n) ops"
| "lag_ok n (Poll # ops) = (n \<le> MAX_EVENTS \<and> lag_ok 0 ops)"

definition events_lost_error :: error_body where
  "events_lost_error = \<lparr>err_code = ''events_lost'',
     err_message = ''event subscription fell behind retained history; resubscribe and resync with session.snapshot''\<rparr>"

lemma batch_loop_eq:
  assumes "\<And>e. kind_of e = event_kind sub \<Longrightarrow> to_value e = Inr (enc e)"
  shows "event_batch_loop kind_of to_value evs sub m =
    (sub\<lparr>last_sequence := (if evs = [] then last_sequence sub else fst (last evs))\<rparr>,
     Inr (m @ map enc (filter (\<lambda>e. kind_of e = event_kind sub) (map snd evs))))"
  using assms
proof (induction evs arbitrary: sub m)
  case (Cons ev evs)
  obtain s e where ev: "ev = (s, e)" by (cases ev)
  have "\<And>e. kind_of e = event_kind (sub\<lparr>last_sequence := s\<rparr>) \<Longrightarrow> to_value e = Inr (enc e)"
    using Cons.prems by simp
  from Cons.IH [OF this] Cons.prems show ?case by (simp add: ev Let_def)
qed simp

lemma numbered_snd: "map snd (drop s (numbered log)) = drop s log"
  by (rule nth_equalityI) (auto simp: numbered_nth)

lemma numbered_last: "s < length log \<Longrightarrow> fst (last (drop s (numbered log))) = of_nat (length log)"
  by (cases "log = []") (simp_all add: last_drop last_conv_nth numbered_nth del: of_nat_Suc flip: length_0_conv)

lemma poll_batch_window:
  assumes "\<And>e. kind_of e = event_kind sub \<Longrightarrow> to_value e = Inr (enc e)"
    and "length log < 2 ^ 64" and "s \<le> length log" and "last_sequence sub = of_nat s"
  shows "event_poll_batch kind_of to_value (hub_of log) sub =
    (if length log - s > MAX_EVENTS then (sub, Inl events_lost_error)
     else (sub\<lparr>last_sequence := of_nat (length log)\<rparr>,
           Inr (map enc (filter (\<lambda>e. kind_of e = event_kind sub) (drop s log)))))"
proof -
  have after: "subscription_events_after (hub_of log) (last_sequence sub) =
    (if length log - s > MAX_EVENTS then Inl events_lost_error else Inr (drop s (numbered log)))"
    using checked_window [OF assms(2,3)] by (simp add: subscription_events_after_def assms(4) events_lost_error_def)
  show ?thesis
  proof (cases "s < length log")
    case True
    then show ?thesis
      by (simp add: event_poll_batch_def after batch_loop_eq [OF assms(1)] numbered_snd)
         (use numbered_last [OF True] True in \<open>simp add: last_drop\<close>)
  next
    case False
    with assms(3) have "s = length log" by simp
    moreover have "sub\<lparr>last_sequence := of_nat s\<rparr> = sub" by (simp flip: assms(4))
    ultimately show ?thesis by (simp add: event_poll_batch_def after)
  qed
qed

lemma push_hub_of: "push (hub_of log) e = hub_of (log @ [e])"
  by (simp add: hub_of_def)

lemma subscriber_run_eq:
  assumes "\<And>e. kind_of e = k \<Longrightarrow> to_value e = Inr (enc e)"
    and "length (log @ published ops) < 2 ^ 64" and "s \<le> length log"
    and "sub = \<lparr>event_kind = k, last_sequence = of_nat s\<rparr>"
  shows "subscriber_run kind_of to_value (hub_of log) sub (ops @ [Poll]) out =
    (if lag_ok (length log - s) (ops @ [Poll])
     then Inr (out @ map enc (filter (\<lambda>e. kind_of e = k) (drop s (log @ published ops))))
     else Inl events_lost_error)"
  using assms(2-)
proof (induction ops arbitrary: log s sub out)
  case Nil
  then show ?case by (simp add: poll_batch_window assms(1) not_less)
next
  case (Cons op ops)
  show ?case
  proof (cases op)
    case (Publish e)
    with Cons.IH [of "log @ [e]" s sub out] Cons.prems show ?thesis by (simp add: push_hub_of Suc_diff_le)
  next
    case Poll
    with Cons.prems Cons.IH [of log "length log" "sub\<lparr>last_sequence := of_nat (length log)\<rparr>"]
    show ?thesis by (simp add: poll_batch_window assms(1) not_less)
  qed
qed

subsection \<open>Properties\<close>

text \<open>
C32. After any sequence of publications, asking the event hub for the events after a sequence
number answers exactly the later events in order while they are retained, reports them lost
exactly when more were published since than the hub retains, and never answers a gap.
\<close>

theorem events_after_checked_complete:
  assumes "length log < 2 ^ 64" and "s \<le> length log"
  shows "(case events_after_checked (foldl push hub_default log) (of_nat s) of
            Inl err \<Rightarrow> err = Lost \<and> length log - s > MAX_EVENTS
          | Inr evs \<Rightarrow> length log - s \<le> MAX_EVENTS \<and> map snd evs = drop s log
              \<and> map (unat \<circ> fst) evs = [Suc s..<Suc (length log)])
    \<and> current_sequence (foldl push hub_default log) = of_nat (length log)"
proof -
  have "map (unat \<circ> fst) (drop s (numbered log)) = [Suc s..<Suc (length log)]"
    using assms by (intro nth_equalityI) (auto simp: numbered_nth unat_of_nat simp del: of_nat_Suc upt_Suc)
  then show ?thesis
    using checked_window [OF assms] by (simp add: hub_of_eq numbered_snd current_sequence_def flip: hub_of_def)
qed

text \<open>
C3. A subscriber that starts at the current sequence number and polls in batches receives every
event of its kind published since, exactly once and in order, however publications and polls
interleave, as long as it never falls more than the retained history behind; otherwise it gets
the events_lost error and never a gap.
\<close>

theorem subscription_exactly_once:
  assumes "\<And>e. kind_of e = k \<Longrightarrow> to_value e = Inr (enc e)"
    and "length (log @ published ops) < 2 ^ 64"
  shows "subscriber_run kind_of to_value (foldl push hub_default log)
      \<lparr>event_kind = k, last_sequence = current_sequence (foldl push hub_default log)\<rparr> (ops @ [Poll]) [] =
    (if lag_ok 0 (ops @ [Poll])
     then Inr (map enc (filter (\<lambda>e. kind_of e = k) (published ops)))
     else Inl \<lparr>err_code = ''events_lost'',
       err_message = ''event subscription fell behind retained history; resubscribe and resync with session.snapshot''\<rparr>)"
proof -
  have "current_sequence (hub_of log) = of_nat (length log)"
    by (simp add: hub_of_eq current_sequence_def)
  with subscriber_run_eq [where kind_of = kind_of and to_value = to_value and enc = enc, OF assms le_refl refl, where out = "[]"] show ?thesis
    by (simp add: events_lost_error_def flip: hub_of_def)
qed

theorem events_after_checked_complete_witness:
  "(case events_after_checked (foldl push hub_default [10, 20, 30 :: nat]) 1 of
      Inl err \<Rightarrow> False | Inr evs \<Rightarrow> map snd evs = [20, 30])"
  using events_after_checked_complete [of "[10, 20, 30 :: nat]" 1]
  by (auto split: sum.splits simp: MAX_EVENTS_def)

theorem subscription_exactly_once_witness:
  "subscriber_run (\<lambda>e. even e) (\<lambda>e. Inr (e + 1)) (foldl push hub_default [4, 5 :: nat])
     \<lparr>event_kind = True, last_sequence = current_sequence (foldl push hub_default [4, 5 :: nat])\<rparr>
     ([Publish 6, Poll, Publish 7, Publish 8] @ [Poll]) [] = Inr [7, 9 :: nat]"
  using subscription_exactly_once [of "\<lambda>e. even e" True "\<lambda>e. Inr (e + 1)" "\<lambda>e. e + 1" "[4, 5 :: nat]"
      "[Publish 6, Poll, Publish 7, Publish 8]"]
  by (simp add: MAX_EVENTS_def)

end
