(* ===== verification/Rust_Str.thy ===== *)
theory Rust_Str
  imports Prelude
begin

text \<open>
  \<open>str\<close> and \<open>String\<close>: a string is its UTF-8 encoding, a list of bytes (\<open>char\<close>), which makes \<open>len\<close>,
  equality, \<open>starts_with\<close> and \<open>strip_prefix\<close> plain list operations.  The operations that work on
  characters (\<open>trim\<close>, \<open>char::is_control\<close>) are given through the encodings of the characters they
  select, which is exact on valid UTF-8 since no encoding is part of another character's encoding.

  \<open>Instant\<close> and \<open>Duration\<close> are nanosecond counts; the largest instant is that of the Unix
  representation (a signed 64-bit count of seconds and a count of nanoseconds below a second).
\<close>

subsection \<open>Prefixes and suffixes\<close>

definition starts_with :: "string \<Rightarrow> string \<Rightarrow> bool" where
  "starts_with p s \<longleftrightarrow> take (length p) s = p"

definition strip_prefix :: "string \<Rightarrow> string \<Rightarrow> string option" where
  "strip_prefix p s = (if starts_with p s then Some (drop (length p) s) else None)"

definition ends_with :: "string \<Rightarrow> string \<Rightarrow> bool" where
  "ends_with p s \<longleftrightarrow> starts_with (rev p) (rev s)"

lemma starts_with_append [simp]: "starts_with p (p @ s)"
  by (simp add: starts_with_def)

lemma starts_with_iff: "starts_with p s \<longleftrightarrow> (\<exists>r. s = p @ r)"
  unfolding starts_with_def by (metis append_eq_conv_conj)

lemma strip_prefix_append [simp]: "strip_prefix p (p @ s) = Some s"
  by (simp add: strip_prefix_def)

lemma strip_prefix_Some: "strip_prefix p s = Some r \<longleftrightarrow> s = p @ r"
  by (auto simp: strip_prefix_def starts_with_iff)

subsection \<open>Characters\<close>

definition ascii_ctl :: "char \<Rightarrow> bool" where
  "ascii_ctl c \<longleftrightarrow> (of_char c :: nat) < 32 \<or> (of_char c :: nat) = 127"

text \<open>\<open>s.chars().any(char::is_control)\<close>: a C0 control, DEL, or a C1 control (\<open>C2 80\<close> to \<open>C2 9F\<close>).\<close>

fun has_control :: "string \<Rightarrow> bool" where
  "has_control [] = False"
| "has_control [c] = ascii_ctl c"
| "has_control (c # d # s) =
     (ascii_ctl c
      \<or> ((of_char c :: nat) = 0xC2 \<and> 0x80 \<le> (of_char d :: nat) \<and> (of_char d :: nat) \<le> 0x9F)
      \<or> has_control (d # s))"

definition is_ascii_alphanumeric :: "char \<Rightarrow> bool" where
  "is_ascii_alphanumeric c \<longleftrightarrow>
     (let n = (of_char c :: nat) in 48 \<le> n \<and> n \<le> 57 \<or> 65 \<le> n \<and> n \<le> 90 \<or> 97 \<le> n \<and> n \<le> 122)"

definition is_ascii_digit :: "char \<Rightarrow> bool" where
  "is_ascii_digit c \<longleftrightarrow> (let n = (of_char c :: nat) in 48 \<le> n \<and> n \<le> 57)"

definition to_ascii_lowercase :: "string \<Rightarrow> string" where
  "to_ascii_lowercase s =
     map (\<lambda>c. let n = (of_char c :: nat) in if 65 \<le> n \<and> n \<le> 90 then char_of (n + 32) else c) s"

text \<open>The encodings of the Unicode white-space characters.\<close>

definition whitespace_encodings :: "string list" where
  "whitespace_encodings =
     [[CHR 0x09], [CHR 0x0A], [CHR 0x0B], [CHR 0x0C], [CHR 0x0D], [CHR 0x20],
      [CHR 0xC2, CHR 0x85], [CHR 0xC2, CHR 0xA0], [CHR 0xE1, CHR 0x9A, CHR 0x80],
      [CHR 0xE2, CHR 0x80, CHR 0x80], [CHR 0xE2, CHR 0x80, CHR 0x81],
      [CHR 0xE2, CHR 0x80, CHR 0x82], [CHR 0xE2, CHR 0x80, CHR 0x83],
      [CHR 0xE2, CHR 0x80, CHR 0x84], [CHR 0xE2, CHR 0x80, CHR 0x85],
      [CHR 0xE2, CHR 0x80, CHR 0x86], [CHR 0xE2, CHR 0x80, CHR 0x87],
      [CHR 0xE2, CHR 0x80, CHR 0x88], [CHR 0xE2, CHR 0x80, CHR 0x89],
      [CHR 0xE2, CHR 0x80, CHR 0x8A], [CHR 0xE2, CHR 0x80, CHR 0xA8],
      [CHR 0xE2, CHR 0x80, CHR 0xA9], [CHR 0xE2, CHR 0x80, CHR 0xAF],
      [CHR 0xE2, CHR 0x81, CHR 0x9F], [CHR 0xE3, CHR 0x80, CHR 0x80]]"

lemma whitespace_encodings_nonempty: "w \<in> set whitespace_encodings \<Longrightarrow> w \<noteq> []"
  by (auto simp: whitespace_encodings_def)

function strip_all :: "string list \<Rightarrow> string \<Rightarrow> string" where
  "strip_all ws s =
     (case find (\<lambda>w. w \<noteq> [] \<and> starts_with w s) ws of None \<Rightarrow> s | Some w \<Rightarrow> strip_all ws (drop (length w) s))"
  by auto
termination
  by (relation "measure (\<lambda>(ws, s). length s)") (auto simp: find_Some_iff starts_with_iff)

declare strip_all.simps [simp del]

definition trim_start :: "string \<Rightarrow> string" where
  "trim_start s = strip_all whitespace_encodings s"

definition trim_end :: "string \<Rightarrow> string" where
  "trim_end s = rev (strip_all (map rev whitespace_encodings) (rev s))"

definition trim :: "string \<Rightarrow> string" where
  "trim s = trim_end (trim_start s)"

lemma strip_all_fix: "(\<forall>w \<in> set ws. w \<noteq> [] \<longrightarrow> \<not> starts_with w s) \<Longrightarrow> strip_all ws s = s"
  by (subst strip_all.simps) (auto split: option.split dest: find_mem)

lemma strip_all_head:
  assumes "s \<noteq> [] \<Longrightarrow> \<forall>w \<in> set ws. w \<noteq> [] \<longrightarrow> hd w \<noteq> hd s"
  shows "strip_all ws s = s"
proof (rule strip_all_fix, intro ballI impI notI)
  fix w assume w: "w \<in> set ws" "w \<noteq> []" "starts_with w s"
  then obtain r where "s = w @ r" by (auto simp: starts_with_iff)
  with w assms show False by auto
qed

text \<open>A printable ASCII byte other than the space is no part of a white-space encoding.\<close>

definition graphic :: "char \<Rightarrow> bool" where
  "graphic c \<longleftrightarrow> 33 \<le> (of_char c :: nat) \<and> (of_char c :: nat) < 127"

lemma graphic_not_whitespace: "graphic c \<Longrightarrow> w \<in> set whitespace_encodings \<Longrightarrow> c \<notin> set w"
  by (auto simp: whitespace_encodings_def graphic_def)

lemma trim_id [simp]:
  assumes "s \<noteq> [] \<Longrightarrow> graphic (hd s) \<and> graphic (last s)"
  shows "trim s = s"
proof -
  have "strip_all whitespace_encodings s = s"
    using assms graphic_not_whitespace by (intro strip_all_head) (metis hd_in_set)
  moreover have "strip_all (map rev whitespace_encodings) (rev s) = rev s"
    using assms graphic_not_whitespace
    by (intro strip_all_head) (auto simp: hd_rev, metis last_in_set rev_is_Nil_conv)
  ultimately show ?thesis by (simp add: trim_def trim_start_def trim_end_def)
qed

subsection \<open>Decimal numbers\<close>

text \<open>\<open>str::parse\<close> for an unsigned type of \<open>bound\<close> values: an optional plus sign and decimal digits.\<close>

fun parse_digits :: "nat \<Rightarrow> string \<Rightarrow> nat \<Rightarrow> nat option" where
  "parse_digits bound [] acc = Some acc"
| "parse_digits bound (c # s) acc =
     (if is_ascii_digit c \<and> acc * 10 + (of_char c - 48) < bound then parse_digits bound s (acc * 10 + (of_char c - 48)) else None)"

definition parse_unsigned :: "nat \<Rightarrow> string \<Rightarrow> nat option" where
  "parse_unsigned bound s =
     (let digits = (case strip_prefix ''+'' s of Some rest \<Rightarrow> rest | None \<Rightarrow> s)
      in if digits = [] then None else parse_digits bound digits 0)"

text \<open>The \<open>Display\<close> form of an unsigned integer.\<close>

definition digit_char :: "nat \<Rightarrow> char" where
  "digit_char d = char_of (48 + d)"

fun show_decimal :: "nat \<Rightarrow> string" where
  "show_decimal n = (if n < 10 then [digit_char n] else show_decimal (n div 10) @ [digit_char (n mod 10)])"

declare show_decimal.simps [simp del]

lemma digit_char_val: "d < 10 \<Longrightarrow> is_ascii_digit (digit_char d) \<and> of_char (digit_char d) = 48 + d"
  by (simp add: digit_char_def is_ascii_digit_def of_char_of)

lemma show_decimal_digits: "c \<in> set (show_decimal n) \<Longrightarrow> is_ascii_digit c"
proof (induction n rule: show_decimal.induct)
  case (1 n)
  then show ?case
    using digit_char_val [of n] digit_char_val [of "n mod 10"]
    by (subst (asm) show_decimal.simps) (auto split: if_splits)
qed

lemma show_decimal_nonempty: "show_decimal n \<noteq> []"
  by (subst show_decimal.simps) simp

lemma parse_digits_append:
  "parse_digits bound (s @ t) acc = Option.bind (parse_digits bound s acc) (parse_digits bound t)"
  by (induction s arbitrary: acc) simp_all

lemma parse_show_digits: "n < bound \<Longrightarrow> parse_digits bound (show_decimal n) 0 = Some n"
proof (induction n rule: show_decimal.induct)
  case (1 n)
  show ?case
  proof (cases "n < 10")
    case True
    with 1 digit_char_val [of n] show ?thesis by (subst show_decimal.simps) simp
  next
    case False
    with 1 have "parse_digits bound (show_decimal (n div 10)) 0 = Some (n div 10)"
      by (simp add: div_less_dividend [THEN less_trans])
    with False 1(2) digit_char_val [of "n mod 10"] show ?thesis
      by (subst show_decimal.simps) (simp add: parse_digits_append mult.commute)
  qed
qed

lemma parse_show_decimal:
  assumes "n < bound"
  shows "parse_unsigned bound (show_decimal n) = Some n"
proof -
  have "strip_prefix ''+'' (show_decimal n) = None"
    using show_decimal_digits [of "CHR ''+''" n]
    by (auto simp: strip_prefix_def starts_with_iff is_ascii_digit_def)
  then show ?thesis
    using show_decimal_nonempty parse_show_digits [OF assms] by (simp add: parse_unsigned_def)
qed

subsection \<open>Time\<close>

type_synonym instant = nat
type_synonym duration = nat

definition instant_max :: instant where
  "instant_max = 2 ^ 63 * 10 ^ 9 - 1"

definition checked_add :: "instant \<Rightarrow> duration \<Rightarrow> instant option" where
  "checked_add t d = (if t + d \<le> instant_max then Some (t + d) else None)"

end
