(* ===== verification/Agent.thy ===== *)
theory Agent
  imports Rust_Str
begin

text \<open>
  Agents, their labels and the integrations that report about them (\<^verbatim>\<open>runtime/src/detect/mod.rs\<close>).

  \<open>str::to_lowercase\<close> needs the Unicode tables; it is the argument \<open>lower\<close> of the definitions that
  use it, and \<open>lower_ascii\<close> is what the sources rely on: ASCII strings get ASCII lower case.
\<close>

subsection \<open>Agents\<close>

datatype agent_state = Idle | Working | Blocked | Unknown

record agent_detection =
  det_state :: agent_state
  skip_state_update :: bool
  visible_idle :: bool
  visible_blocker :: bool
  visible_working :: bool

datatype agent =
    Pi | Claude | Codex | Gemini | Cursor | Devin | Antigravity | Cline | Omp | Mastracode |
  OpenCode | GithubCopilot | Kimi | Kiro | Droid | Amp | Grok | Hermes | Kilo | Qodercli |
  Qwen | Letta | Maki | Muse

definition ALL_AGENTS :: "agent list" where
  "ALL_AGENTS =
     [Pi, Claude, Codex, Gemini, Cursor, Devin, Antigravity, Cline, Omp, Mastracode, OpenCode,
      GithubCopilot, Kimi, Kiro, Droid, Amp, Grok, Hermes, Kilo, Qodercli, Qwen, Letta, Maki,
      Muse]"

definition SCREEN_MANIFEST_AGENTS :: "agent list" where
  "SCREEN_MANIFEST_AGENTS =
     [Pi, Claude, Codex, Gemini, Cursor, Devin, Antigravity, Cline, OpenCode, GithubCopilot,
      Kimi, Kiro, Droid, Amp, Grok, Hermes, Kilo, Qodercli, Qwen, Letta, Maki, Muse]"

fun agent_label :: "agent \<Rightarrow> string" where
  "agent_label Pi = ''pi''"
| "agent_label Claude = ''claude''"
| "agent_label Codex = ''codex''"
| "agent_label Gemini = ''gemini''"
| "agent_label Cursor = ''cursor''"
| "agent_label Devin = ''devin''"
| "agent_label Antigravity = ''agy''"
| "agent_label Cline = ''cline''"
| "agent_label Omp = ''omp''"
| "agent_label Mastracode = ''mastracode''"
| "agent_label OpenCode = ''opencode''"
| "agent_label GithubCopilot = ''copilot''"
| "agent_label Kimi = ''kimi''"
| "agent_label Kiro = ''kiro''"
| "agent_label Droid = ''droid''"
| "agent_label Amp = ''amp''"
| "agent_label Grok = ''grok''"
| "agent_label Hermes = ''hermes''"
| "agent_label Kilo = ''kilo''"
| "agent_label Qodercli = ''qodercli''"
| "agent_label Qwen = ''qwen''"
| "agent_label Letta = ''letta''"
| "agent_label Maki = ''maki''"
| "agent_label Muse = ''muse''"

fun interactive_agent_executable :: "agent \<Rightarrow> string" where
  "interactive_agent_executable Pi = ''pi''"
| "interactive_agent_executable Claude = ''claude''"
| "interactive_agent_executable Codex = ''codex''"
| "interactive_agent_executable Gemini = ''gemini''"
| "interactive_agent_executable Cursor = ''cursor-agent''"
| "interactive_agent_executable Devin = ''devin''"
| "interactive_agent_executable Antigravity = ''agy''"
| "interactive_agent_executable Cline = ''cline''"
| "interactive_agent_executable Omp = ''omp''"
| "interactive_agent_executable Mastracode = ''mastracode''"
| "interactive_agent_executable OpenCode = ''opencode''"
| "interactive_agent_executable GithubCopilot = ''copilot''"
| "interactive_agent_executable Kimi = ''kimi''"
| "interactive_agent_executable Kiro = ''kiro-cli''"
| "interactive_agent_executable Droid = ''droid''"
| "interactive_agent_executable Amp = ''amp''"
| "interactive_agent_executable Grok = ''grok''"
| "interactive_agent_executable Hermes = ''hermes''"
| "interactive_agent_executable Kilo = ''kilo''"
| "interactive_agent_executable Qodercli = ''qodercli''"
| "interactive_agent_executable Qwen = ''qwen''"
| "interactive_agent_executable Letta = ''letta''"
| "interactive_agent_executable Maki = ''maki''"
| "interactive_agent_executable Muse = ''muse''"

subsection \<open>Names\<close>

text \<open>\<open>path.rsplit(['/', '\\'])\<close>: the components from the last to the first.\<close>

definition is_separator :: "char \<Rightarrow> bool" where
  "is_separator c \<longleftrightarrow> c = CHR 0x2F \<or> c = CHR 0x5C"

fun split_on :: "(char \<Rightarrow> bool) \<Rightarrow> string \<Rightarrow> string list" where
  "split_on P [] = [[]]"
| "split_on P (c # s) =
     (if P c then [] # split_on P s
      else (case split_on P s of [] \<Rightarrow> [[c]] | w # ws \<Rightarrow> (c # w) # ws))"

definition path_basename :: "string \<Rightarrow> string" where
  "path_basename path =
     (case find (\<lambda>component. component \<noteq> []) (rev (split_on is_separator path)) of
        Some component \<Rightarrow> component
      | None \<Rightarrow> path)"

definition is_muse_versioned_binary :: "string \<Rightarrow> bool" where
  "is_muse_versioned_binary name =
     (case strip_prefix ''muse-bin-'' (path_basename name) of
        None \<Rightarrow> False
      | Some [] \<Rightarrow> False
      | Some (c # _) \<Rightarrow> is_ascii_digit c)"

definition agent_names :: "(string \<times> agent) list" where
  "agent_names =
     [(''pi'', Pi), (''claude'', Claude), (''claude-code'', Claude), (''codex'', Codex),
      (''gemini'', Gemini), (''cursor'', Cursor), (''cursor-agent'', Cursor),
      (''devin'', Devin), (''devin-cli'', Devin), (''devin cli'', Devin),
      (''agy'', Antigravity), (''antigravity'', Antigravity),
      (''antigravity-cli'', Antigravity), (''cline'', Cline), (''.cline'', Cline),
      (''omp'', Omp), (''mastracode'', Mastracode), (''mastra-code'', Mastracode),
      (''mastra code'', Mastracode), (''opencode'', OpenCode), (''opencode2'', OpenCode),
      (''open-code'', OpenCode), (''copilot'', GithubCopilot),
      (''github-copilot'', GithubCopilot), (''ghcs'', GithubCopilot), (''kimi'', Kimi),
      (''kimi-code'', Kimi), (''kimi code'', Kimi), (''kiro'', Kiro), (''kiro-cli'', Kiro),
      (''droid'', Droid), (''amp'', Amp), (''amp-local'', Amp), (''grok'', Grok),
      (''grok-build'', Grok), (''hermes'', Hermes), (''hermes-agent'', Hermes),
      (''kilo'', Kilo), (''kilo-code'', Kilo), (''kilo code'', Kilo), (''qodercli'', Qodercli),
      (''qoderclicn'', Qodercli), (''qoder'', Qodercli), (''qodercn'', Qodercli),
      (''qwen'', Qwen), (''qwen-code'', Qwen), (''qwen code'', Qwen), (''letta'', Letta),
      (''letta-code'', Letta), (''letta code'', Letta), (''maki'', Maki), (''muse'', Muse),
      (''muse-code'', Muse), (''muse-cli'', Muse)]"

definition lookup_agent :: "string \<Rightarrow> agent option" where
  "lookup_agent nm =
     (let name = path_basename nm
      in case map_of agent_names name of
           Some a \<Rightarrow> Some a
         | None \<Rightarrow> if is_muse_versioned_binary name then Some Muse else None)"

fun strip_first_suffix :: "string list \<Rightarrow> string \<Rightarrow> string" where
  "strip_first_suffix [] name = name"
| "strip_first_suffix (suffix # rest) name =
     (if ends_with suffix name then take (length name - length suffix) name
      else strip_first_suffix rest name)"

definition normalized_agent_lookup_name :: "(string \<Rightarrow> string) \<Rightarrow> string \<Rightarrow> string" where
  "normalized_agent_lookup_name lower name =
     strip_first_suffix [''.exe'', ''.cmd'', ''.bat'', ''.ps1'', ''.js''] (lower (trim name))"

definition parse_canonical_agent_label :: "string \<Rightarrow> agent option" where
  "parse_canonical_agent_label label =
     (case lookup_agent label of
        None \<Rightarrow> None
      | Some a \<Rightarrow> if agent_label a = label then Some a else None)"

definition parse_agent_label :: "(string \<Rightarrow> string) \<Rightarrow> string \<Rightarrow> agent option" where
  "parse_agent_label lower agnt =
     (let name = normalized_agent_lookup_name lower agnt
      in case parse_canonical_agent_label name of Some a \<Rightarrow> Some a | None \<Rightarrow> lookup_agent name)"

definition identify_agent :: "(string \<Rightarrow> string) \<Rightarrow> string \<Rightarrow> agent option" where
  "identify_agent lower process_name = parse_agent_label lower process_name"

subsection \<open>Integrations\<close>

definition integration_source_kind :: "string \<Rightarrow> string option" where
  "integration_source_kind src =
     (case strip_prefix ''herden:'' src of Some k \<Rightarrow> Some k | None \<Rightarrow> strip_prefix ''herdr:'' src)"

definition full_lifecycle_hook_authority :: "string \<Rightarrow> string \<Rightarrow> bool" where
  "full_lifecycle_hook_authority src label =
     ((integration_source_kind src, label) \<in> set
        [(Some ''pi'', ''pi''), (Some ''omp'', ''omp''), (Some ''mastracode'', ''mastracode''),
         (Some ''opencode'', ''opencode''), (Some ''kilo'', ''kilo''), (Some ''kimi'', ''kimi'')])"

definition session_identity_only_integration :: "string \<Rightarrow> string \<Rightarrow> bool" where
  "session_identity_only_integration src label =
     ((integration_source_kind src, label) \<in> set
        [(Some ''hermes'', ''hermes''), (Some ''qwen'', ''qwen''), (Some ''letta'', ''letta''),
         (Some ''antigravity_cli'', ''agy'')])"

subsection \<open>Labels\<close>

definition lower_ascii :: "(string \<Rightarrow> string) \<Rightarrow> bool" where
  "lower_ascii lower \<longleftrightarrow> (\<forall>s. (\<forall>c \<in> set s. (of_char c :: nat) < 128) \<longrightarrow> lower s = to_ascii_lowercase s)"

lemma lower_ascii_ok: "lower_ascii to_ascii_lowercase"
  by (simp add: lower_ascii_def)

definition plain_name :: "string \<Rightarrow> bool" where
  "plain_name s \<longleftrightarrow> s \<noteq> [] \<and> list_all (\<lambda>c. 97 \<le> (of_char c :: nat) \<and> (of_char c :: nat) \<le> 122) s"

lemma plain_name_facts:
  assumes "plain_name s"
  shows "trim s = s" and "to_ascii_lowercase s = s" and "path_basename s = s"
    and "\<forall>c \<in> set s. (of_char c :: nat) < 128"
proof -
  have c: "97 \<le> (of_char c :: nat) \<and> (of_char c :: nat) \<le> 122" if "c \<in> set s" for c
    using assms that by (auto simp: plain_name_def list_all_iff)
  have "s \<noteq> []" using assms by (simp add: plain_name_def)
  then show "trim s = s"
    using c [of "hd s"] c [of "last s"] by (intro trim_id) (simp add: graphic_def)
  show "to_ascii_lowercase s = s"
    unfolding to_ascii_lowercase_def using c by (intro map_idI) (force simp: Let_def)
  have "list_all (\<lambda>c. \<not> is_separator c) s"
    unfolding list_all_iff is_separator_def using c by fastforce
  then have "split_on is_separator s = [s]" by (induction s) auto
  with \<open>s \<noteq> []\<close> show "path_basename s = s" by (simp add: path_basename_def)
  show "\<forall>c \<in> set s. (of_char c :: nat) < 128" using c by force
qed

lemma plain_name_no_suffix:
  assumes "plain_name s"
  shows "strip_first_suffix [''.exe'', ''.cmd'', ''.bat'', ''.ps1'', ''.js''] s = s"
proof -
  have dot: "CHR ''.'' \<notin> set s" using assms by (force simp: plain_name_def list_all_iff)
  have "\<not> ends_with p s" if "CHR ''.'' \<in> set p" for p
    using that dot by (auto simp: ends_with_def starts_with_iff) (metis Un_iff in_set_conv_decomp set_append set_rev)
  then show ?thesis by simp
qed

lemma agent_label_plain: "plain_name (agent_label a)"
  by (cases a) (simp_all add: plain_name_def)

lemma lookup_agent_label: "lookup_agent (agent_label a) = Some a"
  using plain_name_facts(3) [OF agent_label_plain, of a]
  by (cases a) (simp_all add: lookup_agent_def agent_names_def)

lemma parse_agent_label_label: "lower_ascii lower \<Longrightarrow> parse_agent_label lower (agent_label a) = Some a"
  using plain_name_facts [OF agent_label_plain, of a] plain_name_no_suffix [OF agent_label_plain, of a]
  by (simp add: parse_agent_label_def normalized_agent_lookup_name_def lower_ascii_def
      parse_canonical_agent_label_def lookup_agent_label)

lemma ALL_AGENTS_complete: "set ALL_AGENTS = UNIV \<and> distinct ALL_AGENTS"
proof -
  have "a \<in> set ALL_AGENTS" for a by (cases a) (simp_all add: ALL_AGENTS_def)
  then show ?thesis by (auto simp: ALL_AGENTS_def)
qed

lemma agent_label_inj: "agent_label a = agent_label b \<longleftrightarrow> a = b"
  using lookup_agent_label by (metis option.inject)

lemma full_lifecycle_not_identity_only:
  "full_lifecycle_hook_authority src label \<Longrightarrow> \<not> session_identity_only_integration src label"
  by (auto simp: full_lifecycle_hook_authority_def session_identity_only_integration_def)

lemma full_lifecycle_label: "full_lifecycle_hook_authority src label \<Longrightarrow> \<exists>a. label = agent_label a"
  unfolding full_lifecycle_hook_authority_def
  by (auto intro: exI [of _ Pi] exI [of _ Omp] exI [of _ Mastracode] exI [of _ OpenCode] exI [of _ Kilo] exI [of _ Kimi])

lemma full_lifecycle_known:
  "lower_ascii lower \<Longrightarrow> full_lifecycle_hook_authority src label \<Longrightarrow> \<exists>a. parse_agent_label lower label = Some a"
  using full_lifecycle_label parse_agent_label_label by metis

end
