(* ===== verification/Agent_Resume.thy ===== *)
theory Agent_Resume
  imports Agent
begin

text \<open>
  Agent sessions and how to resume them (\<^verbatim>\<open>runtime/src/agent_resume.rs\<close>): session references
  and their validation, the sessions kept across restarts, the official integrations, and the resume
  command of each.  The model follows the Unix build (\<open>Path::is_absolute\<close>, \<open>cfg!(windows)\<close>).
\<close>

subsection \<open>Data\<close>

datatype agent_session_ref_kind = KindId | KindPath

record agent_session_ref =
  ref_kind :: agent_session_ref_kind
  ref_value :: string

record agent_resume_plan =
  plan_agent :: string
  plan_argv :: "string list"
  plan_dedupe_key :: string

record reported_agent_resume =
  rr_source :: string
  rr_agent :: string
  rr_argv :: "string list"

record persisted_agent_session =
  ps_source :: string
  ps_agent :: string
  ps_session_ref :: agent_session_ref

definition MAX_SESSION_ID_LEN :: nat where "MAX_SESSION_ID_LEN = 512"
definition MAX_SESSION_PATH_LEN :: nat where "MAX_SESSION_PATH_LEN = 4096"
definition MAX_RESUME_ARGS :: nat where "MAX_RESUME_ARGS = 64"
definition MAX_RESUME_ARGV_BYTES :: nat where "MAX_RESUME_ARGV_BYTES = 8192"

subsection \<open>Reported resume commands\<close>

definition NUL :: string where
  "NUL = [CHR 0x00]"

fun join :: "string \<Rightarrow> string list \<Rightarrow> string" where
  "join sep [] = []"
| "join sep [x] = x"
| "join sep (x # y # xs) = x @ sep @ join sep (y # xs)"

definition reported_plan :: "reported_agent_resume \<Rightarrow> string \<Rightarrow> agent_resume_plan" where
  "reported_plan r cwd =
     \<lparr>plan_agent = rr_agent r, plan_argv = rr_argv r,
      plan_dedupe_key =
        rr_source r @ NUL @ rr_agent r @ NUL @ cwd @ NUL @ ''argv'' @ NUL @ join NUL (rr_argv r)\<rparr>"

datatype resume_argv_error =
    ResumeEmpty | ResumeTooManyArgs | ResumeTooManyBytes | ResumeControl | ResumeApostrophe | ResumeNotPlain

definition validate_resume_argv :: "string list \<Rightarrow> resume_argv_error + unit" where
  "validate_resume_argv argv =
     (case argv of
        [] \<Rightarrow> Inl ResumeEmpty
      | command # _ \<Rightarrow>
          if length argv > MAX_RESUME_ARGS then Inl ResumeTooManyArgs
          else if sum_list (map length argv) > MAX_RESUME_ARGV_BYTES then Inl ResumeTooManyBytes
          else if list_ex has_control argv then Inl ResumeControl
          else if list_ex (\<lambda>arg. CHR 0x27 \<in> set arg) argv then Inl ResumeApostrophe
          else if command \<noteq> [] \<and> \<not> starts_with ''-'' command
            \<and> list_all (\<lambda>c. is_ascii_alphanumeric c \<or> c = CHR ''_'' \<or> c = CHR ''-'' \<or> c = CHR ''.'') command
          then Inr ()
          else Inl ResumeNotPlain)"

subsection \<open>Session references\<close>

definition valid_session_id :: "string \<Rightarrow> bool" where
  "valid_session_id v \<longleftrightarrow> v \<noteq> [] \<and> length v \<le> MAX_SESSION_ID_LEN \<and> \<not> has_control v"

definition valid_session_path :: "string \<Rightarrow> bool" where
  "valid_session_path v \<longleftrightarrow>
     v \<noteq> [] \<and> length v \<le> MAX_SESSION_PATH_LEN \<and> \<not> has_control v \<and> starts_with ''/'' v"

definition session_ref_id :: "string \<Rightarrow> agent_session_ref option" where
  "session_ref_id v = (if valid_session_id v then Some \<lparr>ref_kind = KindId, ref_value = v\<rparr> else None)"

definition session_ref_path :: "string \<Rightarrow> agent_session_ref option" where
  "session_ref_path v = (if valid_session_path v then Some \<lparr>ref_kind = KindPath, ref_value = v\<rparr> else None)"

definition agent_source_kind :: "string \<Rightarrow> string option" where
  "agent_source_kind src =
     (case strip_prefix ''herden:'' src of Some k \<Rightarrow> Some k | None \<Rightarrow> strip_prefix ''herdr:'' src)"

definition official_sources :: "(string \<times> string) list" where
  "official_sources =
     [(''claude'', ''claude''), (''codex'', ''codex''), (''copilot'', ''copilot''), (''devin'', ''devin''),
      (''droid'', ''droid''), (''kimi'', ''kimi''), (''omp'', ''omp''), (''mastracode'', ''mastracode''),
      (''pi'', ''pi''), (''hermes'', ''hermes''), (''opencode'', ''opencode''), (''qodercli'', ''qodercli''),
      (''qwen'', ''qwen''), (''kilo'', ''kilo''), (''cursor'', ''cursor''), (''antigravity_cli'', ''agy''),
      (''grok'', ''grok''), (''letta'', ''letta'')]"

definition is_official_agent_source :: "string \<Rightarrow> string \<Rightarrow> bool" where
  "is_official_agent_source src agnt =
     (case agent_source_kind src of None \<Rightarrow> False | Some k \<Rightarrow> (k, agnt) \<in> set official_sources)"

definition is_reserved_native_state_source :: "string \<Rightarrow> string \<Rightarrow> bool" where
  "is_reserved_native_state_source src agnt =
     (case agent_source_kind src of
        None \<Rightarrow> False
      | Some k \<Rightarrow> (k, agnt) \<in> set
          [(''claude'', ''claude''), (''copilot'', ''copilot''), (''devin'', ''devin''), (''droid'', ''droid''),
           (''qodercli'', ''qodercli''), (''qwen'', ''qwen''), (''cursor'', ''cursor''), (''grok'', ''grok'')])"

definition session_ref_from_report ::
    "string \<Rightarrow> string \<Rightarrow> string option \<Rightarrow> string option \<Rightarrow> agent_session_ref option" where
  "session_ref_from_report src agnt session_id session_path =
     (if \<not> is_official_agent_source src agnt then None
      else if agnt = ''pi'' \<or> agnt = ''omp''
      then (case Option.bind session_path session_ref_path of
              Some r \<Rightarrow> Some r
            | None \<Rightarrow> Option.bind session_id session_ref_id)
      else Option.bind session_id session_ref_id)"

definition persisted_session_from_launch_args :: "agent \<Rightarrow> string list \<Rightarrow> persisted_agent_session option" where
  "persisted_session_from_launch_args agnt args =
     (case args of
        [command, session_id] \<Rightarrow>
          if agnt \<noteq> Codex \<or> command \<noteq> ''resume'' \<or> starts_with ''-'' session_id then None
          else map_option
            (\<lambda>r. \<lparr>ps_source = ''herden:codex'', ps_agent = ''codex'', ps_session_ref = r\<rparr>)
            (session_ref_id session_id)
      | _ \<Rightarrow> None)"

definition normalize_session_start_source :: "string option \<Rightarrow> string option" where
  "normalize_session_start_source v =
     (case map_option trim v of
        Some s \<Rightarrow>
          if s \<in> set [''startup'', ''resume'', ''clear'', ''compact'', ''branch'', ''new'', ''fork'', ''select'']
          then Some s else None
      | None \<Rightarrow> None)"

definition session_ref_from_snapshot ::
    "string \<Rightarrow> string \<Rightarrow> agent_session_ref_kind \<Rightarrow> string \<Rightarrow> persisted_agent_session option" where
  "session_ref_from_snapshot src agnt knd v =
     (if \<not> is_official_agent_source src agnt then None
      else map_option (\<lambda>r. \<lparr>ps_source = src, ps_agent = agnt, ps_session_ref = r\<rparr>)
        (if (agnt = ''pi'' \<or> agnt = ''omp'') \<and> knd = KindPath then session_ref_path v
         else if knd = KindId then session_ref_id v
         else None))"

subsection \<open>Resume plans\<close>

fun kind_debug :: "agent_session_ref_kind \<Rightarrow> string" where
  "kind_debug KindId = ''Id''"
| "kind_debug KindPath = ''Path''"

definition dedupe_key :: "string \<Rightarrow> string \<Rightarrow> agent_session_ref \<Rightarrow> string" where
  "dedupe_key src agnt r = src @ NUL @ agnt @ NUL @ kind_debug (ref_kind r) @ NUL @ ref_value r"

text \<open>The command line per official source; \<open>pi\<close> and \<open>omp\<close> take paths as well as ids.\<close>

definition resume_argv :: "string \<Rightarrow> string \<Rightarrow> agent_session_ref_kind \<Rightarrow> string \<Rightarrow> string list option" where
  "resume_argv k agnt knd v =
     (if (k, agnt) = (''pi'', ''pi'') then Some [''pi'', ''--session'', v]
      else if (k, agnt) = (''omp'', ''omp'') then Some [''omp'', ''--resume='' @ v]
      else if knd \<noteq> KindId then None
      else if (k, agnt) = (''claude'', ''claude'') then Some [''claude'', ''--resume'', v]
      else if (k, agnt) = (''codex'', ''codex'') then Some [''codex'', ''resume'', v]
      else if (k, agnt) = (''copilot'', ''copilot'') then Some [''copilot'', ''--resume='' @ v]
      else if (k, agnt) = (''devin'', ''devin'') then Some [''devin'', ''--resume'', v]
      else if (k, agnt) = (''droid'', ''droid'') then Some [''droid'', ''--resume'', v]
      else if (k, agnt) = (''kimi'', ''kimi'') then Some [''kimi'', ''--session'', v]
      else if (k, agnt) = (''mastracode'', ''mastracode'') then Some [''mastracode'', ''--thread'', v]
      else if (k, agnt) = (''hermes'', ''hermes'') then Some [''hermes'', ''--resume'', v]
      else if (k, agnt) = (''opencode'', ''opencode'') then Some [''opencode'', ''--session'', v]
      else if (k, agnt) = (''qodercli'', ''qodercli'') then Some [''qodercli'', ''--resume'', v]
      else if (k, agnt) = (''qwen'', ''qwen'') then Some [''qwen'', ''--resume'', v]
      else if (k, agnt) = (''kilo'', ''kilo'') then Some [''kilo'', ''--session'', v]
      else if (k, agnt) = (''cursor'', ''cursor'') then Some [''cursor-agent'', ''--resume'', v]
      else if (k, agnt) = (''antigravity_cli'', ''agy'') then Some [''agy'', ''--conversation'', v]
      else if (k, agnt) = (''grok'', ''grok'') then Some [''grok'', ''--resume'', v]
      else if (k, agnt) = (''letta'', ''letta'')
      then (case strip_prefix ''default:'' v of
              Some agent_id \<Rightarrow>
                if agent_id = [] then None
                else Some [''letta'', ''--conversation'', ''default'', ''--agent'', agent_id]
            | None \<Rightarrow> Some [''letta'', ''--conversation'', v])
      else None)"

definition plan :: "string \<Rightarrow> string \<Rightarrow> agent_session_ref \<Rightarrow> agent_resume_plan option" where
  "plan src agnt r =
     (if \<not> is_official_agent_source src agnt then None
      else
        (case Option.bind (agent_source_kind src) (\<lambda>k. resume_argv k agnt (ref_kind r) (ref_value r)) of
           None \<Rightarrow> None
         | Some argv \<Rightarrow>
             Some \<lparr>plan_agent = agnt, plan_argv = argv, plan_dedupe_key = dedupe_key src agnt r\<rparr>))"

subsection \<open>Properties\<close>

lemma source_kind_eq: "agent_source_kind src = integration_source_kind src"
  by (simp add: agent_source_kind_def integration_source_kind_def)

lemma full_lifecycle_official:
  "full_lifecycle_hook_authority src label \<Longrightarrow> is_official_agent_source src label"
  by (auto simp: full_lifecycle_hook_authority_def is_official_agent_source_def source_kind_eq official_sources_def)

lemma identity_only_official:
  "session_identity_only_integration src label \<Longrightarrow> is_official_agent_source src label"
  by (auto simp: session_identity_only_integration_def is_official_agent_source_def source_kind_eq official_sources_def)

lemma has_control_nul: "has_control s = False \<Longrightarrow> CHR 0x00 \<notin> set s"
  by (induction s rule: has_control.induct) (auto simp: ascii_ctl_def)

lemma official_agent_no_nul:
  assumes "is_official_agent_source src agnt"
  shows "CHR 0x00 \<notin> set agnt" and "CHR 0x00 \<notin> set src"
proof -
  obtain k where k: "agent_source_kind src = Some k" "(k, agnt) \<in> set official_sources"
    using assms by (auto simp: is_official_agent_source_def split: option.splits)
  then have "CHR 0x00 \<notin> set agnt \<and> CHR 0x00 \<notin> set k" by (auto simp: official_sources_def)
  moreover have "src = ''herden:'' @ k \<or> src = ''herdr:'' @ k"
    using k(1) by (auto simp: agent_source_kind_def strip_prefix_Some split: option.splits)
  ultimately show "CHR 0x00 \<notin> set agnt" "CHR 0x00 \<notin> set src" by auto
qed

lemma append_sep_inj:
  "c \<notin> set a \<Longrightarrow> c \<notin> set a' \<Longrightarrow> a @ c # r = a' @ c # r' \<longleftrightarrow> a = a' \<and> r = r'"
proof (induction a arbitrary: a')
  case Nil
  then show ?case by (cases a') auto
next
  case (Cons x a)
  then show ?case by (cases a') auto
qed

lemma kind_debug_inj: "kind_debug k @ NUL @ r = kind_debug k' @ NUL @ r' \<longleftrightarrow> k = k' \<and> r = r'"
  by (cases k; cases k') (auto simp: NUL_def)

lemma has_control_Cons: "graphic c \<Longrightarrow> has_control (c # s) = has_control s"
  by (cases s) (auto simp: ascii_ctl_def graphic_def)

lemma has_control_append: "list_all graphic p \<Longrightarrow> has_control (p @ s) = has_control s"
  by (induction p) (auto simp: has_control_Cons)

lemma has_control_suffix: "has_control s \<Longrightarrow> has_control (p @ s)"
proof (induction p)
  case (Cons c p)
  then show ?case by (cases "p @ s") (use Cons in auto)
qed simp

lemma has_control_graphic: "list_all graphic p \<Longrightarrow> \<not> has_control p"
  using has_control_append [of p "[]"] by simp

lemma reported_ref_value:
  assumes "session_ref_from_report src agnt session_id session_path = Some r"
  shows "is_official_agent_source src agnt" and "ref_value r \<noteq> []" and "\<not> has_control (ref_value r)"
    and "ref_kind r = KindId \<or> agnt = ''pi'' \<or> agnt = ''omp''"
  using assms
  by (auto simp: session_ref_from_report_def session_ref_path_def session_ref_id_def valid_session_id_def
      valid_session_path_def split: if_splits option.splits bind_splits)

text \<open>Arguments that stay one shell word: neither empty nor with a control character.\<close>

definition clean_arg :: "string \<Rightarrow> bool" where
  "clean_arg arg \<longleftrightarrow> arg \<noteq> [] \<and> \<not> has_control arg"

lemma clean_arg_graphic: "list_all graphic p \<Longrightarrow> p \<noteq> [] \<Longrightarrow> clean_arg p"
  by (simp add: clean_arg_def has_control_graphic)

lemma clean_arg_append: "list_all graphic p \<Longrightarrow> clean_arg v \<Longrightarrow> clean_arg (p @ v)"
  by (auto simp: clean_arg_def has_control_append)

lemma resume_argv_clean:
  assumes "(k, agnt) \<in> set official_sources" and "knd = KindId \<or> agnt = ''pi'' \<or> agnt = ''omp''"
    and "clean_arg v" and "agnt = ''letta'' \<Longrightarrow> v \<noteq> ''default:''"
  shows "\<exists>argv. resume_argv k agnt knd v = Some argv \<and> list_all clean_arg argv"
proof (cases "agnt = ''letta''")
  case True
  then have [simp]: "k = ''letta''" "knd = KindId" using assms by (auto simp: official_sources_def)
  show ?thesis
  proof (cases "strip_prefix ''default:'' v")
    case None
    with True assms(3) show ?thesis by (simp add: resume_argv_def clean_arg_graphic graphic_def)
  next
    case (Some i)
    then have v: "v = ''default:'' @ i" by (simp only: strip_prefix_Some)
    with assms(3,4) True have "clean_arg i" by (auto simp: clean_arg_def dest: has_control_suffix [of i "''default:''"])
    with True Some show ?thesis by (simp add: resume_argv_def clean_arg_graphic graphic_def) (simp add: clean_arg_def)
  qed
next
  case False
  note facts = assms(1,2) False
  have "clean_arg (''--resume='' @ v)" using assms(3) by (intro clean_arg_append) (simp_all add: graphic_def)
  moreover from facts(1) have
    "(k, agnt) = (''claude'', ''claude'') \<or> (k, agnt) = (''codex'', ''codex'') \<or> (k, agnt) = (''copilot'', ''copilot'')
     \<or> (k, agnt) = (''devin'', ''devin'') \<or> (k, agnt) = (''droid'', ''droid'') \<or> (k, agnt) = (''kimi'', ''kimi'')
     \<or> (k, agnt) = (''omp'', ''omp'') \<or> (k, agnt) = (''mastracode'', ''mastracode'') \<or> (k, agnt) = (''pi'', ''pi'')
     \<or> (k, agnt) = (''hermes'', ''hermes'') \<or> (k, agnt) = (''opencode'', ''opencode'')
     \<or> (k, agnt) = (''qodercli'', ''qodercli'') \<or> (k, agnt) = (''qwen'', ''qwen'') \<or> (k, agnt) = (''kilo'', ''kilo'')
     \<or> (k, agnt) = (''cursor'', ''cursor'') \<or> (k, agnt) = (''antigravity_cli'', ''agy'') \<or> (k, agnt) = (''grok'', ''grok'')
     \<or> (k, agnt) = (''letta'', ''letta'')"
    unfolding official_sources_def by simp
  ultimately show ?thesis
    using assms(2,3) False
    by (elim disjE) (simp_all add: resume_argv_def clean_arg_graphic graphic_def)
qed

text \<open>
C38. A session reference accepted from a report of an official source is accepted again,
unchanged, when it is read back from the saved session snapshot.
\<close>

theorem session_report_snapshot_roundtrip:
  assumes "session_ref_from_report src agnt session_id session_path = Some r"
  shows "session_ref_from_snapshot src agnt (ref_kind r) (ref_value r) =
    Some \<lparr>ps_source = src, ps_agent = agnt, ps_session_ref = r\<rparr>"
  using assms
  by (auto simp: session_ref_from_report_def session_ref_from_snapshot_def session_ref_path_def session_ref_id_def
      split: if_splits option.splits bind_splits)

theorem plan_dedupe_identifies_session:
  assumes "plan src agnt r = Some p" and "plan src' agnt' r' = Some p'"
  shows "plan_dedupe_key p = plan_dedupe_key p' \<longleftrightarrow> src = src' \<and> agnt = agnt' \<and> r = r'"
proof -
  have off: "is_official_agent_source src agnt" "is_official_agent_source src' agnt'"
    and keys: "plan_dedupe_key p = dedupe_key src agnt r" "plan_dedupe_key p' = dedupe_key src' agnt' r'"
    using assms by (auto simp: plan_def split: if_splits option.splits)
  have "dedupe_key src agnt r = dedupe_key src' agnt' r' \<longleftrightarrow>
      src = src' \<and> agnt = agnt' \<and> ref_kind r = ref_kind r' \<and> ref_value r = ref_value r'"
    using official_agent_no_nul [OF off(1)] official_agent_no_nul [OF off(2)] kind_debug_inj
    by (simp add: dedupe_key_def NUL_def append_sep_inj)
  then show ?thesis by (auto simp: keys)
qed

theorem reported_session_has_plan:
  assumes "session_ref_from_report src agnt session_id session_path = Some r"
    and "agnt = ''letta'' \<Longrightarrow> ref_value r \<noteq> ''default:''"
  shows "\<exists>p. plan src agnt r = Some p \<and> plan_agent p = agnt
    \<and> (\<forall>arg \<in> set (plan_argv p). arg \<noteq> [] \<and> \<not> has_control arg)"
proof -
  note r = reported_ref_value [OF assms(1)]
  obtain k where k: "agent_source_kind src = Some k" "(k, agnt) \<in> set official_sources"
    using r(1) by (auto simp: is_official_agent_source_def split: option.splits)
  obtain argv where "resume_argv k agnt (ref_kind r) (ref_value r) = Some argv" "list_all clean_arg argv"
    using resume_argv_clean [OF k(2) r(4) _ assms(2)] r(2,3) by (auto simp: clean_arg_def)
  with k r(1) show ?thesis by (auto simp: plan_def list_all_iff clean_arg_def)
qed

theorem session_report_snapshot_roundtrip_witness:
  "session_ref_from_snapshot ''herden:claude'' ''claude'' KindId ''abc'' =
   Some \<lparr>ps_source = ''herden:claude'', ps_agent = ''claude'', ps_session_ref = \<lparr>ref_kind = KindId, ref_value = ''abc''\<rparr>\<rparr>"
  using session_report_snapshot_roundtrip
    [of "''herden:claude''" "''claude''" "Some ''abc''" None "\<lparr>ref_kind = KindId, ref_value = ''abc''\<rparr>"]
  by (simp add: session_ref_from_report_def is_official_agent_source_def agent_source_kind_def strip_prefix_def
      starts_with_def official_sources_def session_ref_id_def valid_session_id_def ascii_ctl_def MAX_SESSION_ID_LEN_def)

lemma demo_plan:
  "plan ''herden:codex'' ''codex'' \<lparr>ref_kind = KindId, ref_value = v\<rparr> =
   Some \<lparr>plan_agent = ''codex'', plan_argv = [''codex'', ''resume'', v],
     plan_dedupe_key = dedupe_key ''herden:codex'' ''codex'' \<lparr>ref_kind = KindId, ref_value = v\<rparr>\<rparr>"
  by (simp add: plan_def is_official_agent_source_def agent_source_kind_def strip_prefix_def
      starts_with_def official_sources_def resume_argv_def)

theorem plan_dedupe_identifies_session_witness:
  "\<exists>p p'. plan ''herden:codex'' ''codex'' \<lparr>ref_kind = KindId, ref_value = ''a''\<rparr> = Some p
    \<and> plan ''herden:codex'' ''codex'' \<lparr>ref_kind = KindId, ref_value = ''b''\<rparr> = Some p'
    \<and> plan_dedupe_key p \<noteq> plan_dedupe_key p'"
  using plan_dedupe_identifies_session [OF demo_plan [of "''a''"] demo_plan [of "''b''"]]
  unfolding demo_plan by fastforce

theorem reported_session_has_plan_witness:
  "\<exists>p. plan ''herdr:pi'' ''pi'' \<lparr>ref_kind = KindPath, ref_value = ''/s''\<rparr> = Some p \<and> plan_agent p = ''pi''"
  using reported_session_has_plan
    [of "''herdr:pi''" "''pi''" None "Some ''/s''" "\<lparr>ref_kind = KindPath, ref_value = ''/s''\<rparr>"]
  by (auto simp: session_ref_from_report_def is_official_agent_source_def agent_source_kind_def strip_prefix_def
      starts_with_def official_sources_def session_ref_path_def valid_session_path_def ascii_ctl_def MAX_SESSION_PATH_LEN_def)

end
