(* ===== verification/Metadata_Tokens.thy ===== *)
theory Metadata_Tokens
  imports Rust_Str
begin

text \<open>
  Metadata tokens (\<^verbatim>\<open>runtime/src/metadata_tokens.rs\<close>): key-value tokens with an optional expiry that
  integrations attach to a terminal or workspace, and the freshness of numbered reports per source.
  A \<open>HashMap\<close> given as an argument is iterated in some order; the model takes it as a table, whose
  order is that order.
\<close>

record metadata_token =
  tok_value :: string
  tok_expires_at :: "instant option"

type_synonym metadata_tokens = "(string, metadata_token) hmap"

definition MAX_SEQUENCE_SOURCES :: nat where
  "MAX_SEQUENCE_SOURCES = 32"

definition sequence_is_fresh :: "(string, u64) hmap \<Rightarrow> string \<Rightarrow> u64 option \<Rightarrow> bool" where
  "sequence_is_fresh sequences src seq =
     (case seq of
        None \<Rightarrow> True
      | Some s \<Rightarrow> (case hm_get sequences src of None \<Rightarrow> True | Some previous \<Rightarrow> s > previous))"

definition accept_sequence :: "(string, u64) hmap \<Rightarrow> string \<Rightarrow> u64 option \<Rightarrow> (string, u64) hmap \<times> (unit + bool)" where
  "accept_sequence sequences src seq =
     (case seq of
        None \<Rightarrow> (sequences, Inr True)
      | Some s \<Rightarrow>
          if \<not> sequence_is_fresh sequences src (Some s) then (sequences, Inr False)
          else if \<not> hm_contains sequences src \<and> length sequences \<ge> MAX_SEQUENCE_SOURCES then (sequences, Inl ())
          else (hm_insert src s sequences, Inr True))"

fun patch_loop :: "(string \<times> string option) list \<Rightarrow> instant option \<Rightarrow> metadata_tokens \<Rightarrow> bool \<Rightarrow> metadata_tokens \<times> bool" where
  "patch_loop [] expires_at entries changed = (entries, changed)"
| "patch_loop ((key, v) # rest) expires_at entries changed =
     (case v of
        Some v' \<Rightarrow>
          (let token = \<lparr>tok_value = v', tok_expires_at = expires_at\<rparr>
           in if hm_get entries key \<noteq> Some token
              then patch_loop rest expires_at (hm_insert key token entries) True
              else patch_loop rest expires_at entries changed)
      | None \<Rightarrow>
          patch_loop rest expires_at (hm_remove key entries) (changed \<or> hm_get entries key \<noteq> None))"

definition tokens_patch :: "metadata_tokens \<Rightarrow> (string, string option) hmap \<Rightarrow> duration option \<Rightarrow> instant \<Rightarrow> metadata_tokens \<times> bool" where
  "tokens_patch entries patch ttl now =
     patch_loop patch (Option.bind ttl (checked_add now)) entries False"

definition tokens_values :: "metadata_tokens \<Rightarrow> (string, string) hmap" where
  "tokens_values entries = map (\<lambda>(k, token). (k, tok_value token)) entries"

definition key_count_after_patch :: "metadata_tokens \<Rightarrow> (string, string option) hmap \<Rightarrow> nat" where
  "key_count_after_patch entries patch =
     length (fold (\<lambda>(key, v) keys. if v \<noteq> None then List.insert key keys else removeAll key keys)
       patch (remdups (hm_keys (tokens_values entries))))"

definition opt_min :: "instant list \<Rightarrow> instant option" where
  "opt_min ts = (case ts of [] \<Rightarrow> None | _ \<Rightarrow> Some (Min (set ts)))"

definition tokens_next_expiry :: "metadata_tokens \<Rightarrow> instant option" where
  "tokens_next_expiry entries = opt_min (List.map_filter (\<lambda>(k, token). tok_expires_at token) entries)"

definition tokens_expire_at :: "metadata_tokens \<Rightarrow> instant \<Rightarrow> metadata_tokens \<times> bool" where
  "tokens_expire_at entries now =
     (let after = hm_retain (\<lambda>k token. case tok_expires_at token of None \<Rightarrow> True | Some d \<Rightarrow> d > now) entries
      in (after, length after \<noteq> length entries))"

subsection \<open>Lemmas\<close>

lemma patch_loop_ok: "hm_ok entries \<Longrightarrow> hm_ok (fst (patch_loop patch e entries changed))"
  by (induction patch e entries changed rule: patch_loop.induct)
     (auto simp: Let_def hm.ok_put hm.ok_del split: option.splits)

lemma patch_loop_get:
  assumes "hm_ok patch"
  shows "hm_get (fst (patch_loop patch e entries changed)) k =
    (case hm_get patch k of
       None \<Rightarrow> hm_get entries k
     | Some None \<Rightarrow> None
     | Some (Some v) \<Rightarrow> Some \<lparr>tok_value = v, tok_expires_at = e\<rparr>)"
  using assms
proof (induction patch e entries changed rule: patch_loop.induct)
  case (2 key v rest e entries changed)
  then have ok: "hm_ok rest" and key: "hm_get rest key = None"
    by (auto simp: hm_ok_def hm_get_def map_of_eq_None_iff)
  have get: "hm_get ((key, w) # rest) k = (if k = key then Some w else hm_get rest k)" for w
    by (simp add: hm_get_def)
  show ?case
  proof (cases v)
    case None
    with 2 ok key show ?thesis by (auto simp: get hm.get_del split: option.splits)
  next
    case (Some v')
    with 2 ok key show ?thesis
      by (auto simp: get hm.get_put Let_def split: option.splits)
  qed
qed simp

lemma patch_loop_changed:
  assumes "hm_ok patch"
  shows "snd (patch_loop patch e entries changed) \<longleftrightarrow>
    changed \<or> (\<exists>k. hm_get (fst (patch_loop patch e entries changed)) k \<noteq> hm_get entries k)"
  using assms
proof (induction patch e entries changed rule: patch_loop.induct)
  case (2 key v rest e entries changed)
  then have ok: "hm_ok rest" and key: "hm_get rest key = None"
    by (auto simp: hm_ok_def hm_get_def map_of_eq_None_iff)
  have keep: "hm_get (fst (patch_loop rest e m c)) key = hm_get m key" for m c
    using patch_loop_get [OF ok] key by simp
  show ?case
  proof (cases v)
    case None
    have "(\<exists>k. hm_get (fst (patch_loop rest e (hm_remove key entries) c)) k \<noteq> hm_get entries k) \<longleftrightarrow>
        hm_get entries key \<noteq> None
        \<or> (\<exists>k. hm_get (fst (patch_loop rest e (hm_remove key entries) c)) k \<noteq> hm_get (hm_remove key entries) k)" for c
      using keep [of "hm_remove key entries" c] by (metis hm.get_del)
    with None 2(1) [OF None ok] show ?thesis by auto
  next
    case (Some v')
    let ?m = "hm_insert key \<lparr>tok_value = v', tok_expires_at = e\<rparr> entries"
    show ?thesis
    proof (cases "hm_get entries key = Some \<lparr>tok_value = v', tok_expires_at = e\<rparr>")
      case True
      with Some 2(3) ok show ?thesis by (simp add: Let_def)
    next
      case False
      with Some 2(2) ok keep [of ?m True] show ?thesis
        by (auto simp: Let_def hm.get_put intro!: exI [of _ key])
    qed
  qed
qed simp

lemma hm_retain_same: "(hm_retain P m = m) \<longleftrightarrow> (\<forall>(k, v) \<in> set m. P k v)"
  by (auto simp: hm_retain_def filter_id_conv)

lemma hm_retain_length: "length (hm_retain P m) = length m \<longleftrightarrow> hm_retain P m = m"
  unfolding hm_retain_def by (metis filter_id_conv length_filter_less less_irrefl)

lemma opt_min_le: "opt_min ts = Some d \<longleftrightarrow> d \<in> set ts \<and> (\<forall>t \<in> set ts. d \<le> t)"
  by (cases ts) (auto simp: opt_min_def Min_eq_iff)

lemma opt_min_None: "opt_min ts = None \<longleftrightarrow> ts = []"
  by (cases ts) (auto simp: opt_min_def)

subsection \<open>Properties\<close>

theorem tokens_patch_lookup:
  assumes "hm_ok entries" and "hm_ok patch"
  shows "case tokens_patch entries patch ttl now of (after, changed) \<Rightarrow>
    hm_ok after
    \<and> (\<forall>k. hm_get after k =
        (case hm_get patch k of
           None \<Rightarrow> hm_get entries k
         | Some None \<Rightarrow> None
         | Some (Some v) \<Rightarrow> Some \<lparr>tok_value = v, tok_expires_at = Option.bind ttl (checked_add now)\<rparr>))
    \<and> (changed \<longleftrightarrow> (\<exists>k. hm_get after k \<noteq> hm_get entries k))"
  using assms patch_loop_changed [OF assms(2), of "Option.bind ttl (checked_add now)" entries False]
  by (simp add: tokens_patch_def split_beta patch_loop_ok patch_loop_get)

theorem tokens_expire_progress:
  assumes "hm_ok entries"
  shows "case tokens_expire_at entries now of (after, changed) \<Rightarrow>
    (changed \<longleftrightarrow> (\<exists>d. tokens_next_expiry entries = Some d \<and> d \<le> now))
    \<and> (\<forall>d. tokens_next_expiry after = Some d \<longrightarrow> now < d)
    \<and> (\<forall>k. hm_get after k =
         (case hm_get entries k of
            None \<Rightarrow> None
          | Some token \<Rightarrow> if (case tok_expires_at token of None \<Rightarrow> True | Some d \<Rightarrow> d > now) then Some token else None))"
proof -
  let ?P = "\<lambda>(k :: string) token. case tok_expires_at token of None \<Rightarrow> True | Some d \<Rightarrow> d > now"
  have some: "(\<exists>d. opt_min ts = Some d \<and> d \<le> now) \<longleftrightarrow> (\<exists>t \<in> set ts. t \<le> now)" for ts
    by (cases "opt_min ts") (auto simp: opt_min_le opt_min_None intro: le_trans)
  have "hm_retain ?P entries \<noteq> entries \<longleftrightarrow>
      (\<exists>t \<in> set (List.map_filter (\<lambda>(k, token). tok_expires_at token) entries). t \<le> now)"
    unfolding hm_retain_same
    by (induction entries) (auto simp: List.map_filter_simps split: option.splits)
  then have "length (hm_retain ?P entries) \<noteq> length entries \<longleftrightarrow>
      (\<exists>d. tokens_next_expiry entries = Some d \<and> d \<le> now)"
    by (simp add: hm_retain_length tokens_next_expiry_def some)
  moreover have "now < d" if "tokens_next_expiry (hm_retain ?P entries) = Some d" for d
    using that by (auto simp: tokens_next_expiry_def opt_min_le mem_map_filter hm_retain_def split: option.splits)
  moreover have "hm_get (hm_retain ?P entries) k =
      (case hm_get entries k of None \<Rightarrow> None | Some token \<Rightarrow> if ?P k token then Some token else None)" for k
    by (rule hm.get_keep [OF assms])
  ultimately show ?thesis by (simp add: tokens_expire_at_def Let_def)
qed

theorem accept_sequence_monotone:
  "case accept_sequence sequences src seq of (sequences', result) \<Rightarrow>
    (result = Inr True \<longleftrightarrow> sequence_is_fresh sequences src seq
       \<and> (seq = None \<or> hm_contains sequences src \<or> length sequences < MAX_SEQUENCE_SOURCES))
    \<and> (result \<noteq> Inr True \<longrightarrow> sequences' = sequences)
    \<and> (\<forall>s. seq = Some s \<and> result = Inr True \<longrightarrow>
         hm_get sequences' src = Some s \<and> (\<forall>previous. hm_get sequences src = Some previous \<longrightarrow> previous < s))
    \<and> (\<forall>src'. src' \<noteq> src \<longrightarrow> hm_get sequences' src' = hm_get sequences src')
    \<and> (length sequences \<le> MAX_SEQUENCE_SOURCES \<longrightarrow> length sequences' \<le> MAX_SEQUENCE_SOURCES)"
proof -
  have upd: "length (hm_insert src s sequences) =
      (if hm_contains sequences src then length sequences else Suc (length sequences))" for s
    unfolding hm_insert_def hm_contains_def hm_get_def by (induction sequences) auto
  show ?thesis
    by (cases seq) (auto simp: accept_sequence_def sequence_is_fresh_def hm.get_put upd hm_contains_def
        split: option.splits)
qed


subsection \<open>Witnesses\<close>

definition demo_tokens :: metadata_tokens where
  "demo_tokens = [(''a'', \<lparr>tok_value = ''x'', tok_expires_at = Some 5\<rparr>), (''b'', \<lparr>tok_value = ''y'', tok_expires_at = None\<rparr>)]"

lemma demo_tokens_ok: "hm_ok demo_tokens"
  by (simp add: hm_ok_def demo_tokens_def)

theorem tokens_patch_lookup_witness:
  "hm_get (fst (tokens_patch demo_tokens [(''a'', None), (''c'', Some ''z'')] (Some 3) 4)) ''c'' =
   Some \<lparr>tok_value = ''z'', tok_expires_at = Some 7\<rparr>"
  using tokens_patch_lookup [OF demo_tokens_ok, of "[(''a'', None), (''c'', Some ''z'')]" "Some 3" 4]
  by (simp add: hm_ok_def hm_get_def checked_add_def instant_max_def split_beta)

theorem tokens_expire_progress_witness:
  "snd (tokens_expire_at demo_tokens 5) \<and> hm_get (fst (tokens_expire_at demo_tokens 5)) ''a'' = None"
  using tokens_expire_progress [OF demo_tokens_ok, of 5]
  by (simp add: split_beta demo_tokens_def tokens_next_expiry_def opt_min_def List.map_filter_simps hm_get_def)

theorem accept_sequence_monotone_witness:
  "hm_get (fst (accept_sequence [(''s'', 3)] ''s'' (Some 4))) ''s'' = Some 4"
  using accept_sequence_monotone [of "[(''s'', 3)]" "''s''" "Some 4"]
  by (simp add: split_beta sequence_is_fresh_def hm_get_def hm_contains_def)

end
