(* ===== verification/Terminal_Data.thy ===== *)
theory Terminal_Data
  imports Agent_Resume Metadata_Tokens "HOL-Library.Option_ord"
begin

text \<open>
  The state of a server-owned terminal (\<^verbatim>\<open>runtime/src/terminal/state.rs\<close>): its data, the readings of
  it (effective agent, effective state, presentation) and the small updates the operations share.
  The readings of metadata are from \<^verbatim>\<open>runtime/src/terminal/metadata.rs\<close>.

  A \<open>HashMap\<close> is a table in iteration order and \<open>hm_eq\<close> its equality; \<open>Instant::now()\<close> is an argument
  of the operations that read the clock; \<open>lower\<close> is \<open>str::to_lowercase\<close>.  The type parameter stands for
  the terminal's query context, which no operation here reads.
\<close>

named_theorems terminal_simps \<open>equations of the terminal readings\<close>

subsection \<open>Data\<close>

record hook_authority =
  ha_source :: string
  ha_agent_label :: string
  ha_state :: agent_state
  ha_message :: "string option"
  ha_reported_at :: instant
  ha_session_ref :: "agent_session_ref option"

record handoff_agent =
  ho_authority :: hook_authority
  ho_sequence :: "u64 option"
  ho_acquisition_pending :: bool

record pending_full_lifecycle_hook_report =
  pend_authority :: hook_authority
  pend_seq :: u64

datatype suppression_reason = HookClear | ProcessExit

record suppressed_full_lifecycle_hook_report =
  sup_agent_label :: string
  sup_session_ref :: "agent_session_ref option"
  sup_observed_at :: instant
  sup_reason :: suppression_reason
  sup_replacement_session_ref :: "agent_session_ref option"
  sup_pending_replacement_report :: "pending_full_lifecycle_hook_report option"

datatype hook_report_route = Accept bool | Ignore

record stale_full_lifecycle_hook_session =
  stale_agent_label :: string
  stale_session_ref :: agent_session_ref

datatype managed_agent_phase =
    MPending "instant option" instant bool
  | MBlocked
  | MActive

record managed_agent =
  managed_kind :: agent
  managed_phase :: managed_agent_phase

record agent_metadata =
  md_source :: string
  md_agent_label :: "string option"
  md_applies_to_source :: "string option"
  md_title :: "string option"
  md_display_agent :: "string option"
  md_state_labels :: "(string, string) hmap"
  md_reported_at :: instant
  md_title_reported_at :: "instant option"
  md_display_agent_reported_at :: "instant option"
  md_state_label_reported_at :: "(string, instant) hmap"
  md_ttl :: "duration option"
  md_expiry_event_pending :: bool

record effective_presentation =
  pr_title :: "string option"
  pr_display_agent :: "string option"
  pr_state_labels :: "(string, string) hmap"

record effective_state_change =
  previous_agent_label :: "string option"
  previous_known_agent :: "agent option"
  previous_state :: agent_state
  previous_presentation :: effective_presentation
  new_agent_label :: "string option"
  new_known_agent :: "agent option"
  new_state :: agent_state
  new_presentation :: effective_presentation

record terminal_title_change =
  raw_changed :: bool
  stripped_changed :: bool

record terminal_state_mutation =
  mut_effective_state_change :: "effective_state_change option"
  mut_session_ref_changed :: bool
  mut_agent_released :: bool

record agent_name_owner =
  owner_agent_label :: string
  owner_session_ref :: "agent_session_ref option"

record recent_agent_process_exit =
  exit_agent :: agent
  exit_observed_at :: instant

record 'q terminal_state =
  terminal_id :: string
  cwd :: string
  detected_agent :: "agent option"
  fallback_state :: agent_state
  fallback_visible_blocker :: bool
  fallback_observed_at :: "instant option"
  hook_authority :: "hook_authority option"
  agent_metadata :: "(string, agent_metadata) hmap"
  metadata_tokens :: metadata_tokens
  persisted_agent_session :: "persisted_agent_session option"
  reported_resume :: "reported_agent_resume option"
  reported_resume_revision :: u64
  terminal_title :: "string option"
  manual_label :: "string option"
  agent_name :: "string option"
  agent_name_is_user_set :: bool
  agent_name_owner :: "agent_name_owner option"
  managed_agent :: "managed_agent option"
  codex_prompt_ready :: bool
  managed_agent_launch_session :: "persisted_agent_session option"
  hook_report_sequences :: "(string, u64) hmap"
  suppressed_full_lifecycle_hook_reports :: "(string, suppressed_full_lifecycle_hook_report) hmap"
  stale_full_lifecycle_hook_sessions :: "(string, stale_full_lifecycle_hook_session list) hmap"
  metadata_report_sequences :: "(string, u64) hmap"
  metadata_report_agents :: "(string, agent) hmap"
  metadata_token_sequence_sources :: "string list"
  state :: agent_state
  last_agent_state_change_seq :: "u64 option"
  last_agent_completion_seq :: "u64 option"
  revision :: u64
  launch_argv :: "string list option"
  respawn_shell_on_exit :: bool
  recent_agent_process_exit :: "recent_agent_process_exit option"
  agent_process_acquisition_pending :: bool
  pending_agent_resume_plan :: "agent_resume_plan option"
  query_context :: "'q option"
  pending_resume_wait_deadline :: "instant option"
  pending_resume_wait_for_owner :: bool
  restore_error :: "string option"

definition terminal_state_new :: "string \<Rightarrow> string \<Rightarrow> 'q terminal_state" where
  "terminal_state_new tid dir =
     \<lparr>terminal_id = tid, cwd = dir, detected_agent = None, fallback_state = Unknown,
      fallback_visible_blocker = False, fallback_observed_at = None, hook_authority = None,
      agent_metadata = [], metadata_tokens = [], persisted_agent_session = None,
      reported_resume = None, reported_resume_revision = 0, terminal_title = None,
      manual_label = None, agent_name = None, agent_name_is_user_set = False,
      agent_name_owner = None, managed_agent = None, codex_prompt_ready = False,
      managed_agent_launch_session = None, hook_report_sequences = [],
      suppressed_full_lifecycle_hook_reports = [], stale_full_lifecycle_hook_sessions = [],
      metadata_report_sequences = [], metadata_report_agents = [],
      metadata_token_sequence_sources = [], state = Unknown, last_agent_state_change_seq = None,
      last_agent_completion_seq = None, revision = 0, launch_argv = None,
      respawn_shell_on_exit = False, recent_agent_process_exit = None,
      agent_process_acquisition_pending = False, pending_agent_resume_plan = None,
      query_context = None, pending_resume_wait_deadline = None,
      pending_resume_wait_for_owner = False, restore_error = None\<rparr>"

subsection \<open>Option and table idioms\<close>

text \<open>\<open>Option::or_else\<close>, \<open>Option::filter\<close>, \<open>is_some_and\<close>, \<open>is_none_or\<close>, \<open>max_by_key\<close> (the last maximum wins).\<close>

definition or_else :: "'a option \<Rightarrow> 'a option \<Rightarrow> 'a option" where
  "or_else a b = (case a of Some x \<Rightarrow> Some x | None \<Rightarrow> b)"

definition opt_filter :: "('a \<Rightarrow> bool) \<Rightarrow> 'a option \<Rightarrow> 'a option" where
  "opt_filter P a = (case a of Some x \<Rightarrow> if P x then Some x else None | None \<Rightarrow> None)"

definition is_some_and :: "'a option \<Rightarrow> ('a \<Rightarrow> bool) \<Rightarrow> bool" where
  "is_some_and a P = (case a of Some x \<Rightarrow> P x | None \<Rightarrow> False)"

definition is_none_or :: "'a option \<Rightarrow> ('a \<Rightarrow> bool) \<Rightarrow> bool" where
  "is_none_or a P = (case a of Some x \<Rightarrow> P x | None \<Rightarrow> True)"

fun max_by_key :: "('a \<Rightarrow> 'k::linorder) \<Rightarrow> 'a list \<Rightarrow> 'a option" where
  "max_by_key k [] = None"
| "max_by_key k (x # xs) =
     (case max_by_key k xs of None \<Rightarrow> Some x | Some y \<Rightarrow> if k y < k x then Some x else Some y)"

definition hm_eq :: "('k, 'v) hmap \<Rightarrow> ('k, 'v) hmap \<Rightarrow> bool" where
  "hm_eq m n \<longleftrightarrow> list_all (\<lambda>k. hm_get m k = hm_get n k) (hm_keys m @ hm_keys n)"

definition hm_of_list :: "('k \<times> 'v) list \<Rightarrow> ('k, 'v) hmap" where
  "hm_of_list kvs = foldl (\<lambda>m (k, v). hm_insert k v m) [] kvs"

lemmas option_idioms = or_else_def opt_filter_def is_some_and_def is_none_or_def

lemma is_some_and_simps [simp]:
  "is_some_and None P = False" "is_some_and (Some x) P = P x"
  by (simp_all add: is_some_and_def)

lemma is_none_or_simps [simp]:
  "is_none_or None P = True" "is_none_or (Some x) P = P x"
  by (simp_all add: is_none_or_def)

lemma or_else_simps [simp]:
  "or_else None b = b" "or_else (Some x) b = Some x"
  by (simp_all add: or_else_def)

lemma opt_filter_simps [simp]:
  "opt_filter P None = None" "opt_filter P (Some x) = (if P x then Some x else None)"
  by (simp_all add: opt_filter_def)

lemma hm_eq_refl [simp]: "hm_eq m m"
  by (simp add: hm_eq_def list_all_iff)

lemma hm_eq_get: "hm_eq m n \<longleftrightarrow> (\<forall>k. hm_get m k = hm_get n k)"
proof -
  have "hm_get m k = None" if "k \<notin> set (hm_keys m)" for m :: "('a, 'b) hmap" and k
    using that by (auto simp: hm_get_def hm_keys_def map_of_eq_None_iff)
  then show ?thesis unfolding hm_eq_def list_all_iff by (metis Un_iff set_append)
qed

subsection \<open>Effective agent and authority\<close>

definition hook_authority_is_effective ::
    "(string \<Rightarrow> string) \<Rightarrow> 'q terminal_state \<Rightarrow> hook_authority \<Rightarrow> bool" where
  "hook_authority_is_effective lower t authority \<longleftrightarrow>
     \<not> full_lifecycle_hook_authority (ha_source authority) (ha_agent_label authority)
     \<or> is_none_or (parse_agent_label lower (ha_agent_label authority))
         (\<lambda>agnt. detected_agent t = Some agnt \<and> recent_agent_process_exit t = None)"

definition effective_agent_label :: "(string \<Rightarrow> string) \<Rightarrow> 'q terminal_state \<Rightarrow> string option" where
  "effective_agent_label lower t =
     or_else
       (map_option ha_agent_label (opt_filter (hook_authority_is_effective lower t) (hook_authority t)))
       (if recent_agent_process_exit t = None then map_option agent_label (detected_agent t) else None)"

definition effective_known_agent :: "(string \<Rightarrow> string) \<Rightarrow> 'q terminal_state \<Rightarrow> agent option" where
  "effective_known_agent lower t = Option.bind (effective_agent_label lower t) (parse_agent_label lower)"

definition live_full_lifecycle_hook_authority :: "(string \<Rightarrow> string) \<Rightarrow> 'q terminal_state \<Rightarrow> bool" where
  "live_full_lifecycle_hook_authority lower t =
     is_some_and (hook_authority t) (\<lambda>authority.
       hook_authority_is_effective lower t authority
       \<and> full_lifecycle_hook_authority (ha_source authority) (ha_agent_label authority))"

definition full_lifecycle_hook_authority_active :: "(string \<Rightarrow> string) \<Rightarrow> 'q terminal_state \<Rightarrow> bool" where
  "full_lifecycle_hook_authority_active lower t = live_full_lifecycle_hook_authority lower t"

definition fallback_not_older_than_hook :: "'q terminal_state \<Rightarrow> bool" where
  "fallback_not_older_than_hook t =
     is_none_or (hook_authority t) (\<lambda>authority.
       is_some_and (fallback_observed_at t) (\<lambda>observed_at. ha_reported_at authority \<le> observed_at))"

definition visible_blocker_overrides_hook :: "(string \<Rightarrow> string) \<Rightarrow> 'q terminal_state \<Rightarrow> bool" where
  "visible_blocker_overrides_hook lower t =
     (if live_full_lifecycle_hook_authority lower t then False
      else fallback_visible_blocker t
        \<and> fallback_not_older_than_hook t
        \<and> is_some_and (hook_authority t) (\<lambda>authority.
            ha_state authority \<noteq> Blocked
            \<and> parse_agent_label lower (ha_agent_label authority) = detected_agent t))"

definition hook_authority_not_newer_than :: "'q terminal_state \<Rightarrow> instant \<Rightarrow> bool" where
  "hook_authority_not_newer_than t observed_at =
     is_none_or (hook_authority t) (\<lambda>authority. ha_reported_at authority \<le> observed_at)"

definition hook_authority_conflicts_with_detected_agent ::
    "(string \<Rightarrow> string) \<Rightarrow> 'q terminal_state \<Rightarrow> agent option \<Rightarrow> bool" where
  "hook_authority_conflicts_with_detected_agent lower t detected =
     (case detected of
        None \<Rightarrow> False
      | Some d \<Rightarrow> is_some_and (hook_authority t) (\<lambda>authority.
          is_some_and (parse_agent_label lower (ha_agent_label authority)) (\<lambda>hook_agent. hook_agent \<noteq> d)))"

definition should_ignore_detected_state_under_full_lifecycle_hook ::
    "(string \<Rightarrow> string) \<Rightarrow> 'q terminal_state \<Rightarrow> agent option \<Rightarrow> bool \<Rightarrow> bool" where
  "should_ignore_detected_state_under_full_lifecycle_hook lower t detected process_exited \<longleftrightarrow>
     live_full_lifecycle_hook_authority lower t
     \<and> \<not> process_exited
     \<and> \<not> hook_authority_conflicts_with_detected_agent lower t detected"

definition persisted_agent_session_matches :: "'q terminal_state \<Rightarrow> string \<Rightarrow> string \<Rightarrow> bool" where
  "persisted_agent_session_matches t src agnt =
     is_some_and (persisted_agent_session t) (\<lambda>s. ps_source s = src \<and> ps_agent s = agnt)"

definition self_reported_agent_active :: "(string \<Rightarrow> string) \<Rightarrow> 'q terminal_state \<Rightarrow> bool" where
  "self_reported_agent_active lower t =
     is_some_and (hook_authority t) (\<lambda>authority. parse_agent_label lower (ha_agent_label authority) = None)"

definition is_agent_terminal :: "(string \<Rightarrow> string) \<Rightarrow> 'q terminal_state \<Rightarrow> bool" where
  "is_agent_terminal lower t \<longleftrightarrow> agent_name t \<noteq> None \<or> effective_agent_label lower t \<noteq> None"

subsection \<open>Metadata readings\<close>

definition agent_metadata_expiry :: "agent_metadata \<Rightarrow> instant option" where
  "agent_metadata_expiry md =
     map_option (\<lambda>ttl. case checked_add (md_reported_at md) ttl of Some d \<Rightarrow> d | None \<Rightarrow> md_reported_at md) (md_ttl md)"

definition agent_metadata_is_expired :: "agent_metadata \<Rightarrow> instant \<Rightarrow> bool" where
  "agent_metadata_is_expired md now = is_some_and (agent_metadata_expiry md) (\<lambda>d. now \<ge> d)"

definition metadata_guards_match ::
    "(string \<Rightarrow> string) \<Rightarrow> 'q terminal_state \<Rightarrow> string option \<Rightarrow> string option \<Rightarrow> bool" where
  "metadata_guards_match lower t label applies_to_source =
     (if is_some_and label (\<lambda>agnt. effective_agent_label lower t \<noteq> Some agnt) then False
      else \<not> is_some_and applies_to_source (\<lambda>src.
        is_none_or (hook_authority t) (\<lambda>authority. ha_source authority \<noteq> src)))"

definition agent_metadata_matches_guards :: "(string \<Rightarrow> string) \<Rightarrow> 'q terminal_state \<Rightarrow> agent_metadata \<Rightarrow> bool" where
  "agent_metadata_matches_guards lower t md =
     metadata_guards_match lower t (md_agent_label md) (md_applies_to_source md)"

definition agent_metadata_is_valid ::
    "(string \<Rightarrow> string) \<Rightarrow> 'q terminal_state \<Rightarrow> agent_metadata \<Rightarrow> instant \<Rightarrow> bool \<Rightarrow> bool" where
  "agent_metadata_is_valid lower t md now enforce_ttl =
     (if md_title md = None \<and> md_display_agent md = None \<and> md_state_labels md = [] then False
      else if enforce_ttl \<and> agent_metadata_is_expired md now then False
      else agent_metadata_matches_guards lower t md)"

definition agent_metadata_is_visible_ignoring_ttl :: "(string \<Rightarrow> string) \<Rightarrow> 'q terminal_state \<Rightarrow> agent_metadata \<Rightarrow> bool" where
  "agent_metadata_is_visible_ignoring_ttl lower t md \<longleftrightarrow>
     (md_title md \<noteq> None \<or> md_display_agent md \<noteq> None \<or> md_state_labels md \<noteq> [])
     \<and> agent_metadata_matches_guards lower t md"

definition valid_agent_metadata ::
    "(string \<Rightarrow> string) \<Rightarrow> 'q terminal_state \<Rightarrow> instant \<Rightarrow> bool \<Rightarrow> agent_metadata list" where
  "valid_agent_metadata lower t now enforce_ttl =
     filter (\<lambda>md. agent_metadata_is_valid lower t md now enforce_ttl) (map snd (agent_metadata t))"

definition newest_metadata_title ::
    "(string \<Rightarrow> string) \<Rightarrow> 'q terminal_state \<Rightarrow> instant \<Rightarrow> bool \<Rightarrow> string option" where
  "newest_metadata_title lower t now enforce_ttl =
     Option.bind
       (max_by_key md_title_reported_at
         (filter (\<lambda>md. md_title md \<noteq> None) (valid_agent_metadata lower t now enforce_ttl)))
       md_title"

definition newest_metadata_display_agent ::
    "(string \<Rightarrow> string) \<Rightarrow> 'q terminal_state \<Rightarrow> instant \<Rightarrow> bool \<Rightarrow> string option" where
  "newest_metadata_display_agent lower t now enforce_ttl =
     Option.bind
       (max_by_key md_display_agent_reported_at
         (filter (\<lambda>md. md_display_agent md \<noteq> None) (valid_agent_metadata lower t now enforce_ttl)))
       md_display_agent"

definition effective_metadata_state_labels ::
    "(string \<Rightarrow> string) \<Rightarrow> 'q terminal_state \<Rightarrow> instant \<Rightarrow> bool \<Rightarrow> (string, string) hmap" where
  "effective_metadata_state_labels lower t now enforce_ttl =
     (let labels = concat (map (\<lambda>md.
            List.map_filter (\<lambda>(st, label).
              map_option (\<lambda>reported_at. (reported_at, st, label)) (hm_get (md_state_label_reported_at md) st))
              (md_state_labels md))
            (valid_agent_metadata lower t now enforce_ttl))
      in hm_of_list (map snd (sort_key fst labels)))"

definition effective_presentation_with_ttl ::
    "(string \<Rightarrow> string) \<Rightarrow> 'q terminal_state \<Rightarrow> instant \<Rightarrow> bool \<Rightarrow> effective_presentation" where
  "effective_presentation_with_ttl lower t now enforce_ttl =
     \<lparr>pr_title = newest_metadata_title lower t now enforce_ttl,
      pr_display_agent = newest_metadata_display_agent lower t now enforce_ttl,
      pr_state_labels = effective_metadata_state_labels lower t now enforce_ttl\<rparr>"

definition effective_presentation_at ::
    "(string \<Rightarrow> string) \<Rightarrow> 'q terminal_state \<Rightarrow> instant \<Rightarrow> effective_presentation" where
  "effective_presentation_at lower t now = effective_presentation_with_ttl lower t now True"

definition presentation_eq :: "effective_presentation \<Rightarrow> effective_presentation \<Rightarrow> bool" where
  "presentation_eq p q \<longleftrightarrow>
     pr_title p = pr_title q \<and> pr_display_agent p = pr_display_agent q \<and> hm_eq (pr_state_labels p) (pr_state_labels q)"

definition border_label :: "(string \<Rightarrow> string) \<Rightarrow> 'q terminal_state \<Rightarrow> bool \<Rightarrow> instant \<Rightarrow> instant \<Rightarrow> string option" where
  "border_label lower t show_agent_labels now now' =
     or_else (pr_title (effective_presentation_at lower t now))
       (or_else (manual_label t)
         (if show_agent_labels
          then or_else (pr_display_agent (effective_presentation_at lower t now')) (effective_agent_label lower t)
          else None))"

subsection \<open>Effective state\<close>

definition clear_expiry_pending_for_hidden_metadata :: "(string \<Rightarrow> string) \<Rightarrow> 'q terminal_state \<Rightarrow> 'q terminal_state" where
  "clear_expiry_pending_for_hidden_metadata lower t =
     t\<lparr>agent_metadata := map (\<lambda>(src, md).
         (src, if md_expiry_event_pending md \<and> \<not> agent_metadata_is_visible_ignoring_ttl lower t md
               then md\<lparr>md_expiry_event_pending := False\<rparr> else md)) (agent_metadata t)\<rparr>"

definition effective_state :: "(string \<Rightarrow> string) \<Rightarrow> 'q terminal_state \<Rightarrow> agent_state" where
  "effective_state lower t =
     (if visible_blocker_overrides_hook lower t then Blocked
      else (case opt_filter (hook_authority_is_effective lower t) (hook_authority t) of
              Some authority \<Rightarrow> ha_state authority
            | None \<Rightarrow> fallback_state t))"

definition recompute_effective_state ::
    "(string \<Rightarrow> string) \<Rightarrow> 'q terminal_state \<Rightarrow> string option \<Rightarrow> agent option \<Rightarrow> agent_state \<Rightarrow>
     effective_presentation \<Rightarrow> instant \<Rightarrow> 'q terminal_state \<times> effective_state_change option" where
  "recompute_effective_state lower t prev_label prev_known prev_state prev_presentation now =
     (let st = effective_state lower t;
          label = effective_agent_label lower t;
          known = effective_known_agent lower t;
          presentation = effective_presentation_at lower t now;
          t' = clear_expiry_pending_for_hidden_metadata lower t
      in if prev_label = label \<and> prev_state = st \<and> presentation_eq prev_presentation presentation
         then (t', None)
         else (t'\<lparr>state := st\<rparr>,
           Some \<lparr>previous_agent_label = prev_label, previous_known_agent = prev_known,
             previous_state = prev_state, previous_presentation = prev_presentation,
             new_agent_label = label, new_known_agent = known, new_state = st,
             new_presentation = presentation\<rparr>))"

definition unchanged_effective_state_change_at ::
    "(string \<Rightarrow> string) \<Rightarrow> 'q terminal_state \<Rightarrow> instant \<Rightarrow> effective_state_change" where
  "unchanged_effective_state_change_at lower t now =
     (let label = effective_agent_label lower t;
          known = effective_known_agent lower t;
          presentation = effective_presentation_at lower t now
      in \<lparr>previous_agent_label = label, previous_known_agent = known, previous_state = state t,
          previous_presentation = presentation, new_agent_label = label, new_known_agent = known,
          new_state = state t, new_presentation = presentation\<rparr>)"

text \<open>
  Every operation takes these readings before its update and recomputes after it: \<open>recompute_from prev now t\<close>
  recomputes \<open>t\<close> against the readings taken of \<open>prev\<close>.
\<close>

definition recompute_from ::
    "(string \<Rightarrow> string) \<Rightarrow> 'q terminal_state \<Rightarrow> instant \<Rightarrow> 'q terminal_state \<Rightarrow>
     'q terminal_state \<times> effective_state_change option" where
  "recompute_from lower prev now t =
     recompute_effective_state lower t (effective_agent_label lower prev) (effective_known_agent lower prev)
       (state prev) (effective_presentation_at lower prev now) now"

subsection \<open>Names, sessions and resume commands\<close>

definition clear_agent_name :: "'q terminal_state \<Rightarrow> 'q terminal_state" where
  "clear_agent_name t =
     t\<lparr>codex_prompt_ready := False,
       managed_agent_launch_session := None,
       persisted_agent_session :=
         (if is_some_and (managed_agent_launch_session t) (\<lambda>s. persisted_agent_session t = Some s)
          then None else persisted_agent_session t),
       agent_name := None,
       agent_name_is_user_set := False,
       agent_name_owner := None,
       managed_agent := None\<rparr>"

definition reconcile_agent_name_owner ::
    "(string \<Rightarrow> string) \<Rightarrow> 'q terminal_state \<Rightarrow> string \<Rightarrow> agent_session_ref option \<Rightarrow> 'q terminal_state" where
  "reconcile_agent_name_owner lower t label session_ref =
     (if agent_name t = None then t
      else if is_some_and (managed_agent t) (\<lambda>m. parse_agent_label lower label = Some (managed_kind m)) then t
      else
        (case agent_name_owner t of
           Some owner \<Rightarrow>
             if owner_agent_label owner \<noteq> label
               \<or> (case (owner_session_ref owner, session_ref) of
                    (Some current, Some incoming) \<Rightarrow> current \<noteq> incoming
                  | _ \<Rightarrow> False)
             then t\<lparr>agent_name := None, agent_name_owner := None\<rparr>
             else if owner_session_ref owner = None \<and> session_ref \<noteq> None
             then t\<lparr>agent_name_owner := Some (owner\<lparr>owner_session_ref := session_ref\<rparr>)\<rparr>
             else t
         | None \<Rightarrow>
             t\<lparr>agent_name_owner := Some \<lparr>owner_agent_label = label, owner_session_ref = session_ref\<rparr>\<rparr>))"

definition set_reported_resume :: "'q terminal_state \<Rightarrow> reported_agent_resume option \<Rightarrow> 'q terminal_state" where
  "set_reported_resume t resume =
     (if reported_resume t \<noteq> resume
      then t\<lparr>reported_resume := resume, reported_resume_revision := reported_resume_revision t + 1\<rparr>
      else t)"

definition forget_reported_resume_of :: "'q terminal_state \<Rightarrow> string \<Rightarrow> string \<Rightarrow> 'q terminal_state" where
  "forget_reported_resume_of t src label =
     (if is_some_and (reported_resume t) (\<lambda>r. rr_source r = src \<and> rr_agent r = label)
      then set_reported_resume t None else t)"

definition current_session_identity_for_persistence ::
    "'q terminal_state \<Rightarrow> (string \<times> string \<times> agent_session_ref_kind \<times> string) option" where
  "current_session_identity_for_persistence t =
     or_else
       (Option.bind (hook_authority t) (\<lambda>authority.
          map_option (\<lambda>r. (ha_source authority, ha_agent_label authority, ref_kind r, ref_value r))
            (ha_session_ref authority)))
       (map_option (\<lambda>s. (ps_source s, ps_agent s, ref_kind (ps_session_ref s), ref_value (ps_session_ref s)))
          (persisted_agent_session t))"

definition session_ref_is_current :: "'q terminal_state \<Rightarrow> agent_session_ref \<Rightarrow> bool" where
  "session_ref_is_current t r =
     is_some_and (current_session_identity_for_persistence t)
       (\<lambda>(_, _, knd, v). knd = ref_kind r \<and> v = ref_value r)"

definition current_session_owner_conflicts :: "'q terminal_state \<Rightarrow> string \<Rightarrow> string \<Rightarrow> bool" where
  "current_session_owner_conflicts t src label =
     is_some_and (current_session_identity_for_persistence t)
       (\<lambda>(current_source, current_agent, _, _). current_source \<noteq> src \<or> current_agent \<noteq> label)"

definition session_report_allows_session_replacement :: "string \<Rightarrow> string \<Rightarrow> string option \<Rightarrow> bool" where
  "session_report_allows_session_replacement src label start =
     (src \<in> set [''herdr:claude'', ''herden:claude''] \<and> label = ''claude''
        \<and> start \<in> set [Some ''clear'', Some ''resume'', Some ''compact'']
      \<or> src \<in> set [''herdr:codex'', ''herden:codex''] \<and> label = ''codex''
        \<and> start \<in> set [Some ''startup'', Some ''clear'', Some ''resume'', Some ''compact'']
      \<or> src \<in> set [''herdr:mastracode'', ''herden:mastracode''] \<and> label = ''mastracode'' \<and> start = Some ''startup''
      \<or> src \<in> set [''herdr:hermes'', ''herden:hermes''] \<and> label = ''hermes''
        \<and> start \<in> set [Some ''startup'', Some ''new'', Some ''resume'']
      \<or> src \<in> set [''herdr:opencode'', ''herden:opencode''] \<and> label = ''opencode'' \<and> start = Some ''select''
      \<or> src \<in> set [''herdr:pi'', ''herden:pi''] \<and> label = ''pi''
        \<and> start \<in> set [Some ''new'', Some ''resume'', Some ''fork'']
      \<or> src \<in> set [''herdr:grok'', ''herden:grok''] \<and> label = ''grok'' \<and> start = Some ''new''
      \<or> src \<in> set [''herdr:omp'', ''herden:omp''] \<and> label = ''omp''
        \<and> start \<in> set [Some ''startup'', Some ''new'', Some ''resume'', Some ''fork'']
      \<or> src \<in> set [''herdr:qwen'', ''herden:qwen''] \<and> label = ''qwen''
        \<and> start \<in> set [Some ''startup'', Some ''clear'', Some ''resume'', Some ''compact'', Some ''branch'']
      \<or> src \<in> set [''herdr:antigravity_cli'', ''herden:antigravity_cli''] \<and> label = ''agy'' \<and> start = None)"

definition session_start_source_is_recognized :: "string option \<Rightarrow> bool" where
  "session_start_source_is_recognized start \<longleftrightarrow>
     start \<in> set [Some ''startup'', Some ''clear'', Some ''resume'', Some ''compact'', Some ''new'',
       Some ''fork'', Some ''select'']"

definition is_unsequenced_opencode_selection :: "string \<Rightarrow> string \<Rightarrow> string option \<Rightarrow> u64 option \<Rightarrow> bool" where
  "is_unsequenced_opencode_selection src label start seq \<longleftrightarrow>
     src \<in> set [''herdr:opencode'', ''herden:opencode''] \<and> label = ''opencode''
     \<and> start = Some ''select'' \<and> seq = None"

definition conflicting_same_owner_session_ref ::
    "'q terminal_state \<Rightarrow> string \<Rightarrow> string \<Rightarrow> agent_session_ref \<Rightarrow> string option \<Rightarrow> agent_session_ref option" where
  "conflicting_same_owner_session_ref t src label r start =
     Option.bind (current_session_identity_for_persistence t)
       (\<lambda>(current_source, current_agent, current_kind, current_value).
          if current_source = src \<and> current_agent = label \<and> current_kind = KindId \<and> ref_kind r = KindId
            \<and> current_value \<noteq> ref_value r
            \<and> \<not> session_report_allows_session_replacement src label start
          then Some \<lparr>ref_kind = current_kind, ref_value = current_value\<rparr> else None)"

definition lifecycle_hook_report_replaces_persisted_session ::
    "'q terminal_state \<Rightarrow> string \<Rightarrow> string \<Rightarrow> agent_session_ref \<Rightarrow> bool" where
  "lifecycle_hook_report_replaces_persisted_session t src label r \<longleftrightarrow>
     hook_authority t = None
     \<and> (src \<in> set [''herdr:mastracode'', ''herden:mastracode''] \<and> label = ''mastracode'')
     \<and> is_some_and (persisted_agent_session t) (\<lambda>s.
         ps_source s = src \<and> ps_agent s = label \<and> ref_kind (ps_session_ref s) = KindId
         \<and> ref_kind r = KindId \<and> ref_value (ps_session_ref s) \<noteq> ref_value r)"

definition known_agent_label_conflicts_with_detected_agent ::
    "(string \<Rightarrow> string) \<Rightarrow> 'q terminal_state \<Rightarrow> string \<Rightarrow> bool" where
  "known_agent_label_conflicts_with_detected_agent lower t label =
     (case detected_agent t of
        None \<Rightarrow> False
      | Some d \<Rightarrow> is_some_and (parse_agent_label lower label) (\<lambda>hook_agent. hook_agent \<noteq> d))"

definition foreground_agent_confirms_session_owner ::
    "(string \<Rightarrow> string) \<Rightarrow> 'q terminal_state \<Rightarrow> string \<Rightarrow> string \<Rightarrow> agent_session_ref \<Rightarrow> bool" where
  "foreground_agent_confirms_session_owner lower t src label r =
     (case detected_agent t of
        None \<Rightarrow> False
      | Some d \<Rightarrow> parse_agent_label lower label = Some d \<and> plan src label r \<noteq> None)"

definition foreground_agent_confirms_different_owner_takeover ::
    "(string \<Rightarrow> string) \<Rightarrow> 'q terminal_state \<Rightarrow> string \<Rightarrow> string \<Rightarrow> agent_session_ref \<Rightarrow> string option \<Rightarrow> bool" where
  "foreground_agent_confirms_different_owner_takeover lower t src label r start \<longleftrightarrow>
     \<not> (src \<in> set [''herdr:grok'', ''herden:grok''] \<and> label = ''grok'')
     \<and> session_start_source_is_recognized start
     \<and> foreground_agent_confirms_session_owner lower t src label r"

definition foreground_agent_confirms_hook_authority_takeover ::
    "(string \<Rightarrow> string) \<Rightarrow> 'q terminal_state \<Rightarrow> string \<Rightarrow> string \<Rightarrow> agent_session_ref option \<Rightarrow> bool" where
  "foreground_agent_confirms_hook_authority_takeover lower t src label r =
     is_some_and r (foreground_agent_confirms_session_owner lower t src label)"

subsection \<open>Report sequences\<close>

definition hook_report_is_newer :: "'q terminal_state \<Rightarrow> string \<Rightarrow> u64 option \<Rightarrow> bool" where
  "hook_report_is_newer t src seq =
     (let last_seq = hm_get (hook_report_sequences t) src
      in case seq of
           Some s \<Rightarrow> is_none_or last_seq (\<lambda>previous. s > previous)
         | None \<Rightarrow> last_seq = None)"

definition accept_hook_report :: "'q terminal_state \<Rightarrow> string \<Rightarrow> u64 option \<Rightarrow> 'q terminal_state \<times> bool" where
  "accept_hook_report t src seq =
     (if \<not> hook_report_is_newer t src seq then (t, False)
      else (case seq of
              Some s \<Rightarrow> (t\<lparr>hook_report_sequences := hm_insert src s (hook_report_sequences t)\<rparr>, True)
            | None \<Rightarrow> (t, True)))"

subsection \<open>Suppressed reports and stale sessions\<close>

definition suppress_full_lifecycle_hook_report_with_session_ref ::
    "'q terminal_state \<Rightarrow> string \<Rightarrow> string \<Rightarrow> agent_session_ref option \<Rightarrow> suppression_reason \<Rightarrow> instant \<Rightarrow> 'q terminal_state" where
  "suppress_full_lifecycle_hook_report_with_session_ref t src label r reason observed_at =
     t\<lparr>suppressed_full_lifecycle_hook_reports :=
       hm_insert src
         \<lparr>sup_agent_label = label, sup_session_ref = r, sup_observed_at = observed_at, sup_reason = reason,
          sup_replacement_session_ref = None, sup_pending_replacement_report = None\<rparr>
         (suppressed_full_lifecycle_hook_reports t)\<rparr>"

definition suppress_current_full_lifecycle_hook_authority ::
    "'q terminal_state \<Rightarrow> suppression_reason \<Rightarrow> instant \<Rightarrow> 'q terminal_state" where
  "suppress_current_full_lifecycle_hook_authority t reason clock =
     (case hook_authority t of
        Some authority \<Rightarrow>
          if full_lifecycle_hook_authority (ha_source authority) (ha_agent_label authority)
          then suppress_full_lifecycle_hook_report_with_session_ref t (ha_source authority)
                 (ha_agent_label authority) (ha_session_ref authority) reason clock
          else t
      | None \<Rightarrow> t)"

definition suppress_full_lifecycle_hook_report ::
    "'q terminal_state \<Rightarrow> string \<Rightarrow> string \<Rightarrow> suppression_reason \<Rightarrow> instant \<Rightarrow> 'q terminal_state" where
  "suppress_full_lifecycle_hook_report t src label reason clock =
     (if full_lifecycle_hook_authority src label
      then suppress_full_lifecycle_hook_report_with_session_ref t src label
             (Option.bind (hook_authority t) ha_session_ref) reason clock
      else t)"

definition remember_stale_full_lifecycle_hook_session ::
    "'q terminal_state \<Rightarrow> string \<Rightarrow> string \<Rightarrow> agent_session_ref \<Rightarrow> 'q terminal_state" where
  "remember_stale_full_lifecycle_hook_session t src label r =
     (let stale = \<lparr>stale_agent_label = label, stale_session_ref = r\<rparr>;
          existing = (case hm_get (stale_full_lifecycle_hook_sessions t) src of Some l \<Rightarrow> l | None \<Rightarrow> [])
      in t\<lparr>stale_full_lifecycle_hook_sessions :=
           hm_insert src (if stale \<in> set existing then existing else existing @ [stale])
             (stale_full_lifecycle_hook_sessions t)\<rparr>)"

definition forget_stale_full_lifecycle_hook_session ::
    "'q terminal_state \<Rightarrow> string \<Rightarrow> string \<Rightarrow> agent_session_ref \<Rightarrow> 'q terminal_state" where
  "forget_stale_full_lifecycle_hook_session t src label r =
     (case hm_get (stale_full_lifecycle_hook_sessions t) src of
        None \<Rightarrow> t
      | Some l \<Rightarrow>
          (let l' = filter (\<lambda>stale. stale_agent_label stale \<noteq> label \<or> stale_session_ref stale \<noteq> r) l
           in t\<lparr>stale_full_lifecycle_hook_sessions :=
                (if l' = [] then hm_remove src (stale_full_lifecycle_hook_sessions t)
                 else hm_insert src l' (stale_full_lifecycle_hook_sessions t))\<rparr>))"

definition full_lifecycle_hook_report_matches_stale_session ::
    "'q terminal_state \<Rightarrow> string \<Rightarrow> string \<Rightarrow> agent_session_ref option \<Rightarrow> bool" where
  "full_lifecycle_hook_report_matches_stale_session t src label r =
     (if \<not> full_lifecycle_hook_authority src label then False
      else is_some_and (hm_get (stale_full_lifecycle_hook_sessions t) src) (\<lambda>l.
        is_some_and r (\<lambda>incoming.
          list_ex (\<lambda>stale. stale_agent_label stale = label \<and> incoming = stale_session_ref stale) l)))"

definition full_lifecycle_hook_report_has_fresh_session_after_stale_session ::
    "'q terminal_state \<Rightarrow> string \<Rightarrow> string \<Rightarrow> agent_session_ref option \<Rightarrow> bool" where
  "full_lifecycle_hook_report_has_fresh_session_after_stale_session t src label r =
     (if \<not> full_lifecycle_hook_authority src label then False
      else is_some_and (hm_get (stale_full_lifecycle_hook_sessions t) src) (\<lambda>l.
        list_ex (\<lambda>stale. stale_agent_label stale = label) l
        \<and> is_some_and r (\<lambda>incoming.
            list_all (\<lambda>stale. stale_agent_label stale \<noteq> label \<or> incoming \<noteq> stale_session_ref stale) l)))"

definition live_full_lifecycle_hook_authority_conflicts_with_session ::
    "'q terminal_state \<Rightarrow> string \<Rightarrow> string \<Rightarrow> agent_session_ref option \<Rightarrow> bool" where
  "live_full_lifecycle_hook_authority_conflicts_with_session t src label r =
     (case hook_authority t of
        None \<Rightarrow> False
      | Some authority \<Rightarrow>
          if \<not> full_lifecycle_hook_authority (ha_source authority) (ha_agent_label authority) then False
          else if ha_source authority \<noteq> src \<or> ha_agent_label authority \<noteq> label then False
          else (case (ha_session_ref authority, r) of
                  (Some current, Some incoming) \<Rightarrow> current \<noteq> incoming
                | _ \<Rightarrow> False))"

definition same_owner_full_lifecycle_hook_authority_session_ref ::
    "'q terminal_state \<Rightarrow> string \<Rightarrow> string \<Rightarrow> agent_session_ref \<Rightarrow> agent_session_ref option" where
  "same_owner_full_lifecycle_hook_authority_session_ref t src label r =
     (case hook_authority t of
        None \<Rightarrow> None
      | Some authority \<Rightarrow>
          if \<not> full_lifecycle_hook_authority (ha_source authority) (ha_agent_label authority)
            \<or> ha_source authority \<noteq> src \<or> ha_agent_label authority \<noteq> label
          then None
          else opt_filter (\<lambda>current. current \<noteq> r) (ha_session_ref authority))"

definition detected_state_observed_before_release_suppression ::
    "(string \<Rightarrow> string) \<Rightarrow> 'q terminal_state \<Rightarrow> agent option \<Rightarrow> instant \<Rightarrow> bool" where
  "detected_state_observed_before_release_suppression lower t detected observed_at =
     (case detected of
        None \<Rightarrow> False
      | Some d \<Rightarrow> list_ex (\<lambda>(_, sup).
          parse_agent_label lower (sup_agent_label sup) = Some d \<and> observed_at \<le> sup_observed_at sup)
          (suppressed_full_lifecycle_hook_reports t))"

end
