(* ===== verification/Terminal_Hooks.thy ===== *)
theory Terminal_Hooks
  imports Terminal_Data
begin

text \<open>
  Hook reports of a terminal (\<^verbatim>\<open>runtime/src/terminal/state.rs\<close>): which reports of an integration
  are accepted, what becomes of reports that arrive out of their session's lifetime, and the
  operations that take, replace, clear and release the hook authority.

  An operation that returns \<open>None\<close> in the source may have changed the state before (a queued pending
  report, an advanced sequence); the model returns the state with the optional mutation.
\<close>

subsection \<open>Suppressions end when the agent is detected\<close>

text \<open>The closure of \<open>retain\<close>: whether the entry stays, the session that became stale, the validated replacement.\<close>

type_synonym validated_replacement =
  "string \<times> string \<times> agent_session_ref \<times> pending_full_lifecycle_hook_report option"

definition clear_suppression_entry ::
    "(string \<Rightarrow> string) \<Rightarrow> (string, u64) hmap \<Rightarrow> agent \<Rightarrow> string \<Rightarrow> suppressed_full_lifecycle_hook_report \<Rightarrow>
     bool \<times> (string \<times> stale_full_lifecycle_hook_session) list \<times> validated_replacement list" where
  "clear_suppression_entry lower sequences detected src sp =
     (if parse_agent_label lower (sup_agent_label sp) \<noteq> Some detected then (True, [], [])
      else if sup_reason sp = ProcessExit
      then (case sup_replacement_session_ref sp of
              Some r \<Rightarrow>
                (let stale = (case opt_filter (\<lambda>exited. exited \<noteq> r) (sup_session_ref sp) of
                       Some exited \<Rightarrow> [(src, \<lparr>stale_agent_label = sup_agent_label sp, stale_session_ref = exited\<rparr>)]
                     | None \<Rightarrow> []);
                     session_start_seq = hm_get sequences src;
                     pending = opt_filter (\<lambda>p. ha_session_ref (pend_authority p) = Some r
                       \<and> is_none_or session_start_seq (\<lambda>s. pend_seq p > s)) (sup_pending_replacement_report sp)
                 in (False, stale, [(src, sup_agent_label sp, r, pending)]))
            | None \<Rightarrow> (True, [], []))
      else (False,
        (case sup_session_ref sp of
           Some r \<Rightarrow> [(src, \<lparr>stale_agent_label = sup_agent_label sp, stale_session_ref = r\<rparr>)]
         | None \<Rightarrow> []), []))"

definition apply_validated_replacement ::
    "(string \<Rightarrow> string) \<Rightarrow> 'q terminal_state \<Rightarrow> validated_replacement \<Rightarrow> 'q terminal_state" where
  "apply_validated_replacement lower t v =
     (case v of (src, label, r, pending) \<Rightarrow>
        (let t1 = forget_stale_full_lifecycle_hook_session t src label r;
             t2 = reconcile_agent_name_owner lower t1 label (Some r);
             t3 = t2\<lparr>persisted_agent_session := Some \<lparr>ps_source = src, ps_agent = label, ps_session_ref = r\<rparr>\<rparr>
         in case pending of
              Some p \<Rightarrow> t3\<lparr>hook_report_sequences := hm_insert src (pend_seq p) (hook_report_sequences t3),
                          hook_authority := Some (pend_authority p)\<rparr>
            | None \<Rightarrow> t3))"

definition remember_stale_sessions ::
    "(string \<times> stale_full_lifecycle_hook_session) list \<Rightarrow> 'q terminal_state \<Rightarrow> 'q terminal_state" where
  "remember_stale_sessions stales t =
     foldl (\<lambda>t (src, s). remember_stale_full_lifecycle_hook_session t src (stale_agent_label s) (stale_session_ref s))
       t stales"

definition clear_full_lifecycle_hook_suppression_for_detected_agent ::
    "(string \<Rightarrow> string) \<Rightarrow> 'q terminal_state \<Rightarrow> agent option \<Rightarrow> agent option \<Rightarrow> 'q terminal_state" where
  "clear_full_lifecycle_hook_suppression_for_detected_agent lower t previous_detected detected =
     (case detected of
        None \<Rightarrow> t
      | Some d \<Rightarrow>
          if previous_detected = Some d then t
          else
            (let entry = clear_suppression_entry lower (hook_report_sequences t) d;
                 sups = suppressed_full_lifecycle_hook_reports t;
                 stales = concat (map (\<lambda>(src, sp). fst (snd (entry src sp))) sups);
                 validated = concat (map (\<lambda>(src, sp). snd (snd (entry src sp))) sups);
                 t1 = t\<lparr>suppressed_full_lifecycle_hook_reports := hm_retain (\<lambda>src sp. fst (entry src sp)) sups\<rparr>;
                 t2 = remember_stale_sessions stales t1;
                 t3 = t2\<lparr>hook_report_sequences :=
                   hm_retain (\<lambda>src _. list_ex (\<lambda>(validated_source, _). validated_source = src) validated
                     \<or> \<not> full_lifecycle_hook_authority src (agent_label d)) (hook_report_sequences t2)\<rparr>
             in foldl (apply_validated_replacement lower) t3 validated))"

subsection \<open>Routing of full-lifecycle reports\<close>

text \<open>\<open>process_present\<close>: the labelled agent is known, detected, and no exit was recorded since.\<close>

definition process_present ::
    "(string \<Rightarrow> string) \<Rightarrow> 'q terminal_state \<Rightarrow> string \<Rightarrow> bool" where
  "process_present lower t label \<longleftrightarrow>
     parse_agent_label lower label \<noteq> None \<and> detected_agent t = parse_agent_label lower label
     \<and> recent_agent_process_exit t = None"

definition queue_pending_report ::
    "'q terminal_state \<Rightarrow> string \<Rightarrow> string \<Rightarrow> agent_state \<Rightarrow> string option \<Rightarrow> agent_session_ref \<Rightarrow> u64 \<Rightarrow> instant \<Rightarrow>
     'q terminal_state" where
  "queue_pending_report t src label st msg r seq reported_at =
     (let previous_session_ref = map_option ps_session_ref
            (opt_filter (\<lambda>s. ps_source s = src \<and> ps_agent s = label) (persisted_agent_session t));
          sp = (case hm_get (suppressed_full_lifecycle_hook_reports t) src of
            Some sp \<Rightarrow> sp
          | None \<Rightarrow> \<lparr>sup_agent_label = label, sup_session_ref = previous_session_ref,
              sup_observed_at = reported_at, sup_reason = ProcessExit,
              sup_replacement_session_ref = None, sup_pending_replacement_report = None\<rparr>);
          sp' = (if is_none_or (sup_pending_replacement_report sp) (\<lambda>pending. seq > pend_seq pending)
            then sp\<lparr>sup_pending_replacement_report := Some
              \<lparr>pend_authority = \<lparr>ha_source = src, ha_agent_label = label, ha_state = st, ha_message = msg,
                 ha_reported_at = reported_at, ha_session_ref = Some r\<rparr>,
               pend_seq = seq\<rparr>\<rparr>
            else sp)
      in t\<lparr>suppressed_full_lifecycle_hook_reports :=
           hm_insert src sp' (suppressed_full_lifecycle_hook_reports t)\<rparr>)"

definition route_full_lifecycle_hook_report ::
    "(string \<Rightarrow> string) \<Rightarrow> 'q terminal_state \<Rightarrow> string \<Rightarrow> string \<Rightarrow> agent_state \<Rightarrow> string option \<Rightarrow>
     agent_session_ref option \<Rightarrow> u64 option \<Rightarrow> instant \<Rightarrow> 'q terminal_state \<times> hook_report_route" where
  "route_full_lifecycle_hook_report lower t src label st msg session_ref seq reported_at =
     (if \<not> full_lifecycle_hook_authority src label then (t, Accept False)
      else if full_lifecycle_hook_report_matches_stale_session t src label session_ref then (t, Ignore)
      else
        (let present = process_present lower t label;
             anchored_session_ref = or_else
               (Option.bind
                 (opt_filter (\<lambda>a. ha_source a = src \<and> ha_agent_label a = label) (hook_authority t)) ha_session_ref)
               (map_option ps_session_ref
                 (opt_filter (\<lambda>s. ps_source s = src \<and> ps_agent s = label) (persisted_agent_session t)));
             session_anchored = is_some_and anchored_session_ref (\<lambda>anchored.
               is_none_or session_ref (\<lambda>incoming. incoming = anchored));
             opencode_cross_talk = (src \<in> set [''herdr:opencode'', ''herden:opencode''] \<and> label = ''opencode''
               \<and> present
               \<and> (case (anchored_session_ref, session_ref) of
                    (Some anchored, Some incoming) \<Rightarrow> anchored \<noteq> incoming
                  | _ \<Rightarrow> False));
             suppressed = hm_get (suppressed_full_lifecycle_hook_reports t) src
         in if opencode_cross_talk then (t, Ignore)
            else if is_some_and suppressed (\<lambda>sp. sup_agent_label sp \<noteq> label) then (t, Ignore)
            else if is_some_and suppressed (\<lambda>sp. sup_reason sp = HookClear)
            then (t,
              case (Option.bind suppressed sup_session_ref, session_ref) of
                (Some previous, Some incoming) \<Rightarrow> if previous \<noteq> incoming then Accept True else Ignore
              | _ \<Rightarrow> Ignore)
            else if present \<and> session_anchored \<and> suppressed = None
            then (t, Accept
              (full_lifecycle_hook_report_has_fresh_session_after_stale_session t src label session_ref))
            else
              (case (session_ref, seq) of
                 (Some r, Some s) \<Rightarrow>
                   if is_some_and (hm_get (hook_report_sequences t) src) (\<lambda>previous. s \<le> previous)
                   then (t, Ignore)
                   else (queue_pending_report t src label st msg r s reported_at, Ignore)
               | _ \<Rightarrow> (t, Ignore))))"

subsection \<open>Taking the authority\<close>

definition codex_source :: "string \<Rightarrow> string \<Rightarrow> bool" where
  "codex_source src label \<longleftrightarrow> src \<in> set [''herdr:codex'', ''herden:codex''] \<and> label = ''codex''"

text \<open>A report with a session supersedes the suppression of its source, whose session becomes stale.\<close>

definition retire_suppressed_report :: "'q terminal_state \<Rightarrow> string \<Rightarrow> 'q terminal_state" where
  "retire_suppressed_report t src =
     (case hm_get (suppressed_full_lifecycle_hook_reports t) src of
        Some sp \<Rightarrow>
          (let t' = t\<lparr>suppressed_full_lifecycle_hook_reports :=
                 hm_remove src (suppressed_full_lifecycle_hook_reports t)\<rparr>
           in case sup_session_ref sp of
                Some r \<Rightarrow> remember_stale_full_lifecycle_hook_session t' src (sup_agent_label sp) r
              | None \<Rightarrow> t')
      | None \<Rightarrow> t)"

text \<open>
  The part of \<open>set_hook_authority_at\<close> after every guard: the report is accepted with the session
  reference \<open>r\<close>.
\<close>

definition install_hook_authority ::
    "(string \<Rightarrow> string) \<Rightarrow> 'q terminal_state \<Rightarrow> string \<Rightarrow> string \<Rightarrow> agent_state \<Rightarrow> string option \<Rightarrow>
     agent_session_ref option \<Rightarrow> bool \<Rightarrow> bool \<Rightarrow> instant \<Rightarrow> instant \<Rightarrow> 'q terminal_state \<times> terminal_state_mutation" where
  "install_hook_authority lower t src label st msg r foreground_takeover_allowed reanchor_sequence now clock =
     (let t1 = reconcile_agent_name_owner lower t label r;
          t2 = (if foreground_takeover_allowed
            then suppress_current_full_lifecycle_hook_authority t1 HookClear clock else t1);
          t3 = (if r \<noteq> None \<or> reanchor_sequence
            then retire_suppressed_report t2 src
            else t2);
          t4 = t3\<lparr>persisted_agent_session := None,
            hook_authority := Some \<lparr>ha_source = src, ha_agent_label = label, ha_state = st, ha_message = msg,
              ha_reported_at = now, ha_session_ref = r\<rparr>\<rparr>
      in case recompute_from lower t now t4 of (t5, change) \<Rightarrow>
           (if st = Working \<and> state t5 = Working then t5\<lparr>agent_process_acquisition_pending := False\<rparr> else t5,
            \<lparr>mut_effective_state_change = change,
             mut_session_ref_changed =
               (current_session_identity_for_persistence t \<noteq> current_session_identity_for_persistence t4),
             mut_agent_released = False\<rparr>))"

text \<open>The session reference a report is taken with, and the guards that refuse it after routing.\<close>

definition takeover_by_hook_report ::
    "(string \<Rightarrow> string) \<Rightarrow> 'q terminal_state \<Rightarrow> string \<Rightarrow> string \<Rightarrow> agent_session_ref option \<Rightarrow> bool" where
  "takeover_by_hook_report lower t src label session_ref \<longleftrightarrow>
     current_session_owner_conflicts t src label
     \<and> foreground_agent_confirms_hook_authority_takeover lower t src label session_ref"

definition accepted_session_ref ::
    "'q terminal_state \<Rightarrow> string \<Rightarrow> string \<Rightarrow> agent_session_ref option \<Rightarrow> agent_session_ref option" where
  "accepted_session_ref t src label session_ref =
     map_option (\<lambda>r.
       if lifecycle_hook_report_replaces_persisted_session t src label r then r
       else (case conflicting_same_owner_session_ref t src label r None of Some r' \<Rightarrow> r' | None \<Rightarrow> r)) session_ref"

definition hook_report_refused ::
    "(string \<Rightarrow> string) \<Rightarrow> 'q terminal_state \<Rightarrow> string \<Rightarrow> string \<Rightarrow> agent_session_ref option \<Rightarrow> bool" where
  "hook_report_refused lower t src label session_ref \<longleftrightarrow>
     known_agent_label_conflicts_with_detected_agent lower t label
     \<or> codex_source src label \<and> is_some_and session_ref (\<lambda>incoming.
         is_some_and (current_session_identity_for_persistence t)
           (\<lambda>(_, _, knd, v). knd \<noteq> ref_kind incoming \<or> v \<noteq> ref_value incoming))
     \<or> current_session_owner_conflicts t src label \<and> \<not> takeover_by_hook_report lower t src label session_ref
     \<or> live_full_lifecycle_hook_authority_conflicts_with_session t src label
         (accepted_session_ref t src label session_ref)"

definition commit_hook_report ::
    "(string \<Rightarrow> string) \<Rightarrow> 'q terminal_state \<Rightarrow> string \<Rightarrow> string \<Rightarrow> agent_state \<Rightarrow> string option \<Rightarrow>
     agent_session_ref option \<Rightarrow> u64 option \<Rightarrow> bool \<Rightarrow> instant \<Rightarrow> instant \<Rightarrow> 'q terminal_state \<times> terminal_state_mutation option" where
  "commit_hook_report lower t src label st msg session_ref seq reanchor_sequence now clock =
     (let t1 = (if reanchor_sequence
            then t\<lparr>hook_report_sequences := hm_remove src (hook_report_sequences t)\<rparr> else t)
      in case accept_hook_report t1 src seq of (t2, accepted) \<Rightarrow>
           if \<not> accepted then (t2, None)
           else map_prod (\<lambda>x. x) Some
             (install_hook_authority lower t2 src label st msg (accepted_session_ref t src label session_ref)
               (takeover_by_hook_report lower t src label session_ref) reanchor_sequence now clock))"

definition set_hook_authority_at ::
    "(string \<Rightarrow> string) \<Rightarrow> 'q terminal_state \<Rightarrow> string \<Rightarrow> string \<Rightarrow> agent_state \<Rightarrow> string option \<Rightarrow>
     agent_session_ref option \<Rightarrow> u64 option \<Rightarrow> instant \<Rightarrow> instant \<Rightarrow> 'q terminal_state \<times> terminal_state_mutation option" where
  "set_hook_authority_at lower t src label st msg session_ref seq now clock =
     (if session_identity_only_integration src label then (t, None)
      else if \<not> full_lifecycle_hook_authority src label
        \<and> is_some_and (recent_agent_process_exit t) (\<lambda>exit. parse_agent_label lower label = Some (exit_agent exit))
      then (t, None)
      else
        (case route_full_lifecycle_hook_report lower t src label st msg session_ref seq now of
           (t1, Ignore) \<Rightarrow> (t1, None)
         | (t1, Accept reanchor_sequence) \<Rightarrow>
             if hook_report_refused lower t1 src label session_ref then (t1, None)
             else commit_hook_report lower t1 src label st msg session_ref seq reanchor_sequence now clock))"

definition set_hook_authority_with_session_ref where
  "set_hook_authority_with_session_ref lower t src label st msg session_ref seq now clock =
     set_hook_authority_at lower t src label st msg session_ref seq now clock"

subsection \<open>Session references\<close>

definition set_persisted_agent_session :: "'q terminal_state \<Rightarrow> persisted_agent_session \<Rightarrow> 'q terminal_state" where
  "set_persisted_agent_session t session = t\<lparr>persisted_agent_session := Some session\<rparr>"

definition set_managed_agent_launch_session :: "'q terminal_state \<Rightarrow> persisted_agent_session \<Rightarrow> 'q terminal_state" where
  "set_managed_agent_launch_session t session =
     t\<lparr>persisted_agent_session := Some session, managed_agent_launch_session := Some session\<rparr>"

text \<open>An \<open>opencode\<close> selection without a sequence number, while its process is not known to be present.\<close>

definition queue_selection ::
    "'q terminal_state \<Rightarrow> string \<Rightarrow> string \<Rightarrow> agent_session_ref \<Rightarrow> instant \<Rightarrow> 'q terminal_state" where
  "queue_selection t src label r clock =
     (let previous_session_ref = or_else
            (Option.bind (opt_filter (\<lambda>a. ha_source a = src \<and> ha_agent_label a = label) (hook_authority t)) ha_session_ref)
            (map_option ps_session_ref
              (opt_filter (\<lambda>s. ps_source s = src \<and> ps_agent s = label) (persisted_agent_session t)));
          sp = (case hm_get (suppressed_full_lifecycle_hook_reports t) src of
            Some sp \<Rightarrow> sp
          | None \<Rightarrow> \<lparr>sup_agent_label = label, sup_session_ref = previous_session_ref,
              sup_observed_at = clock, sup_reason = ProcessExit,
              sup_replacement_session_ref = None, sup_pending_replacement_report = None\<rparr>)
      in t\<lparr>suppressed_full_lifecycle_hook_reports :=
           hm_insert src (sp\<lparr>sup_replacement_session_ref := Some r, sup_pending_replacement_report := None\<rparr>)
             (suppressed_full_lifecycle_hook_reports t)\<rparr>)"

text \<open>
  A numbered session start of a full-lifecycle source outside the generation Herdr has confirmed:
  it is queued as the replacement session, and taken at once when its process is present.
\<close>

definition queue_session_start ::
    "(string \<Rightarrow> string) \<Rightarrow> 'q terminal_state \<Rightarrow> string \<Rightarrow> string \<Rightarrow> agent_session_ref \<Rightarrow> u64 \<Rightarrow> bool \<Rightarrow> instant \<Rightarrow>
     'q terminal_state \<times> terminal_state_mutation option" where
  "queue_session_start lower t src label r seq present now =
     (let sp = (case hm_get (suppressed_full_lifecycle_hook_reports t) src of
            Some sp \<Rightarrow> sp
          | None \<Rightarrow> \<lparr>sup_agent_label = label, sup_session_ref = None,
              sup_observed_at = now, sup_reason = ProcessExit,
              sup_replacement_session_ref = None, sup_pending_replacement_report = None\<rparr>);
          sp' = (if sup_replacement_session_ref sp \<noteq> Some r
            then (if is_some_and (sup_pending_replacement_report sp) (\<lambda>p. ha_session_ref (pend_authority p) \<noteq> Some r)
                  then sp\<lparr>sup_pending_replacement_report := None\<rparr> else sp)
                 \<lparr>sup_replacement_session_ref := Some r\<rparr>
            else sp);
          t1 = t\<lparr>suppressed_full_lifecycle_hook_reports := hm_insert src sp' (suppressed_full_lifecycle_hook_reports t),
                 hook_report_sequences := hm_insert src seq (hook_report_sequences t)\<rparr>
      in if present
         then (let t2 = clear_full_lifecycle_hook_suppression_for_detected_agent lower t1 None (parse_agent_label lower label)
               in case recompute_from lower t now t2 of (t3, change) \<Rightarrow>
                    (t3, Some \<lparr>mut_effective_state_change = change,
                       mut_session_ref_changed =
                         (current_session_identity_for_persistence t \<noteq> current_session_identity_for_persistence t2),
                       mut_agent_released = False\<rparr>))
         else (t1, None))"

text \<open>The part of \<open>set_agent_session_ref_for_session_start\<close> after every guard.\<close>

definition install_session_ref ::
    "(string \<Rightarrow> string) \<Rightarrow> 'q terminal_state \<Rightarrow> string \<Rightarrow> string \<Rightarrow> agent_session_ref \<Rightarrow> bool \<Rightarrow> bool \<Rightarrow>
     agent_session_ref option \<Rightarrow> instant \<Rightarrow> instant \<Rightarrow> 'q terminal_state \<times> terminal_state_mutation" where
  "install_session_ref lower t src label r session_replacement_allowed foreground_takeover_allowed
     replaced_hook_session now clock =
     (let t1 = (if codex_source src label \<and> session_replacement_allowed
            \<and> is_some_and (hook_authority t) (\<lambda>a.
                ha_source a = src \<and> ha_agent_label a = label \<and> ha_session_ref a \<noteq> Some r)
            then t\<lparr>hook_authority := None\<rparr> else t);
          t2 = (if session_replacement_allowed \<or> foreground_takeover_allowed
            then forget_stale_full_lifecycle_hook_session t1 src label r else t1);
          t3 = (case replaced_hook_session of
              Some replaced \<Rightarrow>
                (remember_stale_full_lifecycle_hook_session t2 src label replaced)\<lparr>hook_authority := None\<rparr>
            | None \<Rightarrow>
                if foreground_takeover_allowed
                then (suppress_current_full_lifecycle_hook_authority t2 HookClear clock)\<lparr>hook_authority := None\<rparr>
                else t2);
          t4 = reconcile_agent_name_owner lower t3 label (Some r);
          session = \<lparr>ps_source = src, ps_agent = label, ps_session_ref = r\<rparr>;
          t5 = (if managed_agent_launch_session t4 = Some session
            then t4\<lparr>managed_agent_launch_session := None\<rparr> else t4);
          t6 = t5\<lparr>persisted_agent_session := Some session\<rparr>;
          previous_session = current_session_identity_for_persistence t;
          current_session = current_session_identity_for_persistence t6;
          t7 = (if previous_session \<noteq> None \<and> previous_session \<noteq> current_session
            then t6\<lparr>agent_process_acquisition_pending := True\<rparr> else t6)
      in case recompute_from lower t now t7 of (t8, change) \<Rightarrow>
           (t8, \<lparr>mut_effective_state_change = change,
              mut_session_ref_changed = (previous_session \<noteq> current_session),
              mut_agent_released = False\<rparr>))"

text \<open>The guards after the report's sequence was accepted.\<close>

definition takeover_by_session_start ::
    "(string \<Rightarrow> string) \<Rightarrow> 'q terminal_state \<Rightarrow> string \<Rightarrow> string \<Rightarrow> agent_session_ref \<Rightarrow> string option \<Rightarrow> bool" where
  "takeover_by_session_start lower t src label r start \<longleftrightarrow>
     current_session_owner_conflicts t src label
     \<and> foreground_agent_confirms_different_owner_takeover lower t src label r start"

definition replacing_identity_only_session ::
    "'q terminal_state \<Rightarrow> string \<Rightarrow> string \<Rightarrow> agent_session_ref \<Rightarrow> string option \<Rightarrow> bool" where
  "replacing_identity_only_session t src label r start \<longleftrightarrow>
     session_identity_only_integration src label
     \<and> session_report_allows_session_replacement src label start
     \<and> is_some_and (current_session_identity_for_persistence t)
         (\<lambda>(current_source, current_agent, current_kind, current_value).
            current_source = src \<and> current_agent = label \<and> current_kind = KindId
            \<and> ref_kind r = KindId \<and> current_value \<noteq> ref_value r)"

definition session_ref_refused ::
    "(string \<Rightarrow> string) \<Rightarrow> 'q terminal_state \<Rightarrow> string \<Rightarrow> string \<Rightarrow> agent_session_ref \<Rightarrow> string option \<Rightarrow> bool \<Rightarrow> bool" where
  "session_ref_refused lower t src label r start present \<longleftrightarrow>
     known_agent_label_conflicts_with_detected_agent lower t label
     \<or> replacing_identity_only_session t src label r start \<and> \<not> present
     \<or> current_session_owner_conflicts t src label \<and> \<not> takeover_by_session_start lower t src label r start
     \<or> conflicting_same_owner_session_ref t src label r start \<noteq> None
     \<or> same_owner_full_lifecycle_hook_authority_session_ref t src label r \<noteq> None
       \<and> \<not> session_report_allows_session_replacement src label start"

definition commit_session_ref ::
    "(string \<Rightarrow> string) \<Rightarrow> 'q terminal_state \<Rightarrow> string \<Rightarrow> string \<Rightarrow> agent_session_ref \<Rightarrow> u64 option \<Rightarrow> string option \<Rightarrow>
     bool \<Rightarrow> bool \<Rightarrow> instant \<Rightarrow> instant \<Rightarrow> 'q terminal_state \<times> terminal_state_mutation option" where
  "commit_session_ref lower t src label r seq start unsequenced_selection present now clock =
     (case (if unsequenced_selection then (t, True) else accept_hook_report t src seq) of (t1, accepted) \<Rightarrow>
        if \<not> accepted \<or> session_ref_refused lower t1 src label r start present then (t1, None)
        else map_prod (\<lambda>x. x) Some
          (install_session_ref lower t1 src label r
            (session_report_allows_session_replacement src label start)
            (takeover_by_session_start lower t1 src label r start)
            (same_owner_full_lifecycle_hook_authority_session_ref t1 src label r) now clock))"

text \<open>
  A full-lifecycle source starts a session outside the confirmed generation: its process is not
  there, its reports are suppressed since a process exit, or no session of it is anchored.
\<close>

definition unconfirmed_generation ::
    "(string \<Rightarrow> string) \<Rightarrow> 'q terminal_state \<Rightarrow> string \<Rightarrow> string \<Rightarrow> bool" where
  "unconfirmed_generation lower t src label \<longleftrightarrow>
     \<not> process_present lower t label
     \<or> is_some_and (hm_get (suppressed_full_lifecycle_hook_reports t) src)
         (\<lambda>sp. sup_agent_label sp = label \<and> sup_reason sp \<noteq> HookClear)
     \<or> \<not> (is_some_and (hook_authority t) (\<lambda>a.
             ha_source a = src \<and> ha_agent_label a = label \<and> ha_session_ref a \<noteq> None)
           \<or> persisted_agent_session_matches t src label)"

definition set_agent_session_ref_for_session_start ::
    "(string \<Rightarrow> string) \<Rightarrow> 'q terminal_state \<Rightarrow> string \<Rightarrow> string \<Rightarrow> agent_session_ref option \<Rightarrow> u64 option \<Rightarrow>
     string option \<Rightarrow> instant \<Rightarrow> instant \<Rightarrow> 'q terminal_state \<times> terminal_state_mutation option" where
  "set_agent_session_ref_for_session_start lower t src label session_ref seq start now clock =
     (case session_ref of
        None \<Rightarrow> (t, None)
      | Some r \<Rightarrow>
          (let present = process_present lower t label;
               unsequenced_selection = is_unsequenced_opencode_selection src label start seq
           in if unsequenced_selection \<and> present
              then commit_session_ref lower
                     (t\<lparr>suppressed_full_lifecycle_hook_reports :=
                        hm_remove src (suppressed_full_lifecycle_hook_reports t)\<rparr>)
                     src label r seq start True present now clock
              else if full_lifecycle_hook_authority src label \<and> unsequenced_selection
              then (queue_selection t src label r now, None)
              else if full_lifecycle_hook_authority src label \<and> unconfirmed_generation lower t src label
              then
                (if \<not> session_start_source_is_recognized start then (t, None)
                 else (case seq of
                         None \<Rightarrow> (t, None)
                       | Some s \<Rightarrow>
                           if is_some_and (hm_get (hook_report_sequences t) src) (\<lambda>previous. s \<le> previous)
                           then (t, None)
                           else queue_session_start lower t src label r s present now))
              else commit_session_ref lower t src label r seq start unsequenced_selection present now clock))"

definition set_agent_session_ref where
  "set_agent_session_ref lower t src label session_ref seq now clock =
     set_agent_session_ref_for_session_start lower t src label session_ref seq None now clock"

subsection \<open>Clearing and releasing\<close>

definition clear_hook_authority_with_mutation ::
    "(string \<Rightarrow> string) \<Rightarrow> 'q terminal_state \<Rightarrow> string option \<Rightarrow> u64 option \<Rightarrow> instant \<Rightarrow> instant \<Rightarrow>
     'q terminal_state \<times> terminal_state_mutation option" where
  "clear_hook_authority_with_mutation lower t src seq now clock =
     (let sequence_source = or_else src (map_option ha_source (hook_authority t));
          should_clear = is_some_and (hook_authority t) (\<lambda>a. is_none_or src (\<lambda>s. ha_source a = s))
      in if \<not> should_clear then (t, None)
         else
           (case (case sequence_source of Some s \<Rightarrow> accept_hook_report t s seq | None \<Rightarrow> (t, True)) of
              (t1, False) \<Rightarrow> (t1, None)
            | (t1, True) \<Rightarrow>
                (let t2 = suppress_current_full_lifecycle_hook_authority t1 HookClear clock;
                     t3 = (case hook_authority t2 of
                         Some a \<Rightarrow> forget_reported_resume_of (t2\<lparr>hook_authority := None\<rparr>) (ha_source a) (ha_agent_label a)
                       | None \<Rightarrow> t2);
                     t4 = t3\<lparr>persisted_agent_session := None\<rparr>
                 in case recompute_from lower t1 now t4 of (t5, change) \<Rightarrow>
                      (t5, Some \<lparr>mut_effective_state_change = change,
                         mut_session_ref_changed = (current_session_identity_for_persistence t1 \<noteq> None),
                         mut_agent_released = False\<rparr>))))"

definition release_agent_with_mutation ::
    "(string \<Rightarrow> string) \<Rightarrow> 'q terminal_state \<Rightarrow> string \<Rightarrow> string \<Rightarrow> u64 option \<Rightarrow> instant \<Rightarrow> instant \<Rightarrow>
     'q terminal_state \<times> terminal_state_mutation option" where
  "release_agent_with_mutation lower t src label seq now clock =
     (if is_some_and (hook_authority t) (\<lambda>a. ha_agent_label a \<noteq> label \<or> ha_source a \<noteq> src) then (t, None)
      else if effective_agent_label lower t \<noteq> Some label \<and> \<not> persisted_agent_session_matches t src label then (t, None)
      else
        (case accept_hook_report t src seq of
           (t1, False) \<Rightarrow> (t1, None)
         | (t1, True) \<Rightarrow>
             (let preserve_foreign = is_some_and (persisted_agent_session t1)
                    (\<lambda>s. ps_source s \<noteq> src \<or> ps_agent s \<noteq> label);
                  process_owns_agent = is_some_and (parse_agent_label lower label)
                    (\<lambda>agnt. detected_agent t1 = Some agnt \<and> recent_agent_process_exit t1 = None);
                  t2 = suppress_full_lifecycle_hook_report t1 src label HookClear clock;
                  t3 = (if process_owns_agent then t2
                    else clear_agent_name (t2\<lparr>detected_agent := None, fallback_state := Unknown,
                           fallback_visible_blocker := False, fallback_observed_at := None\<rparr>));
                  t4 = forget_reported_resume_of (t3\<lparr>hook_authority := None\<rparr>) src label;
                  t5 = (if preserve_foreign then t4 else t4\<lparr>persisted_agent_session := None\<rparr>)
              in case recompute_from lower t1 now t5 of (t6, change) \<Rightarrow>
                   (t6, Some \<lparr>mut_effective_state_change = change,
                      mut_session_ref_changed =
                        (current_session_identity_for_persistence t1 \<noteq> current_session_identity_for_persistence t5),
                      mut_agent_released = (\<not> process_owns_agent)\<rparr>))))"

definition clear_self_reported_agent ::
    "(string \<Rightarrow> string) \<Rightarrow> 'q terminal_state \<Rightarrow> instant \<Rightarrow> instant \<Rightarrow> 'q terminal_state \<times> terminal_state_mutation option" where
  "clear_self_reported_agent lower t observed_at now =
     (if \<not> self_reported_agent_active lower t \<or> \<not> hook_authority_not_newer_than t observed_at then (t, None)
      else
        (let t1 = set_reported_resume (t\<lparr>hook_authority := None\<rparr>) None;
             t2 = clear_agent_name (t1\<lparr>detected_agent := None, fallback_state := Unknown,
                    fallback_visible_blocker := False, fallback_observed_at := None\<rparr>)
         in case recompute_from lower t now t2 of (t3, change) \<Rightarrow>
              (t3, Some \<lparr>mut_effective_state_change = change,
                 mut_session_ref_changed =
                   (current_session_identity_for_persistence t \<noteq> current_session_identity_for_persistence t2),
                 mut_agent_released = True\<rparr>)))"

end
