(* ===== verification/Terminal_State.thy ===== *)
theory Terminal_State
  imports Terminal_Hooks
begin

text \<open>
  The remaining operations of a terminal (\<^verbatim>\<open>runtime/src/terminal/state.rs\<close>,
  \<^verbatim>\<open>runtime/src/terminal/title.rs\<close>): detected processes and screens, process exits, managed
  agents, names, titles, reported resume commands and the handoff to a new server.
\<close>

subsection \<open>Process exit\<close>

text \<open>One entry of the loop over the suppressed reports: the new entry, and whether it was reset with the stale session it leaves.\<close>

definition exit_suppressed_entry ::
    "(string \<Rightarrow> string) \<Rightarrow> agent option \<Rightarrow> instant \<Rightarrow> suppressed_full_lifecycle_hook_report \<Rightarrow>
     suppressed_full_lifecycle_hook_report \<times> bool \<times> agent_session_ref option" where
  "exit_suppressed_entry lower agnt now sp =
     (if parse_agent_label lower (sup_agent_label sp) \<noteq> agnt \<or> sup_reason sp = HookClear then (sp, False, None)
      else
        (let exited = or_else (sup_replacement_session_ref sp)
               (or_else (Option.bind (sup_pending_replacement_report sp) (\<lambda>p. ha_session_ref (pend_authority p)))
                 (sup_session_ref sp));
             stale = (case (sup_session_ref sp, exited) of
               (Some previous, Some ex) \<Rightarrow> if previous \<noteq> ex then Some previous else None
             | _ \<Rightarrow> None)
         in (sp\<lparr>sup_replacement_session_ref := None, sup_session_ref := exited,
               sup_pending_replacement_report := None, sup_observed_at := now\<rparr>, True, stale)))"

definition exit_suppressed_reports ::
    "(string \<Rightarrow> string) \<Rightarrow> 'q terminal_state \<Rightarrow> agent option \<Rightarrow> instant \<Rightarrow> 'q terminal_state" where
  "exit_suppressed_reports lower t agnt now =
     (let sups = suppressed_full_lifecycle_hook_reports t;
          entry = exit_suppressed_entry lower agnt now;
          stales = concat (map (\<lambda>(src, sp).
            case snd (snd (entry sp)) of
              Some r \<Rightarrow> [(src, \<lparr>stale_agent_label = sup_agent_label sp, stale_session_ref = r\<rparr>)]
            | None \<Rightarrow> []) sups);
          reset = map fst (filter (\<lambda>(src, sp). fst (snd (entry sp))) sups);
          t1 = t\<lparr>suppressed_full_lifecycle_hook_reports := map (\<lambda>(src, sp). (src, fst (entry sp))) sups\<rparr>;
          t2 = remember_stale_sessions stales t1
      in t2\<lparr>hook_report_sequences := fold hm_remove reset (hook_report_sequences t2)\<rparr>)"

definition exit_official_session ::
    "(string \<Rightarrow> string) \<Rightarrow> 'q terminal_state \<Rightarrow> agent option \<Rightarrow> (string \<times> string \<times> agent_session_ref option) option" where
  "exit_official_session lower t agnt =
     or_else
       (map_option (\<lambda>a. (ha_source a, ha_agent_label a, ha_session_ref a))
         (opt_filter (\<lambda>a. is_official_agent_source (ha_source a) (ha_agent_label a)
           \<and> parse_agent_label lower (ha_agent_label a) = agnt) (hook_authority t)))
       (map_option (\<lambda>s. (ps_source s, ps_agent s, Some (ps_session_ref s)))
         (opt_filter (\<lambda>s. is_official_agent_source (ps_source s) (ps_agent s)
           \<and> parse_agent_label lower (ps_agent s) = agnt) (persisted_agent_session t)))"

definition exit_metadata :: "'q terminal_state \<Rightarrow> agent \<Rightarrow> instant \<Rightarrow> 'q terminal_state" where
  "exit_metadata t agnt now =
     (let label = agent_label agnt;
          clear = (\<lambda>src md.
            let official = (is_official_agent_source (md_source md) label
                  \<or> is_some_and (md_applies_to_source md) (\<lambda>applies_to. is_official_agent_source applies_to label));
                matches_agent = (md_agent_label md = Some label \<or> official)
            in matches_agent \<and> (official \<or> md_reported_at md \<le> now));
          cleared = map fst (filter (\<lambda>(src, md). clear src md) (agent_metadata t));
          t1 = t\<lparr>agent_metadata := hm_retain (\<lambda>src md. \<not> clear src md) (agent_metadata t),
                 metadata_report_sequences := fold hm_remove cleared (metadata_report_sequences t),
                 metadata_report_agents := fold hm_remove cleared (metadata_report_agents t),
                 metadata_token_sequence_sources := fold removeAll cleared (metadata_token_sequence_sources t)\<rparr>;
          generation = map fst (filter (\<lambda>(src, owner). owner = agnt) (metadata_report_agents t1))
      in t1\<lparr>metadata_report_agents := hm_retain (\<lambda>src owner. owner \<noteq> agnt) (metadata_report_agents t1),
            metadata_report_sequences := fold hm_remove generation (metadata_report_sequences t1),
            metadata_token_sequence_sources := fold removeAll generation (metadata_token_sequence_sources t1)\<rparr>)"

text \<open>The block \<open>if process_exited\<close> that drops what the exited agent left behind.\<close>

definition apply_process_exit ::
    "(string \<Rightarrow> string) \<Rightarrow> 'q terminal_state \<Rightarrow> agent option \<Rightarrow> bool \<Rightarrow> instant \<Rightarrow> 'q terminal_state" where
  "apply_process_exit lower t agnt newer_custom_authority now =
     (let t1 = exit_suppressed_reports lower t agnt now;
          t2 = (case exit_official_session lower t1 agnt of
              Some (src, label, r) \<Rightarrow>
                suppress_full_lifecycle_hook_report_with_session_ref
                  (t1\<lparr>hook_report_sequences := hm_remove src (hook_report_sequences t1)\<rparr>) src label r ProcessExit now
            | None \<Rightarrow> t1);
          t3 = (case opt_filter (\<lambda>a. parse_agent_label lower (ha_agent_label a) = agnt \<and> \<not> newer_custom_authority)
                     (hook_authority t2) of
              Some a \<Rightarrow> t2\<lparr>hook_report_sequences := hm_remove (ha_source a) (hook_report_sequences t2),
                          hook_authority := None\<rparr>
            | None \<Rightarrow> t2);
          t4 = (if \<not> newer_custom_authority
              \<and> is_some_and (persisted_agent_session t3) (\<lambda>s. parse_agent_label lower (ps_agent s) = agnt)
            then t3\<lparr>persisted_agent_session := None\<rparr> else t3);
          t5 = (if \<not> newer_custom_authority \<and> agnt \<noteq> None
              \<and> is_some_and (reported_resume t4) (\<lambda>r. parse_agent_label lower (rr_agent r) = agnt)
            then set_reported_resume t4 None else t4)
      in case agnt of Some a \<Rightarrow> exit_metadata t5 a now | None \<Rightarrow> t5)"

subsection \<open>Detected state\<close>

definition newer_custom_authority ::
    "(string \<Rightarrow> string) \<Rightarrow> 'q terminal_state \<Rightarrow> agent option \<Rightarrow> bool \<Rightarrow> instant \<Rightarrow> bool" where
  "newer_custom_authority lower t agnt process_exited now \<longleftrightarrow>
     process_exited
     \<and> is_some_and (hook_authority t) (\<lambda>a.
         parse_agent_label lower (ha_agent_label a) = agnt
         \<and> \<not> is_official_agent_source (ha_source a) (ha_agent_label a)
         \<and> ha_reported_at a > now)"

text \<open>The hook authority of an agent that is no longer the detected one gives way to its durable session.\<close>

definition drop_conflicting_authority ::
    "(string \<Rightarrow> string) \<Rightarrow> 'q terminal_state \<Rightarrow> agent option \<Rightarrow> agent option \<Rightarrow> instant \<Rightarrow> instant \<Rightarrow> 'q terminal_state" where
  "drop_conflicting_authority lower t agnt previous_detected now clock =
     (if hook_authority_not_newer_than t now
        \<and> (hook_authority_conflicts_with_detected_agent lower t agnt
           \<or> (previous_detected \<noteq> None \<and> agnt \<noteq> previous_detected
              \<and> is_some_and (hook_authority t) (\<lambda>a. parse_agent_label lower (ha_agent_label a) = previous_detected)))
      then
        (let durable_session = Option.bind (hook_authority t) (\<lambda>a.
               map_option (\<lambda>r. \<lparr>ps_source = ha_source a, ps_agent = ha_agent_label a, ps_session_ref = r\<rparr>)
                 (ha_session_ref a));
             t1 = suppress_current_full_lifecycle_hook_authority t HookClear clock
         in t1\<lparr>hook_authority := None, persisted_agent_session := durable_session\<rparr>)
      else t)"

definition detected_state_update ::
    "(string \<Rightarrow> string) \<Rightarrow> 'q terminal_state \<Rightarrow> agent option \<Rightarrow> agent_state \<Rightarrow> bool \<Rightarrow> bool \<Rightarrow> instant \<Rightarrow> instant \<Rightarrow>
     'q terminal_state" where
  "detected_state_update lower t agnt fallback blocker process_exited now clock =
     (let replacement_process_detected = (\<not> process_exited \<and> agnt \<noteq> None
            \<and> is_some_and (recent_agent_process_exit t) (\<lambda>exit. Some (exit_agent exit) = agnt \<and> exit_observed_at exit < now));
          t1 = t\<lparr>detected_agent := agnt,
                 codex_prompt_ready := (if process_exited \<or> agnt \<noteq> Some Codex \<or> fallback = Blocked
                   then False else codex_prompt_ready t)\<rparr>;
          t2 = (case agnt of Some a \<Rightarrow> reconcile_agent_name_owner lower t1 (agent_label a) None | None \<Rightarrow> t1);
          t3 = (if process_exited then t2
            else clear_full_lifecycle_hook_suppression_for_detected_agent lower t2
                   (if replacement_process_detected then None else detected_agent t) agnt);
          t4 = t3\<lparr>fallback_state := fallback,
                  fallback_visible_blocker := (blocker \<and> fallback = Blocked),
                  fallback_observed_at := Some now\<rparr>;
          t5 = (if process_exited
            then (case agnt of
                    Some a \<Rightarrow> t4\<lparr>recent_agent_process_exit := Some \<lparr>exit_agent = a, exit_observed_at = now\<rparr>\<rparr>
                  | None \<Rightarrow> t4)
            else if agnt \<noteq> None then t4\<lparr>recent_agent_process_exit := None\<rparr> else t4);
          t6 = (if process_exited
            then apply_process_exit lower t5 agnt (newer_custom_authority lower t agnt process_exited now) now else t5);
          t7 = drop_conflicting_authority lower t6 agnt (detected_agent t) now clock
      in if agnt = None \<and> recent_agent_process_exit t7 \<noteq> None then clear_agent_name t7 else t7)"

definition set_detected_state_with_screen_signals_at ::
    "(string \<Rightarrow> string) \<Rightarrow> 'q terminal_state \<Rightarrow> agent option \<Rightarrow> agent_state \<Rightarrow> bool \<Rightarrow> bool \<Rightarrow> bool \<Rightarrow> bool \<Rightarrow>
     instant \<Rightarrow> instant \<Rightarrow> 'q terminal_state \<times> terminal_state_mutation" where
  "set_detected_state_with_screen_signals_at lower t agnt fallback blocker vis_idle vis_working process_exited now clock =
     (let previous_session = current_session_identity_for_persistence t;
          unchanged = (\<lambda>t'. case recompute_from lower t now t' of (t'', change) \<Rightarrow>
            (t'', \<lparr>mut_effective_state_change = change,
               mut_session_ref_changed = (previous_session \<noteq> current_session_identity_for_persistence t''),
               mut_agent_released = False\<rparr>))
      in if should_ignore_detected_state_under_full_lifecycle_hook lower t agnt process_exited
         then unchanged
           (if Option.bind (hook_authority t) (\<lambda>a. parse_agent_label lower (ha_agent_label a)) = agnt
            then t\<lparr>detected_agent := agnt\<rparr> else t)
         else if \<not> process_exited \<and> detected_state_observed_before_release_suppression lower t agnt now
         then unchanged t
         else
           (case recompute_from lower t now
                   (detected_state_update lower t agnt fallback blocker process_exited now clock) of
              (t1, change) \<Rightarrow>
                (let t2 = (if fallback = Working \<and> state t1 = Working
                   then t1\<lparr>agent_process_acquisition_pending := False\<rparr> else t1)
                 in (t2, \<lparr>mut_effective_state_change = change,
                      mut_session_ref_changed = (previous_session \<noteq> current_session_identity_for_persistence t2),
                      mut_agent_released = (process_exited
                        \<and> \<not> newer_custom_authority lower t agnt process_exited now
                        \<and> (effective_agent_label lower t \<noteq> None \<or> agent_name t \<noteq> None))\<rparr>))))"

definition set_detected_agent_process_at ::
    "(string \<Rightarrow> string) \<Rightarrow> 'q terminal_state \<Rightarrow> agent \<Rightarrow> instant \<Rightarrow> instant \<Rightarrow> 'q terminal_state \<times> terminal_state_mutation" where
  "set_detected_agent_process_at lower t agnt now clock =
     (let starts_acquisition = (\<not> should_ignore_detected_state_under_full_lifecycle_hook lower t (Some agnt) False
            \<and> \<not> detected_state_observed_before_release_suppression lower t (Some agnt) now)
      in case set_detected_state_with_screen_signals_at lower t (Some agnt) Unknown False False False False now clock of
           (t1, mutation) \<Rightarrow>
             (if starts_acquisition
              then t1\<lparr>codex_prompt_ready := False, agent_process_acquisition_pending := True\<rparr> else t1, mutation))"

definition finish_agent_process_acquisition :: "'q terminal_state \<Rightarrow> 'q terminal_state \<times> bool" where
  "finish_agent_process_acquisition t =
     (let reached_idle = (agent_process_acquisition_pending t \<and> state t = Idle)
      in (if reached_idle then t\<lparr>agent_process_acquisition_pending := False\<rparr> else t,
          reached_idle \<and> recent_agent_process_exit t = None))"

subsection \<open>Handoff\<close>

definition handoff_agent_state :: "(string \<Rightarrow> string) \<Rightarrow> 'q terminal_state \<Rightarrow> handoff_agent option" where
  "handoff_agent_state lower t =
     (if \<not> live_full_lifecycle_hook_authority lower t then None
      else map_option (\<lambda>a.
        \<lparr>ho_authority = a, ho_sequence = hm_get (hook_report_sequences t) (ha_source a),
         ho_acquisition_pending = agent_process_acquisition_pending t\<rparr>) (hook_authority t))"

definition restore_handoff_agent_state ::
    "(string \<Rightarrow> string) \<Rightarrow> 'q terminal_state \<Rightarrow> handoff_agent \<Rightarrow> 'q terminal_state" where
  "restore_handoff_agent_state lower t snapshot =
     (let a = ho_authority snapshot;
          t1 = (case ho_sequence snapshot of
              Some s \<Rightarrow> t\<lparr>hook_report_sequences := hm_insert (ha_source a) s (hook_report_sequences t)\<rparr>
            | None \<Rightarrow> t)
      in t1\<lparr>detected_agent := parse_agent_label lower (ha_agent_label a),
            state := ha_state a,
            hook_authority := Some a,
            agent_process_acquisition_pending := ho_acquisition_pending snapshot\<rparr>)"

subsection \<open>Titles and labels\<close>

text \<open>The first character of a string: as many bytes as its lead byte announces.\<close>

definition first_char_len :: "string \<Rightarrow> nat" where
  "first_char_len s =
     (case s of
        [] \<Rightarrow> 0
      | c # _ \<Rightarrow>
          (let n = (of_char c :: nat)
           in if n < 0x80 then 1 else if n < 0xE0 then 2 else if n < 0xF0 then 3 else 4))"

text \<open>\<open>CLAUDE_ACTIVITY_GLYPHS\<close> as encodings: U+00B7, U+2722, U+2733, U+2736, U+273B, U+273D, U+25D0, U+25D3, U+25D1, U+25D2.\<close>

definition CLAUDE_ACTIVITY_GLYPHS :: "string list" where
  "CLAUDE_ACTIVITY_GLYPHS =
     [[CHR 0xC2, CHR 0xB7], [CHR 0xE2, CHR 0x9C, CHR 0xA2], [CHR 0xE2, CHR 0x9C, CHR 0xB3],
      [CHR 0xE2, CHR 0x9C, CHR 0xB6], [CHR 0xE2, CHR 0x9C, CHR 0xBB], [CHR 0xE2, CHR 0x9C, CHR 0xBD],
      [CHR 0xE2, CHR 0x97, CHR 0x90], [CHR 0xE2, CHR 0x97, CHR 0x93], [CHR 0xE2, CHR 0x97, CHR 0x91],
      [CHR 0xE2, CHR 0x97, CHR 0x92]]"

text \<open>U+2800 to U+28FF encode as \<open>E2 A0 80\<close> to \<open>E2 A3 BF\<close>.\<close>

definition is_braille :: "string \<Rightarrow> bool" where
  "is_braille s =
     (case s of
        [a, b, c] \<Rightarrow> (of_char a :: nat) = 0xE2 \<and> 0xA0 \<le> (of_char b :: nat) \<and> (of_char b :: nat) \<le> 0xA3
      | _ \<Rightarrow> False)"

definition starts_with_whitespace :: "string \<Rightarrow> bool" where
  "starts_with_whitespace s \<longleftrightarrow> list_ex (\<lambda>w. starts_with w s) whitespace_encodings"

definition stripped_terminal_title :: "string \<Rightarrow> string option" where
  "stripped_terminal_title ttl =
     (let title = trim ttl
      in if title = [] then None
         else
           (let n = first_char_len title;
                first = take n title;
                after_first = drop n title;
                recognized = (is_braille first \<or> first \<in> set CLAUDE_ACTIVITY_GLYPHS);
                stripped = (if recognized \<and> (after_first = [] \<or> starts_with_whitespace after_first)
                  then trim after_first else title)
            in if stripped \<noteq> [] then Some stripped else None))"

definition terminal_title_stripped :: "'q terminal_state \<Rightarrow> string option" where
  "terminal_title_stripped t = Option.bind (terminal_title t) stripped_terminal_title"

definition set_terminal_title :: "'q terminal_state \<Rightarrow> string option \<Rightarrow> 'q terminal_state \<times> terminal_title_change" where
  "set_terminal_title t title =
     (if terminal_title t = title then (t, \<lparr>raw_changed = False, stripped_changed = False\<rparr>)
      else
        (let t1 = t\<lparr>terminal_title := title\<rparr>;
             changed = (terminal_title_stripped t \<noteq> terminal_title_stripped t1)
         in (if changed then t1\<lparr>revision := revision t1 + 1\<rparr> else t1,
             \<lparr>raw_changed = True, stripped_changed = changed\<rparr>)))"

definition set_manual_label :: "'q terminal_state \<Rightarrow> string \<Rightarrow> 'q terminal_state" where
  "set_manual_label t label =
     t\<lparr>manual_label := (let l = trim label in if l \<noteq> [] then Some l else None)\<rparr>"

definition clear_manual_label :: "'q terminal_state \<Rightarrow> 'q terminal_state" where
  "clear_manual_label t = t\<lparr>manual_label := None\<rparr>"

definition with_launch_argv :: "'q terminal_state \<Rightarrow> string list \<Rightarrow> 'q terminal_state" where
  "with_launch_argv t argv = t\<lparr>launch_argv := Some argv\<rparr>"

definition with_respawn_shell_on_exit :: "'q terminal_state \<Rightarrow> 'q terminal_state" where
  "with_respawn_shell_on_exit t = t\<lparr>respawn_shell_on_exit := True\<rparr>"

definition with_pending_agent_resume_plan :: "'q terminal_state \<Rightarrow> agent_resume_plan \<Rightarrow> 'q terminal_state" where
  "with_pending_agent_resume_plan t p =
     t\<lparr>pending_agent_resume_plan := Some p, pending_resume_wait_deadline := None,
       pending_resume_wait_for_owner := False\<rparr>"

subsection \<open>Managed agents\<close>

definition set_agent_name :: "(string \<Rightarrow> string) \<Rightarrow> 'q terminal_state \<Rightarrow> string \<Rightarrow> 'q terminal_state" where
  "set_agent_name lower t name =
     (let nm = (if name \<noteq> [] then Some name else None)
      in t\<lparr>agent_name := nm,
           agent_name_is_user_set := (nm \<noteq> None),
           agent_name_owner := Option.bind nm (\<lambda>_.
             or_else (map_option (\<lambda>a. \<lparr>owner_agent_label = ha_agent_label a, owner_session_ref = ha_session_ref a\<rparr>)
                 (hook_authority t))
               (or_else (map_option (\<lambda>s. \<lparr>owner_agent_label = ps_agent s, owner_session_ref = Some (ps_session_ref s)\<rparr>)
                   (persisted_agent_session t))
                 (map_option (\<lambda>l. \<lparr>owner_agent_label = l, owner_session_ref = None\<rparr>)
                   (effective_agent_label lower t))))\<rparr>)"

definition begin_managed_agent ::
    "(string \<Rightarrow> string) \<Rightarrow> 'q terminal_state \<Rightarrow> string \<Rightarrow> agent \<Rightarrow> bool \<Rightarrow> instant \<Rightarrow> duration \<Rightarrow> duration \<Rightarrow> 'q terminal_state" where
  "begin_managed_agent lower t name knd name_is_user_set now settle_delay timeout =
     (set_agent_name lower (t\<lparr>codex_prompt_ready := False\<rparr>) name)
       \<lparr>agent_name_is_user_set := name_is_user_set,
        agent_process_acquisition_pending := True,
        agent_name_owner := Some \<lparr>owner_agent_label = agent_label knd, owner_session_ref = None\<rparr>,
        managed_agent := Some \<lparr>managed_kind = knd,
          managed_phase = MPending
            (Some (case checked_add now settle_delay of Some i \<Rightarrow> i | None \<Rightarrow> now))
            (case checked_add now timeout of Some i \<Rightarrow> i | None \<Rightarrow> now)
            False\<rparr>\<rparr>"

definition managed_agent_launch_pending :: "'q terminal_state \<Rightarrow> bool" where
  "managed_agent_launch_pending t = is_some_and (managed_agent t) (\<lambda>m. managed_phase m \<noteq> MActive)"

definition managed_agent_interactive_ready :: "'q terminal_state \<Rightarrow> bool" where
  "managed_agent_interactive_ready t = is_some_and (managed_agent t) (\<lambda>m. managed_phase m = MActive)"

definition managed_agent_kind :: "'q terminal_state \<Rightarrow> agent option" where
  "managed_agent_kind t = map_option managed_kind (managed_agent t)"

definition observe_codex_prompt_ready :: "'q terminal_state \<Rightarrow> bool \<Rightarrow> 'q terminal_state \<times> terminal_state_mutation option" where
  "observe_codex_prompt_ready t ready =
     (if detected_agent t \<noteq> Some Codex
        \<or> recent_agent_process_exit t \<noteq> None
        \<or> \<not> is_some_and (managed_agent t) (\<lambda>m. managed_kind m = Codex \<and> managed_phase m \<noteq> MActive)
        \<or> codex_prompt_ready t = ready
      then (t, None)
      else (t\<lparr>codex_prompt_ready := ready\<rparr>,
            Some \<lparr>mut_effective_state_change = None, mut_session_ref_changed = False, mut_agent_released = False\<rparr>))"

definition next_managed_agent_deadline :: "'q terminal_state \<Rightarrow> instant option" where
  "next_managed_agent_deadline t =
     (case managed_agent t of
        None \<Rightarrow> None
      | Some m \<Rightarrow>
          (case managed_phase m of
             MPending ready_after deadline _ \<Rightarrow>
               Some (min (case ready_after of Some r \<Rightarrow> r | None \<Rightarrow> deadline) deadline)
           | MBlocked \<Rightarrow> None
           | MActive \<Rightarrow> None))"

definition managed_ready :: "(string \<Rightarrow> string) \<Rightarrow> 'q terminal_state \<Rightarrow> agent \<Rightarrow> bool" where
  "managed_ready lower t knd \<longleftrightarrow>
     effective_known_agent lower t = Some knd
     \<and> (state t = Idle \<or> knd = Codex \<and> state t = Unknown \<and> codex_prompt_ready t)"

definition reconcile_managed_agent_at ::
    "(string \<Rightarrow> string) \<Rightarrow> 'q terminal_state \<Rightarrow> instant \<Rightarrow> bool \<Rightarrow> 'q terminal_state \<times> bool" where
  "reconcile_managed_agent_at lower t now process_exited =
     (case managed_agent t of
        None \<Rightarrow> (t, False)
      | Some m \<Rightarrow>
          (let known_agent = effective_known_agent lower t;
               knd = managed_kind m;
               observed = (case managed_phase m of
                   MPending _ _ obs \<Rightarrow> obs \<or> known_agent = Some knd
                 | _ \<Rightarrow> False);
               clear = (process_exited
                 \<or> is_some_and known_agent (\<lambda>a. a \<noteq> knd)
                 \<or> (case managed_phase m of MPending _ _ _ \<Rightarrow> True | _ \<Rightarrow> False) \<and> observed \<and> known_agent = None);
               active = (\<lambda>t. t\<lparr>managed_agent := Some \<lparr>managed_kind = knd, managed_phase = MActive\<rparr>,
                               managed_agent_launch_session := None\<rparr>)
           in if clear then (clear_agent_name t, True)
              else (case managed_phase m of
                 MBlocked \<Rightarrow> if managed_ready lower t knd then (active t, True) else (t, False)
               | MPending ready_after deadline previous_observed \<Rightarrow>
                   if known_agent = Some knd \<and> state t = Blocked
                   then (t\<lparr>managed_agent := Some \<lparr>managed_kind = knd, managed_phase = MBlocked\<rparr>\<rparr>, True)
                   else if now \<ge> deadline then (clear_agent_name t, True)
                   else if is_none_or ready_after (\<lambda>r. now \<ge> r) \<and> managed_ready lower t knd then (active t, True)
                   else if is_none_or ready_after (\<lambda>r. now \<ge> r) \<and> ready_after \<noteq> None
                   then (t\<lparr>managed_agent := Some \<lparr>managed_kind = knd,
                           managed_phase = MPending None deadline observed\<rparr>\<rparr>, True)
                   else if observed \<noteq> previous_observed
                   then (t\<lparr>managed_agent := Some \<lparr>managed_kind = knd,
                           managed_phase = MPending ready_after deadline observed\<rparr>\<rparr>, True)
                   else (t, False)
               | MActive \<Rightarrow> (t, False))))"

definition restore_managed_agent ::
    "(string \<Rightarrow> string) \<Rightarrow> 'q terminal_state \<Rightarrow> string \<Rightarrow> agent \<Rightarrow> bool \<Rightarrow> 'q terminal_state" where
  "restore_managed_agent lower t name knd name_is_user_set =
     (set_agent_name lower t name)
       \<lparr>agent_name_is_user_set := name_is_user_set,
        agent_name_owner := Some \<lparr>owner_agent_label = agent_label knd, owner_session_ref = None\<rparr>,
        managed_agent := Some \<lparr>managed_kind = knd, managed_phase = MActive\<rparr>\<rparr>"

definition clear_agent_runtime_identity_after_respawn :: "'q terminal_state \<Rightarrow> 'q terminal_state" where
  "clear_agent_runtime_identity_after_respawn t =
     clear_agent_name (t\<lparr>detected_agent := None, fallback_state := Unknown, fallback_visible_blocker := False,
       fallback_observed_at := None, hook_authority := None, persisted_agent_session := None,
       agent_metadata := [], metadata_report_agents := [],
       suppressed_full_lifecycle_hook_reports := [], stale_full_lifecycle_hook_sessions := [],
       state := Unknown, last_agent_state_change_seq := None, last_agent_completion_seq := None,
       launch_argv := None, respawn_shell_on_exit := False, recent_agent_process_exit := None,
       agent_process_acquisition_pending := False, pending_agent_resume_plan := None,
       pending_resume_wait_deadline := None, pending_resume_wait_for_owner := False\<rparr>)"

subsection \<open>Reported resume commands\<close>

definition can_record_reported_resume :: "(string \<Rightarrow> string) \<Rightarrow> 'q terminal_state \<Rightarrow> string \<Rightarrow> string \<Rightarrow> bool" where
  "can_record_reported_resume lower t src label =
     (case hook_authority t of
        Some a \<Rightarrow> ha_source a = src \<and> ha_agent_label a = label
      | None \<Rightarrow>
          recent_agent_process_exit t = None \<and> detected_agent t \<noteq> None
          \<and> parse_agent_label lower label = detected_agent t)"

definition record_reported_resume ::
    "(string \<Rightarrow> string) \<Rightarrow> 'q terminal_state \<Rightarrow> string \<Rightarrow> string \<Rightarrow> u64 option \<Rightarrow> string list \<Rightarrow> 'q terminal_state \<times> bool" where
  "record_reported_resume lower t src label seq argv =
     (if \<not> can_record_reported_resume lower t src label then (t, False)
      else
        (let t1 = (case seq of
               Some s \<Rightarrow> t\<lparr>hook_report_sequences := hm_insert src
                   (case hm_get (hook_report_sequences t) src of Some l \<Rightarrow> max l s | None \<Rightarrow> s)
                   (hook_report_sequences t)\<rparr>
             | None \<Rightarrow> t);
             resume = \<lparr>rr_source = src, rr_agent = label, rr_argv = argv\<rparr>
         in if reported_resume t1 = Some resume then (t1, False)
            else (set_reported_resume t1 (Some resume), True)))"

definition reconcile_reported_resume :: "'q terminal_state \<Rightarrow> 'q terminal_state" where
  "reconcile_reported_resume t =
     (case reported_resume t of
        None \<Rightarrow> t
      | Some resume \<Rightarrow>
          (let other_authority = is_some_and (hook_authority t)
                 (\<lambda>a. ha_source a \<noteq> rr_source resume \<or> ha_agent_label a \<noteq> rr_agent resume);
               other_process = is_some_and (detected_agent t) (\<lambda>a. agent_label a \<noteq> rr_agent resume)
           in if other_authority \<or> other_process then set_reported_resume t None else t))"

definition restore_reported_resume :: "'q terminal_state \<Rightarrow> reported_agent_resume \<Rightarrow> 'q terminal_state" where
  "restore_reported_resume t resume = set_reported_resume t (Some resume)"

end
