(* ===== verification/Terminal_Metadata.thy ===== *)
theory Terminal_Metadata
  imports Terminal_State
begin

text \<open>
  Metadata reports of a terminal (\<^verbatim>\<open>runtime/src/terminal/metadata.rs\<close>): titles, display names and
  state labels that integrations attach, their expiry, and the acceptance of numbered reports.
\<close>

subsection \<open>Operations\<close>

record agent_metadata_report =
  rep_source :: string
  rep_agent_label :: "string option"
  rep_applies_to_source :: "string option"
  rep_title :: "string option"
  rep_display_agent :: "string option"
  rep_state_labels :: "(string, string) hmap"
  rep_clear_title :: bool
  rep_clear_display_agent :: bool
  rep_clear_state_labels :: bool
  rep_ttl :: "duration option"
  rep_seq :: "u64 option"

definition metadata_report_sequence_is_fresh :: "'q terminal_state \<Rightarrow> string \<Rightarrow> u64 option \<Rightarrow> bool" where
  "metadata_report_sequence_is_fresh t src seq = sequence_is_fresh (metadata_report_sequences t) src seq"

definition metadata_report_agent ::
    "(string \<Rightarrow> string) \<Rightarrow> string \<Rightarrow> string option \<Rightarrow> string option \<Rightarrow> agent option" where
  "metadata_report_agent lower src label applies_to_source =
     or_else (Option.bind label (parse_agent_label lower))
       (find (\<lambda>a. is_official_agent_source src (agent_label a)
          \<or> is_some_and applies_to_source (\<lambda>s. is_official_agent_source s (agent_label a))) ALL_AGENTS)"

definition metadata_report_blocked_by_process_exit ::
    "(string \<Rightarrow> string) \<Rightarrow> 'q terminal_state \<Rightarrow> string \<Rightarrow> string option \<Rightarrow> string option \<Rightarrow> bool" where
  "metadata_report_blocked_by_process_exit lower t src label applies_to_source =
     (case recent_agent_process_exit t of
        None \<Rightarrow> False
      | Some exit \<Rightarrow>
          (let exited = agent_label (exit_agent exit)
           in Option.bind label (parse_agent_label lower) = Some (exit_agent exit)
              \<or> is_official_agent_source src exited
              \<or> is_some_and applies_to_source (\<lambda>s. is_official_agent_source s exited)))"

definition accept_metadata_report ::
    "'q terminal_state \<Rightarrow> string \<Rightarrow> u64 option \<Rightarrow> bool \<Rightarrow> agent option \<Rightarrow> 'q terminal_state \<times> (unit + bool)" where
  "accept_metadata_report t src seq includes_tokens agnt =
     (case seq of
        None \<Rightarrow> (t, Inr True)
      | Some s \<Rightarrow>
          if \<not> metadata_report_sequence_is_fresh t src (Some s) then (t, Inr False)
          else if includes_tokens \<and> src \<notin> set (metadata_token_sequence_sources t)
            \<and> length (metadata_token_sequence_sources t) \<ge> MAX_SEQUENCE_SOURCES
          then (t, Inl ())
          else
            (t\<lparr>metadata_report_sequences := hm_insert src s (metadata_report_sequences t),
               metadata_report_agents := (case agnt of
                   Some a \<Rightarrow> hm_insert src a (metadata_report_agents t)
                 | None \<Rightarrow> metadata_report_agents t),
               metadata_token_sequence_sources :=
                 (if includes_tokens then List.insert src (metadata_token_sequence_sources t)
                  else metadata_token_sequence_sources t)\<rparr>, Inr True))"

text \<open>A report that clears a field edits the stored metadata of its source; any other report replaces it.\<close>

definition patch_metadata :: "agent_metadata_report \<Rightarrow> instant \<Rightarrow> agent_metadata option \<Rightarrow> agent_metadata" where
  "patch_metadata report now stored =
     (let has_set_fields = (rep_title report \<noteq> None \<or> rep_display_agent report \<noteq> None \<or> rep_state_labels report \<noteq> []);
          md0 = (case stored of
              Some md \<Rightarrow> md
            | None \<Rightarrow> \<lparr>md_source = rep_source report, md_agent_label = rep_agent_label report,
                md_applies_to_source = rep_applies_to_source report, md_title = None, md_display_agent = None,
                md_state_labels = [], md_reported_at = now, md_title_reported_at = None,
                md_display_agent_reported_at = None, md_state_label_reported_at = [],
                md_ttl = rep_ttl report, md_expiry_event_pending = False\<rparr>);
          md1 = (if rep_clear_title report then md0\<lparr>md_title := None, md_title_reported_at := None\<rparr> else md0);
          md2 = (if rep_clear_display_agent report
            then md1\<lparr>md_display_agent := None, md_display_agent_reported_at := None\<rparr> else md1);
          md3 = (if rep_clear_state_labels report
            then md2\<lparr>md_state_labels := [], md_state_label_reported_at := []\<rparr> else md2);
          md4 = (case rep_agent_label report of Some l \<Rightarrow> md3\<lparr>md_agent_label := Some l\<rparr> | None \<Rightarrow> md3);
          md5 = (case rep_applies_to_source report of Some s \<Rightarrow> md4\<lparr>md_applies_to_source := Some s\<rparr> | None \<Rightarrow> md4);
          md6 = (case rep_title report of
              Some v \<Rightarrow> md5\<lparr>md_title := Some v, md_title_reported_at := Some now\<rparr> | None \<Rightarrow> md5);
          md7 = (case rep_display_agent report of
              Some v \<Rightarrow> md6\<lparr>md_display_agent := Some v, md_display_agent_reported_at := Some now\<rparr> | None \<Rightarrow> md6);
          md8 = foldl (\<lambda>md (st, label).
            md\<lparr>md_state_labels := hm_insert st label (md_state_labels md),
               md_state_label_reported_at := hm_insert st now (md_state_label_reported_at md)\<rparr>)
            md7 (rep_state_labels report)
      in if has_set_fields \<or> rep_ttl report \<noteq> None
         then md8\<lparr>md_reported_at := now, md_ttl := rep_ttl report, md_expiry_event_pending := False\<rparr> else md8)"

definition replace_metadata :: "agent_metadata_report \<Rightarrow> instant \<Rightarrow> agent_metadata" where
  "replace_metadata report now =
     \<lparr>md_source = rep_source report, md_agent_label = rep_agent_label report,
      md_applies_to_source = rep_applies_to_source report, md_title = rep_title report,
      md_display_agent = rep_display_agent report, md_state_labels = rep_state_labels report,
      md_reported_at = now, md_title_reported_at = map_option (\<lambda>_. now) (rep_title report),
      md_display_agent_reported_at = map_option (\<lambda>_. now) (rep_display_agent report),
      md_state_label_reported_at = map (\<lambda>(st, _). (st, now)) (rep_state_labels report),
      md_ttl = rep_ttl report, md_expiry_event_pending = False\<rparr>"

definition set_agent_metadata ::
    "(string \<Rightarrow> string) \<Rightarrow> 'q terminal_state \<Rightarrow> agent_metadata_report \<Rightarrow> instant \<Rightarrow>
     'q terminal_state \<times> terminal_state_mutation option" where
  "set_agent_metadata lower t report now =
     (if metadata_report_blocked_by_process_exit lower t (rep_source report) (rep_agent_label report)
           (rep_applies_to_source report)
      then (t, None)
      else
        (case accept_metadata_report t (rep_source report) (rep_seq report) False
                (metadata_report_agent lower (rep_source report) (rep_agent_label report) (rep_applies_to_source report)) of
           (t1, Inr True) \<Rightarrow>
             (let src = rep_source report;
                  t2 = (if is_some_and (hm_get (agent_metadata t1) src) (\<lambda>md. agent_metadata_is_expired md now)
                    then t1\<lparr>agent_metadata := hm_remove src (agent_metadata t1)\<rparr> else t1);
                  md = (if rep_clear_title report \<or> rep_clear_display_agent report \<or> rep_clear_state_labels report
                    then patch_metadata report now (hm_get (agent_metadata t2) src)
                    else replace_metadata report now);
                  t3 = t2\<lparr>agent_metadata := hm_insert src md (agent_metadata t2)\<rparr>;
                  t4 = (if rep_ttl report \<noteq> None
                      \<and> is_some_and (hm_get (agent_metadata t3) src) (agent_metadata_is_visible_ignoring_ttl lower t3)
                    then t3\<lparr>agent_metadata := hm_insert src (md\<lparr>md_expiry_event_pending := True\<rparr>) (agent_metadata t3)\<rparr>
                    else t3)
              in case recompute_from lower t2 now t4 of (t5, change) \<Rightarrow>
                   (if change \<noteq> None then clear_expiry_pending_for_hidden_metadata lower t5 else t5,
                    Some \<lparr>mut_effective_state_change = change, mut_session_ref_changed = False,
                      mut_agent_released = False\<rparr>))
         | (t1, _) \<Rightarrow> (t1, None)))"

definition next_agent_metadata_expiry :: "(string \<Rightarrow> string) \<Rightarrow> 'q terminal_state \<Rightarrow> instant \<Rightarrow> instant option" where
  "next_agent_metadata_expiry lower t now =
     (let mds = map snd (agent_metadata t)
      in opt_min (filter (\<lambda>deadline.
           deadline > now
           \<or> list_ex (\<lambda>md. md_expiry_event_pending md \<and> agent_metadata_matches_guards lower t md
               \<and> agent_metadata_expiry md = Some deadline) mds)
           (List.map_filter agent_metadata_expiry (filter (agent_metadata_matches_guards lower t) mds))))"

definition expire_agent_metadata_at ::
    "(string \<Rightarrow> string) \<Rightarrow> 'q terminal_state \<Rightarrow> instant \<Rightarrow> instant \<Rightarrow> 'q terminal_state \<times> terminal_state_mutation option" where
  "expire_agent_metadata_at lower t scheduled_deadline now =
     (let due = List.map_filter (\<lambda>(src, md).
            case agent_metadata_expiry md of
              Some d \<Rightarrow> if d \<le> now then Some (src, d) else None
            | None \<Rightarrow> None) (agent_metadata t);
          expired = map fst (filter (\<lambda>(_, d). d \<ge> scheduled_deadline) due);
          stale = map fst (filter (\<lambda>(_, d). \<not> d \<ge> scheduled_deadline) due);
          t1 = t\<lparr>agent_metadata := fold hm_remove stale (agent_metadata t)\<rparr>
      in if expired = [] then (t1, None)
         else
           (let t2 = t1\<lparr>agent_metadata := fold hm_remove expired (agent_metadata t1)\<rparr>
            in case recompute_effective_state lower t2 (effective_agent_label lower t1)
                      (effective_known_agent lower t1) (state t1)
                      (effective_presentation_with_ttl lower t1 now False) now of
                 (t3, change) \<Rightarrow>
                   (t3, Some \<lparr>mut_effective_state_change = change, mut_session_ref_changed = False,
                      mut_agent_released = False\<rparr>)))"

end
