(* ===== verification/Terminal_Theorems.thy ===== *)
theory Terminal_Theorems
  imports Terminal_Metadata
begin

text \<open>
  What the terminal state promises: its published state is always the arbitration of hook authority
  and screen detection, reports out of order or out of their session are ignored, a live
  full-lifecycle integration is not overridden by the screen, a process exit leaves nothing of the
  agent behind, managed agents settle before their deadline, and a handoff keeps the authority.
\<close>

named_theorems frame_simps \<open>what the helpers leave unchanged\<close>

subsection \<open>What the readings depend on\<close>

lemma hook_authority_is_effective_cong:
  "detected_agent t = detected_agent u \<Longrightarrow> recent_agent_process_exit t = recent_agent_process_exit u \<Longrightarrow>
   hook_authority_is_effective lower t = hook_authority_is_effective lower u"
  by (simp add: hook_authority_is_effective_def fun_eq_iff)

lemma live_full_lifecycle_cong:
  "hook_authority t = hook_authority u \<Longrightarrow> detected_agent t = detected_agent u \<Longrightarrow>
   recent_agent_process_exit t = recent_agent_process_exit u \<Longrightarrow>
   live_full_lifecycle_hook_authority lower t = live_full_lifecycle_hook_authority lower u"
  using hook_authority_is_effective_cong [of t u lower]
  by (simp add: live_full_lifecycle_hook_authority_def)

lemma effective_agent_label_cong:
  "hook_authority t = hook_authority u \<Longrightarrow> detected_agent t = detected_agent u \<Longrightarrow>
   recent_agent_process_exit t = recent_agent_process_exit u \<Longrightarrow>
   effective_agent_label lower t = effective_agent_label lower u"
  using hook_authority_is_effective_cong [of t u lower]
  by (simp add: effective_agent_label_def)

lemma effective_state_cong:
  assumes "hook_authority t = hook_authority u" and "detected_agent t = detected_agent u"
    and "recent_agent_process_exit t = recent_agent_process_exit u"
    and "fallback_state t = fallback_state u" and "fallback_visible_blocker t = fallback_visible_blocker u"
    and "fallback_observed_at t = fallback_observed_at u"
  shows "effective_state lower t = effective_state lower u"
  using assms hook_authority_is_effective_cong [of t u lower] live_full_lifecycle_cong [of t u lower]
  by (simp add: effective_state_def visible_blocker_overrides_hook_def fallback_not_older_than_hook_def split: option.split)

subsection \<open>Recomputing\<close>

definition settle :: "(string \<Rightarrow> string) \<Rightarrow> 'q terminal_state \<Rightarrow> 'q terminal_state" where
  "settle lower t = (clear_expiry_pending_for_hidden_metadata lower t)\<lparr>state := effective_state lower t\<rparr>"

definition coherent :: "(string \<Rightarrow> string) \<Rightarrow> 'q terminal_state \<Rightarrow> bool" where
  "coherent lower t \<longleftrightarrow> state t = effective_state lower t"

lemma recompute_settles: "state t = st \<Longrightarrow> fst (recompute_effective_state lower t l k st p now) = settle lower t"
  by (auto simp: recompute_effective_state_def Let_def settle_def clear_expiry_pending_for_hidden_metadata_def)

lemma recompute_from_settles [frame_simps]:
  "state t = state prev \<Longrightarrow> fst (recompute_from lower prev now t) = settle lower t"
  by (simp add: recompute_from_def recompute_settles)

lemma settle_fields [frame_simps]:
  "hook_authority (settle lower t) = hook_authority t"
  "detected_agent (settle lower t) = detected_agent t"
  "recent_agent_process_exit (settle lower t) = recent_agent_process_exit t"
  "fallback_state (settle lower t) = fallback_state t"
  "fallback_visible_blocker (settle lower t) = fallback_visible_blocker t"
  "fallback_observed_at (settle lower t) = fallback_observed_at t"
  "persisted_agent_session (settle lower t) = persisted_agent_session t"
  "suppressed_full_lifecycle_hook_reports (settle lower t) = suppressed_full_lifecycle_hook_reports t"
  "stale_full_lifecycle_hook_sessions (settle lower t) = stale_full_lifecycle_hook_sessions t"
  "hook_report_sequences (settle lower t) = hook_report_sequences t"
  "reported_resume (settle lower t) = reported_resume t"
  "reported_resume_revision (settle lower t) = reported_resume_revision t"
  "agent_name (settle lower t) = agent_name t"
  "managed_agent (settle lower t) = managed_agent t"
  "agent_process_acquisition_pending (settle lower t) = agent_process_acquisition_pending t"
  "metadata_report_sequences (settle lower t) = metadata_report_sequences t"
  "metadata_report_agents (settle lower t) = metadata_report_agents t"
  "state (settle lower t) = effective_state lower t"
  by (simp_all add: settle_def clear_expiry_pending_for_hidden_metadata_def)

lemma settle_effective: "effective_state lower (settle lower t) = effective_state lower t"
  by (rule effective_state_cong) (simp_all add: frame_simps)

lemma settle_coherent: "coherent lower (settle lower t)"
  by (simp add: coherent_def settle_effective frame_simps)

text \<open>
  Two views of a terminal: what the arbitration reads, and the reported resume command with its
  revision.  A helper that keeps a view keeps everything that depends on it.
\<close>

definition core where
  "core t = (hook_authority t, detected_agent t, recent_agent_process_exit t, fallback_state t,
     fallback_visible_blocker t, fallback_observed_at t, state t)"

definition resume_view where
  "resume_view t = (reported_resume t, reported_resume_revision t)"

lemma core_effective_state: "core t = core u \<Longrightarrow> effective_state lower t = effective_state lower u"
  by (rule effective_state_cong) (simp_all add: core_def)

lemma core_coherent: "core t = core u \<Longrightarrow> coherent lower t = coherent lower u"
  using core_effective_state [of t u lower] by (simp add: coherent_def core_def)

lemma core_state: "core t = core u \<Longrightarrow> state t = state u"
  by (simp add: core_def)

lemma core_hook: "core t = core u \<Longrightarrow> hook_authority t = hook_authority u"
  by (simp add: core_def)

subsection \<open>Frames of the helpers\<close>

lemma reconcile_frame [frame_simps]:
  "core (reconcile_agent_name_owner lower t l r) = core t"
  "resume_view (reconcile_agent_name_owner lower t l r) = resume_view t"
  by (simp_all add: reconcile_agent_name_owner_def core_def resume_view_def split: option.splits)

lemma clear_agent_name_frame [frame_simps]:
  "core (clear_agent_name t) = core t"
  "resume_view (clear_agent_name t) = resume_view t"
  by (simp_all add: clear_agent_name_def core_def resume_view_def)

lemma set_reported_resume_frame [frame_simps]:
  "core (set_reported_resume t r) = core t"
  by (simp add: set_reported_resume_def core_def)

lemma forget_reported_resume_frame [frame_simps]:
  "core (forget_reported_resume_of t src l) = core t"
  by (simp add: forget_reported_resume_of_def set_reported_resume_def core_def)

lemma suppress_frame [frame_simps]:
  "core (suppress_full_lifecycle_hook_report_with_session_ref t src l r reason at) = core t"
  "resume_view (suppress_full_lifecycle_hook_report_with_session_ref t src l r reason at) = resume_view t"
  "core (suppress_current_full_lifecycle_hook_authority t reason at) = core t"
  "resume_view (suppress_current_full_lifecycle_hook_authority t reason at) = resume_view t"
  "core (suppress_full_lifecycle_hook_report t src l reason at) = core t"
  "resume_view (suppress_full_lifecycle_hook_report t src l reason at) = resume_view t"
  by (simp_all add: suppress_full_lifecycle_hook_report_with_session_ref_def
      suppress_current_full_lifecycle_hook_authority_def suppress_full_lifecycle_hook_report_def
      core_def resume_view_def split: option.splits)

lemma stale_frame [frame_simps]:
  "core (remember_stale_full_lifecycle_hook_session t src l r) = core t"
  "resume_view (remember_stale_full_lifecycle_hook_session t src l r) = resume_view t"
  "core (forget_stale_full_lifecycle_hook_session t src l r) = core t"
  "resume_view (forget_stale_full_lifecycle_hook_session t src l r) = resume_view t"
  by (simp_all add: remember_stale_full_lifecycle_hook_session_def
      forget_stale_full_lifecycle_hook_session_def Let_def core_def resume_view_def split: option.splits)

lemma remember_stale_sessions_frame [frame_simps]:
  "core (remember_stale_sessions stales t) = core t"
  "resume_view (remember_stale_sessions stales t) = resume_view t"
  unfolding remember_stale_sessions_def
  by (induction stales arbitrary: t) (auto simp: frame_simps)

lemma accept_hook_report_frame [frame_simps]:
  "core (fst (accept_hook_report t src seq)) = core t"
  "resume_view (fst (accept_hook_report t src seq)) = resume_view t"
  by (simp_all add: accept_hook_report_def core_def resume_view_def split: option.splits)

lemma queue_frame [frame_simps]:
  "core (queue_pending_report t src l st msg r seq at) = core t"
  "resume_view (queue_pending_report t src l st msg r seq at) = resume_view t"
  "core (queue_selection t src l r at) = core t"
  "resume_view (queue_selection t src l r at) = resume_view t"
  by (simp_all add: queue_pending_report_def queue_selection_def Let_def core_def resume_view_def)

lemma route_frame [frame_simps]:
  "core (fst (route_full_lifecycle_hook_report lower t src l st msg r seq at)) = core t"
  "resume_view (fst (route_full_lifecycle_hook_report lower t src l st msg r seq at)) = resume_view t"
  by (simp_all add: route_full_lifecycle_hook_report_def Let_def frame_simps split: option.split)

lemma settle_views [frame_simps]:
  "core (settle lower t) = (case core t of (h, d, e, f, b, o', s) \<Rightarrow> (h, d, e, f, b, o', effective_state lower t))"
  "resume_view (settle lower t) = resume_view t"
  by (simp_all add: core_def resume_view_def frame_simps)

text \<open>Updates of the tables and of the flags the arbitration does not read.\<close>

lemma update_views [frame_simps]:
  "core (t\<lparr>hook_report_sequences := x1\<rparr>) = core t"
  "resume_view (t\<lparr>hook_report_sequences := x1\<rparr>) = resume_view t"
  "core (t\<lparr>suppressed_full_lifecycle_hook_reports := x2\<rparr>) = core t"
  "resume_view (t\<lparr>suppressed_full_lifecycle_hook_reports := x2\<rparr>) = resume_view t"
  "core (t\<lparr>agent_process_acquisition_pending := x3\<rparr>) = core t"
  "resume_view (t\<lparr>agent_process_acquisition_pending := x3\<rparr>) = resume_view t"
  "core (t\<lparr>persisted_agent_session := x4\<rparr>) = core t"
  "resume_view (t\<lparr>persisted_agent_session := x4\<rparr>) = resume_view t"
  "core (t\<lparr>managed_agent := x5\<rparr>) = core t"
  "resume_view (t\<lparr>managed_agent := x5\<rparr>) = resume_view t"
  "core (t\<lparr>managed_agent_launch_session := x6\<rparr>) = core t"
  "resume_view (t\<lparr>managed_agent_launch_session := x6\<rparr>) = resume_view t"
  "core (t\<lparr>codex_prompt_ready := x7\<rparr>) = core t"
  "resume_view (t\<lparr>codex_prompt_ready := x7\<rparr>) = resume_view t"
  "core (t\<lparr>agent_metadata := x8\<rparr>) = core t"
  "resume_view (t\<lparr>agent_metadata := x8\<rparr>) = resume_view t"
  "resume_view (t\<lparr>hook_authority := x9\<rparr>) = resume_view t"
  "resume_view (t\<lparr>detected_agent := x10\<rparr>) = resume_view t"
  by (simp_all add: core_def resume_view_def)

lemma retire_frame [frame_simps]:
  "core (retire_suppressed_report t src) = core t"
  "resume_view (retire_suppressed_report t src) = resume_view t"
  by (simp_all add: retire_suppressed_report_def Let_def frame_simps split: option.split)

lemmas state_frames [frame_simps] =
  reconcile_frame(1) [THEN core_state] clear_agent_name_frame(1) [THEN core_state]
  set_reported_resume_frame(1) [THEN core_state] forget_reported_resume_frame(1) [THEN core_state]
  suppress_frame(1) [THEN core_state] suppress_frame(3) [THEN core_state] suppress_frame(5) [THEN core_state]
  stale_frame(1) [THEN core_state] stale_frame(3) [THEN core_state]
  remember_stale_sessions_frame(1) [THEN core_state] accept_hook_report_frame(1) [THEN core_state]
  queue_frame(1) [THEN core_state] queue_frame(3) [THEN core_state] route_frame(1) [THEN core_state] retire_frame(1) [THEN core_state]

lemma recompute_coherent:
  "state u = state prev \<Longrightarrow> coherent lower (fst (recompute_from lower prev now u))"
  by (simp add: recompute_from_settles settle_coherent)

lemma recompute_coherent_acquired:
  "state u = state prev \<Longrightarrow>
   coherent lower ((fst (recompute_from lower prev now u))\<lparr>agent_process_acquisition_pending := b\<rparr>)"
  using recompute_coherent [of u prev lower now] core_coherent update_views(5) by blast

subsection \<open>Every operation publishes the arbitrated state\<close>

lemma install_hook_authority_outcome:
  obtains t4 where "hook_authority t4 = Some \<lparr>ha_source = src, ha_agent_label = l, ha_state = st, ha_message = msg,
        ha_reported_at = now, ha_session_ref = r\<rparr>"
    and "core t4 = (hook_authority t4, detected_agent t, recent_agent_process_exit t, fallback_state t,
        fallback_visible_blocker t, fallback_observed_at t, state t)"
    and "persisted_agent_session t4 = None" and "resume_view t4 = resume_view t"
    and "install_hook_authority lower t src l st msg r tk re now clock =
      (if st = Working \<and> effective_state lower t4 = Working
       then (settle lower t4)\<lparr>agent_process_acquisition_pending := False\<rparr> else settle lower t4,
       \<lparr>mut_effective_state_change = snd (recompute_from lower t now t4),
        mut_session_ref_changed =
          (current_session_identity_for_persistence t \<noteq> current_session_identity_for_persistence t4),
        mut_agent_released = False\<rparr>)"
proof -
  define t3 where "t3 = (let t1 = reconcile_agent_name_owner lower t l r;
      t2 = (if tk then suppress_current_full_lifecycle_hook_authority t1 HookClear clock else t1)
    in if r \<noteq> None \<or> re then retire_suppressed_report t2 src else t2)"
  define t4 where "t4 = t3\<lparr>persisted_agent_session := None,
    hook_authority := Some \<lparr>ha_source = src, ha_agent_label = l, ha_state = st, ha_message = msg,
        ha_reported_at = now, ha_session_ref = r\<rparr>\<rparr>"
  have c: "core t3 = core t" "resume_view t3 = resume_view t"
    by (simp_all add: t3_def Let_def frame_simps)
  then have st: "state t4 = state t" by (simp add: t4_def core_def)
  have "install_hook_authority lower t src l st msg r tk re now clock =
      (if st = Working \<and> effective_state lower t4 = Working
       then (settle lower t4)\<lparr>agent_process_acquisition_pending := False\<rparr> else settle lower t4,
       \<lparr>mut_effective_state_change = snd (recompute_from lower t now t4),
        mut_session_ref_changed =
          (current_session_identity_for_persistence t \<noteq> current_session_identity_for_persistence t4),
        mut_agent_released = False\<rparr>)"
    unfolding install_hook_authority_def Let_def split_beta
    unfolding t3_def [unfolded Let_def, symmetric] t4_def [symmetric]
    by (simp add: frame_simps st)
  moreover have "core t4 = (hook_authority t4, detected_agent t, recent_agent_process_exit t, fallback_state t,
        fallback_visible_blocker t, fallback_observed_at t, state t)"
    using c(1) by (simp add: t4_def core_def)
  moreover have "resume_view t4 = resume_view t"
    using c(2) by (simp add: t4_def resume_view_def)
  ultimately show thesis by (intro that [of t4]) (simp_all add: t4_def)
qed

lemma install_hook_authority_coherent:
  "coherent lower (fst (install_hook_authority lower t src l st msg r tk re now clock))"
  by (rule install_hook_authority_outcome [of src l st msg now r t lower tk re clock])
     (auto simp: settle_coherent core_coherent [OF update_views(5)])

text \<open>
  The outcomes of a hook report: ignored, or installed after passing every guard.
\<close>

lemma commit_hook_report_outcome:
  obtains (stale) t2 where "commit_hook_report lower t src l st msg r seq re now clock = (t2, None)"
      and "core t2 = core t" and "resume_view t2 = resume_view t"
  | (accepted) t1 t2 where
      "t1 = (if re then t\<lparr>hook_report_sequences := hm_remove src (hook_report_sequences t)\<rparr> else t)"
      and "accept_hook_report t1 src seq = (t2, True)"
      and "core t2 = core t" and "resume_view t2 = resume_view t"
      and "commit_hook_report lower t src l st msg r seq re now clock =
         map_prod (\<lambda>x. x) Some (install_hook_authority lower t2 src l st msg (accepted_session_ref t src l r)
           (takeover_by_hook_report lower t src l r) re now clock)"
proof -
  define t1 where "t1 = (if re then t\<lparr>hook_report_sequences := hm_remove src (hook_report_sequences t)\<rparr> else t)"
  obtain t2 ok where acc: "accept_hook_report t1 src seq = (t2, ok)" by fastforce
  have v1: "core t1 = core t" "resume_view t1 = resume_view t" by (simp_all add: t1_def update_views)
  have v2: "core t2 = core t" "resume_view t2 = resume_view t"
    using accept_hook_report_frame [of t1 src seq] unfolding acc v1 by simp_all
  have op: "commit_hook_report lower t src l st msg r seq re now clock =
      (if \<not> ok then (t2, None)
       else map_prod (\<lambda>x. x) Some (install_hook_authority lower t2 src l st msg (accepted_session_ref t src l r)
           (takeover_by_hook_report lower t src l r) re now clock))"
    unfolding commit_hook_report_def Let_def t1_def [symmetric] acc by simp
  show thesis
  proof (cases ok)
    case True
    with op acc v2 show thesis by (intro accepted [OF t1_def, of t2]) simp_all
  next
    case False
    with op v2 show thesis by (intro stale [of t2]) simp_all
  qed
qed

lemma set_hook_authority_outcome:
  obtains (ignored) t' where "set_hook_authority_at lower t src l st msg r seq now clock = (t', None)"
      and "core t' = core t" and "resume_view t' = resume_view t"
  | (committed) t1 re where
      "route_full_lifecycle_hook_report lower t src l st msg r seq now = (t1, Accept re)"
      and "core t1 = core t" and "resume_view t1 = resume_view t"
      and "\<not> session_identity_only_integration src l" and "\<not> hook_report_refused lower t1 src l r"
      and "set_hook_authority_at lower t src l st msg r seq now clock =
         commit_hook_report lower t1 src l st msg r seq re now clock"
proof -
  obtain t1 route where route: "route_full_lifecycle_hook_report lower t src l st msg r seq now = (t1, route)"
    by fastforce
  then have v1: "core t1 = core t" "resume_view t1 = resume_view t"
    using route_frame [of lower t src l st msg r seq now] by simp_all
  show thesis
  proof (cases "session_identity_only_integration src l \<or>
      \<not> full_lifecycle_hook_authority src l
        \<and> is_some_and (recent_agent_process_exit t) (\<lambda>exit. parse_agent_label lower l = Some (exit_agent exit))")
    case True
    then show thesis by (intro ignored [of t]) (auto simp: set_hook_authority_at_def)
  next
    case guards: False
    show thesis
    proof (cases "\<exists>re. route = Accept re \<and> \<not> hook_report_refused lower t1 src l r")
      case True
      then obtain re where re: "route = Accept re" "\<not> hook_report_refused lower t1 src l r" by blast
      with guards route v1 show thesis
        by (intro committed [of t1 re]) (auto simp: set_hook_authority_at_def)
    next
      case False
      with guards route v1 show thesis
        by (intro ignored [of t1]) (auto simp: set_hook_authority_at_def split: hook_report_route.split)
    qed
  qed
qed

lemma coherentI: "core t = core u \<Longrightarrow> coherent lower u \<Longrightarrow> coherent lower t"
  using core_coherent by blast

lemma commit_hook_report_coherent:
  assumes "coherent lower t"
  shows "coherent lower (fst (commit_hook_report lower t src l st msg r seq re now clock))"
  by (rule commit_hook_report_outcome [of lower t src l st msg r seq re now clock])
     (auto simp: install_hook_authority_coherent intro: coherentI [OF _ assms])

lemma set_hook_authority_coherent:
  assumes "coherent lower t"
  shows "coherent lower (fst (set_hook_authority_at lower t src l st msg r seq now clock))"
proof (cases rule: set_hook_authority_outcome [of lower t src l st msg r seq now clock])
  case (ignored t')
  then show ?thesis using assms by (simp add: coherentI)
next
  case (committed t1 re)
  then show ?thesis using assms by (simp add: commit_hook_report_coherent coherentI [of t1 t])
qed

lemma apply_validated_frame [frame_simps]:
  "state (apply_validated_replacement lower t v) = state t"
  "resume_view (apply_validated_replacement lower t v) = resume_view t"
  by (simp_all add: apply_validated_replacement_def Let_def frame_simps split: prod.split option.split)

lemma fold_validated_frame [frame_simps]:
  "state (foldl (apply_validated_replacement lower) t vs) = state t"
  "resume_view (foldl (apply_validated_replacement lower) t vs) = resume_view t"
  by (induction vs arbitrary: t) (simp_all add: frame_simps)

lemma clear_suppression_frame [frame_simps]:
  "state (clear_full_lifecycle_hook_suppression_for_detected_agent lower t p d) = state t"
  "resume_view (clear_full_lifecycle_hook_suppression_for_detected_agent lower t p d) = resume_view t"
  by (simp_all add: clear_full_lifecycle_hook_suppression_for_detected_agent_def Let_def frame_simps split: option.split)

lemma queue_session_start_coherent:
  assumes "coherent lower t"
  shows "coherent lower (fst (queue_session_start lower t src l r s pres now))"
proof -
  have core: "core (t\<lparr>suppressed_full_lifecycle_hook_reports := x, hook_report_sequences := y\<rparr>) = core t" for x y
    by (simp add: core_def)
  show ?thesis
    unfolding queue_session_start_def Let_def split_beta
    by (auto intro!: coherentI [OF core assms] simp: settle_coherent frame_simps)
qed

lemma install_session_ref_state:
  "\<exists>u. state u = state t \<and> resume_view u = resume_view t
     \<and> fst (install_session_ref lower t src l r ra tk rep now clock) = settle lower u"
proof -
  define t3 where "t3 = (let t1 = (if codex_source src l \<and> ra
            \<and> is_some_and (hook_authority t) (\<lambda>a. ha_source a = src \<and> ha_agent_label a = l \<and> ha_session_ref a \<noteq> Some r)
            then t\<lparr>hook_authority := None\<rparr> else t);
          t2 = (if ra \<or> tk then forget_stale_full_lifecycle_hook_session t1 src l r else t1)
    in case rep of
         Some replaced \<Rightarrow> (remember_stale_full_lifecycle_hook_session t2 src l replaced)\<lparr>hook_authority := None\<rparr>
       | None \<Rightarrow> if tk then (suppress_current_full_lifecycle_hook_authority t2 HookClear clock)\<lparr>hook_authority := None\<rparr> else t2)"
  have t3: "state t3 = state t" "resume_view t3 = resume_view t"
    by (simp_all add: t3_def Let_def frame_simps split: option.split)
  define t7 where "t7 = (let t4 = reconcile_agent_name_owner lower t3 l (Some r);
      session = \<lparr>ps_source = src, ps_agent = l, ps_session_ref = r\<rparr>;
      t5 = (if managed_agent_launch_session t4 = Some session then t4\<lparr>managed_agent_launch_session := None\<rparr> else t4);
      t6 = t5\<lparr>persisted_agent_session := Some session\<rparr>
    in if current_session_identity_for_persistence t \<noteq> None
         \<and> current_session_identity_for_persistence t \<noteq> current_session_identity_for_persistence t6
       then t6\<lparr>agent_process_acquisition_pending := True\<rparr> else t6)"
  have t7: "state t7 = state t" "resume_view t7 = resume_view t"
    using t3 by (simp_all add: t7_def Let_def frame_simps)
  have "fst (install_session_ref lower t src l r ra tk rep now clock) = fst (recompute_from lower t now t7)"
    unfolding install_session_ref_def t7_def t3_def Let_def by (simp add: split_beta)
  with t7 show ?thesis by (auto simp: frame_simps)
qed

lemma commit_session_ref_coherent:
  assumes "coherent lower t"
  shows "coherent lower (fst (commit_session_ref lower t src l r seq start un pres now clock))"
proof -
  obtain t1 ok where acc: "(if un then (t, True) else accept_hook_report t src seq) = (t1, ok)" by fastforce
  then have "core t1 = core t" using accept_hook_report_frame(1) [of t src seq] by (auto split: if_splits)
  then have "coherent lower t1" using assms by (rule coherentI)
  with install_session_ref_state [of t1] show ?thesis
    unfolding commit_session_ref_def acc by (auto simp: settle_coherent dest: sym) (metis settle_coherent)
qed

lemma set_agent_session_ref_coherent:
  assumes "coherent lower t"
  shows "coherent lower (fst (set_agent_session_ref_for_session_start lower t src l r seq start now clock))"
  using assms coherentI [OF update_views(3) assms] coherentI [OF queue_frame(3) assms]
  by (auto simp: set_agent_session_ref_for_session_start_def Let_def commit_session_ref_coherent
      queue_session_start_coherent split: option.split)

lemma clear_hook_authority_coherent:
  assumes "coherent lower t"
  shows "coherent lower (fst (clear_hook_authority_with_mutation lower t src seq now clock))"
proof -
  obtain t1 ok where acc: "(case or_else src (map_option ha_source (hook_authority t)) of
      Some s \<Rightarrow> accept_hook_report t s seq | None \<Rightarrow> (t, True)) = (t1, ok)" by fastforce
  then have "core t1 = core t"
    using accept_hook_report_frame(1) [of t _ seq] by (auto split: option.splits) (metis accept_hook_report_frame(1) fst_conv)
  then have c1: "coherent lower t1" using assms by (rule coherentI)
  show ?thesis
    unfolding clear_hook_authority_with_mutation_def Let_def acc
    using c1 assms by (cases ok) (auto simp: split_beta frame_simps settle_coherent split: option.split)
qed

lemma release_agent_coherent:
  assumes "coherent lower t"
  shows "coherent lower (fst (release_agent_with_mutation lower t src l seq now clock))"
proof -
  obtain t1 ok where acc: "accept_hook_report t src seq = (t1, ok)" by fastforce
  then have "core t1 = core t" using accept_hook_report_frame(1) [of t src seq] by simp
  then have c1: "coherent lower t1" using assms by (rule coherentI)
  show ?thesis
    unfolding release_agent_with_mutation_def Let_def acc
    using c1 assms by (cases ok) (auto simp: split_beta frame_simps settle_coherent)
qed

lemma clear_self_reported_coherent:
  assumes "coherent lower t"
  shows "coherent lower (fst (clear_self_reported_agent lower t at now))"
  using assms by (auto simp: clear_self_reported_agent_def Let_def split_beta frame_simps settle_coherent)

lemma exit_frame [frame_simps]:
  "core (exit_suppressed_reports lower t a now) = core t"
  "resume_view (exit_suppressed_reports lower t a now) = resume_view t"
  "core (exit_metadata t b now) = core t"
  "resume_view (exit_metadata t b now) = resume_view t"
  by (simp_all add: exit_suppressed_reports_def exit_metadata_def Let_def frame_simps)
     (simp_all add: core_def resume_view_def)

lemmas exit_state_frames [frame_simps] =
  exit_frame(1) [THEN core_state] exit_frame(3) [THEN core_state]

lemma apply_process_exit_state [frame_simps]:
  "state (apply_process_exit lower t a nc now) = state t"
  by (auto simp: apply_process_exit_def Let_def frame_simps split: option.split)

lemma drop_conflicting_state [frame_simps]:
  "state (drop_conflicting_authority lower t a p now clock) = state t"
  "resume_view (drop_conflicting_authority lower t a p now clock) = resume_view t"
  by (simp_all add: drop_conflicting_authority_def Let_def frame_simps)

lemma detected_state_update_state [frame_simps]:
  "state (detected_state_update lower t a fb bl ex now clock) = state t"
  by (auto simp: detected_state_update_def Let_def frame_simps split: option.split)

lemma set_detected_state_coherent:
  "coherent lower (fst (set_detected_state_with_screen_signals_at lower t a fb bl vi vw ex now clock))"
  by (simp add: set_detected_state_with_screen_signals_at_def Let_def split_beta frame_simps settle_coherent
      coherentI [OF update_views(5)])

lemma set_detected_process_coherent:
  "coherent lower (fst (set_detected_agent_process_at lower t a now clock))"
proof -
  have "core (u\<lparr>codex_prompt_ready := x, agent_process_acquisition_pending := y\<rparr>) = core u" for u :: "'a terminal_state" and x y
    by (simp add: core_def)
  then show ?thesis
    unfolding set_detected_agent_process_at_def Let_def split_beta
    by (simp add: set_detected_state_coherent coherentI)
qed

lemma other_core [frame_simps]:
  "core (fst (finish_agent_process_acquisition t)) = core t"
  "core (fst (set_terminal_title t ttl)) = core t"
  "core (set_manual_label t lbl) = core t"
  "core (clear_manual_label t) = core t"
  "core (set_agent_name lower t nm) = core t"
  "core (begin_managed_agent lower t nm k us now sd to) = core t"
  "core (fst (observe_codex_prompt_ready t rd)) = core t"
  "core (fst (reconcile_managed_agent_at lower t now ex)) = core t"
  "core (restore_managed_agent lower t nm k us) = core t"
  "core (fst (record_reported_resume lower t src l seq argv)) = core t"
  "core (reconcile_reported_resume t) = core t"
  "core (restore_reported_resume t rr) = core t"
  "core (set_persisted_agent_session t ps) = core t"
  "core (set_managed_agent_launch_session t ps) = core t"
  "core (with_launch_argv t argv) = core t"
  "core (with_respawn_shell_on_exit t) = core t"
  "core (with_pending_agent_resume_plan t pl) = core t"
  subgoal by (simp add: finish_agent_process_acquisition_def Let_def frame_simps)
  subgoal by (simp add: set_terminal_title_def Let_def core_def)
  subgoal by (simp add: set_manual_label_def core_def)
  subgoal by (simp add: clear_manual_label_def core_def)
  subgoal by (simp add: set_agent_name_def Let_def core_def)
  subgoal by (simp add: begin_managed_agent_def set_agent_name_def Let_def core_def)
  subgoal by (simp add: observe_codex_prompt_ready_def frame_simps)
  subgoal by (simp add: reconcile_managed_agent_at_def Let_def frame_simps split: option.split managed_agent_phase.split)
  subgoal by (simp add: restore_managed_agent_def set_agent_name_def Let_def core_def)
  subgoal by (simp add: record_reported_resume_def Let_def frame_simps split: option.split)
  subgoal by (simp add: reconcile_reported_resume_def Let_def frame_simps split: option.split)
  subgoal by (simp add: restore_reported_resume_def frame_simps)
  subgoal by (simp add: set_persisted_agent_session_def frame_simps)
  subgoal by (simp add: set_managed_agent_launch_session_def core_def)
  subgoal by (simp add: with_launch_argv_def core_def)
  subgoal by (simp add: with_respawn_shell_on_exit_def core_def)
  subgoal by (simp add: with_pending_agent_resume_plan_def core_def)
  done

lemma accept_metadata_frame [frame_simps]:
  "core (fst (accept_metadata_report t src seq tk a)) = core t"
  "resume_view (fst (accept_metadata_report t src seq tk a)) = resume_view t"
  by (simp_all add: accept_metadata_report_def core_def resume_view_def split: option.split)

lemma clear_expiry_frame [frame_simps]:
  "core (clear_expiry_pending_for_hidden_metadata lower t) = core t"
  "resume_view (clear_expiry_pending_for_hidden_metadata lower t) = resume_view t"
  by (simp_all add: clear_expiry_pending_for_hidden_metadata_def frame_simps)

lemma set_agent_metadata_coherent:
  assumes "coherent lower t"
  shows "coherent lower (fst (set_agent_metadata lower t report now))"
proof (cases "accept_metadata_report t (rep_source report) (rep_seq report) False
    (metadata_report_agent lower (rep_source report) (rep_agent_label report) (rep_applies_to_source report))")
  case (Pair t1 res)
  then have "core t1 = core t" using accept_metadata_frame(1) by (metis fst_conv)
  then have "coherent lower t1" using assms by (rule coherentI)
  with assms show ?thesis
    unfolding set_agent_metadata_def Pair Let_def split_beta
    by (auto simp: frame_simps settle_coherent coherentI [OF clear_expiry_frame(1)] split: sum.split bool.split)
qed

lemma expire_agent_metadata_coherent:
  assumes "coherent lower t"
  shows "coherent lower (fst (expire_agent_metadata_at lower t sd now))"
  unfolding expire_agent_metadata_at_def Let_def split_beta
  by (auto simp: recompute_settles settle_coherent intro: coherentI [OF update_views(15) assms])

lemma clear_runtime_identity_coherent: "coherent lower (clear_agent_runtime_identity_after_respawn t)"
proof -
  let ?u = "t\<lparr>detected_agent := None, fallback_state := Unknown, fallback_visible_blocker := False,
       fallback_observed_at := None, hook_authority := None, persisted_agent_session := None,
       agent_metadata := [], metadata_report_agents := [],
       suppressed_full_lifecycle_hook_reports := [], stale_full_lifecycle_hook_sessions := [],
       state := Unknown, last_agent_state_change_seq := None, last_agent_completion_seq := None,
       launch_argv := None, respawn_shell_on_exit := False, recent_agent_process_exit := None,
       agent_process_acquisition_pending := False, pending_agent_resume_plan := None,
       pending_resume_wait_deadline := None, pending_resume_wait_for_owner := False\<rparr>"
  have "coherent lower ?u"
    by (simp add: coherent_def effective_state_def visible_blocker_overrides_hook_def)
  then show ?thesis
    unfolding clear_agent_runtime_identity_after_respawn_def by (rule coherentI [OF clear_agent_name_frame(1)])
qed

subsection \<open>Runs of a terminal\<close>

text \<open>Every operation that changes a terminal, with its arguments and clock readings.\<close>

datatype terminal_op =
    OpDetectProcess agent instant instant
  | OpDetected "agent option" agent_state bool bool bool bool instant instant
  | OpHook string string agent_state "string option" "agent_session_ref option" "u64 option" instant instant
  | OpSession string string "agent_session_ref option" "u64 option" "string option" instant instant
  | OpClearHook "string option" "u64 option" instant instant
  | OpRelease string string "u64 option" instant instant
  | OpClearSelfReported instant instant
  | OpMetadata agent_metadata_report instant
  | OpExpireMetadata instant instant
  | OpFinishAcquisition
  | OpTitle "string option"
  | OpSetLabel string
  | OpClearLabel
  | OpName string
  | OpClearName
  | OpBeginManaged string agent bool instant duration duration
  | OpCodexReady bool
  | OpReconcileManaged instant bool
  | OpRestoreManaged string agent bool
  | OpPersisted persisted_agent_session
  | OpLaunchSession persisted_agent_session
  | OpRecordResume string string "u64 option" "string list"
  | OpReconcileResume
  | OpRestoreResume reported_agent_resume
  | OpRespawn
  | OpLaunchArgv "string list"
  | OpRespawnOnExit
  | OpPendingPlan agent_resume_plan

fun terminal_exec :: "(string \<Rightarrow> string) \<Rightarrow> terminal_op \<Rightarrow> 'q terminal_state \<Rightarrow> 'q terminal_state" where
  "terminal_exec lower (OpDetectProcess a now clock) t = fst (set_detected_agent_process_at lower t a now clock)"
| "terminal_exec lower (OpDetected a fb bl vi vw ex now clock) t =
     fst (set_detected_state_with_screen_signals_at lower t a fb bl vi vw ex now clock)"
| "terminal_exec lower (OpHook src l st msg r seq now clock) t =
     fst (set_hook_authority_with_session_ref lower t src l st msg r seq now clock)"
| "terminal_exec lower (OpSession src l r seq start now clock) t =
     fst (set_agent_session_ref_for_session_start lower t src l r seq start now clock)"
| "terminal_exec lower (OpClearHook src seq now clock) t =
     fst (clear_hook_authority_with_mutation lower t src seq now clock)"
| "terminal_exec lower (OpRelease src l seq now clock) t = fst (release_agent_with_mutation lower t src l seq now clock)"
| "terminal_exec lower (OpClearSelfReported at now) t = fst (clear_self_reported_agent lower t at now)"
| "terminal_exec lower (OpMetadata report now) t = fst (set_agent_metadata lower t report now)"
| "terminal_exec lower (OpExpireMetadata sd now) t = fst (expire_agent_metadata_at lower t sd now)"
| "terminal_exec lower OpFinishAcquisition t = fst (finish_agent_process_acquisition t)"
| "terminal_exec lower (OpTitle ttl) t = fst (set_terminal_title t ttl)"
| "terminal_exec lower (OpSetLabel l) t = set_manual_label t l"
| "terminal_exec lower OpClearLabel t = clear_manual_label t"
| "terminal_exec lower (OpName nm) t = set_agent_name lower t nm"
| "terminal_exec lower OpClearName t = clear_agent_name t"
| "terminal_exec lower (OpBeginManaged nm k us now sd to) t = begin_managed_agent lower t nm k us now sd to"
| "terminal_exec lower (OpCodexReady rd) t = fst (observe_codex_prompt_ready t rd)"
| "terminal_exec lower (OpReconcileManaged now ex) t = fst (reconcile_managed_agent_at lower t now ex)"
| "terminal_exec lower (OpRestoreManaged nm k us) t = restore_managed_agent lower t nm k us"
| "terminal_exec lower (OpPersisted ps) t = set_persisted_agent_session t ps"
| "terminal_exec lower (OpLaunchSession ps) t = set_managed_agent_launch_session t ps"
| "terminal_exec lower (OpRecordResume src l seq argv) t = fst (record_reported_resume lower t src l seq argv)"
| "terminal_exec lower OpReconcileResume t = reconcile_reported_resume t"
| "terminal_exec lower (OpRestoreResume rr) t = restore_reported_resume t rr"
| "terminal_exec lower OpRespawn t = clear_agent_runtime_identity_after_respawn t"
| "terminal_exec lower (OpLaunchArgv argv) t = with_launch_argv t argv"
| "terminal_exec lower OpRespawnOnExit t = with_respawn_shell_on_exit t"
| "terminal_exec lower (OpPendingPlan p) t = with_pending_agent_resume_plan t p"

inductive terminal_step :: "(string \<Rightarrow> string) \<Rightarrow> 'q terminal_state \<Rightarrow> 'q terminal_state \<Rightarrow> bool" for lower where
  terminal_step_exec: "terminal_step lower t (terminal_exec lower op t)"

inductive_cases terminal_stepE: "terminal_step lower t u"

text \<open>A terminal starts new, or new with the agent state handed over by the previous server.\<close>

definition terminal_start :: "(string \<Rightarrow> string) \<Rightarrow> 'q terminal_state \<Rightarrow> bool" where
  "terminal_start lower t \<longleftrightarrow>
     (\<exists>tid dir. t = terminal_state_new tid dir
        \<or> (\<exists>(s :: 'q terminal_state) h. handoff_agent_state lower s = Some h
             \<and> t = restore_handoff_agent_state lower (terminal_state_new tid dir) h))"

lemma terminal_exec_coherent: "coherent lower t \<Longrightarrow> coherent lower (terminal_exec lower op t)"
  by (cases op)
     (simp_all add: set_hook_authority_with_session_ref_def set_detected_process_coherent set_detected_state_coherent
      set_hook_authority_coherent set_agent_session_ref_coherent clear_hook_authority_coherent release_agent_coherent
      clear_self_reported_coherent set_agent_metadata_coherent expire_agent_metadata_coherent
      clear_runtime_identity_coherent coherentI [OF other_core(1)] coherentI [OF other_core(2)]
      coherentI [OF other_core(3)] coherentI [OF other_core(4)] coherentI [OF other_core(5)]
      coherentI [OF other_core(6)] coherentI [OF other_core(7)] coherentI [OF other_core(8)]
      coherentI [OF other_core(9)] coherentI [OF other_core(10)] coherentI [OF other_core(11)]
      coherentI [OF other_core(12)] coherentI [OF other_core(13)] coherentI [OF other_core(14)]
      coherentI [OF other_core(15)] coherentI [OF other_core(16)] coherentI [OF other_core(17)]
      coherentI [OF clear_agent_name_frame(1)])

lemma handoff_live:
  assumes "handoff_agent_state lower s = Some h"
  shows "full_lifecycle_hook_authority (ha_source (ho_authority h)) (ha_agent_label (ho_authority h))"
    and "hook_authority s = Some (ho_authority h)"
  using assms
  by (auto simp: handoff_agent_state_def live_full_lifecycle_hook_authority_def split: if_splits option.splits)

lemma restore_live:
  assumes "full_lifecycle_hook_authority (ha_source (ho_authority h)) (ha_agent_label (ho_authority h))"
    and "recent_agent_process_exit t = None"
  shows "live_full_lifecycle_hook_authority lower (restore_handoff_agent_state lower t h)"
    and "hook_authority_is_effective lower (restore_handoff_agent_state lower t h) (ho_authority h)"
proof -
  have eff: "hook_authority_is_effective lower (restore_handoff_agent_state lower t h) (ho_authority h)"
    using assms(2)
    by (auto simp: hook_authority_is_effective_def restore_handoff_agent_state_def Let_def is_none_or_def
        split: option.split)
  then show "live_full_lifecycle_hook_authority lower (restore_handoff_agent_state lower t h)"
    using assms(1) by (simp add: live_full_lifecycle_hook_authority_def) (simp add: restore_handoff_agent_state_def Let_def)
  show "hook_authority_is_effective lower (restore_handoff_agent_state lower t h) (ho_authority h)" by (rule eff)
qed

lemma restore_fields:
  "hook_authority (restore_handoff_agent_state lower t h) = Some (ho_authority h)"
  "state (restore_handoff_agent_state lower t h) = ha_state (ho_authority h)"
  "agent_process_acquisition_pending (restore_handoff_agent_state lower t h) = ho_acquisition_pending h"
  "hm_get (hook_report_sequences (restore_handoff_agent_state lower t h)) src =
     (if src = ha_source (ho_authority h) \<and> ho_sequence h \<noteq> None then ho_sequence h
      else hm_get (hook_report_sequences t) src)"
  by (simp_all add: restore_handoff_agent_state_def Let_def hm.get_put split: option.split)

lemma live_effective_state:
  assumes "live_full_lifecycle_hook_authority lower t" and "hook_authority t = Some a"
  shows "effective_state lower t = ha_state a"
  using assms by (simp add: effective_state_def visible_blocker_overrides_hook_def)
    (simp add: live_full_lifecycle_hook_authority_def)

lemma terminal_start_coherent:
  fixes t :: "'q terminal_state"
  shows "terminal_start lower t \<Longrightarrow> coherent lower t"
proof -
  have new: "coherent lower (terminal_state_new tid dir :: 'q terminal_state)" for tid dir
    by (simp add: coherent_def effective_state_def visible_blocker_overrides_hook_def terminal_state_new_def)
  have restored: "coherent lower (restore_handoff_agent_state lower (terminal_state_new tid dir :: 'q terminal_state) h)"
    if "handoff_agent_state lower (s :: 'q terminal_state) = Some h" for s h tid dir
  proof -
    have "live_full_lifecycle_hook_authority lower
        (restore_handoff_agent_state lower (terminal_state_new tid dir :: 'q terminal_state) h)"
      using handoff_live(1) [OF that] by (intro restore_live) (simp_all add: terminal_state_new_def)
    from live_effective_state [OF this restore_fields(1)] show ?thesis by (simp add: coherent_def restore_fields(2))
  qed
  show "terminal_start lower t \<Longrightarrow> coherent lower t"
    using new restored by (auto simp: terminal_start_def)
qed

interpretation arbitration: step_invariant "terminal_start lower" "terminal_step lower" "coherent lower"
  for lower :: "string \<Rightarrow> string"
  by unfold_locales (auto elim!: terminal_stepE intro: terminal_start_coherent terminal_exec_coherent)

text \<open>
C1. In every terminal reached from a new or handed-over one by any sequence of its operations,
the published agent state is the arbitration of its sources: a live full-lifecycle hook decides
alone; otherwise a visible blocker on the screen, observed no earlier than the report of the
same agent, publishes blocked; otherwise the effective hook report, and without one the screen's
fallback state.
\<close>

theorem published_state_is_arbitrated:
  assumes "terminal_start lower s" and "reaches (terminal_step lower) s t"
  shows "state t =
    (if live_full_lifecycle_hook_authority lower t then ha_state (the (hook_authority t))
     else if fallback_visible_blocker t \<and> fallback_not_older_than_hook t
       \<and> (\<exists>a. hook_authority t = Some a \<and> ha_state a \<noteq> Blocked
            \<and> parse_agent_label lower (ha_agent_label a) = detected_agent t)
     then Blocked
     else (case hook_authority t of
             Some a \<Rightarrow> if hook_authority_is_effective lower t a then ha_state a else fallback_state t
           | None \<Rightarrow> fallback_state t))"
proof -
  have "state t = effective_state lower t"
    using arbitration.reachable_inv [OF assms] by (simp add: coherent_def)
  then show ?thesis
    using live_effective_state [of lower t]
    by (auto simp: effective_state_def visible_blocker_overrides_hook_def is_some_and_def
        live_full_lifecycle_hook_authority_def split: option.splits)
qed

theorem published_state_is_arbitrated_witness:
  "state (terminal_exec to_ascii_lowercase (OpDetected None Blocked True False False False 9 9)
     (terminal_state_new ''t'' ''/'' :: unit terminal_state)) = Blocked"
  (is "state ?t = _")
proof -
  have start: "terminal_start to_ascii_lowercase (terminal_state_new ''t'' ''/'' :: unit terminal_state)"
    by (auto simp: terminal_start_def)
  have "hook_authority ?t = None \<and> fallback_state ?t = Blocked"
    by (simp add: set_detected_state_with_screen_signals_at_def detected_state_update_def Let_def split_beta
        should_ignore_detected_state_under_full_lifecycle_hook_def live_full_lifecycle_hook_authority_def
        detected_state_observed_before_release_suppression_def drop_conflicting_authority_def
        clear_full_lifecycle_hook_suppression_for_detected_agent_def recompute_from_def recompute_effective_state_def
        clear_expiry_pending_for_hidden_metadata_def terminal_state_new_def hook_authority_conflicts_with_detected_agent_def)
  moreover have "reaches (terminal_step to_ascii_lowercase) (terminal_state_new ''t'' ''/'' :: unit terminal_state) ?t"
    by (intro reaches_step [OF reaches_refl] terminal_step_exec)
  ultimately show ?thesis
    using published_state_is_arbitrated [OF start, of ?t] by (simp add: live_full_lifecycle_hook_authority_def del: terminal_exec.simps)
qed

end
