(* ===== verification/Terminal_Properties.thy ===== *)
theory Terminal_Properties
  imports Terminal_Theorems
begin

text \<open>
  Properties of single operations of a terminal and of short sequences of them: outdated reports,
  the protection of a live integration from the screen, process exits, managed agents, handoffs and
  the bookkeeping of resume commands.
\<close>

subsection \<open>Outdated reports\<close>

lemma not_newer_not_accepted: "\<not> hook_report_is_newer t src seq \<Longrightarrow> accept_hook_report t src seq = (t, False)"
  by (simp add: accept_hook_report_def)

lemma route_outdated:
  assumes "\<not> hook_report_is_newer t src seq" and "hm_get (suppressed_full_lifecycle_hook_reports t) src = None"
    and "hm_get (stale_full_lifecycle_hook_sessions t) src = None"
  shows "route_full_lifecycle_hook_report lower t src l st msg r seq now \<in> {(t, Ignore), (t, Accept False)}"
proof -
  have stale: "\<not> full_lifecycle_hook_report_matches_stale_session t src l r"
    "\<not> full_lifecycle_hook_report_has_fresh_session_after_stale_session t src l r"
    using assms(3) by (simp_all add: full_lifecycle_hook_report_matches_stale_session_def
        full_lifecycle_hook_report_has_fresh_session_after_stale_session_def)
  have "is_some_and (hm_get (hook_report_sequences t) src) (\<lambda>previous. s \<le> previous)" if "seq = Some s" for s
    using assms(1) that by (auto simp: hook_report_is_newer_def is_none_or_def is_some_and_def Let_def split: option.splits)
  with stale assms(2) show ?thesis
    by (auto simp: route_full_lifecycle_hook_report_def Let_def split: option.split)
qed

lemma outdated_ignored:
  assumes "full_lifecycle_hook_report_matches_stale_session t src l r
      \<or> \<not> hook_report_is_newer t src seq
        \<and> hm_get (suppressed_full_lifecycle_hook_reports t) src = None
        \<and> hm_get (stale_full_lifecycle_hook_sessions t) src = None"
  shows "set_hook_authority_at lower t src l st msg r seq now clock = (t, None)"
  using assms
proof (elim disjE conjE)
  assume stale: "full_lifecycle_hook_report_matches_stale_session t src l r"
  then have "full_lifecycle_hook_authority src l"
    by (auto simp: full_lifecycle_hook_report_matches_stale_session_def split: if_splits)
  with stale show ?thesis
    by (simp add: set_hook_authority_at_def route_full_lifecycle_hook_report_def)
next
  assume a: "\<not> hook_report_is_newer t src seq" "hm_get (suppressed_full_lifecycle_hook_reports t) src = None"
    "hm_get (stale_full_lifecycle_hook_sessions t) src = None"
  from route_outdated [OF this, of lower l st msg r now] not_newer_not_accepted [OF a(1)] show ?thesis
    by (auto simp: set_hook_authority_at_def commit_hook_report_def)
qed

text \<open>
C31. A hook report of a session already marked stale, or, for a source with neither a
suppression nor a stale session, a report whose sequence number is not above the last accepted
one, is ignored and changes nothing of the terminal.
\<close>

theorem outdated_report_ignored:
  assumes "full_lifecycle_hook_report_matches_stale_session t src l r
      \<or> \<not> hook_report_is_newer t src seq
        \<and> hm_get (suppressed_full_lifecycle_hook_reports t) src = None
        \<and> hm_get (stale_full_lifecycle_hook_sessions t) src = None"
  shows "set_hook_authority_at lower t src l st msg r seq now clock = (t, None)"
  by (rule outdated_ignored [OF assms])

lemma accept_hook_report_True:
  assumes "accept_hook_report t src seq = (t', True)"
  shows "t' = (case seq of Some s \<Rightarrow> t\<lparr>hook_report_sequences := hm_insert src s (hook_report_sequences t)\<rparr> | None \<Rightarrow> t)"
    and "hook_report_is_newer t src seq"
  using assms by (auto simp: accept_hook_report_def split: if_splits option.splits)

lemma route_keeps_sequences:
  "hook_report_sequences (fst (route_full_lifecycle_hook_report lower t src l st msg r seq now)) = hook_report_sequences t"
  by (simp add: route_full_lifecycle_hook_report_def Let_def queue_pending_report_def split: option.split)

lemma sequences_frame [frame_simps]:
  "hook_report_sequences (reconcile_agent_name_owner lower t l' r') = hook_report_sequences t"
  "hook_report_sequences (suppress_current_full_lifecycle_hook_authority t reason at) = hook_report_sequences t"
  "hook_report_sequences (retire_suppressed_report t src) = hook_report_sequences t"
  "hook_report_sequences (remember_stale_full_lifecycle_hook_session t src l' s) = hook_report_sequences t"
  by (simp_all add: reconcile_agent_name_owner_def suppress_current_full_lifecycle_hook_authority_def
      suppress_full_lifecycle_hook_report_with_session_ref_def retire_suppressed_report_def
      remember_stale_full_lifecycle_hook_session_def Let_def split: option.splits)

lemma recompute_from_fields:
  "hook_report_sequences (fst (recompute_from lower p now t)) = hook_report_sequences t"
  "hook_authority (fst (recompute_from lower p now t)) = hook_authority t"
  "persisted_agent_session (fst (recompute_from lower p now t)) = persisted_agent_session t"
  by (simp_all add: recompute_from_def recompute_effective_state_def clear_expiry_pending_for_hidden_metadata_def Let_def)

lemma install_sequences:
  "hook_report_sequences (fst (install_hook_authority lower t src l st msg r tk re now clock)) = hook_report_sequences t"
  by (simp add: install_hook_authority_def Let_def split_beta recompute_from_fields frame_simps)

lemma install_authority:
  "hook_authority (fst (install_hook_authority lower t src l st msg r tk re now clock)) =
   Some \<lparr>ha_source = src, ha_agent_label = l, ha_state = st, ha_message = msg, ha_reported_at = now, ha_session_ref = r\<rparr>"
  by (simp add: install_hook_authority_def Let_def split_beta recompute_from_fields)

text \<open>
C28. An accepted hook report becomes the hook authority with its state, message and time,
advances the sequence number of its source and of no other, was not from a stale session, an
identity-only integration or an agent other than the detected one, and had a newer sequence
number unless its source was being re-anchored.
\<close>

theorem accepted_report_installed:
  assumes "set_hook_authority_at lower t src l st msg r seq now clock = (t', Some m)"
  shows "\<exists>r'. hook_authority t' = Some \<lparr>ha_source = src, ha_agent_label = l, ha_state = st, ha_message = msg,
        ha_reported_at = now, ha_session_ref = r'\<rparr>
      \<and> (r' = None \<longleftrightarrow> r = None)
      \<and> \<not> session_identity_only_integration src l
      \<and> \<not> full_lifecycle_hook_report_matches_stale_session t src l r
      \<and> \<not> known_agent_label_conflicts_with_detected_agent lower t l
      \<and> (seq \<noteq> None \<longrightarrow> hm_get (hook_report_sequences t') src = seq)
      \<and> (\<forall>src'. src' \<noteq> src \<longrightarrow> hm_get (hook_report_sequences t') src' = hm_get (hook_report_sequences t) src')
      \<and> (hm_get (suppressed_full_lifecycle_hook_reports t) src = None
           \<and> hm_get (stale_full_lifecycle_hook_sessions t) src = None \<longrightarrow> hook_report_is_newer t src seq)"
proof (cases rule: set_hook_authority_outcome [of lower t src l st msg r seq now clock])
  case (ignored u)
  with assms show ?thesis by simp
next
  case (committed t1 re)
  have seqs1: "hook_report_sequences t1 = hook_report_sequences t"
    using route_keeps_sequences [of lower t src l st msg r seq now] committed(1) by simp
  have det: "detected_agent t1 = detected_agent t" using committed(2) by (simp add: core_def)
  have notstale: "\<not> full_lifecycle_hook_report_matches_stale_session t src l r"
    using committed(1) by (auto simp: route_full_lifecycle_hook_report_def
        full_lifecycle_hook_report_matches_stale_session_def split: if_splits)
  show ?thesis
  proof (cases rule: commit_hook_report_outcome [of lower t1 src l st msg r seq re now clock])
    case (stale u)
    with committed assms show ?thesis by simp
  next
    case (accepted u v)
    note acc = accept_hook_report_True [OF accepted(2)]
    have t': "t' = fst (install_hook_authority lower v src l st msg (accepted_session_ref t1 src l r)
        (takeover_by_hook_report lower t1 src l r) re now clock)"
      using committed(6) accepted(5) assms by (auto simp: map_prod_def split_beta)
    have seqs: "hook_report_sequences t' = (case seq of Some s \<Rightarrow> hm_insert src s (hook_report_sequences u)
        | None \<Rightarrow> hook_report_sequences u)"
      unfolding t' install_sequences acc(1) by (simp split: option.split)
    have useq: "hm_get (hook_report_sequences u) src' = hm_get (hook_report_sequences t) src'" if "src' \<noteq> src" for src'
      using that seqs1 by (simp add: accepted(1) hm.get_del)
    have newer: "hook_report_is_newer t src seq"
      if "hm_get (suppressed_full_lifecycle_hook_reports t) src = None"
        "hm_get (stale_full_lifecycle_hook_sessions t) src = None"
    proof (rule ccontr)
      assume "\<not> hook_report_is_newer t src seq"
      from outdated_ignored [of t src l r seq lower st msg now clock] this that assms show False by simp
    qed
    have "hook_authority t' = Some \<lparr>ha_source = src, ha_agent_label = l, ha_state = st, ha_message = msg,
        ha_reported_at = now, ha_session_ref = accepted_session_ref t1 src l r\<rparr>"
      unfolding t' by (rule install_authority)
    moreover have "accepted_session_ref t1 src l r = None \<longleftrightarrow> r = None" by (simp add: accepted_session_ref_def)
    moreover have "\<not> known_agent_label_conflicts_with_detected_agent lower t l"
      using committed(5) det by (simp add: hook_report_refused_def known_agent_label_conflicts_with_detected_agent_def)
    moreover have "hm_get (hook_report_sequences t') src' = hm_get (hook_report_sequences t) src'" if "src' \<noteq> src" for src'
      using seqs useq [OF that] that by (simp add: hm.get_put split: option.split)
    moreover have "hm_get (hook_report_sequences t') src = seq" if "seq \<noteq> None"
      using seqs that by (auto split: option.splits)
    ultimately show ?thesis using committed(4) notstale newer
      by (intro exI [of _ "accepted_session_ref t1 src l r"] conjI allI impI) simp_all
  qed
qed

subsection \<open>The screen and a live integration\<close>

lemma update_detected_live:
  assumes "live_full_lifecycle_hook_authority lower t" and "hook_authority t = Some a"
  shows "live_full_lifecycle_hook_authority lower
    (if parse_agent_label lower (ha_agent_label a) = d then t\<lparr>detected_agent := d\<rparr> else t)"
  using assms
  by (auto simp: live_full_lifecycle_hook_authority_def hook_authority_is_effective_def is_none_or_def split: option.splits)

text \<open>
C29. While a full-lifecycle hook authority is live and no other agent is detected, a screen
observation without a process exit changes neither the authority nor the published state, the
fallback state, the agent's name, its managed launch or its reported resume command, and reports
no release.
\<close>

theorem screen_cannot_override_live_hook:
  assumes "live_full_lifecycle_hook_authority lower t" and "hook_authority t = Some a"
    and "\<not> hook_authority_conflicts_with_detected_agent lower t d"
  shows "case set_detected_state_with_screen_signals_at lower t d fb bl vi vw False now clock of (t', m) \<Rightarrow>
      hook_authority t' = Some a \<and> state t' = ha_state a \<and> live_full_lifecycle_hook_authority lower t'
      \<and> fallback_state t' = fallback_state t \<and> reported_resume t' = reported_resume t
      \<and> agent_name t' = agent_name t \<and> managed_agent t' = managed_agent t
      \<and> \<not> mut_agent_released m \<and> \<not> mut_session_ref_changed m"
proof -
  define u where "u = (if parse_agent_label lower (ha_agent_label a) = d then t\<lparr>detected_agent := d\<rparr> else t)"
  have live: "live_full_lifecycle_hook_authority lower u"
    unfolding u_def by (rule update_detected_live [OF assms(1,2)])
  have hook: "hook_authority u = Some a" using assms(2) by (simp add: u_def)
  have st: "state u = state t" by (simp add: u_def)
  have "should_ignore_detected_state_under_full_lifecycle_hook lower t d False"
    using assms by (simp add: should_ignore_detected_state_under_full_lifecycle_hook_def)
  then have op: "set_detected_state_with_screen_signals_at lower t d fb bl vi vw False now clock =
      (settle lower u, \<lparr>mut_effective_state_change = snd (recompute_from lower t now u),
         mut_session_ref_changed = (current_session_identity_for_persistence t \<noteq>
           current_session_identity_for_persistence (settle lower u)),
         mut_agent_released = False\<rparr>)"
    using assms(2)
    by (simp add: set_detected_state_with_screen_signals_at_def Let_def split_beta recompute_from_settles st
        flip: u_def)
  have "live_full_lifecycle_hook_authority lower (settle lower u)"
    using live live_full_lifecycle_cong [of "settle lower u" u lower] by (simp add: settle_fields)
  moreover have "current_session_identity_for_persistence (settle lower u) = current_session_identity_for_persistence t"
    using assms(2) hook by (simp add: current_session_identity_for_persistence_def settle_fields) (simp add: u_def)
  ultimately show ?thesis
    by (simp add: op settle_fields hook live_effective_state [OF live hook]) (simp add: u_def)
qed

subsection \<open>Managed agents\<close>

fun phase_rank :: "managed_agent_phase \<Rightarrow> nat" where
  "phase_rank (MPending _ _ _) = 0"
| "phase_rank MBlocked = 1"
| "phase_rank MActive = 2"

lemma clear_agent_name_managed [simp]: "managed_agent (clear_agent_name t) = None" "agent_name (clear_agent_name t) = None"
  by (simp_all add: clear_agent_name_def)

lemma next_deadline_simps:
  "managed_agent t = None \<Longrightarrow> next_managed_agent_deadline t = None"
  "managed_agent t = Some \<lparr>managed_kind = k, managed_phase = MBlocked\<rparr> \<Longrightarrow> next_managed_agent_deadline t = None"
  "managed_agent t = Some \<lparr>managed_kind = k, managed_phase = MActive\<rparr> \<Longrightarrow> next_managed_agent_deadline t = None"
  by (simp_all add: next_managed_agent_deadline_def)

text \<open>
C33. Reconciling a managed agent leaves no deadline at or before the current time, reports a
change exactly when the managed agent changed, only moves forward in its phases and becomes
active only when the agent is ready, and frees the name of an agent it drops.
\<close>

theorem managed_agent_settles:
  "case reconcile_managed_agent_at lower t now ex of (t', changed) \<Rightarrow>
     (\<forall>d. next_managed_agent_deadline t' = Some d \<longrightarrow> now < d)
     \<and> (changed \<longleftrightarrow> managed_agent t' \<noteq> managed_agent t) \<and> (\<not> changed \<longrightarrow> t' = t)
     \<and> (\<forall>m'. managed_agent t' = Some m' \<longrightarrow>
          (\<exists>m. managed_agent t = Some m \<and> managed_kind m' = managed_kind m
             \<and> phase_rank (managed_phase m) \<le> phase_rank (managed_phase m')
             \<and> (managed_phase m' = MActive \<and> managed_phase m \<noteq> MActive \<longrightarrow> managed_ready lower t (managed_kind m))))
     \<and> (managed_agent t \<noteq> None \<and> managed_agent t' = None \<longrightarrow> agent_name t' = None)"
proof (cases "managed_agent t")
  case None
  then show ?thesis by (simp add: reconcile_managed_agent_at_def next_managed_agent_deadline_def)
next
  case (Some m)
  obtain k p where m: "m = \<lparr>managed_kind = k, managed_phase = p\<rparr>" by (cases m)
  show ?thesis
    using Some m
    by (cases p) (auto simp: reconcile_managed_agent_at_def Let_def next_managed_agent_deadline_def is_none_or_def
        min_def split: option.splits if_splits)
qed

subsection \<open>Handoff\<close>


subsection \<open>Process exit\<close>

lemma remember_persisted [frame_simps]:
  "persisted_agent_session (remember_stale_full_lifecycle_hook_session t src l r) = persisted_agent_session t"
  "persisted_agent_session (remember_stale_sessions stales t) = persisted_agent_session t"
proof -
  show one: "persisted_agent_session (remember_stale_full_lifecycle_hook_session t src l r) = persisted_agent_session t"
    for t :: "'a terminal_state" and src l r
    by (simp add: remember_stale_full_lifecycle_hook_session_def Let_def)
  show "persisted_agent_session (remember_stale_sessions stales t) = persisted_agent_session t"
    unfolding remember_stale_sessions_def
    by (induction stales arbitrary: t) (auto simp: one)
qed

lemma persisted_frame [frame_simps]:
  "persisted_agent_session (exit_suppressed_reports lower t a now) = persisted_agent_session t"
  "persisted_agent_session (exit_metadata t b now) = persisted_agent_session t"
  "persisted_agent_session (set_reported_resume t r) = persisted_agent_session t"
  "persisted_agent_session (suppress_full_lifecycle_hook_report_with_session_ref t src l ref reason at) = persisted_agent_session t"
  "persisted_agent_session (suppress_current_full_lifecycle_hook_authority t reason at) = persisted_agent_session t"
  by (simp_all add: exit_suppressed_reports_def exit_metadata_def set_reported_resume_def
      suppress_full_lifecycle_hook_report_with_session_ref_def suppress_current_full_lifecycle_hook_authority_def
      Let_def frame_simps split: option.split)

lemma core_fields:
  assumes "core t = core u"
  shows "hook_authority t = hook_authority u" and "detected_agent t = detected_agent u"
    and "recent_agent_process_exit t = recent_agent_process_exit u"
  using assms by (simp_all add: core_def)

lemma resume_fields:
  "resume_view t = resume_view u \<Longrightarrow> reported_resume t = reported_resume u"
  by (simp add: resume_view_def)

lemmas exit_core = core_fields [OF exit_frame(1)] core_fields [OF exit_frame(3)]
  core_fields [OF suppress_frame(1)] core_fields [OF set_reported_resume_frame] core_fields [OF suppress_frame(3)]
  resume_fields [OF exit_frame(2)] resume_fields [OF exit_frame(4)] resume_fields [OF suppress_frame(2)]
  resume_fields [OF suppress_frame(4)]

lemma apply_process_exit_effect:
  fixes t :: "'q terminal_state" and lower :: "string \<Rightarrow> string" and a :: agent and now :: instant
  defines "u \<equiv> apply_process_exit lower t (Some a) False now"
  shows "hook_authority u = opt_filter (\<lambda>h. parse_agent_label lower (ha_agent_label h) \<noteq> Some a) (hook_authority t)"
    and "persisted_agent_session u =
      opt_filter (\<lambda>s. parse_agent_label lower (ps_agent s) \<noteq> Some a) (persisted_agent_session t)"
    and "reported_resume u = opt_filter (\<lambda>r. parse_agent_label lower (rr_agent r) \<noteq> Some a) (reported_resume t)"
    and "recent_agent_process_exit u = recent_agent_process_exit t"
    and "\<forall>(src, owner) \<in> set (metadata_report_agents u). owner \<noteq> a"
proof -
  have resume: "reported_resume (set_reported_resume v None) = None" for v :: "'q terminal_state"
    by (simp add: set_reported_resume_def)
  show "hook_authority u = opt_filter (\<lambda>h. parse_agent_label lower (ha_agent_label h) \<noteq> Some a) (hook_authority t)"
    by (cases "hook_authority t")
       (auto simp: u_def apply_process_exit_def Let_def exit_core split: option.split prod.split)
  show "persisted_agent_session u =
      opt_filter (\<lambda>s. parse_agent_label lower (ps_agent s) \<noteq> Some a) (persisted_agent_session t)"
    by (cases "persisted_agent_session t")
       (auto simp: u_def apply_process_exit_def Let_def exit_core frame_simps split: option.split prod.split)
  show "reported_resume u = opt_filter (\<lambda>r. parse_agent_label lower (rr_agent r) \<noteq> Some a) (reported_resume t)"
    by (cases "reported_resume t")
       (auto simp: u_def apply_process_exit_def Let_def exit_core resume split: option.split prod.split)
  show "recent_agent_process_exit u = recent_agent_process_exit t"
    by (auto simp: u_def apply_process_exit_def Let_def exit_core split: option.split prod.split)
  have "\<forall>(src, owner) \<in> set (metadata_report_agents (exit_metadata v a now)). owner \<noteq> a" for v :: "'q terminal_state"
    by (auto simp: exit_metadata_def Let_def hm_retain_def)
  then show "\<forall>(src, owner) \<in> set (metadata_report_agents u). owner \<noteq> a"
    by (simp add: u_def apply_process_exit_def Let_def)
qed

lemma drop_conflicting_effect:
  "hook_authority (drop_conflicting_authority lower t d p now clock) \<in> {None, hook_authority t}"
  "persisted_agent_session (drop_conflicting_authority lower t d p now clock) \<in>
     {persisted_agent_session t, Option.bind (hook_authority t) (\<lambda>a.
        map_option (\<lambda>r. \<lparr>ps_source = ha_source a, ps_agent = ha_agent_label a, ps_session_ref = r\<rparr>) (ha_session_ref a))}"
  "recent_agent_process_exit (drop_conflicting_authority lower t d p now clock) = recent_agent_process_exit t"
  "reported_resume (drop_conflicting_authority lower t d p now clock) = reported_resume t"
  "metadata_report_agents (drop_conflicting_authority lower t d p now clock) = metadata_report_agents t"
  by (simp_all add: drop_conflicting_authority_def Let_def exit_core)
     (simp add: suppress_current_full_lifecycle_hook_authority_def
       suppress_full_lifecycle_hook_report_with_session_ref_def split: option.split)

lemma parse_ne_filter:
  "opt_filter (\<lambda>x. parse_agent_label lower (f x) \<noteq> Some a) y = Some x \<Longrightarrow> parse_agent_label lower (f x) \<noteq> Some a"
  by (auto simp: opt_filter_def split: option.splits if_splits)

text \<open>
C30. When an agent's process exits and no newer report of a custom source keeps it, the terminal
records the exit and keeps no hook authority, effective agent, session, reported resume command
or metadata ownership of that agent, and reports a release exactly when an agent or a name was
there.
\<close>

theorem process_exit_leaves_nothing:
  assumes "\<not> newer_custom_authority lower t (Some a) True now"
  shows "case set_detected_state_with_screen_signals_at lower t (Some a) fb bl vi vw True now clock of (t', m) \<Rightarrow>
      recent_agent_process_exit t' = Some \<lparr>exit_agent = a, exit_observed_at = now\<rparr>
      \<and> (\<forall>h. hook_authority t' = Some h \<longrightarrow> parse_agent_label lower (ha_agent_label h) \<noteq> Some a)
      \<and> effective_known_agent lower t' \<noteq> Some a
      \<and> (\<forall>s. persisted_agent_session t' = Some s \<longrightarrow> parse_agent_label lower (ps_agent s) \<noteq> Some a)
      \<and> (\<forall>r. reported_resume t' = Some r \<longrightarrow> parse_agent_label lower (rr_agent r) \<noteq> Some a)
      \<and> (\<forall>(src, owner) \<in> set (metadata_report_agents t'). owner \<noteq> a)
      \<and> (mut_agent_released m \<longleftrightarrow> effective_agent_label lower t \<noteq> None \<or> agent_name t \<noteq> None)"
proof -
  define t5 where "t5 = (let t1 = t\<lparr>detected_agent := Some a, codex_prompt_ready := False\<rparr>;
      t2 = reconcile_agent_name_owner lower t1 (agent_label a) None
    in t2\<lparr>fallback_state := fb, fallback_visible_blocker := (bl \<and> fb = Blocked), fallback_observed_at := Some now,
          recent_agent_process_exit := Some \<lparr>exit_agent = a, exit_observed_at = now\<rparr>\<rparr>)"
  define t6 where "t6 = apply_process_exit lower t5 (Some a) False now"
  define t7 where "t7 = drop_conflicting_authority lower t6 (Some a) (detected_agent t) now clock"
  have upd: "detected_state_update lower t (Some a) fb bl True now clock = t7"
    using assms by (simp add: detected_state_update_def t7_def t6_def t5_def Let_def)
  have st7: "state t7 = state t" using upd detected_state_update_state by metis
  have exit5: "recent_agent_process_exit t5 = Some \<lparr>exit_agent = a, exit_observed_at = now\<rparr>"
    by (simp add: t5_def Let_def)
  note eff6 = apply_process_exit_effect [of lower t5 a now, folded t6_def]
  note eff7 = drop_conflicting_effect [of lower t6 "Some a" "detected_agent t" now clock, folded t7_def]
  have hook6: "hook_authority t6 = Some h \<Longrightarrow> parse_agent_label lower (ha_agent_label h) \<noteq> Some a" for h
    unfolding eff6(1) by (rule parse_ne_filter)
  then have hook7: "hook_authority t7 = Some h \<Longrightarrow> parse_agent_label lower (ha_agent_label h) \<noteq> Some a" for h
    using eff7(1) by auto
  have pers7: "persisted_agent_session t7 = Some s \<Longrightarrow> parse_agent_label lower (ps_agent s) \<noteq> Some a" for s
  proof -
    assume "persisted_agent_session t7 = Some s"
    with eff7(2) consider "persisted_agent_session t6 = Some s"
      | h r where "hook_authority t6 = Some h" "s = \<lparr>ps_source = ha_source h, ps_agent = ha_agent_label h, ps_session_ref = r\<rparr>"
      by (cases "hook_authority t6"; cases "Option.bind (hook_authority t6) ha_session_ref") auto
    then show "parse_agent_label lower (ps_agent s) \<noteq> Some a"
      by cases (use parse_ne_filter [of lower ps_agent] hook6 eff6(2) in auto)
  qed
  have exit7: "recent_agent_process_exit t7 = Some \<lparr>exit_agent = a, exit_observed_at = now\<rparr>"
    using eff7(3) eff6(4) exit5 by simp
  have "effective_known_agent lower u \<noteq> Some a" if "core u = core (settle lower t7)" for u :: "'a terminal_state"
    using hook7 exit7 core_fields [OF that]
    by (auto simp: effective_known_agent_def effective_agent_label_def settle_fields or_else_def opt_filter_def
        split: option.splits if_splits)
  moreover have "reported_resume t7 = Some r \<Longrightarrow> parse_agent_label lower (rr_agent r) \<noteq> Some a" for r
    unfolding eff7(4) eff6(3) by (rule parse_ne_filter)
  ultimately show ?thesis
    using assms hook7 pers7 exit7 eff7(5) eff6(5)
    by (simp add: set_detected_state_with_screen_signals_at_def Let_def split_beta upd
        should_ignore_detected_state_under_full_lifecycle_hook_def recompute_from_settles [OF st7] settle_fields update_views)
qed

subsection \<open>Revisions of the resume command\<close>

text \<open>The revision counts the changes of the command: one more exactly when the command differs.\<close>

definition rv_set :: "'r option \<times> u64 \<Rightarrow> 'r option \<Rightarrow> 'r option \<times> u64" where
  "rv_set v r = (if fst v \<noteq> r then (r, snd v + 1) else v)"

definition rv_step :: "'r option \<times> u64 \<Rightarrow> 'r option \<times> u64 \<Rightarrow> bool" where
  "rv_step v w \<longleftrightarrow> snd w = snd v + (if fst w = fst v then 0 else 1)"

lemma rv_step_simps [simp]: "rv_step v v" "rv_step v (rv_set v r)"
  by (auto simp: rv_step_def rv_set_def)

lemma set_reported_resume_view [frame_simps]: "resume_view (set_reported_resume t r) = rv_set (resume_view t) r"
  by (simp add: set_reported_resume_def resume_view_def rv_set_def)

lemma forget_reported_resume_view [frame_simps]:
  "resume_view (forget_reported_resume_of t src l) =
   (if is_some_and (fst (resume_view t)) (\<lambda>r. rr_source r = src \<and> rr_agent r = l)
    then rv_set (resume_view t) None else resume_view t)"
  by (simp add: forget_reported_resume_of_def set_reported_resume_view) (simp add: resume_view_def)

lemma recompute_from_resume [frame_simps]: "resume_view (fst (recompute_from lower p now t)) = resume_view t"
  by (simp add: recompute_from_def recompute_effective_state_def clear_expiry_pending_for_hidden_metadata_def
      Let_def resume_view_def)

lemma resume_views [frame_simps]:
  "resume_view (t\<lparr>fallback_state := x1\<rparr>) = resume_view t"
  "resume_view (t\<lparr>fallback_visible_blocker := x2\<rparr>) = resume_view t"
  "resume_view (t\<lparr>fallback_observed_at := x3\<rparr>) = resume_view t"
  "resume_view (t\<lparr>recent_agent_process_exit := x4\<rparr>) = resume_view t"
  by (simp_all add: resume_view_def)

lemma install_hook_authority_resume [frame_simps]:
  "resume_view (fst (install_hook_authority lower t src l st msg r tk re now clock)) = resume_view t"
  by (simp add: install_hook_authority_def Let_def split_beta frame_simps)

lemma hook_resume: "resume_view (fst (set_hook_authority_at lower t src l st msg r seq now clock)) = resume_view t"
proof (cases rule: set_hook_authority_outcome [of lower t src l st msg r seq now clock])
  case (committed t1 re)
  then show ?thesis
    by (cases rule: commit_hook_report_outcome [of lower t1 src l st msg r seq re now clock])
       (simp_all add: frame_simps)
qed simp

lemma session_resume:
  "resume_view (fst (set_agent_session_ref_for_session_start lower t src l r seq start now clock)) = resume_view t"
proof -
  have commit: "resume_view (fst (commit_session_ref lower u src l s seq start un pres now clock)) = resume_view u"
    for u :: "'a terminal_state" and s un pres
  proof -
    obtain t1 ok where acc: "(if un then (u, True) else accept_hook_report u src seq) = (t1, ok)" by fastforce
    then have t1: "resume_view t1 = resume_view u"
      using accept_hook_report_frame(2) [of u src seq] by (auto split: if_splits)
    have "resume_view (fst (install_session_ref lower t1 src l s ra tk rep now clock)) = resume_view t1" for ra tk rep
      using install_session_ref_state [of t1 lower src l s ra tk rep now clock] by (auto simp: settle_views(2))
    with t1 show ?thesis unfolding commit_session_ref_def acc by simp
  qed
  have queue: "resume_view (fst (queue_session_start lower u src l s q pres now)) = resume_view u"
    for u :: "'a terminal_state" and s q pres
    by (simp add: queue_session_start_def Let_def split_beta frame_simps)
  show ?thesis
    by (simp add: set_agent_session_ref_for_session_start_def Let_def commit queue frame_simps split: option.split)
qed

lemma clear_hook_resume: "rv_step (resume_view t) (resume_view (fst (clear_hook_authority_with_mutation lower t src seq now clock)))"
proof -
  obtain t1 ok where acc: "(case or_else src (map_option ha_source (hook_authority t)) of
      Some s \<Rightarrow> accept_hook_report t s seq | None \<Rightarrow> (t, True)) = (t1, ok)" by fastforce
  then have "resume_view t1 = resume_view t"
    by (auto split: option.splits) (metis accept_hook_report_frame(2) fst_conv)
  then show ?thesis
    unfolding clear_hook_authority_with_mutation_def Let_def acc
    by (cases ok)
       (auto simp: split_beta frame_simps split: option.split)
qed

lemma release_resume: "rv_step (resume_view t) (resume_view (fst (release_agent_with_mutation lower t src l seq now clock)))"
proof -
  obtain t1 ok where acc: "accept_hook_report t src seq = (t1, ok)" by fastforce
  then have "resume_view t1 = resume_view t" using accept_hook_report_frame(2) [of t src seq] by simp
  then show ?thesis
    unfolding release_agent_with_mutation_def Let_def acc
    by (cases ok)
       (auto simp: split_beta frame_simps)
qed

lemma clear_self_reported_resume: "rv_step (resume_view t) (resume_view (fst (clear_self_reported_agent lower t at now)))"
  by (auto simp: clear_self_reported_agent_def Let_def split_beta frame_simps)

lemma process_exit_resume: "rv_step (resume_view t) (resume_view (apply_process_exit lower t a nc now))"
  by (auto simp: apply_process_exit_def Let_def frame_simps split: option.split)

lemma detected_update_resume: "rv_step (resume_view t) (resume_view (detected_state_update lower t a fb bl ex now clock))"
proof -
  define t5 where "t5 = (let t1 = t\<lparr>detected_agent := a, codex_prompt_ready :=
        (if ex \<or> a \<noteq> Some Codex \<or> fb = Blocked then False else codex_prompt_ready t)\<rparr>;
      t2 = (case a of Some a \<Rightarrow> reconcile_agent_name_owner lower t1 (agent_label a) None | None \<Rightarrow> t1);
      t3 = (if ex then t2 else clear_full_lifecycle_hook_suppression_for_detected_agent lower t2
         (if \<not> ex \<and> a \<noteq> None \<and> is_some_and (recent_agent_process_exit t)
             (\<lambda>exit. Some (exit_agent exit) = a \<and> exit_observed_at exit < now) then None else detected_agent t) a);
      t4 = t3\<lparr>fallback_state := fb, fallback_visible_blocker := (bl \<and> fb = Blocked), fallback_observed_at := Some now\<rparr>
    in if ex then (case a of Some a \<Rightarrow> t4\<lparr>recent_agent_process_exit := Some \<lparr>exit_agent = a, exit_observed_at = now\<rparr>\<rparr> | None \<Rightarrow> t4)
       else if a \<noteq> None then t4\<lparr>recent_agent_process_exit := None\<rparr> else t4)"
  define t6 where "t6 = (if ex then apply_process_exit lower t5 a (newer_custom_authority lower t a ex now) now else t5)"
  have v5: "resume_view t5 = resume_view t"
    by (simp add: t5_def Let_def frame_simps split: option.split)
  have s6: "rv_step (resume_view t) (resume_view t6)"
    using process_exit_resume [of t5 lower a] by (simp add: t6_def v5)
  have "resume_view (detected_state_update lower t a fb bl ex now clock) = resume_view t6"
    unfolding detected_state_update_def t6_def t5_def Let_def by (simp add: frame_simps)
  with s6 show ?thesis by simp
qed

lemma detected_resume:
  "rv_step (resume_view t) (resume_view (fst (set_detected_state_with_screen_signals_at lower t a fb bl vi vw ex now clock)))"
  by (auto simp: set_detected_state_with_screen_signals_at_def Let_def split_beta frame_simps detected_update_resume)


lemma detected_process_resume:
  "rv_step (resume_view t) (resume_view (fst (set_detected_agent_process_at lower t a now clock)))"
  using detected_resume [of t lower "Some a" Unknown False False False False now clock]
  by (simp add: set_detected_agent_process_at_def Let_def split_beta frame_simps)

lemma metadata_resume:
  "resume_view (fst (set_agent_metadata lower t report now)) = resume_view t"
  "resume_view (fst (expire_agent_metadata_at lower t sd now)) = resume_view t"
proof -
  obtain t1 res where acc: "accept_metadata_report t (rep_source report) (rep_seq report) False
      (metadata_report_agent lower (rep_source report) (rep_agent_label report) (rep_applies_to_source report)) = (t1, res)"
    by fastforce
  then have "resume_view t1 = resume_view t" using accept_metadata_frame(2) by (metis fst_conv)
  then show "resume_view (fst (set_agent_metadata lower t report now)) = resume_view t"
    unfolding set_agent_metadata_def acc Let_def split_beta
    by (auto simp: frame_simps split: sum.split bool.split)
  show "resume_view (fst (expire_agent_metadata_at lower t sd now)) = resume_view t"
    by (simp add: expire_agent_metadata_at_def Let_def split_beta frame_simps recompute_settles)
qed

lemma other_resume:
  "resume_view (fst (finish_agent_process_acquisition t)) = resume_view t"
  "resume_view (fst (set_terminal_title t ttl)) = resume_view t"
  "resume_view (set_manual_label t lbl) = resume_view t"
  "resume_view (clear_manual_label t) = resume_view t"
  "resume_view (set_agent_name lower t nm) = resume_view t"
  "resume_view (begin_managed_agent lower t nm k us now sd to) = resume_view t"
  "resume_view (fst (observe_codex_prompt_ready t rd)) = resume_view t"
  "resume_view (fst (reconcile_managed_agent_at lower t now ex)) = resume_view t"
  "resume_view (restore_managed_agent lower t nm k us) = resume_view t"
  "resume_view (set_persisted_agent_session t ps) = resume_view t"
  "resume_view (set_managed_agent_launch_session t ps) = resume_view t"
  "resume_view (with_launch_argv t argv) = resume_view t"
  "resume_view (with_respawn_shell_on_exit t) = resume_view t"
  "resume_view (with_pending_agent_resume_plan t pl) = resume_view t"
  "resume_view (clear_agent_runtime_identity_after_respawn t) = resume_view t"
  subgoal by (simp add: finish_agent_process_acquisition_def Let_def frame_simps)
  subgoal by (simp add: set_terminal_title_def Let_def resume_view_def)
  subgoal by (simp add: set_manual_label_def resume_view_def)
  subgoal by (simp add: clear_manual_label_def resume_view_def)
  subgoal by (simp add: set_agent_name_def Let_def resume_view_def)
  subgoal by (simp add: begin_managed_agent_def set_agent_name_def Let_def resume_view_def)
  subgoal by (simp add: observe_codex_prompt_ready_def frame_simps)
  subgoal by (simp add: reconcile_managed_agent_at_def Let_def frame_simps split: option.split managed_agent_phase.split)
  subgoal by (simp add: restore_managed_agent_def set_agent_name_def Let_def resume_view_def)
  subgoal by (simp add: set_persisted_agent_session_def frame_simps)
  subgoal by (simp add: set_managed_agent_launch_session_def resume_view_def)
  subgoal by (simp add: with_launch_argv_def resume_view_def)
  subgoal by (simp add: with_respawn_shell_on_exit_def resume_view_def)
  subgoal by (simp add: with_pending_agent_resume_plan_def resume_view_def)
  subgoal by (simp add: clear_agent_runtime_identity_after_respawn_def frame_simps) (simp add: resume_view_def)
  done

lemma record_resume:
  "rv_step (resume_view t) (resume_view (fst (record_reported_resume lower t src l seq argv)))"
  "rv_step (resume_view t) (resume_view (reconcile_reported_resume t))"
  "rv_step (resume_view t) (resume_view (restore_reported_resume t rr))"
  by (simp_all add: record_reported_resume_def reconcile_reported_resume_def restore_reported_resume_def Let_def
      frame_simps split: option.split)

theorem resume_revision_tracks_changes:
  "reported_resume_revision (terminal_exec lower op t) =
     reported_resume_revision t + (if reported_resume (terminal_exec lower op t) = reported_resume t then 0 else 1)"
proof -
  have "rv_step (resume_view t) (resume_view (terminal_exec lower op t))"
    by (cases op)
       (simp_all add: set_hook_authority_with_session_ref_def detected_process_resume detected_resume hook_resume
         session_resume clear_hook_resume release_resume clear_self_reported_resume metadata_resume other_resume
         record_resume clear_agent_name_frame)
  then show ?thesis by (simp add: rv_step_def resume_view_def)
qed

subsection \<open>Two gaps in the session bookkeeping\<close>

lemma full_lifecycle_not_codex: "full_lifecycle_hook_authority src l \<Longrightarrow> \<not> codex_source src l"
  by (auto simp: full_lifecycle_hook_authority_def codex_source_def)


lemma set_hook_accepted:
  assumes "full_lifecycle_hook_authority src l"
    and "route_full_lifecycle_hook_report lower t src l st msg r seq now = (t, Accept True)"
    and "\<not> hook_report_refused lower t src l r"
  shows "\<exists>t1. hook_report_sequences t1 = (case seq of Some s \<Rightarrow> hm_insert src s (hm_remove src (hook_report_sequences t))
        | None \<Rightarrow> hm_remove src (hook_report_sequences t))
      \<and> suppressed_full_lifecycle_hook_reports t1 = suppressed_full_lifecycle_hook_reports t
      \<and> stale_full_lifecycle_hook_sessions t1 = stale_full_lifecycle_hook_sessions t
      \<and> set_hook_authority_at lower t src l st msg r seq now clock =
          map_prod (\<lambda>x. x) Some (install_hook_authority lower t1 src l st msg (accepted_session_ref t src l r)
            (takeover_by_hook_report lower t src l r) True now clock)"
proof -
  let ?u = "t\<lparr>hook_report_sequences := hm_remove src (hook_report_sequences t)\<rparr>"
  let ?t1 = "case seq of Some s \<Rightarrow> ?u\<lparr>hook_report_sequences := hm_insert src s (hook_report_sequences ?u)\<rparr> | None \<Rightarrow> ?u"
  have "accept_hook_report ?u src seq = (?t1, True)"
    by (simp add: accept_hook_report_def hook_report_is_newer_def hm.get_del split: option.split)
  then have "set_hook_authority_at lower t src l st msg r seq now clock =
      map_prod (\<lambda>x. x) Some (install_hook_authority lower ?t1 src l st msg (accepted_session_ref t src l r)
        (takeover_by_hook_report lower t src l r) True now clock)"
    using assms full_lifecycle_not_identity_only [OF assms(1)]
    by (simp add: set_hook_authority_at_def commit_hook_report_def)
  then show ?thesis by (intro exI [of _ ?t1]) (simp split: option.split)
qed

theorem replaced_session_unordered:
  assumes "full_lifecycle_hook_authority src l" and "process_present lower t l"
    and "hook_authority t = Some a" and "ha_source a = src" and "ha_agent_label a = l" and "ha_session_ref a = Some r"
    and "hm_get (suppressed_full_lifecycle_hook_reports t) src = None"
    and "hm_get (stale_full_lifecycle_hook_sessions t) src = Some sts"
    and "\<exists>s \<in> set sts. stale_agent_label s = l"
    and "\<forall>s \<in> set sts. stale_agent_label s = l \<longrightarrow> stale_session_ref s \<noteq> r"
  shows "\<exists>t' m. set_hook_authority_at lower t src l st msg (Some r) seq now clock = (t', Some m)
      \<and> hook_authority t' = Some \<lparr>ha_source = src, ha_agent_label = l, ha_state = st, ha_message = msg,
          ha_reported_at = now, ha_session_ref = Some r\<rparr>"
proof -
  have "\<not> full_lifecycle_hook_report_matches_stale_session t src l (Some r)"
    "full_lifecycle_hook_report_has_fresh_session_after_stale_session t src l (Some r)"
    using assms by (auto simp: full_lifecycle_hook_report_matches_stale_session_def list_ex_iff list_all_iff
        full_lifecycle_hook_report_has_fresh_session_after_stale_session_def)
  then have route: "route_full_lifecycle_hook_report lower t src l st msg (Some r) seq now = (t, Accept True)"
    using assms by (simp add: route_full_lifecycle_hook_report_def Let_def)
  have ref: "accepted_session_ref t src l (Some r) = Some r"
    using assms(3-6) by (simp add: accepted_session_ref_def conflicting_same_owner_session_ref_def
        current_session_identity_for_persistence_def)
  have "\<not> hook_report_refused lower t src l (Some r)"
    using assms(2-6) full_lifecycle_not_codex [OF assms(1)] ref
    by (auto simp: hook_report_refused_def process_present_def known_agent_label_conflicts_with_detected_agent_def
        current_session_owner_conflicts_def current_session_identity_for_persistence_def
        live_full_lifecycle_hook_authority_conflicts_with_session_def split: option.splits)
  from set_hook_accepted [OF assms(1) route this, of clock] ref show ?thesis
    by (auto simp: map_prod_def split_beta install_authority)
qed





subsection \<open>Instances\<close>

text \<open>A terminal in which \<open>pi\<close> runs and its integration has reported \<open>Working\<close> for session \<open>a\<close> at instant 5.\<close>

abbreviation pi_session :: "string \<Rightarrow> agent_session_ref" where
  "pi_session v \<equiv> \<lparr>ref_kind = KindId, ref_value = v\<rparr>"

definition pi_terminal :: "unit terminal_state" where
  "pi_terminal = (terminal_state_new ''t'' ''/'')\<lparr>detected_agent := Some Pi, state := Working,
     hook_authority := Some \<lparr>ha_source = ''herden:pi'', ha_agent_label = ''pi'', ha_state = Working, ha_message = None,
       ha_reported_at = 5, ha_session_ref = Some (pi_session ''a'')\<rparr>,
     hook_report_sequences := [(''herden:pi'', 7)]\<rparr>"

lemma pi_source: "full_lifecycle_hook_authority ''herden:pi'' ''pi''"
  by (simp add: full_lifecycle_hook_authority_def integration_source_kind_def strip_prefix_def starts_with_def)

lemma pi_label: "parse_agent_label to_ascii_lowercase ''pi'' = Some Pi"
  using parse_agent_label_label [OF lower_ascii_ok, of Pi] by simp

lemma pi_fields [simp]:
  "detected_agent pi_terminal = Some Pi" "recent_agent_process_exit pi_terminal = None"
  "hook_authority pi_terminal = Some \<lparr>ha_source = ''herden:pi'', ha_agent_label = ''pi'', ha_state = Working,
     ha_message = None, ha_reported_at = 5, ha_session_ref = Some (pi_session ''a'')\<rparr>"
  "suppressed_full_lifecycle_hook_reports pi_terminal = []" "stale_full_lifecycle_hook_sessions pi_terminal = []"
  "hook_report_sequences pi_terminal = [(''herden:pi'', 7)]"
  "agent_name pi_terminal = None" "persisted_agent_session pi_terminal = None" "state pi_terminal = Working"
  by (simp_all add: pi_terminal_def terminal_state_new_def)

lemma pi_live: "live_full_lifecycle_hook_authority to_ascii_lowercase pi_terminal"
  by (simp add: live_full_lifecycle_hook_authority_def hook_authority_is_effective_def pi_source pi_label)

theorem outdated_report_ignored_witness:
  "set_hook_authority_at to_ascii_lowercase pi_terminal ''herden:pi'' ''pi'' Idle None (Some (pi_session ''a'')) (Some 7) 9 9
     = (pi_terminal, None)"
  using outdated_report_ignored [of pi_terminal "''herden:pi''" "''pi''" "Some (pi_session ''a'')" "Some 7"]
  by (simp add: hook_report_is_newer_def hm_get_def)

theorem screen_cannot_override_live_hook_witness:
  "case set_detected_state_with_screen_signals_at to_ascii_lowercase pi_terminal (Some Pi) Blocked True False False False 9 9 of
     (t', m) \<Rightarrow> hook_authority t' = hook_authority pi_terminal \<and> state t' = Working"
  using screen_cannot_override_live_hook [OF pi_live pi_fields(3), of "Some Pi" Blocked True False False 9 9]
  by (auto simp: hook_authority_conflicts_with_detected_agent_def pi_label split: prod.splits)


theorem process_exit_leaves_nothing_witness:
  "\<exists>t' m. set_detected_state_with_screen_signals_at to_ascii_lowercase pi_terminal (Some Pi) Unknown
      False False False True 9 9 = (t', m)
    \<and> effective_known_agent to_ascii_lowercase t' \<noteq> Some Pi \<and> mut_agent_released m"
proof -
  have "effective_agent_label to_ascii_lowercase pi_terminal \<noteq> None"
    by (simp add: effective_agent_label_def hook_authority_is_effective_def pi_source pi_label)
  then show ?thesis
    using process_exit_leaves_nothing [of to_ascii_lowercase pi_terminal Pi 9 Unknown False False False 9]
    by (cases "set_detected_state_with_screen_signals_at to_ascii_lowercase pi_terminal (Some Pi) Unknown False False False True 9 9")
       (simp add: newer_custom_authority_def)
qed

theorem managed_agent_settles_witness:
  "agent_name (fst (reconcile_managed_agent_at to_ascii_lowercase
     (pi_terminal\<lparr>agent_name := Some ''n'', managed_agent := Some \<lparr>managed_kind = Pi, managed_phase = MActive\<rparr>\<rparr>) 9 True)) = None"
  (is "agent_name (fst (reconcile_managed_agent_at _ ?t _ _)) = None")
proof -
  have "managed_agent (fst (reconcile_managed_agent_at to_ascii_lowercase ?t 9 True)) = None"
    by (simp add: reconcile_managed_agent_at_def Let_def)
  then show ?thesis using managed_agent_settles [where lower = to_ascii_lowercase and t = ?t and now = 9 and ex = True] by (auto split: prod.splits)
qed

theorem accepted_report_installed_witness:
  "\<exists>t' m. set_hook_authority_at to_ascii_lowercase pi_terminal ''herden:pi'' ''pi'' Idle None (Some (pi_session ''a'')) (Some 8) 9 9
       = (t', Some m)
     \<and> hm_get (hook_report_sequences t') ''herden:pi'' = Some 8"
proof -
  have ref: "accepted_session_ref pi_terminal ''herden:pi'' ''pi'' (Some (pi_session ''a'')) = Some (pi_session ''a'')"
    by (simp add: accepted_session_ref_def conflicting_same_owner_session_ref_def
        current_session_identity_for_persistence_def)
  have "\<not> hook_report_refused to_ascii_lowercase pi_terminal ''herden:pi'' ''pi'' (Some (pi_session ''a''))"
    using full_lifecycle_not_codex [OF pi_source] ref pi_label
    by (auto simp: hook_report_refused_def known_agent_label_conflicts_with_detected_agent_def
        current_session_owner_conflicts_def current_session_identity_for_persistence_def
        live_full_lifecycle_hook_authority_conflicts_with_session_def split: option.splits)
  moreover have "route_full_lifecycle_hook_report to_ascii_lowercase pi_terminal ''herden:pi'' ''pi'' Idle None
      (Some (pi_session ''a'')) (Some 8) 9 = (pi_terminal, Accept False)"
    by (simp add: route_full_lifecycle_hook_report_def Let_def pi_source process_present_def pi_label hm_get_def
        full_lifecycle_hook_report_matches_stale_session_def
        full_lifecycle_hook_report_has_fresh_session_after_stale_session_def)
  ultimately have "snd (set_hook_authority_at to_ascii_lowercase pi_terminal ''herden:pi'' ''pi'' Idle None
      (Some (pi_session ''a'')) (Some 8) 9 9) \<noteq> None"
    using full_lifecycle_not_identity_only [OF pi_source]
    by (simp add: set_hook_authority_at_def commit_hook_report_def accept_hook_report_def
        hook_report_is_newer_def hm_get_def pi_source split_beta)
  then obtain t' m where acc: "set_hook_authority_at to_ascii_lowercase pi_terminal ''herden:pi'' ''pi'' Idle None
      (Some (pi_session ''a'')) (Some 8) 9 9 = (t', Some m)"
    by (metis not_None_eq surjective_pairing)
  from accepted_report_installed [OF acc] acc show ?thesis by auto
qed

theorem replaced_session_unordered_witness:
  "\<exists>t' m. set_hook_authority_at to_ascii_lowercase
       (pi_terminal\<lparr>stale_full_lifecycle_hook_sessions :=
          [(''herden:pi'', [\<lparr>stale_agent_label = ''pi'', stale_session_ref = pi_session ''old''\<rparr>])]\<rparr>)
       ''herden:pi'' ''pi'' Idle None (Some (pi_session ''a'')) (Some 3) 9 9 = (t', Some m)"
  using replaced_session_unordered [OF pi_source, of to_ascii_lowercase
    "pi_terminal\<lparr>stale_full_lifecycle_hook_sessions :=
          [(''herden:pi'', [\<lparr>stale_agent_label = ''pi'', stale_session_ref = pi_session ''old''\<rparr>])]\<rparr>"
    "\<lparr>ha_source = ''herden:pi'', ha_agent_label = ''pi'', ha_state = Working,
     ha_message = None, ha_reported_at = 5, ha_session_ref = Some (pi_session ''a'')\<rparr>" "pi_session ''a''"
    "[\<lparr>stale_agent_label = ''pi'', stale_session_ref = pi_session ''old''\<rparr>]" Idle None "Some 3" 9 9]
  by (auto simp: process_present_def pi_label hm_get_def)



end
