(* ===== verification/Surface.thy ===== *)
theory Surface
  imports Rust_Str
begin

text \<open>
  Pane surfaces: what the server draws of a tab and sends to a client
  (\<^verbatim>\<open>runtime/src/protocol/wire.rs\<close>).  A frame is a row-major grid of cells with its size, cursor,
  hyperlinks and graphics; a patch replaces spans of cells within rows.

  A \<open>usize\<close> that the sources compute from \<open>u16\<close> coordinates and the lengths of vectors stays below
  \<open>2 ^ 33 + isize::MAX\<close> and cannot wrap, so it is a \<open>nat\<close> here.  Indexing or slicing out of range panics;
  such operations return \<open>None\<close>.  Messages that the surface code passes through unread are the
  type parameter \<open>'o\<close> of \<open>server_message\<close>.
\<close>

named_theorems grid_simps \<open>reading a grid after writing spans\<close>

subsection \<open>Data\<close>

type_synonym u8 = "8 word"

record cell_data =
  cell_symbol :: string
  cell_fg :: u32
  cell_bg :: u32
  cell_modifier :: u16
  cell_skip :: bool
  cell_hyperlink :: "u32 option"

record cursor_state =
  cursor_x :: u16
  cursor_y :: u16
  cursor_visible :: bool
  cursor_shape :: u8

record frame_data =
  frame_cells :: "cell_data list"
  frame_width :: u16
  frame_height :: u16
  frame_cursor :: "cursor_state option"
  frame_hyperlinks :: "string list"
  frame_graphics :: "u8 list"

record surface_rect =
  srect_x :: u16
  srect_y :: u16
  srect_width :: u16
  srect_height :: u16

record pane_surface_scroll_metrics =
  offset_from_bottom :: u64
  max_offset_from_bottom :: u64
  viewport_rows :: u64

record pane_surface_pane =
  sp_pane_id :: string
  sp_content_revision :: u64
  sp_rect :: surface_rect
  sp_inner_rect :: surface_rect
  sp_scrollbar_rect :: "surface_rect option"
  sp_scroll :: "pane_surface_scroll_metrics option"
  sp_focused :: bool
  sp_mouse_reporting :: bool
  sp_sgr_pixel_mouse :: bool
  sp_alternate_screen_active :: bool
  sp_pixel_width :: u32
  sp_pixel_height :: u32

datatype pane_surface_split_direction = SplitHorizontal | SplitVertical

record pane_surface_split =
  ss_direction :: pane_surface_split_direction
  ss_pos :: u16
  ss_area :: surface_rect
  ss_hit_rect :: surface_rect
  ss_path :: "bool list"

datatype surface_graphics_target = TargetPane string | TargetPopup string

datatype surface_graphics_source =
    SourceTerminal surface_graphics_target u32
  | SourcePaneLayer string string

datatype surface_graphics_format = FormatRgb | FormatRgba | FormatPng

record surface_graphics_asset_key =
  key_source :: surface_graphics_source
  key_image_width :: u32
  key_image_height :: u32
  key_format :: surface_graphics_format
  key_data_len :: u64
  key_data_fingerprint :: u64

record surface_graphics_asset =
  asset_key :: surface_graphics_asset_key
  asset_data :: "u8 list"

record surface_graphics_placement =
  place_asset :: surface_graphics_asset_key
  place_logical_placement_id :: u32
  place_x :: u16
  place_y :: u16
  place_cols :: u32
  place_rows :: u32
  place_source_x :: u32
  place_source_y :: u32
  place_source_width :: u32
  place_source_height :: u32
  place_x_offset :: u32
  place_y_offset :: u32
  place_z :: "32 word"
  place_scrollback_offset :: u32

record surface_graphics_scene =
  scene_assets :: "surface_graphics_asset list"
  scene_placements :: "surface_graphics_placement list"
  scene_retained_assets :: "surface_graphics_asset_key list"

datatype client_shell_popup_size = PopupCells u16 | PopupPercent u8

record client_shell_popup_surface =
  popup_terminal_id :: string
  popup_title :: string
  popup_width :: "client_shell_popup_size option"
  popup_height :: "client_shell_popup_size option"
  popup_frame :: frame_data
  popup_mouse_reporting :: bool
  popup_sgr_pixel_mouse :: bool
  popup_pixel_width :: u32
  popup_pixel_height :: u32

record pane_surface_frame =
  sf_boot_id :: string
  sf_projection_revision :: u64
  sf_surface_revision :: u64
  sf_frame :: frame_data
  sf_panes :: "pane_surface_pane list"
  sf_splits :: "pane_surface_split list"
  sf_popup :: "client_shell_popup_surface option"
  sf_graphics :: surface_graphics_scene

record pane_surface_patch_row =
  row_x :: u16
  row_y :: u16
  row_cells :: "cell_data list"

record pane_surface_patch =
  patch_boot_id :: string
  patch_projection_revision :: u64
  patch_base_surface_revision :: u64
  patch_surface_revision :: u64
  patch_rows :: "pane_surface_patch_row list"
  patch_panes :: "pane_surface_pane list"
  patch_cursor :: "cursor_state option"

datatype 'o server_message =
    PaneSurface pane_surface_frame
  | PaneSurfacePatch pane_surface_patch
  | EndpointControl string string
  | OtherMessage 'o

definition MAX_FRAME_SIZE :: nat where
  "MAX_FRAME_SIZE = 2 * 1024 * 1024"

definition MAX_GRAPHICS_FRAME_SIZE :: nat where
  "MAX_GRAPHICS_FRAME_SIZE = 32 * 1024 * 1024"

subsection \<open>Grids\<close>

text \<open>\<open>cells[start..start + new.len()].clone_from_slice(new)\<close>; out of range it panics.\<close>

definition write_cells :: "'a list \<Rightarrow> nat \<Rightarrow> 'a list \<Rightarrow> 'a list option" where
  "write_cells cells start new =
     (if start + length new \<le> length cells
      then Some (take start cells @ new @ drop (start + length new) cells) else None)"

definition row_start :: "u16 \<Rightarrow> pane_surface_patch_row \<Rightarrow> nat" where
  "row_start width row = unat (row_y row) * unat width + unat (row_x row)"

fun apply_rows :: "cell_data list \<Rightarrow> u16 \<Rightarrow> pane_surface_patch_row list \<Rightarrow> cell_data list option" where
  "apply_rows cells width [] = Some cells"
| "apply_rows cells width (row # rows) =
     (case write_cells cells (row_start width row) (row_cells row) of
        None \<Rightarrow> None
      | Some cells' \<Rightarrow> apply_rows cells' width rows)"

text \<open>
  The meaning of a patch: cell \<open>i\<close> of the grid afterwards; the last row that covers a cell decides.
\<close>

definition row_covers :: "u16 \<Rightarrow> pane_surface_patch_row \<Rightarrow> nat \<Rightarrow> bool" where
  "row_covers width row i \<longleftrightarrow> row_start width row \<le> i \<and> i < row_start width row + length (row_cells row)"

definition patched_cell :: "cell_data \<Rightarrow> u16 \<Rightarrow> pane_surface_patch_row list \<Rightarrow> nat \<Rightarrow> cell_data" where
  "patched_cell base width rows i =
     (case List.find (\<lambda>row. row_covers width row i) (rev rows) of
        Some row \<Rightarrow> row_cells row ! (i - row_start width row)
      | None \<Rightarrow> base)"

lemma write_cells_Some: "write_cells cells start new \<noteq> None \<longleftrightarrow> start + length new \<le> length cells"
  by (simp add: write_cells_def)

lemma length_write_cells [grid_simps]: "write_cells cells start new = Some cells' \<Longrightarrow> length cells' = length cells"
  by (auto simp: write_cells_def split: if_splits)

lemma nth_write_cells [grid_simps]:
  assumes "write_cells cells start new = Some cells'" and "i < length cells"
  shows "cells' ! i = (if start \<le> i \<and> i < start + length new then new ! (i - start) else cells ! i)"
  using assms by (auto simp: write_cells_def nth_append split: if_splits)

lemma apply_rows_Some:
  "apply_rows cells width rows \<noteq> None \<longleftrightarrow>
   (\<forall>row \<in> set rows. row_start width row + length (row_cells row) \<le> length cells)"
proof (induction rows arbitrary: cells)
  case (Cons row rows)
  show ?case
  proof (cases "write_cells cells (row_start width row) (row_cells row)")
    case None
    then show ?thesis by (auto simp: write_cells_def split: if_splits)
  next
    case (Some cells')
    then have "row_start width row + length (row_cells row) \<le> length cells"
      by (auto simp: write_cells_def split: if_splits)
    with Some Cons.IH [of cells'] show ?thesis by (simp add: length_write_cells [OF Some])
  qed
qed simp

lemma length_apply_rows: "apply_rows cells width rows = Some cells' \<Longrightarrow> length cells' = length cells"
  by (induction rows arbitrary: cells) (auto split: option.splits dest: length_write_cells)

lemma find_append:
  "List.find P (xs @ ys) = (case List.find P xs of Some x \<Rightarrow> Some x | None \<Rightarrow> List.find P ys)"
  by (induction xs) simp_all

lemma patched_cell_simps:
  "patched_cell base width [] i = base"
  "patched_cell base width (row # rows) i =
     patched_cell (if row_covers width row i then row_cells row ! (i - row_start width row) else base) width rows i"
  by (simp_all add: patched_cell_def find_append split: option.split)

lemma patched_cell_append:
  "patched_cell base width (rows @ rows') i = patched_cell (patched_cell base width rows i) width rows' i"
  by (simp add: patched_cell_def find_append split: option.split)

lemma nth_apply_rows:
  "apply_rows cells width rows = Some cells' \<Longrightarrow> i < length cells \<Longrightarrow>
   cells' ! i = patched_cell (cells ! i) width rows i"
proof (induction rows arbitrary: cells)
  case Nil
  then show ?case by (simp add: patched_cell_simps)
next
  case (Cons row rows)
  then obtain mid where mid: "write_cells cells (row_start width row) (row_cells row) = Some mid"
    and rest: "apply_rows mid width rows = Some cells'"
    by (auto split: option.splits)
  have "cells' ! i = patched_cell (mid ! i) width rows i"
    using Cons.IH [OF rest] Cons.prems(2) length_write_cells [OF mid] by simp
  with nth_write_cells [OF mid Cons.prems(2)] show ?case
    by (simp add: patched_cell_simps row_covers_def)
qed

lemma patched_cell_uncovered: "\<forall>row \<in> set rows. \<not> row_covers width row i \<Longrightarrow> patched_cell base width rows i = base"
  by (auto simp: patched_cell_def find_None_iff split: option.split dest: find_mem)

lemma patched_cell_value:
  assumes "row \<in> set rows" and "row_covers width row i"
    and "\<And>row'. row' \<in> set rows \<Longrightarrow> row_covers width row' i \<Longrightarrow> row_cells row' ! (i - row_start width row') = v"
  shows "patched_cell base width rows i = v"
  using assms by (auto simp: patched_cell_def find_None_iff split: option.split dest: find_mem)

end
