(* ===== verification/Wire.thy ===== *)
theory Wire
  imports Surface
begin

text \<open>
  Framing of messages (\<^verbatim>\<open>runtime/src/protocol/wire.rs\<close>): a little-endian length and a bincode payload.

  The serializer \<open>bincode\<close> and the \<open>base64\<close> engine are not part of the sources.  They are the fields of
  the argument \<open>C\<close>: \<open>bin_encode\<close> and \<open>bin_decode\<close> (the value and how many bytes it took, or the text of
  the error), \<open>b64_encode\<close>, \<open>b64_decode\<close> and \<open>b64_len\<close> (\<open>encoded_len\<close> without padding).
  A byte vector is the writer, the rest of a slice the reader.
\<close>

subsection \<open>Third-party encoders\<close>

record 'm codec =
  bin_encode :: "'m \<Rightarrow> string + u8 list"
  bin_decode :: "u8 list \<Rightarrow> string + ('m \<times> nat)"
  b64_encode :: "u8 list \<Rightarrow> string"
  b64_decode :: "string \<Rightarrow> string + u8 list"
  b64_len :: "nat \<Rightarrow> nat option"

text \<open>What the sources rely on: decoding an encoding gives the value and takes all of it, and base64 text is
  not shorter than the bytes.\<close>

definition bincode_roundtrip :: "('m, 'z) codec_scheme \<Rightarrow> bool" where
  "bincode_roundtrip C \<longleftrightarrow> (\<forall>m bytes. bin_encode C m = Inr bytes \<longrightarrow> bin_decode C bytes = Inr (m, length bytes))"

definition base64_roundtrip :: "('m, 'z) codec_scheme \<Rightarrow> bool" where
  "base64_roundtrip C \<longleftrightarrow>
     (\<forall>bytes. b64_decode C (b64_encode C bytes) = Inr bytes
        \<and> b64_len C (length bytes) = Some (length (b64_encode C bytes)))
     \<and> (\<forall>n m. b64_len C n = Some m \<longrightarrow> n \<le> m)"

text \<open>A string is written as its length and its bytes.\<close>

definition bincode_string_size :: "('o server_message, 'z) codec_scheme \<Rightarrow> bool" where
  "bincode_string_size C \<longleftrightarrow>
     (\<forall>kind data bytes. bin_encode C (EndpointControl kind data) = Inr bytes \<longrightarrow> length data \<le> length bytes)"

subsection \<open>Bytes and numerals\<close>

fun to_le :: "nat \<Rightarrow> nat \<Rightarrow> u8 list" where
  "to_le 0 n = []"
| "to_le (Suc k) n = of_nat n # to_le k (n div 256)"

fun from_le :: "u8 list \<Rightarrow> nat" where
  "from_le [] = 0"
| "from_le (b # bs) = unat b + 256 * from_le bs"

fun show_nat :: "nat \<Rightarrow> string" where
  "show_nat n = (if n < 10 then [char_of (48 + n)] else show_nat (n div 10) @ [char_of (48 + n mod 10)])"

declare show_nat.simps [simp del]

lemma length_to_le [simp]: "length (to_le k n) = k"
  by (induction k arbitrary: n) simp_all

lemma from_to_le: "n < 256 ^ k \<Longrightarrow> from_le (to_le k n) = n"
proof (induction k arbitrary: n)
  case (Suc k)
  then have "n div 256 < 256 ^ k" by (simp add: div_less_iff_less_mult mult.commute)
  with Suc.IH show ?case by (simp add: unat_of_nat)
qed simp

subsection \<open>Framing\<close>

datatype framing_error = Oversized nat nat | Io string | Bincode string | UnexpectedEof

fun show_framing_error :: "framing_error \<Rightarrow> string" where
  "show_framing_error (Oversized claimed limit) =
     ''frame size '' @ show_nat claimed @ '' exceeds maximum '' @ show_nat limit"
| "show_framing_error (Io e) = ''I/O error: '' @ e"
| "show_framing_error (Bincode e) = ''bincode error: '' @ e"
| "show_framing_error UnexpectedEof = ''unexpected end of stream''"

definition LENGTH_PREFIX_BYTES :: nat where
  "LENGTH_PREFIX_BYTES = 4"

definition write_message :: "('m, 'z) codec_scheme \<Rightarrow> u8 list \<Rightarrow> 'm \<Rightarrow> framing_error + u8 list" where
  "write_message C writer msg =
     (case bin_encode C msg of
        Inl e \<Rightarrow> Inl (Bincode e)
      | Inr payload \<Rightarrow>
          if length payload > 2 ^ 32 - 1
          then Inl (Bincode (''payload length '' @ show_nat (length payload) @ '' exceeds u32::MAX (''
            @ show_nat (2 ^ 32 - 1) @ ''), would be truncated by length prefix''))
          else Inr (writer @ to_le LENGTH_PREFIX_BYTES (length payload) @ payload))"

text \<open>\<open>read_exact\<close> on a slice takes the bytes or, when there are too few, leaves the slice empty.\<close>

definition read_exact_or_eof :: "u8 list \<Rightarrow> nat \<Rightarrow> (framing_error + u8 list) \<times> u8 list" where
  "read_exact_or_eof reader n =
     (if n \<le> length reader then (Inr (take n reader), drop n reader) else (Inl UnexpectedEof, []))"

definition read_message :: "('m, 'z) codec_scheme \<Rightarrow> u8 list \<Rightarrow> nat \<Rightarrow> (framing_error + 'm) \<times> u8 list" where
  "read_message C reader max_frame_size =
     (case read_exact_or_eof reader LENGTH_PREFIX_BYTES of
        (Inl e, rest) \<Rightarrow> (Inl e, rest)
      | (Inr len_buf, rest) \<Rightarrow>
          let claimed_len = from_le len_buf
          in if claimed_len > max_frame_size then (Inl (Oversized claimed_len max_frame_size), rest)
             else
               (case read_exact_or_eof rest claimed_len of
                  (Inl e, rest) \<Rightarrow> (Inl e, rest)
                | (Inr payload, rest) \<Rightarrow>
                    (case bin_decode C payload of
                       Inl e \<Rightarrow> (Inl (Bincode e), rest)
                     | Inr (msg, consumed) \<Rightarrow>
                         if consumed \<noteq> claimed_len
                         then (Inl (Bincode (''decoded '' @ show_nat consumed @ '' bytes but payload length was ''
                           @ show_nat claimed_len @ ''; trailing bytes are not allowed'')), rest)
                         else (Inr msg, rest))))"

lemma write_read_message:
  assumes "bincode_roundtrip C" and "write_message C [] msg = Inr bytes"
    and "length bytes \<le> max_frame_size + LENGTH_PREFIX_BYTES"
  shows "read_message C (bytes @ rest) max_frame_size = (Inr msg, rest)"
proof -
  from assms(2) obtain payload where enc: "bin_encode C msg = Inr payload" and short: "length payload < 2 ^ 32"
    and bytes: "bytes = to_le LENGTH_PREFIX_BYTES (length payload) @ payload"
    by (auto simp: write_message_def split: sum.splits if_splits)
  have len: "from_le (to_le 4 (length payload)) = length payload"
    using short by (intro from_to_le) simp
  have "bin_decode C payload = Inr (msg, length payload)"
    using assms(1) enc by (simp add: bincode_roundtrip_def)
  with assms(3) show ?thesis
    by (simp add: read_message_def read_exact_or_eof_def bytes LENGTH_PREFIX_BYTES_def len)
qed

text \<open>A truncated frame is an end of stream, never a message.\<close>

lemma read_truncated:
  assumes "write_message C [] msg = Inr bytes" and "length bytes \<le> max_frame_size + LENGTH_PREFIX_BYTES"
    and "n < length bytes"
  shows "read_message C (take n bytes) max_frame_size = (Inl UnexpectedEof, [])"
proof -
  from assms(1) obtain payload where short: "length payload < 2 ^ 32"
    and bytes: "bytes = to_le LENGTH_PREFIX_BYTES (length payload) @ payload"
    by (auto simp: write_message_def split: sum.splits if_splits)
  have len: "from_le (to_le 4 (length payload)) = length payload"
    using short by (intro from_to_le) simp
  show ?thesis
  proof (cases "n < 4")
    case True
    then show ?thesis by (simp add: read_message_def read_exact_or_eof_def LENGTH_PREFIX_BYTES_def bytes)
  next
    case False
    then have "take n bytes = to_le 4 (length payload) @ take (n - 4) payload"
      by (simp add: bytes LENGTH_PREFIX_BYTES_def)
    moreover have "\<not> length payload \<le> n - 4" using False assms(3) by (simp add: bytes LENGTH_PREFIX_BYTES_def)
    ultimately show ?thesis using assms(2)
      by (simp add: read_message_def read_exact_or_eof_def LENGTH_PREFIX_BYTES_def len bytes Let_def)
  qed
qed

text \<open>
C26. A framed message is read back whatever follows it in the stream, a proper prefix of it is
an end of stream, and a reader that allows less than the payload refuses it by its length alone.
\<close>

theorem framed_message_roundtrip:
  assumes "bincode_roundtrip C" and "write_message C writer msg = Inr out" and "frame = drop (length writer) out"
    and "length frame = LENGTH_PREFIX_BYTES + n"
  shows "out = writer @ frame
    \<and> (n \<le> limit \<longrightarrow> read_message C (frame @ rest) limit = (Inr msg, rest)
        \<and> (\<forall>k < length frame. read_message C (take k frame) limit = (Inl UnexpectedEof, [])))
    \<and> (limit < n \<longrightarrow> fst (read_message C (frame @ rest) limit) = Inl (Oversized n limit))"
proof -
  from assms(2) obtain payload where enc: "bin_encode C msg = Inr payload" and short: "length payload < 2 ^ 32"
    and out: "out = writer @ to_le LENGTH_PREFIX_BYTES (length payload) @ payload"
    by (auto simp: write_message_def split: sum.splits if_splits)
  then have frame: "frame = to_le LENGTH_PREFIX_BYTES (length payload) @ payload" and w: "write_message C [] msg = Inr frame"
    using assms(3) by (auto simp: write_message_def)
  have n: "n = length payload" using assms(4) by (simp add: frame)
  have "from_le (to_le 4 (length payload)) = length payload" using short by (intro from_to_le) simp
  then have "fst (read_message C (frame @ rest) limit) = Inl (Oversized n limit)" if "limit < n"
    using that by (simp add: read_message_def read_exact_or_eof_def frame LENGTH_PREFIX_BYTES_def n)
  with out frame write_read_message [OF assms(1) w] read_truncated [OF w] assms(4) show ?thesis by auto
qed

theorem framed_message_roundtrip_witness:
  "\<exists>C :: u8 codec. bincode_roundtrip C \<and> write_message C [9] 7 = Inr [9, 1, 0, 0, 0, 7]
     \<and> read_message C [1, 0, 0, 0, 7, 5] 1 = (Inr 7, [5])"
proof -
  define C :: "u8 codec" where "C = \<lparr>bin_encode = (\<lambda>m. Inr [m]),
     bin_decode = (\<lambda>bytes. case bytes of [m] \<Rightarrow> Inr (m, 1) | _ \<Rightarrow> Inl []), b64_encode = (\<lambda>_. []), b64_decode = (\<lambda>_. Inl []), b64_len = Some\<rparr>"
  have laws: "bincode_roundtrip C" by (simp add: bincode_roundtrip_def C_def)
  have "to_le 4 1 = ([1, 0, 0, 0] :: u8 list)" by code_simp
  then have w: "write_message C [9] 7 = Inr [9, 1, 0, 0, 0, 7]" by (simp add: write_message_def C_def LENGTH_PREFIX_BYTES_def)
  have frame: "[1, 0, 0, 0, 7] = drop (length [9 :: u8]) [9 :: u8, 1, 0, 0, 0, 7]" "length [1 :: u8, 0, 0, 0, 7] = LENGTH_PREFIX_BYTES + 1"
    by (simp_all add: LENGTH_PREFIX_BYTES_def)
  from framed_message_roundtrip [OF laws w frame, of 1 "[5]"] laws w show ?thesis by auto
qed

end
