(* ===== verification/Surface_Scroll.thy ===== *)
theory Surface_Scroll
  imports Wire "HOL-Library.Product_Lexorder"
begin

text \<open>
  Scroll-aware delivery of surface patches (\<^verbatim>\<open>runtime/src/protocol/surface_scroll.rs\<close>).  Scrolling
  output moves every row of a pane; the encoder finds the vertical shift that best explains a patch
  and sends the shift and the cells that still differ, and the receiver turns both back into a patch.

  The sources write a scroll as a sequence of row swaps (\<open>for_each_swap\<close>), which the encoder runs on row
  numbers and the receiver on the cells.  Row fingerprints only choose the shift.
\<close>

unbundle bit_operations_syntax

subsection \<open>Data\<close>

type_synonym i16 = "16 word"

record surface_scroll =
  scroll_rect :: surface_rect
  scroll_shift :: i16

record scroll_patch =
  sc_scrolls :: "surface_scroll list"
  sc_patch :: pane_surface_patch

definition MESSAGE_KIND_scroll :: string where
  "MESSAGE_KIND_scroll = ''endpoint.surface-scroll.v1''"

definition MAX_SCROLLS :: nat where
  "MAX_SCROLLS = 64"

definition SCROLL_BYTES :: nat where
  "SCROLL_BYTES = 10"

subsection \<open>Swapping rows\<close>

text \<open>A loop whose body may panic; \<open>Vec::swap\<close> panics out of range.\<close>

fun try_fold :: "('x \<Rightarrow> 's \<Rightarrow> 's option) \<Rightarrow> 'x list \<Rightarrow> 's \<Rightarrow> 's option" where
  "try_fold f [] s = Some s"
| "try_fold f (x # xs) s = (case f x s of None \<Rightarrow> None | Some s' \<Rightarrow> try_fold f xs s')"

definition vec_swap :: "nat \<Rightarrow> nat \<Rightarrow> 'a list \<Rightarrow> 'a list option" where
  "vec_swap i j xs = (if i < length xs \<and> j < length xs then Some (xs[i := xs ! j, j := xs ! i]) else None)"

definition unsigned_abs :: "i16 \<Rightarrow> nat" where
  "unsigned_abs s = nat \<bar>sint s\<bar>"

text \<open>The pairs of rows, in order; every caller has \<open>0 < distance < height\<close>, so that \<open>height - distance\<close> does not wrap.\<close>

definition swaps :: "nat \<Rightarrow> i16 \<Rightarrow> (nat \<times> nat) list" where
  "swaps height shift =
     (let distance = unsigned_abs shift
      in if sint shift > 0 then map (\<lambda>y. (y, y + distance)) [0..<height - distance]
         else map (\<lambda>y. (y, y - distance)) (rev [distance..<height]))"

definition for_each_swap :: "nat \<Rightarrow> i16 \<Rightarrow> (nat \<Rightarrow> nat \<Rightarrow> 's \<Rightarrow> 's option) \<Rightarrow> 's \<Rightarrow> 's option" where
  "for_each_swap height shift swap = try_fold (\<lambda>(a, b). swap a b) (swaps height shift)"

definition word_checked_add :: "'a::len word \<Rightarrow> 'a word \<Rightarrow> 'a word option" where
  "word_checked_add a b = (if unat a + unat b < 2 ^ LENGTH('a) then Some (a + b) else None)"

definition scroll_fits :: "surface_scroll \<Rightarrow> u16 \<Rightarrow> u16 \<Rightarrow> bool" where
  "scroll_fits scroll width height \<longleftrightarrow>
     (let rect = scroll_rect scroll
      in srect_width rect > 0 \<and> srect_height rect \<ge> 2 \<and> scroll_shift scroll \<noteq> 0
         \<and> unsigned_abs (scroll_shift scroll) < unat (srect_height rect)
         \<and> (case word_checked_add (srect_x rect) (srect_width rect) of Some right \<Rightarrow> right \<le> width | None \<Rightarrow> False)
         \<and> (case word_checked_add (srect_y rect) (srect_height rect) of Some bottom \<Rightarrow> bottom \<le> height | None \<Rightarrow> False))"

definition rects_overlap :: "surface_rect \<Rightarrow> surface_rect \<Rightarrow> bool" where
  "rects_overlap a b \<longleftrightarrow>
     srect_x a < srect_x b + srect_width b \<and> srect_x b < srect_x a + srect_width a
     \<and> srect_y a < srect_y b + srect_height b \<and> srect_y b < srect_y a + srect_height a"

fun scrolls_disjoint :: "surface_scroll list \<Rightarrow> bool" where
  "scrolls_disjoint [] = True"
| "scrolls_disjoint (scroll # rest) \<longleftrightarrow>
     list_all (\<lambda>other. \<not> rects_overlap (scroll_rect scroll) (scroll_rect other)) rest \<and> scrolls_disjoint rest"

definition row_fits :: "pane_surface_patch_row \<Rightarrow> u16 \<Rightarrow> u16 \<Rightarrow> bool" where
  "row_fits row width height \<longleftrightarrow> row_y row < height \<and> unat (row_x row) + length (row_cells row) \<le> unat width"

text \<open>First cell of row \<open>y\<close> of a rectangle.\<close>

definition rect_row_start :: "u16 \<Rightarrow> surface_rect \<Rightarrow> nat \<Rightarrow> nat" where
  "rect_row_start width rect y = (unat (srect_y rect) + y) * unat width + unat (srect_x rect)"

definition apply_scroll :: "cell_data list \<Rightarrow> u16 \<Rightarrow> surface_scroll \<Rightarrow> cell_data list option" where
  "apply_scroll cells width scroll =
     (let rect = scroll_rect scroll
      in for_each_swap (unat (srect_height rect)) (scroll_shift scroll)
           (\<lambda>a b. try_fold (\<lambda>x. vec_swap (rect_row_start width rect a + x) (rect_row_start width rect b + x))
              [0..<unat (srect_width rect)]) cells)"

subsection \<open>Detecting a shift\<close>

text \<open>
  One pane row as the patch leaves it.  \<open>cell\<close> is read below the length of \<open>base\<close> only.
\<close>

record row_view =
  view_base :: "cell_data list"
  view_left :: nat
  view_spans :: "pane_surface_patch_row list"

definition view_cell :: "row_view \<Rightarrow> nat \<Rightarrow> cell_data" where
  "view_cell v x =
     (let column = view_left v + x
      in case List.find (\<lambda>span. column \<ge> unat (row_x span)
             \<and> column < unat (row_x span) + length (row_cells span)) (rev (view_spans v)) of
           Some span \<Rightarrow> row_cells span ! (column - unat (row_x span))
         | None \<Rightarrow> view_base v ! x)"

definition mix :: "u64 \<Rightarrow> u64 \<Rightarrow> u64" where
  "mix hash v = (word_rotl 5 hash XOR v) * 0x517cc1b727220a95"

definition cell_hash :: "u64 \<Rightarrow> cell_data \<Rightarrow> u64" where
  "cell_hash hash cell =
     (let hash = foldl (\<lambda>hash byte. mix hash (of_nat (of_char byte))) hash (cell_symbol cell);
          hash = mix hash (push_bit 32 (ucast (cell_fg cell)) OR ucast (cell_bg cell))
      in mix hash
           (ucast (cell_modifier cell)
            OR push_bit 16 (if cell_skip cell then 1 else 0)
            OR push_bit 17 (case cell_hyperlink cell of None \<Rightarrow> 0 | Some index \<Rightarrow> ucast index + 1)))"

definition view_hash :: "row_view \<Rightarrow> u64" where
  "view_hash v = foldl (\<lambda>hash x. cell_hash hash (view_cell v x)) 0 [0..<length (view_base v)]"

definition fully_inside :: "pane_surface_patch_row \<Rightarrow> surface_rect \<Rightarrow> bool" where
  "fully_inside row rect \<longleftrightarrow>
     row_y row \<ge> srect_y rect \<and> row_y row - srect_y rect < srect_height rect \<and> row_x row \<ge> srect_x rect
     \<and> unat (row_x row) + length (row_cells row) \<le> unat (srect_x rect) + unat (srect_width rect)"

definition overlaps_rect :: "pane_surface_patch_row \<Rightarrow> surface_rect \<Rightarrow> bool" where
  "overlaps_rect row rect \<longleftrightarrow>
     row_y row \<ge> srect_y rect \<and> row_y row - srect_y rect < srect_height rect
     \<and> unat (row_x row) < unat (srect_x rect) + unat (srect_width rect)
     \<and> unat (row_x row) + length (row_cells row) > unat (srect_x rect)"

text \<open>\<open>&frame.cells[start..start + width]\<close>; \<open>message\<close> has checked that the rectangle lies within the grid.\<close>

definition rect_row :: "frame_data \<Rightarrow> surface_rect \<Rightarrow> nat \<Rightarrow> cell_data list" where
  "rect_row frame rect y =
     take (unat (srect_width rect)) (drop (rect_row_start (frame_width frame) rect y) (frame_cells frame))"

definition row_views :: "frame_data \<Rightarrow> surface_rect \<Rightarrow> pane_surface_patch_row list \<Rightarrow> row_view list" where
  "row_views frame rect rows =
     map (\<lambda>y. \<lparr>view_base = rect_row frame rect y, view_left = unat (srect_x rect),
               view_spans = filter (\<lambda>row. overlaps_rect row rect \<and> unat (row_y row - srect_y rect) = y) rows\<rparr>)
       [0..<unat (srect_height rect)]"

definition shift_matches :: "u64 list \<Rightarrow> u64 list \<Rightarrow> nat \<Rightarrow> int \<Rightarrow> nat" where
  "shift_matches old_hashes new_hashes height shift =
     length (filter (\<lambda>y. let src = int y + shift
         in src \<ge> 0 \<and> nat src < height \<and> new_hashes ! y = old_hashes ! nat src) [0..<height])"

fun best_shift_loop :: "(int \<Rightarrow> nat) \<Rightarrow> nat \<Rightarrow> nat list \<Rightarrow> int \<Rightarrow> nat \<Rightarrow> int \<times> nat" where
  "best_shift_loop matches height [] best_shift best = (best_shift, best)"
| "best_shift_loop matches height (distance # ds) best_shift best =
     (if height - distance \<le> best then (best_shift, best)
      else case foldl (\<lambda>(best_shift, best) shift.
              let count = matches shift in if count > best then (shift, count) else (best_shift, best))
            (best_shift, best) [int distance, - int distance] of
             (best_shift, best) \<Rightarrow> best_shift_loop matches height ds best_shift best)"

function span_end :: "(nat \<Rightarrow> bool) \<Rightarrow> nat \<Rightarrow> nat \<Rightarrow> nat" where
  "span_end differs width x = (if x < width \<and> differs x then span_end differs width (Suc x) else x)"
  by pat_completeness auto
termination by (relation "measure (\<lambda>(differs, width, x). width - x)") auto

declare span_end.simps [simp del]

lemma span_end_ge: "x \<le> span_end differs width x"
proof (induction differs width x rule: span_end.induct)
  case (1 differs width x)
  then show ?case by (subst span_end.simps) auto
qed

lemma span_end_gt: "x < width \<Longrightarrow> differs x \<Longrightarrow> x < span_end differs width x"
  using span_end_ge [of "Suc x" differs width] by (subst span_end.simps) (simp add: Suc_le_eq)

text \<open>One row of the residual; it gives up when the residual is not below half of the patch.\<close>

function residual_row ::
    "(nat \<Rightarrow> bool) \<Rightarrow> (nat \<Rightarrow> nat \<Rightarrow> pane_surface_patch_row) \<Rightarrow> nat \<Rightarrow> nat \<Rightarrow> nat \<Rightarrow>
     pane_surface_patch_row list \<Rightarrow> nat \<Rightarrow> (pane_surface_patch_row list \<times> nat) option" where
  "residual_row differs mk width patch_cells x residual residual_cells =
     (if x < width then
        if \<not> differs x then residual_row differs mk width patch_cells (Suc x) residual residual_cells
        else
          (let x' = span_end differs width x;
               residual_cells = residual_cells + (x' - x)
           in if residual_cells * 2 \<ge> patch_cells then None
              else residual_row differs mk width patch_cells x' (residual @ [mk x x']) residual_cells)
      else Some (residual, residual_cells))"
  by pat_completeness auto
termination
  by (relation "measure (\<lambda>(differs, mk, width, patch_cells, x, _). width - x)")
     (auto intro: diff_less_mono2 span_end_gt)

declare residual_row.simps [simp del]

definition residual_rows ::
    "frame_data \<Rightarrow> surface_rect \<Rightarrow> row_view list \<Rightarrow> nat \<Rightarrow> (nat \<times> nat) list \<Rightarrow> pane_surface_patch_row list option" where
  "residual_rows frame rect views patch_cells order =
     map_option fst (try_fold (\<lambda>(y, src) (residual, residual_cells).
       let base = rect_row frame rect src; target = views ! y
       in residual_row (\<lambda>x. base ! x \<noteq> view_cell target x)
            (\<lambda>start x. \<lparr>row_x = srect_x rect + of_nat start, row_y = srect_y rect + of_nat y,
               row_cells = map (view_cell target) [start..<x]\<rparr>)
            (unat (srect_width rect)) patch_cells 0 residual residual_cells) order ([], 0))"

definition pane_scroll ::
    "frame_data \<Rightarrow> surface_rect \<Rightarrow> pane_surface_patch_row list \<Rightarrow> (i16 \<times> pane_surface_patch_row list) option" where
  "pane_scroll frame rect rows =
     (let height = unat (srect_height rect);
          views = row_views frame rect rows;
          patch_cells = sum_list (map (length \<circ> row_cells)
            (filter (\<lambda>row. overlaps_rect row rect \<and> fully_inside row rect) rows))
      in if length (filter (\<lambda>v. view_spans v \<noteq> []) views) < 2 then None
         else
           (let old_hashes = map (\<lambda>v. foldl cell_hash 0 (view_base v)) views;
                new_hashes = map (\<lambda>(v, old). if view_spans v = [] then old else view_hash v) (zip views old_hashes);
                matches = shift_matches old_hashes new_hashes height;
                (best_shift, best) = best_shift_loop matches height [1..<height] 0 (matches 0)
            in if best_shift = 0 then None
               else if \<not> (- (2 ^ 15) \<le> best_shift \<and> best_shift < 2 ^ 15) then None
               else
                 (let shift = (word_of_int best_shift :: i16)
                  in case for_each_swap height shift vec_swap [0..<height] of
                       None \<Rightarrow> None
                     | Some order \<Rightarrow>
                         map_option (\<lambda>residual. (shift, residual))
                           (residual_rows frame rect views patch_cells (enumerate 0 order)))))"

subsection \<open>The message\<close>

text \<open>The loop over the panes of the patch, which stops at \<open>MAX_SCROLLS\<close> scrolls.\<close>

fun scroll_panes ::
    "pane_surface_frame \<Rightarrow> pane_surface_patch_row list \<Rightarrow> pane_surface_pane list \<Rightarrow>
     surface_scroll list \<Rightarrow> pane_surface_patch_row list \<Rightarrow> surface_scroll list \<times> pane_surface_patch_row list" where
  "scroll_panes last_surface rows [] scrolls residual = (scrolls, residual)"
| "scroll_panes last_surface rows (pane # panes) scrolls residual =
     (let frame = sf_frame last_surface;
          rect = sp_inner_rect pane;
          committed = list_ex (\<lambda>existing. sp_pane_id existing = sp_pane_id pane \<and> sp_inner_rect existing = rect)
            (sf_panes last_surface)
      in if \<not> committed \<or> \<not> scroll_fits \<lparr>scroll_rect = rect, scroll_shift = 1\<rparr> (frame_width frame) (frame_height frame)
         then scroll_panes last_surface rows panes scrolls residual
         else
           (case pane_scroll frame rect rows of
              None \<Rightarrow> scroll_panes last_surface rows panes scrolls residual
            | Some (shift, rest) \<Rightarrow>
                let scrolls = scrolls @ [\<lparr>scroll_rect = rect, scroll_shift = shift\<rparr>];
                    residual = residual @ rest
                in if length scrolls = MAX_SCROLLS then (scrolls, residual)
                   else scroll_panes last_surface rows panes scrolls residual))"

definition scroll_header :: "surface_scroll \<Rightarrow> u8 list" where
  "scroll_header scroll =
     (let rect = scroll_rect scroll
      in to_le 2 (unat (srect_x rect)) @ to_le 2 (unat (srect_y rect)) @ to_le 2 (unat (srect_width rect))
         @ to_le 2 (unat (srect_height rect)) @ to_le 2 (unat (scroll_shift scroll)))"

definition encoded_size :: "('m, 'z) codec_scheme \<Rightarrow> 'm \<Rightarrow> nat option" where
  "encoded_size C m = (case bin_encode C m of Inl _ \<Rightarrow> None | Inr bytes \<Rightarrow> Some (length bytes))"

definition scrolled_rows ::
    "pane_surface_patch_row list \<Rightarrow> surface_scroll list \<Rightarrow> pane_surface_patch_row list \<Rightarrow> pane_surface_patch_row list" where
  "scrolled_rows rows scrolls residual =
     filter (\<lambda>row. \<not> list_ex (\<lambda>scroll. fully_inside row (scroll_rect scroll)) scrolls) rows @ residual"

definition scroll_message ::
    "('o server_message, 'z) codec_scheme \<Rightarrow> pane_surface_frame \<Rightarrow> pane_surface_patch \<Rightarrow> 'o server_message option" where
  "scroll_message C last_surface patch =
     (let frame = sf_frame last_surface
      in if length (frame_cells frame) \<noteq> unat (frame_width frame) * unat (frame_height frame) then None
         else
           (case scroll_panes last_surface (patch_rows patch) (patch_panes patch) [] [] of
              (scrolls, residual) \<Rightarrow>
                if scrolls = [] then None
                else
                  (let inner = PaneSurfacePatch (patch\<lparr>patch_rows := scrolled_rows (patch_rows patch) scrolls residual\<rparr>);
                       bytes = of_nat (length scrolls) # concat (map scroll_header scrolls)
                   in case write_message C bytes inner of
                        Inl _ \<Rightarrow> None
                      | Inr bytes \<Rightarrow>
                          (let msg = EndpointControl MESSAGE_KIND_scroll (b64_encode C bytes)
                           in case encoded_size C msg of
                                None \<Rightarrow> None
                              | Some n \<Rightarrow> if n \<le> MAX_FRAME_SIZE then Some msg else None))))"

fun chunks_exact :: "nat \<Rightarrow> nat \<Rightarrow> 'a list \<Rightarrow> 'a list list" where
  "chunks_exact n 0 xs = []"
| "chunks_exact n (Suc count) xs = take n xs # chunks_exact n count (drop n xs)"

definition scroll_of_chunk :: "u8 list \<Rightarrow> surface_scroll" where
  "scroll_of_chunk chunk =
     (let v = (\<lambda>at. of_nat (from_le (take 2 (drop at chunk))) :: u16)
      in \<lparr>scroll_rect = \<lparr>srect_x = v 0, srect_y = v 2, srect_width = v 4, srect_height = v 6\<rparr>,
          scroll_shift = v 8\<rparr>)"

definition scroll_decode :: "('o server_message, 'z) codec_scheme \<Rightarrow> string \<Rightarrow> string + scroll_patch" where
  "scroll_decode C data =
     (let limit = (case b64_len C MAX_FRAME_SIZE of Some n \<Rightarrow> n | None \<Rightarrow> 2 ^ 64 - 1)
      in if length data > limit then Inl ''surface scroll exceeds the frame limit''
         else
           (case b64_decode C data of
              Inl e \<Rightarrow> Inl (''invalid surface scroll: '' @ e)
            | Inr [] \<Rightarrow> Inl ''empty surface scroll''
            | Inr (first # bytes) \<Rightarrow>
                let count = unat first
                in if count = 0 \<or> count > MAX_SCROLLS then Inl ''surface scroll has an invalid scroll count''
                   else if Suc (length bytes) < 1 + count * SCROLL_BYTES then Inl ''surface scroll is truncated''
                   else
                     (let scrolls = map scroll_of_chunk (chunks_exact SCROLL_BYTES count bytes)
                      in case read_message C (drop (count * SCROLL_BYTES) bytes) MAX_FRAME_SIZE of
                           (decoded, frame) \<Rightarrow>
                             if frame \<noteq> [] then Inl ''surface scroll has trailing bytes''
                             else
                               (case decoded of
                                  Inl e \<Rightarrow> Inl (''invalid surface scroll patch: '' @ show_framing_error e)
                                | Inr (PaneSurfacePatch patch) \<Rightarrow> Inr \<lparr>sc_scrolls = scrolls, sc_patch = patch\<rparr>
                                | Inr _ \<Rightarrow> Inl ''surface scroll does not carry a pane patch''))))"

subsection \<open>Applying it\<close>

text \<open>\<open>left.clamp(cursor, end)\<close> panics when the bounds are crossed.\<close>

fun outside_loop ::
    "pane_surface_patch_row \<Rightarrow> nat \<Rightarrow> nat \<Rightarrow> nat \<Rightarrow> (nat \<times> nat) list \<Rightarrow> pane_surface_patch_row list option" where
  "outside_loop row start stop cursor [] = Some []"
| "outside_loop row start stop cursor ((left, right) # covered) =
     (if cursor > stop then None
      else
        (let span_stop = clamp cursor stop left;
             spans = (if span_stop > cursor
               then [\<lparr>row_x = of_nat cursor, row_y = row_y row,
                      row_cells = take (span_stop - cursor) (drop (cursor - start) (row_cells row))\<rparr>]
               else [])
         in map_option ((@) spans)
              (outside_loop row start stop (max cursor (min right stop)) covered)))"

definition outside_scrolls :: "pane_surface_patch_row \<Rightarrow> surface_scroll list \<Rightarrow> pane_surface_patch_row list option" where
  "outside_scrolls row scrolls =
     (let start = unat (row_x row);
          covered = map (\<lambda>rect. (unat (srect_x rect), unat (srect_x rect) + unat (srect_width rect)))
            (filter (\<lambda>rect. row_y row \<ge> srect_y rect \<and> row_y row - srect_y rect < srect_height rect)
              (map scroll_rect scrolls));
          stop = start + length (row_cells row)
      in if covered = [] then Some [row]
         else outside_loop row start stop start (sort covered @ [(stop, stop)]))"

text \<open>The final cells of the rows of a scrolled region; \<open>to_vec\<close> of a slice out of range panics.\<close>

definition region_rows :: "cell_data list \<Rightarrow> u16 \<Rightarrow> surface_rect \<Rightarrow> pane_surface_patch_row list option" where
  "region_rows cells width rect =
     (let ys = map (\<lambda>k. srect_y rect + of_nat k) [0..<unat (srect_y rect + srect_height rect) - unat (srect_y rect)]
      in if list_all (\<lambda>y. unat y * unat width + unat (srect_x rect) + unat (srect_width rect) \<le> length cells) ys
         then Some (map (\<lambda>y. \<lparr>row_x = srect_x rect, row_y = y,
                row_cells = take (unat (srect_width rect))
                  (drop (unat y * unat width + unat (srect_x rect)) cells)\<rparr>) ys)
         else None)"

fun try_concat :: "('a \<Rightarrow> 'b list option) \<Rightarrow> 'a list \<Rightarrow> 'b list option" where
  "try_concat f [] = Some []"
| "try_concat f (x # xs) =
     (case f x of None \<Rightarrow> None | Some ys \<Rightarrow> map_option ((@) ys) (try_concat f xs))"

text \<open>\<open>None\<close> is a panic; otherwise the grid afterwards with the result.\<close>

definition scroll_valid :: "cell_data list \<Rightarrow> u16 \<Rightarrow> u16 \<Rightarrow> scroll_patch \<Rightarrow> bool" where
  "scroll_valid cells width height sp \<longleftrightarrow>
     list_all (\<lambda>scroll. scroll_fits scroll width height) (sc_scrolls sp) \<and> scrolls_disjoint (sc_scrolls sp)
     \<and> list_all (\<lambda>row. row_fits row width height) (patch_rows (sc_patch sp))"

definition expanded_rows ::
    "cell_data list \<Rightarrow> u16 \<Rightarrow> scroll_patch \<Rightarrow> pane_surface_patch_row list option" where
  "expanded_rows cells width sp =
     (case try_concat (\<lambda>row. outside_scrolls row (sc_scrolls sp)) (patch_rows (sc_patch sp)) of
        None \<Rightarrow> None
      | Some outside \<Rightarrow>
          map_option ((@) outside) (try_concat (\<lambda>scroll. region_rows cells width (scroll_rect scroll)) (sc_scrolls sp)))"

definition scroll_apply ::
    "cell_data list \<Rightarrow> u16 \<Rightarrow> u16 \<Rightarrow> scroll_patch \<Rightarrow> (cell_data list \<times> (string + pane_surface_patch)) option" where
  "scroll_apply cells width height sp =
     (if length cells \<noteq> unat width * unat height
      then Some (cells, Inl ''surface scroll baseline has an invalid grid'')
      else if \<not> scroll_valid cells width height sp
      then Some (cells, Inl ''surface scroll exceeds the cell baseline'')
      else
        (case try_fold (\<lambda>scroll cells. apply_scroll cells width scroll) (sc_scrolls sp) cells of
           None \<Rightarrow> None
         | Some cells \<Rightarrow>
             (case apply_rows cells width (patch_rows (sc_patch sp)) of
                None \<Rightarrow> None
              | Some cells \<Rightarrow>
                  map_option (\<lambda>rows. (cells, Inr ((sc_patch sp)\<lparr>patch_rows := rows\<rparr>)))
                    (expanded_rows cells width sp))))"

end
