(* ===== verification/Surface_Delta.thy ===== *)
theory Surface_Delta
  imports Surface_Scroll
begin

text \<open>
  Sparse delivery of a recomputed surface (\<^verbatim>\<open>runtime/src/protocol/surface_delta.rs\<close>) and its
  allocation-bounded decoder (\<^verbatim>\<open>runtime/src/protocol/surface_delta/decode.rs\<close>).  The sender lists the
  spans of cells that differ from the surface it sent last; the decoder checks every count against a limit
  before it reads the elements.

  Bincode is not part of the sources.  Its decoders are the fields of the argument \<open>D\<close>, over a reader type
  \<open>'r\<close> that also counts what \<open>with_limit\<close> counts; \<open>enc_delta\<close> and \<open>enc_span\<close> of \<open>C\<close> serialize a delta
  and a span.  \<open>usize\<close> is 64 bits wide, so \<open>usize::try_from\<close> of a \<open>u64\<close> does not fail.
\<close>

subsection \<open>Data\<close>

datatype grid_update = GridPatch "pane_surface_patch_row list" | GridReplace "cell_data list"

record surface_delta =
  sd_base_projection_revision :: u64
  sd_base_surface_revision :: u64
  sd_surface :: pane_surface_frame
  sd_rows :: "pane_surface_patch_row list"
  sd_popup_cells :: "grid_update option"

record 'o delta_codec = "'o server_message codec" +
  enc_span :: "pane_surface_patch_row \<Rightarrow> string + u8 list"
  enc_delta :: "surface_delta \<Rightarrow> string + u8 list"

definition MESSAGE_KIND_delta :: string where
  "MESSAGE_KIND_delta = ''endpoint.surface-delta.v1''"

definition MAX_SPANS :: nat where
  "MAX_SPANS = 4096"

definition MAX_GRID_DIMENSION :: u16 where
  "MAX_GRID_DIMENSION = 4096"

definition MAX_GRID_CELLS :: nat where
  "MAX_GRID_CELLS = 1000000"

definition MAX_PANES :: nat where
  "MAX_PANES = 4096"

definition MAX_SPLITS :: nat where
  "MAX_SPLITS = 4096"

definition MAX_SPLIT_PATH :: nat where
  "MAX_SPLIT_PATH = 4096"

definition MAX_HYPERLINKS :: nat where
  "MAX_HYPERLINKS = 65536"

definition MAX_ASSETS :: nat where
  "MAX_ASSETS = 4096"

definition MAX_PLACEMENTS :: nat where
  "MAX_PLACEMENTS = 65536"

definition MAX_RETAINED_ASSETS :: nat where
  "MAX_RETAINED_ASSETS = 65536"

subsection \<open>Decoders\<close>

datatype 'e decode_error = Other string | LimitExceeded | LibraryError 'e

type_synonym ('e, 'r, 'a) decoder = "'r \<Rightarrow> 'e decode_error + 'a \<times> 'r"

definition dec_return :: "'a \<Rightarrow> ('e, 'r, 'a) decoder" where
  "dec_return x = (\<lambda>r. Inr (x, r))"

definition dec_fail :: "string \<Rightarrow> ('e, 'r, 'a) decoder" where
  "dec_fail message = (\<lambda>r. Inl (Other message))"

text \<open>The \<open>?\<close> operator: the rest runs on the reader the first part leaves.\<close>

definition dec_bind :: "('e, 'r, 'a) decoder \<Rightarrow> ('a \<Rightarrow> ('e, 'r, 'b) decoder) \<Rightarrow> ('e, 'r, 'b) decoder" where
  "dec_bind m f = (\<lambda>r. case m r of Inl e \<Rightarrow> Inl e | Inr (x, r') \<Rightarrow> f x r')"

fun dec_times :: "nat \<Rightarrow> ('e, 'r, 'a) decoder \<Rightarrow> ('e, 'r, 'a list) decoder" where
  "dec_times 0 m = dec_return []"
| "dec_times (Suc n) m = dec_bind m (\<lambda>x. dec_bind (dec_times n m) (\<lambda>xs. dec_return (x # xs)))"

record ('e, 'r) reader_ops =
  rd_start :: "u8 list \<Rightarrow> 'r"
  rd_rest :: "'r \<Rightarrow> u8 list"
  rd_show :: "'e decode_error \<Rightarrow> string"
  rd_u8 :: "('e, 'r, u8) decoder"
  rd_u16 :: "('e, 'r, u16) decoder"
  rd_u32 :: "('e, 'r, u32) decoder"
  rd_u64 :: "('e, 'r, u64) decoder"
  rd_bool :: "('e, 'r, bool) decoder"
  rd_string :: "('e, 'r, string) decoder"
  rd_cursor :: "('e, 'r, cursor_state option) decoder"
  rd_popup_size :: "('e, 'r, client_shell_popup_size option) decoder"
  rd_pane :: "('e, 'r, pane_surface_pane) decoder"
  rd_direction :: "('e, 'r, pane_surface_split_direction) decoder"
  rd_rect :: "('e, 'r, surface_rect) decoder"
  rd_key :: "('e, 'r, surface_graphics_asset_key) decoder"
  rd_placement :: "('e, 'r, surface_graphics_placement) decoder"
  rd_cell :: "('e, 'r, cell_data) decoder"
  rd_claim :: "nat \<Rightarrow> ('e, 'r, unit) decoder"
  rd_read :: "nat \<Rightarrow> ('e, 'r, u8 list) decoder"

definition decode_sequence_len :: "('e, 'r, 'z) reader_ops_scheme \<Rightarrow> ('e, 'r, nat) decoder" where
  "decode_sequence_len D = dec_bind (rd_u64 D) (\<lambda>count. dec_return (unat count))"

definition decode_count :: "('e, 'r, 'z) reader_ops_scheme \<Rightarrow> nat \<Rightarrow> string \<Rightarrow> ('e, 'r, nat) decoder" where
  "decode_count D limit message =
     dec_bind (decode_sequence_len D) (\<lambda>count. if count > limit then dec_fail message else dec_return count)"

definition require_empty_sequence :: "('e, 'r, 'z) reader_ops_scheme \<Rightarrow> string \<Rightarrow> ('e, 'r, unit) decoder" where
  "require_empty_sequence D message =
     dec_bind (decode_sequence_len D) (\<lambda>n. if n = 0 then dec_return () else dec_fail message)"

definition decode_bounded_vec ::
    "('e, 'r, 'z) reader_ops_scheme \<Rightarrow> ('e, 'r, 'a) decoder \<Rightarrow> nat \<Rightarrow> string \<Rightarrow> ('e, 'r, 'a list) decoder" where
  "decode_bounded_vec D m limit message = dec_bind (decode_count D limit message) (\<lambda>count. dec_times count m)"

definition decode_bytes_vec :: "('e, 'r, 'z) reader_ops_scheme \<Rightarrow> nat \<Rightarrow> string \<Rightarrow> ('e, 'r, u8 list) decoder" where
  "decode_bytes_vec D limit message =
     dec_bind (decode_count D limit message) (\<lambda>count. dec_bind (rd_claim D count) (\<lambda>_. rd_read D count))"

definition checked_grid_size :: "u16 \<Rightarrow> u16 \<Rightarrow> string + nat" where
  "checked_grid_size width height =
     (if width > MAX_GRID_DIMENSION \<or> height > MAX_GRID_DIMENSION then Inl ''surface dimensions exceed the limit''
      else
        (let cells = unat width * unat height
         in if cells > MAX_GRID_CELLS then Inl ''surface cell count exceeds the limit'' else Inr cells))"

definition dec_grid_size :: "u16 \<Rightarrow> u16 \<Rightarrow> ('e, 'r, nat) decoder" where
  "dec_grid_size width height =
     (case checked_grid_size width height of Inl message \<Rightarrow> dec_fail message | Inr cells \<Rightarrow> dec_return cells)"

fun decode_rows_loop ::
    "('e, 'r, 'z) reader_ops_scheme \<Rightarrow> u16 \<Rightarrow> u16 \<Rightarrow> nat \<Rightarrow> nat \<Rightarrow> nat \<Rightarrow> nat \<Rightarrow>
     ('e, 'r, pane_surface_patch_row list) decoder" where
  "decode_rows_loop D width height cell_budget total_cells previous_end 0 = dec_return []"
| "decode_rows_loop D width height cell_budget total_cells previous_end (Suc count) =
     dec_bind (rd_u16 D) (\<lambda>x.
     dec_bind (rd_u16 D) (\<lambda>y.
     dec_bind (decode_sequence_len D) (\<lambda>cells_len.
       if cells_len = 0 \<or> y \<ge> height \<or> unat x \<ge> unat width \<or> cells_len > unat width - unat x
       then dec_fail ''surface delta span is outside its row''
       else
         (let start = unat y * unat width + unat x
          in if start \<ge> 2 ^ 64 then dec_fail ''surface delta span overflow''
             else if start < previous_end then dec_fail ''surface delta spans overlap or are not sorted''
             else if total_cells + cells_len \<ge> 2 ^ 64 then dec_fail ''surface delta cell budget overflow''
             else if total_cells + cells_len > cell_budget then dec_fail ''surface delta cell budget exceeded''
             else
               dec_bind (dec_times cells_len (rd_cell D)) (\<lambda>cells.
               dec_bind (decode_rows_loop D width height cell_budget (total_cells + cells_len) (start + cells_len) count) (\<lambda>rows.
                 dec_return (\<lparr>row_x = x, row_y = y, row_cells = cells\<rparr> # rows)))))))"

definition decode_rows ::
    "('e, 'r, 'z) reader_ops_scheme \<Rightarrow> u16 \<Rightarrow> u16 \<Rightarrow> ('e, 'r, pane_surface_patch_row list) decoder" where
  "decode_rows D width height =
     dec_bind (dec_grid_size width height) (\<lambda>cell_budget.
     dec_bind (decode_count D (min MAX_SPANS cell_budget) ''too many surface delta spans'') (\<lambda>count.
       decode_rows_loop D width height cell_budget 0 0 count))"

definition decode_frame :: "('e, 'r, 'z) reader_ops_scheme \<Rightarrow> ('e, 'r, frame_data) decoder" where
  "decode_frame D =
     dec_bind (require_empty_sequence D ''surface metadata contains main cells'') (\<lambda>_.
     dec_bind (rd_u16 D) (\<lambda>width.
     dec_bind (rd_u16 D) (\<lambda>height.
     dec_bind (dec_grid_size width height) (\<lambda>_.
     dec_bind (rd_cursor D) (\<lambda>cursor.
     dec_bind (decode_bounded_vec D (rd_string D) MAX_HYPERLINKS ''too many hyperlinks'') (\<lambda>hyperlinks.
     dec_bind (decode_bytes_vec D MAX_GRAPHICS_FRAME_SIZE ''graphics payload too large'') (\<lambda>graphics.
       dec_return \<lparr>frame_cells = [], frame_width = width, frame_height = height, frame_cursor = cursor,
         frame_hyperlinks = hyperlinks, frame_graphics = graphics\<rparr>)))))))"

definition decode_popup :: "('e, 'r, 'z) reader_ops_scheme \<Rightarrow> ('e, 'r, client_shell_popup_surface option) decoder" where
  "decode_popup D =
     dec_bind (rd_u8 D) (\<lambda>tag.
       if tag = 0 then dec_return None
       else if tag = 1 then
         dec_bind (rd_string D) (\<lambda>terminal_id.
         dec_bind (rd_string D) (\<lambda>title.
         dec_bind (rd_popup_size D) (\<lambda>width.
         dec_bind (rd_popup_size D) (\<lambda>height.
         dec_bind (decode_frame D) (\<lambda>frame.
         dec_bind (rd_bool D) (\<lambda>mouse_reporting.
         dec_bind (rd_bool D) (\<lambda>sgr_pixel_mouse.
         dec_bind (rd_u32 D) (\<lambda>pixel_width.
         dec_bind (rd_u32 D) (\<lambda>pixel_height.
           dec_return (Some \<lparr>popup_terminal_id = terminal_id, popup_title = title, popup_width = width, popup_height = height,
             popup_frame = frame, popup_mouse_reporting = mouse_reporting, popup_sgr_pixel_mouse = sgr_pixel_mouse,
             popup_pixel_width = pixel_width, popup_pixel_height = pixel_height\<rparr>))))))))))
       else dec_fail ''invalid popup option'')"

definition decode_split :: "('e, 'r, 'z) reader_ops_scheme \<Rightarrow> ('e, 'r, pane_surface_split) decoder" where
  "decode_split D =
     dec_bind (rd_direction D) (\<lambda>direction.
     dec_bind (rd_u16 D) (\<lambda>pos.
     dec_bind (rd_rect D) (\<lambda>area.
     dec_bind (rd_rect D) (\<lambda>hit_rect.
     dec_bind (decode_bounded_vec D (rd_bool D) MAX_SPLIT_PATH ''split path too long'') (\<lambda>path.
       dec_return \<lparr>ss_direction = direction, ss_pos = pos, ss_area = area, ss_hit_rect = hit_rect, ss_path = path\<rparr>)))))"

definition decode_splits :: "('e, 'r, 'z) reader_ops_scheme \<Rightarrow> ('e, 'r, pane_surface_split list) decoder" where
  "decode_splits D = dec_bind (decode_count D MAX_SPLITS ''too many splits'') (\<lambda>count. dec_times count (decode_split D))"

definition decode_asset :: "('e, 'r, 'z) reader_ops_scheme \<Rightarrow> ('e, 'r, surface_graphics_asset) decoder" where
  "decode_asset D =
     dec_bind (rd_key D) (\<lambda>key.
     dec_bind (decode_bytes_vec D MAX_GRAPHICS_FRAME_SIZE ''graphics asset payload too large'') (\<lambda>data.
       dec_return \<lparr>asset_key = key, asset_data = data\<rparr>))"

definition decode_graphics_scene :: "('e, 'r, 'z) reader_ops_scheme \<Rightarrow> ('e, 'r, surface_graphics_scene) decoder" where
  "decode_graphics_scene D =
     dec_bind (decode_count D MAX_ASSETS ''too many graphics assets'') (\<lambda>asset_count.
     dec_bind (dec_times asset_count (decode_asset D)) (\<lambda>assets.
     dec_bind (decode_bounded_vec D (rd_placement D) MAX_PLACEMENTS ''too many graphics placements'') (\<lambda>placements.
     dec_bind (decode_bounded_vec D (rd_key D) MAX_RETAINED_ASSETS ''too many retained graphics assets'') (\<lambda>retained_assets.
       dec_return \<lparr>scene_assets = assets, scene_placements = placements, scene_retained_assets = retained_assets\<rparr>))))"

definition scene_nonempty :: "surface_graphics_scene \<Rightarrow> bool" where
  "scene_nonempty g \<longleftrightarrow> scene_assets g \<noteq> [] \<or> scene_placements g \<noteq> [] \<or> scene_retained_assets g \<noteq> []"

definition decode_surface :: "('e, 'r, 'z) reader_ops_scheme \<Rightarrow> ('e, 'r, pane_surface_frame \<times> bool) decoder" where
  "decode_surface D =
     dec_bind (rd_string D) (\<lambda>boot_id.
     dec_bind (rd_u64 D) (\<lambda>projection_revision.
     dec_bind (rd_u64 D) (\<lambda>surface_revision.
     dec_bind (decode_frame D) (\<lambda>frame.
     dec_bind (decode_bounded_vec D (rd_pane D) MAX_PANES ''too many panes'') (\<lambda>panes.
     dec_bind (decode_splits D) (\<lambda>splits.
     dec_bind (decode_popup D) (\<lambda>popup.
     dec_bind (decode_graphics_scene D) (\<lambda>graphics.
       dec_return (\<lparr>sf_boot_id = boot_id, sf_projection_revision = projection_revision, sf_surface_revision = surface_revision,
         sf_frame = frame, sf_panes = panes, sf_splits = splits, sf_popup = popup, sf_graphics = graphics\<rparr>,
         scene_nonempty graphics)))))))))"

definition decode_popup_grid ::
    "('e, 'r, 'z) reader_ops_scheme \<Rightarrow> u16 \<Rightarrow> u16 \<Rightarrow> ('e, 'r, grid_update) decoder" where
  "decode_popup_grid D width height =
     dec_bind (rd_u32 D) (\<lambda>variant.
       if variant = 0 then dec_bind (decode_rows D width height) (\<lambda>rows. dec_return (GridPatch rows))
       else if variant = 1 then
         dec_bind (dec_grid_size width height) (\<lambda>expected.
         dec_bind (decode_sequence_len D) (\<lambda>count.
           if count \<noteq> expected then dec_fail ''popup replacement does not match popup dimensions''
           else dec_bind (dec_times count (rd_cell D)) (\<lambda>cells. dec_return (GridReplace cells))))
       else dec_fail ''invalid popup grid update'')"

definition decode_popup_update ::
    "('e, 'r, 'z) reader_ops_scheme \<Rightarrow> client_shell_popup_surface option \<Rightarrow> ('e, 'r, grid_update option) decoder" where
  "decode_popup_update D popup =
     dec_bind (rd_u8 D) (\<lambda>tag.
       if tag = 0 then dec_return None
       else if tag = 1 then
         (case popup of
            None \<Rightarrow> dec_fail ''popup cell update has no popup metadata''
          | Some popup \<Rightarrow>
              dec_bind (decode_popup_grid D (frame_width (popup_frame popup)) (frame_height (popup_frame popup)))
                (\<lambda>update. dec_return (Some update)))
       else dec_fail ''invalid popup update option'')"

text \<open>\<open>Decode for Decoded\<close>.\<close>

definition decode_delta_body ::
    "('e, 'r, 'z) reader_ops_scheme \<Rightarrow> (u16 \<times> u16) option \<Rightarrow> nat \<Rightarrow> ('e, 'r, surface_delta) decoder" where
  "decode_delta_body D expected data_len =
     dec_bind (rd_u64 D) (\<lambda>base_projection_revision.
     dec_bind (rd_u64 D) (\<lambda>base_surface_revision.
     dec_bind (decode_surface D) (\<lambda>(surface, has_graphics).
       if \<not> has_graphics \<and> data_len > MAX_FRAME_SIZE then dec_fail ''ordinary surface delta exceeds the frame limit''
       else
         (let metadata_dimensions = (frame_width (sf_frame surface), frame_height (sf_frame surface));
              (width, height) = (case expected of Some expected \<Rightarrow> expected | None \<Rightarrow> metadata_dimensions)
          in if (width, height) \<noteq> metadata_dimensions then dec_fail ''surface dimensions do not match the baseline''
             else
               dec_bind (dec_grid_size width height) (\<lambda>_.
               dec_bind (decode_rows D width height) (\<lambda>rows.
               dec_bind (decode_popup_update D (sf_popup surface)) (\<lambda>popup_cells.
                 dec_return \<lparr>sd_base_projection_revision = base_projection_revision,
                   sd_base_surface_revision = base_surface_revision, sd_surface = surface, sd_rows = rows,
                   sd_popup_cells = popup_cells\<rparr>)))))))"

definition decode_bytes_with_data_len ::
    "('e, 'r, 'z) reader_ops_scheme \<Rightarrow> u8 list \<Rightarrow> (u16 \<times> u16) option \<Rightarrow> nat \<Rightarrow> string + surface_delta" where
  "decode_bytes_with_data_len D bytes expected data_len =
     (case decode_delta_body D expected data_len (rd_start D bytes) of
        Inl e \<Rightarrow> Inl (rd_show D e)
      | Inr (delta, r) \<Rightarrow> if rd_rest D r \<noteq> [] then Inl ''trailing surface delta bytes'' else Inr delta)"

definition delta_decode ::
    "('o, 'y) delta_codec_scheme \<Rightarrow> ('e, 'r, 'z) reader_ops_scheme \<Rightarrow> string \<Rightarrow> (u16 \<times> u16) option \<Rightarrow> string + surface_delta" where
  "delta_decode C D data expected =
     (if length data > MAX_GRAPHICS_FRAME_SIZE then Inl ''surface delta exceeds the frame limit''
      else
        (case b64_decode C data of
           Inl e \<Rightarrow> Inl e
         | Inr bytes \<Rightarrow>
             if length bytes > MAX_GRAPHICS_FRAME_SIZE then Inl ''decoded surface delta exceeds the frame limit''
             else decode_bytes_with_data_len D bytes expected (length data)))"

definition decode_for ::
    "('o, 'y) delta_codec_scheme \<Rightarrow> ('e, 'r, 'z) reader_ops_scheme \<Rightarrow> string \<Rightarrow> u16 \<times> u16 \<Rightarrow> string + surface_delta" where
  "decode_for C D data expected = delta_decode C D data (Some expected)"

subsection \<open>The message\<close>

definition frame_metadata_fits :: "frame_data \<Rightarrow> bool" where
  "frame_metadata_fits frame \<longleftrightarrow>
     checked_grid_size (frame_width frame) (frame_height frame) = Inr (length (frame_cells frame))
     \<and> length (frame_hyperlinks frame) \<le> MAX_HYPERLINKS \<and> length (frame_graphics frame) \<le> MAX_GRAPHICS_FRAME_SIZE"

definition metadata_fits :: "pane_surface_frame \<Rightarrow> bool" where
  "metadata_fits surface \<longleftrightarrow>
     frame_metadata_fits (sf_frame surface)
     \<and> length (sf_panes surface) \<le> MAX_PANES \<and> length (sf_splits surface) \<le> MAX_SPLITS
     \<and> list_all (\<lambda>split. length (ss_path split) \<le> MAX_SPLIT_PATH) (sf_splits surface)
     \<and> (case sf_popup surface of None \<Rightarrow> True | Some popup \<Rightarrow> frame_metadata_fits (popup_frame popup))
     \<and> length (scene_assets (sf_graphics surface)) \<le> MAX_ASSETS
     \<and> list_all (\<lambda>asset. length (asset_data asset) \<le> MAX_GRAPHICS_FRAME_SIZE) (scene_assets (sf_graphics surface))
     \<and> length (scene_placements (sf_graphics surface)) \<le> MAX_PLACEMENTS
     \<and> length (scene_retained_assets (sf_graphics surface)) \<le> MAX_RETAINED_ASSETS"

text \<open>
  The spans of one row, from column \<open>x\<close> on.  \<open>Inr None\<close> gives up: the spans so far are already as long as
  the full message.  Both grids have the same length at every call, so the rows of a pair do too.
\<close>

function delta_row ::
    "('o, 'y) delta_codec_scheme \<Rightarrow> nat \<Rightarrow> u16 \<Rightarrow> cell_data list \<Rightarrow> cell_data list \<Rightarrow> nat \<Rightarrow>
     pane_surface_patch_row list \<Rightarrow> nat \<Rightarrow> string + (pane_surface_patch_row list \<times> nat) option" where
  "delta_row C full_size y old_row new_row x rows bytes_so_far =
     (if x < length new_row then
        if old_row ! x = new_row ! x then delta_row C full_size y old_row new_row (Suc x) rows bytes_so_far
        else
          (let x' = span_end (\<lambda>x. old_row ! x \<noteq> new_row ! x) (length new_row) x;
               span = \<lparr>row_x = of_nat x, row_y = y, row_cells = take (x' - x) (drop x new_row)\<rparr>
           in case enc_span C span of
                Inl e \<Rightarrow> Inl e
              | Inr bytes \<Rightarrow>
                  (let bytes_so_far = bytes_so_far + length bytes
                   in if length rows = MAX_SPANS \<or> (case b64_len C bytes_so_far of None \<Rightarrow> True | Some n \<Rightarrow> n \<ge> full_size)
                      then Inr None
                      else delta_row C full_size y old_row new_row x' (rows @ [span]) bytes_so_far))
      else Inr (Some (rows, bytes_so_far)))"
  by pat_completeness auto
termination
  by (relation "measure (\<lambda>(C, full_size, y, old_row, new_row, x, _). length new_row - x)")
     (auto intro: diff_less_mono2 span_end_gt)

declare delta_row.simps [simp del]

function chunks :: "nat \<Rightarrow> 'a list \<Rightarrow> 'a list list" where
  "chunks n xs = (if n = 0 \<or> xs = [] then [] else take n xs # chunks n (drop n xs))"
  by pat_completeness auto
termination by (relation "measure (\<lambda>(n, xs). length xs)") auto

declare chunks.simps [simp del]

fun delta_rows ::
    "('o, 'y) delta_codec_scheme \<Rightarrow> nat \<Rightarrow> (nat \<times> cell_data list \<times> cell_data list) list \<Rightarrow>
     pane_surface_patch_row list \<Rightarrow> nat \<Rightarrow> string + pane_surface_patch_row list option" where
  "delta_rows C full_size [] rows bytes_so_far = Inr (Some rows)"
| "delta_rows C full_size ((y, old_row, new_row) # rest) rows bytes_so_far =
     (case delta_row C full_size (of_nat y) old_row new_row 0 rows bytes_so_far of
        Inl e \<Rightarrow> Inl e
      | Inr None \<Rightarrow> Inr None
      | Inr (Some (rows, bytes_so_far)) \<Rightarrow> delta_rows C full_size rest rows bytes_so_far)"

definition changed_rows ::
    "('o, 'y) delta_codec_scheme \<Rightarrow> cell_data list \<Rightarrow> cell_data list \<Rightarrow> u16 \<Rightarrow> nat \<Rightarrow>
     string + pane_surface_patch_row list option" where
  "changed_rows C last_cells next_cells width full_size =
     (if width = 0 then Inr (Some [])
      else delta_rows C full_size
        (enumerate 0 (zip (chunks (unat width) last_cells) (chunks (unat width) next_cells))) [] 0)"

text \<open>\<open>encoded_size\<close> as \<open>surface_delta.rs\<close> has it, with the error of the serializer.\<close>

definition encoded_size_or :: "(string + u8 list) \<Rightarrow> string + nat" where
  "encoded_size_or encoded = (case encoded of Inl e \<Rightarrow> Inl e | Inr bytes \<Rightarrow> Inr (length bytes))"

definition take_cells :: "pane_surface_frame \<Rightarrow> pane_surface_frame" where
  "take_cells surface =
     surface\<lparr>sf_frame := (sf_frame surface)\<lparr>frame_cells := []\<rparr>,
       sf_popup := map_option (\<lambda>popup. popup\<lparr>popup_frame := (popup_frame popup)\<lparr>frame_cells := []\<rparr>\<rparr>) (sf_popup surface)\<rparr>"

definition popup_update ::
    "('o, 'y) delta_codec_scheme \<Rightarrow> pane_surface_frame \<Rightarrow> pane_surface_frame \<Rightarrow> nat \<Rightarrow> string + grid_update option option" where
  "popup_update C last_surface surface full_size =
     (case sf_popup surface of
        None \<Rightarrow> Inr (Some None)
      | Some popup \<Rightarrow>
          (case sf_popup last_surface of
             None \<Rightarrow> Inr (Some (Some (GridReplace (frame_cells (popup_frame popup)))))
           | Some previous \<Rightarrow>
               if popup_terminal_id previous = popup_terminal_id popup
                 \<and> frame_width (popup_frame previous) = frame_width (popup_frame popup)
                 \<and> frame_height (popup_frame previous) = frame_height (popup_frame popup)
                 \<and> length (frame_cells (popup_frame previous)) = length (frame_cells (popup_frame popup))
               then (case changed_rows C (frame_cells (popup_frame previous)) (frame_cells (popup_frame popup))
                        (frame_width (popup_frame popup)) full_size of
                       Inl e \<Rightarrow> Inl e
                     | Inr None \<Rightarrow> Inr None
                     | Inr (Some rows) \<Rightarrow> Inr (Some (Some (GridPatch rows))))
               else Inr (Some (Some (GridReplace (frame_cells (popup_frame popup)))))))"

text \<open>The closure in \<open>message\<close>: the bytes of the delta, or \<open>None\<close> when it would not be shorter.\<close>

definition delta_bytes ::
    "('o, 'y) delta_codec_scheme \<Rightarrow> pane_surface_frame \<Rightarrow> pane_surface_frame \<Rightarrow> nat \<Rightarrow> nat \<Rightarrow> string + u8 list option" where
  "delta_bytes C last_surface surface full_size limit =
     (case changed_rows C (frame_cells (sf_frame last_surface)) (frame_cells (sf_frame surface))
             (frame_width (sf_frame surface)) full_size of
        Inl e \<Rightarrow> Inl e
      | Inr None \<Rightarrow> Inr None
      | Inr (Some rows) \<Rightarrow>
          (case popup_update C last_surface surface full_size of
             Inl e \<Rightarrow> Inl e
           | Inr None \<Rightarrow> Inr None
           | Inr (Some popup_cells) \<Rightarrow>
               (let delta = \<lparr>sd_base_projection_revision = sf_projection_revision last_surface,
                      sd_base_surface_revision = sf_surface_revision last_surface,
                      sd_surface = take_cells surface, sd_rows = rows, sd_popup_cells = popup_cells\<rparr>
                in case encoded_size_or (enc_delta C delta) of
                     Inl e \<Rightarrow> Inl e
                   | Inr written \<Rightarrow>
                       (case b64_len C written of
                          None \<Rightarrow> Inl ''surface delta written overflow''
                        | Some encoded_len \<Rightarrow>
                            if encoded_len > limit \<or> encoded_len \<ge> full_size then Inr None
                            else (case enc_delta C delta of Inl e \<Rightarrow> Inl e | Inr bytes \<Rightarrow> Inr (Some bytes))))))"

definition delta_message ::
    "('o, 'y) delta_codec_scheme \<Rightarrow> pane_surface_frame \<Rightarrow> 'o server_message \<Rightarrow> string + 'o server_message option" where
  "delta_message C last_surface full =
     (case full of
        PaneSurface surface \<Rightarrow>
          if sf_boot_id last_surface \<noteq> sf_boot_id surface
             \<or> frame_width (sf_frame last_surface) \<noteq> frame_width (sf_frame surface)
             \<or> frame_height (sf_frame last_surface) \<noteq> frame_height (sf_frame surface)
             \<or> length (frame_cells (sf_frame last_surface)) \<noteq> unat (frame_width (sf_frame surface)) * unat (frame_height (sf_frame surface))
             \<or> \<not> metadata_fits surface
          then Inr None
          else
            (case encoded_size_or (bin_encode C full) of
               Inl e \<Rightarrow> Inl e
             | Inr full_size \<Rightarrow>
                 (let limit = (if \<not> scene_nonempty (sf_graphics surface) then MAX_FRAME_SIZE else MAX_GRAPHICS_FRAME_SIZE)
                  in case delta_bytes C last_surface surface full_size limit of
                       Inl e \<Rightarrow> Inl e
                     | Inr None \<Rightarrow> Inr None
                     | Inr (Some bytes) \<Rightarrow>
                         (let msg = EndpointControl MESSAGE_KIND_delta (b64_encode C bytes)
                          in case encoded_size_or (bin_encode C msg) of
                               Inl e \<Rightarrow> Inl e
                             | Inr written \<Rightarrow> Inr (if written \<le> limit \<and> written < full_size then Some msg else None))))
      | _ \<Rightarrow> Inr None)"

end
