(* ===== verification/Surface_Scroll_Theorems.thy ===== *)
theory Surface_Scroll_Theorems
  imports Surface_Scroll
begin

text \<open>
  What the scroll codec of \<open>Surface_Scroll\<close> promises: a scroll moves the rows of its region and nothing
  else, the receiver never panics, the patch it expands a message to has the effect of the message,
  and the message has the effect of the patch the encoder was given.
\<close>

subsection \<open>Swapping rows of a grid\<close>

lemma try_fold_append:
  "try_fold f (xs @ ys) s = (case try_fold f xs s of None \<Rightarrow> None | Some s' \<Rightarrow> try_fold f ys s')"
  by (induction xs arbitrary: s) (simp_all split: option.split)

text \<open>Two loops over the same list keep a relation that one round of both keeps.\<close>

lemma try_fold_rel:
  assumes "R s t" and "\<And>x s t. x \<in> set xs \<Longrightarrow> R s t \<Longrightarrow> \<exists>s' t'. f x s = Some s' \<and> g x t = Some t' \<and> R s' t'"
  shows "\<exists>s' t'. try_fold f xs s = Some s' \<and> try_fold g xs t = Some t' \<and> R s' t'"
  using assms
proof (induction xs arbitrary: s t)
  case (Cons x xs)
  then obtain s' t' where "f x s = Some s'" "g x t = Some t'" "R s' t'"
    by (metis list.set_intros(1))
  with Cons show ?case by simp
qed simp

lemma try_fold_inv:
  assumes "P s" and "\<And>x s. x \<in> set xs \<Longrightarrow> P s \<Longrightarrow> \<exists>s'. f x s = Some s' \<and> P s'"
  shows "\<exists>s'. try_fold f xs s = Some s' \<and> P s'"
  using assms
proof (induction xs arbitrary: s)
  case (Cons x xs)
  then obtain s' where "f x s = Some s'" "P s'" by (metis list.set_intros(1))
  with Cons show ?case by simp
qed simp

lemma swap_segments:
  assumes "p + k \<le> q \<or> q + k \<le> p" and "p + k \<le> length cells" and "q + k \<le> length cells"
  shows "\<exists>cells'. try_fold (\<lambda>x. vec_swap (p + x) (q + x)) [0..<k] cells = Some cells' \<and> length cells' = length cells
      \<and> (\<forall>i < length cells. cells' ! i =
            (if p \<le> i \<and> i < p + k then cells ! (q + (i - p))
             else if q \<le> i \<and> i < q + k then cells ! (p + (i - q)) else cells ! i))"
  using assms
proof (induction k)
  case (Suc k)
  then obtain mid where mid: "try_fold (\<lambda>x. vec_swap (p + x) (q + x)) [0..<k] cells = Some mid"
    and len: "length mid = length cells"
    and nth: "\<And>i. i < length cells \<Longrightarrow> mid ! i =
            (if p \<le> i \<and> i < p + k then cells ! (q + (i - p))
             else if q \<le> i \<and> i < q + k then cells ! (p + (i - q)) else cells ! i)"
    by force
  let ?r = "mid[p + k := mid ! (q + k), q + k := mid ! (p + k)]"
  have "mid ! (q + k) = cells ! (q + k)" "mid ! (p + k) = cells ! (p + k)"
    using Suc.prems nth by auto
  then have "?r ! i = (if p \<le> i \<and> i < p + Suc k then cells ! (q + (i - p))
             else if q \<le> i \<and> i < q + Suc k then cells ! (p + (i - q)) else cells ! i)" if "i < length cells" for i
    using that Suc.prems len nth by (auto simp: nth_list_update less_Suc_eq)
  moreover have "try_fold (\<lambda>x. vec_swap (p + x) (q + x)) [0..<Suc k] cells = Some ?r"
    using Suc.prems len by (simp add: try_fold_append mid vec_swap_def)
  ultimately show ?case using len by simp
qed (auto simp: not_less)

lemma sint_i16: "- 32768 \<le> sint (s :: i16) \<and> sint s < 32768"
  using sint_ge [of s] sint_less [of s] by simp

lemma swaps_bounds:
  assumes "(a, b) \<in> set (swaps height shift)" and "unsigned_abs shift < height" and "shift \<noteq> 0"
  shows "a < height \<and> b < height \<and> a \<noteq> b"
proof -
  have "0 < unsigned_abs shift" using assms(3) by (simp add: unsigned_abs_def signed_eq_0_iff)
  with assms(1,2) show ?thesis by (auto simp: swaps_def Let_def split: if_splits)
qed

lemma order_exists:
  assumes "unsigned_abs shift < height" and "shift \<noteq> 0"
  obtains order where "for_each_swap height shift vec_swap [0..<height] = Some order"
    and "length order = height" and "\<forall>y < height. order ! y < height"
proof -
  have "\<exists>order. try_fold (\<lambda>(a, b). vec_swap a b) (swaps height shift) [0..<height] = Some order
      \<and> (length order = height \<and> (\<forall>y < height. order ! y < height))"
    using swaps_bounds [OF _ assms]
    by (intro try_fold_inv) (auto simp: vec_swap_def nth_list_update split: prod.splits)
  then show ?thesis using that by (auto simp: for_each_swap_def)
qed

subsection \<open>A scroll moves the rows of its region\<close>

text \<open>Cell \<open>x\<close> of row \<open>y\<close> of a rectangle that lies in the grid; \<open>in_rect\<close> are the cells of it.\<close>

definition rect_in_grid :: "surface_rect \<Rightarrow> u16 \<Rightarrow> u16 \<Rightarrow> bool" where
  "rect_in_grid rect width height \<longleftrightarrow>
     unat (srect_x rect) + unat (srect_width rect) \<le> unat width
     \<and> unat (srect_y rect) + unat (srect_height rect) \<le> unat height"

definition in_rect :: "u16 \<Rightarrow> surface_rect \<Rightarrow> nat \<Rightarrow> bool" where
  "in_rect width rect i \<longleftrightarrow>
     (\<exists>y < unat (srect_height rect). \<exists>x < unat (srect_width rect). i = rect_row_start width rect y + x)"

lemma scroll_fits_iff:
  "scroll_fits scroll width height \<longleftrightarrow>
     srect_width (scroll_rect scroll) > 0 \<and> srect_height (scroll_rect scroll) \<ge> 2 \<and> scroll_shift scroll \<noteq> 0
     \<and> unsigned_abs (scroll_shift scroll) < unat (srect_height (scroll_rect scroll))
     \<and> rect_in_grid (scroll_rect scroll) width height"
proof -
  have "(case word_checked_add a b of Some c \<Rightarrow> c \<le> d | None \<Rightarrow> False) \<longleftrightarrow> unat a + unat b \<le> unat d"
    for a b d :: u16
    using unat_lt_pow [of d] by (auto simp: word_checked_add_def word_le_nat_alt unat_add_exact)
  then show ?thesis by (auto simp: scroll_fits_def rect_in_grid_def Let_def)
qed

lemma rect_cell_bound:
  assumes "rect_in_grid rect width height" and "y < unat (srect_height rect)" and "x \<le> unat (srect_width rect)"
  shows "rect_row_start width rect y + x \<le> unat width * unat height"
proof -
  have "rect_row_start width rect y + x \<le> (unat (srect_y rect) + y) * unat width + unat width"
    using assms by (simp add: rect_row_start_def rect_in_grid_def)
  also have "\<dots> = Suc (unat (srect_y rect) + y) * unat width" by simp
  also have "\<dots> \<le> unat height * unat width"
    using assms by (intro mult_right_mono) (simp_all add: rect_in_grid_def)
  finally show ?thesis by (simp add: mult.commute)
qed

lemma rect_rows_apart:
  assumes "rect_in_grid rect width height" and "a \<noteq> b"
  shows "rect_row_start width rect a + unat (srect_width rect) \<le> rect_row_start width rect b
    \<or> rect_row_start width rect b + unat (srect_width rect) \<le> rect_row_start width rect a"
proof -
  have "rect_row_start width rect a + unat (srect_width rect) \<le> rect_row_start width rect b" if "a < b" for a b
  proof -
    have "(unat (srect_y rect) + Suc a) * unat width \<le> (unat (srect_y rect) + b) * unat width"
      using that by (intro mult_right_mono) simp_all
    then show ?thesis using assms(1) by (simp add: rect_row_start_def rect_in_grid_def)
  qed
  with assms(2) show ?thesis by (metis nat_neq_iff)
qed

lemma rect_cell_unique:
  assumes "rect_in_grid rect width height" and "x < unat (srect_width rect)" and "x' < unat (srect_width rect)"
    and "rect_row_start width rect y + x = rect_row_start width rect y' + x'"
  shows "y = y' \<and> x = x'"
  using rect_rows_apart [OF assms(1), of y y'] assms(2-4) by (cases "y = y'") auto

lemma swap_rect_rows:
  assumes "rect_in_grid rect width height" and "length cells = unat width * unat height"
    and "a < unat (srect_height rect)" and "b < unat (srect_height rect)" and "a \<noteq> b"
  shows "\<exists>cells'. try_fold (\<lambda>x. vec_swap (rect_row_start width rect a + x) (rect_row_start width rect b + x))
        [0..<unat (srect_width rect)] cells = Some cells' \<and> length cells' = length cells
      \<and> (\<forall>y x. x < unat (srect_width rect) \<longrightarrow> y < unat (srect_height rect) \<longrightarrow>
            cells' ! (rect_row_start width rect y + x) =
              cells ! (rect_row_start width rect (if y = a then b else if y = b then a else y) + x))
      \<and> (\<forall>i < length cells. \<not> in_rect width rect i \<longrightarrow> cells' ! i = cells ! i)"
proof -
  let ?w = "unat (srect_width rect)" and ?s = "rect_row_start width rect"
  note bound = rect_cell_bound [OF assms(1), of _ ?w]
  obtain cells' where c: "try_fold (\<lambda>x. vec_swap (?s a + x) (?s b + x)) [0..<?w] cells = Some cells'"
    "length cells' = length cells"
    and nth: "\<And>i. i < length cells \<Longrightarrow> cells' ! i =
            (if ?s a \<le> i \<and> i < ?s a + ?w then cells ! (?s b + (i - ?s a))
             else if ?s b \<le> i \<and> i < ?s b + ?w then cells ! (?s a + (i - ?s b)) else cells ! i)"
    using swap_segments [OF rect_rows_apart [OF assms(1,5)], of cells] bound [OF assms(3)] bound [OF assms(4)] assms(2)
    by auto
  have "cells' ! (?s y + x) = cells ! (?s (if y = a then b else if y = b then a else y) + x)"
    if "x < ?w" "y < unat (srect_height rect)" for y x
  proof -
    have "?s y + x < length cells" using bound [OF that(2)] that(1) assms(2) by simp
    then show ?thesis
      using nth [of "?s y + x"] that(1) rect_rows_apart [OF assms(1), of y a] rect_rows_apart [OF assms(1), of y b]
        rect_rows_apart [OF assms(1,5)]
      by (cases "y = a"; cases "y = b") (auto simp: add.commute)
  qed
  moreover have "cells' ! i = cells ! i" if "i < length cells" "\<not> in_rect width rect i" for i
  proof -
    have "\<not> (?s y \<le> i \<and> i < ?s y + ?w)" if "y < unat (srect_height rect)" for y
    proof
      assume i: "?s y \<le> i \<and> i < ?s y + ?w"
      then have "i = ?s y + (i - ?s y)" "i - ?s y < ?w" by auto
      with that \<open>\<not> in_rect width rect i\<close> show False unfolding in_rect_def by blast
    qed
    with nth [OF that(1)] assms(3,4) show ?thesis by auto
  qed
  ultimately show ?thesis using c by blast
qed

lemma apply_scroll_moves:
  assumes "scroll_fits scroll width height" and "length cells = unat width * unat height"
    and "rect = scroll_rect scroll"
    and "for_each_swap (unat (srect_height rect)) (scroll_shift scroll) vec_swap [0..<unat (srect_height rect)] = Some order"
  obtains cells' where "apply_scroll cells width scroll = Some cells'" and "length cells' = length cells"
    and "\<And>y x. y < unat (srect_height rect) \<Longrightarrow> x < unat (srect_width rect) \<Longrightarrow>
      cells' ! (rect_row_start width rect y + x) = cells ! (rect_row_start width rect (order ! y) + x)"
    and "\<And>i. i < length cells \<Longrightarrow> \<not> in_rect width rect i \<Longrightarrow> cells' ! i = cells ! i"
proof -
  let ?h = "unat (srect_height rect)" and ?w = "unat (srect_width rect)" and ?s = "rect_row_start width rect"
  let ?R = "\<lambda>grid rows. length grid = length cells \<and> length rows = ?h \<and> (\<forall>y < ?h. rows ! y < ?h)
      \<and> (\<forall>y x. x < ?w \<longrightarrow> y < ?h \<longrightarrow> grid ! (?s y + x) = cells ! (?s (rows ! y) + x))
      \<and> (\<forall>i < length cells. \<not> in_rect width rect i \<longrightarrow> grid ! i = cells ! i)"
  have fit: "rect_in_grid rect width height" "unsigned_abs (scroll_shift scroll) < ?h" "scroll_shift scroll \<noteq> 0"
    using assms(1,3) by (auto simp: scroll_fits_iff)
  have step: "\<exists>grid' rows'. try_fold (\<lambda>x. vec_swap (?s a + x) (?s b + x)) [0..<?w] grid = Some grid'
      \<and> vec_swap a b rows = Some rows' \<and> ?R grid' rows'"
    if sw: "(a, b) \<in> set (swaps ?h (scroll_shift scroll))" and R: "?R grid rows" for a b grid rows
  proof -
    from swaps_bounds [OF sw fit(2,3)] have ab: "a < ?h" "b < ?h" "a \<noteq> b" by auto
    from R have "length grid = unat width * unat height" using assms(2) by simp
    from swap_rect_rows [OF fit(1) this ab] obtain grid' where
      g: "try_fold (\<lambda>x. vec_swap (?s a + x) (?s b + x)) [0..<?w] grid = Some grid'" "length grid' = length grid"
      and inside: "\<And>y x. x < ?w \<Longrightarrow> y < ?h \<Longrightarrow>
            grid' ! (?s y + x) = grid ! (?s (if y = a then b else if y = b then a else y) + x)"
      and outside: "\<And>i. i < length grid \<Longrightarrow> \<not> in_rect width rect i \<Longrightarrow> grid' ! i = grid ! i"
      by blast
    let ?rows' = "rows[a := rows ! b, b := rows ! a]"
    have rows': "?rows' ! y = rows ! (if y = a then b else if y = b then a else y)" if "y < ?h" for y
      using R ab that by (auto simp: nth_list_update)
    have "vec_swap a b rows = Some ?rows'" using R ab by (simp add: vec_swap_def)
    moreover have "?R grid' ?rows'"
      using R ab g(2) inside outside rows' by auto
    ultimately show ?thesis using g(1) by blast
  qed
  have "\<exists>grid rows. try_fold (\<lambda>(a, b). try_fold (\<lambda>x. vec_swap (?s a + x) (?s b + x)) [0..<?w])
        (swaps ?h (scroll_shift scroll)) cells = Some grid
      \<and> try_fold (\<lambda>(a, b). vec_swap a b) (swaps ?h (scroll_shift scroll)) [0..<?h] = Some rows \<and> ?R grid rows"
    by (rule try_fold_rel) (use step in auto)
  then obtain grid rows where *: "apply_scroll cells width scroll = Some grid"
    "for_each_swap ?h (scroll_shift scroll) vec_swap [0..<?h] = Some rows" "?R grid rows"
    by (auto simp: apply_scroll_def for_each_swap_def Let_def assms(3))
  with assms(4) have "rows = order" by simp
  with * that show ?thesis by blast
qed

subsection \<open>Coordinates\<close>

lemma cell_coords:
  assumes "i < unat (width :: u16) * unat (height :: u16)"
  obtains r c where "i = r * unat width + c" and "c < unat width" and "r < unat height"
proof
  have "0 < unat width" using assms by (cases "unat width = 0") auto
  then show "i mod unat width < unat width" by simp
  show "i = i div unat width * unat width + i mod unat width" by simp
  show "i div unat width < unat height" using assms by (simp add: less_mult_imp_div_less mult.commute)
qed

lemma rc_less:
  assumes "(r :: nat) * W + c \<le> r' * W + c'" and "c < W" and "c' < W"
  shows "r < r' \<or> r = r' \<and> c \<le> c'"
proof -
  have "\<not> r' < r"
  proof
    assume "r' < r"
    then have "Suc r' * W \<le> r * W" by (intro mult_right_mono) simp_all
    with assms show False by simp
  qed
  with assms(1) show ?thesis by (cases "r = r'") auto
qed

lemma row_covers_rc:
  assumes "unat (row_x row) + length (row_cells row) \<le> unat width" and "c < unat width"
  shows "row_covers width row (r * unat width + c) \<longleftrightarrow>
    unat (row_y row) = r \<and> unat (row_x row) \<le> c \<and> c < unat (row_x row) + length (row_cells row)"
proof (cases "row_cells row = []")
  case False
  then obtain d where d: "length (row_cells row) = Suc d" by (cases "row_cells row") auto
  then have rx: "unat (row_x row) < unat width" "unat (row_x row) + d < unat width"
    using assms(1) by auto
  have "row_covers width row (r * unat width + c) \<Longrightarrow> unat (row_y row) = r"
    using rc_less [of "unat (row_y row)" "unat width" "unat (row_x row)" r c]
      rc_less [of r "unat width" c "unat (row_y row)" "unat (row_x row) + d"] assms(2) rx
    by (auto simp: row_covers_def row_start_def d)
  then show ?thesis by (auto simp: row_covers_def row_start_def)
qed (auto simp: row_covers_def)

lemma in_rect_rc:
  assumes "rect_in_grid rect width height" and "c < unat width"
  shows "in_rect width rect (r * unat width + c) \<longleftrightarrow>
    unat (srect_y rect) \<le> r \<and> r < unat (srect_y rect) + unat (srect_height rect)
    \<and> unat (srect_x rect) \<le> c \<and> c < unat (srect_x rect) + unat (srect_width rect)"
proof
  assume "in_rect width rect (r * unat width + c)"
  then obtain y x where yx: "y < unat (srect_height rect)" "x < unat (srect_width rect)"
    "r * unat width + c = (unat (srect_y rect) + y) * unat width + (unat (srect_x rect) + x)"
    by (auto simp: in_rect_def rect_row_start_def)
  moreover have "unat (srect_x rect) + x < unat width" using yx(2) assms(1) by (simp add: rect_in_grid_def)
  ultimately have "r = unat (srect_y rect) + y \<and> c = unat (srect_x rect) + x"
    using rc_less [of r "unat width" c "unat (srect_y rect) + y" "unat (srect_x rect) + x"]
      rc_less [of "unat (srect_y rect) + y" "unat width" "unat (srect_x rect) + x" r c] assms(2) by auto
  with yx show "unat (srect_y rect) \<le> r \<and> r < unat (srect_y rect) + unat (srect_height rect)
    \<and> unat (srect_x rect) \<le> c \<and> c < unat (srect_x rect) + unat (srect_width rect)" by auto
next
  assume a: "unat (srect_y rect) \<le> r \<and> r < unat (srect_y rect) + unat (srect_height rect)
    \<and> unat (srect_x rect) \<le> c \<and> c < unat (srect_x rect) + unat (srect_width rect)"
  then have "r * unat width + c =
      rect_row_start width rect (r - unat (srect_y rect)) + (c - unat (srect_x rect))"
    by (simp add: rect_row_start_def)
  with a show "in_rect width rect (r * unat width + c)"
    unfolding in_rect_def
    by (intro exI [of _ "r - unat (srect_y rect)"] conjI exI [of _ "c - unat (srect_x rect)"]) auto
qed

lemma word_rect_sum:
  assumes "unat (a :: u16) + unat b \<le> unat (c :: u16)"
  shows "unat (a + b) = unat a + unat b"
  using assms unat_lt_pow [of c] by (intro unat_add_exact) simp

lemma no_overlap_no_cell:
  assumes "rect_in_grid a width height" and "rect_in_grid b width height" and "\<not> rects_overlap a b"
    and "i < unat width * unat height"
  shows "\<not> (in_rect width a i \<and> in_rect width b i)"
proof
  assume both: "in_rect width a i \<and> in_rect width b i"
  from cell_coords [OF assms(4)] obtain r c where i: "i = r * unat width + c" and c: "c < unat width" by blast
  have sums: "unat (srect_x a + srect_width a) = unat (srect_x a) + unat (srect_width a)"
    "unat (srect_y a + srect_height a) = unat (srect_y a) + unat (srect_height a)"
    "unat (srect_x b + srect_width b) = unat (srect_x b) + unat (srect_width b)"
    "unat (srect_y b + srect_height b) = unat (srect_y b) + unat (srect_height b)"
    using assms(1,2) by (auto simp: rect_in_grid_def intro: word_rect_sum)
  from both have "rects_overlap a b"
    unfolding i in_rect_rc [OF assms(1) c] in_rect_rc [OF assms(2) c] rects_overlap_def word_less_nat_alt sums
    by auto
  with assms(3) show False by simp
qed

text \<open>Coordinates of a row relative to a rectangle, in \<open>u16\<close> and in numbers.\<close>

lemma row_in_rect_iff:
  "(row_y row \<ge> srect_y rect \<and> row_y row - srect_y rect < srect_height rect) \<longleftrightarrow>
   unat (srect_y rect) \<le> unat (row_y row) \<and> unat (row_y row) < unat (srect_y rect) + unat (srect_height rect)"
  by (auto simp: word_le_nat_alt word_less_nat_alt unat_sub)

subsection \<open>Views of the patched rows\<close>

lemma view_cell_patched:
  assumes "rect_in_grid rect (frame_width frame) height" and "length (frame_cells frame) = unat (frame_width frame) * unat height"
    and "\<forall>row \<in> set rows. unat (row_x row) + length (row_cells row) \<le> unat (frame_width frame)"
    and "y < unat (srect_height rect)" and "x < unat (srect_width rect)"
  shows "view_cell (row_views frame rect rows ! y) x =
    patched_cell (frame_cells frame ! (rect_row_start (frame_width frame) rect y + x)) (frame_width frame) rows
      (rect_row_start (frame_width frame) rect y + x)"
proof -
  let ?W = "frame_width frame" and ?i = "rect_row_start (frame_width frame) rect y + x"
  let ?c = "unat (srect_x rect) + x" and ?r = "unat (srect_y rect) + y"
  have c: "?c < unat ?W" using assms(1,5) by (simp add: rect_in_grid_def)
  have i: "?i = ?r * unat ?W + ?c" by (simp add: rect_row_start_def)
  have len: "?i < length (frame_cells frame)"
    using rect_cell_bound [OF assms(1,4), of "Suc x"] assms(2,5) by simp
  have base: "rect_row frame rect y ! x = frame_cells frame ! ?i"
    using len assms(5) by (simp add: rect_row_def)
  have filt: "List.find P (rev (filter Q rows)) = List.find (\<lambda>row. Q row \<and> P row) (rev rows)"
    for P Q :: "pane_surface_patch_row \<Rightarrow> bool"
    by (induction rows) (simp_all add: find_append split: option.split)
  have cov: "(overlaps_rect row rect \<and> unat (row_y row - srect_y rect) = y) \<and> (?c \<ge> unat (row_x row)
      \<and> ?c < unat (row_x row) + length (row_cells row)) \<longleftrightarrow> row_covers ?W row ?i" if "row \<in> set rows" for row
    unfolding i row_covers_rc [OF bspec [OF assms(3) that] c] overlaps_rect_def
    using assms(4,5) by (auto simp: word_le_nat_alt word_less_nat_alt unat_sub)
  have "List.find (\<lambda>row. (overlaps_rect row rect \<and> unat (row_y row - srect_y rect) = y) \<and> (?c \<ge> unat (row_x row)
      \<and> ?c < unat (row_x row) + length (row_cells row))) (rev rows) = List.find (\<lambda>row. row_covers ?W row ?i) (rev rows)"
    by (rule find_cong [OF refl]) (rule cov, simp)
  moreover have "?i - row_start ?W row = ?c - unat (row_x row)" if "row \<in> set rows" "row_covers ?W row ?i" for row
    using that(2) row_covers_rc [OF bspec [OF assms(3) that(1)] c, of ?r] by (auto simp: i row_start_def)
  ultimately show ?thesis
    using assms(4) base
    by (auto simp: view_cell_def row_views_def Let_def filt patched_cell_def split: option.split dest: find_mem)
qed

subsection \<open>The residual covers every difference\<close>

lemma span_end_le: "x \<le> width \<Longrightarrow> span_end differs width x \<le> width"
proof (induction differs width x rule: span_end.induct)
  case (1 differs width x)
  then show ?case by (subst span_end.simps) auto
qed

lemma residual_row_covers:
  assumes "residual_row differs mk width patch_cells x residual n = Some (residual', n')"
  shows "\<exists>spans. residual' = residual @ map (\<lambda>(s, e). mk s e) spans
    \<and> (\<forall>(s, e) \<in> set spans. x \<le> s \<and> s < e \<and> e \<le> width)
    \<and> (\<forall>x'. x \<le> x' \<and> x' < width \<and> differs x' \<longrightarrow> (\<exists>(s, e) \<in> set spans. s \<le> x' \<and> x' < e))"
  using assms
proof (induction differs mk width patch_cells x residual n rule: residual_row.induct)
  case (1 differs mk width patch_cells x residual n)
  consider (stop) "\<not> x < width" | (same) "x < width" "\<not> differs x" | (differs) "x < width" "differs x" by blast
  then show ?case
  proof cases
    case stop
    then show ?thesis using "1.prems" by (subst (asm) residual_row.simps) (auto intro: exI [of _ "[]"])
  next
    case same
    then have "residual_row differs mk width patch_cells (Suc x) residual n = Some (residual', n')"
      using "1.prems" by (subst (asm) residual_row.simps) simp
    from "1.IH"(1) [OF same(1) same(2) this] obtain spans where
      spans: "residual' = residual @ map (\<lambda>(s, e). mk s e) spans"
        "\<forall>(s, e) \<in> set spans. Suc x \<le> s \<and> s < e \<and> e \<le> width"
        "\<forall>x'. Suc x \<le> x' \<and> x' < width \<and> differs x' \<longrightarrow> (\<exists>(s, e) \<in> set spans. s \<le> x' \<and> x' < e)" by blast
    have "Suc x \<le> x'" if "x \<le> x'" "differs x'" for x'
      using that same(2) by (cases "x = x'") auto
    with spans show ?thesis by (intro exI [of _ spans]) (auto dest: Suc_leD)
  next
    case differs
    let ?e = "span_end differs width x"
    have rec: "residual_row differs mk width patch_cells ?e (residual @ [mk x ?e]) (n + (?e - x)) = Some (residual', n')"
      and lim: "\<not> patch_cells \<le> (n + (?e - x)) * 2"
      using "1.prems" differs by (subst (asm) residual_row.simps, simp add: Let_def split: if_splits)+
    from "1.IH"(2) [OF differs(1) _ refl refl lim rec] differs(2) obtain spans where
      spans: "residual' = (residual @ [mk x ?e]) @ map (\<lambda>(s, e). mk s e) spans"
        "\<forall>(s, e) \<in> set spans. ?e \<le> s \<and> s < e \<and> e \<le> width"
        "\<forall>x'. ?e \<le> x' \<and> x' < width \<and> differs x' \<longrightarrow> (\<exists>(s, e) \<in> set spans. s \<le> x' \<and> x' < e)" by auto
    show ?thesis
    proof (intro exI [of _ "(x, ?e) # spans"] conjI allI impI)
      show "\<forall>(s, e) \<in> set ((x, ?e) # spans). x \<le> s \<and> s < e \<and> e \<le> width"
        using spans(2) span_end_gt [of x width differs] span_end_le [of x width differs] differs by fastforce
      fix x' assume "x \<le> x' \<and> x' < width \<and> differs x'"
      then show "\<exists>(s, e) \<in> set ((x, ?e) # spans). s \<le> x' \<and> x' < e"
        using spans(3) by (cases "x' < ?e") (auto simp: not_less)
    qed (simp add: spans(1))
  qed
qed

text \<open>
  \<open>row\<close> writes cells of row \<open>y\<close> of the rectangle, from column \<open>s\<close> up to \<open>e\<close>, as the patch leaves them.
\<close>

definition final_span ::
    "surface_rect \<Rightarrow> row_view list \<Rightarrow> pane_surface_patch_row \<Rightarrow> nat \<Rightarrow> nat \<Rightarrow> nat \<Rightarrow> bool" where
  "final_span rect views row y s e \<longleftrightarrow>
     y < unat (srect_height rect) \<and> s < e \<and> e \<le> unat (srect_width rect)
     \<and> row = \<lparr>row_x = srect_x rect + of_nat s, row_y = srect_y rect + of_nat y,
               row_cells = map (view_cell (views ! y)) [s..<e]\<rparr>"

definition residual_ok ::
    "frame_data \<Rightarrow> surface_rect \<Rightarrow> row_view list \<Rightarrow> (nat \<times> nat) list \<Rightarrow> pane_surface_patch_row list \<Rightarrow> bool" where
  "residual_ok frame rect views order residual \<longleftrightarrow>
     (\<forall>row \<in> set residual. \<exists>y s e. final_span rect views row y s e)
     \<and> (\<forall>(y, src) \<in> set order. \<forall>x < unat (srect_width rect).
          rect_row frame rect src ! x \<noteq> view_cell (views ! y) x \<longrightarrow>
          (\<exists>row \<in> set residual. \<exists>s e. final_span rect views row y s e \<and> s \<le> x \<and> x < e))"

lemma residual_ok_Cons:
  assumes "\<And>row. row \<in> set rows \<Longrightarrow> \<exists>y s e. final_span rect views row y s e"
    and "\<And>x. x < unat (srect_width rect) \<Longrightarrow> rect_row frame rect src ! x \<noteq> view_cell (views ! y) x \<Longrightarrow>
      \<exists>row \<in> set rows. \<exists>s e. final_span rect views row y s e \<and> s \<le> x \<and> x < e"
    and "residual_ok frame rect views order new"
  shows "residual_ok frame rect views ((y, src) # order) (rows @ new)"
  using assms unfolding residual_ok_def by (simp add: ball_Un) blast

lemma residual_rows_ok:
  assumes "residual_rows frame rect views patch_cells order = Some residual"
    and "\<forall>(y, src) \<in> set order. y < unat (srect_height rect)"
  shows "residual_ok frame rect views order residual"
proof -
  let ?mk = "\<lambda>y start x. \<lparr>row_x = srect_x rect + of_nat start, row_y = srect_y rect + of_nat y,
               row_cells = map (view_cell (views ! y)) [start..<x]\<rparr>"
  let ?step = "\<lambda>(y, src) (residual, residual_cells).
       let base = rect_row frame rect src; target = views ! y
       in residual_row (\<lambda>x. base ! x \<noteq> view_cell target x) (?mk y)
            (unat (srect_width rect)) patch_cells 0 residual residual_cells"
  have "\<exists>new. residual' = res @ new \<and> residual_ok frame rect views order new"
    if "try_fold ?step order (res, n) = Some (residual', n')"
      and "\<forall>(y, src) \<in> set order. y < unat (srect_height rect)" for res n residual' n' order
    using that
  proof (induction order arbitrary: res n)
    case Nil
    then show ?case by (simp add: residual_ok_def)
  next
    case (Cons ys order)
    obtain y src where ys: "ys = (y, src)" by (cases ys)
    with Cons.prems(1) obtain mid m where
      row: "residual_row (\<lambda>x. rect_row frame rect src ! x \<noteq> view_cell (views ! y) x) (?mk y)
            (unat (srect_width rect)) patch_cells 0 res n = Some (mid, m)"
      and rest: "try_fold ?step order (mid, m) = Some (residual', n')"
      by (auto simp: Let_def split: option.splits)
    from residual_row_covers [OF row] obtain spans where spans: "mid = res @ map (\<lambda>(s, e). ?mk y s e) spans"
      "\<forall>(s, e) \<in> set spans. s < e \<and> e \<le> unat (srect_width rect)"
      "\<forall>x < unat (srect_width rect). rect_row frame rect src ! x \<noteq> view_cell (views ! y) x \<longrightarrow>
         (\<exists>(s, e) \<in> set spans. s \<le> x \<and> x < e)" by force
    have y: "y < unat (srect_height rect)" using Cons.prems(2) ys by simp
    from Cons.IH [OF rest] Cons.prems(2) obtain new where
      new: "residual' = mid @ new" "residual_ok frame rect views order new" by auto
    let ?all = "map (\<lambda>(s, e). ?mk y s e) spans @ new"
    have fin: "final_span rect views (?mk y s e) y s e" if "(s, e) \<in> set spans" for s e
      using spans(2) y that by (auto simp: final_span_def)
    have "\<exists>row \<in> set (map (\<lambda>(s, e). ?mk y s e) spans). \<exists>s e. final_span rect views row y s e \<and> s \<le> x \<and> x < e"
      if x: "x < unat (srect_width rect)" "rect_row frame rect src ! x \<noteq> view_cell (views ! y) x" for x
    proof -
      from spans(3) x obtain s e where se: "(s, e) \<in> set spans" "s \<le> x" "x < e" by blast
      then have "?mk y s e \<in> set (map (\<lambda>(s, e). ?mk y s e) spans)" by force
      with fin [OF se(1)] se(2,3) show ?thesis by blast
    qed
    moreover have "\<exists>y s e. final_span rect views row y s e" if "row \<in> set (map (\<lambda>(s, e). ?mk y s e) spans)" for row
    proof -
      from that obtain s e where "(s, e) \<in> set spans" "row = ?mk y s e" by auto
      with fin show ?thesis by blast
    qed
    ultimately have "residual_ok frame rect views (ys # order) ?all"
      unfolding ys using new(2) by (intro residual_ok_Cons)
    with spans(1) new(1) show ?case by auto
  qed
  moreover from assms(1) obtain n' where "try_fold ?step order ([], 0) = Some (residual, n')"
    by (auto simp: residual_rows_def Let_def)
  ultimately show ?thesis using assms(2) by fastforce
qed

subsection \<open>The chosen shift\<close>

lemma best_shift_loop_range:
  "best_shift_loop matches height ds bs b = (s, n) \<Longrightarrow> s = bs \<or> (\<exists>d \<in> set ds. s = int d \<or> s = - int d)"
proof (induction matches height ds bs b rule: best_shift_loop.induct)
  case (2 matches height d ds bs b)
  then show ?case by (fastforce simp: Let_def split: if_splits prod.splits)
qed simp

lemma sint_of_int: "- 32768 \<le> b \<Longrightarrow> b < 32768 \<Longrightarrow> sint (word_of_int b :: i16) = b"
  by (simp add: signed_of_int signed_take_bit_int_eq_self)

text \<open>A scroll with the rows that its region still needs.\<close>

definition piece_ok ::
    "frame_data \<Rightarrow> pane_surface_patch_row list \<Rightarrow> surface_scroll \<Rightarrow> pane_surface_patch_row list \<Rightarrow> bool" where
  "piece_ok frame rows scroll residual \<longleftrightarrow>
     (\<exists>order. for_each_swap (unat (srect_height (scroll_rect scroll))) (scroll_shift scroll) vec_swap
          [0..<unat (srect_height (scroll_rect scroll))] = Some order
        \<and> residual_ok frame (scroll_rect scroll) (row_views frame (scroll_rect scroll) rows) (enumerate 0 order) residual)"

lemma pane_scroll_ok:
  assumes "pane_scroll frame rect rows = Some (shift, residual)"
    and "scroll_fits \<lparr>scroll_rect = rect, scroll_shift = 1\<rparr> width height"
  shows "scroll_fits \<lparr>scroll_rect = rect, scroll_shift = shift\<rparr> width height"
    and "piece_ok frame rows \<lparr>scroll_rect = rect, scroll_shift = shift\<rparr> residual"
proof -
  let ?h = "unat (srect_height rect)"
  from assms(1) obtain best_shift best order patch_cells matches where
    loop: "best_shift_loop matches ?h [1..<?h] 0 (matches 0) = (best_shift, best)"
    and nz: "best_shift \<noteq> 0" and rng: "- 32768 \<le> best_shift" "best_shift < 32768"
    and shift: "shift = word_of_int best_shift"
    and order: "for_each_swap ?h shift vec_swap [0..<?h] = Some order"
    and res: "residual_rows frame rect (row_views frame rect rows) patch_cells (enumerate 0 order) = Some residual"
    by (auto simp: pane_scroll_def Let_def split: if_splits option.splits prod.splits)
  have sint: "sint shift = best_shift" using rng by (simp add: shift sint_of_int)
  from best_shift_loop_range [OF loop] nz have "unsigned_abs shift < ?h"
    by (auto simp: unsigned_abs_def sint)
  moreover have "shift \<noteq> 0" using nz sint by auto
  ultimately show "scroll_fits \<lparr>scroll_rect = rect, scroll_shift = shift\<rparr> width height"
    using assms(2) by (simp add: scroll_fits_iff)
  obtain order' where "for_each_swap ?h shift vec_swap [0..<?h] = Some order'" "length order' = ?h"
    using order_exists [OF \<open>unsigned_abs shift < ?h\<close> \<open>shift \<noteq> 0\<close>] by blast
  with order have "length order = ?h" by simp
  then have "\<forall>(y, src) \<in> set (enumerate 0 order). y < ?h" by (auto simp: in_set_enumerate_eq)
  from residual_rows_ok [OF res this] order
  show "piece_ok frame rows \<lparr>scroll_rect = rect, scroll_shift = shift\<rparr> residual" by (simp add: piece_ok_def)
qed

definition panes_apart :: "pane_surface_pane list \<Rightarrow> bool" where
  "panes_apart panes = sorted_wrt (\<lambda>a b. \<not> rects_overlap (sp_inner_rect a) (sp_inner_rect b)) panes"

lemma scrolls_disjoint_append_one:
  "scrolls_disjoint (s # ss) \<longleftrightarrow> (\<forall>o' \<in> set ss. \<not> rects_overlap (scroll_rect s) (scroll_rect o')) \<and> scrolls_disjoint ss"
  by (simp add: list_all_iff)

lemma scroll_panes_ok:
  assumes "scroll_panes last_surface rows panes scrolls0 residual0 = (scrolls, residual)" and "panes_apart panes"
  shows "\<exists>new pieces. scrolls = scrolls0 @ new \<and> residual = residual0 @ concat pieces
    \<and> list_all2 (piece_ok (sf_frame last_surface) rows) new pieces
    \<and> (\<forall>scroll \<in> set new. scroll_fits scroll (frame_width (sf_frame last_surface)) (frame_height (sf_frame last_surface))
         \<and> scroll_rect scroll \<in> sp_inner_rect ` set panes)
    \<and> scrolls_disjoint new
    \<and> (length scrolls0 < MAX_SCROLLS \<longrightarrow> length scrolls \<le> MAX_SCROLLS)"
  using assms
proof (induction panes arbitrary: scrolls0 residual0)
  case Nil
  then show ?case by (auto intro!: exI [of _ "[]"])
next
  case (Cons pane panes)
  let ?frame = "sf_frame last_surface" and ?rect = "sp_inner_rect pane"
  let ?W = "frame_width ?frame" and ?H = "frame_height ?frame"
  have apart: "panes_apart panes" "\<forall>p \<in> set panes. \<not> rects_overlap ?rect (sp_inner_rect p)"
    using Cons.prems(2) by (auto simp: panes_apart_def)
  show ?case
  proof (cases "scroll_panes last_surface rows (pane # panes) scrolls0 residual0 = scroll_panes last_surface rows panes scrolls0 residual0")
    case True
    with Cons.IH [of scrolls0 residual0] Cons.prems(1) apart(1) show ?thesis by (auto 0 4)
  next
    case False
    then obtain shift rest where fits1: "scroll_fits \<lparr>scroll_rect = ?rect, scroll_shift = 1\<rparr> ?W ?H"
      and ps: "pane_scroll ?frame ?rect rows = Some (shift, rest)"
      by (auto simp: Let_def split: if_splits option.splits)
    let ?s = "\<lparr>scroll_rect = ?rect, scroll_shift = shift\<rparr>"
    note ok = pane_scroll_ok [OF ps fits1]
    from False Cons.prems(1) ps have res: "(scrolls, residual) =
        (if length (scrolls0 @ [?s]) = MAX_SCROLLS then (scrolls0 @ [?s], residual0 @ rest)
         else scroll_panes last_surface rows panes (scrolls0 @ [?s]) (residual0 @ rest))"
      by (auto simp: Let_def split: if_splits)
    show ?thesis
    proof (cases "length (scrolls0 @ [?s]) = MAX_SCROLLS")
      case True
      with res ok show ?thesis by (intro exI [of _ "[?s]"] exI [of _ "[rest]"]) auto
    next
      case False
      with res Cons.IH [of "scrolls0 @ [?s]" "residual0 @ rest"] apart(1) obtain new pieces where
        new: "scrolls = (scrolls0 @ [?s]) @ new" "residual = (residual0 @ rest) @ concat pieces"
          "list_all2 (piece_ok ?frame rows) new pieces"
          "\<forall>scroll \<in> set new. scroll_fits scroll ?W ?H \<and> scroll_rect scroll \<in> sp_inner_rect ` set panes"
          "scrolls_disjoint new" "length (scrolls0 @ [?s]) < MAX_SCROLLS \<longrightarrow> length scrolls \<le> MAX_SCROLLS"
        by auto
      have "\<forall>o' \<in> set new. \<not> rects_overlap ?rect (scroll_rect o')" using new(4) apart(2) by auto
      with new ok False show ?thesis
        by (intro exI [of _ "?s # new"] exI [of _ "rest # pieces"]) (auto simp: list_all_iff)
    qed
  qed
qed

subsection \<open>Several scrolls\<close>

lemma apply_scrolls:
  assumes "\<forall>scroll \<in> set scrolls. scroll_fits scroll width height" and "scrolls_disjoint scrolls"
    and "length cells = unat width * unat height"
  shows "\<exists>cells'. try_fold (\<lambda>scroll cells. apply_scroll cells width scroll) scrolls cells = Some cells'
    \<and> length cells' = length cells
    \<and> (\<forall>scroll \<in> set scrolls. \<forall>order y x.
         for_each_swap (unat (srect_height (scroll_rect scroll))) (scroll_shift scroll) vec_swap
           [0..<unat (srect_height (scroll_rect scroll))] = Some order \<longrightarrow>
         y < unat (srect_height (scroll_rect scroll)) \<longrightarrow> x < unat (srect_width (scroll_rect scroll)) \<longrightarrow>
         cells' ! (rect_row_start width (scroll_rect scroll) y + x) =
           cells ! (rect_row_start width (scroll_rect scroll) (order ! y) + x))
    \<and> (\<forall>i < length cells. (\<forall>scroll \<in> set scrolls. \<not> in_rect width (scroll_rect scroll) i) \<longrightarrow> cells' ! i = cells ! i)"
  using assms
proof (induction scrolls arbitrary: cells)
  case (Cons s ss)
  let ?r = "scroll_rect s"
  have fit: "scroll_fits s width height" "rect_in_grid ?r width height"
      "unsigned_abs (scroll_shift s) < unat (srect_height ?r)" "scroll_shift s \<noteq> 0"
    using Cons.prems(1) by (auto simp: scroll_fits_iff)
  obtain order where order: "for_each_swap (unat (srect_height ?r)) (scroll_shift s) vec_swap [0..<unat (srect_height ?r)] = Some order"
    "\<forall>y < unat (srect_height ?r). order ! y < unat (srect_height ?r)"
    using order_exists [OF fit(3,4)] by blast
  obtain mid where mid: "apply_scroll cells width s = Some mid" "length mid = length cells"
    and moved: "\<And>y x. y < unat (srect_height ?r) \<Longrightarrow> x < unat (srect_width ?r) \<Longrightarrow>
      mid ! (rect_row_start width ?r y + x) = cells ! (rect_row_start width ?r (order ! y) + x)"
    and kept: "\<And>i. i < length cells \<Longrightarrow> \<not> in_rect width ?r i \<Longrightarrow> mid ! i = cells ! i"
    using apply_scroll_moves [OF fit(1) Cons.prems(3) refl order(1)] by blast
  from Cons.IH [of mid] Cons.prems mid(2) obtain cells' where
    rest: "try_fold (\<lambda>scroll cells. apply_scroll cells width scroll) ss mid = Some cells'" "length cells' = length mid"
    and rmoved: "\<And>scroll ord y x. scroll \<in> set ss \<Longrightarrow>
         for_each_swap (unat (srect_height (scroll_rect scroll))) (scroll_shift scroll) vec_swap
           [0..<unat (srect_height (scroll_rect scroll))] = Some ord \<Longrightarrow>
         y < unat (srect_height (scroll_rect scroll)) \<Longrightarrow> x < unat (srect_width (scroll_rect scroll)) \<Longrightarrow>
         cells' ! (rect_row_start width (scroll_rect scroll) y + x) =
           mid ! (rect_row_start width (scroll_rect scroll) (ord ! y) + x)"
    and rkept: "\<And>i. i < length mid \<Longrightarrow> (\<And>scroll. scroll \<in> set ss \<Longrightarrow> \<not> in_rect width (scroll_rect scroll) i) \<Longrightarrow>
      cells' ! i = mid ! i"
    by auto
  have apart: "\<not> (in_rect width ?r i \<and> in_rect width (scroll_rect s') i)"
    if "s' \<in> set ss" "i < length cells" for s' i
    using no_overlap_no_cell [OF fit(2), of "scroll_rect s'" i] Cons.prems that
    by (auto simp: scroll_fits_iff list_all_iff)
  have idx: "rect_row_start width (scroll_rect s') y + x < length cells \<and>
      in_rect width (scroll_rect s') (rect_row_start width (scroll_rect s') y + x)"
    if "s' \<in> set (s # ss)" "y < unat (srect_height (scroll_rect s'))" "x < unat (srect_width (scroll_rect s'))" for s' y x
    using that Cons.prems(1,3) rect_cell_bound [of "scroll_rect s'" width height y "Suc x"]
    by (auto simp: scroll_fits_iff in_rect_def)
  have "cells' ! (rect_row_start width (scroll_rect s') y + x) =
      cells ! (rect_row_start width (scroll_rect s') (ord ! y) + x)"
    if s': "s' \<in> set (s # ss)" and ord: "for_each_swap (unat (srect_height (scroll_rect s'))) (scroll_shift s') vec_swap
           [0..<unat (srect_height (scroll_rect s'))] = Some ord"
      and yx: "y < unat (srect_height (scroll_rect s'))" "x < unat (srect_width (scroll_rect s'))" for s' ord y x
  proof (cases "s' \<in> set ss")
    case True
    have fit': "unsigned_abs (scroll_shift s') < unat (srect_height (scroll_rect s'))" "scroll_shift s' \<noteq> 0"
      using Cons.prems(1) True by (auto simp: scroll_fits_iff)
    obtain ord' where "for_each_swap (unat (srect_height (scroll_rect s'))) (scroll_shift s') vec_swap
           [0..<unat (srect_height (scroll_rect s'))] = Some ord'"
        "\<forall>y < unat (srect_height (scroll_rect s')). ord' ! y < unat (srect_height (scroll_rect s'))"
      using order_exists [OF fit'] by blast
    with ord yx(1) have "ord ! y < unat (srect_height (scroll_rect s'))" by simp
    from idx [OF s' this yx(2)] apart [OF True] have "mid ! (rect_row_start width (scroll_rect s') (ord ! y) + x) =
      cells ! (rect_row_start width (scroll_rect s') (ord ! y) + x)" by (blast intro: kept)
    with rmoved [OF True ord yx] show ?thesis by simp
  next
    case False
    with s' have "s' = s" by simp
    with ord order(1) have "ord = order" by simp
    have "cells' ! (rect_row_start width ?r y + x) = mid ! (rect_row_start width ?r y + x)"
      using idx [of s y x] yx apart \<open>s' = s\<close> mid(2) by (intro rkept) auto
    with moved yx \<open>s' = s\<close> \<open>ord = order\<close> show ?thesis by simp
  qed
  moreover have "cells' ! i = cells ! i"
    if "i < length cells" "\<forall>scroll \<in> set (s # ss). \<not> in_rect width (scroll_rect scroll) i" for i
    using that kept rkept mid(2) by auto
  ultimately show ?case using mid rest by (simp del: set_simps)
qed auto

subsection \<open>The message has the effect of the patch\<close>

lemma unat_offset:
  assumes "unat (a :: u16) + n \<le> unat (w :: u16)"
  shows "unat (a + of_nat n) = unat a + n"
proof -
  have "n < 2 ^ 16" using assms unat_lt_pow [of w] by simp
  then have n: "unat (of_nat n :: u16) = n" by (simp add: unat_of_nat)
  then show ?thesis using assms word_rect_sum [of a "of_nat n" w] by simp
qed

lemma final_span_row:
  assumes "rect_in_grid rect width height" and "final_span rect views row y s e"
  shows "unat (row_y row) = unat (srect_y rect) + y" and "unat (row_x row) = unat (srect_x rect) + s"
    and "length (row_cells row) = e - s" and "row_fits row width height"
proof -
  have f: "y < unat (srect_height rect)" "s < e" "e \<le> unat (srect_width rect)"
    and row: "row = \<lparr>row_x = srect_x rect + of_nat s, row_y = srect_y rect + of_nat y,
               row_cells = map (view_cell (views ! y)) [s..<e]\<rparr>"
    using assms(2) by (auto simp: final_span_def)
  have g: "unat (srect_y rect) + y \<le> unat height" "unat (srect_x rect) + s \<le> unat width"
    using assms(1) f by (auto simp: rect_in_grid_def)
  show y: "unat (row_y row) = unat (srect_y rect) + y" and x: "unat (row_x row) = unat (srect_x rect) + s"
    using unat_offset [OF g(1)] unat_offset [OF g(2)] by (simp_all add: row)
  show len: "length (row_cells row) = e - s" by (simp add: row)
  show "row_fits row width height"
    using assms(1) f x y len by (simp add: row_fits_def rect_in_grid_def word_less_nat_alt)
qed

lemma final_span_cell:
  assumes "rect_in_grid rect width height" and "final_span rect views row y s e" and "x < unat (srect_width rect)"
    and "y' < unat (srect_height rect)"
  shows "row_covers width row (rect_row_start width rect y' + x) \<longleftrightarrow> y' = y \<and> s \<le> x \<and> x < e"
    and "s \<le> x \<Longrightarrow> x < e \<Longrightarrow>
      row_cells row ! (rect_row_start width rect y + x - row_start width row) = view_cell (views ! y) x"
proof -
  note row = final_span_row [OF assms(1,2)]
  have c: "unat (srect_x rect) + x < unat width" using assms(1,3) by (simp add: rect_in_grid_def)
  have i: "rect_row_start width rect y + x = (unat (srect_y rect) + y) * unat width + (unat (srect_x rect) + x)" for y
    by (simp add: rect_row_start_def)
  have "unat (row_x row) + length (row_cells row) \<le> unat width" using row(4) by (simp add: row_fits_def)
  from row_covers_rc [OF this c] show "row_covers width row (rect_row_start width rect y' + x) \<longleftrightarrow> y' = y \<and> s \<le> x \<and> x < e"
    using assms(2) by (auto simp: i row final_span_def)
  assume "s \<le> x" "x < e"
  moreover have "rect_row_start width rect y + x - row_start width row = x - s"
    by (simp add: row_start_def rect_row_start_def row)
  ultimately show "row_cells row ! (rect_row_start width rect y + x - row_start width row) = view_cell (views ! y) x"
    using assms(2) by (auto simp: final_span_def)
qed

lemma final_span_outside:
  assumes "rect_in_grid rect width height" and "final_span rect views row y s e" and "row_covers width row i"
    and "i < unat width * unat height"
  shows "in_rect width rect i"
proof -
  from cell_coords [OF assms(4)] obtain r c where i: "i = r * unat width + c" and c: "c < unat width" by blast
  note row = final_span_row [OF assms(1,2)]
  have "unat (row_x row) + length (row_cells row) \<le> unat width" using row(4) by (simp add: row_fits_def)
  from row_covers_rc [OF this c, of r] assms(3) have "r = unat (srect_y rect) + y" "unat (srect_x rect) + s \<le> c" "c < unat (srect_x rect) + e"
    using assms(2) by (auto simp: i row final_span_def)
  with assms(2) show ?thesis unfolding i in_rect_rc [OF assms(1) c] by (simp add: final_span_def)
qed

lemma fully_inside_cell:
  assumes "rect_in_grid rect width height" and "fully_inside row rect" and "row_covers width row i"
    and "row_fits row width height" and "i < unat width * unat height"
  shows "in_rect width rect i"
proof -
  from cell_coords [OF assms(5)] obtain r c where i: "i = r * unat width + c" and c: "c < unat width" by blast
  have "unat (row_x row) + length (row_cells row) \<le> unat width" using assms(4) by (simp add: row_fits_def)
  from row_covers_rc [OF this c, of r] assms(2,3) show ?thesis
    unfolding i in_rect_rc [OF assms(1) c] fully_inside_def using row_in_rect_iff [of rect row]
    by (auto simp: word_le_nat_alt)
qed

text \<open>Rows that write a cell twice write the same value; the rows of a patch are disjoint.\<close>

definition rows_agree :: "u16 \<Rightarrow> pane_surface_patch_row list \<Rightarrow> bool" where
  "rows_agree width rows \<longleftrightarrow>
     (\<forall>i. \<forall>row \<in> set rows. \<forall>row' \<in> set rows. row_covers width row i \<and> row_covers width row' i \<longrightarrow>
        row_cells row ! (i - row_start width row) = row_cells row' ! (i - row_start width row'))"

lemma row_fits_bound:
  assumes "row_fits row width height"
  shows "row_start width row + length (row_cells row) \<le> unat width * unat height"
proof -
  have "row_start width row + length (row_cells row) \<le> Suc (unat (row_y row)) * unat width"
    using assms by (simp add: row_start_def row_fits_def)
  also have "\<dots> \<le> unat height * unat width"
    using assms by (intro mult_right_mono) (auto simp: row_fits_def word_less_nat_alt)
  finally show ?thesis by (simp add: mult.commute)
qed

lemma apply_fitting_rows:
  assumes "\<forall>row \<in> set rows. row_fits row width height" and "length cells = unat width * unat height"
  obtains cells' where "apply_rows cells width rows = Some cells'" and "length cells' = length cells"
    and "\<And>i. i < length cells \<Longrightarrow> cells' ! i = patched_cell (cells ! i) width rows i"
proof -
  have "apply_rows cells width rows \<noteq> None"
    unfolding apply_rows_Some using assms row_fits_bound by auto
  with that show ?thesis by (metis length_apply_rows not_None_eq nth_apply_rows)
qed

text \<open>What the encoder has when it emits a scroll message: the rows of the patch, the regions that move, the
  residual rows of each region, and the grid after the moves.\<close>

definition scroll_plan ::
  "frame_data \<Rightarrow> u16 \<Rightarrow> pane_surface_patch_row list \<Rightarrow> surface_scroll list \<Rightarrow> pane_surface_patch_row list list \<Rightarrow> cell_data list \<Rightarrow> bool"
where
  "scroll_plan frame height rows scrolls pieces moved \<longleftrightarrow>
     length (frame_cells frame) = unat (frame_width frame) * unat height \<and>
     (\<forall>row \<in> set rows. row_fits row (frame_width frame) height) \<and> rows_agree (frame_width frame) rows \<and>
     list_all2 (piece_ok frame rows) scrolls pieces \<and>
     (\<forall>scroll \<in> set scrolls. scroll_fits scroll (frame_width frame) height) \<and> scrolls_disjoint scrolls \<and>
     try_fold (\<lambda>scroll cells. apply_scroll cells (frame_width frame) scroll) scrolls (frame_cells frame) = Some moved"

lemma plan_grid:
  assumes "scroll_plan frame height rows scrolls pieces moved" and "s \<in> set scrolls"
  shows "rect_in_grid (scroll_rect s) (frame_width frame) height"
  using assms by (auto simp: scroll_plan_def scroll_fits_iff)

lemma plan_moved:
  assumes "scroll_plan frame height rows scrolls pieces moved"
  shows "length moved = length (frame_cells frame)"
    and "s \<in> set scrolls \<Longrightarrow>
         for_each_swap (unat (srect_height (scroll_rect s))) (scroll_shift s) vec_swap
           [0..<unat (srect_height (scroll_rect s))] = Some order \<Longrightarrow>
         y < unat (srect_height (scroll_rect s)) \<Longrightarrow> x < unat (srect_width (scroll_rect s)) \<Longrightarrow>
         moved ! (rect_row_start (frame_width frame) (scroll_rect s) y + x) =
           frame_cells frame ! (rect_row_start (frame_width frame) (scroll_rect s) (order ! y) + x)"
    and "i < length (frame_cells frame) \<Longrightarrow>
         (\<And>s. s \<in> set scrolls \<Longrightarrow> \<not> in_rect (frame_width frame) (scroll_rect s) i) \<Longrightarrow> moved ! i = frame_cells frame ! i"
  using apply_scrolls [of scrolls "frame_width frame" height "frame_cells frame"] assms
  by (auto simp: scroll_plan_def)

lemma plan_final:
  assumes "scroll_plan frame height rows scrolls pieces moved" and "row \<in> set (concat pieces)"
  obtains s y a b where "s \<in> set scrolls" and "final_span (scroll_rect s) (row_views frame (scroll_rect s) rows) row y a b"
proof -
  from assms(2) obtain k where k: "k < length pieces" "row \<in> set (pieces ! k)" by (metis UN_E in_set_conv_nth set_concat)
  then have s: "scrolls ! k \<in> set scrolls" and "piece_ok frame rows (scrolls ! k) (pieces ! k)"
    using assms(1) by (auto simp: scroll_plan_def list_all2_conv_all_nth)
  then obtain order where "residual_ok frame (scroll_rect (scrolls ! k)) (row_views frame (scroll_rect (scrolls ! k)) rows)
      (enumerate 0 order) (pieces ! k)"
    unfolding piece_ok_def by blast
  with k(2) s that show ?thesis unfolding residual_ok_def by blast
qed

lemma plan_rows_fit:
  assumes "scroll_plan frame height rows scrolls pieces moved"
  shows "\<forall>row \<in> set (scrolled_rows rows scrolls (concat pieces)). row_fits row (frame_width frame) height"
proof
  fix row assume "row \<in> set (scrolled_rows rows scrolls (concat pieces))"
  then consider "row \<in> set rows" | "row \<in> set (concat pieces)" by (auto simp: scrolled_rows_def)
  then show "row_fits row (frame_width frame) height"
  proof cases
    case 1 then show ?thesis using assms by (simp add: scroll_plan_def)
  next
    case 2 then show ?thesis using plan_final [OF assms] plan_grid [OF assms] final_span_row(4) by metis
  qed
qed

text \<open>The cell the patch leaves at a position, which the scrolled rows have to produce too.\<close>

definition goal_cell :: "frame_data \<Rightarrow> pane_surface_patch_row list \<Rightarrow> nat \<Rightarrow> cell_data" where
  "goal_cell frame rows i = patched_cell (frame_cells frame ! i) (frame_width frame) rows i"

lemma plan_view:
  assumes "scroll_plan frame height rows scrolls pieces moved" and "s \<in> set scrolls"
    and "y < unat (srect_height (scroll_rect s))" and "x < unat (srect_width (scroll_rect s))"
  shows "view_cell (row_views frame (scroll_rect s) rows ! y) x =
    goal_cell frame rows (rect_row_start (frame_width frame) (scroll_rect s) y + x)"
  using view_cell_patched [of "scroll_rect s" frame height rows y x] plan_grid [OF assms(1,2)] assms
  by (auto simp: row_fits_def scroll_plan_def goal_cell_def)

lemma plan_covered:
  assumes plan: "scroll_plan frame height rows scrolls pieces moved" and i: "i < length (frame_cells frame)"
    and row: "row \<in> set (scrolled_rows rows scrolls (concat pieces))" and cov: "row_covers (frame_width frame) row i"
  shows "row_cells row ! (i - row_start (frame_width frame) row) = goal_cell frame rows i"
proof (cases "row \<in> set rows")
  case True
  with plan cov show ?thesis
    unfolding goal_cell_def scroll_plan_def rows_agree_def by (intro patched_cell_value [symmetric]) blast+
next
  case False
  with row have "row \<in> set (concat pieces)" by (auto simp: scrolled_rows_def)
  from plan_final [OF plan this] obtain s y a b where s: "s \<in> set scrolls"
    and fs: "final_span (scroll_rect s) (row_views frame (scroll_rect s) rows) row y a b" by blast
  note grid = plan_grid [OF plan s]
  from final_span_outside [OF grid fs cov] i plan have "in_rect (frame_width frame) (scroll_rect s) i"
    by (simp add: scroll_plan_def)
  then obtain y' x where yx: "y' < unat (srect_height (scroll_rect s))" "x < unat (srect_width (scroll_rect s))"
    "i = rect_row_start (frame_width frame) (scroll_rect s) y' + x" by (auto simp: in_rect_def)
  with cov final_span_cell(1) [OF grid fs yx(2,1)] have "y' = y" "a \<le> x" "x < b" by auto
  with final_span_cell(2) [OF grid fs yx(2,1)] plan_view [OF plan s yx(1,2)] yx(3) show ?thesis by simp
qed

lemma plan_uncovered_inside:
  assumes plan: "scroll_plan frame height rows scrolls pieces moved" and s: "s \<in> set scrolls"
    and yx: "y < unat (srect_height (scroll_rect s))" "x < unat (srect_width (scroll_rect s))"
    and none: "\<not> (\<exists>row \<in> set (scrolled_rows rows scrolls (concat pieces)).
                  row_covers (frame_width frame) row (rect_row_start (frame_width frame) (scroll_rect s) y + x))"
  shows "moved ! (rect_row_start (frame_width frame) (scroll_rect s) y + x) =
    goal_cell frame rows (rect_row_start (frame_width frame) (scroll_rect s) y + x)"
proof -
  note grid = plan_grid [OF plan s]
  from s plan obtain piece where piece: "piece_ok frame rows s piece" "set piece \<subseteq> set (concat pieces)"
    unfolding scroll_plan_def by (metis in_set_conv_nth list_all2_conv_all_nth set_concat Sup_upper image_eqI)
  then obtain order where order: "for_each_swap (unat (srect_height (scroll_rect s))) (scroll_shift s) vec_swap
      [0..<unat (srect_height (scroll_rect s))] = Some order"
    and ok: "residual_ok frame (scroll_rect s) (row_views frame (scroll_rect s) rows) (enumerate 0 order) piece"
    by (auto simp: piece_ok_def)
  have "unsigned_abs (scroll_shift s) < unat (srect_height (scroll_rect s))" "scroll_shift s \<noteq> 0"
    using plan s by (auto simp: scroll_plan_def scroll_fits_iff)
  from order_exists [OF this] order have ord: "length order = unat (srect_height (scroll_rect s))"
    "order ! y < unat (srect_height (scroll_rect s))" using yx(1) by auto
  then have mem: "(y, order ! y) \<in> set (enumerate 0 order)" using yx(1) by (auto simp: in_set_enumerate_eq)
  have "rect_row frame (scroll_rect s) (order ! y) ! x = view_cell (row_views frame (scroll_rect s) rows ! y) x"
  proof (rule ccontr)
    assume "\<not> ?thesis"
    with ok mem yx(2) obtain row a b where "row \<in> set piece"
      "final_span (scroll_rect s) (row_views frame (scroll_rect s) rows) row y a b" "a \<le> x" "x < b"
      unfolding residual_ok_def by blast
    with final_span_cell(1) [OF grid this(2) yx(2,1)] piece(2) none show False
      by (auto simp: scrolled_rows_def)
  qed
  moreover have "rect_row frame (scroll_rect s) (order ! y) ! x =
      frame_cells frame ! (rect_row_start (frame_width frame) (scroll_rect s) (order ! y) + x)"
    using rect_cell_bound [OF grid ord(2), of "Suc x"] yx(2) plan by (simp add: rect_row_def scroll_plan_def)
  ultimately show ?thesis using plan_moved(2) [OF plan s order yx] plan_view [OF plan s yx] by simp
qed

lemma plan_uncovered_outside:
  assumes plan: "scroll_plan frame height rows scrolls pieces moved" and i: "i < length (frame_cells frame)"
    and none: "\<not> (\<exists>row \<in> set (scrolled_rows rows scrolls (concat pieces)). row_covers (frame_width frame) row i)"
    and out: "\<And>s. s \<in> set scrolls \<Longrightarrow> \<not> in_rect (frame_width frame) (scroll_rect s) i"
  shows "moved ! i = goal_cell frame rows i"
proof -
  have "\<not> row_covers (frame_width frame) row i" if "row \<in> set rows" for row
  proof
    assume cov: "row_covers (frame_width frame) row i"
    with none that obtain s where s: "s \<in> set scrolls" "fully_inside row (scroll_rect s)"
      by (auto simp: scrolled_rows_def list_ex_iff)
    with fully_inside_cell [OF plan_grid [OF plan s(1)] s(2) cov] that plan i out show False
      by (auto simp: scroll_plan_def)
  qed
  then show ?thesis using plan_moved(3) [OF plan i out] by (simp add: goal_cell_def patched_cell_uncovered)
qed

lemma scrolled_rows_equivalent:
  assumes plan: "scroll_plan frame height rows scrolls pieces moved"
  shows "apply_rows moved (frame_width frame) (scrolled_rows rows scrolls (concat pieces)) =
    apply_rows (frame_cells frame) (frame_width frame) rows"
proof -
  let ?rows' = "scrolled_rows rows scrolls (concat pieces)" and ?w = "frame_width frame"
  note len = plan_moved(1) [OF plan]
  obtain goal where goal: "apply_rows (frame_cells frame) ?w rows = Some goal" "length goal = length (frame_cells frame)"
    "\<And>i. i < length (frame_cells frame) \<Longrightarrow> goal ! i = goal_cell frame rows i"
    using apply_fitting_rows [of rows ?w height "frame_cells frame"] plan unfolding scroll_plan_def goal_cell_def by blast
  obtain got where got: "apply_rows moved ?w ?rows' = Some got" "length got = length moved"
    "\<And>i. i < length moved \<Longrightarrow> got ! i = patched_cell (moved ! i) ?w ?rows' i"
    using apply_fitting_rows [OF plan_rows_fit [OF plan], of moved] plan len unfolding scroll_plan_def by metis
  have "got ! i = goal ! i" if i: "i < length (frame_cells frame)" for i
  proof (cases "\<exists>row \<in> set ?rows'. row_covers ?w row i")
    case True
    then have "patched_cell (moved ! i) ?w ?rows' i = goal_cell frame rows i"
      using plan_covered [OF plan i] by (blast intro: patched_cell_value)
    then show ?thesis using got(3) goal(3) i len by simp
  next
    case False
    then have "got ! i = moved ! i" using got(3) [of i] i len by (simp add: patched_cell_uncovered)
    also have "moved ! i = goal_cell frame rows i"
      using plan_uncovered_inside [OF plan] plan_uncovered_outside [OF plan i False] False
      unfolding in_rect_def by blast
    finally show ?thesis using goal(3) i by simp
  qed
  then have "got = goal" using got(2) goal(2) len by (intro nth_equalityI) simp_all
  with got(1) goal(1) show ?thesis by simp
qed

end
