(* ===== verification/Surface_Scroll_Expansion.thy ===== *)
theory Surface_Scroll_Expansion
  imports Surface_Scroll_Theorems
begin

text \<open>
  The receiving side of \<^verbatim>\<open>runtime/src/protocol/surface_scroll.rs\<close>: the ordinary patch that \<open>scroll_apply\<close>
  returns writes exactly what the scroll and its rows wrote, lies within the grid, writes no cell twice when the
  rows it received do not, and computing it never panics.  With the encoder's lemmas this gives that a scroll
  message has the effect of the patch it stands for.
\<close>

subsection \<open>The receiver's expansion\<close>

text \<open>Columns \<open>c\<close> up to \<open>c'\<close> of a row as a row of their own.\<close>

definition span_at :: "pane_surface_patch_row \<Rightarrow> nat \<times> nat \<Rightarrow> pane_surface_patch_row" where
  "span_at row = (\<lambda>(c, c'). \<lparr>row_x = of_nat c, row_y = row_y row,
     row_cells = take (c' - c) (drop (c - unat (row_x row)) (row_cells row))\<rparr>)"

definition in_cols :: "nat \<Rightarrow> (nat \<times> nat) list \<Rightarrow> bool" where
  "in_cols k xs \<longleftrightarrow> (\<exists>x \<in> set xs. fst x \<le> k \<and> k < snd x)"

lemma in_cols_simps [simp]: "\<not> in_cols k []" "in_cols k (x # xs) \<longleftrightarrow> fst x \<le> k \<and> k < snd x \<or> in_cols k xs"
    "in_cols k (xs @ ys) \<longleftrightarrow> in_cols k xs \<or> in_cols k ys"
  by (auto simp: in_cols_def)

definition cut_ok :: "nat \<Rightarrow> nat \<Rightarrow> (nat \<times> nat) list \<Rightarrow> (nat \<times> nat) list \<Rightarrow> bool" where
  "cut_ok cursor stop covered cuts \<longleftrightarrow>
     (\<forall>x \<in> set cuts. cursor \<le> fst x \<and> fst x < snd x \<and> snd x \<le> stop) \<and> sorted_wrt (\<lambda>a b. snd a \<le> fst b) cuts
     \<and> (\<forall>k. cursor \<le> k \<and> k < stop \<and> \<not> in_cols k covered \<and> (\<exists>x \<in> set covered. k < fst x) \<longrightarrow> in_cols k cuts)
     \<and> (sorted (map (\<lambda>x. min (fst x) stop) covered) \<longrightarrow> (\<forall>k. \<not> (in_cols k cuts \<and> in_cols k covered)))"

lemma cut_ok_col: "cut_ok cursor stop covered cuts \<Longrightarrow> in_cols k cuts \<Longrightarrow> cursor \<le> k"
  unfolding cut_ok_def in_cols_def by fastforce

lemma cut_ok_skip:
  assumes "cut_ok (max cursor (min r stop)) stop covered cuts" and "l \<le> cursor \<or> stop \<le> cursor"
  shows "cut_ok cursor stop ((l, r) # covered) cuts"
proof -
  have "\<not> (in_cols k cuts \<and> l \<le> k \<and> k < r)" for k
    using cut_ok_col [OF assms(1), of k] assms(1) unfolding cut_ok_def in_cols_def by fastforce
  then show ?thesis using assms unfolding cut_ok_def by auto
qed

lemma cut_ok_emit:
  assumes "cut_ok (max cursor (min r stop)) stop covered cuts" and "cursor < min l stop" "l \<le> r"
  shows "cut_ok cursor stop ((l, r) # covered) ((cursor, min l stop) # cuts)"
proof -
  have later: "min r stop \<le> fst x" "fst x < stop" if "x \<in> set cuts" for x
    using assms(1) that unfolding cut_ok_def by fastforce+
  have avoid: "\<not> (cursor \<le> k \<and> k < min l stop \<and> in_cols k covered)" if "\<forall>x \<in> set covered. min l stop \<le> min (fst x) stop" for k
    using that by (fastforce simp: in_cols_def)
  have "\<not> (in_cols k cuts \<and> l \<le> k \<and> k < r)" for k
    using cut_ok_col [OF assms(1), of k] assms(1) unfolding cut_ok_def in_cols_def by fastforce
  note old = this
  show ?thesis
    unfolding cut_ok_def
  proof (intro conjI allI impI)
    show "\<forall>x \<in> set ((cursor, min l stop) # cuts). cursor \<le> fst x \<and> fst x < snd x \<and> snd x \<le> stop"
      using assms unfolding cut_ok_def by auto
    show "sorted_wrt (\<lambda>a b. snd a \<le> fst b) ((cursor, min l stop) # cuts)"
      using assms(1,3) later(1) unfolding cut_ok_def by (auto simp: min_le_iff_disj intro: order_trans)
    show "in_cols k ((cursor, min l stop) # cuts)"
      if "cursor \<le> k \<and> k < stop \<and> \<not> in_cols k ((l, r) # covered) \<and> (\<exists>x \<in> set ((l, r) # covered). k < fst x)" for k
      using assms(1) that unfolding cut_ok_def by auto
    show "\<not> (in_cols k ((cursor, min l stop) # cuts) \<and> in_cols k ((l, r) # covered))"
      if sorted: "sorted (map (\<lambda>x. min (fst x) stop) ((l, r) # covered))" for k
    proof -
      have "\<forall>x \<in> set covered. min l stop \<le> min (fst x) stop" "\<not> (in_cols k cuts \<and> in_cols k covered)"
        using sorted assms(1) by (simp_all add: cut_ok_def)
      from avoid [OF this(1), of k] this(2) old [of k] show ?thesis by auto
    qed
  qed
qed

lemma outside_loop_cuts:
  assumes "unat (row_x row) \<le> cursor" and "cursor \<le> stop" and "\<forall>x \<in> set covered. fst x \<le> snd x"
  shows "\<exists>cuts. outside_loop row (unat (row_x row)) stop cursor covered = Some (map (span_at row) cuts) \<and> cut_ok cursor stop covered cuts"
  using assms
proof (induction covered arbitrary: cursor)
  case Nil
  show ?case by (intro exI [of _ "[]"]) (simp add: cut_ok_def)
next
  case (Cons x covered)
  obtain l r where x: "x = (l, r)" by (cases x)
  let ?next = "max cursor (min r stop)"
  have "unat (row_x row) \<le> ?next" "?next \<le> stop" using Cons.prems by auto
  with Cons.IH [of ?next] Cons.prems(3) obtain cuts where
    cuts: "outside_loop row (unat (row_x row)) stop ?next covered = Some (map (span_at row) cuts)"
      "cut_ok ?next stop covered cuts"
    by auto
  show ?case
  proof (cases "cursor < min l stop")
    case True
    moreover from True have "clamp cursor stop l = min l stop" by (auto simp: clamp_def)
    ultimately show ?thesis using cuts Cons.prems(2,3) cut_ok_emit [OF cuts(2)]
      by (intro exI [of _ "(cursor, min l stop) # cuts"]) (simp add: Let_def span_at_def x)
  next
    case False
    then have "\<not> cursor < clamp cursor stop l" using Cons.prems(2) by (auto simp: clamp_def)
    with cuts Cons.prems(2) cut_ok_skip [OF cuts(2), of l] False show ?thesis
      by (intro exI [of _ cuts]) (auto simp: Let_def map_option_case x)
  qed
qed

lemma span_at_covers:
  assumes "row_fits row width height" and "unat (row_x row) \<le> c" and "c < c'" and "c' \<le> unat (row_x row) + length (row_cells row)"
  shows "row_fits (span_at row (c, c')) width height"
    and "c0 < unat width \<Longrightarrow> row_covers width (span_at row (c, c')) (r * unat width + c0) \<longleftrightarrow> unat (row_y row) = r \<and> c \<le> c0 \<and> c0 < c'"
    and "c \<le> c0 \<Longrightarrow> c0 < c' \<Longrightarrow>
      row_cells (span_at row (c, c')) ! (unat (row_y row) * unat width + c0 - row_start width (span_at row (c, c'))) =
      row_cells row ! (unat (row_y row) * unat width + c0 - row_start width row)"
proof -
  have "c \<le> unat width" using assms by (simp add: row_fits_def)
  then have "c < 2 ^ 16" using assms unat_lt_pow [of width] by (simp add: row_fits_def)
  then have x: "unat (row_x (span_at row (c, c'))) = c" by (simp add: span_at_def unat_of_nat)
  have len: "length (row_cells (span_at row (c, c'))) = c' - c" using assms by (simp add: span_at_def)
  have y: "row_y (span_at row (c, c')) = row_y row" by (simp add: span_at_def)
  show fits: "row_fits (span_at row (c, c')) width height" using assms by (simp add: row_fits_def x y len)
  show "row_covers width (span_at row (c, c')) (r * unat width + c0) \<longleftrightarrow> unat (row_y row) = r \<and> c \<le> c0 \<and> c0 < c'"
    if "c0 < unat width"
    using row_covers_rc [of "span_at row (c, c')" width c0 r] fits that assms(3) by (auto simp: row_fits_def x y len)
  show "row_cells (span_at row (c, c')) ! (unat (row_y row) * unat width + c0 - row_start width (span_at row (c, c'))) =
      row_cells row ! (unat (row_y row) * unat width + c0 - row_start width row)" if "c \<le> c0" "c0 < c'"
    using that assms by (simp add: row_start_def x y) (simp add: span_at_def)
qed

text \<open>No two rows write the same cell.\<close>

definition rows_apart :: "u16 \<Rightarrow> pane_surface_patch_row list \<Rightarrow> bool" where
  "rows_apart width rows = sorted_wrt (\<lambda>a b. \<forall>i. \<not> (row_covers width a i \<and> row_covers width b i)) rows"

text \<open>What the receiver keeps of a row: the parts outside every scrolled region.\<close>

definition outside_ok ::
    "u16 \<Rightarrow> u16 \<Rightarrow> surface_scroll list \<Rightarrow> pane_surface_patch_row \<Rightarrow> pane_surface_patch_row list \<Rightarrow> bool" where
  "outside_ok width height scrolls row spans \<longleftrightarrow>
     (\<forall>span \<in> set spans. row_fits span width height)
     \<and> (\<forall>span \<in> set spans. \<forall>i < unat width * unat height. row_covers width span i \<longrightarrow>
          row_covers width row i \<and> row_cells span ! (i - row_start width span) = row_cells row ! (i - row_start width row)
          \<and> (\<forall>s \<in> set scrolls. \<not> in_rect width (scroll_rect s) i))
     \<and> (\<forall>i < unat width * unat height. row_covers width row i \<and> (\<forall>s \<in> set scrolls. \<not> in_rect width (scroll_rect s) i) \<longrightarrow>
          (\<exists>span \<in> set spans. row_covers width span i))
     \<and> rows_apart width spans"

lemma outside_covered:
  assumes "\<forall>s \<in> set scrolls. rect_in_grid (scroll_rect s) width height" and "c < unat width"
  shows "in_cols c (map (\<lambda>rect. (unat (srect_x rect), unat (srect_x rect) + unat (srect_width rect)))
            (filter (\<lambda>rect. row_y row \<ge> srect_y rect \<and> row_y row - srect_y rect < srect_height rect)
              (map scroll_rect scrolls))) \<longleftrightarrow>
    (\<exists>s \<in> set scrolls. in_rect width (scroll_rect s) (unat (row_y row) * unat width + c))"
proof -
  have "in_rect width (scroll_rect s) (unat (row_y row) * unat width + c) \<longleftrightarrow>
      (row_y row \<ge> srect_y (scroll_rect s) \<and> row_y row - srect_y (scroll_rect s) < srect_height (scroll_rect s))
      \<and> unat (srect_x (scroll_rect s)) \<le> c \<and> c < unat (srect_x (scroll_rect s)) + unat (srect_width (scroll_rect s))"
    if "s \<in> set scrolls" for s
    using in_rect_rc [OF bspec [OF assms(1) that] assms(2), of "unat (row_y row)"] unfolding row_in_rect_iff by simp
  then show ?thesis by (auto simp: in_cols_def)
qed

lemma sorted_cut: "sorted (map (\<lambda>x. min (fst x) stop) (sort covered @ [(stop, stop)]))"
  for covered :: "(nat \<times> nat) list"
proof -
  have "sorted_wrt (\<lambda>x y. min (fst x) stop \<le> min (fst y) stop) (sort covered)"
    by (rule sorted_wrt_mono_rel [of _ "(\<le>)"]) (auto simp: less_eq_prod_def intro: min.mono)
  then show ?thesis by (simp add: sorted_append sorted_map)
qed

lemma cut_ok_outside:
  assumes fits: "row_fits row width height" and cut: "cut_ok (unat (row_x row)) (unat (row_x row) + length (row_cells row)) cov cuts"
    and cov: "sorted (map (\<lambda>x. min (fst x) (unat (row_x row) + length (row_cells row))) cov)" "\<exists>x \<in> set cov. unat (row_x row) + length (row_cells row) \<le> fst x"
    and hit: "\<And>c. unat (row_x row) \<le> c \<Longrightarrow> c < unat (row_x row) + length (row_cells row) \<Longrightarrow>
      in_cols c cov \<longleftrightarrow> (\<exists>s \<in> set scrolls. in_rect width (scroll_rect s) (unat (row_y row) * unat width + c))"
  shows "outside_ok width height scrolls row (map (span_at row) cuts)"
proof -
  let ?stop = "unat (row_x row) + length (row_cells row)"
  have wide: "?stop \<le> unat width" using fits by (simp add: row_fits_def)
  have b: "unat (row_x row) \<le> fst x" "fst x < snd x" "snd x \<le> ?stop" if "x \<in> set cuts" for x
    using cut that by (auto simp: cut_ok_def)
  have part: "row_fits (span_at row x) width height" if "x \<in> set cuts" for x
    using span_at_covers(1) [OF fits b [OF that]] by simp
  have sub: "row_covers width row i" "row_cells (span_at row x) ! (i - row_start width (span_at row x)) = row_cells row ! (i - row_start width row)"
      "\<forall>s \<in> set scrolls. \<not> in_rect width (scroll_rect s) i"
    if x: "x \<in> set cuts" and i: "i < unat width * unat height" and c: "row_covers width (span_at row x) i" for x i
  proof -
    from cell_coords [OF i] obtain r c0 where rc: "i = r * unat width + c0" "c0 < unat width" by blast
    from c span_at_covers(2) [OF fits b [OF x] rc(2), of r]
    have c0: "unat (row_y row) = r" "fst x \<le> c0" "c0 < snd x" by (simp_all add: rc(1))
    show "row_covers width row i" unfolding rc(1) row_covers_rc [OF wide rc(2)] using c0 b [OF x] by simp
    show "row_cells (span_at row x) ! (i - row_start width (span_at row x)) = row_cells row ! (i - row_start width row)"
      using span_at_covers(3) [OF fits b [OF x] c0(2,3)] c0(1) rc(1) by simp
    have "in_cols c0 cuts" using c0 x by (auto simp: in_cols_def)
    with cut cov(1) have "\<not> in_cols c0 cov" by (auto simp: cut_ok_def)
    with hit [of c0] b [OF x] c0 rc(1) show "\<forall>s \<in> set scrolls. \<not> in_rect width (scroll_rect s) i" by auto
  qed
  have all: "\<exists>x \<in> set cuts. row_covers width (span_at row x) i"
    if i: "i < unat width * unat height" and c: "row_covers width row i" and out: "\<forall>s \<in> set scrolls. \<not> in_rect width (scroll_rect s) i" for i
  proof -
    from cell_coords [OF i] obtain r c0 where rc: "i = r * unat width + c0" "c0 < unat width" by blast
    from c row_covers_rc [OF wide rc(2), of r] have c0: "unat (row_y row) = r" "unat (row_x row) \<le> c0" "c0 < ?stop"
      by (simp_all add: rc(1))
    with hit out rc(1) have "\<not> in_cols c0 cov" by auto
    moreover have "\<exists>x \<in> set cov. c0 < fst x" using cov(2) c0(3) by force
    ultimately have "in_cols c0 cuts" using cut c0 by (auto simp: cut_ok_def)
    then obtain x where "x \<in> set cuts" "fst x \<le> c0" "c0 < snd x" by (auto simp: in_cols_def)
    with span_at_covers(2) [OF fits b [OF this(1)] rc(2), of r] c0(1) show ?thesis by (auto simp: rc(1))
  qed
  have "sorted_wrt (\<lambda>a b. \<forall>i. \<not> (row_covers width (span_at row a) i \<and> row_covers width (span_at row b) i)) cuts"
  proof (rule sorted_wrt_mono_rel [of _ "\<lambda>a b. snd a \<le> fst b"])
    show "sorted_wrt (\<lambda>a b. snd a \<le> fst b) cuts" using cut by (simp add: cut_ok_def)
    fix a d assume ad: "a \<in> set cuts" "d \<in> set cuts" "snd a \<le> fst d"
    show "\<forall>i. \<not> (row_covers width (span_at row a) i \<and> row_covers width (span_at row d) i)"
    proof (intro allI notI)
      fix i assume i: "row_covers width (span_at row a) i \<and> row_covers width (span_at row d) i"
      then have "i < unat width * unat height" using row_fits_bound [OF part [OF ad(1)]] by (auto simp: row_covers_def)
      from cell_coords [OF this] obtain r c0 where rc: "i = r * unat width + c0" "c0 < unat width" by blast
      from i span_at_covers(2) [OF fits b [OF ad(1)] rc(2), of r] span_at_covers(2) [OF fits b [OF ad(2)] rc(2), of r] ad(3)
      show False by (auto simp: rc(1))
    qed
  qed
  with part sub all show ?thesis unfolding outside_ok_def rows_apart_def sorted_wrt_map by auto
qed

lemma outside_scrolls_ok:
  assumes fits: "row_fits row width height" and grid: "\<forall>s \<in> set scrolls. rect_in_grid (scroll_rect s) width height"
  obtains spans where "outside_scrolls row scrolls = Some spans" and "outside_ok width height scrolls row spans"
proof -
  define covered where "covered = map (\<lambda>rect. (unat (srect_x rect), unat (srect_x rect) + unat (srect_width rect)))
            (filter (\<lambda>rect. row_y row \<ge> srect_y rect \<and> row_y row - srect_y rect < srect_height rect)
              (map scroll_rect scrolls))"
  note hit = outside_covered [OF grid, of _ row, folded covered_def]
  have wide: "unat (row_x row) + length (row_cells row) \<le> unat width" using fits by (simp add: row_fits_def)
  show thesis
  proof (cases "covered = []")
    case True
    have "\<not> in_rect width (scroll_rect s) i" if "row_covers width row i" "i < unat width * unat height" "s \<in> set scrolls" for i s
      using that(1,3) cell_coords [OF that(2)] hit row_covers_rc [OF wide] True by (metis in_cols_simps(1))
    with True fits that [of "[row]"] show thesis
      by (simp add: outside_scrolls_def outside_ok_def Let_def covered_def rows_apart_def)
  next
    case False
    let ?stop = "unat (row_x row) + length (row_cells row)"
    let ?cov = "sort covered @ [(?stop, ?stop)]"
    have "\<forall>x \<in> set ?cov. fst x \<le> snd x" by (auto simp: covered_def)
    from outside_loop_cuts [OF order.refl _ this, of row ?stop] obtain cuts where
      cuts: "outside_loop row (unat (row_x row)) ?stop (unat (row_x row)) ?cov = Some (map (span_at row) cuts)"
        "cut_ok (unat (row_x row)) ?stop ?cov cuts" by auto
    with False have some: "outside_scrolls row scrolls = Some (map (span_at row) cuts)"
      by (simp add: outside_scrolls_def Let_def covered_def)
    moreover have "outside_ok width height scrolls row (map (span_at row) cuts)"
    proof (rule cut_ok_outside [OF fits cuts(2) sorted_cut])
      fix c assume "unat (row_x row) \<le> c" and c: "c < ?stop"
      have "in_cols c (sort covered) = in_cols c covered" by (simp add: in_cols_def)
      with hit [of c] c wide show "in_cols c ?cov \<longleftrightarrow>
          (\<exists>s \<in> set scrolls. in_rect width (scroll_rect s) (unat (row_y row) * unat width + c))" by simp
    qed simp
    ultimately show thesis by (rule that)
  qed
qed

text \<open>Rows that show some grid within a region.\<close>

definition shows_region :: "cell_data list \<Rightarrow> u16 \<Rightarrow> u16 \<Rightarrow> surface_rect \<Rightarrow> pane_surface_patch_row list \<Rightarrow> bool" where
  "shows_region cells width height rect rows \<longleftrightarrow>
     (\<forall>row \<in> set rows. row_fits row width height)
     \<and> (\<forall>row \<in> set rows. \<forall>i < unat width * unat height. row_covers width row i \<longrightarrow>
          in_rect width rect i \<and> row_cells row ! (i - row_start width row) = cells ! i)
     \<and> (\<forall>i. in_rect width rect i \<longrightarrow> (\<exists>row \<in> set rows. row_covers width row i))
     \<and> rows_apart width rows"

definition region_row :: "cell_data list \<Rightarrow> u16 \<Rightarrow> surface_rect \<Rightarrow> nat \<Rightarrow> pane_surface_patch_row" where
  "region_row cells width rect k = \<lparr>row_x = srect_x rect, row_y = srect_y rect + of_nat k,
     row_cells = take (unat (srect_width rect)) (drop (rect_row_start width rect k) cells)\<rparr>"

lemma region_row_facts:
  assumes grid: "rect_in_grid rect width height" and len: "length cells = unat width * unat height"
    and k: "k < unat (srect_height rect)"
  shows "unat (row_y (region_row cells width rect k)) = unat (srect_y rect) + k"
    and "length (row_cells (region_row cells width rect k)) = unat (srect_width rect)"
    and "row_fits (region_row cells width rect k) width height"
    and "row_start width (region_row cells width rect k) = rect_row_start width rect k"
proof -
  have "unat (srect_y rect) + k \<le> unat height" using grid k by (simp add: rect_in_grid_def)
  from unat_offset [OF this] show y: "unat (row_y (region_row cells width rect k)) = unat (srect_y rect) + k"
    by (simp add: region_row_def)
  have "rect_row_start width rect k + unat (srect_width rect) \<le> length cells"
    using rect_cell_bound [OF grid k] len by simp
  then show l: "length (row_cells (region_row cells width rect k)) = unat (srect_width rect)"
    by (simp add: region_row_def)
  show "row_fits (region_row cells width rect k) width height"
    using grid k y l by (simp add: row_fits_def rect_in_grid_def word_less_nat_alt region_row_def)
  show "row_start width (region_row cells width rect k) = rect_row_start width rect k"
    unfolding row_start_def y by (simp add: rect_row_start_def region_row_def)
qed

lemma region_rows_eq:
  assumes grid: "rect_in_grid rect width height" and len: "length cells = unat width * unat height"
  shows "region_rows cells width rect = Some (map (region_row cells width rect) [0..<unat (srect_height rect)])"
proof -
  have h: "unat (srect_y rect + srect_height rect) - unat (srect_y rect) = unat (srect_height rect)"
    using grid word_rect_sum [of "srect_y rect" "srect_height rect" height] by (simp add: rect_in_grid_def)
  have start: "unat (srect_y rect + of_nat k) * unat width + unat (srect_x rect) = rect_row_start width rect k"
    if "k < unat (srect_height rect)" for k
    using region_row_facts(1) [OF grid len that] by (simp add: rect_row_start_def region_row_def)
  have "rect_row_start width rect k + unat (srect_width rect) \<le> length cells" if "k < unat (srect_height rect)" for k
    using rect_cell_bound [OF grid that] len by simp
  with start show ?thesis
    unfolding region_rows_def Let_def h by (auto simp: list_all_iff region_row_def)
qed

lemma region_rows_show:
  assumes grid: "rect_in_grid rect width height" and len: "length cells = unat width * unat height"
  obtains rows where "region_rows cells width rect = Some rows" and "shows_region cells width height rect rows"
proof -
  let ?row = "region_row cells width rect" and ?h = "unat (srect_height rect)"
  have cov: "row_covers width (?row k) i \<longleftrightarrow> rect_row_start width rect k \<le> i \<and> i < rect_row_start width rect k + unat (srect_width rect)"
    if "k < ?h" for k i
    using region_row_facts [OF grid len that] by (simp add: row_covers_def)
  have at: "in_rect width rect i" "row_cells (?row k) ! (i - row_start width (?row k)) = cells ! i"
    if "k < ?h" "row_covers width (?row k) i" for k i
  proof -
    from that cov obtain x where x: "i = rect_row_start width rect k + x" "x < unat (srect_width rect)"
      by (metis le_Suc_ex nat_add_left_cancel_less)
    with that(1) show "in_rect width rect i" by (auto simp: in_rect_def)
    show "row_cells (?row k) ! (i - row_start width (?row k)) = cells ! i"
      using x rect_cell_bound [OF grid that(1), of "Suc x"] len region_row_facts(4) [OF grid len that(1)]
      by (simp add: region_row_def)
  qed
  have "sorted_wrt (\<lambda>a b. \<forall>i. \<not> (row_covers width (?row a) i \<and> row_covers width (?row b) i)) [0..<?h]"
  proof (rule sorted_wrt_mono_rel [of _ "(<)"])
    fix a b assume ab: "a \<in> set [0..<?h]" "b \<in> set [0..<?h]" "a < b"
    have "unat (srect_x rect) + unat (srect_width rect) \<le> unat width" using grid by (simp add: rect_in_grid_def)
    moreover have "Suc (unat (srect_y rect) + a) * unat width \<le> (unat (srect_y rect) + b) * unat width"
      using ab(3) by (intro mult_right_mono) auto
    ultimately show "\<forall>i. \<not> (row_covers width (?row a) i \<and> row_covers width (?row b) i)"
      using ab cov [of a] cov [of b] by (auto simp: rect_row_start_def)
  qed simp
  moreover have "\<exists>k \<in> {0..<?h}. row_covers width (?row k) i" if "in_rect width rect i" for i
    using that cov by (fastforce simp: in_rect_def)
  ultimately have "shows_region cells width height rect (map ?row [0..<?h])"
    using at region_row_facts(3) [OF grid len]
    unfolding shows_region_def rows_apart_def sorted_wrt_map by auto
  with region_rows_eq [OF grid len] show thesis by (rule that)
qed

lemma try_concat_Some:
  assumes "\<And>x. x \<in> set xs \<Longrightarrow> \<exists>ys. f x = Some ys \<and> P x ys"
  shows "\<exists>yss. try_concat f xs = Some (concat yss) \<and> list_all2 P xs yss"
  using assms
proof (induction xs)
  case (Cons x xs)
  then obtain ys yss where "f x = Some ys" "P x ys" "try_concat f xs = Some (concat yss)" "list_all2 P xs yss"
    by (metis list.set_intros)
  then show ?case by (intro exI [of _ "ys # yss"]) simp
qed simp

lemma outside_patched:
  assumes "outside_ok width height scrolls row spans" and "i < unat width * unat height"
    and "\<forall>s \<in> set scrolls. \<not> in_rect width (scroll_rect s) i"
  shows "patched_cell b width spans i = patched_cell b width [row] i"
proof (cases "row_covers width row i")
  case True
  with assms obtain span where "span \<in> set spans" "row_covers width span i" unfolding outside_ok_def by blast
  then have "patched_cell b width spans i = row_cells row ! (i - row_start width row)"
    using assms(1,2) unfolding outside_ok_def by (intro patched_cell_value) auto
  then show ?thesis using True by (simp add: patched_cell_simps)
next
  case False
  with assms have "\<forall>span \<in> set spans. \<not> row_covers width span i" unfolding outside_ok_def by blast
  with False show ?thesis by (simp add: patched_cell_uncovered)
qed

lemma outside_all_patched:
  assumes "list_all2 (outside_ok width height scrolls) rows outs" and "i < unat width * unat height"
    and "\<forall>s \<in> set scrolls. \<not> in_rect width (scroll_rect s) i"
  shows "patched_cell b width (concat outs) i = patched_cell b width rows i"
  using assms(1)
proof (induction arbitrary: b rule: list_all2_induct)
  case (Cons row rows spans outs)
  from outside_patched [OF Cons(1) assms(2,3)] Cons.IH show ?case
    by (simp add: patched_cell_append patched_cell_simps)
qed simp

lemma rows_apart_append:
  "rows_apart width (rows @ rows') \<longleftrightarrow> rows_apart width rows \<and> rows_apart width rows' \<and>
    (\<forall>a \<in> set rows. \<forall>b \<in> set rows'. \<forall>i. \<not> (row_covers width a i \<and> row_covers width b i))"
  by (auto simp: rows_apart_def sorted_wrt_append)

lemma row_covers_in_grid: "row_fits row width height \<Longrightarrow> row_covers width row i \<Longrightarrow> i < unat width * unat height"
  using row_fits_bound [of row width height] by (auto simp: row_covers_def)

lemma outside_member:
  assumes "list_all2 (outside_ok width height scrolls) rows outs" and "span \<in> set (concat outs)"
  shows "row_fits span width height"
    and "row_covers width span i \<Longrightarrow> (\<exists>row \<in> set rows. row_covers width row i) \<and> (\<forall>s \<in> set scrolls. \<not> in_rect width (scroll_rect s) i)"
proof -
  from assms obtain row spans where r: "row \<in> set rows" "outside_ok width height scrolls row spans" "span \<in> set spans"
    by (auto simp: list_all2_conv_all_nth in_set_conv_nth) (metis nth_mem)
  then show fits: "row_fits span width height" by (auto simp: outside_ok_def)
  show "(\<exists>row \<in> set rows. row_covers width row i) \<and> (\<forall>s \<in> set scrolls. \<not> in_rect width (scroll_rect s) i)"
    if "row_covers width span i"
    using r that row_covers_in_grid [OF fits that] unfolding outside_ok_def by blast
qed

lemma outside_apart:
  assumes "list_all2 (outside_ok width height scrolls) rows outs" and "rows_apart width rows"
  shows "rows_apart width (concat outs)"
  using assms
proof (induction rule: list_all2_induct)
  case (Cons row rows spans outs)
  have apart: "rows_apart width rows" "\<And>row' i. row' \<in> set rows \<Longrightarrow> \<not> (row_covers width row i \<and> row_covers width row' i)"
    using Cons.prems by (auto simp: rows_apart_def)
  have "\<not> (row_covers width a i \<and> row_covers width b i)" if "a \<in> set spans" "b \<in> set (concat outs)" for a b i
  proof
    assume both: "row_covers width a i \<and> row_covers width b i"
    have "list_all2 (outside_ok width height scrolls) [row] [spans]" using Cons(1) by simp
    from outside_member(2) [OF this, of a i] outside_member(2) [OF Cons(2) that(2), of i] both that(1) apart(2)
    show False by auto
  qed
  with Cons.IH [OF apart(1)] Cons(1) show ?case by (auto simp: rows_apart_append outside_ok_def)
qed (simp add: rows_apart_def)

lemma region_member:
  assumes "list_all2 (\<lambda>s. shows_region cells width height (scroll_rect s)) scrolls regs" and "row \<in> set (concat regs)"
  obtains s where "s \<in> set scrolls" and "row_fits row width height"
    and "\<And>i. row_covers width row i \<Longrightarrow> in_rect width (scroll_rect s) i \<and> row_cells row ! (i - row_start width row) = cells ! i"
proof -
  from assms obtain s rows where r: "s \<in> set scrolls" "shows_region cells width height (scroll_rect s) rows" "row \<in> set rows"
    by (auto simp: list_all2_conv_all_nth in_set_conv_nth) (metis nth_mem)
  moreover from r have fits: "row_fits row width height" by (auto simp: shows_region_def)
  moreover have "in_rect width (scroll_rect s) i \<and> row_cells row ! (i - row_start width row) = cells ! i"
    if "row_covers width row i" for i
    using r that row_covers_in_grid [OF fits that] unfolding shows_region_def by blast
  ultimately show thesis by (intro that)
qed

lemma regions_apart:
  assumes "list_all2 (\<lambda>s. shows_region cells width height (scroll_rect s)) scrolls regs"
    and "scrolls_disjoint scrolls" and "\<forall>s \<in> set scrolls. rect_in_grid (scroll_rect s) width height"
  shows "rows_apart width (concat regs)"
  using assms
proof (induction rule: list_all2_induct)
  case (Cons s scrolls rows regs)
  have "\<not> (row_covers width a i \<and> row_covers width b i)" if ab: "a \<in> set rows" "b \<in> set (concat regs)" for a b i
  proof
    assume both: "row_covers width a i \<and> row_covers width b i"
    have "list_all2 (\<lambda>s. shows_region cells width height (scroll_rect s)) [s] [rows]" using Cons(1) by simp
    from region_member [OF this, of a] ab(1) both have a: "in_rect width (scroll_rect s) i" "row_fits a width height" by auto
    from region_member [OF Cons(2) ab(2)] both obtain s' where s': "s' \<in> set scrolls" "in_rect width (scroll_rect s') i"
      by blast
    moreover have "\<not> rects_overlap (scroll_rect s) (scroll_rect s')" using Cons.prems(1) s'(1) by (simp add: list_all_iff)
    ultimately show False
      using no_overlap_no_cell [of "scroll_rect s" width height "scroll_rect s'" i] Cons.prems(2) a
        row_covers_in_grid [OF a(2)] both by auto
  qed
  with Cons show ?case by (auto simp: rows_apart_append shows_region_def)
qed (simp add: rows_apart_def)

lemma expanded_rows_ok:
  assumes grid: "\<forall>s \<in> set (sc_scrolls sp). rect_in_grid (scroll_rect s) width height"
    and fits: "\<forall>row \<in> set (patch_rows (sc_patch sp)). row_fits row width height"
    and len: "length cells = unat width * unat height"
  obtains outs regs where "expanded_rows cells width sp = Some (concat outs @ concat regs)"
    and "list_all2 (outside_ok width height (sc_scrolls sp)) (patch_rows (sc_patch sp)) outs"
    and "list_all2 (\<lambda>s. shows_region cells width height (scroll_rect s)) (sc_scrolls sp) regs"
proof -
  have "\<exists>spans. outside_scrolls row (sc_scrolls sp) = Some spans \<and> outside_ok width height (sc_scrolls sp) row spans"
    if "row \<in> set (patch_rows (sc_patch sp))" for row
    using outside_scrolls_ok [OF bspec [OF fits that] grid] by metis
  from try_concat_Some [of "patch_rows (sc_patch sp)" "\<lambda>row. outside_scrolls row (sc_scrolls sp)", OF this] obtain outs where
    o': "try_concat (\<lambda>row. outside_scrolls row (sc_scrolls sp)) (patch_rows (sc_patch sp)) = Some (concat outs)"
      "list_all2 (outside_ok width height (sc_scrolls sp)) (patch_rows (sc_patch sp)) outs" by blast
  have "\<exists>rows. region_rows cells width (scroll_rect s) = Some rows \<and> shows_region cells width height (scroll_rect s) rows"
    if "s \<in> set (sc_scrolls sp)" for s
    using region_rows_show [OF bspec [OF grid that] len] by metis
  from try_concat_Some [of "sc_scrolls sp" "\<lambda>s. region_rows cells width (scroll_rect s)", OF this] obtain regs where
    "try_concat (\<lambda>s. region_rows cells width (scroll_rect s)) (sc_scrolls sp) = Some (concat regs)"
    "list_all2 (\<lambda>s. shows_region cells width height (scroll_rect s)) (sc_scrolls sp) regs" by blast
  with o' that show thesis by (simp add: expanded_rows_def)
qed

text \<open>The expanded patch writes what the scroll and the rows wrote.\<close>

lemma expanded_effect:
  assumes "list_all2 (outside_ok width height scrolls) rows outs"
    and "list_all2 (\<lambda>s. shows_region cells' width height (scroll_rect s)) scrolls regs"
    and "apply_rows moved width rows = Some cells'" and "length moved = unat width * unat height" and "length cells = length moved"
    and "\<And>i. i < length cells \<Longrightarrow> (\<And>s. s \<in> set scrolls \<Longrightarrow> \<not> in_rect width (scroll_rect s) i) \<Longrightarrow> moved ! i = cells ! i"
  shows "apply_rows cells width (concat outs @ concat regs) = Some cells'"
    and "\<forall>row \<in> set (concat outs @ concat regs). row_fits row width height"
proof -
  show fits: "\<forall>row \<in> set (concat outs @ concat regs). row_fits row width height"
    using outside_member(1) [OF assms(1)] region_member [OF assms(2)] by (metis Un_iff set_append)
  obtain got where got: "apply_rows cells width (concat outs @ concat regs) = Some got" "length got = length cells"
    "\<And>i. i < length cells \<Longrightarrow> got ! i = patched_cell (cells ! i) width (concat outs @ concat regs) i"
    using apply_fitting_rows [OF fits, of cells] assms(4,5) by auto
  have "got ! i = cells' ! i" if i: "i < length cells" for i
  proof (cases "\<exists>s \<in> set scrolls. in_rect width (scroll_rect s) i")
    case True
    then obtain k where k: "k < length scrolls" "in_rect width (scroll_rect (scrolls ! k)) i" by (auto simp: in_set_conv_nth)
    then have "shows_region cells' width height (scroll_rect (scrolls ! k)) (regs ! k)"
      using assms(2) by (auto simp: list_all2_conv_all_nth)
    with k(2) obtain row where row: "row \<in> set (regs ! k)" "row_covers width row i" unfolding shows_region_def by blast
    have "regs ! k \<in> set regs" using k(1) assms(2) by (auto simp: list_all2_conv_all_nth)
    with row(1) have "row \<in> set (concat regs)" by auto
    then have "patched_cell b width (concat regs) i = cells' ! i" for b
      using row(2) region_member [OF assms(2)] by (intro patched_cell_value) blast+
    then show ?thesis using got(3) [OF i] by (simp add: patched_cell_append)
  next
    case False
    then have "\<forall>row \<in> set (concat regs). \<not> row_covers width row i" using region_member [OF assms(2)] by blast
    then have "got ! i = patched_cell (cells ! i) width rows i"
      using got(3) [OF i] outside_all_patched [OF assms(1)] False i assms(4,5)
      by (simp add: patched_cell_append patched_cell_uncovered)
    also have "\<dots> = cells' ! i" using nth_apply_rows [OF assms(3), of i] assms(5,6) i False by simp
    finally show ?thesis .
  qed
  moreover have "length got = length cells'" using got(2) length_apply_rows [OF assms(3)] assms(5) by simp
  ultimately show "apply_rows cells width (concat outs @ concat regs) = Some cells'"
    using got(1,2) by (simp add: nth_equalityI)
qed

lemma scroll_apply_cases:
  obtains (rejected) e where "scroll_apply cells width height sp = Some (cells, Inl e)"
      "length cells \<noteq> unat width * unat height \<or> \<not> scroll_valid cells width height sp"
  | (applied) moved cells' rows where "length cells = unat width * unat height" and "scroll_valid cells width height sp"
      and "scroll_apply cells width height sp = Some (cells', Inr ((sc_patch sp)\<lparr>patch_rows := rows\<rparr>))"
      and "try_fold (\<lambda>scroll cells. apply_scroll cells width scroll) (sc_scrolls sp) cells = Some moved"
      and "apply_rows moved width (patch_rows (sc_patch sp)) = Some cells'"
      and "apply_rows cells width rows = Some cells'" and "\<forall>row \<in> set rows. row_fits row width height"
      and "rows_apart width (patch_rows (sc_patch sp)) \<Longrightarrow> rows_apart width rows"
proof (cases "length cells = unat width * unat height \<and> scroll_valid cells width height sp")
  case False
  then have "\<exists>e. scroll_apply cells width height sp = Some (cells, Inl e)" by (auto simp: scroll_apply_def)
  with False show thesis using rejected by blast
next
  case True
  then have fit: "\<forall>s \<in> set (sc_scrolls sp). scroll_fits s width height" "scrolls_disjoint (sc_scrolls sp)"
    and rows: "\<forall>row \<in> set (patch_rows (sc_patch sp)). row_fits row width height" and len: "length cells = unat width * unat height"
    by (auto simp: scroll_valid_def list_all_iff)
  then have grid: "\<forall>s \<in> set (sc_scrolls sp). rect_in_grid (scroll_rect s) width height" by (auto simp: scroll_fits_iff)
  from apply_scrolls [OF fit len] obtain moved where
    moved: "try_fold (\<lambda>scroll cells. apply_scroll cells width scroll) (sc_scrolls sp) cells = Some moved"
      "length moved = length cells"
      "\<And>i. i < length cells \<Longrightarrow> (\<And>s. s \<in> set (sc_scrolls sp) \<Longrightarrow> \<not> in_rect width (scroll_rect s) i) \<Longrightarrow> moved ! i = cells ! i"
    by blast
  obtain cells' where cells': "apply_rows moved width (patch_rows (sc_patch sp)) = Some cells'" "length cells' = length moved"
    using apply_fitting_rows [OF rows, of moved] moved(2) len by metis
  obtain outs regs where ex: "expanded_rows cells' width sp = Some (concat outs @ concat regs)"
    and outs: "list_all2 (outside_ok width height (sc_scrolls sp)) (patch_rows (sc_patch sp)) outs"
    and regs: "list_all2 (\<lambda>s. shows_region cells' width height (scroll_rect s)) (sc_scrolls sp) regs"
    using expanded_rows_ok [OF grid rows, of cells'] cells'(2) moved(2) len by auto
  have ml: "length moved = unat width * unat height" using moved(2) len by simp
  note effect = expanded_effect [OF outs regs cells'(1) ml moved(2) [symmetric] moved(3)]
  have apart: "rows_apart width (concat outs @ concat regs)" if "rows_apart width (patch_rows (sc_patch sp))"
  proof -
    have "\<not> (row_covers width a i \<and> row_covers width b i)" if "a \<in> set (concat outs)" "b \<in> set (concat regs)" for a b i
      using outside_member(2) [OF outs that(1), of i] region_member [OF regs that(2)] by blast
    with outside_apart [OF outs that] regions_apart [OF regs fit(2) grid] show ?thesis
      by (simp add: rows_apart_append)
  qed
  have "scroll_apply cells width height sp = Some (cells', Inr ((sc_patch sp)\<lparr>patch_rows := concat outs @ concat regs\<rparr>))"
    using True moved(1) cells'(1) ex by (simp add: scroll_apply_def)
  from applied [OF len _ this moved(1) cells'(1) effect apart] True show thesis by blast
qed

subsection \<open>Encoding and decoding\<close>

lemma scroll_of_header: "scroll_of_chunk (scroll_header s) = s"
proof -
  have w: "of_nat (from_le (to_le 2 (unat (x :: u16)))) = x" for x
    using unat_lt_pow [of x] by (subst from_to_le) simp_all
  show ?thesis by (simp add: w scroll_of_chunk_def scroll_header_def Let_def)
qed

lemma length_scroll_header [simp]: "length (scroll_header s) = SCROLL_BYTES"
  by (simp add: scroll_header_def Let_def SCROLL_BYTES_def)

lemma length_scroll_headers [simp]: "length (concat (map scroll_header scrolls)) = length scrolls * SCROLL_BYTES"
  by (induction scrolls) simp_all

lemma chunks_headers:
  "map scroll_of_chunk (chunks_exact SCROLL_BYTES (length scrolls) (concat (map scroll_header scrolls) @ rest)) = scrolls"
  by (induction scrolls) (simp_all add: scroll_of_header)

lemma scroll_decode_message:
  assumes "bincode_roundtrip C" and "base64_roundtrip C" and "bincode_string_size C"
    and "write_message C (of_nat (length scrolls) # concat (map scroll_header scrolls)) (PaneSurfacePatch p) = Inr bytes"
    and "encoded_size C (EndpointControl MESSAGE_KIND_scroll (b64_encode C bytes)) = Some n" and "n \<le> MAX_FRAME_SIZE"
    and "scrolls \<noteq> []" and "length scrolls \<le> MAX_SCROLLS"
  shows "scroll_decode C (b64_encode C bytes) = Inr \<lparr>sc_scrolls = scrolls, sc_patch = p\<rparr>"
proof -
  let ?head = "concat (map scroll_header scrolls)"
  obtain frame where frame: "write_message C [] (PaneSurfacePatch p) = Inr frame" and bytes: "bytes = of_nat (length scrolls) # ?head @ frame"
    using assms(4) by (auto simp: write_message_def split: sum.splits if_splits)
  have data: "length (b64_encode C bytes) \<le> MAX_FRAME_SIZE"
    using assms(3,5,6) by (force simp: bincode_string_size_def encoded_size_def split: sum.splits)
  have "b64_len C (length bytes) = Some (length (b64_encode C bytes))" using assms(2) by (simp add: base64_roundtrip_def)
  with assms(2) have "length bytes \<le> length (b64_encode C bytes)" unfolding base64_roundtrip_def by blast
  with data have short: "length frame \<le> MAX_FRAME_SIZE + LENGTH_PREFIX_BYTES" by (simp add: bytes)
  have count: "unat (of_nat (length scrolls) :: u8) = length scrolls"
    using assms(8) by (simp add: unat_of_nat MAX_SCROLLS_def)
  have limit: "length (b64_encode C bytes) \<le> (case b64_len C MAX_FRAME_SIZE of Some n \<Rightarrow> n | None \<Rightarrow> 2 ^ 64 - 1)"
  proof (cases "b64_len C MAX_FRAME_SIZE")
    case None
    then show ?thesis using data by (simp add: MAX_FRAME_SIZE_def)
  next
    case (Some m)
    then have "MAX_FRAME_SIZE \<le> m" using assms(2) by (simp add: base64_roundtrip_def)
    then show ?thesis using data Some by simp
  qed
  have dec: "b64_decode C (b64_encode C bytes) = Inr (of_nat (length scrolls) # ?head @ frame)"
    using assms(2) by (simp add: base64_roundtrip_def bytes)
  have "read_message C frame MAX_FRAME_SIZE = (Inr (PaneSurfacePatch p), [])"
    using write_read_message [OF assms(1) frame short, of "[]"] by simp
  with limit dec count assms(7,8) chunks_headers [of scrolls frame] show ?thesis
    by (simp add: scroll_decode_def Let_def)
qed

lemma rows_apart_agree:
  assumes "rows_apart width rows"
  shows "rows_agree width rows"
proof -
  have "row_cells row ! (i - row_start width row) = row_cells row' ! (i - row_start width row')"
    if "row \<in> set rows" "row' \<in> set rows" "row_covers width row i" "row_covers width row' i" for i row row'
  proof -
    from that(1,2) obtain m n where mn: "m < length rows" "row = rows ! m" "n < length rows" "row' = rows ! n"
      by (metis in_set_conv_nth)
    with assms that(3,4) have "m = n" unfolding rows_apart_def sorted_wrt_iff_nth_less by (metis linorder_neqE_nat)
    with mn show ?thesis by simp
  qed
  then show ?thesis unfolding rows_agree_def by blast
qed

lemma scroll_message_plan:
  assumes "scroll_message C last_surface patch = Some msg" and "panes_apart (patch_panes patch)"
    and "\<forall>row \<in> set (patch_rows patch). row_fits row (frame_width (sf_frame last_surface)) (frame_height (sf_frame last_surface))"
    and "rows_apart (frame_width (sf_frame last_surface)) (patch_rows patch)"
  obtains scrolls pieces moved bytes n where
    "scroll_plan (sf_frame last_surface) (frame_height (sf_frame last_surface)) (patch_rows patch) scrolls pieces moved"
    and "scrolls \<noteq> []" and "length scrolls \<le> MAX_SCROLLS"
    and "write_message C (of_nat (length scrolls) # concat (map scroll_header scrolls))
      (PaneSurfacePatch (patch\<lparr>patch_rows := scrolled_rows (patch_rows patch) scrolls (concat pieces)\<rparr>)) = Inr bytes"
    and "msg = EndpointControl MESSAGE_KIND_scroll (b64_encode C bytes)"
    and "encoded_size C msg = Some n" and "n \<le> MAX_FRAME_SIZE"
proof -
  let ?frame = "sf_frame last_surface"
  obtain scrolls residual where sp: "scroll_panes last_surface (patch_rows patch) (patch_panes patch) [] [] = (scrolls, residual)"
    by (cases "scroll_panes last_surface (patch_rows patch) (patch_panes patch) [] []")
  with assms(1) have len: "length (frame_cells ?frame) = unat (frame_width ?frame) * unat (frame_height ?frame)"
    and ne: "scrolls \<noteq> []"
    by (auto simp: scroll_message_def Let_def split: if_splits)
  from scroll_panes_ok [OF sp assms(2)] obtain pieces where pieces: "residual = concat pieces"
    "list_all2 (piece_ok ?frame (patch_rows patch)) scrolls pieces"
    "\<forall>scroll \<in> set scrolls. scroll_fits scroll (frame_width ?frame) (frame_height ?frame)" "scrolls_disjoint scrolls"
    "length scrolls \<le> MAX_SCROLLS"
    by (auto simp: MAX_SCROLLS_def)
  from apply_scrolls [OF pieces(3,4) len] obtain moved where
    moved: "try_fold (\<lambda>scroll cells. apply_scroll cells (frame_width ?frame) scroll) scrolls (frame_cells ?frame) = Some moved"
    by blast
  have plan: "scroll_plan ?frame (frame_height ?frame) (patch_rows patch) scrolls pieces moved"
    using len assms(3) rows_apart_agree [OF assms(4)] pieces moved by (simp add: scroll_plan_def)
  from assms(1) sp len ne pieces(1) obtain bytes n where
    "write_message C (of_nat (length scrolls) # concat (map scroll_header scrolls))
      (PaneSurfacePatch (patch\<lparr>patch_rows := scrolled_rows (patch_rows patch) scrolls (concat pieces)\<rparr>)) = Inr bytes"
    "msg = EndpointControl MESSAGE_KIND_scroll (b64_encode C bytes)" "encoded_size C msg = Some n" "n \<le> MAX_FRAME_SIZE"
    by (auto simp: scroll_message_def Let_def split: sum.splits option.splits if_splits)
  with that plan ne pieces(5) show thesis by blast
qed

lemma scroll_message_effect:
  assumes "bincode_roundtrip C" and "base64_roundtrip C" and "bincode_string_size C"
    and "scroll_message C last_surface patch = Some msg"
    and "frame = sf_frame last_surface"
    and "\<forall>row \<in> set (patch_rows patch). row_fits row (frame_width frame) (frame_height frame)"
    and "rows_apart (frame_width frame) (patch_rows patch)" and "panes_apart (patch_panes patch)"
  shows "\<exists>data sp cells rows. msg = EndpointControl MESSAGE_KIND_scroll data \<and> scroll_decode C data = Inr sp
    \<and> scroll_apply (frame_cells frame) (frame_width frame) (frame_height frame) sp = Some (cells, Inr (patch\<lparr>patch_rows := rows\<rparr>))
    \<and> apply_rows (frame_cells frame) (frame_width frame) (patch_rows patch) = Some cells
    \<and> apply_rows (frame_cells frame) (frame_width frame) rows = Some cells"
proof -
  obtain scrolls pieces moved bytes n where
    plan: "scroll_plan frame (frame_height frame) (patch_rows patch) scrolls pieces moved"
    and sc: "scrolls \<noteq> []" "length scrolls \<le> MAX_SCROLLS"
    and bytes: "write_message C (of_nat (length scrolls) # concat (map scroll_header scrolls))
      (PaneSurfacePatch (patch\<lparr>patch_rows := scrolled_rows (patch_rows patch) scrolls (concat pieces)\<rparr>)) = Inr bytes"
    and msg: "msg = EndpointControl MESSAGE_KIND_scroll (b64_encode C bytes)" "encoded_size C msg = Some n" "n \<le> MAX_FRAME_SIZE"
    using scroll_message_plan [OF assms(4,8)] assms(5-7) by metis
  define sp where "sp = \<lparr>sc_scrolls = scrolls, sc_patch = patch\<lparr>patch_rows := scrolled_rows (patch_rows patch) scrolls (concat pieces)\<rparr>\<rparr>"
  have decoded: "scroll_decode C (b64_encode C bytes) = Inr sp"
    using scroll_decode_message [OF assms(1-3) bytes] msg sc by (simp add: sp_def)
  have valid: "length (frame_cells frame) = unat (frame_width frame) * unat (frame_height frame)"
      "scroll_valid (frame_cells frame) (frame_width frame) (frame_height frame) sp"
    using plan plan_rows_fit [OF plan] by (auto simp: scroll_valid_def sp_def list_all_iff scroll_plan_def)
  show ?thesis
  proof (cases "frame_cells frame" "frame_width frame" "frame_height frame" sp rule: scroll_apply_cases)
    case (applied moved' cells rows)
    then have "apply_rows (frame_cells frame) (frame_width frame) (patch_rows patch) = Some cells"
      using scrolled_rows_equivalent [OF plan] plan by (simp add: sp_def scroll_plan_def)
    moreover have "(sc_patch sp)\<lparr>patch_rows := rows\<rparr> = patch\<lparr>patch_rows := rows\<rparr>" by (simp add: sp_def)
    ultimately show ?thesis using msg(1) decoded applied(3,6) by auto
  qed (use valid in auto)
qed

text \<open>
C20. Delivering a patch as a scroll message leaves the receiver's grid exactly as the patch
would: the detected shift, the row swaps and the residual rows reproduce every cell, and the
ordinary patch that is handed on has the same effect on the grid before.
\<close>

theorem surface_scroll_equivalent:
  assumes "bincode_roundtrip C" and "base64_roundtrip C" and "bincode_string_size C"
    and "scroll_message C last_surface patch = Some msg"
    and "frame = sf_frame last_surface"
    and "\<forall>row \<in> set (patch_rows patch). row_fits row (frame_width frame) (frame_height frame)"
    and "rows_apart (frame_width frame) (patch_rows patch)" and "panes_apart (patch_panes patch)"
  shows "\<exists>data sp cells rows. msg = EndpointControl MESSAGE_KIND_scroll data \<and> scroll_decode C data = Inr sp
    \<and> scroll_apply (frame_cells frame) (frame_width frame) (frame_height frame) sp = Some (cells, Inr (patch\<lparr>patch_rows := rows\<rparr>))
    \<and> apply_rows (frame_cells frame) (frame_width frame) (patch_rows patch) = Some cells
    \<and> apply_rows (frame_cells frame) (frame_width frame) rows = Some cells"
  by (rule scroll_message_effect [OF assms])

text \<open>
C25. Whatever scroll a peer sends, applying it does not panic: it is refused and the grid is
untouched, or the grid and the patch handed on agree, every row of that patch lies within the
grid and no cell is written twice unless the message already did so.
\<close>

theorem scroll_apply_total:
  "case scroll_apply cells width height sp of
     None \<Rightarrow> False
   | Some (cells', Inl e) \<Rightarrow> cells' = cells
   | Some (cells', Inr patch) \<Rightarrow> apply_rows cells width (patch_rows patch) = Some cells' \<and> length cells' = length cells
       \<and> list_all (\<lambda>row. row_fits row width height) (patch_rows patch)
       \<and> (\<not> rows_apart width (patch_rows (sc_patch sp)) \<or> rows_apart width (patch_rows patch))"
proof (cases cells width height sp rule: scroll_apply_cases)
  case (applied moved cells' rows)
  then show ?thesis using length_apply_rows [OF applied(6)] by (auto simp: list_all_iff)
qed auto

text \<open>A pane of one column and three rows whose contents moved up by one row.\<close>

definition demo_cell :: "char \<Rightarrow> cell_data" where
  "demo_cell c = \<lparr>cell_symbol = [c], cell_fg = 0, cell_bg = 0, cell_modifier = 0, cell_skip = False, cell_hyperlink = None\<rparr>"

definition demo_rect :: surface_rect where
  "demo_rect = \<lparr>srect_x = 0, srect_y = 0, srect_width = 1, srect_height = 3\<rparr>"

definition demo_pane :: pane_surface_pane where
  "demo_pane = \<lparr>sp_pane_id = ''p'', sp_content_revision = 1, sp_rect = demo_rect, sp_inner_rect = demo_rect, sp_scrollbar_rect = None,
     sp_scroll = None, sp_focused = True, sp_mouse_reporting = False, sp_sgr_pixel_mouse = False,
     sp_alternate_screen_active = False, sp_pixel_width = 0, sp_pixel_height = 0\<rparr>"

definition demo_surface :: pane_surface_frame where
  "demo_surface = \<lparr>sf_boot_id = ''b'', sf_projection_revision = 1, sf_surface_revision = 1,
     sf_frame = \<lparr>frame_cells = map demo_cell ''abc'', frame_width = 1, frame_height = 3, frame_cursor = None,
       frame_hyperlinks = [], frame_graphics = []\<rparr>,
     sf_panes = [demo_pane], sf_splits = [], sf_popup = None,
     sf_graphics = \<lparr>scene_assets = [], scene_placements = [], scene_retained_assets = []\<rparr>\<rparr>"

definition demo_row :: "u16 \<Rightarrow> char \<Rightarrow> pane_surface_patch_row" where
  "demo_row y c = \<lparr>row_x = 0, row_y = y, row_cells = [demo_cell c]\<rparr>"

definition demo_patch :: pane_surface_patch where
  "demo_patch = \<lparr>patch_boot_id = ''b'', patch_projection_revision = 1, patch_base_surface_revision = 1, patch_surface_revision = 2,
     patch_rows = [demo_row 0 CHR ''b'', demo_row 1 CHR ''c'', demo_row 2 CHR ''d''], patch_panes = [demo_pane], patch_cursor = None\<rparr>"

text \<open>A serializer for the messages of the example and text that is the bytes themselves.\<close>

definition demo_codec :: "unit server_message codec" where
  "demo_codec = \<lparr>
     bin_encode = (\<lambda>m. case m of
         PaneSurfacePatch p \<Rightarrow> if p = demo_patch\<lparr>patch_rows := [demo_row 2 CHR ''d'']\<rparr> then Inr [0] else Inl ''''
       | EndpointControl kind data \<Rightarrow> if kind = MESSAGE_KIND_scroll then Inr (1 # map (of_nat \<circ> of_char) data) else Inl ''''
       | _ \<Rightarrow> Inl ''''),
     bin_decode = (\<lambda>bytes. case bytes of
         [] \<Rightarrow> Inl ''''
       | b # bs \<Rightarrow> if b = 0 then Inr (PaneSurfacePatch (demo_patch\<lparr>patch_rows := [demo_row 2 CHR ''d'']\<rparr>), 1)
                   else Inr (EndpointControl MESSAGE_KIND_scroll (map (char_of \<circ> unat) bs), length bytes)),
     b64_encode = map (char_of \<circ> unat), b64_decode = (\<lambda>data. Inr (map (of_nat \<circ> of_char) data)), b64_len = Some\<rparr>"

lemma demo_codec_laws: "bincode_roundtrip demo_codec" "base64_roundtrip demo_codec" "bincode_string_size demo_codec"
proof -
  have c: "char_of (unat (of_nat (of_char c) :: u8)) = c" for c :: char
    by (simp add: unat_of_nat)
  have w: "of_nat (unat w mod 256) = w" for w :: u8 using unat_lt_pow [of w] by simp
  show "bincode_roundtrip demo_codec"
    by (auto simp: bincode_roundtrip_def demo_codec_def comp_def c split: server_message.splits if_splits)
  show "base64_roundtrip demo_codec" by (simp add: base64_roundtrip_def demo_codec_def comp_def w)
  show "bincode_string_size demo_codec" by (auto simp: bincode_string_size_def demo_codec_def split: if_splits)
qed

lemma rotl_shift: "word_rotl 5 (w :: u64) = push_bit 5 w OR drop_bit 59 w"
proof (rule bit_word_eqI)
  fix n assume n: "n < LENGTH(64)"
  then have "(n + 59) mod 64 = (if n < 5 then n + 59 else n - 5)" by (auto simp: mod_if)
  with n show "bit (word_rotl 5 w) n \<longleftrightarrow> bit (push_bit 5 w OR drop_bit 59 w) n"
    using bit_imp_le_length [of w "n + 59"] by (auto simp: bit_simps add.commute)
qed

lemma demo_hash:
  "cell_hash 0 (demo_cell CHR ''a'') = 12396268083436187753"
  "cell_hash 0 (demo_cell CHR ''b'') = 16077433415097318741"
  "cell_hash 0 (demo_cell CHR ''c'') = 14401464885655055807"
  "cell_hash 0 (demo_cell CHR ''d'') = 6853715349648790420"
  by (simp_all add: cell_hash_def demo_cell_def mix_def rotl_shift)

lemma demo_views: "row_views (sf_frame demo_surface) demo_rect (patch_rows demo_patch) =
   [\<lparr>view_base = [demo_cell CHR ''a''], view_left = 0, view_spans = [demo_row 0 CHR ''b'']\<rparr>,
    \<lparr>view_base = [demo_cell CHR ''b''], view_left = 0, view_spans = [demo_row 1 CHR ''c'']\<rparr>,
    \<lparr>view_base = [demo_cell CHR ''c''], view_left = 0, view_spans = [demo_row 2 CHR ''d'']\<rparr>]"
  by (simp add: row_views_def demo_surface_def demo_rect_def demo_patch_def demo_row_def rect_row_def rect_row_start_def
    overlaps_rect_def upt_rec word_le_nat_alt word_less_nat_alt)

lemma demo_pane_scroll:
  "pane_scroll (sf_frame demo_surface) demo_rect (patch_rows demo_patch) = Some (1, [demo_row 2 CHR ''d''])"
proof -
  have differ: "demo_cell CHR ''c'' \<noteq> demo_cell CHR ''d''" "demo_cell CHR ''a'' \<noteq> demo_cell CHR ''d''" by (simp_all add: demo_cell_def)
  have order: "for_each_swap 3 (1 :: i16) vec_swap [0..<3] = Some [1, 2, 0]" by code_simp
  have rows: "rect_row (sf_frame demo_surface) demo_rect 0 = [demo_cell CHR ''a'']"
    "rect_row (sf_frame demo_surface) demo_rect (Suc 0) = [demo_cell CHR ''b'']"
    "rect_row (sf_frame demo_surface) demo_rect 2 = [demo_cell CHR ''c'']"
    by (simp_all add: rect_row_def demo_surface_def rect_row_start_def demo_rect_def)
  have inside: "filter (\<lambda>row. overlaps_rect row demo_rect \<and> fully_inside row demo_rect) (patch_rows demo_patch) = patch_rows demo_patch"
    by (simp add: demo_rect_def demo_patch_def demo_row_def overlaps_rect_def fully_inside_def)
  let ?views = "row_views (sf_frame demo_surface) demo_rect (patch_rows demo_patch)"
  let ?old = "[12396268083436187753, 16077433415097318741, 14401464885655055807] :: u64 list" and ?new = "[16077433415097318741, 14401464885655055807, 6853715349648790420] :: u64 list"
  have old: "map (\<lambda>v. foldl cell_hash 0 (view_base v)) ?views = ?old" by (simp add: demo_views demo_hash)
  have new: "map (\<lambda>(v, old). if view_spans v = [] then old else view_hash v) (zip ?views ?old) = ?new"
    by (simp add: demo_views view_hash_def view_cell_def demo_row_def demo_hash)
  have matches: "shift_matches ?old ?new 3 0 = 0" "shift_matches ?old ?new 3 1 = 2" "shift_matches ?old ?new 3 (- 1) = 0"
    by code_simp+
  have best: "best_shift_loop (shift_matches ?old ?new 3) 3 [1..<3] 0 0 = (1, 2)"
    by (simp add: upt_rec matches)
  have spans: "length (filter (\<lambda>v. view_spans v \<noteq> []) ?views) = 3" by (simp add: demo_views)
  have n: "sum_list (map (length \<circ> row_cells) (patch_rows demo_patch)) = 3" by (simp add: demo_patch_def demo_row_def)
  have view: "view_cell (?views ! 0) 0 = demo_cell CHR ''b''" "view_cell (?views ! Suc 0) 0 = demo_cell CHR ''c''"
    "view_cell (?views ! Suc (Suc 0)) 0 = demo_cell CHR ''d''"
    by (simp_all add: demo_views view_cell_def demo_row_def)
  have at: "unat (srect_width demo_rect) = 1" "srect_x demo_rect = 0" "srect_y demo_rect = 0" by (simp_all add: demo_rect_def)
  have residual: "residual_rows (sf_frame demo_surface) demo_rect ?views 3 (enumerate 0 [1, 2, 0]) = Some [demo_row 2 CHR ''d'']"
    using differ by (simp add: residual_rows_def Let_def rows view residual_row.simps span_end.simps at demo_row_def)
  have h: "unat (srect_height demo_rect) = 3" by (simp add: demo_rect_def)
  show ?thesis
    unfolding pane_scroll_def Let_def old new inside n spans h matches best order by (simp add: best residual [simplified] order)
qed

definition demo_bytes :: "u8 list" where
  "demo_bytes = [1, 0, 0, 0, 0, 1, 0, 3, 0, 1, 0, 1, 0, 0, 0, 0]"

lemma demo_message:
  "scroll_message demo_codec demo_surface demo_patch = Some (EndpointControl MESSAGE_KIND_scroll (b64_encode demo_codec demo_bytes))"
proof -
  let ?s = "\<lparr>scroll_rect = demo_rect, scroll_shift = 1\<rparr>"
  have proj: "patch_panes demo_patch = [demo_pane]" "sf_panes demo_surface = [demo_pane]" "sp_inner_rect demo_pane = demo_rect"
    "length (frame_cells (sf_frame demo_surface)) = 3" "frame_width (sf_frame demo_surface) = 1" "frame_height (sf_frame demo_surface) = 3"
    by (simp_all add: demo_patch_def demo_surface_def demo_pane_def)
  have "scroll_fits ?s 1 3" by (simp add: scroll_fits_iff rect_in_grid_def demo_rect_def unsigned_abs_def word_le_nat_alt)
  then have panes: "scroll_panes demo_surface (patch_rows demo_patch) (patch_panes demo_patch) [] [] = ([?s], [demo_row 2 CHR ''d''])"
    by (simp add: Let_def proj demo_pane_scroll)
  have inside: "scrolled_rows (patch_rows demo_patch) [?s] [demo_row 2 CHR ''d''] = [demo_row 2 CHR ''d'']"
    by (simp add: scrolled_rows_def demo_patch_def demo_row_def fully_inside_def demo_rect_def)
  have head: "of_nat (length [?s]) # concat (map scroll_header [?s]) = take 11 demo_bytes"
    by code_simp
  have "to_le 4 1 = ([1, 0, 0, 0] :: u8 list)" by code_simp
  then have bytes: "write_message demo_codec (take 11 demo_bytes) (PaneSurfacePatch (demo_patch\<lparr>patch_rows := [demo_row 2 CHR ''d'']\<rparr>)) = Inr demo_bytes"
    by (simp add: write_message_def demo_codec_def LENGTH_PREFIX_BYTES_def demo_bytes_def)
  have size: "encoded_size demo_codec (EndpointControl MESSAGE_KIND_scroll (b64_encode demo_codec demo_bytes)) = Some 17"
    by (simp add: encoded_size_def demo_codec_def demo_bytes_def)
  have len: "length (frame_cells (sf_frame demo_surface)) = unat (frame_width (sf_frame demo_surface)) * unat (frame_height (sf_frame demo_surface))"
    by (simp add: proj)
  show ?thesis
    unfolding scroll_message_def Let_def panes prod.case inside head bytes sum.case size using len by (simp add: MAX_FRAME_SIZE_def)
qed

theorem surface_scroll_equivalent_witness:
  "scroll_message demo_codec demo_surface demo_patch = Some (EndpointControl MESSAGE_KIND_scroll (b64_encode demo_codec demo_bytes))
   \<and> (\<exists>data sp cells rows.
        EndpointControl MESSAGE_KIND_scroll (b64_encode demo_codec demo_bytes) = (EndpointControl MESSAGE_KIND_scroll data :: unit server_message)
        \<and> scroll_decode demo_codec data = Inr sp
        \<and> scroll_apply (frame_cells (sf_frame demo_surface)) (frame_width (sf_frame demo_surface)) (frame_height (sf_frame demo_surface)) sp =
            Some (cells, Inr (demo_patch\<lparr>patch_rows := rows\<rparr>))
        \<and> apply_rows (frame_cells (sf_frame demo_surface)) (frame_width (sf_frame demo_surface)) (patch_rows demo_patch) = Some cells
        \<and> apply_rows (frame_cells (sf_frame demo_surface)) (frame_width (sf_frame demo_surface)) rows = Some cells)"
proof -
  have fits: "\<forall>row \<in> set (patch_rows demo_patch). row_fits row (frame_width (sf_frame demo_surface)) (frame_height (sf_frame demo_surface))"
    by (simp add: demo_patch_def demo_row_def demo_surface_def row_fits_def)
  have apart: "rows_apart (frame_width (sf_frame demo_surface)) (patch_rows demo_patch)"
    by (simp add: demo_patch_def demo_row_def demo_surface_def rows_apart_def row_covers_def row_start_def)
  have panes: "panes_apart (patch_panes demo_patch)" by (simp add: panes_apart_def demo_patch_def)
  from surface_scroll_equivalent [OF demo_codec_laws demo_message refl fits apart panes] demo_message show ?thesis by blast
qed

definition demo_scroll :: scroll_patch where
  "demo_scroll = \<lparr>sc_scrolls = [\<lparr>scroll_rect = demo_rect, scroll_shift = 1\<rparr>], sc_patch = demo_patch\<lparr>patch_rows := [demo_row 2 CHR ''d'']\<rparr>\<rparr>"

lemma demo_scroll_applied:
  "scroll_apply (map demo_cell ''abc'') 1 3 demo_scroll = Some (map demo_cell ''bcd'', Inr demo_patch)"
proof -
  let ?s = "\<lparr>scroll_rect = demo_rect, scroll_shift = 1\<rparr>"
  have fits: "scroll_fits ?s 1 3"
    by (simp add: scroll_fits_iff rect_in_grid_def demo_rect_def unsigned_abs_def word_le_nat_alt)
  have order: "swaps 3 1 = [(0, 1), (1, 2)]" by code_simp
  have moved: "apply_scroll (map demo_cell ''abc'') 1 ?s = Some (map demo_cell ''bca'')"
    by (simp add: apply_scroll_def demo_rect_def order for_each_swap_def vec_swap_def rect_row_start_def)
  have written: "apply_rows (map demo_cell ''bca'') 1 [demo_row 2 CHR ''d''] = Some (map demo_cell ''bcd'')"
    by (simp add: demo_row_def row_start_def write_cells_def)
  have covered: "outside_scrolls (demo_row 2 CHR ''d'') [?s] = Some []"
    by (simp add: outside_scrolls_def demo_row_def demo_rect_def clamp_def Let_def word_less_nat_alt)
  have region: "region_rows (map demo_cell ''bcd'') 1 demo_rect = Some (patch_rows demo_patch)"
    by (simp add: region_rows_def demo_rect_def demo_patch_def demo_row_def upt_rec Let_def)
  have rows: "row_fits (demo_row 2 CHR ''d'') 1 3" by (simp add: row_fits_def demo_row_def)
  have patch: "demo_scroll = \<lparr>sc_scrolls = [?s], sc_patch = demo_patch\<lparr>patch_rows := [demo_row 2 CHR ''d'']\<rparr>\<rparr>"
    "(demo_patch :: pane_surface_patch)\<lparr>patch_rows := patch_rows demo_patch\<rparr> = demo_patch" by (simp_all add: demo_scroll_def)
  show ?thesis
    using fits rows moved written covered region
    by (simp add: scroll_apply_def scroll_valid_def patch expanded_rows_def del: list.map)
qed

theorem scroll_apply_total_witness:
  "rows_apart 1 (patch_rows (sc_patch demo_scroll))
   \<and> scroll_apply (map demo_cell ''abc'') 1 3 demo_scroll = Some (map demo_cell ''bcd'', Inr demo_patch)
   \<and> apply_rows (map demo_cell ''abc'') 1 (patch_rows demo_patch) = Some (map demo_cell ''bcd'')
   \<and> rows_apart 1 (patch_rows demo_patch)"
proof -
  have "rows_apart 1 (patch_rows (sc_patch demo_scroll))"
    by (simp add: demo_scroll_def rows_apart_def)
  with scroll_apply_total [of "map demo_cell ''abc''" 1 3 demo_scroll] show ?thesis
    by (simp add: demo_scroll_applied del: list.map)
qed

end
