(* ===== verification/Surface_Delta_Theorems.thy ===== *)
theory Surface_Delta_Theorems
  imports Surface_Delta Surface_Scroll_Expansion
begin

text \<open>
  Lemmas on sparse surface updates: \<open>changed_rows\<close> lists spans that turn the old grid into the new one,
  whatever \<open>decode_rows\<close> accepts lies within the grid in order and without overlap, and the decoder reads
  back what the sender wrote.
\<close>

subsection \<open>Spans the decoder accepts\<close>

fun spans_from :: "u16 \<Rightarrow> u16 \<Rightarrow> nat \<Rightarrow> pane_surface_patch_row list \<Rightarrow> bool" where
  "spans_from width height prev [] = True"
| "spans_from width height prev (row # rows) \<longleftrightarrow>
     row_cells row \<noteq> [] \<and> row_fits row width height \<and> prev \<le> row_start width row
     \<and> spans_from width height (row_start width row + length (row_cells row)) rows"

lemma spans_from_fits: "spans_from width height prev rows \<Longrightarrow> \<forall>row \<in> set rows. row_fits row width height"
  by (induction rows arbitrary: prev) auto

lemma spans_from_mono: "spans_from width height prev rows \<Longrightarrow> prev' \<le> prev \<Longrightarrow> spans_from width height prev' rows"
  by (cases rows) auto

lemma spans_from_start: "spans_from width height prev rows \<Longrightarrow> row \<in> set rows \<Longrightarrow> prev \<le> row_start width row"
  by (induction rows arbitrary: prev) fastforce+

lemma spans_from_append:
  assumes "spans_from width height prev rows" and "spans_from width height stop rows'" and "prev \<le> stop"
    and "\<forall>row \<in> set rows. row_start width row + length (row_cells row) \<le> stop"
  shows "spans_from width height prev (rows @ rows')"
  using assms by (induction rows arbitrary: prev) (auto intro: spans_from_mono)

lemma spans_from_total:
  "spans_from width height prev rows \<Longrightarrow> prev \<le> unat width * unat height \<Longrightarrow>
   prev + sum_list (map (length \<circ> row_cells) rows) \<le> unat width * unat height"
proof (induction rows arbitrary: prev)
  case (Cons row rows)
  then have "row_start width row + length (row_cells row) \<le> unat width * unat height" using row_fits_bound by simp
  with Cons.IH [OF _ this] Cons.prems(1) show ?case by simp
qed simp

lemma spans_from_apart: "spans_from width height prev rows \<Longrightarrow> rows_apart width rows"
proof (induction rows arbitrary: prev)
  case (Cons row rows)
  then have "\<not> (row_covers width row i \<and> row_covers width row' i)" if "row' \<in> set rows" for row' i
    using spans_from_start [of width height "row_start width row + length (row_cells row)" rows row'] that
    by (auto simp: row_covers_def)
  with Cons show ?case by (auto simp: rows_apart_def)
qed (simp add: rows_apart_def)

lemma spans_from_count:
  "spans_from width height prev rows \<Longrightarrow> length rows \<le> sum_list (map (length \<circ> row_cells) rows)"
proof (induction rows arbitrary: prev)
  case (Cons row rows)
  then have "length (row_cells row) \<ge> 1" by (cases "row_cells row") auto
  with Cons.IH [of "row_start width row + length (row_cells row)"] Cons.prems show ?case by simp
qed simp

subsection \<open>Changed rows\<close>

lemma chunks_eq:
  assumes "n > 0" and "length xs = n * h"
  shows "chunks n xs = map (\<lambda>y. take n (drop (y * n) xs)) [0..<h]"
  using assms(2)
proof (induction h arbitrary: xs)
  case 0
  then show ?case by (simp add: chunks.simps)
next
  case (Suc h)
  then have "length (drop n xs) = n * h" "xs \<noteq> []" using assms(1) by auto
  then have "chunks n xs = take n xs # map (\<lambda>y. take n (drop (y * n) (drop n xs))) [0..<h]"
    using Suc.IH assms(1) by (simp add: chunks.simps [of n xs])
  also have "\<dots> = map (\<lambda>y. take n (drop (y * n) xs)) (0 # map Suc [0..<h])" by (simp add: add.commute)
  finally show ?case by (simp only: upt_rec [of 0 "Suc h"] map_Suc_upt) simp
qed

definition delta_span :: "u16 \<Rightarrow> cell_data list \<Rightarrow> nat \<times> nat \<Rightarrow> pane_surface_patch_row" where
  "delta_span y new_row = (\<lambda>(s, e). \<lparr>row_x = of_nat s, row_y = y, row_cells = take (e - s) (drop s new_row)\<rparr>)"

lemma delta_row_spans:
  assumes "delta_row C full_size y old_row new_row x rows n = Inr (Some (rows', n'))"
  shows "\<exists>cuts. rows' = rows @ map (delta_span y new_row) cuts
    \<and> (\<forall>c \<in> set cuts. x \<le> fst c \<and> fst c < snd c \<and> snd c \<le> length new_row) \<and> sorted_wrt (\<lambda>a b. snd a \<le> fst b) cuts
    \<and> (\<forall>k. x \<le> k \<and> k < length new_row \<and> old_row ! k \<noteq> new_row ! k \<longrightarrow> in_cols k cuts)
    \<and> (length rows \<le> MAX_SPANS \<longrightarrow> length rows' \<le> MAX_SPANS)"
  using assms
proof (induction C full_size y old_row new_row x rows n rule: delta_row.induct)
  case (1 C full_size y old_row new_row x rows n)
  let ?differs = "\<lambda>x. old_row ! x \<noteq> new_row ! x"
  let ?e = "span_end ?differs (length new_row) x"
  let ?span = "delta_span y new_row (x, ?e)"
  consider (stop) "\<not> x < length new_row" | (same) "x < length new_row" "\<not> ?differs x"
    | (span) "x < length new_row" "?differs x" by blast
  then show ?case
  proof cases
    case stop
    with 1(3) have "rows' = rows" by (subst (asm) delta_row.simps) simp
    with stop show ?thesis by (intro exI [of _ "[]"]) simp
  next
    case same
    with 1(3) have "delta_row C full_size y old_row new_row (Suc x) rows n = Inr (Some (rows', n'))"
      by (subst (asm) delta_row.simps) simp
    from 1(1) [OF same(1) _ this] same obtain cuts where cuts:
      "rows' = rows @ map (delta_span y new_row) cuts"
      "\<forall>c \<in> set cuts. Suc x \<le> fst c \<and> fst c < snd c \<and> snd c \<le> length new_row" "sorted_wrt (\<lambda>a b. snd a \<le> fst b) cuts"
      "\<forall>k. Suc x \<le> k \<and> k < length new_row \<and> old_row ! k \<noteq> new_row ! k \<longrightarrow> in_cols k cuts"
      "length rows \<le> MAX_SPANS \<longrightarrow> length rows' \<le> MAX_SPANS" by auto
    have "in_cols k cuts" if "x \<le> k" "k < length new_row" "old_row ! k \<noteq> new_row ! k" for k
      using cuts(4) same(2) that by (cases "k = x") auto
    with cuts show ?thesis by (intro exI [of _ cuts]) auto
  next
    case span
    with 1(3) obtain bytes where enc: "enc_span C ?span = Inr bytes" and few: "length rows \<noteq> MAX_SPANS"
      and small: "\<not> (case b64_len C (n + length bytes) of None \<Rightarrow> True | Some n \<Rightarrow> n \<ge> full_size)"
      and rest: "delta_row C full_size y old_row new_row ?e (rows @ [?span]) (n + length bytes) = Inr (Some (rows', n'))"
      by (subst (asm) delta_row.simps) (auto simp: Let_def delta_span_def split: sum.splits if_splits)
    from 1(2) [OF span(1) _ refl refl _ refl _ rest [unfolded delta_span_def prod.case]] span enc few small
    obtain cuts where
      cuts: "rows' = (rows @ [?span]) @ map (delta_span y new_row) cuts"
      "\<forall>c \<in> set cuts. ?e \<le> fst c \<and> fst c < snd c \<and> snd c \<le> length new_row" "sorted_wrt (\<lambda>a b. snd a \<le> fst b) cuts"
      "\<forall>k. ?e \<le> k \<and> k < length new_row \<and> old_row ! k \<noteq> new_row ! k \<longrightarrow> in_cols k cuts"
      "length (rows @ [?span]) \<le> MAX_SPANS \<longrightarrow> length rows' \<le> MAX_SPANS"
      by (auto simp: delta_span_def)
    have e: "x < ?e" "?e \<le> length new_row" using span_end_gt [of x "length new_row" ?differs] span_end_le [of x "length new_row" ?differs] span by auto
    with cuts few show ?thesis
      by (intro exI [of _ "(x, ?e) # cuts"]) (auto simp: not_less)
  qed
qed

text \<open>The spans list cells of the new grid, every cell that changed among them, from row \<open>k\<close> on.\<close>

definition spans_of :: "u16 \<Rightarrow> u16 \<Rightarrow> cell_data list \<Rightarrow> cell_data list \<Rightarrow> nat \<Rightarrow> pane_surface_patch_row list \<Rightarrow> bool" where
  "spans_of width height old_cells new_cells k rows \<longleftrightarrow>
     spans_from width height (k * unat width) rows
     \<and> (\<forall>row \<in> set rows. \<forall>j < length (row_cells row). row_cells row ! j = new_cells ! (row_start width row + j))
     \<and> (\<forall>i. k * unat width \<le> i \<and> i < length new_cells \<and> old_cells ! i \<noteq> new_cells ! i \<longrightarrow> (\<exists>row \<in> set rows. row_covers width row i))"

lemma delta_span_facts:
  assumes "y < unat (height :: u16)" and "fst c < snd c" and "snd c \<le> unat width"
    and "new_row = take (unat width) (drop (y * unat width) new_cells)" and "length new_cells = unat width * unat height"
  shows "row_start width (delta_span (of_nat y) new_row c) = y * unat width + fst c"
    and "length (row_cells (delta_span (of_nat y) new_row c)) = snd c - fst c"
    and "row_fits (delta_span (of_nat y) new_row c) width height"
    and "j < snd c - fst c \<Longrightarrow> row_cells (delta_span (of_nat y) new_row c) ! j = new_cells ! (y * unat width + fst c + j)"
proof -
  obtain s e where c: "c = (s, e)" by (cases c)
  have "y < 2 ^ 16" "s < 2 ^ 16" using assms unat_lt_pow [of height] unat_lt_pow [of width] by (auto simp: c)
  then have w: "unat (of_nat y :: u16) = y" "unat (of_nat s :: u16) = s" by (simp_all add: unat_of_nat)
  have "Suc y * unat width \<le> unat height * unat width" using assms(1) by (intro mult_right_mono) auto
  then have len: "length new_row = unat width" using assms(4,5) by (simp add: mult.commute)
  show "row_start width (delta_span (of_nat y) new_row c) = y * unat width + fst c"
    by (simp add: row_start_def delta_span_def c w)
  show l: "length (row_cells (delta_span (of_nat y) new_row c)) = snd c - fst c"
    using assms(2,3) len by (simp add: delta_span_def c)
  show "row_fits (delta_span (of_nat y) new_row c) width height"
    using assms(1-3) l by (simp add: row_fits_def delta_span_def c w word_less_nat_alt)
  show "row_cells (delta_span (of_nat y) new_row c) ! j = new_cells ! (y * unat width + fst c + j)" if "j < snd c - fst c"
  proof -
    have "y * unat width \<le> length new_cells"
      using \<open>Suc y * unat width \<le> unat height * unat width\<close> assms(1,5) by (simp add: mult.commute)
    moreover have "drop s new_row ! j = new_row ! (s + j)" using len that assms(2,3) by (simp add: c)
    ultimately show ?thesis using that assms(3,4) by (simp add: delta_span_def c add.assoc)
  qed
qed

lemma delta_spans_from:
  assumes "\<forall>c \<in> set cuts. x \<le> fst c \<and> fst c < snd c \<and> snd c \<le> unat width" and "sorted_wrt (\<lambda>a b. snd a \<le> fst b) cuts"
    and "y < unat (height :: u16)" and "new_row = take (unat width) (drop (y * unat width) new_cells)"
    and "length new_cells = unat width * unat height"
  shows "spans_from width height (y * unat width + x) (map (delta_span (of_nat y) new_row) cuts)"
  using assms(1,2)
proof (induction cuts arbitrary: x)
  case (Cons c cuts)
  then have c: "fst c < snd c" "snd c \<le> unat width" "x \<le> fst c" by auto
  note f = delta_span_facts [OF assms(3) c(1,2) assms(4,5)]
  have "spans_from width height (y * unat width + snd c) (map (delta_span (of_nat y) new_row) cuts)"
    using Cons.prems by (intro Cons.IH) auto
  moreover have "row_cells (delta_span (of_nat y) new_row c) \<noteq> []" using f(2) c(1) by auto
  ultimately show ?case using f(1-3) c by simp
qed simp

lemma delta_rows_spans:
  assumes "length old_cells = unat width * unat height" and "length new_cells = unat width * unat height"
    and "delta_rows C full_size (map (\<lambda>y. (y, take (unat width) (drop (y * unat width) old_cells),
        take (unat width) (drop (y * unat width) new_cells))) [k..<unat height]) rows n = Inr (Some rows')"
    and "k \<le> unat (height :: u16)"
  shows "\<exists>new. rows' = rows @ new \<and> spans_of width height old_cells new_cells k new
    \<and> (length rows \<le> MAX_SPANS \<longrightarrow> length rows' \<le> MAX_SPANS)"
  using assms(3,4)
proof (induction "unat height - k" arbitrary: k rows n)
  case 0
  then show ?case using assms(2) by (intro exI [of _ "[]"]) (simp add: spans_of_def mult.commute)
next
  case (Suc d)
  then have k: "k < unat height" "d = unat height - Suc k" "Suc k \<le> unat height" by auto
  let ?row = "\<lambda>cells y. take (unat width) (drop (y * unat width) cells)"
  have upt: "[k..<unat height] = k # [Suc k..<unat height]" using k(1) by (simp add: upt_rec)
  from Suc.prems(1) obtain rows1 n1 where
    r1: "delta_row C full_size (of_nat k) (?row old_cells k) (?row new_cells k) 0 rows n = Inr (Some (rows1, n1))" and
    rest: "delta_rows C full_size (map (\<lambda>y. (y, ?row old_cells y, ?row new_cells y)) [Suc k..<unat height]) rows1 n1 = Inr (Some rows')"
    unfolding upt by (auto split: sum.splits option.splits)
  have bound: "Suc k * unat width \<le> unat height * unat width" using k(1) by (intro mult_right_mono) auto
  then have len: "length (?row new_cells k) = unat width" "length (?row old_cells k) = unat width"
    using assms(1,2) by (simp_all add: mult.commute)
  obtain cuts where
    cuts: "rows1 = rows @ map (delta_span (of_nat k) (?row new_cells k)) cuts"
    "\<forall>c \<in> set cuts. 0 \<le> fst c \<and> fst c < snd c \<and> snd c \<le> unat width" "sorted_wrt (\<lambda>a b. snd a \<le> fst b) cuts"
    "\<forall>j. 0 \<le> j \<and> j < unat width \<and> ?row old_cells k ! j \<noteq> ?row new_cells k ! j \<longrightarrow> in_cols j cuts"
    "length rows \<le> MAX_SPANS \<longrightarrow> length rows1 \<le> MAX_SPANS"
  proof (rule exE [OF delta_row_spans [OF r1, unfolded len]], elim conjE)
  qed (rule that)
  from Suc.hyps(1) [OF k(2) rest k(3)] obtain new where
    new: "rows' = rows1 @ new" "spans_of width height old_cells new_cells (Suc k) new"
    "length rows1 \<le> MAX_SPANS \<longrightarrow> length rows' \<le> MAX_SPANS" by blast
  let ?here = "map (delta_span (of_nat k) (?row new_cells k)) cuts"
  note facts = delta_span_facts [OF k(1) _ _ refl assms(2)]
  have here: "spans_from width height (k * unat width) ?here"
    using delta_spans_from [OF cuts(2,3) k(1) refl assms(2)] by simp
  have "spans_from width height (k * unat width) (?here @ new)"
    using cuts(2) facts(1,2) new(2) by (intro spans_from_append [OF here, of "Suc k * unat width"]) (auto simp: spans_of_def)
  moreover have "\<exists>row \<in> set (?here @ new). row_covers width row i"
    if i: "k * unat width \<le> i" "i < length new_cells" "old_cells ! i \<noteq> new_cells ! i" for i
  proof (cases "Suc k * unat width \<le> i")
    case True
    with new(2) i show ?thesis by (auto simp: spans_of_def)
  next
    case False
    define j where "j = i - k * unat width"
    with i False bound have j: "j < unat width" "i = k * unat width + j" by auto
    have "k * unat width \<le> length old_cells" "k * unat width \<le> length new_cells" using bound assms(1,2) k(1) by (simp_all add: mult.commute)
    with i(3) j have "?row old_cells k ! j \<noteq> ?row new_cells k ! j" by simp
    with cuts(4) j(1) have "in_cols j cuts" by blast
    then obtain c where c: "c \<in> set cuts" "fst c \<le> j" "j < snd c" by (auto simp: in_cols_def)
    with cuts(2) facts(1,2) [of c] j(2) have "row_covers width (delta_span (of_nat k) (?row new_cells k) c) i"
      by (auto simp: row_covers_def)
    with c(1) show ?thesis by auto
  qed
  moreover have "\<forall>row \<in> set (?here @ new). \<forall>j < length (row_cells row). row_cells row ! j = new_cells ! (row_start width row + j)"
    using new(2) cuts(2) facts(1,2,4) by (auto simp: spans_of_def)
  ultimately show ?case using new(1,3) cuts(1,5) by (intro exI [of _ "?here @ new"]) (auto simp: spans_of_def)
qed

lemma changed_rows_spans:
  assumes "length old_cells = unat width * unat height" and "length new_cells = unat width * unat height"
    and "changed_rows C old_cells new_cells width full_size = Inr (Some rows)"
  shows "spans_of width height old_cells new_cells 0 rows" and "length rows \<le> MAX_SPANS"
proof -
  have "spans_of width height old_cells new_cells 0 rows \<and> length rows \<le> MAX_SPANS"
  proof (cases "width = 0")
    case True
    with assms show ?thesis by (simp add: changed_rows_def spans_of_def)
  next
    case False
    then have "0 < unat width" by (simp add: unat_gt_0)
    from chunks_eq [OF this assms(1)] chunks_eq [OF this assms(2)] False assms(3)
      delta_rows_spans [OF assms(1,2), of C full_size 0 "[]" 0 rows]
    show ?thesis by (auto simp: changed_rows_def enumerate_eq_zip zip_map1 zip_map2 zip_same_conv_map comp_def)
  qed
  then show "spans_of width height old_cells new_cells 0 rows" "length rows \<le> MAX_SPANS" by auto
qed

lemma spans_of_apply:
  assumes "spans_of width height old_cells new_cells 0 rows"
    and "length old_cells = unat width * unat height" and "length new_cells = unat width * unat height"
  shows "apply_rows old_cells width rows = Some new_cells"
proof -
  obtain got where got: "apply_rows old_cells width rows = Some got" "length got = length old_cells"
    "\<And>i. i < length old_cells \<Longrightarrow> got ! i = patched_cell (old_cells ! i) width rows i"
    using apply_fitting_rows [OF spans_from_fits assms(2)] assms(1) unfolding spans_of_def by metis
  have "got ! i = new_cells ! i" if i: "i < length old_cells" for i
  proof (cases "\<exists>row \<in> set rows. row_covers width row i")
    case True
    have "row_cells row ! (i - row_start width row) = new_cells ! i" if "row \<in> set rows" "row_covers width row i" for row
      using that assms(1) by (auto simp: spans_of_def row_covers_def)
    with True have "patched_cell (old_cells ! i) width rows i = new_cells ! i" by (blast intro: patched_cell_value)
    with got(3) [OF i] show ?thesis by simp
  next
    case False
    with assms i have "old_cells ! i = new_cells ! i" by (auto simp: spans_of_def)
    with got(3) [OF i] False show ?thesis by (simp add: patched_cell_uncovered)
  qed
  then have "got = new_cells" using got(2) assms(2,3) by (intro nth_equalityI) auto
  with got(1) show ?thesis by simp
qed

subsection \<open>What the decoder accepts\<close>

lemma dec_bind_Inr: "dec_bind m f r = Inr y \<longleftrightarrow> (\<exists>x r'. m r = Inr (x, r') \<and> f x r' = Inr y)"
  by (auto simp: dec_bind_def split: sum.splits)

lemma dec_return_Inr: "dec_return x r = Inr (y, r') \<longleftrightarrow> y = x \<and> r' = r"
  by (auto simp: dec_return_def)

lemma dec_fail_Inr: "dec_fail message r \<noteq> Inr y"
  by (simp add: dec_fail_def)

lemmas dec_Inr = dec_bind_Inr dec_return_Inr dec_fail_Inr

lemma dec_times_length: "dec_times n m r = Inr (xs, r') \<Longrightarrow> length xs = n"
  by (induction n arbitrary: r xs r') (auto simp: dec_Inr)

lemma decode_rows_loop_spans:
  "decode_rows_loop D width height budget used prev count r = Inr (rows, r') \<Longrightarrow>
   spans_from width height prev rows \<and> length rows = count \<and> (used \<le> budget \<longrightarrow> used + sum_list (map (length \<circ> row_cells) rows) \<le> budget)"
proof (induction D width height budget used prev count arbitrary: r rows rule: decode_rows_loop.induct)
  case (1 D width height budget used prev)
  then show ?case by (simp add: dec_Inr)
next
  case (2 D width height budget used prev count)
  let ?start = "\<lambda>x y. unat y * unat width + unat x"
  from "2.prems" obtain x y n cells rest r1 r2 where
    ok: "\<not> (n = 0 \<or> y \<ge> height \<or> unat x \<ge> unat width \<or> n > unat width - unat x)" "\<not> ?start x y \<ge> 2 ^ 64"
      "\<not> ?start x y < prev" "\<not> used + n \<ge> 2 ^ 64" "\<not> used + n > budget"
    and cells: "dec_times n (rd_cell D) r1 = Inr (cells, r2)"
    and rest: "decode_rows_loop D width height budget (used + n) (?start x y + n) count r2 = Inr (rest, r')"
    and rows: "rows = \<lparr>row_x = x, row_y = y, row_cells = cells\<rparr> # rest"
    by (auto simp: dec_Inr Let_def split: if_splits)
  have "length cells = n" using dec_times_length [OF cells] .
  with "2.IH" [OF ok(1) refl ok(2-5) rest] ok rows show ?case
    by (auto simp: row_fits_def row_start_def)
qed

lemma dec_grid_size_Inr: "dec_grid_size width height r = Inr (n, r') \<longleftrightarrow> checked_grid_size width height = Inr n \<and> r' = r"
  by (auto simp: dec_grid_size_def dec_Inr split: sum.splits)

lemma checked_grid_size_Inr: "checked_grid_size width height = Inr n \<Longrightarrow> n = unat width * unat height \<and> n \<le> MAX_GRID_CELLS"
  by (auto simp: checked_grid_size_def Let_def split: if_splits)

lemma decode_count_Inr: "decode_count D limit message r = Inr (n, r') \<Longrightarrow> n \<le> limit"
  by (auto simp: decode_count_def dec_Inr split: if_splits)

lemma decode_rows_spans:
  assumes "decode_rows D width height r = Inr (rows, r')"
  shows "spans_from width height 0 rows" and "length rows \<le> MAX_SPANS"
    and "sum_list (map (length \<circ> row_cells) rows) \<le> unat width * unat height" and "unat width * unat height \<le> MAX_GRID_CELLS"
proof -
  from assms obtain budget count r1 r2 where b: "checked_grid_size width height = Inr budget"
    and c: "decode_count D (min MAX_SPANS budget) ''too many surface delta spans'' r1 = Inr (count, r2)"
    and l: "decode_rows_loop D width height budget 0 0 count r2 = Inr (rows, r')"
    unfolding decode_rows_def by (auto simp: dec_bind_Inr dec_grid_size_Inr)
  from decode_rows_loop_spans [OF l] decode_count_Inr [OF c] checked_grid_size_Inr [OF b]
  show "spans_from width height 0 rows" "length rows \<le> MAX_SPANS"
    "sum_list (map (length \<circ> row_cells) rows) \<le> unat width * unat height" "unat width * unat height \<le> MAX_GRID_CELLS"
    by auto
qed

lemma decode_frame_empty: "decode_frame D r = Inr (frame, r') \<Longrightarrow> frame_cells frame = []"
  by (auto simp: decode_frame_def dec_bind_Inr dec_return_Inr)

text \<open>What a decoded delta guarantees to the code that applies it.\<close>

definition update_ok :: "client_shell_popup_surface option \<Rightarrow> grid_update option \<Rightarrow> bool" where
  "update_ok popup update = (case update of
     None \<Rightarrow> True
   | Some (GridPatch rows) \<Rightarrow> (case popup of None \<Rightarrow> False
       | Some popup \<Rightarrow> spans_from (frame_width (popup_frame popup)) (frame_height (popup_frame popup)) 0 rows \<and> length rows \<le> MAX_SPANS)
   | Some (GridReplace cells) \<Rightarrow> (case popup of None \<Rightarrow> False
       | Some popup \<Rightarrow> length cells = unat (frame_width (popup_frame popup)) * unat (frame_height (popup_frame popup))
           \<and> length cells \<le> MAX_GRID_CELLS))"

lemma decode_popup_update_ok:
  assumes "decode_popup_update D popup r = Inr (update, r')"
  shows "update_ok popup update"
proof (cases popup)
  case None
  with assms show ?thesis by (auto simp: decode_popup_update_def update_ok_def dec_Inr split: if_splits)
next
  case (Some p)
  show ?thesis
  proof (cases update)
    case None
    then show ?thesis by (simp add: update_ok_def)
  next
    case (Some u)
    with assms \<open>popup = Some p\<close> obtain r1 where
      "decode_popup_grid D (frame_width (popup_frame p)) (frame_height (popup_frame p)) r1 = Inr (u, r')"
      by (auto simp: decode_popup_update_def dec_Inr split: if_splits)
    then show ?thesis using \<open>popup = Some p\<close> Some
      by (auto simp: decode_popup_grid_def update_ok_def dec_bind_Inr dec_return_Inr dec_fail_Inr dec_grid_size_Inr
          dest!: dec_times_length checked_grid_size_Inr dest: decode_rows_spans(1,2) split: if_splits)
  qed
qed

lemma delta_decode_ok:
  assumes "delta_decode C D data (Some (width, height)) = Inr delta"
  shows "frame_width (sf_frame (sd_surface delta)) = width" and "frame_height (sf_frame (sd_surface delta)) = height"
    and "spans_from width height 0 (sd_rows delta)" and "length (sd_rows delta) \<le> MAX_SPANS"
    and "unat width * unat height \<le> MAX_GRID_CELLS" and "update_ok (sf_popup (sd_surface delta)) (sd_popup_cells delta)"
proof -
  from assms obtain bytes r where body: "decode_delta_body D (Some (width, height)) (length data) (rd_start D bytes) = Inr (delta, r)"
    by (auto simp: delta_decode_def decode_bytes_with_data_len_def split: if_splits sum.splits)
  from body obtain bp bs surface rows cells r1 r2 r3 where
    rows: "decode_rows D width height r1 = Inr (rows, r2)"
    and "decode_popup_update D (sf_popup surface) r2 = Inr (cells, r3)"
    and "width = frame_width (sf_frame surface)" "height = frame_height (sf_frame surface)"
    and "delta = \<lparr>sd_base_projection_revision = bp, sd_base_surface_revision = bs, sd_surface = surface, sd_rows = rows, sd_popup_cells = cells\<rparr>"
    by (auto simp: decode_delta_body_def dec_bind_Inr dec_return_Inr dec_fail_Inr Let_def split: if_splits)
  then show "frame_width (sf_frame (sd_surface delta)) = width" "frame_height (sf_frame (sd_surface delta)) = height"
    "spans_from width height 0 (sd_rows delta)" "length (sd_rows delta) \<le> MAX_SPANS"
    "unat width * unat height \<le> MAX_GRID_CELLS" "update_ok (sf_popup (sd_surface delta)) (sd_popup_cells delta)"
    using decode_rows_spans decode_popup_update_ok by (fastforce)+
qed

subsection \<open>Reading back what was written\<close>

text \<open>
  Encoders of the values the codec treats as a whole, \<open>None\<close> where a value has no encoding.
\<close>

record writer_ops =
  wr_u8 :: "u8 \<Rightarrow> u8 list option"
  wr_u16 :: "u16 \<Rightarrow> u8 list option"
  wr_u32 :: "u32 \<Rightarrow> u8 list option"
  wr_u64 :: "u64 \<Rightarrow> u8 list option"
  wr_bool :: "bool \<Rightarrow> u8 list option"
  wr_string :: "string \<Rightarrow> u8 list option"
  wr_cursor :: "cursor_state option \<Rightarrow> u8 list option"
  wr_popup_size :: "client_shell_popup_size option \<Rightarrow> u8 list option"
  wr_pane :: "pane_surface_pane \<Rightarrow> u8 list option"
  wr_direction :: "pane_surface_split_direction \<Rightarrow> u8 list option"
  wr_rect :: "surface_rect \<Rightarrow> u8 list option"
  wr_key :: "surface_graphics_asset_key \<Rightarrow> u8 list option"
  wr_placement :: "surface_graphics_placement \<Rightarrow> u8 list option"
  wr_cell :: "cell_data \<Rightarrow> u8 list option"

fun cat :: "u8 list option list \<Rightarrow> u8 list option" where
  "cat [] = Some []"
| "cat (x # xs) = (case x of None \<Rightarrow> None | Some bytes \<Rightarrow> map_option ((@) bytes) (cat xs))"

text \<open>
  The documented layout: the fields of a struct in order; a sequence as its length and its elements; an option
  as a byte; the variant of an enum as a \<open>u32\<close>.
\<close>

definition lay_seq :: "writer_ops \<Rightarrow> ('a \<Rightarrow> u8 list option) \<Rightarrow> 'a list \<Rightarrow> u8 list option" where
  "lay_seq E f xs = cat (wr_u64 E (of_nat (length xs)) # map f xs)"

definition lay_bytes :: "writer_ops \<Rightarrow> u8 list \<Rightarrow> u8 list option" where
  "lay_bytes E xs = cat [wr_u64 E (of_nat (length xs)), Some xs]"

definition lay_row :: "writer_ops \<Rightarrow> pane_surface_patch_row \<Rightarrow> u8 list option" where
  "lay_row E row = cat [wr_u16 E (row_x row), wr_u16 E (row_y row), lay_seq E (wr_cell E) (row_cells row)]"

definition lay_frame :: "writer_ops \<Rightarrow> frame_data \<Rightarrow> u8 list option" where
  "lay_frame E frame = cat [lay_seq E (wr_cell E) (frame_cells frame), wr_u16 E (frame_width frame), wr_u16 E (frame_height frame),
     wr_cursor E (frame_cursor frame), lay_seq E (wr_string E) (frame_hyperlinks frame), lay_bytes E (frame_graphics frame)]"

definition lay_popup :: "writer_ops \<Rightarrow> client_shell_popup_surface option \<Rightarrow> u8 list option" where
  "lay_popup E popup = (case popup of
     None \<Rightarrow> cat [wr_u8 E 0]
   | Some p \<Rightarrow> cat [wr_u8 E 1, wr_string E (popup_terminal_id p), wr_string E (popup_title p), wr_popup_size E (popup_width p),
       wr_popup_size E (popup_height p), lay_frame E (popup_frame p), wr_bool E (popup_mouse_reporting p),
       wr_bool E (popup_sgr_pixel_mouse p), wr_u32 E (popup_pixel_width p), wr_u32 E (popup_pixel_height p)])"

definition lay_split :: "writer_ops \<Rightarrow> pane_surface_split \<Rightarrow> u8 list option" where
  "lay_split E split = cat [wr_direction E (ss_direction split), wr_u16 E (ss_pos split), wr_rect E (ss_area split),
     wr_rect E (ss_hit_rect split), lay_seq E (wr_bool E) (ss_path split)]"

definition lay_asset :: "writer_ops \<Rightarrow> surface_graphics_asset \<Rightarrow> u8 list option" where
  "lay_asset E asset = cat [wr_key E (asset_key asset), lay_bytes E (asset_data asset)]"

definition lay_scene :: "writer_ops \<Rightarrow> surface_graphics_scene \<Rightarrow> u8 list option" where
  "lay_scene E g = cat [lay_seq E (lay_asset E) (scene_assets g), lay_seq E (wr_placement E) (scene_placements g),
     lay_seq E (wr_key E) (scene_retained_assets g)]"

definition lay_surface :: "writer_ops \<Rightarrow> pane_surface_frame \<Rightarrow> u8 list option" where
  "lay_surface E s = cat [wr_string E (sf_boot_id s), wr_u64 E (sf_projection_revision s), wr_u64 E (sf_surface_revision s),
     lay_frame E (sf_frame s), lay_seq E (wr_pane E) (sf_panes s), lay_seq E (lay_split E) (sf_splits s), lay_popup E (sf_popup s),
     lay_scene E (sf_graphics s)]"

definition lay_update :: "writer_ops \<Rightarrow> grid_update option \<Rightarrow> u8 list option" where
  "lay_update E update = (case update of
     None \<Rightarrow> cat [wr_u8 E 0]
   | Some (GridPatch rows) \<Rightarrow> cat [wr_u8 E 1, wr_u32 E 0, lay_seq E (lay_row E) rows]
   | Some (GridReplace cells) \<Rightarrow> cat [wr_u8 E 1, wr_u32 E 1, lay_seq E (wr_cell E) cells])"

definition lay_delta :: "writer_ops \<Rightarrow> surface_delta \<Rightarrow> u8 list option" where
  "lay_delta E d = cat [wr_u64 E (sd_base_projection_revision d), wr_u64 E (sd_base_surface_revision d), lay_surface E (sd_surface d),
     lay_seq E (lay_row E) (sd_rows d), lay_update E (sd_popup_cells d)]"

definition delta_layout :: "('o, 'y) delta_codec_scheme \<Rightarrow> writer_ops \<Rightarrow> bool" where
  "delta_layout C E \<longleftrightarrow> (\<forall>d bytes. enc_delta C d = Inr bytes \<longrightarrow> lay_delta E d = Some bytes)"

text \<open>
  On an encoding, a decoder gives the value and leaves what follows, unless the limit on what is read is reached.
\<close>

definition decodes ::
    "('e, 'r, 'z) reader_ops_scheme \<Rightarrow> ('e, 'r, 'a) decoder \<Rightarrow> u8 list option \<Rightarrow> 'a \<Rightarrow> bool" where
  "decodes D m enc x \<longleftrightarrow> (\<forall>bytes r more_bytes. enc = Some bytes \<and> rd_rest D r = bytes @ more_bytes \<longrightarrow>
     (\<exists>r'. m r = Inr (x, r') \<and> rd_rest D r' = more_bytes) \<or> m r = Inl LimitExceeded)"

definition reader_laws :: "('e, 'r, 'z) reader_ops_scheme \<Rightarrow> writer_ops \<Rightarrow> bool" where
  "reader_laws D E \<longleftrightarrow>
     (\<forall>bytes. rd_rest D (rd_start D bytes) = bytes)
     \<and> (\<forall>x. decodes D (rd_u8 D) (wr_u8 E x) x) \<and> (\<forall>x. decodes D (rd_u16 D) (wr_u16 E x) x)
     \<and> (\<forall>x. decodes D (rd_u32 D) (wr_u32 E x) x) \<and> (\<forall>x. decodes D (rd_u64 D) (wr_u64 E x) x)
     \<and> (\<forall>x. decodes D (rd_bool D) (wr_bool E x) x) \<and> (\<forall>x. decodes D (rd_string D) (wr_string E x) x)
     \<and> (\<forall>x. decodes D (rd_cursor D) (wr_cursor E x) x) \<and> (\<forall>x. decodes D (rd_popup_size D) (wr_popup_size E x) x)
     \<and> (\<forall>x. decodes D (rd_pane D) (wr_pane E x) x) \<and> (\<forall>x. decodes D (rd_direction D) (wr_direction E x) x)
     \<and> (\<forall>x. decodes D (rd_rect D) (wr_rect E x) x) \<and> (\<forall>x. decodes D (rd_key D) (wr_key E x) x)
     \<and> (\<forall>x. decodes D (rd_placement D) (wr_placement E x) x) \<and> (\<forall>x. decodes D (rd_cell D) (wr_cell E x) x)
     \<and> (\<forall>n. decodes D (rd_claim D n) (Some []) ()) \<and> (\<forall>xs. decodes D (rd_read D (length xs)) (Some xs) xs)"

lemma decodes_return [intro]: "decodes D (dec_return x) (cat []) x"
  by (simp add: decodes_def dec_return_def)

lemma decodes_bind:
  assumes "decodes D m enc x" and "decodes D (f x) (cat encs) y"
  shows "decodes D (dec_bind m f) (cat (enc # encs)) y"
  unfolding decodes_def
proof (intro allI impI)
  fix bytes r more_bytes
  assume "cat (enc # encs) = Some bytes \<and> rd_rest D r = bytes @ more_bytes"
  then obtain b1 b2 where b: "enc = Some b1" "cat encs = Some b2" "rd_rest D r = b1 @ b2 @ more_bytes"
    by (auto split: option.splits)
  from assms(1) b consider r' where "m r = Inr (x, r')" "rd_rest D r' = b2 @ more_bytes" | "m r = Inl LimitExceeded"
    unfolding decodes_def by blast
  then show "(\<exists>r'. dec_bind m f r = Inr (y, r') \<and> rd_rest D r' = more_bytes) \<or> dec_bind m f r = Inl LimitExceeded"
  proof cases
    case 1
    with assms(2) b(2) show ?thesis unfolding decodes_def dec_bind_def by fastforce
  next
    case 2
    then show ?thesis by (simp add: dec_bind_def)
  qed
qed

lemma cat_append: "cat (xs @ ys) = cat [cat xs, cat ys]"
  by (induction xs) (auto split: option.splits simp: option.map_comp comp_def)

lemma cat_single [simp]: "cat [x] = x"
  by (cases x) simp_all

lemma cat_nest: "cat (cat xs # ys) = cat (xs @ ys)"
  by (simp add: cat_append split: option.splits)

lemma cat_Cons: "cat (x # ys) = cat [x, cat ys]"
  using cat_append [of "[x]" ys] unfolding cat_single by simp

declare cat.simps(2) [simp del]

lemma dec_bind_return [simp]: "dec_bind (dec_return x) f = f x"
  by (simp add: dec_bind_def dec_return_def)

lemma dec_bind_assoc: "dec_bind (dec_bind m f) g = dec_bind m (\<lambda>x. dec_bind (f x) g)"
  by (auto simp: dec_bind_def fun_eq_iff split: sum.splits)

lemma decodes_last: "decodes D m enc x \<Longrightarrow> decodes D (dec_bind m (\<lambda>x. dec_return (f x))) (cat [enc]) (f x)"
  by (erule decodes_bind) (rule decodes_return)

lemma decodes_single: "decodes D m (cat [enc]) x \<Longrightarrow> decodes D m enc x"
  by simp

lemma decodes_times:
  "(\<And>x. x \<in> set xs \<Longrightarrow> decodes D m (f x) x) \<Longrightarrow> decodes D (dec_times (length xs) m) (cat (map f xs)) xs"
proof (induction xs)
  case Nil
  show ?case by (simp only: list.size list.map dec_times.simps) (rule decodes_return)
next
  case (Cons x xs)
  have tail: "decodes D (dec_times (length xs) m) (cat (map f xs)) xs" by (rule Cons.IH) (simp add: Cons.prems)
  have "cat (map f (x # xs)) = cat [f x, cat (map f xs)]" by (simp add: cat_Cons [symmetric])
  with decodes_bind [OF Cons.prems [of x] decodes_last [OF tail]] show ?case
    by (metis dec_times.simps(2) length_Cons list.set_intros(1))
qed

lemma decodes_len:
  assumes "reader_laws D E" and "n < 2 ^ 64"
  shows "decodes D (decode_sequence_len D) (wr_u64 E (of_nat n)) n"
proof -
  have n: "unat (of_nat n :: u64) = n" using assms(2) by (simp add: unat_of_nat)
  have "decodes D (rd_u64 D) (wr_u64 E (of_nat n)) (of_nat n)" using assms(1) by (simp add: reader_laws_def)
  from decodes_last [OF this, of unat] show ?thesis by (simp add: decode_sequence_len_def n)
qed

lemma decodes_count:
  assumes "reader_laws D E" and "n \<le> limit" and "limit < 2 ^ 64"
  shows "decodes D (decode_count D limit message) (wr_u64 E (of_nat n)) n"
proof -
  have "decodes D (if n > limit then dec_fail message else dec_return n) (cat []) n"
    using assms(2) decodes_return by auto
  then have "decodes D (decode_count D limit message) (cat [wr_u64 E (of_nat n)]) n"
    unfolding decode_count_def using assms by (intro decodes_bind [OF decodes_len]) auto
  then show ?thesis by simp
qed

lemma decodes_vec:
  assumes "reader_laws D E" and "length xs \<le> limit" and "limit < 2 ^ 64" and "\<And>x. x \<in> set xs \<Longrightarrow> decodes D m (f x) x"
  shows "decodes D (decode_bounded_vec D m limit message) (lay_seq E f xs) xs"
  unfolding decode_bounded_vec_def lay_seq_def
  by (rule decodes_bind [OF decodes_count [OF assms(1-3)]]) (use decodes_times [OF assms(4)] in blast)

lemma decodes_bytes:
  assumes "reader_laws D E" and "length xs \<le> limit" and "limit < 2 ^ 64"
  shows "decodes D (decode_bytes_vec D limit message) (lay_bytes E xs) xs"
proof -
  have "decodes D (rd_claim D (length xs)) (Some []) ()" "decodes D (rd_read D (length xs)) (cat [Some xs]) xs"
    using assms(1) by (simp_all add: reader_laws_def)
  then have "decodes D (dec_bind (rd_claim D (length xs)) (\<lambda>_. rd_read D (length xs))) (cat [Some [], Some xs]) xs"
    by (intro decodes_bind)
  moreover have "cat [Some [], Some xs] = cat [Some xs]" by (simp add: cat.simps)
  ultimately have "decodes D (dec_bind (rd_claim D (length xs)) (\<lambda>_. rd_read D (length xs))) (cat [Some xs]) xs" by simp
  then show ?thesis unfolding decode_bytes_vec_def lay_bytes_def by (rule decodes_bind [OF decodes_count [OF assms]])
qed

lemma reader_prims:
  assumes "reader_laws D E"
  shows "decodes D (rd_u8 D) (wr_u8 E x1) x1" "decodes D (rd_u16 D) (wr_u16 E x2) x2" "decodes D (rd_u32 D) (wr_u32 E x3) x3"
    "decodes D (rd_u64 D) (wr_u64 E x4) x4" "decodes D (rd_bool D) (wr_bool E x5) x5" "decodes D (rd_string D) (wr_string E x6) x6"
    "decodes D (rd_cursor D) (wr_cursor E x7) x7" "decodes D (rd_popup_size D) (wr_popup_size E x8) x8"
    "decodes D (rd_pane D) (wr_pane E x9) x9" "decodes D (rd_direction D) (wr_direction E x10) x10"
    "decodes D (rd_rect D) (wr_rect E x11) x11" "decodes D (rd_key D) (wr_key E x12) x12"
    "decodes D (rd_placement D) (wr_placement E x13) x13" "decodes D (rd_cell D) (wr_cell E x14) x14"
  using assms by (simp_all add: reader_laws_def)

lemma decodes_rows_loop:
  assumes laws: "reader_laws D E" and budget: "budget \<le> MAX_GRID_CELLS"
  shows "spans_from width height prev rows \<Longrightarrow> used + sum_list (map (length \<circ> row_cells) rows) \<le> budget \<Longrightarrow>
    decodes D (decode_rows_loop D width height budget used prev (length rows)) (cat (map (lay_row E) rows)) rows"
proof (induction rows arbitrary: prev used)
  case Nil
  show ?case by (simp only: list.size list.map decode_rows_loop.simps) (rule decodes_return)
next
  case (Cons row rows)
  let ?n = "length (row_cells row)" and ?start = "unat (row_y row) * unat width + unat (row_x row)"
  have enc: "cat (map (lay_row E) (row # rows)) =
      cat [wr_u16 E (row_x row), wr_u16 E (row_y row), wr_u64 E (of_nat ?n), cat (map (wr_cell E) (row_cells row)), cat (map (lay_row E) rows)]"
    unfolding list.map lay_row_def lay_seq_def by (simp add: cat.simps cat_append split: option.splits)
  have fits: "?n \<noteq> 0" "row_y row < height" "unat (row_x row) < unat width" "?n \<le> unat width - unat (row_x row)" "prev \<le> ?start"
    and rest: "spans_from width height (?start + ?n) rows"
    using Cons.prems(1) by (cases "row_cells row"; auto simp: row_fits_def row_start_def)+
  have small: "used + ?n \<le> budget" "used + ?n + sum_list (map (length \<circ> row_cells) rows) \<le> budget" using Cons.prems(2) by (simp_all add: comp_def)
  then have lim: "used + ?n < 2 ^ 64" "?n < 2 ^ 64" using budget by (simp_all add: MAX_GRID_CELLS_def)
  have "unat (row_y row) < 2 ^ 16" "unat width < 2 ^ 16" "unat (row_x row) < 2 ^ 16"
    using unat_lt_pow [of "row_y row"] unat_lt_pow [of width] unat_lt_pow [of "row_x row"] by simp_all
  moreover from this have "unat (row_y row) * unat width \<le> 2 ^ 16 * 2 ^ 16" by (intro mult_mono) auto
  ultimately have "?start < 2 ^ 64" by simp
  have eta: "\<lparr>row_x = row_x row, row_y = row_y row, row_cells = row_cells row\<rparr> = row" by (cases row) simp
  have tail: "decodes D (decode_rows_loop D width height budget (used + ?n) (?start + ?n) (length rows)) (cat (map (lay_row E) rows)) rows"
    using Cons.IH [OF rest small(2)] .
  have cells: "decodes D (dec_times ?n (rd_cell D)) (cat (map (wr_cell E) (row_cells row))) (row_cells row)"
    by (rule decodes_times) (rule reader_prims(14) [OF laws])
  have "decodes D (dec_bind (dec_times ?n (rd_cell D)) (\<lambda>cells.
      dec_bind (decode_rows_loop D width height budget (used + ?n) (?start + ?n) (length rows)) (\<lambda>rows.
        dec_return (\<lparr>row_x = row_x row, row_y = row_y row, row_cells = cells\<rparr> # rows))))
      (cat [cat (map (wr_cell E) (row_cells row)), cat (map (lay_row E) rows)])
      (\<lparr>row_x = row_x row, row_y = row_y row, row_cells = row_cells row\<rparr> # rows)"
    by (rule decodes_bind cells tail decodes_return)+
  then show ?case
    unfolding enc list.size add_0_right add_Suc_right decode_rows_loop.simps
    apply (intro decodes_bind [OF reader_prims(2) [OF laws]] decodes_bind [OF decodes_len [OF laws lim(2)]])
    using fits lim small(1) \<open>?start < 2 ^ 64\<close> eta fits(2) [folded not_le]
    by (simp add: Let_def)
qed

text \<open>Every field is read back in its place: the goals of a composed decoder are the laws of its parts.\<close>

lemmas decodes_step = decodes_bind decodes_last

lemma decodes_empty: "reader_laws D E \<Longrightarrow> decodes D (require_empty_sequence D message) (lay_seq E f []) ()"
proof -
  assume laws: "reader_laws D E"
  have "decodes D (if (0 :: nat) = 0 then dec_return () else dec_fail message) (cat []) ()" using decodes_return by simp
  then have "decodes D (require_empty_sequence D message) (cat [wr_u64 E (of_nat 0)]) ()"
    unfolding require_empty_sequence_def using laws by (intro decodes_bind [OF decodes_len]) auto
  then show ?thesis by (simp add: lay_seq_def)
qed

lemma decodes_grid:
  assumes "checked_grid_size width height = Inr n" and "decodes D (f n) enc y"
  shows "decodes D (dec_bind (dec_grid_size width height) f) enc y"
  using assms by (simp add: dec_grid_size_def)

lemma decodes_rows:
  assumes laws: "reader_laws D E" and size: "checked_grid_size width height = Inr n"
    and spans: "spans_from width height 0 rows" and few: "length rows \<le> MAX_SPANS"
  shows "decodes D (decode_rows D width height) (lay_seq E (lay_row E) rows) rows"
proof -
  have n: "n = unat width * unat height" "n \<le> MAX_GRID_CELLS" using checked_grid_size_Inr [OF size] by auto
  have sum: "0 + sum_list (map (length \<circ> row_cells) rows) \<le> n" using spans_from_total [OF spans] n by simp
  have "length rows \<le> min MAX_SPANS n" using few sum spans_from_count [OF spans] by simp
  moreover have "min MAX_SPANS n < 2 ^ 64" by (simp add: MAX_SPANS_def)
  ultimately have count: "decodes D (decode_count D (min MAX_SPANS n) ''too many surface delta spans'') (wr_u64 E (of_nat (length rows))) (length rows)"
    by (rule decodes_count [OF laws])
  show ?thesis
    unfolding decode_rows_def lay_seq_def
    by (rule decodes_grid [OF size] decodes_bind count decodes_rows_loop [OF laws n(2) spans sum])+
qed

lemma decodes_frame:
  assumes laws: "reader_laws D E" and fit: "frame_metadata_fits frame"
  shows "decodes D (decode_frame D) (lay_frame E (frame\<lparr>frame_cells := []\<rparr>)) (frame\<lparr>frame_cells := []\<rparr>)"
proof -
  obtain cells width height cursor hyperlinks graphics where
    frame: "frame = \<lparr>frame_cells = cells, frame_width = width, frame_height = height, frame_cursor = cursor,
      frame_hyperlinks = hyperlinks, frame_graphics = graphics\<rparr>" by (cases frame)
  have size: "checked_grid_size width height = Inr (length cells)" using fit by (simp add: frame_metadata_fits_def frame)
  have lim: "length hyperlinks \<le> MAX_HYPERLINKS" "MAX_HYPERLINKS < 2 ^ 64"
    "length graphics \<le> MAX_GRAPHICS_FRAME_SIZE" "MAX_GRAPHICS_FRAME_SIZE < 2 ^ 64"
    using fit by (simp_all add: frame_metadata_fits_def frame MAX_HYPERLINKS_def MAX_GRAPHICS_FRAME_SIZE_def)
  note prims = reader_prims [OF laws]
  show ?thesis
    unfolding decode_frame_def lay_frame_def frame frame_data.select_convs frame_data.update_convs
    by (rule decodes_bind decodes_empty [OF laws] prims decodes_grid [OF size] decodes_vec [OF laws lim(1,2)]
      decodes_bytes [OF laws lim(3,4)] decodes_return)+
qed

lemma decodes_popup:
  assumes laws: "reader_laws D E" and fit: "case popup of None \<Rightarrow> True | Some p \<Rightarrow> frame_metadata_fits (popup_frame p)"
  defines "bare \<equiv> map_option (\<lambda>p. p\<lparr>popup_frame := (popup_frame p)\<lparr>frame_cells := []\<rparr>\<rparr>) popup"
  shows "decodes D (decode_popup D) (lay_popup E bare) bare"
proof (cases popup)
  case None
  have "decodes D (if (0 :: u8) = 0 then dec_return None else if (0 :: u8) = 1 then m else m') (cat []) None" for m m'
    using decodes_return by simp
  then show ?thesis
    unfolding bare_def None decode_popup_def lay_popup_def option.map option.case by (rule decodes_bind [OF reader_prims(1) [OF laws]])
next
  case (Some p)
  obtain tid title w h frame mr sp pw ph where
    p: "p = \<lparr>popup_terminal_id = tid, popup_title = title, popup_width = w, popup_height = h, popup_frame = frame,
      popup_mouse_reporting = mr, popup_sgr_pixel_mouse = sp, popup_pixel_width = pw, popup_pixel_height = ph\<rparr>" by (cases p)
  have frame: "decodes D (decode_frame D) (lay_frame E (frame\<lparr>frame_cells := []\<rparr>)) (frame\<lparr>frame_cells := []\<rparr>)"
    using decodes_frame [OF laws] fit Some p by simp
  have one: "(1 :: u8) = 0 \<longleftrightarrow> False" "(1 :: u8) = 1 \<longleftrightarrow> True" by simp_all
  show ?thesis
    unfolding bare_def decode_popup_def lay_popup_def Some option.map option.case p client_shell_popup_surface.select_convs
      client_shell_popup_surface.update_convs
    apply (rule decodes_bind [OF reader_prims(1) [OF laws]])
    unfolding one if_False if_True
    by (rule decodes_bind reader_prims [OF laws] frame decodes_return)+
qed

lemma decodes_split:
  assumes laws: "reader_laws D E" and fit: "length (ss_path split) \<le> MAX_SPLIT_PATH"
  shows "decodes D (decode_split D) (lay_split E split) split"
proof (cases split)
  case (fields direction pos area hit_rect path)
  have lim: "length path \<le> MAX_SPLIT_PATH" "MAX_SPLIT_PATH < 2 ^ 64" using fit by (simp_all add: fields MAX_SPLIT_PATH_def)
  show ?thesis
    unfolding decode_split_def lay_split_def fields pane_surface_split.select_convs
    by (rule decodes_bind reader_prims [OF laws] decodes_vec [OF laws lim] decodes_return)+
qed

lemma decodes_splits:
  assumes laws: "reader_laws D E" and "length splits \<le> MAX_SPLITS" and "list_all (\<lambda>split. length (ss_path split) \<le> MAX_SPLIT_PATH) splits"
  shows "decodes D (decode_splits D) (lay_seq E (lay_split E) splits) splits"
proof -
  have "decodes D (decode_split D) (lay_split E split) split" if "split \<in> set splits" for split
    using decodes_split [OF laws] assms(3) that by (simp add: list_all_iff)
  moreover have "MAX_SPLITS < 2 ^ 64" by (simp add: MAX_SPLITS_def)
  ultimately show ?thesis
    unfolding decode_splits_def lay_seq_def by (intro decodes_bind [OF decodes_count [OF laws assms(2)]] decodes_times)
qed

lemma decodes_scene:
  assumes laws: "reader_laws D E" and "length (scene_assets g) \<le> MAX_ASSETS"
    and "list_all (\<lambda>asset. length (asset_data asset) \<le> MAX_GRAPHICS_FRAME_SIZE) (scene_assets g)"
    and "length (scene_placements g) \<le> MAX_PLACEMENTS" and "length (scene_retained_assets g) \<le> MAX_RETAINED_ASSETS"
  shows "decodes D (decode_graphics_scene D) (lay_scene E g) g"
proof (cases g)
  case (fields assets placements retained)
  have lim: "MAX_ASSETS < 2 ^ 64" "MAX_PLACEMENTS < 2 ^ 64" "MAX_RETAINED_ASSETS < 2 ^ 64" "MAX_GRAPHICS_FRAME_SIZE < 2 ^ 64"
    by (simp_all add: MAX_ASSETS_def MAX_PLACEMENTS_def MAX_RETAINED_ASSETS_def MAX_GRAPHICS_FRAME_SIZE_def)
  have asset: "decodes D (decode_asset D) (lay_asset E asset) asset" if "asset \<in> set assets" for asset
  proof (cases asset)
    case (fields key data)
    have data: "length data \<le> MAX_GRAPHICS_FRAME_SIZE" using assms(3) that fields \<open>g = _\<close> by (auto simp: list_all_iff)
    show ?thesis
      unfolding decode_asset_def lay_asset_def fields surface_graphics_asset.select_convs
      by (rule decodes_bind reader_prims [OF laws] decodes_bytes [OF laws data lim(4)] decodes_return)+
  qed
  have len: "length assets \<le> MAX_ASSETS" "length placements \<le> MAX_PLACEMENTS" "length retained \<le> MAX_RETAINED_ASSETS"
    using assms fields by simp_all
  have assets: "decodes D (dec_bind (decode_count D MAX_ASSETS ''too many graphics assets'') (\<lambda>n. dec_times n (decode_asset D)))
      (lay_seq E (lay_asset E) assets) assets"
    unfolding lay_seq_def using asset by (intro decodes_bind [OF decodes_count [OF laws len(1) lim(1)]] decodes_times) auto
  have scene: "decode_graphics_scene D =
     dec_bind (dec_bind (decode_count D MAX_ASSETS ''too many graphics assets'') (\<lambda>n. dec_times n (decode_asset D))) (\<lambda>assets.
     dec_bind (decode_bounded_vec D (rd_placement D) MAX_PLACEMENTS ''too many graphics placements'') (\<lambda>placements.
     dec_bind (decode_bounded_vec D (rd_key D) MAX_RETAINED_ASSETS ''too many retained graphics assets'') (\<lambda>retained_assets.
       dec_return \<lparr>scene_assets = assets, scene_placements = placements, scene_retained_assets = retained_assets\<rparr>)))"
    by (simp add: decode_graphics_scene_def dec_bind_assoc)
  show ?thesis
    unfolding scene lay_scene_def fields surface_graphics_scene.select_convs
    by (rule assets decodes_vec [OF laws len(2) lim(2)] decodes_vec [OF laws len(3) lim(3)] decodes_bind reader_prims [OF laws] decodes_return)+
qed

lemma decodes_surface:
  assumes laws: "reader_laws D E" and fit: "metadata_fits s"
  shows "decodes D (decode_surface D) (lay_surface E (take_cells s)) (take_cells s, scene_nonempty (sf_graphics s))"
proof (cases s)
  case (fields boot projection revision frame panes splits popup graphics)
  have parts: "frame_metadata_fits frame" "length panes \<le> MAX_PANES" "MAX_PANES < 2 ^ 64"
    "case popup of None \<Rightarrow> True | Some p \<Rightarrow> frame_metadata_fits (popup_frame p)"
    using fit by (simp_all add: metadata_fits_def fields MAX_PANES_def)
  have splits: "decodes D (decode_splits D) (lay_seq E (lay_split E) splits) splits"
    using fit by (intro decodes_splits [OF laws]) (simp_all add: metadata_fits_def fields)
  have scene: "decodes D (decode_graphics_scene D) (lay_scene E graphics) graphics"
    using fit by (intro decodes_scene [OF laws]) (simp_all add: metadata_fits_def fields)
  show ?thesis
    unfolding decode_surface_def lay_surface_def take_cells_def fields pane_surface_frame.select_convs pane_surface_frame.update_convs
    by (rule decodes_bind reader_prims [OF laws] decodes_frame [OF laws parts(1)] decodes_vec [OF laws parts(2,3)] splits
      decodes_popup [OF laws parts(4)] scene decodes_return)+
qed

lemma decodes_update:
  assumes laws: "reader_laws D E" and ok: "update_ok popup update"
    and size: "case popup of None \<Rightarrow> True | Some p \<Rightarrow>
      \<exists>n. checked_grid_size (frame_width (popup_frame p)) (frame_height (popup_frame p)) = Inr n"
  shows "decodes D (decode_popup_update D popup) (lay_update E update) update"
proof (cases update)
  case None
  have "decodes D (if (0 :: u8) = 0 then dec_return None else if (0 :: u8) = 1 then m else m') (cat []) None" for m m'
    using decodes_return by simp
  then show ?thesis
    unfolding None decode_popup_update_def lay_update_def option.case by (rule decodes_bind [OF reader_prims(1) [OF laws]])
next
  case (Some u)
  with ok obtain p where p: "popup = Some p" by (cases popup; cases u) (auto simp: update_ok_def)
  let ?w = "frame_width (popup_frame p)" and ?h = "frame_height (popup_frame p)"
  from size p obtain n where n: "checked_grid_size ?w ?h = Inr n" by auto
  have one: "(1 :: u8) = 0 \<longleftrightarrow> False" "(1 :: u8) = 1 \<longleftrightarrow> True" "(1 :: u32) = 0 \<longleftrightarrow> False" "(1 :: u32) = 1 \<longleftrightarrow> True"
    "(0 :: u32) = 0 \<longleftrightarrow> True" by simp_all
  define enc where "enc = (case u of GridPatch rows \<Rightarrow> cat [wr_u32 E 0, lay_seq E (lay_row E) rows]
    | GridReplace cells \<Rightarrow> cat [wr_u32 E 1, lay_seq E (wr_cell E) cells])"
  have grid: "decodes D (decode_popup_grid D ?w ?h) enc u"
  proof (cases u)
    case (GridPatch rows)
    with ok Some p have rows: "spans_from ?w ?h 0 rows" "length rows \<le> MAX_SPANS" by (simp_all add: update_ok_def)
    show ?thesis
      unfolding decode_popup_grid_def enc_def GridPatch grid_update.case
      apply (rule decodes_bind [OF reader_prims(3) [OF laws]])
      unfolding one if_False if_True
      by (rule decodes_bind decodes_rows [OF laws n rows] decodes_return)+
  next
    case (GridReplace cells)
    with ok Some p checked_grid_size_Inr [OF n] have cells: "length cells = n" "n < 2 ^ 64"
      by (simp_all add: update_ok_def MAX_GRID_CELLS_def)
    have enc: "enc = cat [wr_u32 E 1, wr_u64 E (of_nat n), cat (map (wr_cell E) cells)]"
      by (simp add: enc_def GridReplace lay_seq_def cells(1) cat.simps split: option.splits)
    have times: "decodes D (dec_times n (rd_cell D)) (cat (map (wr_cell E) cells)) cells"
      using decodes_times [of cells D "rd_cell D" "wr_cell E"] reader_prims(14) [OF laws] cells(1) by auto
    have same: "n \<noteq> n \<longleftrightarrow> False" by simp
    show ?thesis
      unfolding decode_popup_grid_def enc GridReplace
      apply (rule decodes_bind [OF reader_prims(3) [OF laws]])
      unfolding one if_False if_True
      apply (rule decodes_grid [OF n] decodes_bind [OF decodes_len [OF laws cells(2)]])+
      unfolding same if_False
      by (rule decodes_bind times decodes_return)+
  qed
  have lay: "lay_update E (Some u) = cat [wr_u8 E 1, enc]"
    by (cases u) (simp_all add: lay_update_def enc_def cat.simps split: option.splits)
  show ?thesis
    unfolding decode_popup_update_def p option.case Some lay
    apply (rule decodes_bind [OF reader_prims(1) [OF laws]])
    unfolding one if_False if_True
    by (rule decodes_bind grid decodes_return)+
qed

text \<open>The message as a whole.\<close>

lemma decodes_delta:
  assumes laws: "reader_laws D E" and fit: "metadata_fits surface" and expected: "expected = (frame_width (sf_frame surface), frame_height (sf_frame surface))"
    and spans: "spans_from (frame_width (sf_frame surface)) (frame_height (sf_frame surface)) 0 rows" "length rows \<le> MAX_SPANS"
    and update: "update_ok (sf_popup surface) popup_cells" and len: "\<not> scene_nonempty (sf_graphics surface) \<longrightarrow> data_len \<le> MAX_FRAME_SIZE"
    and delta: "delta = \<lparr>sd_base_projection_revision = p, sd_base_surface_revision = s, sd_surface = take_cells surface, sd_rows = rows, sd_popup_cells = popup_cells\<rparr>"
  shows "decodes D (decode_delta_body D (Some expected) data_len) (lay_delta E delta) delta"
proof -
  let ?w = "frame_width (sf_frame surface)" and ?h = "frame_height (sf_frame surface)"
  have size: "checked_grid_size ?w ?h = Inr (length (frame_cells (sf_frame surface)))"
    using fit by (simp add: metadata_fits_def frame_metadata_fits_def)
  have dims: "frame_width (sf_frame (take_cells surface)) = ?w" "frame_height (sf_frame (take_cells surface)) = ?h"
    by (simp_all add: take_cells_def)
  have popup: "decodes D (decode_popup_update D (sf_popup (take_cells surface))) (lay_update E popup_cells) popup_cells"
  proof (rule decodes_update [OF laws])
    show "update_ok (sf_popup (take_cells surface)) popup_cells"
      using update by (auto simp: update_ok_def take_cells_def split: option.splits grid_update.splits)
    show "case sf_popup (take_cells surface) of None \<Rightarrow> True | Some p \<Rightarrow>
        \<exists>n. checked_grid_size (frame_width (popup_frame p)) (frame_height (popup_frame p)) = Inr n"
      using fit by (auto simp: take_cells_def metadata_fits_def frame_metadata_fits_def split: option.splits)
  qed
  have cond: "\<not> scene_nonempty (sf_graphics surface) \<and> data_len > MAX_FRAME_SIZE \<longleftrightarrow> False" using len by auto
  have dim: "(?w, ?h) \<noteq> (?w, ?h) \<longleftrightarrow> False" by simp
  show ?thesis
    unfolding decode_delta_body_def lay_delta_def delta surface_delta.select_convs expected option.case
    apply (rule decodes_bind [OF reader_prims(4) [OF laws]] decodes_bind [OF decodes_surface [OF laws fit]])+
    unfolding prod.case cond if_False Let_def dims dim
    by (rule decodes_grid [OF size] decodes_bind decodes_rows [OF laws size spans] popup decodes_return)+
qed

text \<open>The cells of the popup come from the update, and from the popup sent before where it is a patch.\<close>

definition popup_restored :: "client_shell_popup_surface option \<Rightarrow> client_shell_popup_surface option \<Rightarrow> grid_update option \<Rightarrow> bool" where
  "popup_restored previous popup update = (case popup of
     None \<Rightarrow> update = None
   | Some p \<Rightarrow> (case update of
       None \<Rightarrow> False
     | Some (GridReplace cells) \<Rightarrow> cells = frame_cells (popup_frame p)
     | Some (GridPatch rows) \<Rightarrow> (case previous of
         None \<Rightarrow> False
       | Some q \<Rightarrow> popup_terminal_id q = popup_terminal_id p \<and> frame_width (popup_frame q) = frame_width (popup_frame p)
           \<and> frame_height (popup_frame q) = frame_height (popup_frame p)
           \<and> length (frame_cells (popup_frame q)) = unat (frame_width (popup_frame p)) * unat (frame_height (popup_frame p))
           \<and> apply_rows (frame_cells (popup_frame q)) (frame_width (popup_frame p)) rows = Some (frame_cells (popup_frame p)))))"

lemma frame_metadata_cells:
  assumes "frame_metadata_fits frame"
  shows "length (frame_cells frame) = unat (frame_width frame) * unat (frame_height frame)" and "length (frame_cells frame) \<le> MAX_GRID_CELLS"
  using assms checked_grid_size_Inr unfolding frame_metadata_fits_def by blast+

lemma popup_update_restores:
  assumes "popup_update C last_surface surface full_size = Inr (Some update)"
    and "case sf_popup surface of None \<Rightarrow> True | Some p \<Rightarrow> frame_metadata_fits (popup_frame p)"
  shows "popup_restored (sf_popup last_surface) (sf_popup surface) update" and "update_ok (sf_popup surface) update"
proof -
  have "popup_restored (sf_popup last_surface) (sf_popup surface) update \<and> update_ok (sf_popup surface) update"
  proof (cases "sf_popup surface")
    case None
    with assms(1) show ?thesis by (simp add: popup_update_def popup_restored_def update_ok_def)
  next
    case (Some p)
    with assms(2) have fit: "frame_metadata_fits (popup_frame p)" by simp
    note cells = frame_metadata_cells [OF fit]
    show ?thesis
    proof (cases update)
      case None
      with assms(1) Some show ?thesis by (auto simp: popup_update_def split: option.splits if_splits sum.splits)
    next
      case (Some u)
      show ?thesis
      proof (cases u)
        case (GridReplace c)
        with assms(1) Some \<open>sf_popup surface = Some p\<close> have "c = frame_cells (popup_frame p)"
          by (auto simp: popup_update_def split: option.splits if_splits sum.splits)
        with GridReplace Some \<open>sf_popup surface = Some p\<close> cells show ?thesis by (simp add: popup_restored_def update_ok_def)
      next
        case (GridPatch rows)
        with assms(1) Some \<open>sf_popup surface = Some p\<close> obtain q where q: "sf_popup last_surface = Some q"
          "popup_terminal_id q = popup_terminal_id p" "frame_width (popup_frame q) = frame_width (popup_frame p)"
          "frame_height (popup_frame q) = frame_height (popup_frame p)" "length (frame_cells (popup_frame q)) = length (frame_cells (popup_frame p))"
          and rows: "changed_rows C (frame_cells (popup_frame q)) (frame_cells (popup_frame p)) (frame_width (popup_frame p)) full_size = Inr (Some rows)"
          by (auto simp: popup_update_def split: option.splits if_splits sum.splits)
        note spans = changed_rows_spans [OF _ cells(1) rows]
        from spans_of_apply [OF spans(1) _ cells(1)] spans q cells GridPatch Some \<open>sf_popup surface = Some p\<close> show ?thesis
          by (simp add: popup_restored_def update_ok_def spans_of_def)
      qed
    qed
  qed
  then show "popup_restored (sf_popup last_surface) (sf_popup surface) update" "update_ok (sf_popup surface) update" by auto
qed

lemma delta_message_decodes:
  assumes laws: "reader_laws D E" "delta_layout C E" "base64_roundtrip C" "bincode_string_size C"
    and msg: "delta_message C last_surface (PaneSurface surface) = Inr (Some msg)"
  obtains data delta where "msg = EndpointControl MESSAGE_KIND_delta data"
    and "decode_for C D data (frame_width (sf_frame surface), frame_height (sf_frame surface)) \<in> {Inr delta, Inl (rd_show D LimitExceeded)}"
    and "sd_base_projection_revision delta = sf_projection_revision last_surface"
    and "sd_base_surface_revision delta = sf_surface_revision last_surface" and "sd_surface delta = take_cells surface"
    and "spans_of (frame_width (sf_frame surface)) (frame_height (sf_frame surface)) (frame_cells (sf_frame last_surface))
      (frame_cells (sf_frame surface)) 0 (sd_rows delta)"
    and "popup_restored (sf_popup last_surface) (sf_popup surface) (sd_popup_cells delta)"
    and "metadata_fits surface" and "sf_boot_id last_surface = sf_boot_id surface"
    and "frame_width (sf_frame last_surface) = frame_width (sf_frame surface)"
    and "frame_height (sf_frame last_surface) = frame_height (sf_frame surface)"
    and "length (frame_cells (sf_frame last_surface)) = unat (frame_width (sf_frame surface)) * unat (frame_height (sf_frame surface))"
proof -
  let ?w = "frame_width (sf_frame surface)" and ?h = "frame_height (sf_frame surface)"
  from msg obtain full_size limit bytes written where
    same: "sf_boot_id last_surface = sf_boot_id surface" "frame_width (sf_frame last_surface) = ?w" "frame_height (sf_frame last_surface) = ?h"
      "length (frame_cells (sf_frame last_surface)) = unat ?w * unat ?h" and fit: "metadata_fits surface"
    and limit: "limit = (if \<not> scene_nonempty (sf_graphics surface) then MAX_FRAME_SIZE else MAX_GRAPHICS_FRAME_SIZE)"
    and bytes: "delta_bytes C last_surface surface full_size limit = Inr (Some bytes)"
    and m: "msg = EndpointControl MESSAGE_KIND_delta (b64_encode C bytes)"
    and size: "encoded_size_or (bin_encode C msg) = Inr written" "written \<le> limit"
    unfolding delta_message_def server_message.case by (auto simp: Let_def split: if_splits sum.splits option.splits)
  from bytes obtain rows update delta where
    rows: "changed_rows C (frame_cells (sf_frame last_surface)) (frame_cells (sf_frame surface)) ?w full_size = Inr (Some rows)"
    and update: "popup_update C last_surface surface full_size = Inr (Some update)"
    and delta: "delta = \<lparr>sd_base_projection_revision = sf_projection_revision last_surface,
        sd_base_surface_revision = sf_surface_revision last_surface, sd_surface = take_cells surface, sd_rows = rows, sd_popup_cells = update\<rparr>"
    and enc: "enc_delta C delta = Inr bytes"
    unfolding delta_bytes_def by (auto simp: Let_def encoded_size_or_def split: sum.splits option.splits if_splits)
  have frame_fit: "frame_metadata_fits (sf_frame surface)"
      "case sf_popup surface of None \<Rightarrow> True | Some p \<Rightarrow> frame_metadata_fits (popup_frame p)"
    using fit by (simp_all add: metadata_fits_def)
  note spans = changed_rows_spans [OF same(4) frame_metadata_cells(1) [OF frame_fit(1)] rows]
  note popup = popup_update_restores [OF update frame_fit(2)]
  define data where "data = b64_encode C bytes"
  have short: "length data \<le> limit"
    using size laws(4) by (force simp: m data_def encoded_size_or_def bincode_string_size_def split: sum.splits)
  then have short': "length data \<le> MAX_GRAPHICS_FRAME_SIZE" "\<not> scene_nonempty (sf_graphics surface) \<longrightarrow> length data \<le> MAX_FRAME_SIZE"
    using limit by (auto simp: MAX_FRAME_SIZE_def MAX_GRAPHICS_FRAME_SIZE_def split: if_splits)
  have b: "b64_decode C data = Inr bytes" "b64_len C (length bytes) = Some (length data)"
    using laws(3) by (simp_all add: base64_roundtrip_def data_def)
  then have "length bytes \<le> length data" using laws(3) unfolding base64_roundtrip_def by blast
  with short' b(1) have decode: "decode_for C D data (?w, ?h) = decode_bytes_with_data_len D bytes (Some (?w, ?h)) (length data)"
    by (simp add: decode_for_def delta_decode_def)
  have body: "decodes D (decode_delta_body D (Some (?w, ?h)) (length data)) (lay_delta E delta) delta"
    using spans by (intro decodes_delta [OF laws(1) fit refl _ _ popup(2) short'(2) delta]) (auto simp: spans_of_def)
  have "lay_delta E delta = Some bytes" "rd_rest D (rd_start D bytes) = bytes @ []"
    using laws(1,2) enc by (simp_all add: delta_layout_def reader_laws_def)
  with body consider r where "decode_delta_body D (Some (?w, ?h)) (length data) (rd_start D bytes) = Inr (delta, r)" "rd_rest D r = []"
    | "decode_delta_body D (Some (?w, ?h)) (length data) (rd_start D bytes) = Inl LimitExceeded"
    unfolding decodes_def by blast
  then have "decode_for C D data (?w, ?h) \<in> {Inr delta, Inl (rd_show D LimitExceeded)}"
    unfolding decode decode_bytes_with_data_len_def by cases simp_all
  from that [OF m [folded data_def] this] show thesis
    using delta spans popup(1) fit same by simp
qed

text \<open>
C21. Whatever bytes a peer sends, a delta that is accepted for a grid of some size lies within
that grid: its spans are disjoint and inside their rows, there are at most MAX_SPANS of them
with no more cells than the grid, so that applying them to a grid of that size does not panic,
and the cells for the popup fit the popup.
\<close>

theorem delta_decode_bounded:
  "case decode_for C D data (width, height) of
     Inl e \<Rightarrow> True
   | Inr delta \<Rightarrow>
       frame_width (sf_frame (sd_surface delta)) = width \<and> frame_height (sf_frame (sd_surface delta)) = height
       \<and> unat width * unat height \<le> MAX_GRID_CELLS \<and> length (sd_rows delta) \<le> MAX_SPANS
       \<and> sum_list (map (length \<circ> row_cells) (sd_rows delta)) \<le> unat width * unat height
       \<and> rows_apart width (sd_rows delta) \<and> list_all (\<lambda>row. row_fits row width height) (sd_rows delta)
       \<and> (length cells \<noteq> unat width * unat height \<or> apply_rows cells width (sd_rows delta) \<noteq> None)
       \<and> update_ok (sf_popup (sd_surface delta)) (sd_popup_cells delta)"
proof (cases "decode_for C D data (width, height)")
  case (Inr delta)
  note ok = delta_decode_ok [OF Inr [unfolded decode_for_def]]
  have "apply_rows cells width (sd_rows delta) \<noteq> None" if "length cells = unat width * unat height"
    using apply_fitting_rows [OF spans_from_fits [OF ok(3)] that] by (metis option.distinct(1))
  with Inr ok spans_from_total [OF ok(3)] spans_from_apart [OF ok(3)] spans_from_fits [OF ok(3)] show ?thesis
    by (auto simp: list_all_iff)
qed simp

text \<open>A reader and a writer of fixed-width little-endian integers, for a delta of two spans.\<close>

definition demo_le :: "nat \<Rightarrow> u8 list \<Rightarrow> unit decode_error + 'a::len word \<times> u8 list" where
  "demo_le k r = (if length r < k then Inl (LibraryError ()) else Inr (of_nat (from_le (take k r)), drop k r))"

definition demo_read :: "nat \<Rightarrow> (unit, u8 list, u8 list) decoder" where
  "demo_read n r = (if length r < n then Inl (LibraryError ()) else Inr (take n r, drop n r))"

definition demo_fail :: "(unit, u8 list, 'a) decoder" where
  "demo_fail r = Inl (LibraryError ())"

definition demo_read_cell :: "(unit, u8 list, cell_data) decoder" where
  "demo_read_cell r = (case r of [] \<Rightarrow> Inl (LibraryError ()) | b # bs \<Rightarrow> Inr (demo_cell (char_of (unat b)), bs))"

definition demo_string :: "(unit, u8 list, string) decoder" where
  "demo_string = dec_bind (demo_le 8) (\<lambda>n :: u64. dec_bind (demo_read (unat n)) (\<lambda>bytes. dec_return (map (char_of \<circ> unat) bytes)))"

definition demo_reader :: "(unit, u8 list) reader_ops" where
  "demo_reader = \<lparr>rd_start = (\<lambda>bytes. bytes), rd_rest = (\<lambda>r. r), rd_show = (\<lambda>_. ''''), rd_u8 = demo_le 1, rd_u16 = demo_le 2,
     rd_u32 = demo_le 4, rd_u64 = demo_le 8, rd_bool = demo_fail, rd_string = demo_string, rd_cursor = dec_return None,
     rd_popup_size = demo_fail, rd_pane = dec_return demo_pane, rd_direction = demo_fail, rd_rect = demo_fail, rd_key = demo_fail,
     rd_placement = demo_fail, rd_cell = demo_read_cell,
     rd_claim = (\<lambda>n. dec_return ()), rd_read = demo_read\<rparr>"

definition demo_writer :: writer_ops where
  "demo_writer = \<lparr>wr_u8 = (\<lambda>x. Some (to_le 1 (unat x))), wr_u16 = (\<lambda>x. Some (to_le 2 (unat x))), wr_u32 = (\<lambda>x. Some (to_le 4 (unat x))),
     wr_u64 = (\<lambda>x. Some (to_le 8 (unat x))), wr_bool = Map.empty,
     wr_string = (\<lambda>s. if length s < 2 ^ 64 then cat [Some (to_le 8 (length s)), Some (map (of_nat \<circ> of_char) s)] else None),
     wr_cursor = [None \<mapsto> []], wr_popup_size = Map.empty, wr_pane = [demo_pane \<mapsto> []], wr_direction = Map.empty, wr_rect = Map.empty,
     wr_key = Map.empty, wr_placement = Map.empty,
     wr_cell = (\<lambda>x. case cell_symbol x of [c] \<Rightarrow> if x = demo_cell c then Some [of_nat (of_char c)] else None | _ \<Rightarrow> None)\<rparr>"

lemma demo_le_decodes:
  assumes "LENGTH('a) \<le> 8 * k"
  shows "decodes demo_reader (demo_le k) (Some (to_le k (unat (x :: 'a::len word)))) x"
proof -
  have "unat x < 2 ^ LENGTH('a)" by (rule unat_lt_pow)
  also have "\<dots> \<le> 2 ^ (8 * k)" using assms by simp
  also have "\<dots> = 256 ^ k" by (simp add: power_mult)
  finally have "from_le (to_le k (unat x)) = unat x" by (rule from_to_le)
  then show ?thesis by (simp add: decodes_def demo_reader_def demo_le_def)
qed

lemma demo_reader_sel:
  "rd_start demo_reader = (\<lambda>bytes. bytes)" "rd_rest demo_reader = (\<lambda>r. r)" "rd_show demo_reader = (\<lambda>_. [])"
  "rd_u8 demo_reader = demo_le 1" "rd_u16 demo_reader = demo_le 2" "rd_u32 demo_reader = demo_le 4" "rd_u64 demo_reader = demo_le 8"
  "rd_string demo_reader = demo_string" "rd_cursor demo_reader = dec_return None" "rd_pane demo_reader = dec_return demo_pane"
  "rd_cell demo_reader = demo_read_cell" "rd_claim demo_reader n = dec_return ()" "rd_read demo_reader = demo_read"
  by (simp_all add: demo_reader_def)

lemma demo_writer_sel:
  "wr_u8 demo_writer x8 = Some (to_le 1 (unat x8))" "wr_u16 demo_writer x16 = Some (to_le 2 (unat x16))"
  "wr_u32 demo_writer x32 = Some (to_le 4 (unat x32))" "wr_u64 demo_writer x64 = Some (to_le 8 (unat x64))"
  "wr_bool demo_writer b = None" "wr_popup_size demo_writer z = None" "wr_direction demo_writer d = None"
  "wr_rect demo_writer r = None" "wr_key demo_writer k = None" "wr_placement demo_writer p = None"
  by (simp_all add: demo_writer_def)

lemma decodes_None: "decodes D m None x"
  by (simp add: decodes_def)

lemma demo_cell_decodes: "decodes demo_reader (rd_cell demo_reader) (wr_cell demo_writer x) x"
proof -
  have "unat (of_nat (of_char c) :: u8) = of_char c" for c :: char by (simp add: unat_of_nat)
  then show ?thesis
    by (auto simp: decodes_def demo_writer_def demo_reader_sel demo_read_cell_def split: list.splits if_splits)
qed

lemma demo_string_decodes: "decodes demo_reader (rd_string demo_reader) (wr_string demo_writer x) x"
proof (cases "length x < 2 ^ 64")
  case True
  then have n: "unat (of_nat (length x) :: u64) = length x" by (simp add: unat_of_nat)
  have char: "unat (of_nat (of_char c) :: u8) = of_char c" for c :: char by (simp add: unat_of_nat)
  from n demo_le_decodes [where 'a = 64 and k = 8 and x = "of_nat (length x)"]
  have "decodes demo_reader (demo_le 8) (Some (to_le 8 (length x))) (of_nat (length x) :: u64)" by simp
  moreover have "decodes demo_reader (demo_read (length x)) (Some (map (of_nat \<circ> of_char) x)) (map (of_nat \<circ> of_char) x)"
    by (simp add: decodes_def demo_read_def demo_reader_def)
  moreover have "map (char_of \<circ> unat) (map (of_nat \<circ> of_char :: char \<Rightarrow> u8) x) = x" by (simp add: comp_def char)
  ultimately have "decodes demo_reader demo_string (cat [Some (to_le 8 (length x)), Some (map (of_nat \<circ> of_char) x)]) x"
    unfolding demo_string_def by (metis decodes_bind decodes_return n)
  with True show ?thesis by (simp add: demo_reader_def demo_writer_def)
qed (simp add: decodes_def demo_writer_def)

lemma demo_reader_laws: "reader_laws demo_reader demo_writer"
proof -
  have "decodes demo_reader (rd_u8 demo_reader) (wr_u8 demo_writer x) x" for x
    using demo_le_decodes [of 1 x] by (simp add: demo_reader_sel demo_writer_sel)
  moreover have "decodes demo_reader (rd_u16 demo_reader) (wr_u16 demo_writer x) x" for x
    using demo_le_decodes [of 2 x] by (simp add: demo_reader_sel demo_writer_sel)
  moreover have "decodes demo_reader (rd_u32 demo_reader) (wr_u32 demo_writer x) x" for x
    using demo_le_decodes [of 4 x] by (simp add: demo_reader_sel demo_writer_sel)
  moreover have "decodes demo_reader (rd_u64 demo_reader) (wr_u64 demo_writer x) x" for x
    using demo_le_decodes [of 8 x] by (simp add: demo_reader_sel demo_writer_sel)
  moreover have "decodes demo_reader (rd_cursor demo_reader) (wr_cursor demo_writer x) x"
    "decodes demo_reader (rd_pane demo_reader) (wr_pane demo_writer y) y" for x y
    by (auto simp: demo_reader_sel demo_writer_def decodes_def dec_return_def)
  moreover have "decodes demo_reader (rd_claim demo_reader n) (Some []) ()" "decodes demo_reader (rd_read demo_reader (length xs)) (Some xs) xs" for n xs
    by (simp_all add: demo_reader_sel decodes_def dec_return_def demo_read_def)
  ultimately show ?thesis
    unfolding reader_laws_def using demo_cell_decodes demo_string_decodes
    by (simp add: demo_writer_sel(5-10) decodes_None demo_reader_sel(1,2))
qed

definition demo_delta :: surface_delta where
  "demo_delta = \<lparr>sd_base_projection_revision = 1, sd_base_surface_revision = 1, sd_surface = take_cells demo_surface\<lparr>sf_surface_revision := 2\<rparr>,
     sd_rows = [demo_row 0 CHR ''x'', demo_row 2 CHR ''y''], sd_popup_cells = None\<rparr>"

definition demo_delta_codec :: "unit delta_codec" where
  "demo_delta_codec = \<lparr>bin_encode = bin_encode demo_codec, bin_decode = bin_decode demo_codec, b64_encode = b64_encode demo_codec,
     b64_decode = b64_decode demo_codec, b64_len = b64_len demo_codec,
     enc_span = (\<lambda>row. case lay_row demo_writer row of Some bytes \<Rightarrow> Inr bytes | None \<Rightarrow> Inl ''''),
     enc_delta = (\<lambda>d. case lay_delta demo_writer d of Some bytes \<Rightarrow> Inr bytes | None \<Rightarrow> Inl '''')\<rparr>"


definition demo_delta_bytes :: "u8 list" where
  "demo_delta_bytes = to_le 8 1 @ to_le 8 1 @ to_le 8 1 @ [98] @ to_le 8 1 @ to_le 8 2 @ to_le 8 0 @ to_le 2 1 @ to_le 2 3 @ to_le 8 0 @ to_le 8 0
     @ to_le 8 1 @ to_le 8 0 @ [0] @ to_le 8 0 @ to_le 8 0 @ to_le 8 0
     @ to_le 8 2 @ to_le 2 0 @ to_le 2 0 @ to_le 8 1 @ [120] @ to_le 2 0 @ to_le 2 2 @ to_le 8 1 @ [121] @ [0]"

lemma demo_le_app: "n < 2 ^ LENGTH('a) \<Longrightarrow> n < 256 ^ k \<Longrightarrow> demo_le k (to_le k n @ r) = Inr (of_nat n :: 'a::len word, r)"
  by (simp add: demo_le_def from_to_le)

lemma demo_le_byte: "demo_le (Suc 0) (b # r) = Inr (b :: u8, r)"
  by (simp add: demo_le_def)

lemma demo_read_step: "demo_read 0 r = Inr ([], r)" "demo_read (Suc 0) (b # r) = Inr ([b], r)"
  by (simp_all add: demo_read_def)

lemma demo_grid: "checked_grid_size 1 3 = Inr 3"
  by (simp add: checked_grid_size_def MAX_GRID_DIMENSION_def MAX_GRID_CELLS_def)

lemmas demo_limits = MAX_HYPERLINKS_def MAX_GRAPHICS_FRAME_SIZE_def MAX_PANES_def MAX_SPLITS_def MAX_ASSETS_def MAX_PLACEMENTS_def
  MAX_RETAINED_ASSETS_def MAX_SPANS_def MAX_FRAME_SIZE_def

lemma demo_span: "decode_rows_loop demo_reader 1 3 3 t p (Suc n) (to_le 2 0 @ to_le 2 y @ to_le 8 1 @ b # r) =
    (case decode_rows_loop demo_reader 1 3 3 (Suc t) (Suc y) n r of
       Inl e \<Rightarrow> Inl e | Inr (rows, r') \<Rightarrow> Inr (demo_row (of_nat y) (char_of (unat b)) # rows, r'))"
  if "y < 3" "p \<le> y" "t < 3"
proof -
  have "\<not> 3 \<le> (of_nat y :: u16)" "unat (of_nat y :: u16) = y" using that by (simp_all add: word_le_nat_alt unat_of_nat)
  with that show ?thesis
    by (auto simp: dec_bind_def dec_return_def demo_le_app decode_sequence_len_def demo_reader_sel demo_read_cell_def Let_def
        not_le demo_row_def split: sum.splits del: to_le.simps)
qed

lemma demo_chars: "char_of (98 :: nat) = CHR ''b''" "char_of (120 :: nat) = CHR ''x''" "char_of (121 :: nat) = CHR ''y''"
  by code_simp+

lemma demo_rows: "decode_rows demo_reader 1 3 (to_le 8 2 @ to_le 2 0 @ to_le 2 0 @ to_le 8 1 @ 120 # to_le 2 0 @ to_le 2 2 @ to_le 8 1 @ 121 # r) =
    Inr ([demo_row 0 CHR ''x'', demo_row 2 CHR ''y''], r)"
proof -
  have "decode_rows_loop demo_reader 1 3 3 0 0 (Suc (Suc 0)) (to_le 2 0 @ to_le 2 0 @ to_le 8 1 @ 120 # to_le 2 0 @ to_le 2 2 @ to_le 8 1 @ 121 # r) =
    Inr ([demo_row 0 CHR ''x'', demo_row 2 CHR ''y''], r)"
    by (simp only: demo_span) (simp add: demo_span dec_return_def demo_chars del: to_le.simps decode_rows_loop.simps(2))
  then show ?thesis
    by (simp add: decode_rows_def dec_bind_def dec_grid_size_def demo_grid dec_return_def decode_count_def decode_sequence_len_def
      demo_reader_sel demo_le_app demo_limits numeral_2_eq_2 [symmetric] del: to_le.simps decode_rows_loop.simps)
qed

lemma demo_delta_decoded:
  "decode_for demo_delta_codec demo_reader (b64_encode demo_codec demo_delta_bytes) (1, 3) = Inr demo_delta"
proof -
  have b64: "b64_decode demo_delta_codec (b64_encode demo_codec demo_delta_bytes) = Inr demo_delta_bytes"
    using demo_codec_laws(2) by (simp add: base64_roundtrip_def demo_delta_codec_def)
  have len: "length demo_delta_bytes = 145" by (simp add: demo_delta_bytes_def del: to_le.simps)
  then have len': "length (b64_encode demo_codec demo_delta_bytes) = 145" by (simp add: demo_codec_def)
  have "decode_delta_body demo_reader (Some (1, 3)) 145 demo_delta_bytes = Inr (demo_delta, [])"
    unfolding demo_delta_bytes_def decode_delta_body_def decode_surface_def decode_frame_def decode_popup_def
      decode_graphics_scene_def decode_splits_def decode_bounded_vec_def decode_count_def decode_sequence_len_def require_empty_sequence_def
      decode_bytes_vec_def decode_popup_update_def demo_reader_sel demo_string_def
    by (simp add: dec_bind_def dec_return_def demo_le_app demo_le_byte demo_read_step dec_grid_size_def demo_grid demo_limits
        demo_rows [simplified] scene_nonempty_def del: to_le.simps decode_rows_loop.simps)
      (simp add: demo_delta_def take_cells_def demo_surface_def demo_row_def demo_chars)
  with b64 len len' show ?thesis
    by (simp add: decode_for_def delta_decode_def decode_bytes_with_data_len_def demo_reader_sel demo_limits)
qed

theorem delta_decode_bounded_witness:
  "decode_for demo_delta_codec demo_reader (b64_encode demo_codec demo_delta_bytes) (1, 3) = Inr demo_delta
   \<and> length (map demo_cell ''abc'') = unat (1 :: u16) * unat (3 :: u16)
   \<and> apply_rows (map demo_cell ''abc'') 1 (sd_rows demo_delta) \<noteq> None"
  using delta_decode_bounded [where C = demo_delta_codec and D = demo_reader and data = "b64_encode demo_codec demo_delta_bytes" and width = 1 and height = 3 and cells = "map demo_cell ''abc''"]
  by (simp add: demo_delta_decoded del: list.map)

end
