(* ===== verification/Surface_Decoder.thy ===== *)
theory Surface_Decoder
  imports Surface_Delta_Theorems
begin

text \<open>
  The receiving end of a surface stream (\<^verbatim>\<open>runtime/src/protocol/surface_reuse.rs\<close>): a decoder per
  connection that keeps the cells of the last surface and turns deltas, scrolls and reuse messages into
  ordinary surfaces and patches.

  \<open>json_encode\<close> and \<open>json_decode\<close> of \<open>C\<close> are \<open>serde_json\<close> on \<open>SurfaceReuse\<close>, a revision and a surface.
  An operation returns \<open>None\<close> where the source panics, otherwise the state afterwards with its result.
\<close>

subsection \<open>Reuse messages\<close>

record 'o surface_codec = "'o delta_codec" +
  json_encode :: "u64 \<times> pane_surface_frame \<Rightarrow> string + string"
  json_decode :: "string \<Rightarrow> string + (u64 \<times> pane_surface_frame)"

definition MESSAGE_KIND_reuse :: string where
  "MESSAGE_KIND_reuse = ''endpoint.surface-reuse.v1''"

definition take_frame_cells :: "pane_surface_frame \<Rightarrow> pane_surface_frame" where
  "take_frame_cells surface = surface\<lparr>sf_frame := (sf_frame surface)\<lparr>frame_cells := []\<rparr>\<rparr>"

definition reuse_message ::
    "('o, 'y) surface_codec_scheme \<Rightarrow> u64 \<Rightarrow> pane_surface_frame \<Rightarrow> string + 'o server_message option" where
  "reuse_message C base_surface_revision surface =
     (case json_encode C (base_surface_revision, take_frame_cells surface) of
        Inl e \<Rightarrow> Inl e
      | Inr data \<Rightarrow>
          (let msg = EndpointControl MESSAGE_KIND_reuse data
           in case bin_encode C msg of
                Inl _ \<Rightarrow> Inr None
              | Inr bytes \<Rightarrow> Inr (if length bytes \<le> MAX_FRAME_SIZE then Some msg else None)))"

subsection \<open>The decoder\<close>

record popup_baseline =
  pb_terminal_id :: string
  pb_width :: u16
  pb_height :: u16
  pb_cells :: "cell_data list"

record cell_baseline =
  cb_boot_id :: string
  cb_projection_revision :: u64
  cb_surface_revision :: u64
  cb_width :: u16
  cb_height :: u16
  cb_cells :: "cell_data list"
  cb_popup :: "popup_baseline option"

record surface_decoder =
  dec_baseline :: "cell_baseline option"
  dec_surface_delta :: bool
  dec_surface_scroll :: bool

definition decoder_new :: "bool \<Rightarrow> bool \<Rightarrow> surface_decoder" where
  "decoder_new surface_delta surface_scroll =
     \<lparr>dec_baseline = None, dec_surface_delta = surface_delta, dec_surface_scroll = surface_scroll\<rparr>"

definition word_saturating_add :: "'a::len word \<Rightarrow> 'a word \<Rightarrow> 'a word" where
  "word_saturating_add a b = (case word_checked_add a b of Some c \<Rightarrow> c | None \<Rightarrow> - 1)"

definition matches_patch :: "cell_baseline \<Rightarrow> pane_surface_patch \<Rightarrow> bool" where
  "matches_patch base patch \<longleftrightarrow>
     patch_boot_id patch = cb_boot_id base
     \<and> patch_projection_revision patch = cb_projection_revision base
     \<and> patch_base_surface_revision patch = cb_surface_revision base
     \<and> patch_surface_revision patch = word_saturating_add (cb_surface_revision base) 1"

definition popup_baseline_of :: "pane_surface_frame \<Rightarrow> popup_baseline option" where
  "popup_baseline_of surface =
     map_option (\<lambda>popup. \<lparr>pb_terminal_id = popup_terminal_id popup, pb_width = frame_width (popup_frame popup),
       pb_height = frame_height (popup_frame popup), pb_cells = frame_cells (popup_frame popup)\<rparr>) (sf_popup surface)"

definition cell_baseline_default :: cell_baseline where
  "cell_baseline_default = \<lparr>cb_boot_id = [], cb_projection_revision = 0, cb_surface_revision = 0, cb_width = 0, cb_height = 0,
     cb_cells = [], cb_popup = None\<rparr>"

definition decode_scroll ::
    "('o, 'y) surface_codec_scheme \<Rightarrow> surface_decoder \<Rightarrow> string \<Rightarrow> (surface_decoder \<times> (string + pane_surface_patch)) option" where
  "decode_scroll C st data =
     (case dec_baseline st of
        None \<Rightarrow> Some (st, Inl ''surface scroll without a baseline'')
      | Some base \<Rightarrow>
          (case scroll_decode C data of
             Inl e \<Rightarrow> Some (st, Inl e)
           | Inr scroll \<Rightarrow>
               if \<not> matches_patch base (sc_patch scroll) then Some (st, Inl ''surface scroll does not match its baseline'')
               else
                 (case scroll_apply (cb_cells base) (cb_width base) (cb_height base) scroll of
                    None \<Rightarrow> None
                  | Some (cells, Inl e) \<Rightarrow> Some (st\<lparr>dec_baseline := Some (base\<lparr>cb_cells := cells\<rparr>)\<rparr>, Inl e)
                  | Some (cells, Inr patch) \<Rightarrow>
                      Some (st\<lparr>dec_baseline := Some (base\<lparr>cb_cells := cells, cb_surface_revision := patch_surface_revision patch\<rparr>)\<rparr>,
                            Inr patch))))"

text \<open>The cells of the popup in \<open>decode_delta\<close>.\<close>

definition restore_popup ::
    "cell_baseline \<Rightarrow> pane_surface_frame \<Rightarrow> grid_update option \<Rightarrow> (string + pane_surface_frame) option" where
  "restore_popup base surface update =
     (case (sf_popup surface, update) of
        (None, None) \<Rightarrow> Some (Inr surface)
      | (Some popup, Some update) \<Rightarrow>
          (let with_cells = (\<lambda>cells. surface\<lparr>sf_popup := Some (popup\<lparr>popup_frame := (popup_frame popup)\<lparr>frame_cells := cells\<rparr>\<rparr>)\<rparr>);
               count = unat (frame_width (popup_frame popup)) * unat (frame_height (popup_frame popup))
           in case update of
                GridReplace cells \<Rightarrow> Some (Inr (with_cells cells))
              | GridPatch rows \<Rightarrow>
                  (case cb_popup base of
                     None \<Rightarrow> Some (Inl ''popup delta does not match its baseline'')
                   | Some previous \<Rightarrow>
                       if pb_terminal_id previous = popup_terminal_id popup \<and> pb_width previous = frame_width (popup_frame popup)
                          \<and> pb_height previous = frame_height (popup_frame popup) \<and> length (pb_cells previous) = count
                       then map_option (\<lambda>cells. Inr (with_cells cells)) (apply_rows (pb_cells previous) (pb_width previous) rows)
                       else Some (Inl ''popup delta does not match its baseline'')))
      | _ \<Rightarrow> Some (Inl ''popup delta is missing or unexpected''))"

definition links_valid :: "frame_data \<Rightarrow> bool" where
  "links_valid frame \<longleftrightarrow>
     list_all (\<lambda>cell. case cell_hyperlink cell of None \<Rightarrow> True | Some index \<Rightarrow> unat index < length (frame_hyperlinks frame))
       (frame_cells frame)"

definition surface_links_valid :: "pane_surface_frame \<Rightarrow> bool" where
  "surface_links_valid surface \<longleftrightarrow>
     links_valid (sf_frame surface) \<and> (case sf_popup surface of None \<Rightarrow> True | Some popup \<Rightarrow> links_valid (popup_frame popup))"

definition decode_delta ::
    "('o, 'y) surface_codec_scheme \<Rightarrow> ('e, 'r, 'z) reader_ops_scheme \<Rightarrow> surface_decoder \<Rightarrow> string \<Rightarrow>
     (surface_decoder \<times> (string + pane_surface_frame)) option" where
  "decode_delta C D st data =
     (case dec_baseline st of
        None \<Rightarrow> Some (st, Inl ''surface delta without a baseline'')
      | Some base \<Rightarrow>
          (case decode_for C D data (cb_width base, cb_height base) of
             Inl e \<Rightarrow> Some (st, Inl e)
           | Inr delta \<Rightarrow>
               (let surface = sd_surface delta
                in if sf_boot_id surface \<noteq> cb_boot_id base
                      \<or> sd_base_projection_revision delta \<noteq> cb_projection_revision base
                      \<or> sd_base_surface_revision delta \<noteq> cb_surface_revision base
                      \<or> sf_surface_revision surface \<noteq> word_saturating_add (cb_surface_revision base) 1
                      \<or> sf_projection_revision surface < cb_projection_revision base
                      \<or> length (cb_cells base) \<noteq> unat (cb_width base) * unat (cb_height base)
                   then Some (st, Inl ''surface delta does not match its baseline'')
                   else
                     (case apply_rows (cb_cells base) (cb_width base) (sd_rows delta) of
                        None \<Rightarrow> None
                      | Some cells \<Rightarrow>
                          (case restore_popup base (surface\<lparr>sf_frame := (sf_frame surface)\<lparr>frame_cells := cells\<rparr>\<rparr>) (sd_popup_cells delta) of
                             None \<Rightarrow> None
                           | Some (Inl e) \<Rightarrow> Some (st, Inl e)
                           | Some (Inr surface) \<Rightarrow>
                               if \<not> surface_links_valid surface then Some (st, Inl ''surface delta has an invalid hyperlink index'')
                               else
                                 Some (st\<lparr>dec_baseline := Some (base\<lparr>cb_cells := cells, cb_popup := popup_baseline_of surface,
                                   cb_projection_revision := sf_projection_revision surface,
                                   cb_surface_revision := sf_surface_revision surface\<rparr>)\<rparr>, Inr surface))))))"

definition decode_reuse ::
    "('o, 'y) surface_codec_scheme \<Rightarrow> surface_decoder \<Rightarrow> string \<Rightarrow> surface_decoder \<times> (string + pane_surface_frame)" where
  "decode_reuse C st data =
     (case json_decode C data of
        Inl e \<Rightarrow> (st, Inl (''invalid surface reuse: '' @ e))
      | Inr (base_surface_revision, surface) \<Rightarrow>
          (case dec_baseline st of
             None \<Rightarrow> (st, Inl ''surface reuse without a baseline'')
           | Some base \<Rightarrow>
               if cb_boot_id base \<noteq> sf_boot_id surface \<or> cb_surface_revision base \<noteq> base_surface_revision
                  \<or> sf_surface_revision surface \<noteq> word_saturating_add (cb_surface_revision base) 1
                  \<or> cb_width base \<noteq> frame_width (sf_frame surface) \<or> cb_height base \<noteq> frame_height (sf_frame surface)
                  \<or> frame_cells (sf_frame surface) \<noteq> []
               then (st, Inl ''surface reuse does not match its baseline'')
               else
                 (let surface = surface\<lparr>sf_frame := (sf_frame surface)\<lparr>frame_cells := cb_cells base\<rparr>\<rparr>;
                      base = base\<lparr>cb_projection_revision := sf_projection_revision surface,
                        cb_surface_revision := sf_surface_revision surface\<rparr>;
                      base = (if dec_surface_delta st then base\<lparr>cb_popup := popup_baseline_of surface\<rparr> else base)
                  in (st\<lparr>dec_baseline := Some base\<rparr>, Inr surface))))"

definition retain_surface :: "surface_decoder \<Rightarrow> pane_surface_frame \<Rightarrow> surface_decoder" where
  "retain_surface st surface =
     (let base = (case dec_baseline st of Some base \<Rightarrow> base | None \<Rightarrow> cell_baseline_default);
          base = base\<lparr>cb_boot_id := sf_boot_id surface, cb_projection_revision := sf_projection_revision surface,
            cb_surface_revision := sf_surface_revision surface, cb_width := frame_width (sf_frame surface),
            cb_height := frame_height (sf_frame surface), cb_cells := frame_cells (sf_frame surface)\<rparr>;
          base = (if dec_surface_delta st then base\<lparr>cb_popup := popup_baseline_of surface\<rparr> else base)
      in st\<lparr>dec_baseline := Some base\<rparr>)"

text \<open>The rows of a plain patch, each checked before it is copied; the flag is whether all were.\<close>

fun retain_rows :: "u16 \<Rightarrow> u16 \<Rightarrow> pane_surface_patch_row list \<Rightarrow> cell_data list \<Rightarrow> cell_data list \<times> bool" where
  "retain_rows width height [] cells = (cells, True)"
| "retain_rows width height (row # rows) cells =
     (if row_y row \<ge> height \<or> unat (row_x row) + length (row_cells row) > unat width
         \<or> row_start width row + length (row_cells row) > length cells
      then (cells, False)
      else (case write_cells cells (row_start width row) (row_cells row) of
              None \<Rightarrow> (cells, False)
            | Some cells \<Rightarrow> retain_rows width height rows cells))"

definition retain_patch :: "surface_decoder \<Rightarrow> pane_surface_patch \<Rightarrow> surface_decoder \<times> (string + unit)" where
  "retain_patch st patch =
     (case dec_baseline st of
        None \<Rightarrow> (st, Inr ())
      | Some base \<Rightarrow>
          if \<not> matches_patch base patch then (st\<lparr>dec_baseline := None\<rparr>, Inr ())
          else
            (case retain_rows (cb_width base) (cb_height base) (patch_rows patch) (cb_cells base) of
               (cells, False) \<Rightarrow> (st\<lparr>dec_baseline := Some (base\<lparr>cb_cells := cells\<rparr>)\<rparr>, Inl ''surface patch exceeds the cell baseline'')
             | (cells, True) \<Rightarrow>
                 (st\<lparr>dec_baseline := Some (base\<lparr>cb_cells := cells, cb_surface_revision := patch_surface_revision patch\<rparr>)\<rparr>, Inr ())))"

definition decoder_decode ::
    "('o, 'y) surface_codec_scheme \<Rightarrow> ('e, 'r, 'z) reader_ops_scheme \<Rightarrow> surface_decoder \<Rightarrow> 'o server_message \<Rightarrow>
     (surface_decoder \<times> (string + 'o server_message)) option" where
  "decoder_decode C D st msg =
     (case msg of
        EndpointControl kind data \<Rightarrow>
          if kind = MESSAGE_KIND_delta then
            (if \<not> dec_surface_delta st then Some (st, Inl ''surface delta was not negotiated'')
             else map_option (\<lambda>(st, result). (st, map_sum id PaneSurface result)) (decode_delta C D st data))
          else if kind = MESSAGE_KIND_scroll then
            (if \<not> dec_surface_scroll st then Some (st, Inl ''surface scroll was not negotiated'')
             else map_option (\<lambda>(st, result). (st, map_sum id PaneSurfacePatch result)) (decode_scroll C st data))
          else if kind = MESSAGE_KIND_reuse then
            (case decode_reuse C st data of (st, result) \<Rightarrow> Some (st, map_sum id PaneSurface result))
          else Some (st, Inr msg)
      | PaneSurface surface \<Rightarrow> Some (retain_surface st surface, Inr msg)
      | PaneSurfacePatch patch \<Rightarrow>
          (case retain_patch st patch of
             (st, Inl e) \<Rightarrow> Some (st, Inl e)
           | (st, Inr _) \<Rightarrow> Some (st, Inr msg))
      | OtherMessage m \<Rightarrow> Some (st, Inr msg))"

subsection \<open>The decoder does not panic\<close>

lemma scroll_apply_error: "scroll_apply cells width height sp = Some (cells', Inl e) \<Longrightarrow> cells' = cells"
  by (cases cells width height sp rule: scroll_apply_cases) auto

lemma scroll_apply_not_None: "scroll_apply cells width height sp \<noteq> None"
  by (cases cells width height sp rule: scroll_apply_cases) auto

lemma decode_scroll_total:
  obtains st' result where "decode_scroll C st data = Some (st', result)" and "\<And>e. result = Inl e \<Longrightarrow> st' = st"
proof (cases "dec_baseline st")
  case None
  with that show thesis by (auto simp: decode_scroll_def)
next
  case (Some base)
  show thesis
  proof (cases "scroll_decode C data")
    case (Inl e)
    with Some that show thesis by (auto simp: decode_scroll_def)
  next
    case (Inr scroll)
    obtain cells r where a: "scroll_apply (cb_cells base) (cb_width base) (cb_height base) scroll = Some (cells, r)"
      using scroll_apply_not_None by (metis not_None_eq surj_pair)
    show thesis
    proof (cases r)
      case (Inl e)
      with a have "cells = cb_cells base" using scroll_apply_error by blast
      with a Inl Inr Some that show thesis by (cases "matches_patch base (sc_patch scroll)") (auto simp: decode_scroll_def)
    next
      case (Inr p)
      with a \<open>scroll_decode C data = Inr scroll\<close> Some that show thesis
        by (cases "matches_patch base (sc_patch scroll)") (auto simp: decode_scroll_def)
    qed
  qed
qed

lemma spans_apply_not_None:
  "spans_from width height 0 rows \<Longrightarrow> length cells = unat width * unat height \<Longrightarrow> apply_rows cells width rows \<noteq> None"
  using apply_fitting_rows [OF spans_from_fits] by (metis option.distinct(1))

lemma restore_popup_not_None:
  assumes "update_ok (sf_popup surface) update"
  shows "restore_popup base surface update \<noteq> None"
proof (cases "sf_popup surface")
  case None
  with assms show ?thesis by (cases update) (auto simp: restore_popup_def)
next
  case (Some p)
  show ?thesis
  proof (cases update)
    case None
    with Some show ?thesis by (simp add: restore_popup_def)
  next
    case (Some u)
    with \<open>sf_popup surface = Some p\<close> assms spans_apply_not_None show ?thesis
      by (cases u; cases "cb_popup base") (auto simp: restore_popup_def update_ok_def Let_def)
  qed
qed

lemma decode_delta_total:
  obtains st' result where "decode_delta C D st data = Some (st', result)" and "\<And>e. result = Inl e \<Longrightarrow> st' = st"
proof (cases "dec_baseline st")
  case None
  with that show thesis by (auto simp: decode_delta_def)
next
  case (Some base)
  show thesis
  proof (cases "decode_for C D data (cb_width base, cb_height base)")
    case (Inl e)
    with Some that show thesis by (auto simp: decode_delta_def)
  next
    case (Inr delta)
    note ok = delta_decode_ok [OF Inr [unfolded decode_for_def]]
    let ?s = "\<lambda>cells. (sd_surface delta)\<lparr>sf_frame := (sf_frame (sd_surface delta))\<lparr>frame_cells := cells\<rparr>\<rparr>"
    have popup: "restore_popup base (?s cells) (sd_popup_cells delta) \<noteq> None" for cells
      using ok(6) by (intro restore_popup_not_None) simp
    show thesis
    proof (cases "length (cb_cells base) = unat (cb_width base) * unat (cb_height base)")
      case True
      then obtain cells where cells: "apply_rows (cb_cells base) (cb_width base) (sd_rows delta) = Some cells"
        using spans_apply_not_None [OF ok(3)] by auto
      obtain r where "restore_popup base (?s cells) (sd_popup_cells delta) = Some r" using popup by auto
      with Some Inr cells have "\<exists>st' result. decode_delta C D st data = Some (st', result) \<and> (\<forall>e. result = Inl e \<longrightarrow> st' = st)"
        by (cases r) (auto simp: decode_delta_def Let_def)
      with that show thesis by blast
    next
      case False
      with Some Inr that show thesis by (auto simp: decode_delta_def Let_def)
    qed
  qed
qed

lemma decode_reuse_error: "decode_reuse C st data = (st', Inl e) \<Longrightarrow> st' = st"
  by (auto simp: decode_reuse_def Let_def split: sum.splits option.splits if_splits)

text \<open>
C24. Whatever a server sends, decoding it does not panic, and a delta, scroll or reuse message
that is refused leaves the decoder exactly as it was; nothing but those and a patch against a
retained surface is refused.
\<close>

theorem surface_decoder_total:
  "case decoder_decode C D st msg of
     None \<Rightarrow> False
   | Some (st', Inl e) \<Rightarrow> (case msg of EndpointControl kind data \<Rightarrow> st' = st | PaneSurfacePatch patch \<Rightarrow> dec_baseline st \<noteq> None | _ \<Rightarrow> False)
   | Some (st', Inr m) \<Rightarrow> True"
proof (cases msg)
  case (EndpointControl kind data)
  obtain d rd where d: "decode_delta C D st data = Some (d, rd)" "\<And>e. rd = Inl e \<Longrightarrow> d = st" using decode_delta_total [of C D st data] by blast
  obtain s rs where s: "decode_scroll C st data = Some (s, rs)" "\<And>e. rs = Inl e \<Longrightarrow> s = st" using decode_scroll_total [of C st data] by blast
  obtain u ru where u: "decode_reuse C st data = (u, ru)" by (cases "decode_reuse C st data")
  with decode_reuse_error have "\<And>e. ru = Inl e \<Longrightarrow> u = st" by blast
  with EndpointControl d s u show ?thesis
    by (cases rd; cases rs; cases ru) (auto simp: decoder_decode_def)
next
  case (PaneSurfacePatch patch)
  then show ?thesis by (auto simp: decoder_decode_def retain_patch_def split: option.splits prod.splits bool.splits)
qed (auto simp: decoder_decode_def)

end
