(* ===== verification/Render_Stream.thy ===== *)
theory Render_Stream
  imports Surface_Decoder
begin

text \<open>
  The server's side of a surface stream (\<^verbatim>\<open>runtime/src/server/render_stream.rs\<close>, the semantic arm of
  \<open>ClientRenderState\<close>) and how the client applies a patch
  (\<^verbatim>\<open>runtime/src/client/shell/surface_patch.rs\<close>).

  The server remembers the surface it committed last, prepares the next message against it with the codec that
  the client negotiated, and commits once the message is queued.  The terminal arm of \<open>ClientRenderState\<close>,
  which diffs ANSI frames, is not part of this theory.
\<close>

subsection \<open>State\<close>

record semantic_render =
  sr_last_surface :: "pane_surface_frame option"
  sr_surface_revision :: u64
  sr_surface_reuse :: bool
  sr_surface_delta :: bool
  sr_surface_scroll :: bool
  sr_recompute_pending :: bool

datatype 'o prepared_render =
    PreparedSemantic "'o server_message" pane_surface_frame "surface_graphics_asset_key list"
  | PreparedSemanticPatch "'o server_message" "pane_surface_patch option"

definition semantic_new :: semantic_render where
  "semantic_new = \<lparr>sr_last_surface = None, sr_surface_revision = 0, sr_surface_reuse = False, sr_surface_delta = False,
     sr_surface_scroll = False, sr_recompute_pending = False\<rparr>"

definition enable_surface_reuse :: "semantic_render \<Rightarrow> bool \<Rightarrow> semantic_render" where
  "enable_surface_reuse st enabled = st\<lparr>sr_surface_reuse := enabled\<rparr>"

definition enable_surface_delta :: "semantic_render \<Rightarrow> bool \<Rightarrow> semantic_render" where
  "enable_surface_delta st enabled = st\<lparr>sr_surface_delta := enabled\<rparr>"

definition enable_surface_scroll :: "semantic_render \<Rightarrow> bool \<Rightarrow> semantic_render" where
  "enable_surface_scroll st enabled = st\<lparr>sr_surface_scroll := enabled\<rparr>"

definition request_repaint :: "semantic_render \<Rightarrow> semantic_render" where
  "request_repaint st = st\<lparr>sr_last_surface := None\<rparr>"

definition reset_baseline :: "semantic_render \<Rightarrow> semantic_render" where
  "reset_baseline st = st\<lparr>sr_last_surface := None\<rparr>"

definition request_recompute :: "semantic_render \<Rightarrow> semantic_render" where
  "request_recompute st = (if sr_surface_delta st then st\<lparr>sr_recompute_pending := True\<rparr> else request_repaint st)"

definition requires_recompute :: "semantic_render \<Rightarrow> bool" where
  "requires_recompute st = sr_recompute_pending st"

subsection \<open>Preparing\<close>

definition take_assets :: "pane_surface_frame \<Rightarrow> pane_surface_frame" where
  "take_assets surface = surface\<lparr>sf_graphics := (sf_graphics surface)\<lparr>scene_assets := []\<rparr>\<rparr>"

definition surface_unchanged :: "pane_surface_frame \<Rightarrow> pane_surface_frame \<Rightarrow> bool" where
  "surface_unchanged last_surface surface \<longleftrightarrow>
     sf_projection_revision last_surface = sf_projection_revision surface \<and> sf_frame last_surface = sf_frame surface
     \<and> sf_panes last_surface = sf_panes surface \<and> sf_splits last_surface = sf_splits surface
     \<and> sf_popup last_surface = sf_popup surface
     \<and> scene_placements (sf_graphics last_surface) = scene_placements (sf_graphics surface)
     \<and> scene_retained_assets (sf_graphics last_surface) = scene_retained_assets (sf_graphics surface)"

definition delta_of ::
    "('o, 'y) surface_codec_scheme \<Rightarrow> semantic_render \<Rightarrow> 'o server_message \<Rightarrow> 'o server_message option" where
  "delta_of C st msg =
     (if \<not> sr_surface_delta st then None
      else (case sr_last_surface st of
              None \<Rightarrow> None
            | Some last_surface \<Rightarrow> (case delta_message C last_surface msg of Inl _ \<Rightarrow> None | Inr d \<Rightarrow> d)))"

definition reuse_of ::
    "('o, 'y) surface_codec_scheme \<Rightarrow> semantic_render \<Rightarrow> pane_surface_frame \<Rightarrow> 'o server_message option" where
  "reuse_of C st surface =
     (if \<not> sr_surface_reuse st then None
      else (case sr_last_surface st of
              None \<Rightarrow> None
            | Some last_surface \<Rightarrow>
                if sf_boot_id last_surface = sf_boot_id surface \<and> sf_frame last_surface = sf_frame surface
                   \<and> sf_popup surface = None \<and> scene_assets (sf_graphics surface) = []
                then (case reuse_message C (sf_surface_revision last_surface) surface of Inl _ \<Rightarrow> None | Inr r \<Rightarrow> r)
                else None))"

definition prepare_pane_surface_with_file ::
    "('o, 'y) surface_codec_scheme \<Rightarrow> semantic_render \<Rightarrow> pane_surface_frame \<Rightarrow> bool \<Rightarrow> 'o prepared_render option" where
  "prepare_pane_surface_with_file C st surface has_file_upload =
     (if \<not> has_file_upload \<and> \<not> sr_recompute_pending st \<and> scene_assets (sf_graphics surface) = []
         \<and> (case sr_last_surface st of None \<Rightarrow> False | Some last_surface \<Rightarrow> surface_unchanged last_surface surface)
      then None
      else
        (let surface = surface\<lparr>sf_surface_revision := word_saturating_add (sr_surface_revision st) 1\<rparr>;
             queued_graphics_assets = map asset_key (scene_assets (sf_graphics surface));
             msg = PaneSurface surface;
             delta = delta_of C st msg;
             reused = (if delta = None then reuse_of C st surface else None)
         in Some (PreparedSemantic
              (case delta of Some m \<Rightarrow> m | None \<Rightarrow> (case reused of Some m \<Rightarrow> m | None \<Rightarrow> msg))
              (take_assets surface) queued_graphics_assets)))"

definition prepare_pane_surface_patch ::
    "('o, 'y) surface_codec_scheme \<Rightarrow> semantic_render \<Rightarrow> pane_surface_patch \<Rightarrow> 'o prepared_render option" where
  "prepare_pane_surface_patch C st patch =
     (if requires_recompute st then None
      else
        (case sr_last_surface st of
           None \<Rightarrow> None
         | Some last_surface \<Rightarrow>
             if sf_boot_id last_surface \<noteq> patch_boot_id patch \<or> sf_projection_revision last_surface \<noteq> patch_projection_revision patch
                \<or> sf_surface_revision last_surface \<noteq> patch_base_surface_revision patch
             then None
             else
               (let patch = patch\<lparr>patch_surface_revision := word_saturating_add (sr_surface_revision st) 1\<rparr>
                in case (if sr_surface_scroll st then scroll_message C last_surface patch else None) of
                     Some msg \<Rightarrow> Some (PreparedSemanticPatch msg (Some patch))
                   | None \<Rightarrow> Some (PreparedSemanticPatch (PaneSurfacePatch patch) None))))"

subsection \<open>Committing\<close>

text \<open>\<open>find\<close> with \<open>clone_from\<close>; a pane that is not there panics.\<close>

fun update_pane :: "pane_surface_pane \<Rightarrow> pane_surface_pane list \<Rightarrow> pane_surface_pane list option" where
  "update_pane updated [] = None"
| "update_pane updated (pane # panes) =
     (if sp_pane_id pane = sp_pane_id updated then Some (updated # panes)
      else map_option ((#) pane) (update_pane updated panes))"

definition apply_pane_surface_patch :: "pane_surface_frame \<Rightarrow> pane_surface_patch \<Rightarrow> pane_surface_frame option" where
  "apply_pane_surface_patch surface patch =
     (case apply_rows (frame_cells (sf_frame surface)) (frame_width (sf_frame surface)) (patch_rows patch) of
        None \<Rightarrow> None
      | Some cells \<Rightarrow>
          (case try_fold update_pane (patch_panes patch) (sf_panes surface) of
             None \<Rightarrow> None
           | Some panes \<Rightarrow>
               Some (surface\<lparr>sf_frame := (sf_frame surface)\<lparr>frame_cells := cells, frame_cursor := patch_cursor patch\<rparr>,
                 sf_panes := panes, sf_surface_revision := patch_surface_revision patch\<rparr>)))"

definition commit_sent_frame :: "semantic_render \<Rightarrow> 'o prepared_render \<Rightarrow> semantic_render option" where
  "commit_sent_frame st prepared =
     (case prepared of
        PreparedSemantic _ committed_surface _ \<Rightarrow>
          Some (st\<lparr>sr_surface_revision := sf_surface_revision committed_surface, sr_last_surface := Some committed_surface,
            sr_recompute_pending := False\<rparr>)
      | PreparedSemanticPatch msg encoded \<Rightarrow>
          (case (encoded, msg) of
             (Some patch, _) \<Rightarrow>
               (case sr_last_surface st of
                  None \<Rightarrow> None
                | Some surface \<Rightarrow> map_option (\<lambda>surface. st\<lparr>sr_last_surface := Some surface,
                    sr_surface_revision := patch_surface_revision patch\<rparr>) (apply_pane_surface_patch surface patch))
           | (None, PaneSurfacePatch patch) \<Rightarrow>
               (case sr_last_surface st of
                  None \<Rightarrow> None
                | Some surface \<Rightarrow> map_option (\<lambda>surface. st\<lparr>sr_last_surface := Some surface,
                    sr_surface_revision := patch_surface_revision patch\<rparr>) (apply_pane_surface_patch surface patch))
           | (None, _) \<Rightarrow> None))"

definition prepared_message :: "'o prepared_render \<Rightarrow> 'o server_message" where
  "prepared_message prepared = (case prepared of PreparedSemantic msg _ _ \<Rightarrow> msg | PreparedSemanticPatch msg _ \<Rightarrow> msg)"

text \<open>\<open>max_by_key\<close> on the length and the index.\<close>

definition largest_asset :: "surface_graphics_asset list \<Rightarrow> nat option" where
  "largest_asset assets =
     (if assets = [] then None
      else Some (snd (fold max (map (\<lambda>(i, asset). (length (asset_data asset), i)) (enumerate 0 assets)) (0, 0))))"

definition remove_nth :: "nat \<Rightarrow> 'a list \<Rightarrow> 'a list" where
  "remove_nth i xs = take i xs @ drop (Suc i) xs"

definition pop_pane_surface_asset ::
    "'o prepared_render \<Rightarrow> 'o prepared_render \<times> surface_graphics_asset_key option" where
  "pop_pane_surface_asset prepared =
     (case prepared of
        PreparedSemantic (PaneSurface surface) committed_surface queued \<Rightarrow>
          (case largest_asset (scene_assets (sf_graphics surface)) of
             None \<Rightarrow> (prepared, None)
           | Some index \<Rightarrow>
               (let key = asset_key (scene_assets (sf_graphics surface) ! index);
                    surface = surface\<lparr>sf_graphics := (sf_graphics surface)\<lparr>scene_assets :=
                      remove_nth index (scene_assets (sf_graphics surface))\<rparr>\<rparr>
                in (PreparedSemantic (PaneSurface surface) committed_surface (remove1 key queued), Some key)))
      | _ \<Rightarrow> (prepared, None))"

subsection \<open>The client's copy\<close>

definition row_fits_frame :: "pane_surface_patch_row \<Rightarrow> frame_data \<Rightarrow> bool" where
  "row_fits_frame row frame \<longleftrightarrow>
     word_saturating_add (row_x row) (of_nat (min (length (row_cells row)) (2 ^ 16 - 1))) \<le> frame_width frame
     \<and> row_y row < frame_height frame"

definition apply_row :: "pane_surface_patch_row \<Rightarrow> frame_data \<Rightarrow> frame_data \<times> bool" where
  "apply_row row frame =
     (if \<not> row_fits_frame row frame then (frame, False)
      else
        (case write_cells (frame_cells frame) (row_start (frame_width frame) row) (row_cells row) of
           None \<Rightarrow> (frame, False)
         | Some cells \<Rightarrow> (frame\<lparr>frame_cells := cells\<rparr>, True)))"

fun apply_each_row :: "pane_surface_patch_row list \<Rightarrow> frame_data \<Rightarrow> frame_data \<times> bool" where
  "apply_each_row [] frame = (frame, True)"
| "apply_each_row (row # rows) frame =
     (case apply_row row frame of (frame, ok) \<Rightarrow> if ok then apply_each_row rows frame else (frame, False))"

fun update_each_pane :: "pane_surface_pane list \<Rightarrow> pane_surface_pane list \<Rightarrow> pane_surface_pane list \<times> bool" where
  "update_each_pane [] panes = (panes, True)"
| "update_each_pane (updated # updates) panes =
     (case update_pane updated panes of None \<Rightarrow> (panes, False) | Some panes \<Rightarrow> update_each_pane updates panes)"

definition apply_patch_to_surface :: "pane_surface_frame \<Rightarrow> pane_surface_patch \<Rightarrow> pane_surface_frame \<times> bool" where
  "apply_patch_to_surface surface patch =
     (case apply_each_row (patch_rows patch) (sf_frame surface) of
        (frame, False) \<Rightarrow> (surface\<lparr>sf_frame := frame\<rparr>, False)
      | (frame, True) \<Rightarrow>
          (case update_each_pane (patch_panes patch) (sf_panes surface) of
             (panes, False) \<Rightarrow> (surface\<lparr>sf_frame := frame, sf_panes := panes\<rparr>, False)
           | (panes, True) \<Rightarrow>
               (surface\<lparr>sf_frame := frame\<lparr>frame_cursor := patch_cursor patch\<rparr>, sf_panes := panes,
                  sf_surface_revision := patch_surface_revision patch\<rparr>, True)))"

end
