(* ===== verification/Render_Stream_Theorems.thy ===== *)
theory Render_Stream_Theorems
  imports Render_Stream
begin

text \<open>
  The server, the decoder of the connection and the client's copy as one system: after any run of sends, repaints
  and recomputations the client shows the surface that the server committed, whichever codec carried each message.
\<close>

section \<open>The stream keeps both ends in step\<close>

text \<open>What the decoder has to remember of the surface that was committed last.\<close>

definition baseline_matches :: "bool \<Rightarrow> pane_surface_frame \<Rightarrow> cell_baseline \<Rightarrow> bool" where
  "baseline_matches with_popup surface base \<longleftrightarrow>
     cb_boot_id base = sf_boot_id surface \<and> cb_projection_revision base = sf_projection_revision surface
     \<and> cb_surface_revision base = sf_surface_revision surface
     \<and> cb_width base = frame_width (sf_frame surface) \<and> cb_height base = frame_height (sf_frame surface)
     \<and> cb_cells base = frame_cells (sf_frame surface) \<and> (with_popup \<longrightarrow> cb_popup base = popup_baseline_of surface)"



lemma take_assets_simps [simp]:
  "sf_boot_id (take_assets s) = sf_boot_id s" "sf_projection_revision (take_assets s) = sf_projection_revision s"
  "sf_surface_revision (take_assets s) = sf_surface_revision s" "sf_frame (take_assets s) = sf_frame s"
  "sf_panes (take_assets s) = sf_panes s" "sf_popup (take_assets s) = sf_popup s"
  by (simp_all add: take_assets_def)

lemma baseline_matches_take_assets [simp]: "baseline_matches p (take_assets s) base = baseline_matches p s base"
  by (simp add: baseline_matches_def popup_baseline_of_def)









text \<open>What the planner of a patch guarantees (\<^verbatim>\<open>runtime/src/server/headless/retained_surface.rs\<close>).\<close>

definition patch_planned :: "pane_surface_frame \<Rightarrow> pane_surface_patch \<Rightarrow> bool" where
  "patch_planned last_surface patch \<longleftrightarrow>
     length (frame_cells (sf_frame last_surface)) = unat (frame_width (sf_frame last_surface)) * unat (frame_height (sf_frame last_surface))
     \<and> (\<forall>row \<in> set (patch_rows patch). row_fits row (frame_width (sf_frame last_surface)) (frame_height (sf_frame last_surface)))
     \<and> rows_apart (frame_width (sf_frame last_surface)) (patch_rows patch) \<and> panes_apart (patch_panes patch)
     \<and> try_fold update_pane (patch_panes patch) (sf_panes last_surface) \<noteq> None"


subsection \<open>Runs of a stream\<close>

record stream =
  stream_server :: semantic_render
  stream_decoder :: surface_decoder
  stream_client :: "pane_surface_frame option"


text \<open>What the renderer guarantees of a surface: hyperlinks in range, a projection that does not go back within a boot.\<close>

definition surface_ready :: "semantic_render \<Rightarrow> pane_surface_frame \<Rightarrow> bool" where
  "surface_ready st surface \<longleftrightarrow> surface_links_valid surface
     \<and> (case sr_last_surface st of None \<Rightarrow> True | Some last_surface \<Rightarrow>
          sf_boot_id last_surface = sf_boot_id surface \<longrightarrow> sf_projection_revision last_surface \<le> sf_projection_revision surface)"

definition patch_ready :: "semantic_render \<Rightarrow> pane_surface_patch \<Rightarrow> bool" where
  "patch_ready st patch \<longleftrightarrow> (case sr_last_surface st of None \<Rightarrow> True | Some last_surface \<Rightarrow> patch_planned last_surface patch)"


inductive stream_step ::
    "('o, 'y) surface_codec_scheme \<Rightarrow> ('e, 'r, 'z) reader_ops_scheme \<Rightarrow> stream \<Rightarrow> stream \<Rightarrow> bool"
  for C :: "('o, 'y) surface_codec_scheme" and D :: "('e, 'r, 'z) reader_ops_scheme"
where
  send_surface: "surface_ready server surface \<Longrightarrow>
    prepare_pane_surface_with_file C server surface has_file = Some prepared \<Longrightarrow>
    commit_sent_frame server prepared = Some server' \<Longrightarrow>
    decoder_decode C D decoder (prepared_message prepared) = Some (decoder', Inr (PaneSurface shown)) \<Longrightarrow>
    stream_step C D \<lparr>stream_server = server, stream_decoder = decoder, stream_client = client\<rparr>
      \<lparr>stream_server = server', stream_decoder = decoder', stream_client = Some shown\<rparr>"
| send_patch: "patch_ready server patch \<Longrightarrow>
    prepare_pane_surface_patch C server patch = Some prepared \<Longrightarrow>
    commit_sent_frame server prepared = Some server' \<Longrightarrow>
    decoder_decode C D decoder (prepared_message prepared) = Some (decoder', Inr (PaneSurfacePatch received)) \<Longrightarrow>
    apply_patch_to_surface shown received = (shown', True) \<Longrightarrow>
    stream_step C D \<lparr>stream_server = server, stream_decoder = decoder, stream_client = Some shown\<rparr>
      \<lparr>stream_server = server', stream_decoder = decoder', stream_client = Some shown'\<rparr>"
| repaint: "stream_step C D s (s\<lparr>stream_server := request_repaint (stream_server s)\<rparr>)"
| recompute: "stream_step C D s (s\<lparr>stream_server := request_recompute (stream_server s)\<rparr>)"
| reset: "stream_step C D s (s\<lparr>stream_server := reset_baseline (stream_server s)\<rparr>)"

inductive_cases stream_stepE: "stream_step C D s t"

lemma kinds_differ [simp]:
  "MESSAGE_KIND_scroll \<noteq> MESSAGE_KIND_delta" "MESSAGE_KIND_reuse \<noteq> MESSAGE_KIND_delta" "MESSAGE_KIND_reuse \<noteq> MESSAGE_KIND_scroll"
  by (simp_all add: MESSAGE_KIND_scroll_def MESSAGE_KIND_delta_def MESSAGE_KIND_reuse_def)
























end
