(* ===== verification/Workspace_Tabs.thy ===== *)
theory Workspace_Tabs
  imports Layout_Theorems Terminal_State
begin

text \<open>
  A tab (\<^verbatim>\<open>runtime/src/workspace/tab.rs\<close>): a layout with the state of each of its panes, the pane that
  gives the tab its identity and whether the focused pane is zoomed.  The channels a tab keeps for its panes
  carry no state of it and are left out.

  Starting a process is an effect: its result, an error or a runtime, is the argument \<open>spawned\<close>, and
  \<open>TerminalId::alloc\<close>, which reads the clock, is the argument \<open>tid\<close>.  \<open>NEXT_PANE_ID\<close> is passed and
  returned.  \<open>None\<close> of an operation that closes a pane is the panic of \<open>TileLayout::close_pane\<close>.
\<close>

subsection \<open>Data\<close>

record pane_state =
  attached_terminal_id :: string
  seen :: bool
  right_click_passthrough :: bool

definition pane_state_new :: "string \<Rightarrow> pane_state" where
  "pane_state_new tid = \<lparr>attached_terminal_id = tid, seen = True, right_click_passthrough = False\<rparr>"

record tab =
  tab_custom_name :: "string option"
  tab_number :: usize
  tab_root_pane :: pane_id
  tab_layout :: tile_layout
  tab_panes :: "(pane_id, pane_state) hmap"
  tab_zoomed :: bool

record moved_pane =
  moved_pane_id :: pane_id
  moved_pane_state :: pane_state

record ('q, 'r) new_pane =
  new_pane_id :: pane_id
  new_terminal :: "'q terminal_state"
  new_runtime :: 'r

datatype split_command = ShellCommand string | ArgvCommand "string list"

subsection \<open>Construction\<close>

definition tab_terminal :: "string \<Rightarrow> string \<Rightarrow> string list option \<Rightarrow> 'q terminal_state" where
  "tab_terminal tid dir argv =
     (case argv of
        Some argv \<Rightarrow> with_launch_argv (terminal_state_new tid dir) argv
      | None \<Rightarrow> terminal_state_new tid dir)"

definition tab_new_with_runtime ::
    "usize \<Rightarrow> string \<Rightarrow> string list option \<Rightarrow> (string + 'r) \<Rightarrow> string \<Rightarrow> u32 \<Rightarrow>
     u32 \<times> (string + tab \<times> 'q terminal_state \<times> 'r)" where
  "tab_new_with_runtime number initial_cwd argv spawned tid next_id =
     (case tile_layout_new next_id of
        ((layout, root_id), next_id) \<Rightarrow>
          (next_id,
           (case spawned of
              Inl e \<Rightarrow> Inl e
            | Inr runtime \<Rightarrow>
                Inr (\<lparr>tab_custom_name = None, tab_number = number, tab_root_pane = root_id, tab_layout = layout,
                       tab_panes = hm_insert root_id (pane_state_new tid) [], tab_zoomed = False\<rparr>,
                     tab_terminal tid initial_cwd argv, runtime))))"

definition tab_from_existing_pane :: "usize \<Rightarrow> string option \<Rightarrow> moved_pane \<Rightarrow> tab" where
  "tab_from_existing_pane number custom_name moved =
     \<lparr>tab_custom_name = custom_name, tab_number = number, tab_root_pane = moved_pane_id moved,
      tab_layout = from_saved (Pane (moved_pane_id moved)) (moved_pane_id moved),
      tab_panes = hm_insert (moved_pane_id moved) (moved_pane_state moved) [], tab_zoomed = False\<rparr>"

definition is_auto_named :: "tab \<Rightarrow> bool" where
  "is_auto_named t \<longleftrightarrow> tab_custom_name t = None"

definition tab_set_custom_name :: "string \<Rightarrow> tab \<Rightarrow> tab" where
  "tab_set_custom_name name t = t\<lparr>tab_custom_name := Some name\<rparr>"

subsection \<open>Splitting\<close>

text \<open>\<open>here\<close> is the working directory of the process, or the root directory when it cannot be read.\<close>

definition tab_split_pane_with_runtime ::
    "tab \<Rightarrow> pane_id \<Rightarrow> bool \<Rightarrow> direction \<Rightarrow> f32 option \<Rightarrow> string option \<Rightarrow> split_command option \<Rightarrow>
     string \<Rightarrow> (string + 'r) \<Rightarrow> string \<Rightarrow> u32 \<Rightarrow> (tab \<times> u32 \<times> (string + ('q, 'r) new_pane)) option" where
  "tab_split_pane_with_runtime t target focus_new_pane direction ratio dir command here spawned tid next_id =
     (case split_pane (tab_layout t) target direction (case ratio of Some r \<Rightarrow> r | None \<Rightarrow> ratio_half) next_id of
        ((layout, None), next_id) \<Rightarrow>
          Some (t\<lparr>tab_layout := layout\<rparr>, next_id, Inl ''split target pane is not in the layout'')
      | ((layout, Some new_id), next_id) \<Rightarrow>
          (let actual_cwd = (case dir of Some dir \<Rightarrow> dir | None \<Rightarrow> here);
               launch_argv = (case command of Some (ArgvCommand argv) \<Rightarrow> Some argv | _ \<Rightarrow> None)
           in case spawned of
                Inl e \<Rightarrow>
                  map_option (\<lambda>(layout, _). (t\<lparr>tab_layout := layout\<rparr>, next_id, Inl e)) (close_pane layout new_id)
              | Inr runtime \<Rightarrow>
                  Some (t\<lparr>tab_layout := (if focus_new_pane then focus_pane layout new_id else layout),
                          tab_panes := hm_insert new_id (pane_state_new tid) (tab_panes t), tab_zoomed := False\<rparr>,
                        next_id,
                        Inr \<lparr>new_pane_id = new_id, new_terminal = tab_terminal tid actual_cwd launch_argv,
                             new_runtime = runtime\<rparr>)))"

definition tab_split_focused_command ::
    "tab \<Rightarrow> direction \<Rightarrow> string option \<Rightarrow> string \<Rightarrow> string \<Rightarrow> (string + 'r) \<Rightarrow> string \<Rightarrow> u32 \<Rightarrow>
     (tab \<times> u32 \<times> (string + ('q, 'r) new_pane)) option" where
  "tab_split_focused_command t direction dir command here spawned tid next_id =
     tab_split_pane_with_runtime t (focused (tab_layout t)) True direction None dir (Some (ShellCommand command))
       here spawned tid next_id"

definition tab_split_pane_shell ::
    "tab \<Rightarrow> pane_id \<Rightarrow> bool \<Rightarrow> direction \<Rightarrow> f32 option \<Rightarrow> string option \<Rightarrow> string \<Rightarrow> (string + 'r) \<Rightarrow> string \<Rightarrow> u32 \<Rightarrow>
     (tab \<times> u32 \<times> (string + ('q, 'r) new_pane)) option" where
  "tab_split_pane_shell t target focus_new_pane direction ratio dir here spawned tid next_id =
     tab_split_pane_with_runtime t target focus_new_pane direction ratio dir None here spawned tid next_id"

definition tab_split_pane_argv ::
    "tab \<Rightarrow> pane_id \<Rightarrow> bool \<Rightarrow> direction \<Rightarrow> f32 option \<Rightarrow> string option \<Rightarrow> string list \<Rightarrow> string \<Rightarrow> (string + 'r) \<Rightarrow> string \<Rightarrow>
     u32 \<Rightarrow> (tab \<times> u32 \<times> (string + ('q, 'r) new_pane)) option" where
  "tab_split_pane_argv t target focus_new_pane direction ratio dir argv here spawned tid next_id =
     tab_split_pane_with_runtime t target focus_new_pane direction ratio dir (Some (ArgvCommand argv))
       here spawned tid next_id"

subsection \<open>Closing and moving panes\<close>

definition promoted_root_if_needed :: "tab \<Rightarrow> pane_id \<Rightarrow> pane_id option" where
  "promoted_root_if_needed t closing =
     (if tab_root_pane t \<noteq> closing then None
      else List.find (\<lambda>pid. pid \<noteq> closing) (pane_ids (tab_layout t)))"

definition promote_root :: "pane_id option \<Rightarrow> tab \<Rightarrow> tab" where
  "promote_root next_root t = (case next_root of Some r \<Rightarrow> t\<lparr>tab_root_pane := r\<rparr> | None \<Rightarrow> t)"

definition detach_pane :: "tab \<Rightarrow> pane_id \<Rightarrow> (tab \<times> (pane_id \<times> string) option) option" where
  "detach_pane t pid =
     (if pane_count (tab_layout t) \<le> 1 then Some (t, None)
      else
        (let next_root = promoted_root_if_needed t pid
         in case close_pane (tab_layout t) pid of
              None \<Rightarrow> None
            | Some (layout, _) \<Rightarrow>
                (case hm_get (tab_panes t) pid of
                   None \<Rightarrow> Some (t\<lparr>tab_layout := layout\<rparr>, None)
                 | Some pane \<Rightarrow>
                     Some (promote_root next_root
                             (t\<lparr>tab_layout := layout, tab_panes := hm_remove pid (tab_panes t), tab_zoomed := False\<rparr>),
                           Some (pid, attached_terminal_id pane)))))"

definition tab_close_pane :: "tab \<Rightarrow> pane_id \<Rightarrow> (tab \<times> (pane_id \<times> string) option) option" where
  "tab_close_pane t pid = detach_pane t pid"

definition tab_remove_pane :: "tab \<Rightarrow> pane_id \<Rightarrow> (tab \<times> (pane_id \<times> string) option) option" where
  "tab_remove_pane t pid = detach_pane t pid"

definition tab_take_pane_for_move :: "tab \<Rightarrow> pane_id \<Rightarrow> (tab \<times> moved_pane option) option" where
  "tab_take_pane_for_move t pid =
     (case hm_get (tab_panes t) pid of
        None \<Rightarrow> Some (t, None)
      | Some pane \<Rightarrow>
          (let taken = (\<lambda>t. (t\<lparr>tab_panes := hm_remove pid (tab_panes t), tab_zoomed := False\<rparr>,
                             Some \<lparr>moved_pane_id = pid, moved_pane_state = pane\<rparr>))
           in if pane_count (tab_layout t) > 1
              then map_option (\<lambda>(layout, _). taken (promote_root (promoted_root_if_needed t pid) (t\<lparr>tab_layout := layout\<rparr>)))
                     (close_pane (tab_layout t) pid)
              else Some (taken t)))"

definition insert_existing_pane ::
    "tab \<Rightarrow> pane_id \<Rightarrow> moved_pane \<Rightarrow> direction \<Rightarrow> f32 \<Rightarrow> bool \<Rightarrow> tab \<times> (moved_pane + pane_id)" where
  "insert_existing_pane t target_pane_id moved direction ratio foc =
     (case insert_pane_near (tab_layout t) target_pane_id (moved_pane_id moved) direction ratio foc of
        (layout, inserted) \<Rightarrow>
          if \<not> inserted then (t\<lparr>tab_layout := layout\<rparr>, Inl moved)
          else (t\<lparr>tab_layout := layout,
                   tab_panes := hm_insert (moved_pane_id moved) (moved_pane_state moved) (tab_panes t),
                   tab_zoomed := False\<rparr>, Inr (moved_pane_id moved)))"

definition tab_terminal_id :: "tab \<Rightarrow> pane_id \<Rightarrow> string option" where
  "tab_terminal_id t pid = map_option attached_terminal_id (hm_get (tab_panes t) pid)"

text \<open>The working directory the runtime reads, if there is one and it can, or else the terminal's.\<close>

definition cwd_for_pane ::
    "tab \<Rightarrow> pane_id \<Rightarrow> (string, 'q terminal_state) hmap \<Rightarrow> (string \<Rightarrow> string option) \<Rightarrow> string option" where
  "cwd_for_pane t pid terminals runtime_cwd =
     Option.bind (tab_terminal_id t pid) (\<lambda>tid. or_else (runtime_cwd tid) (map_option cwd (hm_get terminals tid)))"

subsection \<open>The invariant\<close>

definition tab_ids :: "tab \<Rightarrow> pane_id set" where
  "tab_ids t = set (pane_ids (tab_layout t))"

definition tab_terminals :: "tab \<Rightarrow> string list" where
  "tab_terminals t = map (attached_terminal_id \<circ> snd) (tab_panes t)"

definition tab_inv :: "tab \<Rightarrow> bool" where
  "tab_inv t \<longleftrightarrow> layout_inv (tab_layout t) \<and> hm_ok (tab_panes t) \<and> set (hm_keys (tab_panes t)) = tab_ids t
     \<and> tab_root_pane t \<in> tab_ids t \<and> distinct (tab_terminals t)"

subsection \<open>What the layout gives a tab\<close>

lemma pane_count_ids: "layout_inv l \<Longrightarrow> pane_count l = card (set (pane_ids l))"
  by (simp add: pane_count_def count_panes_length pane_ids_def layout_inv_def distinct_card)

lemma close_pane_many:
  assumes inv: "layout_inv l" and many: "1 < pane_count l" and mem: "p \<in> set (pane_ids l)"
  obtains l' where "close_pane l p = Some (l', True)" and "layout_inv l'" and "set (pane_ids l') = set (pane_ids l) - {p}"
proof (cases "focus l = p")
  case True
  from close_focused_step [OF inv many] obtain l' where "close_focused l = Some (l', True)" "layout_inv l'"
    "pane_ids l' = filter (\<lambda>i. i \<noteq> focus l) (pane_ids l)" by metis
  with True show thesis by (intro that [of l']) (auto simp: close_pane_def)
next
  case False
  obtain n' where n': "remove_pane (root l) p = Some n'"
    using remove_pane_some [of "root l"] inv many by (auto simp: layout_inv_def pane_ids_def pane_count_def)
  from close_pane_inv [OF inv, of p] obtain l' b where l': "close_pane l p = Some (l', b)" "layout_inv l'" by blast
  with False many mem n' remove_pane_ids [OF n'] show thesis
    by (intro that [of l']) (auto simp: close_pane_def Let_def pane_ids_def split: if_splits)
qed

lemma close_pane_none:
  assumes "layout_inv l" and "pane_count l \<le> 1 \<or> p \<notin> set (pane_ids l)"
  shows "close_pane l p = Some (l, False)"
  using assms by (auto simp: close_pane_def close_focused_def layout_inv_def)

lemma split_pane_cases:
  assumes inv: "layout_inv l" and fresh: "n \<notin> set (pane_ids l)"
  obtains (missing) "split_pane l t d r n = ((l, None), n)" and "t \<notin> set (pane_ids l)"
  | (split) l' where "split_pane l t d r n = ((l', Some n), n + 1)" and "layout_inv l'"
      and "t \<in> set (pane_ids l)" and "set (pane_ids l') = insert n (set (pane_ids l))"
proof (cases "find_pane_mut (root l) t (split_node t d n (valid_split_ratio r))")
  case None
  with missing show thesis by (simp add: split_pane_def alloc_def find_pane_mut_None pane_ids_def)
next
  case (Some x)
  from insert_leaf_inv(3) [OF inv Some fresh] obtain xs ys where "pane_ids l = xs @ t # ys" "collect_ids x = xs @ t # n # ys" by blast
  with Some split [of "l\<lparr>root := x\<rparr>"] insert_leaf_inv(1) [OF inv Some fresh] show thesis
    by (auto simp: split_pane_def alloc_def pane_ids_def)
qed

lemma insert_pane_near_cases:
  assumes inv: "layout_inv l"
  obtains (refused) "insert_pane_near l t m d r f = (l, False)" and "t \<notin> set (pane_ids l) \<or> m \<in> set (pane_ids l)"
  | (inserted) l' where "insert_pane_near l t m d r f = (l', True)" and "layout_inv l'"
      and "t \<in> set (pane_ids l)" and "m \<notin> set (pane_ids l)" and "set (pane_ids l') = insert m (set (pane_ids l))"
proof (cases "m \<in> set (pane_ids l) \<or> t \<notin> set (pane_ids l)")
  case True
  then have "insert_pane_near l t m d r f = (l, False)"
    by (auto simp: insert_pane_near_def find_pane_mut_None pane_ids_def split: option.splits)
       (metis find_pane_mut_None option.distinct(1))
  with True refused show thesis by blast
next
  case False
  then obtain x where x: "find_pane_mut (root l) t (split_node t d m (valid_split_ratio r)) = Some x"
    using find_pane_mut_None [of "root l" t] by (auto simp: pane_ids_def)
  from False insert_leaf_inv(3) [OF inv x] obtain xs ys where "pane_ids l = xs @ t # ys" "collect_ids x = xs @ t # m # ys" by auto
  moreover have "insert_pane_near l t m d r f = ((if f then set_focus (l\<lparr>root := x\<rparr>) m else l\<lparr>root := x\<rparr>), True)"
    using False x by (auto simp: insert_pane_near_def)
  moreover have "layout_inv (fst (insert_pane_near l t m d r f))" by (rule insert_pane_near_inv [OF inv])
  ultimately show thesis
    using False by (intro inserted) (auto simp: pane_ids_def set_focus_def split: if_splits)
qed

subsection \<open>Tables of panes\<close>

lemma hm_get_keys: "hm_get m k \<noteq> None \<longleftrightarrow> k \<in> set (hm_keys m)"
  by (simp add: hm_get_def hm_keys_def map_of_eq_None_iff)

lemma hm_keys_insert: "set (hm_keys (hm_insert k v m)) = insert k (set (hm_keys m))"
  by (rule set_eqI) (simp add: hm.get_put flip: hm_get_keys)

lemma hm_keys_remove: "set (hm_keys (hm_remove k m)) = set (hm_keys m) - {k}"
  by (rule set_eqI) (simp add: hm.get_del flip: hm_get_keys)

lemma hm_insert_fresh: "k \<notin> set (hm_keys m) \<Longrightarrow> hm_insert k v m = m @ [(k, v)]"
  by (induction m) (auto simp: hm_insert_def hm_keys_def)

lemma hm_remove_filter: "hm_remove k m = filter (\<lambda>e. fst e \<noteq> k) m"
  by (auto simp: hm_remove_def AList.delete_eq intro: filter_cong)

subsection \<open>The operations keep the invariant\<close>

lemma tab_from_existing_pane_inv:
  "tab_inv (tab_from_existing_pane number name moved)" "tab_ids (tab_from_existing_pane number name moved) = {moved_pane_id moved}"
  "tab_terminals (tab_from_existing_pane number name moved) = [attached_terminal_id (moved_pane_state moved)]"
  by (simp_all add: tab_from_existing_pane_def tab_inv_def tab_ids_def layout_inv_def from_saved_def pane_ids_def
    hm_insert_def hm_ok_def hm_keys_def tab_terminals_def)

lemma tab_new_inv:
  assumes "tab_new_with_runtime number dir argv spawned tid n = (n', Inr (t, terminal, runtime))"
  shows "tab_inv t" and "tab_ids t = {n}" and "n' = n + 1" and "tab_terminals t = [tid]" and "tab_root_pane t = n" and "tab_number t = number"
    and "terminal_id terminal = tid"
  using assms
  by (auto simp: tab_new_with_runtime_def tile_layout_new_def alloc_def tab_inv_def tab_ids_def layout_inv_def pane_ids_def
    hm_insert_def hm_ok_def hm_keys_def tab_terminals_def pane_state_new_def tab_terminal_def terminal_state_new_def with_launch_argv_def
    split: sum.splits option.splits)

lemma tab_split_cases:
  fixes spawned :: "string + 'r"
  assumes inv: "tab_inv t" and fresh: "n \<notin> tab_ids t"
  obtains (missing) "tab_split_pane_with_runtime t target foc d ratio dir command here spawned tid n =
        Some (t, n, Inl ''split target pane is not in the layout'' :: string + ('q, 'r) new_pane)" and "target \<notin> tab_ids t"
  | (failed) e where "spawned = Inl e" and "target \<in> tab_ids t"
      and "tab_split_pane_with_runtime t target foc d ratio dir command here spawned tid n = Some (t, n + 1, Inl e :: string + ('q, 'r) new_pane)"
  | (split) t' and new :: "('q, 'r) new_pane" where "tab_split_pane_with_runtime t target foc d ratio dir command here spawned tid n = Some (t', n + 1, Inr new)"
      and "new_pane_id new = n" and "terminal_id (new_terminal new) = tid" and "target \<in> tab_ids t"
      and "tab_ids t' = insert n (tab_ids t)" and "tab_terminals t' = tab_terminals t @ [tid]"
      and "tid \<notin> set (tab_terminals t) \<Longrightarrow> tab_inv t'"
      and "tab_root_pane t' = tab_root_pane t" and "tab_number t' = tab_number t" and "tab_custom_name t' = tab_custom_name t"
proof -
  let ?r = "case ratio of Some r \<Rightarrow> r | None \<Rightarrow> ratio_half"
  from inv have l: "layout_inv (tab_layout t)" by (simp add: tab_inv_def)
  from fresh have f: "n \<notin> set (pane_ids (tab_layout t))" by (simp add: tab_ids_def)
  show thesis
  proof (cases rule: split_pane_cases [OF l f, of target d ?r])
    case missing_pane: 1
    with missing show thesis by (simp add: tab_split_pane_with_runtime_def tab_ids_def)
  next
    case (2 l')
    show thesis
    proof (cases spawned)
      case (Inl e)
      from close_split_pane [OF l f 2(1)] 2 Inl failed [of e] show thesis
        by (simp add: tab_split_pane_with_runtime_def tab_ids_def Let_def)
    next
      case (Inr runtime)
      let ?t = "t\<lparr>tab_layout := if foc then focus_pane l' n else l', tab_panes := hm_insert n (pane_state_new tid) (tab_panes t), tab_zoomed := False\<rparr>"
      have keys: "n \<notin> set (hm_keys (tab_panes t))" using inv fresh by (simp add: tab_inv_def)
      have ids: "pane_ids (focus_pane l' n) = pane_ids l'" by (simp add: focus_pane_def set_focus_def pane_ids_def)
      have "tab_terminals ?t = tab_terminals t @ [tid]"
        using keys by (simp add: tab_terminals_def hm_insert_fresh pane_state_new_def)
      moreover have "tab_ids ?t = insert n (tab_ids t)" using 2 ids by (simp add: tab_ids_def)
      moreover have "layout_inv (tab_layout ?t)" using 2 by (simp add: focus_pane_inv)
      ultimately show thesis
        using inv 2 Inr by (intro split [of ?t]) (auto simp: tab_split_pane_with_runtime_def tab_ids_def Let_def tab_inv_def
          hm_keys_insert hm.ok_put tab_terminal_def with_launch_argv_def terminal_state_new_def split: option.splits)
    qed
  qed
qed

lemma promote_root_facts [simp]:
  "tab_layout (promote_root r t) = tab_layout t" "tab_panes (promote_root r t) = tab_panes t" "tab_number (promote_root r t) = tab_number t"
  "tab_zoomed (promote_root r t) = tab_zoomed t" "tab_custom_name (promote_root r t) = tab_custom_name t"
  "tab_ids (promote_root r t) = tab_ids t" "tab_terminals (promote_root r t) = tab_terminals t"
  by (simp_all add: promote_root_def tab_ids_def tab_terminals_def split: option.split)

lemma promoted_root:
  assumes inv: "tab_inv t" and many: "1 < pane_count (tab_layout t)" and mem: "pid \<in> tab_ids t"
    and r: "tab_root_pane t' = tab_root_pane t"
  shows "tab_root_pane (promote_root (promoted_root_if_needed t pid) t') \<in> tab_ids t - {pid}"
proof (cases "tab_root_pane t = pid")
  case True
  from inv have "layout_inv (tab_layout t)" by (simp add: tab_inv_def)
  from many have "1 < card (tab_ids t)" by (simp add: pane_count_ids \<open>layout_inv (tab_layout t)\<close> tab_ids_def)
  then have "\<not> tab_ids t \<subseteq> {pid}" using card_mono [of "{pid}" "tab_ids t"] by auto
  then obtain q where "q \<in> set (pane_ids (tab_layout t))" "q \<noteq> pid" by (auto simp: tab_ids_def)
  then obtain r where r: "List.find (\<lambda>p. p \<noteq> pid) (pane_ids (tab_layout t)) = Some r"
    by (cases "List.find (\<lambda>p. p \<noteq> pid) (pane_ids (tab_layout t))") (auto simp: find_None_iff)
  with True find_mem [OF r] show ?thesis by (simp add: promoted_root_if_needed_def promote_root_def tab_ids_def)
next
  case False
  with inv r show ?thesis by (simp add: promoted_root_if_needed_def promote_root_def tab_inv_def)
qed

text \<open>The tab without one of its panes, as closing and taking leave it.\<close>

definition without_pane :: "tab \<Rightarrow> pane_id \<Rightarrow> tab \<Rightarrow> bool" where
  "without_pane t pid t' \<longleftrightarrow> tab_inv t' \<and> tab_ids t' = tab_ids t - {pid} \<and> tab_panes t' = hm_remove pid (tab_panes t)
     \<and> tab_number t' = tab_number t \<and> tab_custom_name t' = tab_custom_name t
     \<and> (tab_root_pane t \<noteq> pid \<longrightarrow> tab_root_pane t' = tab_root_pane t)"

lemma without_pane_intro:
  assumes inv: "tab_inv t" and many: "1 < pane_count (tab_layout t)" and mem: "pid \<in> tab_ids t"
    and l': "layout_inv l'" "set (pane_ids l') = set (pane_ids (tab_layout t)) - {pid}"
  shows "without_pane t pid (promote_root (promoted_root_if_needed t pid)
    (t\<lparr>tab_layout := l', tab_panes := hm_remove pid (tab_panes t), tab_zoomed := False\<rparr>))"
proof -
  let ?u = "t\<lparr>tab_layout := l', tab_panes := hm_remove pid (tab_panes t), tab_zoomed := False\<rparr>"
  have "tab_root_pane (promote_root (promoted_root_if_needed t pid) ?u) \<in> tab_ids t - {pid}"
    by (rule promoted_root [OF inv many mem]) simp
  moreover have ids: "tab_ids ?u = tab_ids t - {pid}" using l' by (simp add: tab_ids_def)
  moreover have "distinct (tab_terminals ?u)"
    using inv by (simp add: tab_inv_def tab_terminals_def hm_remove_filter distinct_map_filter)
  moreover have "hm_ok (tab_panes ?u)" "set (hm_keys (tab_panes ?u)) = tab_ids t - {pid}"
    using inv by (simp_all add: tab_inv_def hm.ok_del hm_keys_remove)
  moreover have "tab_root_pane t \<noteq> pid \<Longrightarrow> tab_root_pane (promote_root (promoted_root_if_needed t pid) ?u) = tab_root_pane t"
    by (simp add: promoted_root_if_needed_def promote_root_def)
  ultimately show ?thesis using l'(1) by (simp add: without_pane_def tab_inv_def)
qed

lemma detach_pane_many:
  assumes inv: "tab_inv t" and many: "1 < pane_count (tab_layout t)" and mem: "pid \<in> tab_ids t"
  obtains t' tid where "detach_pane t pid = Some (t', Some (pid, tid))" and "without_pane t pid t'"
    and "tab_terminal_id t pid = Some tid"
proof -
  from inv have l: "layout_inv (tab_layout t)" by (simp add: tab_inv_def)
  from close_pane_many [OF l many] mem obtain l' where l': "close_pane (tab_layout t) pid = Some (l', True)" "layout_inv l'"
    "set (pane_ids l') = set (pane_ids (tab_layout t)) - {pid}" unfolding tab_ids_def by metis
  from inv mem obtain pane where pane: "hm_get (tab_panes t) pid = Some pane" using hm_get_keys [of "tab_panes t" pid] by (auto simp: tab_inv_def)
  from many l' pane without_pane_intro [OF inv many mem l'(2,3)] show thesis
    by (intro that [of _ "attached_terminal_id pane"]) (auto simp: detach_pane_def Let_def tab_terminal_id_def)
qed

lemma detach_pane_none:
  assumes "tab_inv t" and "pane_count (tab_layout t) \<le> 1 \<or> pid \<notin> tab_ids t"
  shows "detach_pane t pid = Some (t, None)"
proof (cases "pane_count (tab_layout t) \<le> 1")
  case False
  with assms have "pid \<notin> tab_ids t" by simp
  moreover from this assms(1) have "hm_get (tab_panes t) pid = None" using hm_get_keys [of "tab_panes t" pid] by (auto simp: tab_inv_def)
  moreover have "close_pane (tab_layout t) pid = Some (tab_layout t, False)"
    using assms(1) \<open>pid \<notin> tab_ids t\<close> by (intro close_pane_none) (auto simp: tab_inv_def tab_ids_def)
  ultimately show ?thesis using False by (simp add: detach_pane_def)
qed (simp add: detach_pane_def)

lemma tab_take_many:
  assumes inv: "tab_inv t" and many: "1 < pane_count (tab_layout t)" and pane: "hm_get (tab_panes t) pid = Some pane"
  obtains t' where "tab_take_pane_for_move t pid = Some (t', Some \<lparr>moved_pane_id = pid, moved_pane_state = pane\<rparr>)" and "without_pane t pid t'"
proof -
  from inv pane have mem: "pid \<in> tab_ids t" using hm_get_keys [of "tab_panes t" pid] by (auto simp: tab_inv_def)
  from inv have l: "layout_inv (tab_layout t)" by (simp add: tab_inv_def)
  from close_pane_many [OF l many] mem obtain l' where l': "close_pane (tab_layout t) pid = Some (l', True)" "layout_inv l'"
    "set (pane_ids l') = set (pane_ids (tab_layout t)) - {pid}" unfolding tab_ids_def by metis
  have "(promote_root r (t\<lparr>tab_layout := l'\<rparr>))\<lparr>tab_panes := hm_remove pid (tab_panes t), tab_zoomed := False\<rparr> =
    promote_root r (t\<lparr>tab_layout := l', tab_panes := hm_remove pid (tab_panes t), tab_zoomed := False\<rparr>)" for r
    by (simp add: promote_root_def split: option.split)
  with many l' pane without_pane_intro [OF inv many mem l'(2,3)] show thesis
    by (intro that) (auto simp: tab_take_pane_for_move_def Let_def)
qed

lemma tab_take_single:
  assumes "pane_count (tab_layout t) \<le> 1" and "hm_get (tab_panes t) pid = Some pane"
  shows "\<exists>t'. tab_take_pane_for_move t pid = Some (t', Some \<lparr>moved_pane_id = pid, moved_pane_state = pane\<rparr>)"
  using assms by (simp add: tab_take_pane_for_move_def Let_def)

lemma insert_existing_cases:
  assumes inv: "tab_inv t"
  obtains (refused) "insert_existing_pane t target moved d r f = (t, Inl moved)" and "target \<notin> tab_ids t \<or> moved_pane_id moved \<in> tab_ids t"
  | (inserted) t' where "insert_existing_pane t target moved d r f = (t', Inr (moved_pane_id moved))"
      and "target \<in> tab_ids t" and "moved_pane_id moved \<notin> tab_ids t" and "tab_ids t' = insert (moved_pane_id moved) (tab_ids t)"
      and "tab_terminals t' = tab_terminals t @ [attached_terminal_id (moved_pane_state moved)]"
      and "attached_terminal_id (moved_pane_state moved) \<notin> set (tab_terminals t) \<Longrightarrow> tab_inv t'"
      and "tab_root_pane t' = tab_root_pane t" and "tab_number t' = tab_number t"
proof -
  let ?m = "moved_pane_id moved"
  from inv have l: "layout_inv (tab_layout t)" by (simp add: tab_inv_def)
  show thesis
  proof (cases rule: insert_pane_near_cases [OF l, of target ?m d r f])
    case 1
    with refused show thesis by (simp add: insert_existing_pane_def tab_ids_def)
  next
    case (2 l')
    have keys: "?m \<notin> set (hm_keys (tab_panes t))" using inv 2 by (simp add: tab_inv_def tab_ids_def)
    let ?t = "t\<lparr>tab_layout := l', tab_panes := hm_insert ?m (moved_pane_state moved) (tab_panes t), tab_zoomed := False\<rparr>"
    have "tab_terminals ?t = tab_terminals t @ [attached_terminal_id (moved_pane_state moved)]"
      using keys by (simp add: tab_terminals_def hm_insert_fresh)
    with 2 inv show thesis
      by (intro inserted [of ?t]) (auto simp: insert_existing_pane_def tab_ids_def tab_inv_def hm_keys_insert hm.ok_put)
  qed
qed

end
