(* ===== verification/Public_Ids.thy ===== *)
theory Public_Ids
  imports Rust_Str
begin

text \<open>
  The public names of workspaces, tabs and panes (\<^verbatim>\<open>runtime/src/workspace.rs\<close>): numbers in a
  bijective base-32 notation, whose digit \<open>0\<close> stands for thirty-two, and ids such as \<open>w1\<close>, \<open>w1:t2\<close> and
  \<open>w1:pA\<close> made of them.  A \<open>usize\<close> number is a natural number below \<open>2 ^ 64\<close>; \<open>checked_mul\<close> and
  \<open>checked_add\<close> are the comparisons with that bound.
\<close>

definition PUBLIC_ID_ALPHABET :: string where
  "PUBLIC_ID_ALPHABET = ''123456789ABCDEFGHJKMNPQRSTVWXYZ0''"

text \<open>The digits in the order the loop pushes them, the last one first.\<close>

function encoded_digits :: "nat \<Rightarrow> string" where
  "encoded_digits v = (if v = 0 then []
     else PUBLIC_ID_ALPHABET ! ((v - 1) mod length PUBLIC_ID_ALPHABET) # encoded_digits ((v - 1) div length PUBLIC_ID_ALPHABET))"
  by pat_completeness auto
termination by (relation "measure id") (auto simp: PUBLIC_ID_ALPHABET_def intro: le_less_trans [OF div_le_dividend])

declare encoded_digits.simps [simp del]

definition encode_public_number :: "nat \<Rightarrow> string" where
  "encode_public_number v = (if v = 0 then ''0'' else rev (encoded_digits v))"

fun decode_digits :: "string \<Rightarrow> nat \<Rightarrow> nat option" where
  "decode_digits [] decoded = Some decoded"
| "decode_digits (ch # rest) decoded =
     (case position (\<lambda>candidate. candidate = ch) PUBLIC_ID_ALPHABET of
        None \<Rightarrow> None
      | Some digit \<Rightarrow>
          if decoded * length PUBLIC_ID_ALPHABET \<ge> 2 ^ 64 then None
          else if decoded * length PUBLIC_ID_ALPHABET + (digit + 1) \<ge> 2 ^ 64 then None
          else decode_digits rest (decoded * length PUBLIC_ID_ALPHABET + (digit + 1)))"

definition decode_public_number :: "string \<Rightarrow> nat option" where
  "decode_public_number s = decode_digits s 0"

definition public_workspace_number :: "string \<Rightarrow> nat option" where
  "public_workspace_number wid = Option.bind (strip_prefix ''w'' wid) decode_public_number"

definition public_pane_id_for_number :: "string \<Rightarrow> nat \<Rightarrow> string" where
  "public_pane_id_for_number workspace_id pane_number = workspace_id @ '':p'' @ encode_public_number pane_number"

definition public_tab_id_for_number :: "string \<Rightarrow> nat \<Rightarrow> string" where
  "public_tab_id_for_number workspace_id tab_number = workspace_id @ '':t'' @ encode_public_number tab_number"

text \<open>\<open>NEXT_WORKSPACE_ID\<close> is passed and returned; \<open>fetch_add\<close> wraps.\<close>

definition generate_workspace_id :: "u64 \<Rightarrow> string \<times> u64" where
  "generate_workspace_id counter = (''w'' @ encode_public_number (unat counter), counter + 1)"

text \<open>The counter after \<open>reserve_workspace_ids\<close> on the ids in use; nothing else runs between its load and its exchange.\<close>

definition reserve_workspace_ids :: "string list \<Rightarrow> u64 \<Rightarrow> u64" where
  "reserve_workspace_ids ids counter =
     (case List.map_filter public_workspace_number ids of
        [] \<Rightarrow> counter
      | n # ns \<Rightarrow>
          (let greatest = fold max ns n
           in if greatest + 1 \<ge> 2 ^ 64 then counter else max counter (of_nat (greatest + 1))))"

subsection \<open>The notation\<close>

lemma alphabet_facts: "length PUBLIC_ID_ALPHABET = 32" "distinct PUBLIC_ID_ALPHABET"
  by (simp_all add: PUBLIC_ID_ALPHABET_def)

lemma position_nth_distinct: "distinct xs \<Longrightarrow> i < length xs \<Longrightarrow> position (\<lambda>x. x = xs ! i) xs = Some i"
proof -
  assume a: "distinct xs" "i < length xs"
  then obtain j where j: "position (\<lambda>x. x = xs ! i) xs = Some j" using position_exists [of "xs ! i" xs "\<lambda>x. x = xs ! i"] by auto
  with a show ?thesis using position_Some [OF j] by (auto simp: nth_eq_iff_index_eq)
qed

lemma decode_digits_append:
  "decode_digits (s @ [ch]) d = Option.bind (decode_digits s d) (decode_digits [ch])"
  by (induction s arbitrary: d) (auto split: option.splits)

lemma decode_encoded: "0 < v \<Longrightarrow> v < 2 ^ 64 \<Longrightarrow> decode_digits (rev (encoded_digits v)) 0 = Some v"
proof (induction v rule: encoded_digits.induct)
  case (1 v)
  let ?q = "(v - 1) div 32" and ?d = "(v - 1) mod 32"
  have v: "v = ?q * 32 + (?d + 1)" using 1(2) by simp
  have q: "decode_digits (rev (encoded_digits ?q)) 0 = Some ?q"
  proof (cases "?q = 0")
    case False
    with 1 show ?thesis by (simp add: alphabet_facts)
  qed (simp add: encoded_digits.simps)
  have "position (\<lambda>c. c = PUBLIC_ID_ALPHABET ! ?d) PUBLIC_ID_ALPHABET = Some ?d"
    by (rule position_nth_distinct) (simp_all add: alphabet_facts)
  with 1(2,3) q v show ?case
    by (subst encoded_digits.simps) (simp add: alphabet_facts decode_digits_append)
qed

lemma decoded_digits_of: "decode_digits s d = Some v \<Longrightarrow> encoded_digits v = rev s @ encoded_digits d"
proof (induction s arbitrary: d)
  case (Cons ch s)
  then obtain digit where p: "position (\<lambda>c. c = ch) PUBLIC_ID_ALPHABET = Some digit"
    and v: "decode_digits s (d * 32 + (digit + 1)) = Some v"
    by (auto simp: alphabet_facts split: option.splits if_splits)
  from position_Some [OF p] have "digit < 32" "PUBLIC_ID_ALPHABET ! digit = ch" by (simp_all add: alphabet_facts)
  then have "encoded_digits (d * 32 + (digit + 1)) = ch # encoded_digits d"
    by (subst encoded_digits.simps) (simp add: alphabet_facts)
  with Cons.IH [OF v] show ?case by simp
qed simp

lemma decode_public_number_bounds: "decode_digits s d = Some v \<Longrightarrow> d < 2 ^ 64 \<Longrightarrow> d \<le> v \<and> v < 2 ^ 64 \<and> (s = [] \<or> 0 < v)"
proof (induction s arbitrary: d)
  case (Cons ch s)
  then obtain digit where "d * 32 + (digit + 1) < 2 ^ 64" and v: "decode_digits s (d * 32 + (digit + 1)) = Some v"
    by (auto simp: alphabet_facts not_le split: option.splits if_splits)
  with Cons.IH [OF v] show ?case by simp
qed simp

lemma encoded_digits_length: "v < 2 ^ (5 * k) \<Longrightarrow> length (encoded_digits v) \<le> k"
proof (induction k arbitrary: v)
  case (Suc k)
  then have "(v - 1) div 32 < 2 ^ (5 * k)" by (simp add: div_less_iff_less_mult power_add)
  with Suc.IH show ?case by (subst encoded_digits.simps) (simp add: alphabet_facts)
qed (simp add: encoded_digits.simps)

lemma decode_encode: "0 < v \<Longrightarrow> v < 2 ^ 64 \<Longrightarrow> decode_public_number (encode_public_number v) = Some v"
  by (simp add: decode_public_number_def encode_public_number_def decode_encoded)

lemma encode_decode: "decode_public_number s = Some v \<Longrightarrow> s \<noteq> [] \<Longrightarrow> 0 < v \<and> v < 2 ^ 64 \<and> encode_public_number v = s"
  using decode_public_number_bounds [of s 0 v] decoded_digits_of [of s 0 v]
  by (auto simp: decode_public_number_def encode_public_number_def encoded_digits.simps [of 0])

lemma encode_inj: "0 < v \<Longrightarrow> v < 2 ^ 64 \<Longrightarrow> 0 < w \<Longrightarrow> w < 2 ^ 64 \<Longrightarrow> encode_public_number v = encode_public_number w \<longleftrightarrow> v = w"
  by (metis decode_encode option.inject)

lemma encoded_chars: "c \<in> set (encode_public_number v) \<Longrightarrow> c \<in> set PUBLIC_ID_ALPHABET"
proof -
  have "set (encoded_digits v) \<subseteq> set PUBLIC_ID_ALPHABET" for v
  proof (induction v rule: encoded_digits.induct)
    case (1 v)
    then show ?case by (subst encoded_digits.simps) (simp add: alphabet_facts(1) nth_mem)
  qed
  moreover have zero: "CHR ''0'' \<in> set PUBLIC_ID_ALPHABET" by (simp add: PUBLIC_ID_ALPHABET_def)
  ultimately show "c \<in> set (encode_public_number v) \<Longrightarrow> c \<in> set PUBLIC_ID_ALPHABET"
    by (auto simp: encode_public_number_def zero split: if_splits)
qed

theorem public_number_roundtrip:
  assumes "v < 2 ^ 64" and "0 < v" and "s \<noteq> []"
  shows "decode_public_number (encode_public_number v) = Some v \<and> length (encode_public_number v) \<le> 13
    \<and> (decode_public_number s = Some v \<longleftrightarrow> s = encode_public_number v)"
proof -
  have "length (encoded_digits v) \<le> 13" by (rule encoded_digits_length) (use assms(1) in simp)
  with assms decode_encode [of v] encode_decode [of s v] show ?thesis by (auto simp: encode_public_number_def)
qed

theorem public_number_roundtrip_witness:
  "encode_public_number 32 = ''0'' \<and> decode_public_number ''0'' = Some 32 \<and> decode_public_number ''11'' = Some 33 \<and> length (encode_public_number 33) \<le> 13"
proof -
  have e: "encode_public_number 32 = ''0''" "encode_public_number 33 = ''11''"
    by (simp_all add: encode_public_number_def encoded_digits.simps PUBLIC_ID_ALPHABET_def)
  with public_number_roundtrip [of 32 "''0''"] public_number_roundtrip [of 33 "''11''"] show ?thesis by simp
qed
end
