(* ===== verification/Workspace.thy ===== *)
theory Workspace
  imports Workspace_Tabs Public_Ids
begin

text \<open>
  A workspace (\<^verbatim>\<open>runtime/src/workspace.rs\<close>): its tabs, the active one, and the public numbers of its
  tabs and panes, which are never used again.

  What the workspace reads of the git repository when it is created is the argument \<open>git\<close>; the caches of
  it are kept as fields.  The environment of a new process and the channels of a tab are left out.  As for a
  tab, \<open>spawned\<close> is the result of starting a process, \<open>tid\<close> a new terminal id, \<open>None\<close> a panic;
  \<open>NEXT_PANE_ID\<close> and \<open>NEXT_WORKSPACE_ID\<close> are passed and returned.
\<close>

subsection \<open>Data\<close>

record worktree_space_membership =
  wsm_key :: string
  wsm_label :: string
  wsm_repo_root :: string
  wsm_checkout_path :: string
  wsm_is_linked_worktree :: bool

record 'g git_reading =
  git_space :: "'g option"
  git_auto_label :: string
  git_status_key :: string
  git_branch_name :: "string option"

record 'g workspace =
  ws_id :: string
  ws_custom_name :: "string option"
  identity_cwd :: string
  cached_identity_cwd :: string
  cached_auto_label :: string
  cached_git_status_key :: string
  cached_git_branch :: "string option"
  cached_git_ahead_behind :: "(usize \<times> usize) option"
  cached_git_space :: "'g option"
  worktree_space :: "worktree_space_membership option"
  ws_metadata_tokens :: metadata_tokens
  ws_metadata_token_sequences :: "(string, u64) hmap"
  public_pane_numbers :: "(pane_id, usize) hmap"
  next_public_pane_number :: usize
  next_public_tab_number :: usize
  tabs :: "tab list"
  active_tab :: nat

text \<open>\<open>Vec::get\<close>, \<open>Vec::remove\<close> and \<open>Vec::insert\<close>; the callers stay in range.\<close>

definition vec_get :: "'a list \<Rightarrow> nat \<Rightarrow> 'a option" where
  "vec_get xs i = (if i < length xs then Some (xs ! i) else None)"

definition vec_remove :: "nat \<Rightarrow> 'a list \<Rightarrow> 'a list" where
  "vec_remove i xs = take i xs @ drop (Suc i) xs"

definition vec_insert :: "nat \<Rightarrow> 'a \<Rightarrow> 'a list \<Rightarrow> 'a list" where
  "vec_insert i x xs = take i xs @ x # drop i xs"

subsection \<open>Readings\<close>

definition current_tab :: "('g, 'z) workspace_scheme \<Rightarrow> tab option" where
  "current_tab ws = vec_get (tabs ws) (active_tab ws)"

definition find_tab_index_for_pane :: "('g, 'z) workspace_scheme \<Rightarrow> pane_id \<Rightarrow> nat option" where
  "find_tab_index_for_pane ws pid = position (\<lambda>t. hm_contains (tab_panes t) pid) (tabs ws)"

fun find_map :: "('a \<Rightarrow> 'b option) \<Rightarrow> 'a list \<Rightarrow> 'b option" where
  "find_map f [] = None"
| "find_map f (x # xs) = (case f x of Some y \<Rightarrow> Some y | None \<Rightarrow> find_map f xs)"

definition ws_pane_state :: "('g, 'z) workspace_scheme \<Rightarrow> pane_id \<Rightarrow> pane_state option" where
  "ws_pane_state ws pid = find_map (\<lambda>t. hm_get (tab_panes t) pid) (tabs ws)"

definition ws_terminal_id :: "('g, 'z) workspace_scheme \<Rightarrow> pane_id \<Rightarrow> string option" where
  "ws_terminal_id ws pid = find_map (\<lambda>t. tab_terminal_id t pid) (tabs ws)"

definition focused_pane_id :: "('g, 'z) workspace_scheme \<Rightarrow> pane_id option" where
  "focused_pane_id ws = map_option (\<lambda>t. focused (tab_layout t)) (current_tab ws)"

definition public_pane_number :: "('g, 'z) workspace_scheme \<Rightarrow> pane_id \<Rightarrow> usize option" where
  "public_pane_number ws pid = hm_get (public_pane_numbers ws) pid"

definition public_tab_number :: "('g, 'z) workspace_scheme \<Rightarrow> nat \<Rightarrow> usize option" where
  "public_tab_number ws tab_idx = map_option tab_number (vec_get (tabs ws) tab_idx)"

definition resolved_identity_cwd_from ::
    "('g, 'z) workspace_scheme \<Rightarrow> (string, 'q terminal_state) hmap \<Rightarrow> (string \<Rightarrow> string option) \<Rightarrow> string option" where
  "resolved_identity_cwd_from ws terminals runtime_cwd =
     or_else (Option.bind (vec_get (tabs ws) 0) (\<lambda>t. cwd_for_pane t (tab_root_pane t) terminals runtime_cwd))
       (Some (identity_cwd ws))"

subsection \<open>Numbers\<close>

definition register_new_pane_with_number ::
    "pane_id \<Rightarrow> usize \<Rightarrow> ('g, 'z) workspace_scheme \<Rightarrow> ('g, 'z) workspace_scheme" where
  "register_new_pane_with_number pid number ws =
     ws\<lparr>public_pane_numbers := hm_insert pid number (public_pane_numbers ws),
        next_public_pane_number := max (next_public_pane_number ws) (number + 1)\<rparr>"

definition unregister_pane :: "pane_id \<Rightarrow> ('g, 'z) workspace_scheme \<Rightarrow> ('g, 'z) workspace_scheme" where
  "unregister_pane pid ws = ws\<lparr>public_pane_numbers := hm_remove pid (public_pane_numbers ws)\<rparr>"

definition unregister_moved_pane :: "pane_id \<Rightarrow> ('g, 'z) workspace_scheme \<Rightarrow> ('g, 'z) workspace_scheme" where
  "unregister_moved_pane pid ws = unregister_pane pid ws"

subsection \<open>Construction\<close>

definition workspace_of_tab :: "string \<Rightarrow> string option \<Rightarrow> string \<Rightarrow> 'g git_reading \<Rightarrow> tab \<Rightarrow> 'g workspace" where
  "workspace_of_tab wid label dir git t =
     \<lparr>ws_id = wid, ws_custom_name = label, identity_cwd = dir, cached_identity_cwd = dir,
      cached_auto_label = git_auto_label git, cached_git_status_key = git_status_key git,
      cached_git_branch = git_branch_name git, cached_git_ahead_behind = None, cached_git_space = git_space git,
      worktree_space = None, ws_metadata_tokens = [], ws_metadata_token_sequences = [],
      public_pane_numbers = hm_insert (tab_root_pane t) 1 [], next_public_pane_number = 2,
      next_public_tab_number = 2, tabs = [t], active_tab = 0\<rparr>"

definition ws_from_existing_pane ::
    "string option \<Rightarrow> string option \<Rightarrow> string \<Rightarrow> moved_pane \<Rightarrow> 'g git_reading \<Rightarrow> u64 \<Rightarrow> 'g workspace \<times> u64" where
  "ws_from_existing_pane label tab_label dir moved git counter =
     (case generate_workspace_id counter of
        (wid, counter) \<Rightarrow> (workspace_of_tab wid label dir git (tab_from_existing_pane 1 tab_label moved), counter))"

definition ws_new_with_tab ::
    "string \<Rightarrow> string list option \<Rightarrow> 'g git_reading \<Rightarrow> (string + 'r) \<Rightarrow> string \<Rightarrow> u32 \<Rightarrow> u64 \<Rightarrow>
     u32 \<times> u64 \<times> (string + 'g workspace \<times> 'q terminal_state \<times> 'r)" where
  "ws_new_with_tab initial_cwd argv git spawned tid next_id counter =
     (case generate_workspace_id counter of
        (wid, counter) \<Rightarrow>
          (case tab_new_with_runtime 1 initial_cwd argv spawned tid next_id of
             (next_id, Inl e) \<Rightarrow> (next_id, counter, Inl e)
           | (next_id, Inr (t, terminal, runtime)) \<Rightarrow>
               (next_id, counter, Inr (workspace_of_tab wid None initial_cwd git t, terminal, runtime))))"

definition ws_set_custom_name :: "string \<Rightarrow> ('g, 'z) workspace_scheme \<Rightarrow> ('g, 'z) workspace_scheme" where
  "ws_set_custom_name name ws = ws\<lparr>ws_custom_name := Some name\<rparr>"

subsection \<open>Tabs\<close>

definition adjust_active_tab_after_removal :: "nat \<Rightarrow> ('g, 'z) workspace_scheme \<Rightarrow> ('g, 'z) workspace_scheme" where
  "adjust_active_tab_after_removal removed_idx ws =
     (if tabs ws = [] then ws\<lparr>active_tab := 0\<rparr>
      else if active_tab ws \<ge> length (tabs ws) then ws\<lparr>active_tab := length (tabs ws) - 1\<rparr>
      else if removed_idx \<le> active_tab ws \<and> active_tab ws > 0 then ws\<lparr>active_tab := active_tab ws - 1\<rparr>
      else ws)"

definition mark_panes_seen :: "tab \<Rightarrow> tab" where
  "mark_panes_seen t = t\<lparr>tab_panes := map (\<lambda>(pid, pane). (pid, pane\<lparr>seen := True\<rparr>)) (tab_panes t)\<rparr>"

definition switch_tab :: "nat \<Rightarrow> ('g, 'z) workspace_scheme \<Rightarrow> ('g, 'z) workspace_scheme" where
  "switch_tab idx ws =
     (if idx < length (tabs ws)
      then ws\<lparr>active_tab := idx, tabs := (tabs ws)[idx := mark_panes_seen (tabs ws ! idx)]\<rparr> else ws)"

definition create_tab_with_runtime ::
    "('g, 'z) workspace_scheme \<Rightarrow> string \<Rightarrow> string list option \<Rightarrow> (string + 'r) \<Rightarrow> string \<Rightarrow> u32 \<Rightarrow>
     (('g, 'z) workspace_scheme \<times> u32 \<times> (string + nat \<times> 'q terminal_state \<times> 'r)) option" where
  "create_tab_with_runtime ws dir argv spawned tid next_id =
     (let number = next_public_tab_number ws;
          ws = ws\<lparr>next_public_tab_number := next_public_tab_number ws + 1\<rparr>;
          pane_number = next_public_pane_number ws
      in if current_tab ws = None then None
         else
           (case tab_new_with_runtime number dir argv spawned tid next_id of
              (next_id, Inl e) \<Rightarrow> Some (ws, next_id, Inl e)
            | (next_id, Inr (t, terminal, runtime)) \<Rightarrow>
                (let ws = register_new_pane_with_number (tab_root_pane t) pane_number ws;
                     ws = ws\<lparr>tabs := tabs ws @ [t]\<rparr>
                 in Some (ws, next_id, Inr (length (tabs ws) - 1, terminal, runtime)))))"

definition ws_close_tab :: "nat \<Rightarrow> ('g, 'z) workspace_scheme \<Rightarrow> ('g, 'z) workspace_scheme \<times> bool" where
  "ws_close_tab idx ws =
     (if length (tabs ws) \<le> 1 \<or> idx \<ge> length (tabs ws) then (ws, False)
      else
        (let ws' = fold unregister_pane (hm_keys (tab_panes (tabs ws ! idx))) (ws\<lparr>tabs := vec_remove idx (tabs ws)\<rparr>)
         in (if active_tab ws' \<ge> length (tabs ws') then ws'\<lparr>active_tab := length (tabs ws') - 1\<rparr>
             else if idx \<le> active_tab ws' \<and> active_tab ws' > 0 then ws'\<lparr>active_tab := active_tab ws' - 1\<rparr>
             else ws', True)))"

definition move_tab :: "nat \<Rightarrow> nat \<Rightarrow> ('g, 'z) workspace_scheme \<Rightarrow> ('g, 'z) workspace_scheme \<times> bool" where
  "move_tab source_idx insert_idx ws =
     (if source_idx \<ge> length (tabs ws) \<or> insert_idx > length (tabs ws) then (ws, False)
      else
        (let target_idx = min (if source_idx < insert_idx then insert_idx - 1 else insert_idx) (length (tabs ws) - 1)
         in if source_idx = target_idx then (ws, False)
            else
              (let active_root_pane = map_option tab_root_pane (vec_get (tabs ws) (active_tab ws));
                   moved = vec_insert target_idx (tabs ws ! source_idx) (vec_remove source_idx (tabs ws))
               in (ws\<lparr>tabs := moved,
                      active_tab :=
                        (case Option.bind active_root_pane (\<lambda>r. position (\<lambda>t. tab_root_pane t = r) moved) of
                           Some i \<Rightarrow> i | None \<Rightarrow> target_idx)\<rparr>, True))))"

subsection \<open>Panes\<close>

definition ws_split_focused_command ::
    "('g, 'z) workspace_scheme \<Rightarrow> direction \<Rightarrow> string option \<Rightarrow> string \<Rightarrow> string \<Rightarrow> (string + 'r) \<Rightarrow> string \<Rightarrow> u32 \<Rightarrow>
     (('g, 'z) workspace_scheme \<times> u32 \<times> (string + ('q, 'r) new_pane)) option" where
  "ws_split_focused_command ws direction dir command here spawned tid next_id =
     (case current_tab ws of
        None \<Rightarrow> None
      | Some t \<Rightarrow>
          (case tab_split_focused_command t direction dir command here spawned tid next_id of
             None \<Rightarrow> None
           | Some (t, next_id, result) \<Rightarrow>
               (let ws' = ws\<lparr>tabs := (tabs ws)[active_tab ws := t]\<rparr>
                in Some (case result of
                     Inl e \<Rightarrow> (ws', next_id, Inl e)
                   | Inr new \<Rightarrow>
                       (register_new_pane_with_number (new_pane_id new) (next_public_pane_number ws) ws', next_id, Inr new)))))"

definition ws_split_pane_with_runtime ::
    "('g, 'z) workspace_scheme \<Rightarrow> pane_id \<Rightarrow> direction \<Rightarrow> f32 option \<Rightarrow> string option \<Rightarrow> bool \<Rightarrow> string list option \<Rightarrow>
     string \<Rightarrow> (string + 'r) \<Rightarrow> string \<Rightarrow> u32 \<Rightarrow>
     (('g, 'z) workspace_scheme \<times> u32 \<times> (string + nat \<times> ('q, 'r) new_pane) option) option" where
  "ws_split_pane_with_runtime ws pid direction ratio dir focus_new_pane argv here spawned tid next_id =
     (case find_tab_index_for_pane ws pid of
        None \<Rightarrow> Some (ws, next_id, None)
      | Some tab_idx \<Rightarrow>
          (case (case argv of
                   Some argv \<Rightarrow>
                     tab_split_pane_argv (tabs ws ! tab_idx) pid focus_new_pane direction ratio dir argv here spawned tid next_id
                 | None \<Rightarrow>
                     tab_split_pane_shell (tabs ws ! tab_idx) pid focus_new_pane direction ratio dir here spawned tid next_id) of
             None \<Rightarrow> None
           | Some (t, next_id, result) \<Rightarrow>
               (let ws' = ws\<lparr>tabs := (tabs ws)[tab_idx := t]\<rparr>
                in Some (case result of
                     Inl e \<Rightarrow> (ws', next_id, Some (Inl e))
                   | Inr new \<Rightarrow>
                       (register_new_pane_with_number (new_pane_id new) (next_public_pane_number ws) ws', next_id,
                        Some (Inr (tab_idx, new)))))))"

text \<open>
  \<open>remove_pane\<close>; \<open>close_pane\<close> is the same code.  The flag says that the workspace should close.
\<close>

definition ws_remove_pane ::
    "pane_id \<Rightarrow> ('g, 'z) workspace_scheme \<Rightarrow> (('g, 'z) workspace_scheme \<times> bool) option" where
  "ws_remove_pane pid ws =
     (case find_tab_index_for_pane ws pid of
        None \<Rightarrow> Some (ws, False)
      | Some tab_idx \<Rightarrow>
          if pane_count (tab_layout (tabs ws ! tab_idx)) \<le> 1 then
            if length (tabs ws) \<le> 1 then Some (ws, True)
            else
              (let ws' = unregister_pane pid (ws\<lparr>tabs := vec_remove tab_idx (tabs ws)\<rparr>)
               in Some (if active_tab ws' \<ge> length (tabs ws') then ws'\<lparr>active_tab := length (tabs ws') - 1\<rparr>
                        else if tab_idx \<le> active_tab ws' \<and> active_tab ws' > 0 then ws'\<lparr>active_tab := active_tab ws' - 1\<rparr>
                        else ws', False))
          else
            (case tab_remove_pane (tabs ws ! tab_idx) pid of
               None \<Rightarrow> None
             | Some (t, detached) \<Rightarrow>
                 (let ws' = ws\<lparr>tabs := (tabs ws)[tab_idx := t]\<rparr>
                  in Some (case detached of Some (removed, _) \<Rightarrow> unregister_pane removed ws' | None \<Rightarrow> ws', False))))"

definition ws_close_pane ::
    "pane_id \<Rightarrow> ('g, 'z) workspace_scheme \<Rightarrow> (('g, 'z) workspace_scheme \<times> bool) option" where
  "ws_close_pane pid ws =
     (case find_tab_index_for_pane ws pid of
        None \<Rightarrow> Some (ws, False)
      | Some tab_idx \<Rightarrow>
          if pane_count (tab_layout (tabs ws ! tab_idx)) \<le> 1 then
            if length (tabs ws) \<le> 1 then Some (ws, True)
            else
              (let ws' = unregister_pane pid (ws\<lparr>tabs := vec_remove tab_idx (tabs ws)\<rparr>)
               in Some (if active_tab ws' \<ge> length (tabs ws') then ws'\<lparr>active_tab := length (tabs ws') - 1\<rparr>
                        else if tab_idx \<le> active_tab ws' \<and> active_tab ws' > 0 then ws'\<lparr>active_tab := active_tab ws' - 1\<rparr>
                        else ws', False))
          else
            (case tab_close_pane (tabs ws ! tab_idx) pid of
               None \<Rightarrow> None
             | Some (t, detached) \<Rightarrow>
                 (let ws' = ws\<lparr>tabs := (tabs ws)[tab_idx := t]\<rparr>
                  in Some (case detached of Some (removed, _) \<Rightarrow> unregister_pane removed ws' | None \<Rightarrow> ws', False))))"

record taken_pane =
  taken_moved :: moved_pane
  removed_tab_idx :: "nat option"
  workspace_empty :: bool

definition ws_take_pane_for_move ::
    "pane_id \<Rightarrow> ('g, 'z) workspace_scheme \<Rightarrow> (('g, 'z) workspace_scheme \<times> taken_pane option) option" where
  "ws_take_pane_for_move pid ws =
     (case find_tab_index_for_pane ws pid of
        None \<Rightarrow> Some (ws, None)
      | Some tab_idx \<Rightarrow>
          (case tab_take_pane_for_move (tabs ws ! tab_idx) pid of
             None \<Rightarrow> None
           | Some (t, moved) \<Rightarrow>
               if pane_count (tab_layout (tabs ws ! tab_idx)) \<le> 1 then
                 (let ws' = ws\<lparr>tabs := vec_remove tab_idx (tabs ws)\<rparr>
                  in case moved of
                       None \<Rightarrow> Some (ws', None)
                     | Some moved \<Rightarrow>
                         Some (adjust_active_tab_after_removal tab_idx ws',
                           Some \<lparr>taken_moved = moved, removed_tab_idx = Some tab_idx, workspace_empty = (tabs ws' = [])\<rparr>))
               else
                 Some (ws\<lparr>tabs := (tabs ws)[tab_idx := t]\<rparr>,
                   map_option (\<lambda>moved. \<lparr>taken_moved = moved, removed_tab_idx = None, workspace_empty = False\<rparr>) moved)))"

definition register_if_new :: "pane_id \<Rightarrow> ('g, 'z) workspace_scheme \<Rightarrow> ('g, 'z) workspace_scheme" where
  "register_if_new pid ws =
     (if \<not> hm_contains (public_pane_numbers ws) pid
      then register_new_pane_with_number pid (next_public_pane_number ws) ws else ws)"

definition insert_moved_pane_into_tab ::
    "nat \<Rightarrow> pane_id \<Rightarrow> moved_pane \<Rightarrow> direction \<Rightarrow> f32 \<Rightarrow> bool \<Rightarrow> ('g, 'z) workspace_scheme \<Rightarrow>
     ('g, 'z) workspace_scheme \<times> (moved_pane + pane_id)" where
  "insert_moved_pane_into_tab tab_idx target_pane_id moved direction ratio foc ws =
     (case vec_get (tabs ws) tab_idx of
        None \<Rightarrow> (ws, Inl moved)
      | Some t \<Rightarrow>
          (case insert_existing_pane t target_pane_id moved direction ratio foc of
             (t, Inl moved) \<Rightarrow> (ws\<lparr>tabs := (tabs ws)[tab_idx := t]\<rparr>, Inl moved)
           | (t, Inr _) \<Rightarrow> (register_if_new (moved_pane_id moved) (ws\<lparr>tabs := (tabs ws)[tab_idx := t]\<rparr>), Inr (moved_pane_id moved))))"

definition create_tab_from_existing_pane ::
    "moved_pane \<Rightarrow> string option \<Rightarrow> ('g, 'z) workspace_scheme \<Rightarrow> ('g, 'z) workspace_scheme \<times> nat" where
  "create_tab_from_existing_pane moved label ws =
     (let number = next_public_tab_number ws;
          ws = ws\<lparr>next_public_tab_number := next_public_tab_number ws + 1\<rparr>;
          ws = register_if_new (moved_pane_id moved) ws;
          ws = ws\<lparr>tabs := tabs ws @ [tab_from_existing_pane number label moved]\<rparr>
      in (ws, length (tabs ws) - 1))"

end
