(* ===== verification/Workspace_Theorems.thy ===== *)
theory Workspace_Theorems
  imports Workspace "HOL-Library.Multiset"
begin

text \<open>
  What a workspace promises (\<^verbatim>\<open>runtime/src/workspace.rs\<close>): every operation keeps the invariant that
  \<open>assert_invariants_for_test\<close> spells out, and moves exactly the panes it says.  A pane that is being
  moved between tabs is in no tab and still has its number; \<open>ws_ok K\<close> is the invariant for a workspace whose
  numbered panes are \<open>K\<close>.
\<close>

definition ws_panes :: "('g, 'z) workspace_scheme \<Rightarrow> pane_id list" where
  "ws_panes ws = concat (map (\<lambda>t. pane_ids (tab_layout t)) (tabs ws))"

definition ws_terms :: "('g, 'z) workspace_scheme \<Rightarrow> string list" where
  "ws_terms ws = concat (map tab_terminals (tabs ws))"

definition tabs_ok :: "usize \<Rightarrow> tab list \<Rightarrow> bool" where
  "tabs_ok next_number ts \<longleftrightarrow>
     (\<forall>t \<in> set ts. tab_inv t \<and> 0 < tab_number t \<and> tab_number t < next_number)
     \<and> distinct (map tab_number ts)
     \<and> distinct (concat (map (\<lambda>t. pane_ids (tab_layout t)) ts)) \<and> distinct (concat (map tab_terminals ts))"

definition numbers_ok :: "usize \<Rightarrow> (pane_id, usize) hmap \<Rightarrow> bool" where
  "numbers_ok next_number numbers \<longleftrightarrow>
     hm_ok numbers \<and> distinct (map snd numbers) \<and> (\<forall>e \<in> set numbers. 0 < snd e \<and> snd e < next_number)"

definition ws_ok :: "pane_id set \<Rightarrow> ('g, 'z) workspace_scheme \<Rightarrow> bool" where
  "ws_ok K ws \<longleftrightarrow>
     tabs_ok (next_public_tab_number ws) (tabs ws) \<and> (active_tab ws = 0 \<or> active_tab ws < length (tabs ws))
     \<and> 0 < next_public_tab_number ws \<and> 0 < next_public_pane_number ws
     \<and> numbers_ok (next_public_pane_number ws) (public_pane_numbers ws) \<and> set (hm_keys (public_pane_numbers ws)) = K"

definition ws_inv :: "('g, 'z) workspace_scheme \<Rightarrow> bool" where
  "ws_inv ws \<longleftrightarrow> tabs ws \<noteq> [] \<and> ws_ok (set (ws_panes ws)) ws"

subsection \<open>Lists of tabs\<close>

lemma mem_ws_panes: "pid \<in> set (ws_panes ws) \<longleftrightarrow> (\<exists>t \<in> set (tabs ws). pid \<in> tab_ids t)"
  by (auto simp: ws_panes_def tab_ids_def)

lemma mem_ws_terms: "tid \<in> set (ws_terms ws) \<longleftrightarrow> (\<exists>t \<in> set (tabs ws). tid \<in> set (tab_terminals t))"
  by (auto simp: ws_terms_def)

lemma tab_inv_distinct: "tab_inv t \<Longrightarrow> distinct (pane_ids (tab_layout t))" "tab_inv t \<Longrightarrow> distinct (tab_terminals t)"
  by (simp_all add: tab_inv_def layout_inv_def)

lemma tabs_ok_append: "tabs_ok n (xs @ t # ys) \<Longrightarrow> tabs_ok n (xs @ ys)"
  by (auto simp: tabs_ok_def)

lemma tabs_ok_replace:
  assumes ok: "tabs_ok n (xs @ t # ys)" and t': "tab_inv t'" "tab_number t' = tab_number t"
    and ids: "\<And>u. u \<in> set xs \<union> set ys \<Longrightarrow> tab_ids t' \<inter> tab_ids u = {}"
    and terms: "\<And>u. u \<in> set xs \<union> set ys \<Longrightarrow> set (tab_terminals t') \<inter> set (tab_terminals u) = {}"
  shows "tabs_ok n (xs @ t' # ys)"
  using ok t' tab_inv_distinct [OF t'(1)] ids terms
  by (simp add: tabs_ok_def tab_ids_def) (auto simp: Int_Un_distrib Int_Un_distrib2)

lemma tabs_ok_snoc:
  assumes ok: "tabs_ok n xs" and t: "tab_inv t" "0 < tab_number t" "tab_number t \<notin> tab_number ` set xs"
    and n': "n \<le> n'" "tab_number t < n'"
    and ids: "\<And>u. u \<in> set xs \<Longrightarrow> tab_ids t \<inter> tab_ids u = {}"
    and terms: "\<And>u. u \<in> set xs \<Longrightarrow> set (tab_terminals t) \<inter> set (tab_terminals u) = {}"
  shows "tabs_ok n' (xs @ [t])"
  using ok t n' tab_inv_distinct [OF t(1)] ids terms
  by (simp add: tabs_ok_def tab_ids_def disjoint_iff) (auto dest: less_le_trans)

lemma tabs_ok_disjoint:
  assumes "tabs_ok n (xs @ t # ys)" and "u \<in> set xs \<union> set ys"
  shows "tab_ids t \<inter> tab_ids u = {}" and "set (tab_terminals t) \<inter> set (tab_terminals u) = {}"
  using assms by (auto simp: tabs_ok_def tab_ids_def)

lemma mset_concat_map: "mset (concat (map f xs)) = \<Sum>\<^sub># (image_mset (mset \<circ> f) (mset xs))"
  by (induction xs) auto

lemma distinct_concat_perm: "mset ys = mset xs \<Longrightarrow> distinct (concat (map f ys)) \<longleftrightarrow> distinct (concat (map f xs))"
  by (rule mset_eq_imp_distinct_iff) (simp only: mset_concat_map)

lemma tabs_ok_perm:
  assumes "mset ys = mset xs"
  shows "tabs_ok n ys \<longleftrightarrow> tabs_ok n xs"
proof -
  have "distinct (map tab_number ys) \<longleftrightarrow> distinct (map tab_number xs)"
    by (rule mset_eq_imp_distinct_iff) (use assms in simp)
  then show ?thesis
    by (simp only: tabs_ok_def mset_eq_setD [OF assms] distinct_concat_perm [OF assms])
qed

lemma vec_remove_decomp: "vec_remove (length xs) (xs @ t # ys) = xs @ ys"
  by (simp add: vec_remove_def)

lemma vec_decomp:
  assumes "i < length ts"
  obtains xs t ys where "ts = xs @ t # ys" and "length xs = i" and "ts ! i = t"
  using id_take_nth_drop [OF assms] assms by (intro that [of "take i ts" "ts ! i" "drop (Suc i) ts"]) simp_all

subsection \<open>Numbers\<close>

lemma numbers_ok_insert:
  assumes ok: "numbers_ok n m" and fresh: "pid \<notin> set (hm_keys m)" and n: "0 < n" "n < n'"
  shows "numbers_ok n' (hm_insert pid n m)"
proof -
  have "n \<notin> snd ` set m" using ok by (auto simp: numbers_ok_def)
  with ok n hm.ok_put [of m pid n] show ?thesis
    by (auto simp: numbers_ok_def hm_insert_fresh [OF fresh] dest: less_trans)
qed

lemma numbers_ok_remove: "numbers_ok n m \<Longrightarrow> numbers_ok n (hm_remove pid m)"
  using hm.ok_del [of m pid] by (auto simp: numbers_ok_def hm_remove_filter distinct_map_filter)

lemma numbers_ok_inj:
  assumes "numbers_ok n m" and "hm_get m p = Some k" and "hm_get m q = Some k"
  shows "p = q"
  using assms hm_get_mem [of m p k] hm_get_mem [of m q k]
  by (auto simp: numbers_ok_def distinct_map inj_on_def) fastforce

lemma unregister_fold: "fold unregister_pane ks ws = ws\<lparr>public_pane_numbers := fold hm_remove ks (public_pane_numbers ws)\<rparr>"
  by (induction ks arbitrary: ws) (simp_all add: unregister_pane_def)

lemma fold_remove_ok: "numbers_ok n m \<Longrightarrow> numbers_ok n (fold hm_remove ks m)"
  by (induction ks arbitrary: m) (simp_all add: numbers_ok_remove)

lemma fold_remove_keys: "set (hm_keys (fold hm_remove ks m)) = set (hm_keys m) - set ks"
  by (induction ks arbitrary: m) (auto simp: hm_keys_remove)

lemma ws_ok_register:
  assumes "ws_ok K ws" and "pid \<notin> K" and "next_public_pane_number ws + 1 \<noteq> 0"
  shows "ws_ok (insert pid K) (register_new_pane_with_number pid (next_public_pane_number ws) ws)"
proof -
  let ?n = "next_public_pane_number ws"
  have n: "?n < ?n + 1" using assms(3) by (simp add: word_less_succ)
  then have m: "max ?n (?n + 1) = ?n + 1" by (simp add: max_def)
  show ?thesis
    using assms numbers_ok_insert [of ?n "public_pane_numbers ws" pid "?n + 1"] n
    by (auto simp: ws_ok_def register_new_pane_with_number_def hm_keys_insert m)
qed

lemma ws_ok_unregister: "ws_ok K ws \<Longrightarrow> ws_ok (K - {pid}) (unregister_pane pid ws)"
  by (auto simp: ws_ok_def unregister_pane_def numbers_ok_remove hm_keys_remove)

subsection \<open>Finding a pane\<close>

lemma hm_contains_keys: "hm_contains m k \<longleftrightarrow> k \<in> set (hm_keys m)"
  unfolding hm_contains_def by (rule hm_get_keys)

lemma tab_contains: "tab_inv t \<Longrightarrow> hm_contains (tab_panes t) pid \<longleftrightarrow> pid \<in> tab_ids t"
  by (simp add: hm_contains_keys tab_inv_def)

lemma find_tab_None:
  assumes "tabs_ok n (tabs ws)"
  shows "find_tab_index_for_pane ws pid = None \<longleftrightarrow> pid \<notin> set (ws_panes ws)"
  using assms by (auto simp: find_tab_index_for_pane_def position_None mem_ws_panes tabs_ok_def tab_contains)

lemma find_tab_decomp:
  assumes ok: "tabs_ok n (tabs ws)" and mem: "pid \<in> set (ws_panes ws)"
  obtains xs t ys where "tabs ws = xs @ t # ys" and "find_tab_index_for_pane ws pid = Some (length xs)"
    and "pid \<in> tab_ids t" and "tab_inv t"
proof -
  from find_tab_None [OF ok, of pid] mem obtain i where i: "find_tab_index_for_pane ws pid = Some i" by auto
  then have "i < length (tabs ws)" "hm_contains (tab_panes (tabs ws ! i)) pid"
    using position_Some [of "\<lambda>t. hm_contains (tab_panes t) pid" "tabs ws" i] by (auto simp: find_tab_index_for_pane_def)
  moreover from this ok have "tab_inv (tabs ws ! i)" by (simp add: tabs_ok_def)
  moreover from \<open>i < length (tabs ws)\<close> obtain xs t ys where "tabs ws = xs @ t # ys" "length xs = i" "tabs ws ! i = t"
    by (rule vec_decomp)
  ultimately show thesis using i by (intro that) (auto simp: tab_contains)
qed

lemma ws_pane_state_decomp:
  assumes ok: "tabs_ok n (xs @ t # ys)" and "pid \<in> tab_ids t"
  shows "find_map (\<lambda>t. hm_get (tab_panes t) pid) (xs @ t # ys) = hm_get (tab_panes t) pid"
    and "\<exists>pane. hm_get (tab_panes t) pid = Some pane \<and> attached_terminal_id pane \<in> set (tab_terminals t)"
proof -
  have inv: "tab_inv u" if "u \<in> set (xs @ t # ys)" for u using ok that unfolding tabs_ok_def by blast
  have "hm_get (tab_panes u) pid = None" if "u \<in> set xs" for u
  proof -
    have "pid \<notin> tab_ids u" using tabs_ok_disjoint(1) [OF ok, of u] that assms(2) by auto
    with inv [of u] that show ?thesis using hm_get_keys [of "tab_panes u" pid] by (auto simp: tab_inv_def)
  qed
  then have skip: "find_map (\<lambda>t. hm_get (tab_panes t) pid) (xs @ zs) = find_map (\<lambda>t. hm_get (tab_panes t) pid) zs" for zs
    by (induction xs) auto
  from inv [of t] assms(2) obtain pane where pane: "hm_get (tab_panes t) pid = Some pane"
    using hm_get_keys [of "tab_panes t" pid] by (auto simp: tab_inv_def)
  with skip [of "t # ys"] show "find_map (\<lambda>t. hm_get (tab_panes t) pid) (xs @ t # ys) = hm_get (tab_panes t) pid" by simp
  from hm_get_mem [OF pane] pane
  show "\<exists>pane. hm_get (tab_panes t) pid = Some pane \<and> attached_terminal_id pane \<in> set (tab_terminals t)"
    by (force simp: tab_terminals_def)
qed

subsection \<open>Switching and reordering tabs\<close>

lemma mark_panes_seen_facts [simp]:
  "tab_layout (mark_panes_seen t) = tab_layout t" "tab_number (mark_panes_seen t) = tab_number t"
  "tab_root_pane (mark_panes_seen t) = tab_root_pane t" "tab_ids (mark_panes_seen t) = tab_ids t"
  "tab_terminals (mark_panes_seen t) = tab_terminals t" "hm_keys (tab_panes (mark_panes_seen t)) = hm_keys (tab_panes t)"
  "hm_ok (tab_panes (mark_panes_seen t)) = hm_ok (tab_panes t)"
  by (auto simp: mark_panes_seen_def tab_ids_def tab_terminals_def hm_keys_def hm_ok_def comp_def case_prod_beta)

lemma mark_panes_seen_inv [simp]: "tab_inv (mark_panes_seen t) = tab_inv t"
  by (simp add: tab_inv_def)

lemma map_update_same: "i < length xs \<Longrightarrow> f y = f (xs ! i) \<Longrightarrow> map f (xs[i := y]) = map f xs"
  by (metis list_update_id map_update)

lemma tabs_ok_update_same:
  assumes i: "i < length ts" and y: "tab_inv y = tab_inv (ts ! i)" "tab_number y = tab_number (ts ! i)"
    "pane_ids (tab_layout y) = pane_ids (tab_layout (ts ! i))" "tab_terminals y = tab_terminals (ts ! i)"
  shows "tabs_ok n (ts[i := y]) = tabs_ok n ts"
proof -
  from i obtain xs t ys where d: "ts = xs @ t # ys" "length xs = i" "ts ! i = t" by (rule vec_decomp)
  then have "ts[i := y] = xs @ y # ys" by auto
  with d y show ?thesis by (simp add: tabs_ok_def)
qed

lemma switch_tab_facts:
  "ws_panes (switch_tab i ws) = ws_panes ws" "ws_terms (switch_tab i ws) = ws_terms ws" "ws_id (switch_tab i ws) = ws_id ws"
  "length (tabs (switch_tab i ws)) = length (tabs ws)" "ws_inv ws \<Longrightarrow> ws_inv (switch_tab i ws)"
proof -
  show panes: "ws_panes (switch_tab i ws) = ws_panes ws" and "ws_terms (switch_tab i ws) = ws_terms ws"
    by (simp_all add: ws_panes_def ws_terms_def switch_tab_def map_update_same)
  show "ws_id (switch_tab i ws) = ws_id ws" "length (tabs (switch_tab i ws)) = length (tabs ws)" by (simp_all add: switch_tab_def)
  show "ws_inv ws \<Longrightarrow> ws_inv (switch_tab i ws)"
    unfolding ws_inv_def panes by (auto simp: switch_tab_def ws_ok_def tabs_ok_update_same)
qed

lemma tabs_ok_apart:
  assumes "tabs_ok n (xs @ t # ys)"
  shows "\<forall>u \<in> set xs \<union> set ys. \<forall>x \<in> tab_ids t. x \<notin> tab_ids u"
    and "\<forall>u \<in> set xs \<union> set ys. \<forall>x \<in> set (tab_terminals t). x \<notin> set (tab_terminals u)"
  using tabs_ok_disjoint [OF assms] by blast+

text \<open>Removing the tab at \<open>idx\<close> keeps the active tab unless it was the removed one.\<close>

definition active_after_removal :: "nat \<Rightarrow> nat \<Rightarrow> nat \<Rightarrow> nat" where
  "active_after_removal idx active len =
     (if active \<ge> len then len - 1 else if idx \<le> active \<and> active > 0 then active - 1 else active)"

lemma active_after_removal_less: "0 < len \<Longrightarrow> active_after_removal idx active len < len"
  by (auto simp: active_after_removal_def)

lemma active_after_removal_nth:
  assumes "active < length (xs @ t # ys)" and "active \<noteq> length xs"
  shows "(xs @ ys) ! active_after_removal (length xs) active (length (xs @ ys)) = (xs @ t # ys) ! active"
proof (cases "active < length xs")
  case True
  then show ?thesis by (auto simp: active_after_removal_def nth_append)
next
  case False
  with assms obtain k where k: "active = Suc (length xs + k)" "k < length ys"
    by (intro that [of "active - length xs - 1"]) auto
  then have "active_after_removal (length xs) active (length (xs @ ys)) = length xs + k"
    by (auto simp: active_after_removal_def)
  with k show ?thesis by (simp add: nth_append)
qed

lemma ws_ok_remove_tab:
  assumes ok: "ws_ok K ws" and ts: "tabs ws = xs @ t # ys" and rest: "xs @ ys \<noteq> []"
    and ws': "tabs ws' = xs @ ys" "active_tab ws' = active_after_removal (length xs) (active_tab ws) (length (xs @ ys))"
      "next_public_tab_number ws' = next_public_tab_number ws" "next_public_pane_number ws' = next_public_pane_number ws"
    and numbers: "numbers_ok (next_public_pane_number ws) (public_pane_numbers ws')" "set (hm_keys (public_pane_numbers ws')) = K'"
  shows "ws_ok K' ws'"
proof -
  have "tabs_ok (next_public_tab_number ws) (xs @ ys)" using ok ts by (auto simp: ws_ok_def intro: tabs_ok_append)
  moreover have "active_tab ws' < length (xs @ ys)" using rest unfolding ws'(2) by (intro active_after_removal_less) simp
  ultimately show ?thesis using ok ws' numbers by (simp add: ws_ok_def)
qed

lemma ws_close_tab_effect:
  assumes inv: "ws_inv ws" and many: "1 < length (tabs ws)" and ts: "tabs ws = xs @ t # ys"
  obtains ws' where "ws_close_tab (length xs) ws = (ws', True)" and "ws_inv ws'" and "tabs ws' = xs @ ys"
    and "active_tab ws' = active_after_removal (length xs) (active_tab ws) (length (xs @ ys))"
    and "ws_id ws' = ws_id ws" and "next_public_tab_number ws' = next_public_tab_number ws"
    and "next_public_pane_number ws' = next_public_pane_number ws"
    and "public_pane_numbers ws' = fold hm_remove (hm_keys (tab_panes t)) (public_pane_numbers ws)"
proof -
  let ?m = "fold hm_remove (hm_keys (tab_panes t)) (public_pane_numbers ws)"
  let ?ws = "ws\<lparr>tabs := xs @ ys, public_pane_numbers := ?m,
    active_tab := active_after_removal (length xs) (active_tab ws) (length (xs @ ys))\<rparr>"
  have rest: "xs @ ys \<noteq> []" using many ts by (auto simp: neq_Nil_conv)
  from inv ts have ok: "ws_ok (set (ws_panes ws)) ws" and t: "tab_inv t" "tabs_ok (next_public_tab_number ws) (xs @ t # ys)"
    by (auto simp: ws_inv_def ws_ok_def tabs_ok_def)
  have eq: "ws_close_tab (length xs) ws = (?ws, True)"
    using many ts by (simp add: ws_close_tab_def vec_remove_decomp unregister_fold Let_def active_after_removal_def)
  have keys: "set (hm_keys ?m) = set (ws_panes ?ws)"
  proof -
    have "set (ws_panes ws) - tab_ids t = set (ws_panes ?ws)"
      using tabs_ok_apart(1) [OF t(2)] by (auto simp: mem_ws_panes ts)
    with ok t(1) show ?thesis by (simp add: ws_ok_def tab_inv_def fold_remove_keys)
  qed
  have "ws_ok (set (ws_panes ?ws)) ?ws"
    using ok by (intro ws_ok_remove_tab [OF ok ts rest]) (simp_all add: fold_remove_ok keys ws_ok_def)
  with rest have "ws_inv ?ws" by (simp add: ws_inv_def)
  with eq show thesis by (intro that [of ?ws]) simp_all
qed

lemma ws_replace_tab:
  assumes ok: "ws_ok K ws" and ts: "tabs ws = xs @ t # ys" and t': "without_pane t pid t'" and mem: "pid \<in> tab_ids t"
  shows "ws_ok K (ws\<lparr>tabs := xs @ t' # ys\<rparr>)" and "set (ws_panes (ws\<lparr>tabs := xs @ t' # ys\<rparr>)) = set (ws_panes ws) - {pid}"
    and "set (ws_terms (ws\<lparr>tabs := xs @ t' # ys\<rparr>)) \<subseteq> set (ws_terms ws)"
proof -
  from ok ts have tok: "tabs_ok (next_public_tab_number ws) (xs @ t # ys)" by (simp add: ws_ok_def)
  note dis = tabs_ok_apart [OF tok]
  have terms: "set (tab_terminals t') \<subseteq> set (tab_terminals t)"
    using t' by (auto simp: without_pane_def tab_terminals_def hm_remove_filter)
  have "tabs_ok (next_public_tab_number ws) (xs @ t' # ys)"
  proof (rule tabs_ok_replace [OF tok])
    show "tab_inv t'" "tab_number t' = tab_number t" using t' by (simp_all add: without_pane_def)
    fix u assume "u \<in> set xs \<union> set ys"
    with dis t' terms show "tab_ids t' \<inter> tab_ids u = {}" "set (tab_terminals t') \<inter> set (tab_terminals u) = {}"
      by (auto simp: without_pane_def)
  qed
  with ok ts show "ws_ok K (ws\<lparr>tabs := xs @ t' # ys\<rparr>)" by (auto simp: ws_ok_def)
  show "set (ws_panes (ws\<lparr>tabs := xs @ t' # ys\<rparr>)) = set (ws_panes ws) - {pid}"
    using t' dis(1) mem by (auto simp: set_eq_iff mem_ws_panes ts without_pane_def)
  show "set (ws_terms (ws\<lparr>tabs := xs @ t' # ys\<rparr>)) \<subseteq> set (ws_terms ws)"
    using terms by (auto simp: mem_ws_terms ts)
qed

lemma ws_panes_remove_tab:
  assumes "tabs_ok n (xs @ t # ys)" and "tabs ws = xs @ t # ys" and "tabs ws' = xs @ ys"
  shows "set (ws_panes ws') = set (ws_panes ws) - tab_ids t" and "set (ws_terms ws') = set (ws_terms ws) - set (tab_terminals t)"
  using tabs_ok_apart [OF assms(1)] assms(2,3) by (auto simp: set_eq_iff mem_ws_panes mem_ws_terms)

lemma tab_ids_single: "tab_inv t \<Longrightarrow> pane_count (tab_layout t) \<le> 1 \<Longrightarrow> pid \<in> tab_ids t \<Longrightarrow> tab_ids t = {pid}"
proof -
  assume a: "tab_inv t" "pane_count (tab_layout t) \<le> 1" "pid \<in> tab_ids t"
  then have "card (tab_ids t) \<le> 1" by (simp add: tab_inv_def pane_count_ids tab_ids_def)
  then have "\<forall>x \<in> tab_ids t. \<forall>y \<in> tab_ids t. x = y" by (simp add: card_le_Suc0_iff_eq tab_ids_def)
  with a(3) show ?thesis by blast
qed

text \<open>Closing a pane: the last pane of the last tab asks the workspace to close, any other pane goes alone.\<close>

lemma ws_remove_pane_effect:
  assumes inv: "ws_inv ws" and mem: "pid \<in> set (ws_panes ws)"
  obtains (last_pane) "ws_remove_pane pid ws = Some (ws, True)" and "set (ws_panes ws) = {pid}"
  | (removed) ws' where "ws_remove_pane pid ws = Some (ws', False)" and "ws_inv ws'" and "set (ws_panes ws') = set (ws_panes ws) - {pid}"
      and "set (ws_terms ws') \<subseteq> set (ws_terms ws)" and "ws_id ws' = ws_id ws"
      and "next_public_tab_number ws' = next_public_tab_number ws" and "next_public_pane_number ws' = next_public_pane_number ws"
      and "public_pane_numbers ws' = hm_remove pid (public_pane_numbers ws)"
proof -
  from inv have ok: "ws_ok (set (ws_panes ws)) ws" and tok: "tabs_ok (next_public_tab_number ws) (tabs ws)" unfolding ws_inv_def ws_ok_def by blast+
  from find_tab_decomp [OF tok mem] obtain xs t ys where d: "tabs ws = xs @ t # ys"
    "find_tab_index_for_pane ws pid = Some (length xs)" "pid \<in> tab_ids t" "tab_inv t" .
  note tok' = tok [unfolded d(1)]
  show thesis
  proof (cases "pane_count (tab_layout t) \<le> 1")
    case single: True
    note ids = tab_ids_single [OF d(4) single d(3)]
    show thesis
    proof (cases "xs @ ys = []")
      case True
      with single d ids show thesis by (intro last_pane) (auto simp: ws_remove_pane_def ws_panes_def tab_ids_def)
    next
      case False
      let ?ws = "ws\<lparr>tabs := xs @ ys, public_pane_numbers := hm_remove pid (public_pane_numbers ws),
        active_tab := active_after_removal (length xs) (active_tab ws) (length (xs @ ys))\<rparr>"
      have len: "\<not> length (tabs ws) \<le> 1" using False d(1) by (cases xs) (auto simp: neq_Nil_conv)
      have eq: "ws_remove_pane pid ws = Some (?ws, False)"
        using single d len by (simp add: ws_remove_pane_def vec_remove_decomp unregister_pane_def Let_def active_after_removal_def)
      note sets = ws_panes_remove_tab [OF tok' d(1), of ?ws]
      have "ws_ok (set (ws_panes ?ws)) ?ws"
        using ok sets(1) ids by (intro ws_ok_remove_tab [OF ok d(1) False]) (simp_all add: numbers_ok_remove hm_keys_remove ws_ok_def)
      with False have "ws_inv ?ws" by (simp add: ws_inv_def)
      with eq sets ids show thesis by (intro removed [of ?ws]) auto
    qed
  next
    case False
    then have many: "1 < pane_count (tab_layout t)" by simp
    from detach_pane_many [OF d(4) many d(3)] obtain t' tid where t': "detach_pane t pid = Some (t', Some (pid, tid))" "without_pane t pid t'" by metis
    let ?ws = "unregister_pane pid (ws\<lparr>tabs := xs @ t' # ys\<rparr>)"
    have eq: "ws_remove_pane pid ws = Some (?ws, False)"
      using many d t' by (simp add: ws_remove_pane_def tab_remove_pane_def Let_def)
    note r = ws_replace_tab [OF ok d(1) t'(2) d(3)]
    have "ws_panes ?ws = ws_panes (ws\<lparr>tabs := xs @ t' # ys\<rparr>)" "ws_terms ?ws = ws_terms (ws\<lparr>tabs := xs @ t' # ys\<rparr>)"
      by (simp_all add: ws_panes_def ws_terms_def unregister_pane_def)
    with r ws_ok_unregister [OF r(1), of pid] have "ws_inv ?ws" by (simp add: ws_inv_def unregister_pane_def)
    with eq r \<open>ws_panes ?ws = _\<close> \<open>ws_terms ?ws = _\<close> show thesis
      by (intro removed [of ?ws]) (simp_all add: unregister_pane_def)
  qed
qed

lemma ws_close_pane_remove: "ws_close_pane pid ws = ws_remove_pane pid ws"
  unfolding ws_close_pane_def ws_remove_pane_def tab_close_pane_def tab_remove_pane_def ..

subsection \<open>Moving a pane\<close>

text \<open>
  Taking a pane for a move leaves every other pane where it is; the pane keeps its number until the caller
  drops it.
\<close>

lemma ws_take_effect:
  assumes inv: "ws_inv ws" and mem: "pid \<in> set (ws_panes ws)"
  obtains ws' taken where "ws_take_pane_for_move pid ws = Some (ws', Some taken)" and "ws_ok (set (ws_panes ws)) ws'"
    and "set (ws_panes ws') = set (ws_panes ws) - {pid}" and "set (ws_terms ws') \<subseteq> set (ws_terms ws)"
    and "moved_pane_id (taken_moved taken) = pid" and "ws_pane_state ws pid = Some (moved_pane_state (taken_moved taken))"
    and "attached_terminal_id (moved_pane_state (taken_moved taken)) \<in> set (ws_terms ws) - set (ws_terms ws')"
    and "workspace_empty taken \<longleftrightarrow> tabs ws' = []" and "ws_id ws' = ws_id ws"
    and "next_public_pane_number ws' = next_public_pane_number ws" and "next_public_tab_number ws' = next_public_tab_number ws"
    and "public_pane_numbers ws' = public_pane_numbers ws"
    and "\<And>u. u \<in> set (tabs ws) \<Longrightarrow> pid \<notin> tab_ids u \<Longrightarrow> u \<in> set (tabs ws')"
proof -
  from inv have ok: "ws_ok (set (ws_panes ws)) ws" and tok: "tabs_ok (next_public_tab_number ws) (tabs ws)" unfolding ws_inv_def ws_ok_def by blast+
  from find_tab_decomp [OF tok mem] obtain xs t ys where d: "tabs ws = xs @ t # ys"
    "find_tab_index_for_pane ws pid = Some (length xs)" "pid \<in> tab_ids t" "tab_inv t" .
  note tok' = tok [unfolded d(1)]
  from ws_pane_state_decomp [OF tok' d(3)] obtain pane where pane: "hm_get (tab_panes t) pid = Some pane"
    "attached_terminal_id pane \<in> set (tab_terminals t)" "ws_pane_state ws pid = Some pane" by (auto simp: ws_pane_state_def d(1))
  let ?taken = "\<lambda>i e. \<lparr>taken_moved = \<lparr>moved_pane_id = pid, moved_pane_state = pane\<rparr>, removed_tab_idx = i, workspace_empty = e\<rparr>"
  have mine: "attached_terminal_id pane \<in> set (ws_terms ws)" using pane(2) by (auto simp: mem_ws_terms d(1))
  have apart: "\<forall>u \<in> set xs \<union> set ys. attached_terminal_id pane \<notin> set (tab_terminals u)" using tabs_ok_apart(2) [OF tok'] pane(2) by blast
  show thesis
  proof (cases "pane_count (tab_layout t) \<le> 1")
    case single: True
    note ids = tab_ids_single [OF d(4) single d(3)]
    from tab_take_single [OF single pane(1)] obtain t' where t': "tab_take_pane_for_move t pid = Some (t', Some \<lparr>moved_pane_id = pid, moved_pane_state = pane\<rparr>)" ..
    let ?ws = "adjust_active_tab_after_removal (length xs) (ws\<lparr>tabs := xs @ ys\<rparr>)"
    have eq: "ws_take_pane_for_move pid ws = Some (?ws, Some (?taken (Some (length xs)) (xs @ ys = [])))"
      using single d t' by (simp add: ws_take_pane_for_move_def vec_remove_decomp Let_def)
    have w: "tabs ?ws = xs @ ys" "public_pane_numbers ?ws = public_pane_numbers ws" "ws_id ?ws = ws_id ws"
      "next_public_tab_number ?ws = next_public_tab_number ws" "next_public_pane_number ?ws = next_public_pane_number ws"
      by (simp_all add: adjust_active_tab_after_removal_def)
    note sets = ws_panes_remove_tab [OF tok' d(1) w(1)]
    have "ws_ok (set (ws_panes ws)) ?ws"
    proof (cases "xs @ ys = []")
      case True
      then have "active_tab ?ws = 0" by (simp add: adjust_active_tab_after_removal_def)
      with True ok w show ?thesis by (simp add: ws_ok_def tabs_ok_def)
    next
      case False
      have "active_tab ?ws = active_after_removal (length xs) (active_tab ws) (length (xs @ ys))"
        using False by (auto simp: adjust_active_tab_after_removal_def active_after_removal_def)
      with ok w show ?thesis by (intro ws_ok_remove_tab [OF ok d(1) False]) (simp_all add: ws_ok_def)
    qed
    moreover have "attached_terminal_id pane \<notin> set (ws_terms ?ws)" using apart by (auto simp: mem_ws_terms w(1))
    ultimately show thesis
      using eq sets ids pane(3) w mine d(1) by (intro that [of ?ws "?taken (Some (length xs)) (xs @ ys = [])"]) auto
  next
    case False
    then have many: "1 < pane_count (tab_layout t)" by simp
    from tab_take_many [OF d(4) many pane(1)] obtain t' where
      t': "tab_take_pane_for_move t pid = Some (t', Some \<lparr>moved_pane_id = pid, moved_pane_state = pane\<rparr>)" "without_pane t pid t'" .
    let ?ws = "ws\<lparr>tabs := xs @ t' # ys\<rparr>"
    have eq: "ws_take_pane_for_move pid ws = Some (?ws, Some (?taken None False))"
      using many d t' by (simp add: ws_take_pane_for_move_def)
    note r = ws_replace_tab [OF ok d(1) t'(2) d(3)]
    have "attached_terminal_id pane \<notin> set (tab_terminals t')"
    proof
      assume "attached_terminal_id pane \<in> set (tab_terminals t')"
      moreover have "tab_panes t' = hm_remove pid (tab_panes t)" using t'(2) by (simp add: without_pane_def)
      ultimately obtain q pane' where q: "(q, pane') \<in> set (tab_panes t)" "q \<noteq> pid" "attached_terminal_id pane' = attached_terminal_id pane"
        by (auto simp: tab_terminals_def hm_remove_filter)
      with hm_get_mem [OF pane(1)] d(4) show False
        by (auto simp: tab_inv_def tab_terminals_def distinct_map inj_on_def) fastforce
    qed
    with apart have "attached_terminal_id pane \<notin> set (ws_terms ?ws)" by (auto simp: mem_ws_terms)
    with eq r pane(3) mine d(1,3) show thesis
      by (intro that [of ?ws "?taken None False"]) auto
  qed
qed

lemma register_if_new_ok:
  assumes "ws_ok K ws" and "next_public_pane_number ws + 1 \<noteq> 0"
  shows "ws_ok (insert pid K) (register_if_new pid ws)"
proof (cases "pid \<in> K")
  case True
  then have "insert pid K = K" by blast
  with assms True show ?thesis by (simp add: register_if_new_def hm_contains_keys ws_ok_def)
next
  case False
  with assms ws_ok_register [OF assms(1) False assms(2)] show ?thesis by (simp add: register_if_new_def hm_contains_keys ws_ok_def)
qed

lemma register_if_new_facts [simp]:
  "tabs (register_if_new pid ws) = tabs ws" "ws_id (register_if_new pid ws) = ws_id ws"
  "next_public_tab_number (register_if_new pid ws) = next_public_tab_number ws" "active_tab (register_if_new pid ws) = active_tab ws"
  "ws_panes (register_if_new pid ws) = ws_panes ws" "ws_terms (register_if_new pid ws) = ws_terms ws"
  by (simp_all add: register_if_new_def register_new_pane_with_number_def ws_panes_def ws_terms_def)

text \<open>Putting a pane into a tab, beside a pane of that tab.\<close>

lemma insert_moved_effect:
  assumes ok: "ws_ok K ws" and room: "next_public_pane_number ws + 1 \<noteq> 0" and ts: "tabs ws = xs @ t # ys"
    and new: "moved_pane_id moved \<notin> set (ws_panes ws)" "attached_terminal_id (moved_pane_state moved) \<notin> set (ws_terms ws)"
  obtains (refused) "insert_moved_pane_into_tab (length xs) target moved d r f ws = (ws, Inl moved)" and "target \<notin> tab_ids t"
  | (inserted) ws' where "insert_moved_pane_into_tab (length xs) target moved d r f ws = (ws', Inr (moved_pane_id moved))"
      and "ws_ok (insert (moved_pane_id moved) K) ws'" and "set (ws_panes ws') = insert (moved_pane_id moved) (set (ws_panes ws))"
      and "set (ws_terms ws') = insert (attached_terminal_id (moved_pane_state moved)) (set (ws_terms ws))"
      and "ws_id ws' = ws_id ws" and "tabs ws' \<noteq> []" and "next_public_tab_number ws' = next_public_tab_number ws"
      and "ws' = register_if_new (moved_pane_id moved) (ws\<lparr>tabs := tabs ws'\<rparr>)"
      and "find_tab_index_for_pane ws' (moved_pane_id moved) = Some (length xs)"
proof -
  from ok ts have tok: "tabs_ok (next_public_tab_number ws) (xs @ t # ys)" by (simp add: ws_ok_def)
  then have t: "tab_inv t" by (simp add: tabs_ok_def)
  from new ts have fresh: "\<forall>u \<in> set (xs @ t # ys). moved_pane_id moved \<notin> tab_ids u"
    "\<forall>u \<in> set (xs @ t # ys). attached_terminal_id (moved_pane_state moved) \<notin> set (tab_terminals u)"
    by (auto simp: mem_ws_panes mem_ws_terms)
  show thesis
  proof (cases rule: insert_existing_cases [OF t, of target moved d r f])
    case 1
    with refused fresh ts show thesis by (simp add: insert_moved_pane_into_tab_def vec_get_def)
  next
    case (2 t')
    let ?ws = "register_if_new (moved_pane_id moved) (ws\<lparr>tabs := xs @ t' # ys\<rparr>)"
    have eq: "insert_moved_pane_into_tab (length xs) target moved d r f ws = (?ws, Inr (moved_pane_id moved))"
      using 2(1) ts by (simp add: insert_moved_pane_into_tab_def vec_get_def)
    have inv': "tab_inv t'" using 2(6) fresh(2) by simp
    have tok': "tabs_ok (next_public_tab_number ws) (xs @ t' # ys)"
    proof (rule tabs_ok_replace [OF tok inv' 2(8)])
      fix u assume u: "u \<in> set xs \<union> set ys"
      show "tab_ids t' \<inter> tab_ids u = {}" "set (tab_terminals t') \<inter> set (tab_terminals u) = {}"
        using tabs_ok_disjoint [OF tok u] fresh u unfolding 2(4,5) by auto
    qed
    with ok ts have "ws_ok K (ws\<lparr>tabs := xs @ t' # ys\<rparr>)" by (auto simp: ws_ok_def)
    with room have "ws_ok (insert (moved_pane_id moved) K) ?ws" by (intro register_if_new_ok) simp_all
    moreover have "find_tab_index_for_pane ?ws (moved_pane_id moved) = Some (length xs)"
      using fresh(1) tok tab_contains [OF inv', of "moved_pane_id moved"] 2(4)
      by (auto simp: find_tab_index_for_pane_def tabs_ok_def tab_contains intro!: position_append)
    ultimately show thesis
      using eq 2(4,5) by (intro inserted [of ?ws]) (auto simp: set_eq_iff mem_ws_panes mem_ws_terms ts)
  qed
qed

lemma create_tab_from_existing_effect:
  assumes ok: "ws_ok K ws" and room: "next_public_pane_number ws + 1 \<noteq> 0" "next_public_tab_number ws + 1 \<noteq> 0"
    and new: "moved_pane_id moved \<notin> set (ws_panes ws)" "attached_terminal_id (moved_pane_state moved) \<notin> set (ws_terms ws)"
  obtains ws' where "create_tab_from_existing_pane moved label ws = (ws', length (tabs ws))"
    and "ws_ok (insert (moved_pane_id moved) K) ws'" and "set (ws_panes ws') = insert (moved_pane_id moved) (set (ws_panes ws))"
    and "set (ws_terms ws') = insert (attached_terminal_id (moved_pane_state moved)) (set (ws_terms ws))"
    and "ws_id ws' = ws_id ws" and "tabs ws' = tabs ws @ [tab_from_existing_pane (next_public_tab_number ws) label moved]"
    and "ws' = register_if_new (moved_pane_id moved) (ws\<lparr>tabs := tabs ws', next_public_tab_number := next_public_tab_number ws + 1\<rparr>)"
proof -
  let ?t = "tab_from_existing_pane (next_public_tab_number ws) label moved"
  let ?base = "ws\<lparr>tabs := tabs ws @ [?t], next_public_tab_number := next_public_tab_number ws + 1\<rparr>"
  let ?ws = "register_if_new (moved_pane_id moved) ?base"
  have less: "next_public_tab_number ws < next_public_tab_number ws + 1" using room(2) by (simp add: word_less_succ)
  have eq: "create_tab_from_existing_pane moved label ws = (?ws, length (tabs ws))"
    by (simp add: create_tab_from_existing_pane_def Let_def register_if_new_def register_new_pane_with_number_def)
  have num: "tab_number ?t = next_public_tab_number ws" by (simp add: tab_from_existing_pane_def)
  have "tabs_ok (next_public_tab_number ws + 1) (tabs ws @ [?t])"
  proof (rule tabs_ok_snoc)
    show "tabs_ok (next_public_tab_number ws) (tabs ws)" using ok by (simp add: ws_ok_def)
    then show "tab_number ?t \<notin> tab_number ` set (tabs ws)" by (auto simp: num tabs_ok_def)
    show "tab_inv ?t" by (rule tab_from_existing_pane_inv)
    show "0 < tab_number ?t" "tab_number ?t < next_public_tab_number ws + 1" "next_public_tab_number ws \<le> next_public_tab_number ws + 1"
      using ok less by (simp_all add: num ws_ok_def)
  qed (use new in \<open>auto simp: tab_from_existing_pane_inv(2,3) mem_ws_panes mem_ws_terms\<close>)
  with ok less have "ws_ok K ?base" by (auto simp: ws_ok_def)
  with room have "ws_ok (insert (moved_pane_id moved) K) ?ws" by (intro register_if_new_ok) simp_all
  then show thesis
    using eq by (intro that [of ?ws]) (auto simp: set_eq_iff mem_ws_panes mem_ws_terms tab_from_existing_pane_inv(2,3))
qed

subsection \<open>Creating and splitting\<close>

lemma workspace_of_tab_inv:
  assumes "tab_inv t" and "tab_ids t = {tab_root_pane t}" and "tab_number t = 1"
  shows "ws_inv (workspace_of_tab wid label dir git t)" and "set (ws_panes (workspace_of_tab wid label dir git t)) = {tab_root_pane t}"
    and "ws_terms (workspace_of_tab wid label dir git t) = tab_terminals t" and "ws_id (workspace_of_tab wid label dir git t) = wid"
proof -
  let ?ws = "workspace_of_tab wid label dir git t"
  have ts: "tabs ?ws = [t]" by (simp add: workspace_of_tab_def)
  then show panes: "set (ws_panes ?ws) = {tab_root_pane t}" using assms(2) by (simp add: ws_panes_def tab_ids_def)
  show "ws_terms ?ws = tab_terminals t" by (simp add: ws_terms_def ts)
  show "ws_id ?ws = wid" by (simp add: workspace_of_tab_def)
  have "numbers_ok 2 (hm_insert (tab_root_pane t) 1 [])"
    by (simp add: numbers_ok_def hm_insert_def hm_ok_def)
  moreover have "tabs_ok 2 [t]"
    using assms tab_inv_distinct [OF assms(1)] by (simp add: tabs_ok_def)
  ultimately show "ws_inv ?ws"
    unfolding ws_inv_def panes by (simp add: ws_ok_def ts) (simp add: workspace_of_tab_def hm_insert_def hm_keys_def)
qed

lemma ws_from_existing_inv:
  assumes "ws_from_existing_pane label tab_label dir moved git counter = (ws, counter')"
  shows "ws_inv ws" and "set (ws_panes ws) = {moved_pane_id moved}" and "ws_terms ws = [attached_terminal_id (moved_pane_state moved)]"
    and "ws_id ws = ''w'' @ encode_public_number (unat counter)" and "counter' = counter + 1" and "length (tabs ws) = 1"
    and "next_public_pane_number ws = 2" and "public_pane_numbers ws = [(moved_pane_id moved, 1)]"
proof -
  let ?t = "tab_from_existing_pane 1 tab_label moved"
  have ws: "ws = workspace_of_tab (''w'' @ encode_public_number (unat counter)) label dir git ?t"
    and c: "counter' = counter + 1" using assms by (simp_all add: ws_from_existing_pane_def generate_workspace_id_def)
  have root: "tab_root_pane ?t = moved_pane_id moved" "tab_number ?t = 1" by (simp_all add: tab_from_existing_pane_def)
  have ids: "tab_ids ?t = {tab_root_pane ?t}" using root by (simp add: tab_from_existing_pane_inv)
  note inv = workspace_of_tab_inv [OF tab_from_existing_pane_inv(1) ids root(2)]
  from inv root c show "ws_inv ws" "set (ws_panes ws) = {moved_pane_id moved}" "ws_terms ws = [attached_terminal_id (moved_pane_state moved)]"
    "ws_id ws = ''w'' @ encode_public_number (unat counter)" "counter' = counter + 1"
    by (simp_all add: ws tab_from_existing_pane_inv(3))
  show "length (tabs ws) = 1" by (simp add: ws workspace_of_tab_def)
  show "next_public_pane_number ws = 2" "public_pane_numbers ws = [(moved_pane_id moved, 1)]"
    using root by (simp_all add: ws workspace_of_tab_def hm_insert_def)
qed

lemma ws_new_inv:
  assumes "ws_new_with_tab dir argv git spawned tid n counter = (n', counter', Inr (ws, terminal, runtime))"
  shows "ws_inv ws" and "set (ws_panes ws) = {n}" and "ws_terms ws = [tid]" and "terminal_id terminal = tid"
    and "ws_id ws = ''w'' @ encode_public_number (unat counter)" and "counter' = counter + 1" and "n' = n + 1"
    and "length (tabs ws) = 1" and "tab_root_pane (tabs ws ! 0) = n"
    and "next_public_pane_number ws = 2" and "public_pane_numbers ws = [(n, 1)]"
proof -
  from assms obtain t where t: "tab_new_with_runtime 1 dir argv spawned tid n = (n', Inr (t, terminal, runtime))"
    and ws: "ws = workspace_of_tab (''w'' @ encode_public_number (unat counter)) None dir git t" and c: "counter' = counter + 1"
    by (auto simp: ws_new_with_tab_def generate_workspace_id_def split: prod.splits sum.splits)
  note new = tab_new_inv [OF t]
  have ids: "tab_ids t = {tab_root_pane t}" using new by simp
  note inv = workspace_of_tab_inv [OF new(1) ids new(6)]
  from inv new c show "ws_inv ws" "set (ws_panes ws) = {n}" "ws_terms ws = [tid]" "terminal_id terminal = tid"
    "ws_id ws = ''w'' @ encode_public_number (unat counter)" "counter' = counter + 1" "n' = n + 1" by (simp_all add: ws)
  show "length (tabs ws) = 1" "tab_root_pane (tabs ws ! 0) = n" using new(5) by (simp_all add: ws workspace_of_tab_def)
  show "next_public_pane_number ws = 2" "public_pane_numbers ws = [(n, 1)]"
    using new(5) by (simp_all add: ws workspace_of_tab_def hm_insert_def)
qed

lemma create_tab_effect:
  fixes spawned :: "string + 'r"
  assumes inv: "ws_inv ws" and room: "next_public_pane_number ws + 1 \<noteq> 0" "next_public_tab_number ws + 1 \<noteq> 0"
    and fresh: "n \<notin> set (ws_panes ws)" "tid \<notin> set (ws_terms ws)"
  obtains (failed) e where "create_tab_with_runtime ws dir argv spawned tid n =
        Some (ws\<lparr>next_public_tab_number := next_public_tab_number ws + 1\<rparr>, n + 1, Inl e :: string + nat \<times> 'q terminal_state \<times> 'r)"
      and "ws_inv (ws\<lparr>next_public_tab_number := next_public_tab_number ws + 1\<rparr>)"
  | (created) ws' and terminal :: "'q terminal_state" and runtime where "create_tab_with_runtime ws dir argv spawned tid n =
        Some (ws', n + 1, Inr (length (tabs ws), terminal, runtime))" and "ws_inv ws'"
      and "set (ws_panes ws') = insert n (set (ws_panes ws))" and "set (ws_terms ws') = insert tid (set (ws_terms ws))"
      and "terminal_id terminal = tid" and "ws_id ws' = ws_id ws" and "length (tabs ws') = Suc (length (tabs ws))"
      and "tab_root_pane (tabs ws' ! length (tabs ws)) = n"
      and "public_pane_numbers ws' = hm_insert n (next_public_pane_number ws) (public_pane_numbers ws)"
      and "next_public_pane_number ws' = next_public_pane_number ws + 1"
proof -
  let ?base = "ws\<lparr>next_public_tab_number := next_public_tab_number ws + 1\<rparr>"
  have less: "next_public_tab_number ws < next_public_tab_number ws + 1" using room(2) by (simp add: word_less_succ)
  from inv have ok: "ws_ok (set (ws_panes ws)) ws" and ne: "tabs ws \<noteq> []" unfolding ws_inv_def by blast+
  have cur: "current_tab ?base \<noteq> None" using ok ne by (auto simp: current_tab_def vec_get_def ws_ok_def)
  obtain n' and r :: "string + tab \<times> 'q terminal_state \<times> 'r" where r: "tab_new_with_runtime (next_public_tab_number ws) dir argv spawned tid n = (n', r)" by fastforce
  then have n': "n' = n + 1" by (auto simp: tab_new_with_runtime_def tile_layout_new_def alloc_def)
  have tok: "tabs_ok (next_public_tab_number ws) (tabs ws)" using ok by (simp add: ws_ok_def)
  show thesis
  proof (cases r)
    case (Inl e)
    have "tabs_ok (next_public_tab_number ws + 1) (tabs ws)" using tok less by (auto simp: tabs_ok_def dest: less_trans)
    with ok ne less have "ws_inv ?base" by (auto simp: ws_inv_def ws_ok_def ws_panes_def)
    with Inl r n' cur show thesis by (intro failed [of e]) (simp_all add: create_tab_with_runtime_def Let_def)
  next
    case (Inr a)
    then obtain t terminal runtime where a: "r = Inr (t, terminal, runtime)" by (cases a) auto
    note new = tab_new_inv [OF r [unfolded a]]
    let ?reg = "register_new_pane_with_number n (next_public_pane_number ws) ?base"
    let ?ws = "?reg\<lparr>tabs := tabs ws @ [t]\<rparr>"
    have eq: "create_tab_with_runtime ws dir argv spawned tid n = Some (?ws, n + 1, Inr (length (tabs ws), terminal, runtime))"
      using cur r a n' new by (simp add: create_tab_with_runtime_def Let_def register_new_pane_with_number_def)
    have "tabs_ok (next_public_tab_number ws + 1) (tabs ws @ [t])"
    proof (rule tabs_ok_snoc [OF tok])
      show "tab_number t \<notin> tab_number ` set (tabs ws)" using tok by (auto simp: new tabs_ok_def)
      show "0 < tab_number t" "tab_number t < next_public_tab_number ws + 1" "next_public_tab_number ws \<le> next_public_tab_number ws + 1"
        using ok less by (simp_all add: new ws_ok_def)
    qed (use new(1,2,4) fresh in \<open>auto simp: mem_ws_panes mem_ws_terms\<close>)
    moreover have sets: "set (ws_panes ?ws) = insert n (set (ws_panes ws))" "set (ws_terms ?ws) = insert tid (set (ws_terms ws))"
      using new(2,4) by (auto simp: set_eq_iff mem_ws_panes mem_ws_terms)
    moreover have "ws_ok (insert n (set (ws_panes ws))) (register_new_pane_with_number n (next_public_pane_number ws) ws)"
      by (rule ws_ok_register [OF ok fresh(1) room(1)])
    ultimately have "ws_inv ?ws"
      using less unfolding ws_inv_def sets by (auto simp: ws_ok_def register_new_pane_with_number_def)
    moreover have "next_public_pane_number ws < next_public_pane_number ws + 1" using room(1) by (simp add: word_less_succ)
    ultimately show thesis
      using eq sets new by (intro created [of ?ws terminal runtime]) (simp_all add: register_new_pane_with_number_def max_def)
  qed
qed

lemma ws_split_effect:
  fixes spawned :: "string + 'r"
  assumes inv: "ws_inv ws" and room: "next_public_pane_number ws + 1 \<noteq> 0"
    and fresh: "n \<notin> set (ws_panes ws)" "tid \<notin> set (ws_terms ws)"
  obtains (missing) "ws_split_pane_with_runtime ws pid d ratio dir foc argv here spawned tid n = Some (ws, n, None :: (string + nat \<times> ('q, 'r) new_pane) option)" and "pid \<notin> set (ws_panes ws)"
  | (failed) e where "ws_split_pane_with_runtime ws pid d ratio dir foc argv here spawned tid n = Some (ws, n + 1, Some (Inl e) :: (string + nat \<times> ('q, 'r) new_pane) option)"
      and "spawned = Inl e"
  | (split) ws' tab_idx and new :: "('q, 'r) new_pane" where "ws_split_pane_with_runtime ws pid d ratio dir foc argv here spawned tid n = Some (ws', n + 1, Some (Inr (tab_idx, new)))"
      and "ws_inv ws'" and "set (ws_panes ws') = insert n (set (ws_panes ws))" and "set (ws_terms ws') = insert tid (set (ws_terms ws))"
      and "new_pane_id new = n" and "terminal_id (new_terminal new) = tid" and "ws_id ws' = ws_id ws"
      and "find_tab_index_for_pane ws pid = Some tab_idx" and "length (tabs ws') = length (tabs ws)"
      and "public_pane_numbers ws' = hm_insert n (next_public_pane_number ws) (public_pane_numbers ws)"
      and "next_public_pane_number ws' = next_public_pane_number ws + 1"
proof -
  from inv have ok: "ws_ok (set (ws_panes ws)) ws" and tok: "tabs_ok (next_public_tab_number ws) (tabs ws)" unfolding ws_inv_def ws_ok_def by blast+
  show thesis
  proof (cases "pid \<in> set (ws_panes ws)")
    case False
    with find_tab_None [OF tok, of pid] missing show thesis by (simp add: ws_split_pane_with_runtime_def)
  next
    case True
    from find_tab_decomp [OF tok True] obtain xs t ys where d: "tabs ws = xs @ t # ys"
      "find_tab_index_for_pane ws pid = Some (length xs)" "pid \<in> tab_ids t" "tab_inv t" .
    note tok' = tok [unfolded d(1)]
    have f: "n \<notin> tab_ids t" "tid \<notin> set (tab_terminals t)" using fresh by (auto simp: mem_ws_panes mem_ws_terms d(1))
    define command where "command = map_option ArgvCommand argv"
    let ?split = "tab_split_pane_with_runtime t pid foc d ratio dir command here spawned tid n :: (tab \<times> u32 \<times> (string + ('q, 'r) new_pane)) option"
    have eq: "ws_split_pane_with_runtime ws pid d ratio dir foc argv here spawned tid n =
      (case ?split of None \<Rightarrow> None | Some (t, n, result) \<Rightarrow> Some (case result of
           Inl e \<Rightarrow> (ws\<lparr>tabs := xs @ t # ys\<rparr>, n, Some (Inl e))
         | Inr new \<Rightarrow> (register_new_pane_with_number (new_pane_id new) (next_public_pane_number ws) (ws\<lparr>tabs := xs @ t # ys\<rparr>), n, Some (Inr (length xs, new)))))"
      using d(1,2) by (simp add: ws_split_pane_with_runtime_def command_def tab_split_pane_argv_def tab_split_pane_shell_def Let_def split: option.split)
    show thesis
    proof (cases rule: tab_split_cases [where 'q = 'q, OF d(4) f(1), of pid foc d ratio dir command here spawned tid])
      case 1
      with d(3) show thesis by simp
    next
      case (2 e)
      have "ws\<lparr>tabs := xs @ t # ys\<rparr> = ws" using d(1) by simp
      with 2 eq failed [of e] show thesis by simp
    next
      case (3 t' new)
      let ?ws = "register_new_pane_with_number n (next_public_pane_number ws) (ws\<lparr>tabs := xs @ t' # ys\<rparr>)"
      have "tabs_ok (next_public_tab_number ws) (xs @ t' # ys)"
      proof (rule tabs_ok_replace [OF tok' _ 3(9)])
        show "tab_inv t'" using 3(7) f(2) by simp
        fix u assume u: "u \<in> set xs \<union> set ys"
        then have "u \<in> set (tabs ws)" by (auto simp: d(1))
        with fresh have "n \<notin> tab_ids u" "tid \<notin> set (tab_terminals u)" by (auto simp: mem_ws_panes mem_ws_terms)
        with tabs_ok_disjoint [OF tok' u] show "tab_ids t' \<inter> tab_ids u = {}" "set (tab_terminals t') \<inter> set (tab_terminals u) = {}"
          unfolding 3(5,6) by auto
      qed
      moreover have sets: "set (ws_panes ?ws) = insert n (set (ws_panes ws))" "set (ws_terms ?ws) = insert tid (set (ws_terms ws))"
        using 3(5,6) by (auto simp: set_eq_iff mem_ws_panes mem_ws_terms d(1) register_new_pane_with_number_def)
      moreover have "ws_ok (insert n (set (ws_panes ws))) (register_new_pane_with_number n (next_public_pane_number ws) ws)"
        by (rule ws_ok_register [OF ok fresh(1) room])
      ultimately have "ws_inv ?ws"
        unfolding ws_inv_def sets by (auto simp: ws_ok_def register_new_pane_with_number_def d(1))
      moreover have "next_public_pane_number ws < next_public_pane_number ws + 1" using room by (simp add: word_less_succ)
      ultimately show thesis
        using eq 3 sets d by (intro split [of ?ws "length xs" new]) (simp_all add: register_new_pane_with_number_def max_def)
    qed
  qed
qed

subsection \<open>Reordering tabs\<close>

lemma mset_vec_move: "i < length xs \<Longrightarrow> mset (vec_insert j (xs ! i) (vec_remove i xs)) = mset xs"
proof -
  assume i: "i < length xs"
  have "mset (vec_insert j x ys) = add_mset x (mset ys)" for x :: 'a and ys
    by (simp add: vec_insert_def) (metis append_take_drop_id mset_append)
  moreover have "add_mset (xs ! i) (mset (vec_remove i xs)) = mset xs"
    using arg_cong [OF id_take_nth_drop [OF i], of mset] by (simp add: vec_remove_def)
  ultimately show ?thesis by simp
qed

lemma ws_roots_distinct: "tabs_ok n ts \<Longrightarrow> t \<in> set ts \<Longrightarrow> u \<in> set ts \<Longrightarrow> tab_root_pane t = tab_root_pane u \<Longrightarrow> t = u"
proof -
  assume ok: "tabs_ok n ts" and t: "t \<in> set ts" and u: "u \<in> set ts" and eq: "tab_root_pane t = tab_root_pane u"
  from split_list [OF t] obtain xs ys where ts: "ts = xs @ t # ys" by blast
  from ok t u have "tab_root_pane t \<in> tab_ids t" "tab_root_pane u \<in> tab_ids u" by (auto simp: tabs_ok_def tab_inv_def)
  with ok ts u eq show ?thesis using tabs_ok_apart(1) [of n xs t ys] by auto
qed

lemma move_tab_effect:
  assumes inv: "ws_inv ws" and moved: "move_tab source_idx insert_idx ws = (ws', b)"
  shows "ws_inv ws'" and "mset (tabs ws') = mset (tabs ws)" and "ws_id ws' = ws_id ws"
    and "current_tab ws' = current_tab ws" and "set (ws_panes ws') = set (ws_panes ws)" and "set (ws_terms ws') = set (ws_terms ws)"
    and "ws' = ws\<lparr>tabs := tabs ws', active_tab := active_tab ws'\<rparr>"
proof -
  from inv have ok: "ws_ok (set (ws_panes ws)) ws" and ne: "tabs ws \<noteq> []" unfolding ws_inv_def by blast+
  then have tok: "tabs_ok (next_public_tab_number ws) (tabs ws)" and act: "active_tab ws < length (tabs ws)" by (auto simp: ws_ok_def)
  have "ws_inv ws' \<and> mset (tabs ws') = mset (tabs ws) \<and> current_tab ws' = current_tab ws \<and> ws' = ws\<lparr>tabs := tabs ws', active_tab := active_tab ws'\<rparr>"
  proof (cases b)
    case False
    with moved have "ws' = ws" by (auto simp: move_tab_def Let_def split: if_splits)
    with inv show ?thesis by simp
  next
    case True
    let ?target = "min (if source_idx < insert_idx then insert_idx - 1 else insert_idx) (length (tabs ws) - 1)"
    let ?ts = "vec_insert ?target (tabs ws ! source_idx) (vec_remove source_idx (tabs ws))"
    let ?root = "tab_root_pane (tabs ws ! active_tab ws)"
    from moved True have src: "source_idx < length (tabs ws)"
      and ws': "ws' = ws\<lparr>tabs := ?ts, active_tab := (case position (\<lambda>t. tab_root_pane t = ?root) ?ts of Some i \<Rightarrow> i | None \<Rightarrow> ?target)\<rparr>"
      using act by (auto simp: move_tab_def Let_def vec_get_def split: if_splits)
    have ms: "mset ?ts = mset (tabs ws)" by (rule mset_vec_move [OF src])
    then have "tabs ws ! active_tab ws \<in> set ?ts" using act mset_eq_setD [OF ms] by simp
    then obtain i where i: "position (\<lambda>t. tab_root_pane t = ?root) ?ts = Some i" using position_exists [of "tabs ws ! active_tab ws" ?ts "\<lambda>t. tab_root_pane t = ?root"] by auto
    from position_Some [OF i] have i': "i < length ?ts" "tab_root_pane (?ts ! i) = ?root" by auto
    then have "?ts ! i = tabs ws ! active_tab ws"
      using act mset_eq_setD [OF ms] nth_mem [OF i'(1)] by (intro ws_roots_distinct [OF tok]) simp_all
    moreover have "tabs_ok (next_public_tab_number ws) ?ts" using tok tabs_ok_perm [OF ms] by simp
    moreover have "set (ws_panes (ws\<lparr>tabs := ?ts, active_tab := i\<rparr>)) = set (ws_panes ws)"
      using mset_eq_setD [OF ms] by (simp add: ws_panes_def)
    moreover have "?ts \<noteq> []" by (simp add: vec_insert_def)
    ultimately show ?thesis
      using ok ms i i' act by (simp add: ws' ws_inv_def ws_ok_def current_tab_def vec_get_def)
  qed
  then show "ws_inv ws'" "mset (tabs ws') = mset (tabs ws)" "current_tab ws' = current_tab ws" and frame: "ws' = ws\<lparr>tabs := tabs ws', active_tab := active_tab ws'\<rparr>" by blast+
  from \<open>mset (tabs ws') = mset (tabs ws)\<close> show "set (ws_panes ws') = set (ws_panes ws)" "set (ws_terms ws') = set (ws_terms ws)"
    by (auto simp: ws_panes_def ws_terms_def dest: mset_eq_setD)
  show "ws_id ws' = ws_id ws" using arg_cong [OF frame, of ws_id] by simp
qed

end
