(* ===== verification/App_State.thy ===== *)
theory App_State
  imports Workspace_Theorems
begin

text \<open>
  The state of the application (\<^verbatim>\<open>runtime/src/app/state.rs\<close>, \<^verbatim>\<open>runtime/src/app/actions.rs\<close>): the
  workspaces in the order of the side bar, the active and the selected one, the terminals of their panes, and
  what the application remembers of panes outside the workspaces.  The fields of the view, the settings and the
  toasts are left out; logging is left out.  \<open>None\<close> of an operation is an index out of range, a panic.
\<close>

subsection \<open>Data\<close>

datatype app_mode = Navigate | Terminal

record pane_focus_target =
  focus_workspace_id :: string
  focus_pane_id :: pane_id

record ('g, 'q, 'p, 'n) app_state =
  workspaces :: "'g workspace list"
  active :: "nat option"
  selected :: nat
  mode :: app_mode
  previous_pane_focus :: "pane_focus_target option"
  terminals :: "(string, 'q terminal_state) hmap"
  terminal_runtime_shutdowns :: "string list"
  plugin_panes :: "(pane_id, 'p) hmap"
  pane_id_aliases :: "(u32, pane_id) hmap"
  public_pane_id_aliases :: "(string, pane_id) hmap"
  pending_agent_notifications :: "(pane_id, 'n) hmap"
  session_dirty :: bool
  confirm_close :: bool

definition mark_session_dirty :: "('g, 'q, 'p, 'n, 'z) app_state_scheme \<Rightarrow> ('g, 'q, 'p, 'n, 'z) app_state_scheme" where
  "mark_session_dirty a = a\<lparr>session_dirty := True\<rparr>"

definition remove_alias_shadowed_by_new_pane ::
    "pane_id \<Rightarrow> ('g, 'q, 'p, 'n, 'z) app_state_scheme \<Rightarrow> ('g, 'q, 'p, 'n, 'z) app_state_scheme" where
  "remove_alias_shadowed_by_new_pane pid a = a\<lparr>pane_id_aliases := hm_remove pid (pane_id_aliases a)\<rparr>"

text \<open>\<open>workspaces.get_mut(idx)\<close> followed by an update.\<close>

definition update_workspace ::
    "nat \<Rightarrow> ('g workspace \<Rightarrow> 'g workspace) \<Rightarrow> ('g, 'q, 'p, 'n, 'z) app_state_scheme \<Rightarrow> ('g, 'q, 'p, 'n, 'z) app_state_scheme" where
  "update_workspace i f a =
     (if i < length (workspaces a) then a\<lparr>workspaces := (workspaces a)[i := f (workspaces a ! i)]\<rparr> else a)"

subsection \<open>Focus\<close>

definition current_pane_focus_target :: "('g, 'q, 'p, 'n, 'z) app_state_scheme \<Rightarrow> pane_focus_target option" where
  "current_pane_focus_target a =
     Option.bind (active a) (\<lambda>ws_idx.
     Option.bind (vec_get (workspaces a) ws_idx) (\<lambda>ws.
     map_option (\<lambda>pid. \<lparr>focus_workspace_id = ws_id ws, focus_pane_id = pid\<rparr>) (focused_pane_id ws)))"

definition record_pane_focus_change ::
    "pane_focus_target option \<Rightarrow> nat \<Rightarrow> pane_id \<Rightarrow> ('g, 'q, 'p, 'n, 'z) app_state_scheme \<Rightarrow>
     ('g, 'q, 'p, 'n, 'z) app_state_scheme" where
  "record_pane_focus_change previous ws_idx pid a =
     (case vec_get (workspaces a) ws_idx of
        None \<Rightarrow> a
      | Some ws \<Rightarrow>
          if previous \<noteq> Some \<lparr>focus_workspace_id = ws_id ws, focus_pane_id = pid\<rparr>
          then a\<lparr>previous_pane_focus := previous\<rparr> else a)"

definition record_pane_focus_after_navigation ::
    "pane_focus_target option \<Rightarrow> ('g, 'q, 'p, 'n, 'z) app_state_scheme \<Rightarrow> ('g, 'q, 'p, 'n, 'z) app_state_scheme" where
  "record_pane_focus_after_navigation previous a =
     (if previous \<noteq> current_pane_focus_target a then a\<lparr>previous_pane_focus := previous\<rparr> else a)"

definition switch_workspace ::
    "nat \<Rightarrow> ('g, 'q, 'p, 'n, 'z) app_state_scheme \<Rightarrow> ('g, 'q, 'p, 'n, 'z) app_state_scheme" where
  "switch_workspace idx a =
     (if idx < length (workspaces a) then
        (let previous_focus = current_pane_focus_target a;
             a = mark_session_dirty (a\<lparr>active := Some idx, selected := idx\<rparr>);
             a = update_workspace idx (\<lambda>ws. switch_tab (active_tab ws) ws) a
         in record_pane_focus_after_navigation previous_focus a)
      else a)"

definition switch_workspace_tab ::
    "nat \<Rightarrow> nat \<Rightarrow> ('g, 'q, 'p, 'n, 'z) app_state_scheme \<Rightarrow> ('g, 'q, 'p, 'n, 'z) app_state_scheme \<times> bool" where
  "switch_workspace_tab ws_idx tab_idx a =
     (case vec_get (workspaces a) ws_idx of
        None \<Rightarrow> (a, False)
      | Some ws \<Rightarrow>
          if tab_idx \<ge> length (tabs ws) then (a, False)
          else
            (let previous_focus = current_pane_focus_target a;
                 a = mark_session_dirty (a\<lparr>active := Some ws_idx, selected := ws_idx\<rparr>);
                 a = update_workspace ws_idx (switch_tab tab_idx) a
             in (record_pane_focus_after_navigation previous_focus a, True)))"

definition focus_tab_pane :: "nat \<Rightarrow> pane_id \<Rightarrow> 'g workspace \<Rightarrow> 'g workspace" where
  "focus_tab_pane tab_idx pid ws =
     ws\<lparr>tabs := (tabs ws)[tab_idx := (tabs ws ! tab_idx)\<lparr>tab_layout := focus_pane (tab_layout (tabs ws ! tab_idx)) pid\<rparr>]\<rparr>"

definition focus_pane_in_workspace ::
    "nat \<Rightarrow> pane_id \<Rightarrow> ('g, 'q, 'p, 'n, 'z) app_state_scheme \<Rightarrow> ('g, 'q, 'p, 'n, 'z) app_state_scheme \<times> bool" where
  "focus_pane_in_workspace ws_idx pid a =
     (case vec_get (workspaces a) ws_idx of
        None \<Rightarrow> (a, False)
      | Some ws \<Rightarrow>
          (case find_tab_index_for_pane ws pid of
             None \<Rightarrow> (a, False)
           | Some tab_idx \<Rightarrow>
               (let previous = current_pane_focus_target a
                in if previous = Some \<lparr>focus_workspace_id = ws_id ws, focus_pane_id = pid\<rparr> then (a, False)
                   else
                     (let a = fst (switch_workspace_tab ws_idx tab_idx a)
                      in if Option.bind (vec_get (workspaces a) ws_idx) (\<lambda>ws. vec_get (tabs ws) tab_idx) = None then (a, False)
                         else (mark_session_dirty
                                 ((update_workspace ws_idx (focus_tab_pane tab_idx pid) a)\<lparr>previous_pane_focus := previous\<rparr>),
                               True)))))"

definition pane_is_in_active_tab :: "('g, 'q, 'p, 'n, 'z) app_state_scheme \<Rightarrow> nat \<Rightarrow> pane_id \<Rightarrow> bool option" where
  "pane_is_in_active_tab a ws_idx pid =
     (case active a of
        None \<Rightarrow> Some False
      | Some active_ws_idx \<Rightarrow>
          if active_ws_idx \<noteq> ws_idx then Some False
          else map_option (\<lambda>ws. find_tab_index_for_pane ws pid = Some (active_tab ws)) (vec_get (workspaces a) ws_idx))"

definition mark_active_tab_seen ::
    "('g, 'q, 'p, 'n, 'z) app_state_scheme \<Rightarrow> ('g, 'q, 'p, 'n, 'z) app_state_scheme \<times> bool" where
  "mark_active_tab_seen a =
     (case active a of
        None \<Rightarrow> (a, False)
      | Some ws_idx \<Rightarrow>
          (case Option.bind (vec_get (workspaces a) ws_idx) current_tab of
             None \<Rightarrow> (a, False)
           | Some t \<Rightarrow>
               (update_workspace ws_idx (\<lambda>ws. ws\<lparr>tabs := (tabs ws)[active_tab ws := mark_panes_seen t]\<rparr>) a,
                \<exists>e \<in> set (tab_panes t). \<not> seen (snd e))))"

subsection \<open>The order of the workspaces\<close>

definition position_of_id :: "'g workspace list \<Rightarrow> string \<Rightarrow> nat option" where
  "position_of_id wss wid = position (\<lambda>ws. ws_id ws = wid) wss"

definition move_workspace ::
    "nat \<Rightarrow> nat \<Rightarrow> ('g, 'q, 'p, 'n, 'z) app_state_scheme \<Rightarrow> (('g, 'q, 'p, 'n, 'z) app_state_scheme \<times> bool) option" where
  "move_workspace source_idx insert_idx a =
     (let wss = workspaces a; target_idx = (if source_idx < insert_idx then insert_idx - 1 else insert_idx)
      in if source_idx \<ge> length wss \<or> insert_idx > length wss \<or> source_idx = target_idx then Some (a, False)
         else if (case active a of Some i \<Rightarrow> i \<ge> length wss | None \<Rightarrow> False) then None
         else
           (let active_id = map_option (\<lambda>i. ws_id (wss ! i)) (active a);
                selected_id = map_option ws_id (vec_get wss (selected a));
                wss = vec_insert target_idx (wss ! source_idx) (vec_remove source_idx wss)
            in Some ((mark_session_dirty a)\<lparr>workspaces := wss,
                 active := Option.bind active_id (position_of_id wss),
                 selected := (case Option.bind selected_id (position_of_id wss) of Some i \<Rightarrow> i | None \<Rightarrow> 0)\<rparr>, True)))"

definition block_order :: "string list \<Rightarrow> string list \<Rightarrow> string option \<Rightarrow> string list" where
  "block_order ids moved before =
     (let others = filter (\<lambda>wid. wid \<notin> set moved) ids;
          insert_idx = (case Option.bind before (\<lambda>wid. position (\<lambda>x. x = wid) others) of Some i \<Rightarrow> i | None \<Rightarrow> length others)
      in take insert_idx others @ moved @ drop insert_idx others)"

definition desired_position :: "string list \<Rightarrow> string \<Rightarrow> nat" where
  "desired_position desired_ids wid =
     (case hm_get (fold (\<lambda>(index, wid). hm_insert wid index) (enumerate 0 desired_ids) []) wid of
        Some index \<Rightarrow> index | None \<Rightarrow> 2 ^ 64 - 1)"

definition move_workspace_block ::
    "string list \<Rightarrow> string option \<Rightarrow> ('g, 'q, 'p, 'n, 'z) app_state_scheme \<Rightarrow>
     (('g, 'q, 'p, 'n, 'z) app_state_scheme \<times> bool) option" where
  "move_workspace_block workspace_ids before_workspace_id a =
     (let wss = workspaces a; ids = map ws_id wss; desired_ids = block_order ids workspace_ids before_workspace_id
      in if workspace_ids = [] \<or> \<not> distinct workspace_ids \<or> \<not> set workspace_ids \<subseteq> set ids
            \<or> (case before_workspace_id of Some wid \<Rightarrow> wid \<in> set workspace_ids \<or> wid \<notin> set ids | None \<Rightarrow> False)
            \<or> ids = desired_ids
         then Some (a, False)
         else if (case active a of Some i \<Rightarrow> i \<ge> length wss | None \<Rightarrow> False) then None
         else
           (let active_id = map_option (\<lambda>i. ws_id (wss ! i)) (active a);
                selected_id = map_option ws_id (vec_get wss (selected a));
                wss = sort_key (\<lambda>ws. desired_position desired_ids (ws_id ws)) wss
            in Some ((mark_session_dirty a)\<lparr>workspaces := wss,
                 active := Option.bind active_id (position_of_id wss),
                 selected := (case Option.bind selected_id (position_of_id wss) of Some i \<Rightarrow> i | None \<Rightarrow> 0)\<rparr>, True)))"

subsection \<open>Panes and terminals of a workspace\<close>

definition terminal_ids_for_workspace :: "('g, 'q, 'p, 'n, 'z) app_state_scheme \<Rightarrow> nat \<Rightarrow> string list" where
  "terminal_ids_for_workspace a ws_idx = (case vec_get (workspaces a) ws_idx of Some ws \<Rightarrow> ws_terms ws | None \<Rightarrow> [])"

definition pane_ids_for_workspace :: "('g, 'q, 'p, 'n, 'z) app_state_scheme \<Rightarrow> nat \<Rightarrow> pane_id list" where
  "pane_ids_for_workspace a ws_idx = (case vec_get (workspaces a) ws_idx of Some ws \<Rightarrow> ws_panes ws | None \<Rightarrow> [])"

definition terminal_ids_for_tab :: "('g, 'q, 'p, 'n, 'z) app_state_scheme \<Rightarrow> nat \<Rightarrow> nat \<Rightarrow> string list" where
  "terminal_ids_for_tab a ws_idx tab_idx =
     (case Option.bind (vec_get (workspaces a) ws_idx) (\<lambda>ws. vec_get (tabs ws) tab_idx) of
        Some t \<Rightarrow> tab_terminals t | None \<Rightarrow> [])"

definition pane_ids_for_tab :: "('g, 'q, 'p, 'n, 'z) app_state_scheme \<Rightarrow> nat \<Rightarrow> nat \<Rightarrow> pane_id list" where
  "pane_ids_for_tab a ws_idx tab_idx =
     (case Option.bind (vec_get (workspaces a) ws_idx) (\<lambda>ws. vec_get (tabs ws) tab_idx) of
        Some t \<Rightarrow> pane_ids (tab_layout t) | None \<Rightarrow> [])"

definition terminal_id_for_pane :: "('g, 'q, 'p, 'n, 'z) app_state_scheme \<Rightarrow> nat \<Rightarrow> pane_id \<Rightarrow> string option" where
  "terminal_id_for_pane a ws_idx pid =
     Option.bind (vec_get (workspaces a) ws_idx) (\<lambda>ws. map_option attached_terminal_id (ws_pane_state ws pid))"

definition terminal_attached :: "('g, 'q, 'p, 'n, 'z) app_state_scheme \<Rightarrow> string \<Rightarrow> bool" where
  "terminal_attached a tid \<longleftrightarrow> (\<exists>ws \<in> set (workspaces a). \<exists>t \<in> set (tabs ws). tid \<in> set (tab_terminals t))"

definition remove_unattached_terminal_id ::
    "string \<Rightarrow> ('g, 'q, 'p, 'n, 'z) app_state_scheme \<Rightarrow> ('g, 'q, 'p, 'n, 'z) app_state_scheme" where
  "remove_unattached_terminal_id tid a =
     (if \<not> terminal_attached a tid \<and> hm_contains (terminals a) tid then
        a\<lparr>terminals := hm_remove tid (terminals a),
          terminal_runtime_shutdowns :=
            (if tid \<in> set (terminal_runtime_shutdowns a) then terminal_runtime_shutdowns a
             else terminal_runtime_shutdowns a @ [tid])\<rparr>
      else a)"

definition remove_unattached_terminal_ids ::
    "string list \<Rightarrow> ('g, 'q, 'p, 'n, 'z) app_state_scheme \<Rightarrow> ('g, 'q, 'p, 'n, 'z) app_state_scheme" where
  "remove_unattached_terminal_ids tids a = fold remove_unattached_terminal_id tids a"

definition remove_plugin_pane_records ::
    "pane_id list \<Rightarrow> ('g, 'q, 'p, 'n, 'z) app_state_scheme \<Rightarrow> ('g, 'q, 'p, 'n, 'z) app_state_scheme" where
  "remove_plugin_pane_records pids a =
     (let a = (case previous_pane_focus a of
                 Some f \<Rightarrow> if focus_pane_id f \<in> set pids then a\<lparr>previous_pane_focus := None\<rparr> else a
               | None \<Rightarrow> a)
      in a\<lparr>plugin_panes := fold hm_remove pids (plugin_panes a)\<rparr>)"

subsection \<open>Closing\<close>

definition workspace_group_close_indices :: "('g, 'q, 'p, 'n, 'z) app_state_scheme \<Rightarrow> nat \<Rightarrow> nat list" where
  "workspace_group_close_indices a ws_idx =
     (case Option.bind (vec_get (workspaces a) ws_idx) worktree_space of
        None \<Rightarrow> [ws_idx]
      | Some space \<Rightarrow>
          if wsm_is_linked_worktree space then [ws_idx]
          else
            (let indices = filter (\<lambda>i. case worktree_space (workspaces a ! i) of
                                         Some member \<Rightarrow> wsm_key member = wsm_key space | None \<Rightarrow> False)
                             [0..<length (workspaces a)]
             in if length indices \<ge> 2 then indices else [ws_idx]))"

definition workspace_close_indices :: "('g, 'q, 'p, 'n, 'z) app_state_scheme \<Rightarrow> nat \<Rightarrow> nat list" where
  "workspace_close_indices a ws_idx =
     (let group = workspace_group_close_indices a ws_idx
      in if (\<exists>i \<in> set group. i \<noteq> ws_idx \<and>
               (case worktree_space (workspaces a ! i) of Some space \<Rightarrow> \<not> wsm_is_linked_worktree space | None \<Rightarrow> False))
         then [ws_idx] else group)"

definition confirm_implicit_worktree_group_close :: "('g, 'q, 'p, 'n, 'z) app_state_scheme \<Rightarrow> nat \<Rightarrow> bool" where
  "confirm_implicit_worktree_group_close a ws_idx \<longleftrightarrow> confirm_close a \<and> length (workspace_close_indices a ws_idx) \<ge> 2"

definition close_pane_would_close_workspace :: "('g, 'q, 'p, 'n, 'z) app_state_scheme \<Rightarrow> nat \<Rightarrow> pane_id \<Rightarrow> bool" where
  "close_pane_would_close_workspace a ws_idx pid \<longleftrightarrow>
     (case vec_get (workspaces a) ws_idx of
        None \<Rightarrow> False
      | Some ws \<Rightarrow>
          (case find_tab_index_for_pane ws pid of
             None \<Rightarrow> False
           | Some tab_idx \<Rightarrow> pane_count (tab_layout (tabs ws ! tab_idx)) \<le> 1 \<and> length (tabs ws) \<le> 1))"

fun remove_each :: "nat list \<Rightarrow> 'a list \<Rightarrow> 'a list option" where
  "remove_each [] xs = Some xs"
| "remove_each (i # is) xs = (if i < length xs then remove_each is (vec_remove i xs) else None)"

definition focus_after_close ::
    "string option \<Rightarrow> ('g, 'q, 'p, 'n, 'z) app_state_scheme \<Rightarrow> ('g, 'q, 'p, 'n, 'z) app_state_scheme" where
  "focus_after_close active_workspace_id a =
     (if workspaces a = [] then a\<lparr>active := None, selected := 0\<rparr>
      else
        (let chosen = (case Option.bind active_workspace_id (position_of_id (workspaces a)) of
                         Some i \<Rightarrow> i | None \<Rightarrow> selected a);
             chosen = min chosen (length (workspaces a) - 1)
         in a\<lparr>selected := chosen, active := Some chosen\<rparr>))"

definition close_workspaces ::
    "nat list \<Rightarrow> ('g, 'q, 'p, 'n, 'z) app_state_scheme \<Rightarrow> ('g, 'q, 'p, 'n, 'z) app_state_scheme option" where
  "close_workspaces close_indices a =
     (if workspaces a = [] then Some a
      else
        (let a = mark_session_dirty a;
             terminal_ids = concat (map (terminal_ids_for_workspace a) close_indices);
             pids = concat (map (pane_ids_for_workspace a) close_indices);
             active_workspace_id = map_option ws_id (Option.bind (active a) (vec_get (workspaces a)));
             a = remove_plugin_pane_records pids a
         in case remove_each (rev close_indices) (workspaces a) of
              None \<Rightarrow> None
            | Some wss \<Rightarrow>
                Some (focus_after_close active_workspace_id (remove_unattached_terminal_ids terminal_ids (a\<lparr>workspaces := wss\<rparr>)))))"

definition close_selected_workspace ::
    "('g, 'q, 'p, 'n, 'z) app_state_scheme \<Rightarrow> ('g, 'q, 'p, 'n, 'z) app_state_scheme option" where
  "close_selected_workspace a = close_workspaces (workspace_close_indices a (selected a)) a"

subsection \<open>Zoom\<close>

datatype pane_zoom_command = ZoomToggle | ZoomOn | ZoomOff
datatype pane_zoom_noop_reason = SinglePane | AlreadyZoomed | AlreadyUnzoomed

record pane_zoom_outcome =
  zoom_changed :: bool
  zoom_focus_changed :: bool
  zoom_reason :: "pane_zoom_noop_reason option"
  zoom_zoomed :: bool

definition set_tab_zoomed :: "nat \<Rightarrow> bool \<Rightarrow> 'g workspace \<Rightarrow> 'g workspace" where
  "set_tab_zoomed tab_idx z ws = ws\<lparr>tabs := (tabs ws)[tab_idx := (tabs ws ! tab_idx)\<lparr>tab_zoomed := z\<rparr>]\<rparr>"

definition zoom_noop_reason :: "pane_zoom_command \<Rightarrow> bool \<Rightarrow> pane_zoom_noop_reason option" where
  "zoom_noop_reason command zoomed =
     (case (command, zoomed) of
        (ZoomOn, True) \<Rightarrow> Some AlreadyZoomed | (ZoomOff, False) \<Rightarrow> Some AlreadyUnzoomed | _ \<Rightarrow> None)"

definition apply_pane_zoom ::
    "nat \<Rightarrow> pane_id \<Rightarrow> pane_zoom_command \<Rightarrow> ('g, 'q, 'p, 'n, 'z) app_state_scheme \<Rightarrow>
     ('g, 'q, 'p, 'n, 'z) app_state_scheme \<times> pane_zoom_outcome option" where
  "apply_pane_zoom ws_idx pid command a =
     (case Option.bind (vec_get (workspaces a) ws_idx) (\<lambda>ws. find_tab_index_for_pane ws pid) of
        None \<Rightarrow> (a, None)
      | Some tab_idx \<Rightarrow>
          (case focus_pane_in_workspace ws_idx pid a of
             (a, focus_changed) \<Rightarrow>
               (case Option.bind (vec_get (workspaces a) ws_idx) (\<lambda>ws. vec_get (tabs ws) tab_idx) of
                  None \<Rightarrow> (a, None)
                | Some t \<Rightarrow>
                    if pane_count (tab_layout t) \<le> 1 then
                      (a, Some \<lparr>zoom_changed = False, zoom_focus_changed = focus_changed, zoom_reason = Some SinglePane,
                                zoom_zoomed = tab_zoomed t\<rparr>)
                    else if zoom_noop_reason command (tab_zoomed t) \<noteq> None then
                      (a, Some \<lparr>zoom_changed = False, zoom_focus_changed = focus_changed,
                                zoom_reason = zoom_noop_reason command (tab_zoomed t), zoom_zoomed = tab_zoomed t\<rparr>)
                    else
                      (let desired = (case command of ZoomToggle \<Rightarrow> \<not> tab_zoomed t | ZoomOn \<Rightarrow> True | ZoomOff \<Rightarrow> False)
                       in (mark_session_dirty (update_workspace ws_idx (set_tab_zoomed tab_idx desired) a),
                           Some \<lparr>zoom_changed = True, zoom_focus_changed = focus_changed, zoom_reason = None,
                                 zoom_zoomed = desired\<rparr>)))))"

subsection \<open>A pane whose process ended\<close>

definition active_after_death :: "string option \<Rightarrow> string option \<Rightarrow> ('g, 'q, 'p, 'n, 'z) app_state_scheme \<Rightarrow> ('g, 'q, 'p, 'n, 'z) app_state_scheme" where
  "active_after_death active_workspace_id selected_workspace_id a =
     (if workspaces a = [] then
        a\<lparr>active := None, selected := 0, mode := (if mode a = Terminal then Navigate else mode a)\<rparr>
      else
        (let len = length (workspaces a);
             active' = (case Option.bind active_workspace_id (position_of_id (workspaces a)) of
                          Some i \<Rightarrow> Some i | None \<Rightarrow> active a);
             selected' = (case Option.bind selected_workspace_id (position_of_id (workspaces a)) of
                            Some i \<Rightarrow> i | None \<Rightarrow> selected a)
         in a\<lparr>active := map_option (\<lambda>i. if i \<ge> len then len - 1 else i) active',
              selected := (if selected' \<ge> len then len - 1 else selected')\<rparr>))"

definition handle_pane_died ::
    "pane_id \<Rightarrow> ('g, 'q, 'p, 'n, 'z) app_state_scheme \<Rightarrow> ('g, 'q, 'p, 'n, 'z) app_state_scheme option" where
  "handle_pane_died pid a =
     (let a = remove_plugin_pane_records [pid]
                (a\<lparr>pending_agent_notifications := hm_remove pid (pending_agent_notifications a)\<rparr>)
      in case position (\<lambda>ws. find_tab_index_for_pane ws pid \<noteq> None) (workspaces a) of
           None \<Rightarrow> Some a
         | Some ws_idx \<Rightarrow>
             (let pane_terminal_id = terminal_id_for_pane a ws_idx pid;
                  workspace_terminal_ids = terminal_ids_for_workspace a ws_idx;
                  a = a\<lparr>pane_id_aliases := hm_retain (\<lambda>_ alias. alias \<noteq> pid) (pane_id_aliases a),
                        public_pane_id_aliases := hm_retain (\<lambda>_ alias. alias \<noteq> pid) (public_pane_id_aliases a)\<rparr>
              in case ws_remove_pane pid (workspaces a ! ws_idx) of
                   None \<Rightarrow> None
                 | Some (ws, should_close_workspace) \<Rightarrow>
                     (let a = mark_session_dirty (a\<lparr>workspaces := (workspaces a)[ws_idx := ws]\<rparr>)
                      in if should_close_workspace then
                           (let active_workspace_id = map_option ws_id (Option.bind (active a) (vec_get (workspaces a)));
                                selected_workspace_id = map_option ws_id (vec_get (workspaces a) (selected a));
                                a = a\<lparr>workspaces := vec_remove ws_idx (workspaces a)\<rparr>
                            in Some (active_after_death active_workspace_id selected_workspace_id
                                 (remove_unattached_terminal_ids workspace_terminal_ids a)))
                         else
                           Some (remove_unattached_terminal_ids
                             (case pane_terminal_id of Some tid \<Rightarrow> [tid] | None \<Rightarrow> []) a))))"

end
