(* ===== verification/App_Ids.thy ===== *)
theory App_Ids
  imports App_State
begin

text \<open>
  How requests name workspaces, tabs and panes (\<^verbatim>\<open>runtime/src/app/ids.rs\<close>): public ids, the older forms
  they may still have, and the aliases kept for panes that were restored or moved.
\<close>

subsection \<open>Parsing text\<close>

text \<open>\<open>str::rsplit_once\<close> at the last occurrence of a non-empty delimiter.\<close>

fun rsplit_once :: "string \<Rightarrow> string \<Rightarrow> (string \<times> string) option" where
  "rsplit_once d [] = None"
| "rsplit_once d (c # s) =
     (case rsplit_once d s of
        Some (a, b) \<Rightarrow> Some (c # a, b)
      | None \<Rightarrow> map_option (\<lambda>rest. ([], rest)) (strip_prefix d (c # s)))"

definition checked_pred :: "nat \<Rightarrow> nat option" where
  "checked_pred n = (if n = 0 then None else Some (n - 1))"

definition parse_index :: "string \<Rightarrow> nat option" where
  "parse_index s = Option.bind (parse_unsigned (2 ^ 64) s) checked_pred"

subsection \<open>Public ids\<close>

fun find_pane_from :: "nat \<Rightarrow> 'g workspace list \<Rightarrow> pane_id \<Rightarrow> (nat \<times> pane_state) option" where
  "find_pane_from i [] pid = None"
| "find_pane_from i (ws # wss) pid =
     (case ws_pane_state ws pid of Some pane \<Rightarrow> Some (i, pane) | None \<Rightarrow> find_pane_from (Suc i) wss pid)"

definition find_pane :: "('g, 'q, 'p, 'n, 'z) app_state_scheme \<Rightarrow> pane_id \<Rightarrow> (nat \<times> pane_state) option" where
  "find_pane a pid = find_pane_from 0 (workspaces a) pid"

definition public_workspace_id :: "('g, 'q, 'p, 'n, 'z) app_state_scheme \<Rightarrow> nat \<Rightarrow> string option" where
  "public_workspace_id a ws_idx = map_option ws_id (vec_get (workspaces a) ws_idx)"

definition public_tab_id :: "('g, 'q, 'p, 'n, 'z) app_state_scheme \<Rightarrow> nat \<Rightarrow> nat \<Rightarrow> string option" where
  "public_tab_id a ws_idx tab_idx =
     Option.bind (vec_get (workspaces a) ws_idx) (\<lambda>ws.
       map_option (\<lambda>n. public_tab_id_for_number (ws_id ws) (unat n)) (public_tab_number ws tab_idx))"

definition public_pane_id :: "('g, 'q, 'p, 'n, 'z) app_state_scheme \<Rightarrow> nat \<Rightarrow> pane_id \<Rightarrow> string option" where
  "public_pane_id a ws_idx pid =
     Option.bind (vec_get (workspaces a) ws_idx) (\<lambda>ws.
       map_option (\<lambda>n. public_pane_id_for_number (ws_id ws) (unat n)) (public_pane_number ws pid))"

subsection \<open>Ids of requests\<close>

definition parse_workspace_id :: "('g, 'q, 'p, 'n, 'z) app_state_scheme \<Rightarrow> string \<Rightarrow> nat option" where
  "parse_workspace_id a wid =
     or_else (position_of_id (workspaces a) wid)
       (or_else (Option.bind (strip_prefix ''w_'' wid) parse_index) (parse_index wid))"

definition tab_in_range :: "('g, 'q, 'p, 'n, 'z) app_state_scheme \<Rightarrow> nat \<Rightarrow> nat \<Rightarrow> (nat \<times> nat) option" where
  "tab_in_range a ws_idx tab_idx =
     Option.bind (vec_get (workspaces a) ws_idx) (\<lambda>ws. map_option (\<lambda>_. (ws_idx, tab_idx)) (vec_get (tabs ws) tab_idx))"

definition parse_tab_id :: "('g, 'q, 'p, 'n, 'z) app_state_scheme \<Rightarrow> string \<Rightarrow> (nat \<times> nat) option" where
  "parse_tab_id a tid =
     (case strip_prefix ''t_'' tid of
        Some rest \<Rightarrow>
          Option.bind (rsplit_once ''_'' rest) (\<lambda>(ws_raw, tab_raw).
          Option.bind (parse_workspace_id a ws_raw) (\<lambda>ws_idx.
          Option.bind (parse_index tab_raw) (\<lambda>tab_idx. tab_in_range a ws_idx tab_idx)))
      | None \<Rightarrow>
          Option.bind (rsplit_once '':'' tid) (\<lambda>(ws_raw, tab_raw).
          Option.bind (parse_workspace_id a ws_raw) (\<lambda>ws_idx.
          Option.bind
            (case strip_prefix ''t'' tab_raw of
               Some encoded \<Rightarrow>
                 Option.bind (decode_public_number encoded) (\<lambda>n.
                 Option.bind (vec_get (workspaces a) ws_idx) (\<lambda>ws. position (\<lambda>t. unat (tab_number t) = n) (tabs ws)))
             | None \<Rightarrow> parse_index tab_raw)
            (\<lambda>tab_idx. tab_in_range a ws_idx tab_idx))))"

definition resolve_raw_pane_id :: "('g, 'q, 'p, 'n, 'z) app_state_scheme \<Rightarrow> u32 \<Rightarrow> pane_id option" where
  "resolve_raw_pane_id a raw =
     (case hm_get (pane_id_aliases a) raw of
        Some alias \<Rightarrow> map_option (\<lambda>_. alias) (find_pane a alias)
      | None \<Rightarrow> map_option (\<lambda>_. raw) (find_pane a raw))"

definition parse_raw_pane :: "('g, 'q, 'p, 'n, 'z) app_state_scheme \<Rightarrow> string \<Rightarrow> pane_id option" where
  "parse_raw_pane a s = Option.bind (parse_unsigned (2 ^ 32) s) (\<lambda>raw. resolve_raw_pane_id a (of_nat raw))"

definition pane_with_number :: "('g, 'q, 'p, 'n, 'z) app_state_scheme \<Rightarrow> nat \<Rightarrow> nat \<Rightarrow> (nat \<times> pane_id) option" where
  "pane_with_number a ws_idx n =
     Option.bind (vec_get (workspaces a) ws_idx) (\<lambda>ws.
       map_option (\<lambda>e. (ws_idx, fst e)) (List.find (\<lambda>e. unat (snd e) = n) (public_pane_numbers ws)))"

definition parse_pane_id :: "('g, 'q, 'p, 'n, 'z) app_state_scheme \<Rightarrow> string \<Rightarrow> (nat \<times> pane_id) option" where
  "parse_pane_id a pid =
     (case hm_get (public_pane_id_aliases a) pid of
        Some alias \<Rightarrow> map_option (\<lambda>(ws_idx, _). (ws_idx, alias)) (find_pane a alias)
      | None \<Rightarrow>
          (case strip_prefix ''p_'' pid of
             Some rest \<Rightarrow>
               (case rsplit_once ''_'' rest of
                  Some (ws_raw, pane_raw) \<Rightarrow>
                    Option.bind (parse_workspace_id a ws_raw) (\<lambda>ws_idx.
                    Option.bind (parse_raw_pane a pane_raw) (\<lambda>p.
                    Option.bind (vec_get (workspaces a) ws_idx) (\<lambda>ws. map_option (\<lambda>_. (ws_idx, p)) (ws_pane_state ws p))))
                | None \<Rightarrow>
                    Option.bind (parse_raw_pane a rest) (\<lambda>p. map_option (\<lambda>(ws_idx, _). (ws_idx, p)) (find_pane a p)))
           | None \<Rightarrow>
               (case rsplit_once '':p'' pid of
                  Some (ws_raw, number_raw) \<Rightarrow>
                    Option.bind (parse_workspace_id a ws_raw) (\<lambda>ws_idx.
                    Option.bind (decode_public_number number_raw) (\<lambda>n. pane_with_number a ws_idx n))
                | None \<Rightarrow>
                    Option.bind (rsplit_once ''-'' pid) (\<lambda>(ws_raw, number_raw).
                    Option.bind (parse_workspace_id a ws_raw) (\<lambda>ws_idx.
                    Option.bind (parse_unsigned (2 ^ 64) number_raw) (\<lambda>n. pane_with_number a ws_idx n))))))"

definition parse_current_public_pane_id ::
    "('g, 'q, 'p, 'n, 'z) app_state_scheme \<Rightarrow> string \<Rightarrow> (nat \<times> pane_id) option" where
  "parse_current_public_pane_id a pid =
     Option.bind (parse_pane_id a pid) (\<lambda>(ws_idx, p).
       if public_pane_id a ws_idx p = Some pid then Some (ws_idx, p) else None)"

definition resolve_optional_pane :: "('g, 'q, 'p, 'n, 'z) app_state_scheme \<Rightarrow> string option \<Rightarrow> (nat \<times> pane_id) option" where
  "resolve_optional_pane a pid =
     (case pid of
        Some pid \<Rightarrow> parse_pane_id a pid
      | None \<Rightarrow>
          Option.bind (active a) (\<lambda>ws_idx.
          Option.bind (vec_get (workspaces a) ws_idx) (\<lambda>ws. map_option (\<lambda>p. (ws_idx, p)) (focused_pane_id ws))))"

end
