(* ===== verification/App_Info.thy ===== *)
theory App_Info
  imports App_Ids "HOL-Library.List_Lexorder" "HOL-Library.Char_ord"
begin

text \<open>
  The application around its state, and what it reports of workspaces, tabs and panes
  (\<^verbatim>\<open>runtime/src/app/creation.rs\<close>, \<^verbatim>\<open>runtime/src/app/api_helpers.rs\<close>, \<^verbatim>\<open>runtime/src/workspace/aggregate.rs\<close>).

  Of the infos that responses and events carry the model has the ids, numbers, focus and agent status; labels,
  titles, paths and rectangles are left out.  Events are kept in the order of emission; the hooks of plugins are
  left out.  What the system answers while a request runs is a record of \<open>effects\<close>: whether a process could be
  started, a new terminal id, the clock, the directories, the expansion of a configured path, the git repository.
\<close>

subsection \<open>Data\<close>

datatype agent_status = StatusIdle | StatusWorking | StatusBlocked | StatusDone | StatusUnknown

record api_pane_info =
  pi_pane_id :: string
  pi_terminal_id :: string
  pi_workspace_id :: string
  pi_tab_id :: string
  pi_focused :: bool
  pi_agent_status :: agent_status
  pi_revision :: u64

record tab_info =
  ti_tab_id :: string
  ti_workspace_id :: string
  ti_number :: usize
  ti_focused :: bool
  ti_pane_count :: nat
  ti_agent_status :: agent_status

record workspace_info =
  wi_workspace_id :: string
  wi_number :: nat
  wi_focused :: bool
  wi_pane_count :: nat
  wi_tab_count :: nat
  wi_active_tab_id :: string
  wi_agent_status :: agent_status

record pane_layout_snapshot =
  pls_workspace_id :: string
  pls_tab_id :: string
  pls_zoomed :: bool
  pls_focused_pane_id :: string
  pls_panes :: "string list"

datatype pane_move_reason = SameTab | ZoomedTab

record pane_move_result =
  pmr_changed :: bool
  pmr_reason :: "pane_move_reason option"
  pmr_previous_pane_id :: string
  pmr_previous_workspace_id :: string
  pmr_previous_tab_id :: string
  pmr_pane :: api_pane_info
  pmr_source_layout :: "pane_layout_snapshot option"
  pmr_target_layout :: pane_layout_snapshot
  pmr_created_workspace :: "workspace_info option"
  pmr_created_tab :: "tab_info option"
  pmr_closed_workspace_id :: "string option"
  pmr_closed_tab_id :: "string option"

datatype app_event =
    TabClosed string string
  | WorkspaceClosed string "workspace_info option"
  | WorkspaceCreated workspace_info
  | TabCreated tab_info
  | PaneCreated api_pane_info
  | PaneClosed string string
  | PaneMoved pane_move_result
  | LayoutUpdated pane_layout_snapshot
  | TabRenamed string string string
  | TabMoved string string nat
  | WorkspaceRenamed string string
  | WorkspaceMoved string nat
  | WorkspaceReordered "string list" "string option"

datatype api_result =
    ResultOk
  | ResultWorkspaceInfo workspace_info
  | ResultWorkspaceList "workspace_info list"
  | ResultWorkspaceCreated workspace_info tab_info api_pane_info
  | ResultTabInfo tab_info
  | ResultTabList "tab_info list"
  | ResultTabCreated tab_info api_pane_info
  | ResultPaneInfo api_pane_info
  | ResultPaneMove pane_move_result
  | ResultPaneZoom pane_zoom_outcome pane_layout_snapshot

record ('g, 'q, 'p, 'n, 'r) app = "('g, 'q, 'p, 'n) app_state" +
  terminal_runtimes :: "(string, 'r) hmap"
  pending_restored_worktree_spaces :: "(string \<times> worktree_space_membership) list"
  persist_session :: bool
  pane_exit_checkpoint_pending :: bool
  session_save_deadline :: "instant option"
  emitted :: "app_event list"
  next_pane_id :: u32
  next_workspace_id :: u64

datatype new_terminal_cwd_config = CwdFollow | CwdHome | CwdCurrent | CwdPath string

record ('g, 'r) effects =
  eff_spawned :: "string + 'r"
  eff_terminal_id :: string
  eff_now :: instant
  eff_home :: "string option"
  eff_current_dir :: "string option"
  eff_runtime_cwd :: "'r \<Rightarrow> string option"
  eff_follow_cwd :: "'r \<Rightarrow> string option"
  eff_cwd_policy :: new_terminal_cwd_config
  eff_expand_path :: "string \<Rightarrow> string"
  eff_git :: "string \<Rightarrow> 'g git_reading"

definition emit_event :: "app_event \<Rightarrow> ('g, 'q, 'p, 'n, 'r) app \<Rightarrow> ('g, 'q, 'p, 'n, 'r) app" where
  "emit_event e a = a\<lparr>emitted := emitted a @ [e]\<rparr>"

definition SESSION_SAVE_DEBOUNCE :: duration where
  "SESSION_SAVE_DEBOUNCE = 5000000000"

definition schedule_session_save :: "instant \<Rightarrow> ('g, 'q, 'p, 'n, 'r) app \<Rightarrow> ('g, 'q, 'p, 'n, 'r) app" where
  "schedule_session_save now a =
     (if persist_session a
      then a\<lparr>pane_exit_checkpoint_pending := False, session_save_deadline := Some (now + SESSION_SAVE_DEBOUNCE)\<rparr> else a)"

definition shutdown_detached_terminal_runtimes :: "('g, 'q, 'p, 'n, 'r) app \<Rightarrow> ('g, 'q, 'p, 'n, 'r) app" where
  "shutdown_detached_terminal_runtimes a =
     a\<lparr>terminal_runtimes := fold hm_remove (terminal_runtime_shutdowns a) (terminal_runtimes a),
       terminal_runtime_shutdowns := []\<rparr>"

subsection \<open>Infos\<close>

definition pane_agent_status :: "agent_state \<Rightarrow> bool \<Rightarrow> agent_status" where
  "pane_agent_status s was_seen =
     (case s of
        Idle \<Rightarrow> if was_seen then StatusIdle else StatusDone
      | Working \<Rightarrow> StatusWorking | Blocked \<Rightarrow> StatusBlocked | Unknown \<Rightarrow> StatusUnknown)"

definition pane_attention_priority :: "agent_state \<Rightarrow> bool \<Rightarrow> nat" where
  "pane_attention_priority s was_seen =
     (case s of Blocked \<Rightarrow> 4 | Idle \<Rightarrow> if was_seen then 1 else 3 | Working \<Rightarrow> 2 | Unknown \<Rightarrow> 0)"

definition tab_attention_priority :: "agent_state \<Rightarrow> bool \<Rightarrow> nat" where
  "tab_attention_priority s was_seen =
     (case s of Blocked \<Rightarrow> 4 | Idle \<Rightarrow> if was_seen then 1 else 3 | Working \<Rightarrow> 2 | Unknown \<Rightarrow> 0)"

text \<open>\<open>Iterator::max_by_key\<close> returns the last of several greatest elements.\<close>

fun max_by_key :: "('a \<Rightarrow> nat) \<Rightarrow> 'a list \<Rightarrow> 'a option" where
  "max_by_key k [] = None"
| "max_by_key k (x # xs) =
     (case max_by_key k xs of None \<Rightarrow> Some x | Some y \<Rightarrow> if k x \<le> k y then Some y else Some x)"

definition pane_readings :: "(string, 'q terminal_state) hmap \<Rightarrow> pane_state list \<Rightarrow> (agent_state \<times> bool) list" where
  "pane_readings terms ps =
     List.map_filter (\<lambda>p. map_option (\<lambda>t. (state t, seen p)) (hm_get terms (attached_terminal_id p))) ps"

definition most_urgent :: "(agent_state \<Rightarrow> bool \<Rightarrow> nat) \<Rightarrow> (agent_state \<times> bool) list \<Rightarrow> agent_state \<times> bool" where
  "most_urgent priority rs = (case max_by_key (\<lambda>(s, b). priority s b) rs of Some r \<Rightarrow> r | None \<Rightarrow> (Unknown, True))"

definition aggregate_state :: "(string, 'q terminal_state) hmap \<Rightarrow> 'g workspace \<Rightarrow> agent_state \<times> bool" where
  "aggregate_state terms ws =
     most_urgent pane_attention_priority (pane_readings terms (concat (map (\<lambda>t. map snd (tab_panes t)) (tabs ws))))"

definition pane_info_of :: "('g, 'q, 'p, 'n, 'r) app \<Rightarrow> nat \<Rightarrow> pane_id \<Rightarrow> api_pane_info option" where
  "pane_info_of a ws_idx pid =
     Option.bind (vec_get (workspaces a) ws_idx) (\<lambda>ws.
     Option.bind (ws_pane_state ws pid) (\<lambda>pane.
     Option.bind (hm_get (terminals a) (attached_terminal_id pane)) (\<lambda>terminal.
     Option.bind (find_tab_index_for_pane ws pid) (\<lambda>tab_idx.
     Option.bind (public_pane_id a ws_idx pid) (\<lambda>public_id.
     map_option (\<lambda>tab_id.
       \<lparr>pi_pane_id = public_id, pi_terminal_id = terminal_id terminal, pi_workspace_id = ws_id ws, pi_tab_id = tab_id,
        pi_focused = (active a = Some ws_idx \<and> active_tab ws = tab_idx \<and> focused_pane_id ws = Some pid),
        pi_agent_status = pane_agent_status (state terminal) (seen pane), pi_revision = revision terminal\<rparr>)
       (public_tab_id a ws_idx tab_idx))))))"

definition tab_info_of :: "('g, 'q, 'p, 'n, 'r) app \<Rightarrow> nat \<Rightarrow> nat \<Rightarrow> tab_info option" where
  "tab_info_of a ws_idx tab_idx =
     Option.bind (vec_get (workspaces a) ws_idx) (\<lambda>ws.
     Option.bind (vec_get (tabs ws) tab_idx) (\<lambda>t.
     map_option (\<lambda>tab_id.
       \<lparr>ti_tab_id = tab_id, ti_workspace_id = ws_id ws, ti_number = tab_number t,
        ti_focused = (active a = Some ws_idx \<and> active_tab ws = tab_idx), ti_pane_count = length (tab_panes t),
        ti_agent_status = case_prod pane_agent_status (most_urgent tab_attention_priority (pane_readings (terminals a) (map snd (tab_panes t))))\<rparr>)
       (public_tab_id a ws_idx tab_idx)))"

definition workspace_info_of :: "('g, 'q, 'p, 'n, 'r) app \<Rightarrow> nat \<Rightarrow> workspace_info option" where
  "workspace_info_of a i =
     map_option (\<lambda>ws.
       \<lparr>wi_workspace_id = ws_id ws, wi_number = i + 1, wi_focused = (active a = Some i),
        wi_pane_count = length (public_pane_numbers ws), wi_tab_count = length (tabs ws),
        wi_active_tab_id = (case public_tab_id a i (active_tab ws) of
                              Some tab_id \<Rightarrow> tab_id | None \<Rightarrow> public_tab_id_for_number (ws_id ws) (active_tab ws + 1)),
        wi_agent_status = case_prod pane_agent_status (aggregate_state (terminals a) ws)\<rparr>)
       (vec_get (workspaces a) i)"

definition workspace_list_info :: "('g, 'q, 'p, 'n, 'r) app \<Rightarrow> workspace_info list" where
  "workspace_list_info a = List.map_filter (workspace_info_of a) [0..<length (workspaces a)]"

definition tab_list_info :: "('g, 'q, 'p, 'n, 'r) app \<Rightarrow> nat \<Rightarrow> tab_info list" where
  "tab_list_info a ws_idx =
     (case vec_get (workspaces a) ws_idx of
        None \<Rightarrow> [] | Some ws \<Rightarrow> List.map_filter (tab_info_of a ws_idx) [0..<length (tabs ws)])"

definition root_pane_info :: "('g, 'q, 'p, 'n, 'r) app \<Rightarrow> nat \<Rightarrow> nat \<Rightarrow> api_pane_info option" where
  "root_pane_info a ws_idx tab_idx =
     Option.bind (vec_get (workspaces a) ws_idx) (\<lambda>ws.
     Option.bind (vec_get (tabs ws) tab_idx) (\<lambda>t. pane_info_of a ws_idx (tab_root_pane t)))"

definition layout_snapshot :: "('g, 'q, 'p, 'n, 'r) app \<Rightarrow> nat \<Rightarrow> nat \<Rightarrow> pane_layout_snapshot option" where
  "layout_snapshot a ws_idx tab_idx =
     Option.bind (vec_get (workspaces a) ws_idx) (\<lambda>ws.
     Option.bind (vec_get (tabs ws) tab_idx) (\<lambda>t.
     Option.bind (public_pane_id a ws_idx (focused (tab_layout t))) (\<lambda>focused_id.
     map_option (\<lambda>tab_id.
       \<lparr>pls_workspace_id = ws_id ws, pls_tab_id = tab_id, pls_zoomed = tab_zoomed t, pls_focused_pane_id = focused_id,
        pls_panes = List.map_filter (public_pane_id a ws_idx) (pane_ids (tab_layout t))\<rparr>)
       (public_tab_id a ws_idx tab_idx))))"

definition emit_layout_updated_event :: "nat \<Rightarrow> nat \<Rightarrow> ('g, 'q, 'p, 'n, 'r) app \<Rightarrow> ('g, 'q, 'p, 'n, 'r) app" where
  "emit_layout_updated_event ws_idx tab_idx a =
     (case layout_snapshot a ws_idx tab_idx of Some layout \<Rightarrow> emit_event (LayoutUpdated layout) a | None \<Rightarrow> a)"

definition emit_tab_created_events :: "nat \<Rightarrow> nat \<Rightarrow> ('g, 'q, 'p, 'n, 'r) app \<Rightarrow> ('g, 'q, 'p, 'n, 'r) app" where
  "emit_tab_created_events ws_idx tab_idx a =
     (case (tab_info_of a ws_idx tab_idx, root_pane_info a ws_idx tab_idx) of
        (Some tab, Some root_pane) \<Rightarrow>
          emit_layout_updated_event ws_idx tab_idx (emit_event (PaneCreated root_pane) (emit_event (TabCreated tab) a))
      | _ \<Rightarrow> a)"

definition emit_workspace_open_events ::
    "nat \<Rightarrow> ('g, 'q, 'p, 'n, 'r) app \<Rightarrow> ('g, 'q, 'p, 'n, 'r) app option" where
  "emit_workspace_open_events ws_idx a =
     map_option (\<lambda>info.
       (case (tab_info_of a ws_idx 0, root_pane_info a ws_idx 0) of
          (Some tab, Some root_pane) \<Rightarrow>
            emit_layout_updated_event ws_idx 0
              (emit_event (PaneCreated root_pane) (emit_event (TabCreated tab) (emit_event (WorkspaceCreated info) a)))
        | _ \<Rightarrow> a))
       (workspace_info_of a ws_idx)"

definition layout_update_target_after_pane_removal ::
    "('g, 'q, 'p, 'n, 'r) app \<Rightarrow> nat \<Rightarrow> pane_id \<Rightarrow> (nat \<times> nat) option" where
  "layout_update_target_after_pane_removal a ws_idx pid =
     Option.bind (vec_get (workspaces a) ws_idx) (\<lambda>ws.
     Option.bind (find_tab_index_for_pane ws pid) (\<lambda>tab_idx.
     Option.bind (vec_get (tabs ws) tab_idx) (\<lambda>t. if pane_count (tab_layout t) > 1 then Some (ws_idx, tab_idx) else None)))"

subsection \<open>Directories and environments of new processes\<close>

definition resolve_new_terminal_cwd :: "('g, 'r) effects \<Rightarrow> string option \<Rightarrow> string" where
  "resolve_new_terminal_cwd eff follow_cwd =
     (let or_root = (\<lambda>d. case d of Some dir \<Rightarrow> dir | None \<Rightarrow> ''/'')
      in case eff_cwd_policy eff of
           CwdFollow \<Rightarrow> or_root (or_else follow_cwd (or_else (eff_home eff) (eff_current_dir eff)))
         | CwdHome \<Rightarrow> or_root (or_else (eff_home eff) (eff_current_dir eff))
         | CwdCurrent \<Rightarrow> or_root (eff_current_dir eff)
         | CwdPath path \<Rightarrow> eff_expand_path eff path)"

definition launch_cwd_for_terminal :: "('g, 'r) effects \<Rightarrow> ('g, 'q, 'p, 'n, 'r) app \<Rightarrow> string \<Rightarrow> string option" where
  "launch_cwd_for_terminal eff a tid =
     or_else (Option.bind (hm_get (terminal_runtimes a) tid) (eff_follow_cwd eff)) (map_option cwd (hm_get (terminals a) tid))"

definition launch_cwd_for_pane_in_workspace ::
    "('g, 'r) effects \<Rightarrow> ('g, 'q, 'p, 'n, 'r) app \<Rightarrow> nat \<Rightarrow> pane_id \<Rightarrow> string option" where
  "launch_cwd_for_pane_in_workspace eff a ws_idx pid =
     Option.bind (vec_get (workspaces a) ws_idx) (\<lambda>ws.
     Option.bind (Option.bind (find_tab_index_for_pane ws pid) (vec_get (tabs ws))) (\<lambda>t.
     Option.bind (tab_terminal_id t pid) (launch_cwd_for_terminal eff a)))"

definition focused_pane_cwd_in_workspace :: "('g, 'r) effects \<Rightarrow> ('g, 'q, 'p, 'n, 'r) app \<Rightarrow> nat \<Rightarrow> string option" where
  "focused_pane_cwd_in_workspace eff a ws_idx =
     Option.bind (Option.bind (vec_get (workspaces a) ws_idx) focused_pane_id) (launch_cwd_for_pane_in_workspace eff a ws_idx)"

definition seed_cwd_from_workspace :: "('g, 'r) effects \<Rightarrow> ('g, 'q, 'p, 'n, 'r) app \<Rightarrow> nat \<Rightarrow> string option" where
  "seed_cwd_from_workspace eff a ws_idx =
     Option.bind (vec_get (workspaces a) ws_idx) (\<lambda>ws.
       resolved_identity_cwd_from ws (terminals a)
         (\<lambda>tid. Option.bind (hm_get (terminal_runtimes a) tid) (eff_runtime_cwd eff)))"

definition resolved_new_workspace_cwd_from :: "('g, 'r) effects \<Rightarrow> ('g, 'q, 'p, 'n, 'r) app \<Rightarrow> nat \<Rightarrow> string" where
  "resolved_new_workspace_cwd_from eff a ws_idx =
     resolve_new_terminal_cwd eff
       (or_else (Option.bind (Option.bind (vec_get (workspaces a) ws_idx) current_tab)
                   (\<lambda>t. launch_cwd_for_pane_in_workspace eff a ws_idx (focused (tab_layout t))))
          (seed_cwd_from_workspace eff a ws_idx))"

definition normalize_launch_env :: "(string, string) hmap \<Rightarrow> string + (string \<times> string) list" where
  "normalize_launch_env env =
     (if \<exists>(key, v) \<in> set env. key = [] \<or> CHR ''='' \<in> set key \<or> CHR 0x00 \<in> set key \<or> CHR 0x00 \<in> set v
      then Inl ''invalid_env'' else Inr (sort_key fst env))"

end
