(* ===== verification/App_Requests.thy ===== *)
theory App_Requests
  imports App_Info
begin

text \<open>
  The requests that change workspaces and tabs (\<^verbatim>\<open>runtime/src/app/api/workspaces.rs\<close>,
  \<^verbatim>\<open>runtime/src/app/api/tabs.rs\<close>) and those that split, close and zoom panes
  (\<^verbatim>\<open>runtime/src/app/api/panes.rs\<close>).  A handler returns the application and an error code or a result;
  \<open>None\<close> is a panic.
\<close>

type_synonym ('g, 'q, 'p, 'n, 'r) reply = "(('g, 'q, 'p, 'n, 'r) app \<times> (string + api_result)) option"

abbreviation refuse :: "string \<Rightarrow> ('g, 'q, 'p, 'n, 'r) app \<Rightarrow> ('g, 'q, 'p, 'n, 'r) reply" where
  "refuse code a \<equiv> Some (a, Inl code)"

definition reply_info :: "('i \<Rightarrow> api_result) \<Rightarrow> 'i option \<Rightarrow> ('g, 'q, 'p, 'n, 'r) app \<Rightarrow> ('g, 'q, 'p, 'n, 'r) reply" where
  "reply_info f info a = map_option (\<lambda>i. (a, Inr (f i))) info"

subsection \<open>Workspaces\<close>

definition create_workspace_with_launch_env ::
    "('g, 'r) effects \<Rightarrow> string \<Rightarrow> bool \<Rightarrow> ('g, 'q, 'p, 'n, 'r) app \<Rightarrow> ('g, 'q, 'p, 'n, 'r) app \<times> (string + nat)" where
  "create_workspace_with_launch_env eff initial_cwd foc a =
     (case ws_new_with_tab initial_cwd None (eff_git eff initial_cwd) (eff_spawned eff) (eff_terminal_id eff)
             (next_pane_id a) (next_workspace_id a) of
        (n, counter, Inl e) \<Rightarrow> (a\<lparr>next_pane_id := n, next_workspace_id := counter\<rparr>, Inl e)
      | (n, counter, Inr (ws, terminal, runtime)) \<Rightarrow>
          (let a = a\<lparr>next_pane_id := n, next_workspace_id := counter,
                     terminal_runtimes := hm_insert (terminal_id terminal) runtime (terminal_runtimes a),
                     terminals := hm_insert (terminal_id terminal) terminal (terminals a),
                     workspaces := workspaces a @ [ws]\<rparr>;
               idx = length (workspaces a) - 1;
               a = remove_alias_shadowed_by_new_pane (tab_root_pane (hd (tabs ws))) a;
               a = (if foc \<or> active a = None then (switch_workspace idx a)\<lparr>mode := Terminal\<rparr> else a)
           in (schedule_session_save (eff_now eff) a, Inr idx)))"

definition workspace_creation_source :: "('g, 'q, 'p, 'n, 'r) app \<Rightarrow> nat option" where
  "workspace_creation_source a =
     (if mode a = Navigate \<and> vec_get (workspaces a) (selected a) \<noteq> None then Some (selected a)
      else or_else (active a) (map_option (\<lambda>_. selected a) (vec_get (workspaces a) (selected a))))"

definition handle_workspace_create ::
    "('g, 'r) effects \<Rightarrow> string option \<Rightarrow> string option \<Rightarrow> bool \<Rightarrow> string option \<Rightarrow> (string, string) hmap \<Rightarrow>
     ('g, 'q, 'p, 'n, 'r) app \<Rightarrow> ('g, 'q, 'p, 'n, 'r) reply" where
  "handle_workspace_create eff dir source_workspace_id foc label env a =
     (case (if dir \<noteq> None then Inr None
            else (case source_workspace_id of
                    Some wid \<Rightarrow>
                      (case Option.bind (parse_workspace_id a wid) (\<lambda>i. map_option (\<lambda>_. i) (vec_get (workspaces a) i)) of
                         Some i \<Rightarrow> Inr (Some i) | None \<Rightarrow> Inl ''workspace_not_found'')
                  | None \<Rightarrow> Inr (workspace_creation_source a))) of
        Inl code \<Rightarrow> refuse code a
      | Inr source_index \<Rightarrow>
          (let cwd = (case dir of
                        Some d \<Rightarrow> d
                      | None \<Rightarrow> (case source_index of
                                    None \<Rightarrow> resolve_new_terminal_cwd eff None
                                  | Some i \<Rightarrow> resolved_new_workspace_cwd_from eff a i))
           in case normalize_launch_env env of
                Inl code \<Rightarrow> refuse code a
              | Inr _ \<Rightarrow>
                  (case create_workspace_with_launch_env eff cwd foc a of
                     (a, Inl e) \<Rightarrow> refuse ''workspace_create_failed'' a
                   | (a, Inr i) \<Rightarrow>
                       (let a = (case label of Some l \<Rightarrow> update_workspace i (ws_set_custom_name l) a | None \<Rightarrow> a)
                        in case emit_workspace_open_events i a of
                             None \<Rightarrow> None
                           | Some a \<Rightarrow>
                               (case (workspace_info_of a i, tab_info_of a i 0, root_pane_info a i 0) of
                                  (Some w, Some t, Some p) \<Rightarrow> Some (a, Inr (ResultWorkspaceCreated w t p))
                                | _ \<Rightarrow> None)))))"

definition handle_workspace_focus :: "string \<Rightarrow> ('g, 'q, 'p, 'n, 'r) app \<Rightarrow> ('g, 'q, 'p, 'n, 'r) reply" where
  "handle_workspace_focus wid a =
     (case Option.bind (parse_workspace_id a wid) (\<lambda>i. map_option (\<lambda>_. i) (vec_get (workspaces a) i)) of
        None \<Rightarrow> refuse ''workspace_not_found'' a
      | Some i \<Rightarrow> (let a = switch_workspace i a in reply_info ResultWorkspaceInfo (workspace_info_of a i) a))"

definition handle_workspace_rename ::
    "('g, 'r) effects \<Rightarrow> string \<Rightarrow> string \<Rightarrow> ('g, 'q, 'p, 'n, 'r) app \<Rightarrow> ('g, 'q, 'p, 'n, 'r) reply" where
  "handle_workspace_rename eff wid label a =
     (case Option.bind (parse_workspace_id a wid) (\<lambda>i. map_option (\<lambda>ws. (i, ws)) (vec_get (workspaces a) i)) of
        None \<Rightarrow> refuse ''workspace_not_found'' a
      | Some (i, ws) \<Rightarrow>
          (let a = schedule_session_save (eff_now eff) (update_workspace i (ws_set_custom_name label) a);
               a = emit_event (WorkspaceRenamed (ws_id ws) label) a
           in reply_info ResultWorkspaceInfo (workspace_info_of a i) a))"

definition handle_workspace_move ::
    "string \<Rightarrow> nat \<Rightarrow> ('g, 'q, 'p, 'n, 'r) app \<Rightarrow> ('g, 'q, 'p, 'n, 'r) reply" where
  "handle_workspace_move wid insert_index a =
     (case Option.bind (parse_workspace_id a wid) (\<lambda>i. map_option (\<lambda>ws. (i, ws)) (vec_get (workspaces a) i)) of
        None \<Rightarrow> refuse ''workspace_not_found'' a
      | Some (i, ws) \<Rightarrow>
          if insert_index > length (workspaces a) then refuse ''workspace_move_failed'' a
          else
            (case move_workspace i insert_index a of
               None \<Rightarrow> None
             | Some (a, moved) \<Rightarrow>
                 (let infos = workspace_list_info a;
                      a = (if moved then emit_event (WorkspaceMoved (ws_id ws) insert_index) a else a)
                  in Some (a, Inr (ResultWorkspaceList infos)))))"

fun resolve_block :: "('g, 'q, 'p, 'n, 'r) app \<Rightarrow> string list \<Rightarrow> string list \<Rightarrow> string + string list" where
  "resolve_block a [] ids = Inr ids"
| "resolve_block a (wid # wids) ids =
     (case Option.bind (parse_workspace_id a wid) (vec_get (workspaces a)) of
        None \<Rightarrow> Inl ''workspace_not_found''
      | Some ws \<Rightarrow>
          if ws_id ws \<in> set ids then Inl ''workspace_move_block_failed'' else resolve_block a wids (ids @ [ws_id ws]))"

definition handle_workspace_move_block ::
    "string list \<Rightarrow> string option \<Rightarrow> ('g, 'q, 'p, 'n, 'r) app \<Rightarrow> ('g, 'q, 'p, 'n, 'r) reply" where
  "handle_workspace_move_block wids before a =
     (if wids = [] then refuse ''workspace_move_block_failed'' a
      else
        (case resolve_block a wids [] of
           Inl code \<Rightarrow> refuse code a
         | Inr ids \<Rightarrow>
             (case (case before of
                      None \<Rightarrow> Inr None
                    | Some wid \<Rightarrow>
                        (case Option.bind (parse_workspace_id a wid) (vec_get (workspaces a)) of
                           None \<Rightarrow> Inl ''workspace_not_found''
                         | Some ws \<Rightarrow> if ws_id ws \<in> set ids then Inl ''workspace_move_block_failed'' else Inr (Some (ws_id ws)))) of
                Inl code \<Rightarrow> refuse code a
              | Inr before_id \<Rightarrow>
                  (case move_workspace_block ids before_id a of
                     None \<Rightarrow> None
                   | Some (a, moved) \<Rightarrow>
                       (let infos = workspace_list_info a;
                            a = (if moved then emit_event (WorkspaceReordered ids before_id) a else a)
                        in Some (a, Inr (ResultWorkspaceList infos)))))))"

definition require_restored_worktree_ready :: "('g, 'q, 'p, 'n, 'r) app \<Rightarrow> nat \<Rightarrow> bool" where
  "require_restored_worktree_ready a ws_idx \<longleftrightarrow>
     (case vec_get (workspaces a) ws_idx of
        None \<Rightarrow> True
      | Some ws \<Rightarrow> \<not> (\<exists>(wid, expected) \<in> set (pending_restored_worktree_spaces a). wid = ws_id ws \<and> worktree_space ws = Some expected))"

definition require_restored_group_close_ready :: "('g, 'q, 'p, 'n, 'r) app \<Rightarrow> nat list \<Rightarrow> bool" where
  "require_restored_group_close_ready a close_indices \<longleftrightarrow>
     length close_indices \<ge> 2 \<longrightarrow> (\<forall>i \<in> set close_indices. require_restored_worktree_ready a i)"

definition handle_workspace_close ::
    "string \<Rightarrow> bool \<Rightarrow> ('g, 'q, 'p, 'n, 'r) app \<Rightarrow> ('g, 'q, 'p, 'n, 'r) reply" where
  "handle_workspace_close wid close_group a =
     (case Option.bind (parse_workspace_id a wid) (\<lambda>i. map_option (\<lambda>_. i) (vec_get (workspaces a) i)) of
        None \<Rightarrow> refuse ''workspace_not_found'' a
      | Some i \<Rightarrow>
          (let close_indices = (if close_group then workspace_group_close_indices a i else workspace_close_indices a i)
           in if \<not> require_restored_group_close_ready a close_indices then refuse ''worktree_operation_in_progress'' a
              else if length close_indices \<ge> 2 \<and> \<not> close_group then refuse ''workspace_group_close_required'' a
              else
                (let closed = List.map_filter (workspace_info_of a) close_indices
                 in case close_workspaces close_indices (a\<lparr>selected := i\<rparr>) of
                      None \<Rightarrow> None
                    | Some a \<Rightarrow>
                        Some (fold (\<lambda>info. emit_event (WorkspaceClosed (wi_workspace_id info) (Some info))) closed
                                (shutdown_detached_terminal_runtimes a), Inr ResultOk))))"

subsection \<open>Tabs\<close>

definition name_tab :: "nat \<Rightarrow> string \<Rightarrow> 'g workspace \<Rightarrow> 'g workspace" where
  "name_tab tab_idx label ws = ws\<lparr>tabs := (tabs ws)[tab_idx := tab_set_custom_name label (tabs ws ! tab_idx)]\<rparr>"

definition handle_tab_create ::
    "('g, 'r) effects \<Rightarrow> string option \<Rightarrow> string option \<Rightarrow> bool \<Rightarrow> string option \<Rightarrow> (string, string) hmap \<Rightarrow>
     ('g, 'q, 'p, 'n, 'r) app \<Rightarrow> ('g, 'q, 'p, 'n, 'r) reply" where
  "handle_tab_create eff wid dir foc label env a =
     (case (case wid of Some wid \<Rightarrow> parse_workspace_id a wid | None \<Rightarrow> active a) of
        None \<Rightarrow> refuse ''workspace_not_found'' a
      | Some ws_idx \<Rightarrow>
          (let cwd = (case dir of
                        Some d \<Rightarrow> d | None \<Rightarrow> resolve_new_terminal_cwd eff (focused_pane_cwd_in_workspace eff a ws_idx))
           in case normalize_launch_env env of
                Inl code \<Rightarrow> refuse code a
              | Inr _ \<Rightarrow>
                  (case vec_get (workspaces a) ws_idx of
                     None \<Rightarrow> refuse ''tab_create_failed'' a
                   | Some ws \<Rightarrow>
                       (case create_tab_with_runtime ws cwd None (eff_spawned eff) (eff_terminal_id eff) (next_pane_id a) of
                          None \<Rightarrow> None
                        | Some (ws, n, Inl e) \<Rightarrow>
                            refuse ''tab_create_failed'' (a\<lparr>workspaces := (workspaces a)[ws_idx := ws], next_pane_id := n\<rparr>)
                        | Some (ws, n, Inr (tab_idx, terminal, runtime)) \<Rightarrow>
                            (let a = a\<lparr>workspaces := (workspaces a)[ws_idx := ws], next_pane_id := n,
                                       terminal_runtimes := hm_insert (terminal_id terminal) runtime (terminal_runtimes a),
                                       terminals := hm_insert (terminal_id terminal) terminal (terminals a)\<rparr>;
                                 a = remove_alias_shadowed_by_new_pane (tab_root_pane (tabs ws ! tab_idx)) a;
                                 a = (case label of Some l \<Rightarrow> update_workspace ws_idx (name_tab tab_idx l) a | None \<Rightarrow> a);
                                 a = (if foc then (fst (switch_workspace_tab ws_idx tab_idx a))\<lparr>mode := Terminal\<rparr> else a);
                                 a = emit_tab_created_events ws_idx tab_idx (schedule_session_save (eff_now eff) a)
                             in case (tab_info_of a ws_idx tab_idx, root_pane_info a ws_idx tab_idx) of
                                  (Some t, Some p) \<Rightarrow> Some (a, Inr (ResultTabCreated t p))
                                | _ \<Rightarrow> None)))))"

definition handle_tab_focus :: "string \<Rightarrow> ('g, 'q, 'p, 'n, 'r) app \<Rightarrow> ('g, 'q, 'p, 'n, 'r) reply" where
  "handle_tab_focus tab_id a =
     (case parse_tab_id a tab_id of
        None \<Rightarrow> refuse ''tab_not_found'' a
      | Some (ws_idx, tab_idx) \<Rightarrow>
          (let a = fst (switch_workspace_tab ws_idx tab_idx a) in reply_info ResultTabInfo (tab_info_of a ws_idx tab_idx) a))"

definition handle_tab_rename ::
    "('g, 'r) effects \<Rightarrow> string \<Rightarrow> string \<Rightarrow> ('g, 'q, 'p, 'n, 'r) app \<Rightarrow> ('g, 'q, 'p, 'n, 'r) reply" where
  "handle_tab_rename eff tab_id label a =
     (case parse_tab_id a tab_id of
        None \<Rightarrow> refuse ''tab_not_found'' a
      | Some (ws_idx, tab_idx) \<Rightarrow>
          (let a = schedule_session_save (eff_now eff) (update_workspace ws_idx (name_tab tab_idx label) a)
           in case (public_tab_id a ws_idx tab_idx, public_workspace_id a ws_idx) of
                (Some public_id, Some wid) \<Rightarrow>
                  (let a = emit_event (TabRenamed public_id wid label) a
                   in reply_info ResultTabInfo (tab_info_of a ws_idx tab_idx) a)
              | _ \<Rightarrow> None))"

definition handle_tab_move ::
    "('g, 'r) effects \<Rightarrow> string \<Rightarrow> nat \<Rightarrow> ('g, 'q, 'p, 'n, 'r) app \<Rightarrow> ('g, 'q, 'p, 'n, 'r) reply" where
  "handle_tab_move eff tab_id insert_index a =
     (case parse_tab_id a tab_id of
        None \<Rightarrow> refuse ''tab_not_found'' a
      | Some (ws_idx, tab_idx) \<Rightarrow>
          (case vec_get (workspaces a) ws_idx of
             None \<Rightarrow> refuse ''tab_not_found'' a
           | Some ws \<Rightarrow>
               if insert_index > length (tabs ws) then refuse ''tab_move_failed'' a
               else
                 (let public_id = (case public_tab_id a ws_idx tab_idx of
                                     Some i \<Rightarrow> i | None \<Rightarrow> public_tab_id_for_number (ws_id ws) (tab_idx + 1))
                  in case move_tab tab_idx insert_index ws of
                       (ws', moved) \<Rightarrow>
                         (let a = a\<lparr>workspaces := (workspaces a)[ws_idx := ws']\<rparr>;
                              infos = tab_list_info a ws_idx;
                              a = (if moved then emit_event (TabMoved public_id (ws_id ws) insert_index)
                                                   (schedule_session_save (eff_now eff) a) else a)
                          in Some (a, Inr (ResultTabList infos))))))"

definition handle_tab_close ::
    "('g, 'r) effects \<Rightarrow> string \<Rightarrow> ('g, 'q, 'p, 'n, 'r) app \<Rightarrow> ('g, 'q, 'p, 'n, 'r) reply" where
  "handle_tab_close eff tab_id a =
     (case parse_tab_id a tab_id of
        None \<Rightarrow> refuse ''tab_not_found'' a
      | Some (ws_idx, tab_idx) \<Rightarrow>
          (case (public_tab_id a ws_idx tab_idx, vec_get (workspaces a) ws_idx) of
             (Some public_id, Some ws) \<Rightarrow>
               (let terminal_ids = terminal_ids_for_tab a ws_idx tab_idx; pids = pane_ids_for_tab a ws_idx tab_idx
                in if length (tabs ws) \<le> 1 then
                     if \<not> require_restored_group_close_ready a (workspace_close_indices a ws_idx) then
                       refuse ''worktree_operation_in_progress'' a
                     else if confirm_implicit_worktree_group_close a ws_idx then refuse ''confirmation_required'' a
                     else
                       (let info = workspace_info_of a ws_idx
                        in case close_selected_workspace (a\<lparr>selected := ws_idx\<rparr>) of
                             None \<Rightarrow> None
                           | Some a \<Rightarrow>
                               (let a = shutdown_detached_terminal_runtimes (remove_plugin_pane_records pids a);
                                    a = emit_event (WorkspaceClosed (ws_id ws) info) (emit_event (TabClosed public_id (ws_id ws)) a)
                                in Some (a, Inr ResultOk)))
                   else
                     (case ws_close_tab tab_idx ws of
                        (ws', False) \<Rightarrow> refuse ''tab_close_failed'' (a\<lparr>workspaces := (workspaces a)[ws_idx := ws']\<rparr>)
                      | (ws', True) \<Rightarrow>
                          (let a = remove_plugin_pane_records pids (a\<lparr>workspaces := (workspaces a)[ws_idx := ws']\<rparr>);
                               a = shutdown_detached_terminal_runtimes (remove_unattached_terminal_ids terminal_ids a);
                               a = emit_event (TabClosed public_id (ws_id ws)) (schedule_session_save (eff_now eff) a)
                           in Some (a, Inr ResultOk))))
           | _ \<Rightarrow> refuse ''tab_not_found'' a))"

subsection \<open>Panes\<close>

datatype split_direction = SplitRight | SplitDown

definition split_direction_to_layout :: "split_direction \<Rightarrow> direction" where
  "split_direction_to_layout d = (case d of SplitRight \<Rightarrow> Horizontal | SplitDown \<Rightarrow> Vertical)"

definition set_passthrough :: "pane_id \<Rightarrow> bool \<Rightarrow> 'g workspace \<Rightarrow> 'g workspace" where
  "set_passthrough pid b ws =
     (case find_tab_index_for_pane ws pid of
        None \<Rightarrow> ws
      | Some i \<Rightarrow>
          ws\<lparr>tabs := (tabs ws)[i := (tabs ws ! i)\<lparr>tab_panes :=
            map (\<lambda>(k, pane). (k, if k = pid then pane\<lparr>right_click_passthrough := b\<rparr> else pane)) (tab_panes (tabs ws ! i))\<rparr>]\<rparr>)"

definition split_target :: "('g, 'q, 'p, 'n, 'r) app \<Rightarrow> string option \<Rightarrow> string option \<Rightarrow> (nat \<times> pane_id) option" where
  "split_target a target_pane_id workspace_id =
     (let focused_of = (\<lambda>ws_idx. Option.bind (vec_get (workspaces a) ws_idx) (\<lambda>ws. map_option (\<lambda>p. (ws_idx, p)) (focused_pane_id ws)))
      in case target_pane_id of
           Some pid \<Rightarrow> parse_pane_id a pid
         | None \<Rightarrow>
             (case workspace_id of
                Some wid \<Rightarrow> Option.bind (parse_workspace_id a wid) focused_of
              | None \<Rightarrow> Option.bind (active a) focused_of))"

definition handle_pane_split ::
    "('g, 'r) effects \<Rightarrow> string option \<Rightarrow> string option \<Rightarrow> split_direction \<Rightarrow> f32 option \<Rightarrow> string option \<Rightarrow> bool \<Rightarrow> bool \<Rightarrow>
     (string, string) hmap \<Rightarrow> ('g, 'q, 'p, 'n, 'r) app \<Rightarrow> ('g, 'q, 'p, 'n, 'r) reply" where
  "handle_pane_split eff target_pane_id workspace_id direction ratio dir foc right_click_pane env a =
     (case split_target a target_pane_id workspace_id of
        None \<Rightarrow> refuse ''pane_not_found'' a
      | Some (ws_idx, target) \<Rightarrow>
          (case normalize_launch_env env of
             Inl code \<Rightarrow> refuse code a
           | Inr _ \<Rightarrow>
               (let split_cwd = or_else dir (Some (resolve_new_terminal_cwd eff (launch_cwd_for_pane_in_workspace eff a ws_idx target)));
                    previous_focus = current_pane_focus_target a
                in case vec_get (workspaces a) ws_idx of
                     None \<Rightarrow> refuse ''pane_not_found'' a
                   | Some ws \<Rightarrow>
                       (case ws_split_pane_with_runtime ws target (split_direction_to_layout direction) ratio split_cwd foc None
                               (case eff_current_dir eff of Some d \<Rightarrow> d | None \<Rightarrow> ''/'') (eff_spawned eff) (eff_terminal_id eff) (next_pane_id a) of
                          None \<Rightarrow> None
                        | Some (ws', n, None) \<Rightarrow>
                            refuse ''pane_not_found'' (a\<lparr>workspaces := (workspaces a)[ws_idx := ws'], next_pane_id := n\<rparr>)
                        | Some (ws', n, Some (Inl e)) \<Rightarrow>
                            refuse ''pane_split_failed'' (a\<lparr>workspaces := (workspaces a)[ws_idx := ws'], next_pane_id := n\<rparr>)
                        | Some (ws', n, Some (Inr (tab_idx, new))) \<Rightarrow>
                            (let a = a\<lparr>workspaces := (workspaces a)[ws_idx := set_passthrough (new_pane_id new) right_click_pane ws'],
                                       next_pane_id := n\<rparr>;
                                 a = (if foc then
                                        (record_pane_focus_change previous_focus ws_idx (new_pane_id new)
                                          (fst (switch_workspace_tab ws_idx tab_idx a)))\<lparr>mode := Terminal\<rparr>
                                      else a);
                                 a = a\<lparr>terminal_runtimes :=
                                         hm_insert (terminal_id (new_terminal new)) (new_runtime new) (terminal_runtimes a)\<rparr>;
                                 a = remove_alias_shadowed_by_new_pane (new_pane_id new) a;
                                 a = a\<lparr>terminals := hm_insert (terminal_id (new_terminal new)) (new_terminal new) (terminals a)\<rparr>;
                                 a = schedule_session_save (eff_now eff) a
                             in case pane_info_of a ws_idx (new_pane_id new) of
                                  None \<Rightarrow> None
                                | Some p \<Rightarrow>
                                    Some (emit_layout_updated_event ws_idx tab_idx (emit_event (PaneCreated p) a),
                                          Inr (ResultPaneInfo p)))))))"

definition handle_pane_close ::
    "('g, 'r) effects \<Rightarrow> string \<Rightarrow> ('g, 'q, 'p, 'n, 'r) app \<Rightarrow> ('g, 'q, 'p, 'n, 'r) reply" where
  "handle_pane_close eff target a =
     (case parse_pane_id a target of
        None \<Rightarrow> refuse ''pane_not_found'' a
      | Some (ws_idx, pid) \<Rightarrow>
          (case public_pane_id a ws_idx pid of
             None \<Rightarrow> refuse ''pane_not_found'' a
           | Some public_id \<Rightarrow>
               (case vec_get (workspaces a) ws_idx of
                  None \<Rightarrow> None
                | Some ws \<Rightarrow>
                    (let layout_target = layout_update_target_after_pane_removal a ws_idx pid
                     in if close_pane_would_close_workspace a ws_idx pid
                           \<and> \<not> require_restored_group_close_ready a (workspace_close_indices a ws_idx)
                        then refuse ''worktree_operation_in_progress'' a
                        else if close_pane_would_close_workspace a ws_idx pid \<and> confirm_implicit_worktree_group_close a ws_idx
                        then refuse ''confirmation_required'' a
                        else
                          (let info = workspace_info_of a ws_idx; tid = terminal_id_for_pane a ws_idx pid
                           in case ws_close_pane pid ws of
                                None \<Rightarrow> None
                              | Some (ws', should_close_workspace) \<Rightarrow>
                                  (let a = remove_plugin_pane_records [pid] (a\<lparr>workspaces := (workspaces a)[ws_idx := ws']\<rparr>)
                                   in if should_close_workspace then
                                        (case close_selected_workspace (a\<lparr>selected := ws_idx\<rparr>) of
                                           None \<Rightarrow> None
                                         | Some a \<Rightarrow>
                                             (let a = emit_event (PaneClosed public_id (ws_id ws)) (shutdown_detached_terminal_runtimes a)
                                              in Some (emit_event (WorkspaceClosed (ws_id ws) info) a, Inr ResultOk)))
                                      else
                                        (let a = remove_unattached_terminal_ids (case tid of Some t \<Rightarrow> [t] | None \<Rightarrow> []) a;
                                             a = schedule_session_save (eff_now eff) (shutdown_detached_terminal_runtimes a);
                                             a = emit_event (PaneClosed public_id (ws_id ws)) a;
                                             a = (case layout_target of Some (w, t) \<Rightarrow> emit_layout_updated_event w t a | None \<Rightarrow> a)
                                         in Some (a, Inr ResultOk))))))))"

definition handle_pane_zoom ::
    "('g, 'r) effects \<Rightarrow> string option \<Rightarrow> pane_zoom_command \<Rightarrow> ('g, 'q, 'p, 'n, 'r) app \<Rightarrow> ('g, 'q, 'p, 'n, 'r) reply" where
  "handle_pane_zoom eff target command a =
     (case resolve_optional_pane a target of
        None \<Rightarrow> refuse ''pane_not_found'' a
      | Some (ws_idx, pid) \<Rightarrow>
          (case vec_get (workspaces a) ws_idx of
             None \<Rightarrow> None
           | Some ws \<Rightarrow>
               (case (find_tab_index_for_pane ws pid, public_pane_id a ws_idx pid) of
                  (Some tab_idx, Some public_id) \<Rightarrow>
                    (case apply_pane_zoom ws_idx pid command a of
                       (a, None) \<Rightarrow> refuse ''pane_not_found'' a
                     | (a, Some outcome) \<Rightarrow>
                         (let changed = zoom_changed outcome \<or> zoom_focus_changed outcome;
                              a = (if changed then schedule_session_save (eff_now eff) a else a)\<lparr>mode := Terminal\<rparr>
                          in case layout_snapshot a ws_idx tab_idx of
                               None \<Rightarrow> refuse ''pane_layout_unavailable'' a
                             | Some layout \<Rightarrow>
                                 Some (if changed then emit_event (LayoutUpdated layout) a else a, Inr (ResultPaneZoom outcome layout))))
                | _ \<Rightarrow> refuse ''pane_not_found'' a)))"

end
