(* ===== verification/App_Moves.thy ===== *)
theory App_Moves
  imports App_Requests
begin

text \<open>
  Moving a pane to another tab, to a new tab or to a new workspace (\<open>handle_pane_move\<close> of
  \<^verbatim>\<open>runtime/src/app/api/panes.rs\<close>).  The pane leaves its tab first, then the destination is looked up again
  by its public id; \<open>recover_failed_pane_move\<close> puts a pane back for which no place was found.
\<close>

datatype pane_move_destination =
    DestTab string "string option" split_direction "f32 option"
  | DestNewTab "string option" "string option"
  | DestNewWorkspace "string option" "string option"

datatype resolved_destination =
    ExistingTab string pane_id split_direction f32 bool
  | ResolvedNewTab string "string option"
  | ResolvedNewWorkspace "string option" "string option"

datatype move_resolution =
    MoveError string
  | MoveUnchanged pane_move_reason nat nat
  | MoveTo resolved_destination

record move_recovery_context =
  mrc_source_ws_idx :: nat
  mrc_workspace_id :: string
  mrc_workspace_label :: "string option"
  mrc_tab_label :: "string option"
  mrc_worktree_space :: "worktree_space_membership option"
  mrc_identity_cwd :: string

record move_names =
  mn_pane_id :: string
  mn_workspace_id :: string
  mn_tab_id :: string

subsection \<open>Resolving the destination\<close>

definition resolve_tab_destination ::
    "('g, 'q, 'p, 'n, 'r) app \<Rightarrow> nat \<Rightarrow> nat \<Rightarrow> string \<Rightarrow> string option \<Rightarrow> split_direction \<Rightarrow> f32 option \<Rightarrow> move_resolution option" where
  "resolve_tab_destination a source_ws_idx source_tab_idx tab_id target_pane_id split ratio =
     (case parse_tab_id a tab_id of
        None \<Rightarrow> Some (MoveError ''tab_not_found'')
      | Some (ws_idx, tab_idx) \<Rightarrow>
          if source_ws_idx = ws_idx \<and> source_tab_idx = tab_idx then Some (MoveUnchanged SameTab ws_idx tab_idx)
          else
            (case Option.bind (vec_get (workspaces a) ws_idx) (\<lambda>ws. vec_get (tabs ws) tab_idx) of
               None \<Rightarrow> None
             | Some t \<Rightarrow>
                 if tab_zoomed t then Some (MoveUnchanged ZoomedTab ws_idx tab_idx)
                 else
                   (case (case target_pane_id of
                            None \<Rightarrow> Some (Some (focused (tab_layout t)))
                          | Some raw \<Rightarrow>
                              (case parse_pane_id a raw of
                                 None \<Rightarrow> Some None
                               | Some (pane_ws_idx, p) \<Rightarrow>
                                   map_option (\<lambda>ws. if pane_ws_idx \<noteq> ws_idx \<or> find_tab_index_for_pane ws p \<noteq> Some tab_idx
                                                    then None else Some p)
                                     (vec_get (workspaces a) pane_ws_idx))) of
                      None \<Rightarrow> None
                    | Some None \<Rightarrow> Some (MoveError ''target_pane_not_found'')
                    | Some (Some p) \<Rightarrow>
                        Some (case public_tab_id a ws_idx tab_idx of
                                None \<Rightarrow> MoveError ''tab_not_found''
                              | Some public_id \<Rightarrow>
                                  MoveTo (ExistingTab public_id p split (case ratio of Some r \<Rightarrow> r | None \<Rightarrow> ratio_half)
                                    (source_ws_idx \<noteq> ws_idx))))))"

definition resolve_destination ::
    "('g, 'q, 'p, 'n, 'r) app \<Rightarrow> nat \<Rightarrow> nat \<Rightarrow> string \<Rightarrow> pane_move_destination \<Rightarrow> move_resolution option" where
  "resolve_destination a source_ws_idx source_tab_idx previous_workspace_id destination =
     (case destination of
        DestTab tab_id target_pane_id split ratio \<Rightarrow>
          resolve_tab_destination a source_ws_idx source_tab_idx tab_id target_pane_id split ratio
      | DestNewTab workspace_id label \<Rightarrow>
          (case workspace_id of
             None \<Rightarrow> Some (MoveTo (ResolvedNewTab previous_workspace_id label))
           | Some wid \<Rightarrow>
               (case parse_workspace_id a wid of
                  None \<Rightarrow> Some (MoveError ''workspace_not_found'')
                | Some ws_idx \<Rightarrow> map_option (\<lambda>public_id. MoveTo (ResolvedNewTab public_id label)) (public_workspace_id a ws_idx)))
      | DestNewWorkspace label tab_label \<Rightarrow> Some (MoveTo (ResolvedNewWorkspace label tab_label)))"

definition unchanged_pane_move ::
    "('g, 'q, 'p, 'n, 'r) app \<Rightarrow> pane_move_reason \<Rightarrow> move_names \<Rightarrow> nat \<Rightarrow> nat \<Rightarrow> pane_id \<Rightarrow> nat \<Rightarrow> nat \<Rightarrow> string + api_result" where
  "unchanged_pane_move a reason names source_ws_idx source_tab_idx pid ws_idx tab_idx =
     (case (layout_snapshot a source_ws_idx source_tab_idx, layout_snapshot a ws_idx tab_idx) of
        (Some source_layout, Some target_layout) \<Rightarrow>
          (case pane_info_of a source_ws_idx pid of
             None \<Rightarrow> Inl ''pane_not_found''
           | Some pane \<Rightarrow>
               Inr (ResultPaneMove
                 \<lparr>pmr_changed = False, pmr_reason = Some reason, pmr_previous_pane_id = mn_pane_id names,
                  pmr_previous_workspace_id = mn_workspace_id names, pmr_previous_tab_id = mn_tab_id names, pmr_pane = pane,
                  pmr_source_layout = Some source_layout, pmr_target_layout = target_layout, pmr_created_workspace = None,
                  pmr_created_tab = None, pmr_closed_workspace_id = None, pmr_closed_tab_id = None\<rparr>))
      | _ \<Rightarrow> Inl ''pane_layout_unavailable'')"

subsection \<open>Leaving the source\<close>

definition crosses_workspace :: "string \<Rightarrow> resolved_destination \<Rightarrow> bool" where
  "crosses_workspace previous_workspace_id resolved \<longleftrightarrow>
     (case resolved of
        ExistingTab _ _ _ _ cross \<Rightarrow> cross
      | ResolvedNewTab wid _ \<Rightarrow> wid \<noteq> previous_workspace_id
      | ResolvedNewWorkspace _ _ \<Rightarrow> True)"

definition index_after_removal :: "nat \<Rightarrow> nat \<Rightarrow> nat \<Rightarrow> nat" where
  "index_after_removal removed len i = (if i = removed then min removed (len - 1) else if i > removed then i - 1 else i)"

definition close_emptied_source :: "nat \<Rightarrow> ('g, 'q, 'p, 'n, 'r) app \<Rightarrow> ('g, 'q, 'p, 'n, 'r) app" where
  "close_emptied_source ws_idx a =
     (let a = a\<lparr>workspaces := vec_remove ws_idx (workspaces a)\<rparr>
      in if workspaces a = [] then a\<lparr>active := None, selected := 0\<rparr>
         else a\<lparr>active := map_option (index_after_removal ws_idx (length (workspaces a))) (active a),
                selected := index_after_removal ws_idx (length (workspaces a)) (selected a)\<rparr>)"

definition leave_source ::
    "nat \<Rightarrow> pane_id \<Rightarrow> string \<Rightarrow> bool \<Rightarrow> bool \<Rightarrow> ('g, 'q, 'p, 'n, 'r) app \<Rightarrow> ('g, 'q, 'p, 'n, 'r) app" where
  "leave_source ws_idx pid previous_pane_id cross emptied a =
     (if cross then
        (let a = (update_workspace ws_idx (unregister_moved_pane pid) a)
                   \<lparr>public_pane_id_aliases := hm_insert previous_pane_id pid (public_pane_id_aliases a)\<rparr>
         in if emptied then close_emptied_source ws_idx a else a)
      else a)"

subsection \<open>Entering the destination\<close>

definition shift_for_insert :: "nat \<Rightarrow> nat \<Rightarrow> nat" where
  "shift_for_insert insert_idx i = (if i \<ge> insert_idx then i + 1 else i)"

definition recover_failed_pane_move ::
    "('g, 'r) effects \<Rightarrow> move_recovery_context \<Rightarrow> moved_pane \<Rightarrow> ('g, 'q, 'p, 'n, 'r) app \<Rightarrow> ('g, 'q, 'p, 'n, 'r) app option" where
  "recover_failed_pane_move eff context moved a =
     map_option (\<lambda>a. schedule_session_save (eff_now eff) (mark_session_dirty a))
       (case parse_workspace_id a (mrc_workspace_id context) of
          Some ws_idx \<Rightarrow>
            map_option (\<lambda>ws. a\<lparr>workspaces := (workspaces a)[ws_idx := fst (create_tab_from_existing_pane moved (mrc_tab_label context) ws)]\<rparr>)
              (vec_get (workspaces a) ws_idx)
        | None \<Rightarrow>
            (case ws_from_existing_pane (mrc_workspace_label context) (mrc_tab_label context) (mrc_identity_cwd context) moved
                    (eff_git eff (mrc_identity_cwd context)) (next_workspace_id a) of
               (ws, counter) \<Rightarrow>
                 (let ws = ws\<lparr>ws_id := mrc_workspace_id context, worktree_space := mrc_worktree_space context\<rparr>;
                      insert_idx = min (mrc_source_ws_idx context) (length (workspaces a))
                  in Some (a\<lparr>next_workspace_id := counter,
                       active := map_option (shift_for_insert insert_idx) (active a),
                       selected := (if workspaces a \<noteq> [] then shift_for_insert insert_idx (selected a) else selected a),
                       workspaces := vec_insert insert_idx ws (workspaces a)\<rparr>))))"

text \<open>Where the moved pane is put: the workspace, the tab, and whether each was created.\<close>

type_synonym placed = "nat \<times> nat \<times> bool \<times> bool"

definition place_moved_pane ::
    "('g, 'r) effects \<Rightarrow> resolved_destination \<Rightarrow> bool \<Rightarrow> string \<Rightarrow> moved_pane \<Rightarrow> ('g, 'q, 'p, 'n, 'r) app \<Rightarrow>
     (('g, 'q, 'p, 'n, 'r) app \<times> (moved_pane + placed)) option" where
  "place_moved_pane eff resolved foc source_terminal_id moved a =
     (case resolved of
        ExistingTab tab_id target split ratio _ \<Rightarrow>
          (case parse_tab_id a tab_id of
             None \<Rightarrow> Some (a, Inl moved)
           | Some (ws_idx, tab_idx) \<Rightarrow>
               map_option (\<lambda>ws.
                 (case insert_moved_pane_into_tab tab_idx target moved (split_direction_to_layout split) ratio foc ws of
                    (ws, Inl moved) \<Rightarrow> (a\<lparr>workspaces := (workspaces a)[ws_idx := ws]\<rparr>, Inl moved)
                  | (ws, Inr _) \<Rightarrow> (a\<lparr>workspaces := (workspaces a)[ws_idx := ws]\<rparr>, Inr (ws_idx, tab_idx, False, False))))
                 (vec_get (workspaces a) ws_idx))
      | ResolvedNewTab wid label \<Rightarrow>
          (case parse_workspace_id a wid of
             None \<Rightarrow> Some (a, Inl moved)
           | Some ws_idx \<Rightarrow>
               map_option (\<lambda>ws.
                 (case create_tab_from_existing_pane moved label ws of
                    (ws, tab_idx) \<Rightarrow> (a\<lparr>workspaces := (workspaces a)[ws_idx := ws]\<rparr>, Inr (ws_idx, tab_idx, False, True))))
                 (vec_get (workspaces a) ws_idx))
      | ResolvedNewWorkspace label tab_label \<Rightarrow>
          (let dir = (case hm_get (terminals a) source_terminal_id of
                        Some terminal \<Rightarrow> cwd terminal
                      | None \<Rightarrow> (case eff_current_dir eff of Some d \<Rightarrow> d | None \<Rightarrow> ''/''))
           in case ws_from_existing_pane label tab_label dir moved (eff_git eff dir) (next_workspace_id a) of
                (ws, counter) \<Rightarrow>
                  Some (a\<lparr>workspaces := workspaces a @ [ws], next_workspace_id := counter\<rparr>,
                        Inr (length (workspaces a), 0, True, True))))"

subsection \<open>The request\<close>

definition emit_some :: "('i \<Rightarrow> app_event) \<Rightarrow> 'i option \<Rightarrow> ('g, 'q, 'p, 'n, 'r) app \<Rightarrow> ('g, 'q, 'p, 'n, 'r) app" where
  "emit_some f x a = (case x of Some i \<Rightarrow> emit_event (f i) a | None \<Rightarrow> a)"

definition finish_pane_move ::
    "('g, 'r) effects \<Rightarrow> move_names \<Rightarrow> bool \<Rightarrow> pane_focus_target option \<Rightarrow> string option \<Rightarrow> string option \<Rightarrow> pane_id \<Rightarrow> placed \<Rightarrow>
     ('g, 'q, 'p, 'n, 'r) app \<Rightarrow> ('g, 'q, 'p, 'n, 'r) reply" where
  "finish_pane_move eff names foc previous_focus closed_workspace_id closed_tab_id pid placed a =
     (case placed of (ws_idx, tab_idx, created_workspace, created_tab) \<Rightarrow>
        (let a = (if foc \<or> active a = None then
                    (record_pane_focus_change previous_focus ws_idx pid (fst (switch_workspace_tab ws_idx tab_idx a)))\<lparr>mode := Terminal\<rparr>
                  else a)
         in case (if created_workspace then map_option Some (workspace_info_of a ws_idx) else Some None) of
              None \<Rightarrow> None
            | Some workspace \<Rightarrow>
                (let tab = (if created_tab then tab_info_of a ws_idx tab_idx else None);
                     a = schedule_session_save (eff_now eff) (mark_session_dirty (remove_alias_shadowed_by_new_pane pid a))
                 in case pane_info_of a ws_idx pid of
                      None \<Rightarrow> refuse ''pane_move_failed'' a
                    | Some pane \<Rightarrow>
                        (let source_layout = (if closed_workspace_id = None
                                              then Option.bind (parse_tab_id a (mn_tab_id names)) (\<lambda>(w, t). layout_snapshot a w t)
                                              else None)
                         in case layout_snapshot a ws_idx tab_idx of
                              None \<Rightarrow> refuse ''pane_layout_unavailable'' a
                            | Some target_layout \<Rightarrow>
                                (let result = \<lparr>pmr_changed = True, pmr_reason = None, pmr_previous_pane_id = mn_pane_id names,
                                       pmr_previous_workspace_id = mn_workspace_id names, pmr_previous_tab_id = mn_tab_id names,
                                       pmr_pane = pane, pmr_source_layout = source_layout, pmr_target_layout = target_layout,
                                       pmr_created_workspace = workspace, pmr_created_tab = tab,
                                       pmr_closed_workspace_id = closed_workspace_id, pmr_closed_tab_id = closed_tab_id\<rparr>;
                                     a = emit_some (\<lambda>t. TabClosed t (mn_workspace_id names)) closed_tab_id a;
                                     a = emit_some (\<lambda>w. WorkspaceClosed w None) closed_workspace_id a;
                                     a = emit_some WorkspaceCreated workspace a;
                                     a = emit_some TabCreated tab a;
                                     a = emit_event (PaneMoved result) a;
                                     a = emit_some LayoutUpdated source_layout a;
                                     a = emit_event (LayoutUpdated target_layout) a
                                 in Some (a, Inr (ResultPaneMove result)))))))"

definition move_taken_pane ::
    "('g, 'r) effects \<Rightarrow> move_names \<Rightarrow> move_recovery_context \<Rightarrow> resolved_destination \<Rightarrow> bool \<Rightarrow> nat \<Rightarrow> pane_id \<Rightarrow> string \<Rightarrow>
     ('g, 'q, 'p, 'n, 'r) app \<Rightarrow> ('g, 'q, 'p, 'n, 'r) reply" where
  "move_taken_pane eff names context resolved foc ws_idx pid source_terminal_id a =
     (let previous_focus = current_pane_focus_target a
      in case vec_get (workspaces a) ws_idx of
           None \<Rightarrow> refuse ''pane_move_failed'' a
         | Some ws \<Rightarrow>
             (case ws_take_pane_for_move pid ws of
                None \<Rightarrow> None
              | Some (ws, None) \<Rightarrow> refuse ''pane_move_failed'' (a\<lparr>workspaces := (workspaces a)[ws_idx := ws]\<rparr>)
              | Some (ws, Some taken) \<Rightarrow>
                  (let cross = crosses_workspace (mn_workspace_id names) resolved;
                       a = leave_source ws_idx pid (mn_pane_id names) cross (workspace_empty taken)
                             (a\<lparr>workspaces := (workspaces a)[ws_idx := ws]\<rparr>);
                       closed_workspace_id = (if workspace_empty taken \<and> cross then Some (mn_workspace_id names) else None);
                       closed_tab_id = map_option (\<lambda>_. mn_tab_id names) (removed_tab_idx taken)
                   in case place_moved_pane eff resolved foc source_terminal_id (taken_moved taken) a of
                        None \<Rightarrow> None
                      | Some (a, Inl moved) \<Rightarrow>
                          map_option (\<lambda>a. (a, Inl ''pane_move_failed'')) (recover_failed_pane_move eff context moved a)
                      | Some (a, Inr placed) \<Rightarrow>
                          finish_pane_move eff names foc previous_focus closed_workspace_id closed_tab_id
                            (moved_pane_id (taken_moved taken)) placed a)))"

definition handle_pane_move ::
    "('g, 'r) effects \<Rightarrow> string \<Rightarrow> pane_move_destination \<Rightarrow> bool \<Rightarrow> ('g, 'q, 'p, 'n, 'r) app \<Rightarrow> ('g, 'q, 'p, 'n, 'r) reply" where
  "handle_pane_move eff pane_id destination foc a =
     (case parse_pane_id a pane_id of
        None \<Rightarrow> refuse ''pane_not_found'' a
      | Some (ws_idx, pid) \<Rightarrow>
          (case vec_get (workspaces a) ws_idx of
             None \<Rightarrow> None
           | Some ws \<Rightarrow>
               (case find_tab_index_for_pane ws pid of
                  None \<Rightarrow> refuse ''pane_not_found'' a
                | Some tab_idx \<Rightarrow>
                    (case public_tab_id a ws_idx tab_idx of
                       None \<Rightarrow> refuse ''tab_not_found'' a
                     | Some previous_tab_id \<Rightarrow>
                         (case tab_terminal_id (tabs ws ! tab_idx) pid of
                            None \<Rightarrow> refuse ''pane_not_found'' a
                          | Some source_terminal_id \<Rightarrow>
                              (let names = \<lparr>mn_pane_id = (case public_pane_id a ws_idx pid of Some i \<Rightarrow> i | None \<Rightarrow> pane_id),
                                            mn_workspace_id = ws_id ws, mn_tab_id = previous_tab_id\<rparr>;
                                   context = \<lparr>mrc_source_ws_idx = ws_idx, mrc_workspace_id = ws_id ws,
                                              mrc_workspace_label = ws_custom_name ws, mrc_tab_label = tab_custom_name (tabs ws ! tab_idx),
                                              mrc_worktree_space = worktree_space ws, mrc_identity_cwd = identity_cwd ws\<rparr>
                               in if tab_zoomed (tabs ws ! tab_idx) then
                                    Some (a, unchanged_pane_move a ZoomedTab names ws_idx tab_idx pid ws_idx tab_idx)
                                  else
                                    (case resolve_destination a ws_idx tab_idx (ws_id ws) destination of
                                       None \<Rightarrow> None
                                     | Some (MoveError code) \<Rightarrow> refuse code a
                                     | Some (MoveUnchanged reason w t) \<Rightarrow>
                                         Some (a, unchanged_pane_move a reason names ws_idx tab_idx pid w t)
                                     | Some (MoveTo resolved) \<Rightarrow>
                                         move_taken_pane eff names context resolved foc ws_idx pid source_terminal_id a)))))))"

end
