(* ===== verification/App_Theorems.thy ===== *)
theory App_Theorems
  imports App_Moves
begin

text \<open>
  The invariant of the application and what rests on it: the workspaces are well formed and share no pane, no
  terminal and no id, the attached terminals exist, and the active and the selected workspace exist
  (\<open>AppState::assert_invariants_for_test\<close>); public ids resolve to what they name, also those of panes that moved.
\<close>

subsection \<open>Lists of workspaces\<close>

definition spaces_ok :: "'g workspace list \<Rightarrow> bool" where
  "spaces_ok wss \<longleftrightarrow>
     (\<forall>ws \<in> set wss. ws_inv ws) \<and> distinct (map ws_id wss) \<and> distinct (concat (map ws_panes wss)) \<and> distinct (concat (map ws_terms wss))"

definition focus_ok :: "'g workspace list \<Rightarrow> nat option \<Rightarrow> nat \<Rightarrow> bool" where
  "focus_ok wss act sel \<longleftrightarrow>
     (if wss = [] then act = None \<and> sel = 0 else sel < length wss \<and> (\<exists>i. act = Some i \<and> i < length wss))"

definition space_terms :: "'g workspace list \<Rightarrow> string list" where
  "space_terms wss = concat (map ws_terms wss)"

definition space_panes :: "'g workspace list \<Rightarrow> pane_id list" where
  "space_panes wss = concat (map ws_panes wss)"

definition core :: "'g workspace list \<Rightarrow> nat option \<Rightarrow> nat \<Rightarrow> (string, 'q terminal_state) hmap \<Rightarrow> bool" where
  "core wss act sel terms \<longleftrightarrow> spaces_ok wss \<and> focus_ok wss act sel \<and> hm_ok terms \<and> set (space_terms wss) \<subseteq> set (hm_keys terms)"

text \<open>
  A public pane id that was given away is never given again: a workspace does not have its number any more, and
  will not use it.
\<close>

definition retired :: "'g workspace \<Rightarrow> string \<Rightarrow> bool" where
  "retired ws s \<longleftrightarrow>
     (\<forall>n. s = public_pane_id_for_number (ws_id ws) n \<longrightarrow> 0 < n \<longrightarrow> n < 2 ^ 64 \<longrightarrow>
        n < unat (next_public_pane_number ws) \<and> n \<notin> unat ` snd ` set (public_pane_numbers ws))"

definition workspace_id_for :: "nat \<Rightarrow> string" where
  "workspace_id_for k = ''w'' @ encode_public_number k"

definition named_below :: "u64 \<Rightarrow> u32 \<Rightarrow> 'g workspace \<Rightarrow> bool" where
  "named_below counter n ws \<longleftrightarrow>
     (\<exists>k. ws_id ws = workspace_id_for k \<and> 0 < k \<and> k < unat counter) \<and> (\<forall>p \<in> set (ws_panes ws). p < n)"

definition naming :: "'g workspace list \<Rightarrow> (string, pane_id) hmap \<Rightarrow> u64 \<Rightarrow> u32 \<Rightarrow> bool" where
  "naming wss aliases counter n \<longleftrightarrow>
     0 < counter \<and> (\<forall>ws \<in> set wss. named_below counter n ws) \<and>
     (\<forall>s \<in> set (hm_keys aliases).
        (\<exists>k m. s = public_pane_id_for_number (workspace_id_for k) m \<and> 0 < k \<and> k < unat counter \<and> 0 < m \<and> m < 2 ^ 64) \<and>
        (\<forall>ws \<in> set wss. retired ws s))"

definition app_inv :: "('g, 'q, 'p, 'n, 'r) app \<Rightarrow> bool" where
  "app_inv a \<longleftrightarrow>
     core (workspaces a) (active a) (selected a) (terminals a)
     \<and> naming (workspaces a) (public_pane_id_aliases a) (next_workspace_id a) (next_pane_id a)"

lemma mem_space_panes: "p \<in> set (space_panes wss) \<longleftrightarrow> (\<exists>ws \<in> set wss. p \<in> set (ws_panes ws))"
  by (auto simp: space_panes_def)

lemma mem_space_terms: "t \<in> set (space_terms wss) \<longleftrightarrow> (\<exists>ws \<in> set wss. t \<in> set (ws_terms ws))"
  by (auto simp: space_terms_def)

lemma ws_inv_distinct: "ws_inv ws \<Longrightarrow> distinct (ws_panes ws)" "ws_inv ws \<Longrightarrow> distinct (ws_terms ws)"
  by (simp_all add: ws_inv_def ws_ok_def tabs_ok_def ws_panes_def ws_terms_def)

lemma spaces_ok_apart:
  assumes "spaces_ok (xs @ ws # ys)"
  shows "\<forall>u \<in> set xs \<union> set ys. set (ws_panes ws) \<inter> set (ws_panes u) = {}"
    and "\<forall>u \<in> set xs \<union> set ys. set (ws_terms ws) \<inter> set (ws_terms u) = {}"
    and "\<forall>u \<in> set xs \<union> set ys. ws_id u \<noteq> ws_id ws"
proof -
  show "\<forall>u \<in> set xs \<union> set ys. set (ws_panes ws) \<inter> set (ws_panes u) = {}"
    and "\<forall>u \<in> set xs \<union> set ys. set (ws_terms ws) \<inter> set (ws_terms u) = {}" using assms by (auto simp: spaces_ok_def)
  have "ws_id ws \<notin> ws_id ` (set xs \<union> set ys)" using assms by (auto simp: spaces_ok_def)
  then show "\<forall>u \<in> set xs \<union> set ys. ws_id u \<noteq> ws_id ws" by (metis imageI)
qed

lemma spaces_ok_remove: "spaces_ok (xs @ ws # ys) \<Longrightarrow> spaces_ok (xs @ ys)"
  by (auto simp: spaces_ok_def)

lemma spaces_ok_replace:
  assumes ok: "spaces_ok (xs @ ws # ys)" and ws': "ws_inv ws'" "ws_id ws' = ws_id ws"
    and "\<forall>u \<in> set xs \<union> set ys. set (ws_panes ws') \<inter> set (ws_panes u) = {}"
    and "\<forall>u \<in> set xs \<union> set ys. set (ws_terms ws') \<inter> set (ws_terms u) = {}"
  shows "spaces_ok (xs @ ws' # ys)"
  using assms ws_inv_distinct [OF ws'(1)]
  by (simp add: spaces_ok_def) (auto simp: Int_Un_distrib Int_Un_distrib2)

lemma spaces_ok_snoc:
  assumes "spaces_ok wss" and ws: "ws_inv ws" "ws_id ws \<notin> ws_id ` set wss"
    and "set (ws_panes ws) \<inter> set (space_panes wss) = {}" and "set (ws_terms ws) \<inter> set (space_terms wss) = {}"
  shows "spaces_ok (wss @ [ws])"
  using assms ws_inv_distinct [OF ws(1)] by (auto simp: spaces_ok_def space_panes_def space_terms_def)

lemma spaces_ok_perm:
  assumes "mset ys = mset xs"
  shows "spaces_ok ys \<longleftrightarrow> spaces_ok xs"
proof -
  have "distinct (map ws_id ys) \<longleftrightarrow> distinct (map ws_id xs)"
    by (rule mset_eq_imp_distinct_iff) (use assms in simp)
  then show ?thesis by (simp only: spaces_ok_def mset_eq_setD [OF assms] distinct_concat_perm [OF assms])
qed

lemma update_decomp:
  assumes "i < length xs"
  obtains ys x zs where "xs = ys @ x # zs" and "length ys = i" and "xs ! i = x" and "\<And>y. xs[i := y] = ys @ y # zs"
proof -
  from assms obtain ys x zs where d: "xs = ys @ x # zs" "length ys = i" "xs ! i = x" by (rule vec_decomp)
  then have "xs[i := y] = ys @ y # zs" for y by auto
  with d that show thesis by blast
qed

subsection \<open>A workspace that keeps or gains panes\<close>

definition kept :: "'g workspace \<Rightarrow> 'g workspace \<Rightarrow> bool" where
  "kept ws ws' \<longleftrightarrow>
     ws_inv ws' \<and> ws_id ws' = ws_id ws \<and> set (ws_panes ws') \<subseteq> set (ws_panes ws) \<and> set (ws_terms ws') \<subseteq> set (ws_terms ws)
     \<and> next_public_pane_number ws' = next_public_pane_number ws
     \<and> set (public_pane_numbers ws') \<subseteq> set (public_pane_numbers ws)"

definition grown :: "pane_id \<Rightarrow> string \<Rightarrow> 'g workspace \<Rightarrow> 'g workspace \<Rightarrow> bool" where
  "grown pid tid ws ws' \<longleftrightarrow>
     ws_inv ws' \<and> ws_id ws' = ws_id ws \<and> set (ws_panes ws') = insert pid (set (ws_panes ws))
     \<and> set (ws_terms ws') = insert tid (set (ws_terms ws))
     \<and> next_public_pane_number ws' = next_public_pane_number ws + 1 \<and> next_public_pane_number ws + 1 \<noteq> 0
     \<and> public_pane_numbers ws' = hm_insert pid (next_public_pane_number ws) (public_pane_numbers ws)"

lemma kept_refl: "ws_inv ws \<Longrightarrow> kept ws ws"
  by (simp add: kept_def)

lemma kept_trans: "kept ws ws' \<Longrightarrow> kept ws' ws'' \<Longrightarrow> kept ws ws''"
  unfolding kept_def by (metis subset_trans)

lemma grown_kept: "grown pid tid ws ws' \<Longrightarrow> kept ws' ws'' \<Longrightarrow> set (ws_panes ws'') = set (ws_panes ws') \<Longrightarrow>
    set (ws_terms ws'') = set (ws_terms ws') \<Longrightarrow> public_pane_numbers ws'' = public_pane_numbers ws' \<Longrightarrow> grown pid tid ws ws''"
  unfolding grown_def kept_def by simp

lemma kept_retired: "kept ws ws' \<Longrightarrow> retired ws s \<Longrightarrow> retired ws' s"
  unfolding kept_def retired_def by (metis image_mono subsetD)

lemma set_hm_insert: "set (hm_insert k v m) \<subseteq> insert (k, v) (set m)"
proof (induction m)
  case (Cons e m)
  then show ?case by (cases e) (auto simp: hm_insert_def)
qed (simp add: hm_insert_def)

lemma register_retired:
  assumes "retired ws s" and "next_public_pane_number ws + 1 \<noteq> 0" and "ws_id ws' = ws_id ws"
    and "next_public_pane_number ws' = next_public_pane_number ws + 1"
    and "set (public_pane_numbers ws') \<subseteq> insert (pid, next_public_pane_number ws) (set (public_pane_numbers ws))"
  shows "retired ws' s"
proof -
  let ?n = "next_public_pane_number ws"
  have suc: "unat (?n + 1) = Suc (unat ?n)" by (rule unat_succ [OF assms(2)])
  have sub: "unat ` snd ` set (public_pane_numbers ws') \<subseteq> insert (unat ?n) (unat ` snd ` set (public_pane_numbers ws))"
    using image_mono [OF image_mono [OF assms(5), of snd], of unat] by simp
  have "n < unat (?n + 1) \<and> n \<notin> unat ` snd ` set (public_pane_numbers ws')"
    if "s = public_pane_id_for_number (ws_id ws) n" "0 < n" "n < 2 ^ 64" for n
  proof -
    have n: "n < unat ?n" "n \<notin> unat ` snd ` set (public_pane_numbers ws)" using assms(1) that unfolding retired_def by blast+
    then have "n \<notin> insert (unat ?n) (unat ` snd ` set (public_pane_numbers ws))" by simp
    with sub have "n \<notin> unat ` snd ` set (public_pane_numbers ws')" by blast
    with n(1) suc show ?thesis by simp
  qed
  then show ?thesis unfolding retired_def assms(3,4) by blast
qed

lemma grown_retired: "grown pid tid ws ws' \<Longrightarrow> retired ws s \<Longrightarrow> retired ws' s"
  using register_retired [of ws s ws' pid] set_hm_insert unfolding grown_def by metis

lemma naming_update:
  assumes "naming wss al c n" and "i < length wss" and "named_below c n ws'" and "\<And>s. retired (wss ! i) s \<Longrightarrow> retired ws' s"
  shows "naming (wss[i := ws']) al c n"
proof -
  have "set (wss[i := ws']) \<subseteq> insert ws' (set wss)" by (rule set_update_subset_insert)
  moreover have "wss ! i \<in> set wss" using assms(2) by simp
  ultimately show ?thesis using assms unfolding naming_def by blast
qed

lemma naming_subset: "naming wss al c n \<Longrightarrow> set wss' \<subseteq> set wss \<Longrightarrow> set (hm_keys al') \<subseteq> set (hm_keys al) \<Longrightarrow> naming wss' al' c n"
  unfolding naming_def by blast

lemma core_kept:
  assumes "core wss act sel terms" and i: "i < length wss" and "kept (wss ! i) ws'"
  shows "core (wss[i := ws']) act sel terms"
proof -
  from i obtain xs ws ys where d: "wss = xs @ ws # ys" "length xs = i" "wss ! i = ws" "\<And>y. wss[i := y] = xs @ y # ys"
    by (rule update_decomp) blast
  from assms have ok: "spaces_ok (xs @ ws # ys)" and k: "kept ws ws'" using d(3) by (simp_all add: core_def d(1))
  have "spaces_ok (xs @ ws' # ys)"
    using k spaces_ok_apart [OF ok] unfolding kept_def by (intro spaces_ok_replace [OF ok]) blast+
  moreover have "focus_ok (wss[i := ws']) act sel" using assms(1) by (simp add: core_def focus_ok_def)
  moreover have "set (space_terms (xs @ ws' # ys)) \<subseteq> set (space_terms wss)" using k by (auto simp: d(1) space_terms_def kept_def)
  ultimately show ?thesis using assms(1) unfolding core_def d(4) by (meson subset_trans)
qed

lemma core_grown:
  assumes "core wss act sel terms" and i: "i < length wss" and g: "grown pid tid (wss ! i) ws'"
    and fresh: "pid \<notin> set (space_panes wss)" "tid \<notin> set (space_terms wss)"
    and terms': "hm_ok terms'" "set (hm_keys terms') = insert tid (set (hm_keys terms))"
  shows "core (wss[i := ws']) act sel terms'"
proof -
  from i obtain xs ws ys where d: "wss = xs @ ws # ys" "length xs = i" "wss ! i = ws" "\<And>y. wss[i := y] = xs @ y # ys"
    by (rule update_decomp) blast
  from assms have ok: "spaces_ok (xs @ ws # ys)" and g': "grown pid tid ws ws'" using d(3) by (simp_all add: core_def d(1))
  have "spaces_ok (xs @ ws' # ys)"
  proof (rule spaces_ok_replace [OF ok])
    show "ws_inv ws'" "ws_id ws' = ws_id ws" using g' by (simp_all add: grown_def)
    have "\<forall>u \<in> set xs \<union> set ys. pid \<notin> set (ws_panes u) \<and> tid \<notin> set (ws_terms u)"
      using fresh by (auto simp: d(1) space_panes_def space_terms_def)
    with g' spaces_ok_apart(1,2) [OF ok] show "\<forall>u \<in> set xs \<union> set ys. set (ws_panes ws') \<inter> set (ws_panes u) = {}"
      "\<forall>u \<in> set xs \<union> set ys. set (ws_terms ws') \<inter> set (ws_terms u) = {}" unfolding grown_def by simp_all
  qed
  moreover have "focus_ok (wss[i := ws']) act sel" using assms(1) by (simp add: core_def focus_ok_def)
  moreover have "set (space_terms (xs @ ws' # ys)) \<subseteq> insert tid (set (space_terms wss))" using g' by (auto simp: d(1) space_terms_def grown_def)
  ultimately show ?thesis using assms(1) terms' unfolding core_def d(4) by blast
qed

lemma app_inv_kept:
  assumes "app_inv a" and "i < length (workspaces a)" and "kept (workspaces a ! i) ws'"
  shows "app_inv (a\<lparr>workspaces := (workspaces a)[i := ws']\<rparr>)"
proof -
  have "workspaces a ! i \<in> set (workspaces a)" using assms(2) by simp
  with assms(1) have "named_below (next_workspace_id a) (next_pane_id a) (workspaces a ! i)" unfolding app_inv_def naming_def by blast
  with assms(3) have "named_below (next_workspace_id a) (next_pane_id a) ws'" unfolding named_below_def kept_def by auto
  then have "naming ((workspaces a)[i := ws']) (public_pane_id_aliases a) (next_workspace_id a) (next_pane_id a)"
    using assms(1) kept_retired [OF assms(3)] unfolding app_inv_def by (intro naming_update [OF _ assms(2)]) simp_all
  moreover have "core ((workspaces a)[i := ws']) (active a) (selected a) (terminals a)"
    using assms(1) unfolding app_inv_def by (intro core_kept [OF _ assms(2,3)]) simp
  ultimately show ?thesis by (simp add: app_inv_def)
qed

subsection \<open>Public ids\<close>

lemma id_chars: "c \<in> set (workspace_id_for k) \<Longrightarrow> c \<noteq> CHR '':''"
  using encoded_chars [of c k] by (auto simp: workspace_id_for_def PUBLIC_ID_ALPHABET_def)

lemma number_chars: "c \<in> set (encode_public_number k) \<Longrightarrow> c \<noteq> CHR '':''"
  using encoded_chars [of c k] by (auto simp: PUBLIC_ID_ALPHABET_def)

lemma split_at_unique:
  assumes "xs @ c # ys = xs' @ c # ys'" and "c \<notin> set xs" and "c \<notin> set xs'"
  shows "xs = xs' \<and> ys = ys'"
  using assms
proof (induction xs arbitrary: xs')
  case Nil
  then show ?case by (cases xs') auto
next
  case (Cons x xs)
  then show ?case by (cases xs') auto
qed

lemma workspace_id_inj: "workspace_id_for k = workspace_id_for k' \<Longrightarrow> 0 < k \<Longrightarrow> k < 2 ^ 64 \<Longrightarrow> 0 < k' \<Longrightarrow> k' < 2 ^ 64 \<Longrightarrow> k = k'"
  by (simp add: workspace_id_for_def encode_inj)

lemma public_pane_id_inj:
  assumes "public_pane_id_for_number (workspace_id_for k) n = public_pane_id_for_number (workspace_id_for k') n'"
  shows "workspace_id_for k = workspace_id_for k'" and "encode_public_number n = encode_public_number n'"
proof -
  from assms have "workspace_id_for k @ CHR '':'' # (''p'' @ encode_public_number n) = workspace_id_for k' @ CHR '':'' # (''p'' @ encode_public_number n')"
    by (simp add: public_pane_id_for_number_def)
  from split_at_unique [OF this] id_chars show "workspace_id_for k = workspace_id_for k'" "encode_public_number n = encode_public_number n'" by blast+
qed

lemma rsplit_once_None: "c \<notin> set s \<Longrightarrow> rsplit_once (c # d) s = None"
proof (induction s)
  case (Cons x s)
  then have "strip_prefix (c # d) (x # s) = None" by (auto simp: strip_prefix_def starts_with_def)
  with Cons show ?case by simp
qed simp

lemma rsplit_once_last:
  assumes "c \<notin> set y" and "c \<notin> set d"
  shows "rsplit_once (c # d) (x @ c # d @ y) = Some (x, y)"
proof (induction x)
  case Nil
  have "rsplit_once (c # d) (d @ y) = None" using assms by (intro rsplit_once_None) simp
  moreover have "strip_prefix (c # d) (c # d @ y) = Some y" using strip_prefix_append [of "c # d" y] by simp
  ultimately show ?case by simp
qed simp

lemma distinct_position:
  assumes "distinct (map ws_id wss)" and "i < length wss"
  shows "position_of_id wss (ws_id (wss ! i)) = Some i"
proof -
  from assms(2) obtain xs ws ys where d: "wss = xs @ ws # ys" "length xs = i" "wss ! i = ws" by (rule vec_decomp)
  have "ws_id ws \<notin> ws_id ` set xs" using assms(1) by (auto simp: d(1))
  then have "\<forall>u \<in> set xs. ws_id u \<noteq> ws_id ws" by (metis imageI)
  then have "position (\<lambda>u. ws_id u = ws_id ws) (xs @ ws # ys) = Some (length xs)" by (intro position_append) simp_all
  with d show ?thesis by (simp add: position_of_id_def)
qed

lemma parse_listed_workspace_id:
  "distinct (map ws_id (workspaces a)) \<Longrightarrow> i < length (workspaces a) \<Longrightarrow> parse_workspace_id a (ws_id (workspaces a ! i)) = Some i"
  by (simp add: parse_workspace_id_def distinct_position)

lemma named_position:
  assumes "spaces_ok wss" and "i < length wss"
  shows "position_of_id wss (ws_id (wss ! i)) = Some i"
  using distinct_position [of wss i] assms by (simp add: spaces_ok_def)

lemma parse_own_workspace_id:
  "spaces_ok (workspaces a) \<Longrightarrow> i < length (workspaces a) \<Longrightarrow> parse_workspace_id a (ws_id (workspaces a ! i)) = Some i"
  by (simp add: parse_workspace_id_def named_position)

lemma strip_prefix_head: "x \<noteq> y \<Longrightarrow> strip_prefix (x # p) (y # s) = None"
  by (simp add: strip_prefix_def starts_with_def)

lemma parse_listed_tab_id:
  assumes dis: "distinct (map ws_id (workspaces a))" and i: "i < length (workspaces a)" and k: "ws_id (workspaces a ! i) = workspace_id_for k"
    and tok: "tabs_ok N (tabs (workspaces a ! i))" and j: "j < length (tabs (workspaces a ! i))"
  shows "parse_tab_id a (public_tab_id_for_number (ws_id (workspaces a ! i)) (unat (tab_number (tabs (workspaces a ! i) ! j)))) = Some (i, j)"
proof -
  let ?ws = "workspaces a ! i"
  let ?n = "unat (tab_number (tabs ?ws ! j))"
  have mem: "tabs ?ws ! j \<in> set (tabs ?ws)" using j by simp
  have pos: "0 < ?n" using tok mem unfolding tabs_ok_def by (metis unat_gt_0 word_neq_0_conv)
  have dist: "distinct (map tab_number (tabs ?ws))" using tok unfolding tabs_ok_def by blast
  have "\<forall>u \<in> set (take j (tabs ?ws)). unat (tab_number u) \<noteq> ?n"
  proof
    fix u assume "u \<in> set (take j (tabs ?ws))"
    then obtain l where l: "l < j" "u = tabs ?ws ! l" using j by (auto simp: in_set_conv_nth)
    then have "tab_number u \<noteq> tab_number (tabs ?ws ! j)" using nth_eq_iff_index_eq [OF dist, of l j] j by simp
    then show "unat (tab_number u) \<noteq> ?n" by (blast dest: unsigned_word_eqI)
  qed
  then have "position (\<lambda>t. unat (tab_number t) = ?n) (take j (tabs ?ws) @ tabs ?ws ! j # drop (Suc j) (tabs ?ws)) = Some (length (take j (tabs ?ws)))"
    by (intro position_append) simp_all
  then have p: "position (\<lambda>t. unat (tab_number t) = ?n) (tabs ?ws) = Some j" using j by (simp flip: id_take_nth_drop)
  let ?tid = "public_tab_id_for_number (ws_id ?ws) ?n"
  have "\<And>c. c \<in> set (''t'' @ encode_public_number ?n) \<Longrightarrow> c \<noteq> CHR '':''" using number_chars by fastforce
  then have r: "rsplit_once '':'' ?tid = Some (ws_id ?ws, ''t'' @ encode_public_number ?n)"
    using rsplit_once_last [of "CHR '':''" "''t'' @ encode_public_number ?n" "[]" "ws_id ?ws"] by (auto simp: public_tab_id_for_number_def)
  have s: "strip_prefix ''t_'' ?tid = None" by (simp add: public_tab_id_for_number_def k workspace_id_for_def strip_prefix_head)
  have d: "decode_public_number (encode_public_number ?n) = Some ?n" using pos unat_lt_pow [of "tab_number (tabs ?ws ! j)"] by (intro decode_encode) simp_all
  have e: "strip_prefix ''t'' (''t'' @ encode_public_number ?n) = Some (encode_public_number ?n)" by (rule strip_prefix_append)
  show ?thesis
    unfolding parse_tab_id_def s using i j by (simp add: r e [simplified] d p parse_listed_workspace_id [OF dis i] vec_get_def tab_in_range_def)
qed

lemma parse_own_tab_id:
  assumes inv: "app_inv a" and i: "i < length (workspaces a)" and j: "j < length (tabs (workspaces a ! i))"
  shows "\<exists>tid. public_tab_id a i j = Some tid \<and> parse_tab_id a tid = Some (i, j)"
proof -
  from inv have ok: "spaces_ok (workspaces a)" by (simp add: app_inv_def core_def)
  have mem: "workspaces a ! i \<in> set (workspaces a)" using i by simp
  from inv mem obtain k where k: "ws_id (workspaces a ! i) = workspace_id_for k" unfolding app_inv_def naming_def named_below_def by blast
  have tok: "tabs_ok (next_public_tab_number (workspaces a ! i)) (tabs (workspaces a ! i))" using ok mem unfolding spaces_ok_def ws_inv_def ws_ok_def by blast
  from ok have dis: "distinct (map ws_id (workspaces a))" by (simp add: spaces_ok_def)
  from parse_listed_tab_id [OF dis i k tok j] i j show ?thesis by (simp add: public_tab_id_def vec_get_def public_tab_number_def)
qed

lemma find_number:
  assumes "numbers_ok n m" and "hm_get m p = Some k"
  shows "List.find (\<lambda>e. unat (snd e) = unat k) m = Some (p, k)"
proof -
  from assms have mem: "(p, k) \<in> set m" by (rule_tac hm_get_mem)
  then obtain e where e: "List.find (\<lambda>e. unat (snd e) = unat k) m = Some e"
    by (cases "List.find (\<lambda>e. unat (snd e) = unat k) m") (auto simp: find_None_iff)
  then have "e \<in> set m" "snd e = k" using find_mem [OF e] by (blast dest: unsigned_word_eqI)+
  with assms(1) mem have "e = (p, k)" by (auto simp: numbers_ok_def distinct_map inj_on_def)
  with e show ?thesis by simp
qed

lemma numbered_pane:
  assumes "ws_inv ws" and "p \<in> set (ws_panes ws)"
  obtains k where "public_pane_number ws p = Some k" and "0 < k" and "k < next_public_pane_number ws"
proof -
  from assms have "p \<in> set (hm_keys (public_pane_numbers ws))" and n: "numbers_ok (next_public_pane_number ws) (public_pane_numbers ws)"
    unfolding ws_inv_def ws_ok_def by blast+
  then obtain k where k: "hm_get (public_pane_numbers ws) p = Some k" using hm_get_keys [of "public_pane_numbers ws" p] by auto
  from hm_get_mem [OF this] n have "0 < k" "k < next_public_pane_number ws" unfolding numbers_ok_def by force+
  with k show thesis by (intro that) (simp_all add: public_pane_number_def)
qed

lemma parse_own_pane_id:
  assumes inv: "app_inv a" and i: "i < length (workspaces a)" and p: "p \<in> set (ws_panes (workspaces a ! i))"
  shows "\<exists>s. public_pane_id a i p = Some s \<and> hm_get (public_pane_id_aliases a) s = None \<and> parse_pane_id a s = Some (i, p)"
proof -
  let ?ws = "workspaces a ! i"
  have mem: "?ws \<in> set (workspaces a)" using i by simp
  from inv have ok: "spaces_ok (workspaces a)" by (simp add: app_inv_def core_def)
  then have ws: "ws_inv ?ws" using mem by (simp add: spaces_ok_def)
  from numbered_pane [OF ws p] obtain n where n: "public_pane_number ?ws p = Some n" "0 < n" "n < next_public_pane_number ?ws" .
  let ?n = "unat n"
  have pos: "0 < ?n" "?n < 2 ^ 64" using n(2) unat_lt_pow [of n] by (simp_all add: unat_gt_0 word_neq_0_conv)
  from inv mem obtain k where k: "ws_id ?ws = workspace_id_for k" unfolding app_inv_def naming_def named_below_def by blast
  let ?s = "public_pane_id_for_number (ws_id ?ws) ?n"
  have num: "numbers_ok (next_public_pane_number ?ws) (public_pane_numbers ?ws)" using ws by (simp add: ws_inv_def ws_ok_def)
  have get: "hm_get (public_pane_numbers ?ws) p = Some n" using n(1) by (simp add: public_pane_number_def)
  have "(p, n) \<in> set (public_pane_numbers ?ws)" by (rule hm_get_mem [OF get])
  then have "?n \<in> unat ` snd ` set (public_pane_numbers ?ws)" by (metis imageI snd_conv)
  then have "\<not> retired ?ws ?s" using pos unfolding retired_def by blast
  then have "?s \<notin> set (hm_keys (public_pane_id_aliases a))" using inv mem unfolding app_inv_def naming_def by blast
  then have al: "hm_get (public_pane_id_aliases a) ?s = None" using hm_get_keys [of "public_pane_id_aliases a" ?s] by blast
  have r: "rsplit_once '':p'' ?s = Some (ws_id ?ws, encode_public_number ?n)"
    using number_chars rsplit_once_last [of "CHR '':''" "encode_public_number ?n" "''p''" "ws_id ?ws"] by (auto simp: public_pane_id_for_number_def)
  have s: "strip_prefix ''p_'' ?s = None" by (simp add: public_pane_id_for_number_def k workspace_id_for_def strip_prefix_head)
  have d: "decode_public_number (encode_public_number ?n) = Some ?n" by (rule decode_encode [OF pos])
  have "parse_pane_id a ?s = Some (i, p)"
    unfolding parse_pane_id_def al s r using i by (simp add: d parse_own_workspace_id [OF ok i] pane_with_number_def vec_get_def find_number [OF num get])
  moreover have "public_pane_id a i p = Some ?s" using i n(1) by (simp add: public_pane_id_def vec_get_def)
  ultimately show ?thesis using al by blast
qed

subsection \<open>What leaves the workspaces alone\<close>

named_theorems app_frame

definition app_view where
  "app_view a = (workspaces a, active a, selected a, terminals a, public_pane_id_aliases a, next_workspace_id a, next_pane_id a)"

lemma app_inv_view: "app_view b = app_view a \<Longrightarrow> app_inv b = app_inv a"
  by (simp add: app_view_def app_inv_def)

lemma app_view_simps [app_frame]:
  fixes a :: "('g, 'q, 'p, 'n, 'r) app"
  shows "app_view (mark_session_dirty a) = app_view a" "app_view (remove_alias_shadowed_by_new_pane p a) = app_view a"
    "app_view (record_pane_focus_change f i p a) = app_view a" "app_view (record_pane_focus_after_navigation f a) = app_view a"
    "app_view (emit_event e a) = app_view a" "app_view (schedule_session_save t a) = app_view a"
    "app_view (shutdown_detached_terminal_runtimes a) = app_view a" "app_view (remove_plugin_pane_records ps a) = app_view a"
    "app_view (emit_layout_updated_event i j a) = app_view a" "app_view (emit_some g x a) = app_view a"
    "app_view (emit_tab_created_events i j a) = app_view a" "app_view (a\<lparr>mode := m\<rparr>) = app_view a"
    "app_view (a\<lparr>terminal_runtimes := rt\<rparr>) = app_view a"
  by (simp_all add: app_view_def mark_session_dirty_def remove_alias_shadowed_by_new_pane_def record_pane_focus_change_def
      record_pane_focus_after_navigation_def emit_event_def schedule_session_save_def shutdown_detached_terminal_runtimes_def
      remove_plugin_pane_records_def emit_layout_updated_event_def emit_some_def emit_tab_created_events_def Let_def split: option.split)

lemma app_view_fields:
  assumes "app_view b = app_view a"
  shows "workspaces b = workspaces a" "active b = active a" "selected b = selected a" "terminals b = terminals a"
    "public_pane_id_aliases b = public_pane_id_aliases a" "next_workspace_id b = next_workspace_id a" "next_pane_id b = next_pane_id a"
  using assms by (simp_all add: app_view_def)

lemmas app_fields [app_frame] = app_view_simps [THEN app_view_fields(1)] app_view_simps [THEN app_view_fields(2)]
  app_view_simps [THEN app_view_fields(3)] app_view_simps [THEN app_view_fields(4)] app_view_simps [THEN app_view_fields(5)]
  app_view_simps [THEN app_view_fields(6)] app_view_simps [THEN app_view_fields(7)]

lemmas app_inv_frame [app_frame] = app_view_simps [THEN app_inv_view]

lemma app_spaces: "app_inv a \<Longrightarrow> spaces_ok (workspaces a)"
  by (simp add: app_inv_def core_def)

lemma app_ws_inv: "app_inv a \<Longrightarrow> i < length (workspaces a) \<Longrightarrow> ws_inv (workspaces a ! i)"
  by (simp add: app_inv_def core_def spaces_ok_def)

lemma vec_get_Some: "vec_get xs i = Some x \<longleftrightarrow> i < length xs \<and> xs ! i = x"
  by (simp add: vec_get_def)

subsection \<open>Infos are complete\<close>

lemma find_tab_of_member:
  assumes "ws_inv ws" and "p \<in> set (ws_panes ws)"
  obtains j where "find_tab_index_for_pane ws p = Some j" and "j < length (tabs ws)" and "p \<in> tab_ids (tabs ws ! j)"
proof -
  from assms(1) have "tabs_ok (next_public_tab_number ws) (tabs ws)" by (simp add: ws_inv_def ws_ok_def)
  from find_tab_decomp [OF this assms(2)] obtain xs t ys where "tabs ws = xs @ t # ys" "find_tab_index_for_pane ws p = Some (length xs)" "p \<in> tab_ids t" .
  then show thesis by (intro that [of "length xs"]) simp_all
qed

lemma pane_state_of_member:
  assumes "ws_inv ws" and "p \<in> set (ws_panes ws)"
  obtains pane where "ws_pane_state ws p = Some pane" and "attached_terminal_id pane \<in> set (ws_terms ws)"
proof -
  from assms(1) have tok: "tabs_ok (next_public_tab_number ws) (tabs ws)" by (simp add: ws_inv_def ws_ok_def)
  from find_tab_decomp [OF this assms(2)] obtain xs t ys where d: "tabs ws = xs @ t # ys" "p \<in> tab_ids t" by metis
  from ws_pane_state_decomp [OF tok [unfolded d(1)] d(2)] obtain pane where
    "find_map (\<lambda>t. hm_get (tab_panes t) p) (xs @ t # ys) = Some pane" "attached_terminal_id pane \<in> set (tab_terminals t)" by auto
  with d show thesis by (intro that [of pane]) (auto simp: ws_pane_state_def mem_ws_terms)
qed

lemma pane_info_some:
  assumes inv: "app_inv a" and i: "i < length (workspaces a)" and p: "p \<in> set (ws_panes (workspaces a ! i))"
  obtains x where "pane_info_of a i p = Some x"
proof -
  note ws = app_ws_inv [OF inv i]
  from pane_state_of_member [OF ws p] obtain pane where pane: "ws_pane_state (workspaces a ! i) p = Some pane"
    "attached_terminal_id pane \<in> set (ws_terms (workspaces a ! i))" .
  then have "attached_terminal_id pane \<in> set (space_terms (workspaces a))" using i by (auto simp: mem_space_terms)
  then have "attached_terminal_id pane \<in> set (hm_keys (terminals a))" using inv unfolding app_inv_def core_def by blast
  then obtain terminal where t: "hm_get (terminals a) (attached_terminal_id pane) = Some terminal" using hm_get_keys by fastforce
  from find_tab_of_member [OF ws p] obtain j where j: "find_tab_index_for_pane (workspaces a ! i) p = Some j" "j < length (tabs (workspaces a ! i))" .
  from parse_own_tab_id [OF inv i j(2)] parse_own_pane_id [OF inv i p] obtain tid s where "public_tab_id a i j = Some tid" "public_pane_id a i p = Some s" by blast
  with pane t j i that show thesis by (simp add: pane_info_of_def vec_get_def)
qed

lemma tab_info_some:
  assumes "app_inv a" and "i < length (workspaces a)" and "j < length (tabs (workspaces a ! i))"
  obtains x where "tab_info_of a i j = Some x"
  using parse_own_tab_id [OF assms] assms(2,3) that by (auto simp: tab_info_of_def vec_get_def)

lemma workspace_info_some: "i < length (workspaces a) \<Longrightarrow> \<exists>x. workspace_info_of a i = Some x"
  by (simp add: workspace_info_of_def vec_get_def)

lemma tab_pane_member: "j < length (tabs ws) \<Longrightarrow> p \<in> tab_ids (tabs ws ! j) \<Longrightarrow> p \<in> set (ws_panes ws)"
  by (auto simp: mem_ws_panes)

lemma tab_inv_of: "ws_inv ws \<Longrightarrow> j < length (tabs ws) \<Longrightarrow> tab_inv (tabs ws ! j)"
  by (simp add: ws_inv_def ws_ok_def tabs_ok_def)

lemma tab_inv_members: "tab_inv t \<Longrightarrow> focused (tab_layout t) \<in> tab_ids t" "tab_inv t \<Longrightarrow> tab_root_pane t \<in> tab_ids t"
  by (simp_all add: tab_inv_def layout_inv_def tab_ids_def focused_def)

lemma layout_some:
  assumes "app_inv a" and "i < length (workspaces a)" and "j < length (tabs (workspaces a ! i))"
  obtains x where "layout_snapshot a i j = Some x"
proof -
  note t = tab_inv_of [OF app_ws_inv [OF assms(1,2)] assms(3)]
  from parse_own_pane_id [OF assms(1,2) tab_pane_member [OF assms(3) tab_inv_members(1) [OF t]]]
  obtain s where "public_pane_id a i (focused (tab_layout (tabs (workspaces a ! i) ! j))) = Some s" by blast
  with parse_own_tab_id [OF assms] assms(2,3) that show thesis by (auto simp: layout_snapshot_def vec_get_def)
qed

lemma root_pane_some:
  assumes "app_inv a" and "i < length (workspaces a)" and "j < length (tabs (workspaces a ! i))"
  obtains x where "root_pane_info a i j = Some x"
proof -
  note t = tab_inv_of [OF app_ws_inv [OF assms(1,2)] assms(3)]
  from pane_info_some [OF assms(1,2) tab_pane_member [OF assms(3) tab_inv_members(2) [OF t]]] obtain x where
    "pane_info_of a i (tab_root_pane (tabs (workspaces a ! i) ! j)) = Some x" .
  with assms(2,3) that show thesis by (simp add: root_pane_info_def vec_get_def)
qed

subsection \<open>Operations on one workspace\<close>

lemma kept_retab:
  assumes inv: "ws_inv ws" and i: "i < length (tabs ws)" and t': "tab_inv t'" "tab_number t' = tab_number (tabs ws ! i)"
    "pane_ids (tab_layout t') = pane_ids (tab_layout (tabs ws ! i))" "tab_terminals t' = tab_terminals (tabs ws ! i)"
  shows "kept ws (ws\<lparr>tabs := (tabs ws)[i := t']\<rparr>)" and "ws_panes (ws\<lparr>tabs := (tabs ws)[i := t']\<rparr>) = ws_panes ws"
    and "ws_terms (ws\<lparr>tabs := (tabs ws)[i := t']\<rparr>) = ws_terms ws"
proof -
  let ?ws = "ws\<lparr>tabs := (tabs ws)[i := t']\<rparr>"
  show panes: "ws_panes ?ws = ws_panes ws" and terms: "ws_terms ?ws = ws_terms ws"
    using i t' by (simp_all add: ws_panes_def ws_terms_def map_update_same)
  have "tabs_ok (next_public_tab_number ws) ((tabs ws)[i := t']) = tabs_ok (next_public_tab_number ws) (tabs ws)"
    using i t' tab_inv_of [OF inv i] by (intro tabs_ok_update_same) simp_all
  with inv have "ws_inv ?ws" unfolding ws_inv_def panes by (simp add: ws_ok_def)
  with panes terms show "kept ws ?ws" by (simp add: kept_def)
qed

lemma kept_switch_tab: "ws_inv ws \<Longrightarrow> kept ws (switch_tab j ws)"
  using switch_tab_facts [where i = j and ws = ws] by (simp add: kept_def) (simp add: switch_tab_def)

lemma kept_switch_tab_eq: "ws_panes (switch_tab j ws) = ws_panes ws" "ws_terms (switch_tab j ws) = ws_terms ws"
  "public_pane_numbers (switch_tab j ws) = public_pane_numbers ws"
  by (simp_all add: switch_tab_facts) (simp add: switch_tab_def)

lemma kept_focus_tab_pane: "ws_inv ws \<Longrightarrow> j < length (tabs ws) \<Longrightarrow> kept ws (focus_tab_pane j p ws)"
proof -
  assume a: "ws_inv ws" "j < length (tabs ws)"
  let ?t = "tabs ws ! j"
  have ids: "pane_ids (focus_pane (tab_layout ?t) p) = pane_ids (tab_layout ?t)" by (simp add: focus_pane_def set_focus_def pane_ids_def)
  have "tab_inv (?t\<lparr>tab_layout := focus_pane (tab_layout ?t) p\<rparr>)"
    using tab_inv_of [OF a] ids by (simp add: tab_inv_def tab_ids_def tab_terminals_def focus_pane_inv)
  with a ids show ?thesis unfolding focus_tab_pane_def by (intro kept_retab(1)) (simp_all add: tab_terminals_def)
qed

lemma kept_set_tab_zoomed: "ws_inv ws \<Longrightarrow> j < length (tabs ws) \<Longrightarrow> kept ws (set_tab_zoomed j z ws)"
  using tab_inv_of [of ws j] unfolding set_tab_zoomed_def
  by (intro kept_retab(1)) (simp_all add: tab_inv_def tab_ids_def tab_terminals_def)

lemma name_tab_facts:
  assumes "ws_inv ws" and "j < length (tabs ws)"
  shows "kept ws (name_tab j l ws)" "ws_panes (name_tab j l ws) = ws_panes ws" "ws_terms (name_tab j l ws) = ws_terms ws"
    "length (tabs (name_tab j l ws)) = length (tabs ws)" "public_pane_numbers (name_tab j l ws) = public_pane_numbers ws"
proof -
  have t: "tab_inv (tab_set_custom_name l (tabs ws ! j))" "tab_number (tab_set_custom_name l (tabs ws ! j)) = tab_number (tabs ws ! j)"
    "pane_ids (tab_layout (tab_set_custom_name l (tabs ws ! j))) = pane_ids (tab_layout (tabs ws ! j))"
    "tab_terminals (tab_set_custom_name l (tabs ws ! j)) = tab_terminals (tabs ws ! j)"
    using tab_inv_of [OF assms] by (simp_all add: tab_set_custom_name_def tab_inv_def tab_ids_def tab_terminals_def)
  show "kept ws (name_tab j l ws)" "ws_panes (name_tab j l ws) = ws_panes ws" "ws_terms (name_tab j l ws) = ws_terms ws"
    unfolding name_tab_def using kept_retab [OF assms t] by simp_all
  show "length (tabs (name_tab j l ws)) = length (tabs ws)" "public_pane_numbers (name_tab j l ws) = public_pane_numbers ws" by (simp_all add: name_tab_def)
qed

lemma kept_custom_name: "ws_inv ws \<Longrightarrow> kept ws (ws_set_custom_name l ws)"
  by (simp add: kept_def ws_set_custom_name_def ws_inv_def ws_ok_def ws_panes_def ws_terms_def)

lemma set_passthrough_facts:
  assumes "ws_inv ws"
  shows "kept ws (set_passthrough p b ws)" "ws_panes (set_passthrough p b ws) = ws_panes ws" "ws_terms (set_passthrough p b ws) = ws_terms ws"
    "length (tabs (set_passthrough p b ws)) = length (tabs ws)" "public_pane_numbers (set_passthrough p b ws) = public_pane_numbers ws"
proof -
  let ?f = "\<lambda>t. t\<lparr>tab_panes := map (\<lambda>(k, pane). (k, if k = p then pane\<lparr>right_click_passthrough := b\<rparr> else pane)) (tab_panes t)\<rparr>"
  have att: "attached_terminal_id (if c then x\<lparr>right_click_passthrough := b\<rparr> else x) = attached_terminal_id x" for c x
    by (cases c) simp_all
  have t: "tab_inv (?f t) = tab_inv t" "tab_number (?f t) = tab_number t" "pane_ids (tab_layout (?f t)) = pane_ids (tab_layout t)"
    "tab_terminals (?f t) = tab_terminals t" for t
    by (simp_all add: tab_inv_def tab_ids_def tab_terminals_def hm_keys_def hm_ok_def comp_def case_prod_beta att)
  have "kept ws (set_passthrough p b ws) \<and> ws_panes (set_passthrough p b ws) = ws_panes ws \<and> ws_terms (set_passthrough p b ws) = ws_terms ws
    \<and> length (tabs (set_passthrough p b ws)) = length (tabs ws) \<and> public_pane_numbers (set_passthrough p b ws) = public_pane_numbers ws"
  proof (cases "find_tab_index_for_pane ws p")
    case None
    with assms show ?thesis by (simp add: set_passthrough_def kept_refl)
  next
    case (Some i)
    then have i: "i < length (tabs ws)" using position_Some by (fastforce simp: find_tab_index_for_pane_def)
    with kept_retab [OF assms i, of "?f (tabs ws ! i)"] Some tab_inv_of [OF assms i] show ?thesis
      by (simp add: set_passthrough_def t)
  qed
  then show "kept ws (set_passthrough p b ws)" "ws_panes (set_passthrough p b ws) = ws_panes ws" "ws_terms (set_passthrough p b ws) = ws_terms ws"
    "length (tabs (set_passthrough p b ws)) = length (tabs ws)" "public_pane_numbers (set_passthrough p b ws) = public_pane_numbers ws" by simp_all
qed

end
