(* ===== verification/App_State_Theorems.thy ===== *)
theory App_State_Theorems
  imports App_Theorems
begin

text \<open>
  The operations of the application's state keep its invariant: switching, reordering and closing workspaces.
  Reordering and closing keep the active workspace active; closing removes exactly the terminals of the closed
  workspaces.
\<close>

subsection \<open>Focus\<close>

lemma app_inv_focus: "app_inv a \<Longrightarrow> i < length (workspaces a) \<Longrightarrow> j < length (workspaces a) \<Longrightarrow> app_inv (a\<lparr>active := Some i, selected := j\<rparr>)"
  by (auto simp: app_inv_def core_def focus_ok_def)

lemma switch_workspace_tab_view:
  fixes a :: "('g, 'q, 'p, 'n, 'r) app"
  assumes "i < length (workspaces a)" and "j < length (tabs (workspaces a ! i))"
  shows "app_view (fst (switch_workspace_tab i j a)) =
    app_view (a\<lparr>active := Some i, selected := i, workspaces := (workspaces a)[i := switch_tab j (workspaces a ! i)]\<rparr>)"
  using assms by (simp add: switch_workspace_tab_def vec_get_def Let_def app_frame update_workspace_def)
    (simp add: app_view_def mark_session_dirty_def)

lemma switch_workspace_view:
  fixes a :: "('g, 'q, 'p, 'n, 'r) app"
  assumes "i < length (workspaces a)"
  shows "app_view (switch_workspace i a) =
    app_view (a\<lparr>active := Some i, selected := i,
      workspaces := (workspaces a)[i := switch_tab (active_tab (workspaces a ! i)) (workspaces a ! i)]\<rparr>)"
  using assms by (simp add: switch_workspace_def Let_def app_frame update_workspace_def)
    (simp add: app_view_def mark_session_dirty_def)

lemma switched_inv:
  assumes inv: "app_inv a" and i: "i < length (workspaces a)"
  shows "app_inv (a\<lparr>active := Some i, selected := i, workspaces := (workspaces a)[i := switch_tab j (workspaces a ! i)]\<rparr>)"
proof -
  let ?b = "a\<lparr>active := Some i, selected := i\<rparr>"
  have "app_inv ?b" by (rule app_inv_focus [OF inv i i])
  moreover have "kept (workspaces ?b ! i) (switch_tab j (workspaces a ! i))" using kept_switch_tab [OF app_ws_inv [OF inv i]] by simp
  ultimately have "app_inv (?b\<lparr>workspaces := (workspaces ?b)[i := switch_tab j (workspaces a ! i)]\<rparr>)" using i by (intro app_inv_kept) simp_all
  then show ?thesis by (simp add: app_inv_def)
qed

lemma switch_workspace_tab_inv: "app_inv a \<Longrightarrow> i < length (workspaces a) \<Longrightarrow> j < length (tabs (workspaces a ! i)) \<Longrightarrow> app_inv (fst (switch_workspace_tab i j a))"
  using switch_workspace_tab_view app_inv_view switched_inv by metis

lemma switch_workspace_inv: "app_inv a \<Longrightarrow> i < length (workspaces a) \<Longrightarrow> app_inv (switch_workspace i a)"
  using switch_workspace_view app_inv_view switched_inv by metis

lemma switch_workspace_tab_fields:
  fixes a :: "('g, 'q, 'p, 'n, 'r) app"
  assumes "i < length (workspaces a)" and "j < length (tabs (workspaces a ! i))"
  shows "workspaces (fst (switch_workspace_tab i j a)) = (workspaces a)[i := switch_tab j (workspaces a ! i)]"
    "terminals (fst (switch_workspace_tab i j a)) = terminals a" "active (fst (switch_workspace_tab i j a)) = Some i"
    "next_pane_id (fst (switch_workspace_tab i j a)) = next_pane_id a"
    "public_pane_id_aliases (fst (switch_workspace_tab i j a)) = public_pane_id_aliases a"
    "next_workspace_id (fst (switch_workspace_tab i j a)) = next_workspace_id a"
  using app_view_fields [OF switch_workspace_tab_view [OF assms]] by simp_all

lemma switch_workspace_fields:
  fixes a :: "('g, 'q, 'p, 'n, 'r) app"
  assumes "i < length (workspaces a)"
  shows "workspaces (switch_workspace i a) = (workspaces a)[i := switch_tab (active_tab (workspaces a ! i)) (workspaces a ! i)]"
    "terminals (switch_workspace i a) = terminals a" "active (switch_workspace i a) = Some i"
    "next_pane_id (switch_workspace i a) = next_pane_id a"
  using app_view_fields [OF switch_workspace_view [OF assms]] by simp_all

lemma find_tab_less: "find_tab_index_for_pane ws p = Some j \<Longrightarrow> j < length (tabs ws)"
  unfolding find_tab_index_for_pane_def by (blast dest: position_Some)

lemma focus_pane_in_workspace_inv:
  assumes inv: "app_inv a"
  shows "app_inv (fst (focus_pane_in_workspace i p a))"
    and "length (workspaces (fst (focus_pane_in_workspace i p a))) = length (workspaces a)"
    and "i < length (workspaces a) \<Longrightarrow> length (tabs (workspaces (fst (focus_pane_in_workspace i p a)) ! i)) = length (tabs (workspaces a ! i))"
proof -
  let ?r = "fst (focus_pane_in_workspace i p a)"
  consider "?r = a" | j where "i < length (workspaces a)" "j < length (tabs (workspaces a ! i))"
    "app_view ?r = app_view (update_workspace i (focus_tab_pane j p) (fst (switch_workspace_tab i j a)))"
  proof (cases "vec_get (workspaces a) i")
    case None
    with that(1) show thesis by (simp add: focus_pane_in_workspace_def)
  next
    case (Some ws)
    then have i: "i < length (workspaces a)" "workspaces a ! i = ws" by (simp_all add: vec_get_Some)
    show thesis
    proof (cases "find_tab_index_for_pane ws p")
      case None
      with Some that(1) show thesis by (simp add: focus_pane_in_workspace_def)
    next
      case s: (Some j)
      show thesis
      proof (cases "current_pane_focus_target a = Some \<lparr>focus_workspace_id = ws_id ws, focus_pane_id = p\<rparr>")
        case True
        with Some s that(1) show thesis by (simp add: focus_pane_in_workspace_def)
      next
        case False
        have j: "j < length (tabs (workspaces a ! i))" using find_tab_less [OF s] i by simp
        note f = switch_workspace_tab_fields [OF i(1) j]
        have "Option.bind (vec_get (workspaces (fst (switch_workspace_tab i j a))) i) (\<lambda>ws. vec_get (tabs ws) j) \<noteq> None"
          using i j by (simp add: f vec_get_def switch_tab_facts)
        with False Some s have "?r = mark_session_dirty ((update_workspace i (focus_tab_pane j p) (fst (switch_workspace_tab i j a)))
            \<lparr>previous_pane_focus := current_pane_focus_target a\<rparr>)"
          by (auto simp: focus_pane_in_workspace_def Let_def)
        then have "app_view ?r = app_view (update_workspace i (focus_tab_pane j p) (fst (switch_workspace_tab i j a)))"
          by (simp add: app_frame) (simp add: app_view_def)
        with that(2) i j show thesis by blast
      qed
    qed
  qed
  then have "app_inv ?r \<and> length (workspaces ?r) = length (workspaces a)
    \<and> (i < length (workspaces a) \<longrightarrow> length (tabs (workspaces ?r ! i)) = length (tabs (workspaces a ! i)))"
  proof cases
    case 1
    with inv show ?thesis by simp
  next
    case (2 j)
    let ?b = "fst (switch_workspace_tab i j a)"
    note f = switch_workspace_tab_fields [OF 2(1,2)]
    have b: "app_inv ?b" by (rule switch_workspace_tab_inv [OF inv 2(1,2)])
    have i: "i < length (workspaces ?b)" "j < length (tabs (workspaces ?b ! i))" using 2 by (simp_all add: f switch_tab_facts)
    have "app_inv (update_workspace i (focus_tab_pane j p) ?b)"
      using app_inv_kept [OF b i(1) kept_focus_tab_pane [OF app_ws_inv [OF b i(1)] i(2)]] i by (simp add: update_workspace_def)
    moreover have "length (workspaces (update_workspace i (focus_tab_pane j p) ?b)) = length (workspaces a)"
      "length (tabs (workspaces (update_workspace i (focus_tab_pane j p) ?b) ! i)) = length (tabs (workspaces a ! i))"
      using i 2(1) by (simp_all add: update_workspace_def f focus_tab_pane_def switch_tab_facts)
    ultimately show ?thesis using app_inv_view [OF 2(3)] app_view_fields(1) [OF 2(3)] by simp
  qed
  then show "app_inv ?r" "length (workspaces ?r) = length (workspaces a)"
    "i < length (workspaces a) \<Longrightarrow> length (tabs (workspaces ?r ! i)) = length (tabs (workspaces a ! i))" by blast+
qed

lemma mark_active_tab_seen_inv: "app_inv a \<Longrightarrow> app_inv (fst (mark_active_tab_seen a))"
proof (cases "Option.bind (active a) (\<lambda>i. Option.bind (vec_get (workspaces a) i) current_tab)")
  case None
  then show "app_inv a \<Longrightarrow> app_inv (fst (mark_active_tab_seen a))" by (auto simp: mark_active_tab_seen_def split: option.splits)
next
  case (Some t)
  assume inv: "app_inv a"
  from Some obtain i where i: "active a = Some i" "i < length (workspaces a)" "current_tab (workspaces a ! i) = Some t"
    by (auto simp: bind_eq_Some_conv vec_get_Some)
  let ?ws = "workspaces a ! i"
  have t: "active_tab ?ws < length (tabs ?ws)" "tabs ?ws ! active_tab ?ws = t" using i(3) by (simp_all add: current_tab_def vec_get_Some)
  have "kept ?ws (?ws\<lparr>tabs := (tabs ?ws)[active_tab ?ws := mark_panes_seen t]\<rparr>)"
    using t tab_inv_of [OF app_ws_inv [OF inv i(2)] t(1)] by (intro kept_retab(1) [OF app_ws_inv [OF inv i(2)] t(1)]) simp_all
  from app_inv_kept [OF inv i(2) this] i show ?thesis by (simp add: mark_active_tab_seen_def vec_get_def update_workspace_def)
qed

subsection \<open>Order\<close>

lemma focus_follows:
  assumes ok: "spaces_ok wss" and ms: "mset wss' = mset wss" and i: "i < length wss"
  obtains j where "position_of_id wss' (ws_id (wss ! i)) = Some j" and "j < length wss'" and "wss' ! j = wss ! i"
proof -
  have "wss ! i \<in> set wss'" using i mset_eq_setD [OF ms] by simp
  then obtain j where j: "j < length wss'" "wss' ! j = wss ! i" by (metis in_set_conv_nth)
  have "spaces_ok wss'" using ok spaces_ok_perm [OF ms] by simp
  from named_position [OF this j(1)] j that show thesis by simp
qed

lemma reorder_inv:
  assumes inv: "app_inv a" and ms: "mset wss' = mset (workspaces a)" and ne: "workspaces a \<noteq> []"
  defines "b \<equiv> (mark_session_dirty a)\<lparr>workspaces := wss',
       active := Option.bind (map_option (\<lambda>i. ws_id (workspaces a ! i)) (active a)) (position_of_id wss'),
       selected := (case Option.bind (map_option ws_id (vec_get (workspaces a) (selected a))) (position_of_id wss') of Some i \<Rightarrow> i | None \<Rightarrow> 0)\<rparr>"
  shows "app_inv b" and "map_option ((!) (workspaces b)) (active b) = map_option ((!) (workspaces a)) (active a)"
    and "workspaces b ! selected b = workspaces a ! selected a" and "workspaces b = wss'"
proof -
  note ok = app_spaces [OF inv]
  from inv ne obtain i where i: "active a = Some i" "i < length (workspaces a)" and s: "selected a < length (workspaces a)"
    by (auto simp: app_inv_def core_def focus_ok_def)
  from focus_follows [OF ok ms i(2)] obtain j where j: "position_of_id wss' (ws_id (workspaces a ! i)) = Some j" "j < length wss'" "wss' ! j = workspaces a ! i" .
  from focus_follows [OF ok ms s] obtain k where k: "position_of_id wss' (ws_id (workspaces a ! selected a)) = Some k" "k < length wss'"
    "wss' ! k = workspaces a ! selected a" .
  have b: "workspaces b = wss'" "active b = Some j" "selected b = k" "terminals b = terminals a"
    "public_pane_id_aliases b = public_pane_id_aliases a" "next_workspace_id b = next_workspace_id a" "next_pane_id b = next_pane_id a"
    using i j k s by (simp_all add: b_def mark_session_dirty_def vec_get_def)
  then show "workspaces b = wss'" by simp
  show "map_option ((!) (workspaces b)) (active b) = map_option ((!) (workspaces a)) (active a)" "workspaces b ! selected b = workspaces a ! selected a"
    using b i j k by simp_all
  have "set (space_terms wss') = set (space_terms (workspaces a))" using mset_eq_setD [OF ms] by (auto simp: mem_space_terms)
  moreover have "spaces_ok wss'" using ok spaces_ok_perm [OF ms] by simp
  moreover have "focus_ok wss' (Some j) k" using j(2) k(2) by (auto simp: focus_ok_def)
  ultimately show "app_inv b" using inv unfolding app_inv_def b core_def naming_def mset_eq_setD [OF ms] by blast
qed

lemma move_workspace_cases:
  assumes inv: "app_inv a"
  obtains b moved where "move_workspace i j a = Some (b, moved)" and "app_inv b" and "mset (workspaces b) = mset (workspaces a)"
    and "map_option ((!) (workspaces b)) (active b) = map_option ((!) (workspaces a)) (active a)"
    and "\<not> moved \<Longrightarrow> b = a"
proof (cases "i \<ge> length (workspaces a) \<or> j > length (workspaces a) \<or> i = (if i < j then j - 1 else j)")
  case True
  then have "move_workspace i j a = Some (a, False)" by (auto simp: move_workspace_def Let_def)
  with inv show thesis by (intro that [of a False]) simp_all
next
  case False
  let ?wss = "vec_insert (if i < j then j - 1 else j) (workspaces a ! i) (vec_remove i (workspaces a))"
  have ne: "workspaces a \<noteq> []" using False by auto
  then obtain k where k: "active a = Some k" "k < length (workspaces a)" using inv by (auto simp: app_inv_def core_def focus_ok_def)
  have ms: "mset ?wss = mset (workspaces a)" using False by (intro mset_vec_move) simp
  note r = reorder_inv [OF inv ms ne]
  from False k have "move_workspace i j a = Some ((mark_session_dirty a)\<lparr>workspaces := ?wss,
       active := Option.bind (map_option (\<lambda>i. ws_id (workspaces a ! i)) (active a)) (position_of_id ?wss),
       selected := (case Option.bind (map_option ws_id (vec_get (workspaces a) (selected a))) (position_of_id ?wss) of Some i \<Rightarrow> i | None \<Rightarrow> 0)\<rparr>, True)"
    by (simp add: move_workspace_def Let_def)
  from that [OF this r(1) _ r(2)] r(4) ms show thesis by simp
qed

lemma positions_fold:
  assumes "distinct ds"
  shows "x \<notin> set ds \<Longrightarrow> hm_get (fold (\<lambda>(index, wid). hm_insert wid index) (enumerate n ds) m) x = hm_get m x"
    and "i < length ds \<Longrightarrow> hm_get (fold (\<lambda>(index, wid). hm_insert wid index) (enumerate n ds) m) (ds ! i) = Some (n + i)"
proof -
  show other: "x \<notin> set ds \<Longrightarrow> hm_get (fold (\<lambda>(index, wid). hm_insert wid index) (enumerate n ds) m) x = hm_get m x" for x ds n m
    by (induction ds arbitrary: n m) (simp_all add: hm.get_put)
  show "i < length ds \<Longrightarrow> hm_get (fold (\<lambda>(index, wid). hm_insert wid index) (enumerate n ds) m) (ds ! i) = Some (n + i)"
    using assms
  proof (induction ds arbitrary: n m i)
    case (Cons d ds)
    then show ?case by (cases i) (simp_all add: other)
  qed simp
qed

lemma desired_position_nth: "distinct ds \<Longrightarrow> i < length ds \<Longrightarrow> desired_position ds (ds ! i) = i"
  using positions_fold(2) [of ds i 0 "[]"] by (simp add: desired_position_def)

lemma sort_to_order:
  assumes "distinct ds" and ms: "mset (map f xs) = mset ds"
  shows "map f (sort_key (\<lambda>x. desired_position ds (f x)) xs) = ds"
proof -
  let ?p = "desired_position ds"
  let ?l = "map f (sort_key (\<lambda>x. ?p (f x)) xs)"
  have pd: "map ?p ds = [0..<length ds]" using desired_position_nth [OF assms(1)] by (intro nth_equalityI) simp_all
  have inj: "inj_on ?p (set ds)" using assms(1) pd by (metis distinct_map distinct_upt)
  have l: "mset ?l = mset ds" using ms by simp
  then have set: "set ?l = set ds" by (rule mset_eq_setD)
  have "distinct ?l" using l assms(1) by (metis mset_eq_imp_distinct_iff)
  then have "distinct (map ?p ?l)" using inj set by (simp only: distinct_map)
  moreover have "sorted (map ?p ?l)" using sorted_sort_key [of "\<lambda>x. ?p (f x)" xs] by (simp add: comp_def)
  moreover have "sorted (map ?p ds)" "distinct (map ?p ds)" unfolding pd by simp_all
  moreover have "set (map ?p ?l) = set (map ?p ds)" using set by (simp only: list.set_map)
  ultimately have "map ?p ?l = map ?p ds" by (intro sorted_distinct_set_unique)
  with inj set show ?thesis by (intro map_inj_on [of ?p]) simp_all
qed

lemma block_order_mset:
  assumes "distinct ids" and "distinct moved" and "set moved \<subseteq> set ids"
  shows "mset (block_order ids moved before) = mset ids"
proof -
  have split: "mset (take n xs @ ys @ drop n xs) = mset xs + mset ys" for n and xs ys :: "string list"
    by (metis append_take_drop_id mset_append union_assoc union_commute)
  have "mset (filter (\<lambda>w. w \<in> set moved) ids) = mset moved"
    using assms by (intro set_eq_iff_mset_eq_distinct [THEN iffD1]) auto
  moreover have "mset (filter (\<lambda>w. w \<notin> set moved) ids) + mset (filter (\<lambda>w. w \<in> set moved) ids) = mset ids"
    by (metis add.commute mset_filter multiset_partition)
  ultimately show ?thesis by (simp only: block_order_def Let_def split)
qed

lemma move_workspace_block_cases:
  assumes inv: "app_inv a"
  obtains (refused) "move_workspace_block wids before a = Some (a, False)"
  | (moved) b where "move_workspace_block wids before a = Some (b, True)" and "app_inv b"
      and "map ws_id (workspaces b) = block_order (map ws_id (workspaces a)) wids before"
      and "mset (workspaces b) = mset (workspaces a)" and "wids \<noteq> []" and "distinct wids" and "set wids \<subseteq> ws_id ` set (workspaces a)"
      and "map_option ((!) (workspaces b)) (active b) = map_option ((!) (workspaces a)) (active a)"
      and "workspaces b ! selected b = workspaces a ! selected a"
proof -
  let ?ids = "map ws_id (workspaces a)"
  let ?ds = "block_order ?ids wids before"
  let ?wss = "sort_key (\<lambda>ws. desired_position ?ds (ws_id ws)) (workspaces a)"
  show thesis
  proof (cases "wids = [] \<or> \<not> distinct wids \<or> \<not> set wids \<subseteq> set ?ids
      \<or> (case before of Some wid \<Rightarrow> wid \<in> set wids \<or> wid \<notin> set ?ids | None \<Rightarrow> False) \<or> ?ids = ?ds")
    case True
    then have "move_workspace_block wids before a = Some (a, False)" by (simp only: move_workspace_block_def Let_def if_True)
    then show thesis by (rule refused)
  next
    case False
    have ne: "workspaces a \<noteq> []" using False by auto
    then obtain k where k: "active a = Some k" "k < length (workspaces a)" using inv by (auto simp: app_inv_def core_def focus_ok_def)
    have w: "wids \<noteq> []" "distinct wids" "set wids \<subseteq> set ?ids" using False by blast+
    have dist: "distinct ?ids" using app_spaces [OF inv] by (simp add: spaces_ok_def)
    have dms: "mset ?ds = mset ?ids" by (rule block_order_mset [OF dist w(2,3)])
    then have "distinct ?ds" using dist by (metis mset_eq_imp_distinct_iff)
    from sort_to_order [OF this, of ws_id "workspaces a"] dms have order: "map ws_id ?wss = ?ds" by simp
    have ms: "mset ?wss = mset (workspaces a)" by simp
    note r = reorder_inv [OF inv ms ne]
    have "\<not> (case active a of Some i \<Rightarrow> i \<ge> length (workspaces a) | None \<Rightarrow> False)" using k by simp
    with False have "move_workspace_block wids before a = Some ((mark_session_dirty a)\<lparr>workspaces := ?wss,
       active := Option.bind (map_option (\<lambda>i. ws_id (workspaces a ! i)) (active a)) (position_of_id ?wss),
       selected := (case Option.bind (map_option ws_id (vec_get (workspaces a) (selected a))) (position_of_id ?wss) of Some i \<Rightarrow> i | None \<Rightarrow> 0)\<rparr>, True)"
      unfolding move_workspace_block_def Let_def by (simp only: if_False)
    from moved [OF this r(1) _ _ w(1,2) _ r(2,3)] r(4) order ms w(3) show thesis by simp
  qed
qed

subsection \<open>Closing\<close>

lemma nths_same: "(\<forall>i < length xs. i \<in> A \<longleftrightarrow> i \<in> B) \<Longrightarrow> nths xs A = nths xs B"
proof (induction xs arbitrary: A B)
  case (Cons x xs)
  have "nths xs {j. Suc j \<in> A} = nths xs {j. Suc j \<in> B}" using Cons.prems by (intro Cons.IH) auto
  with Cons.prems show ?case by (auto simp: nths_Cons)
qed simp

lemma remove_each_nths:
  assumes "sorted_wrt (<) is" and "\<forall>i \<in> set is. i < length xs"
  shows "remove_each (rev is) xs = Some (nths xs (- set is))"
  using assms
proof (induction "is" arbitrary: xs rule: rev_induct)
  case Nil
  then show ?case by (simp add: nths_all)
next
  case (snoc i "is")
  then have less: "\<forall>k \<in> set is. k < i" and i: "i < length xs" by (simp_all add: sorted_wrt_append)
  have "remove_each (rev is) (vec_remove i xs) = Some (nths (vec_remove i xs) (- set is))"
    using snoc less i by (intro snoc.IH) (auto simp: sorted_wrt_append vec_remove_def)
  moreover have "nths (vec_remove i xs) (- set is) = nths xs (- set (is @ [i]))"
  proof -
    have all: "nths (drop (Suc i) xs) {j. j + Suc i \<notin> insert i (set is)} = drop (Suc i) xs"
      "nths (drop (Suc i) xs) {j. j + i \<notin> set is} = drop (Suc i) xs" using less by (auto intro!: nths_all)
    have "nths xs (- set (is @ [i])) = nths (take i xs @ xs ! i # drop (Suc i) xs) (- set (is @ [i]))" using i by (simp flip: id_take_nth_drop)
    also have "\<dots> = nths (take i xs) (- set is) @ drop (Suc i) xs"
      using i all(1) nths_same [of "take i xs" "- insert i (set is)" "- set is"] by (simp add: nths_append nths_Cons min_def)
    finally show ?thesis using i all(2) by (simp add: vec_remove_def nths_append min_def)
  qed
  ultimately show ?case using i by simp
qed

lemma terminal_attached_iff: "terminal_attached a t \<longleftrightarrow> t \<in> set (space_terms (workspaces a))"
  by (auto simp: terminal_attached_def mem_space_terms mem_ws_terms)

lemma remove_unattached_facts:
  fixes tids :: "string list" and a :: "('g, 'q, 'p, 'n, 'r) app"
  defines "b \<equiv> remove_unattached_terminal_ids tids a"
  shows "workspaces b = workspaces a" and "active b = active a" and "selected b = selected a"
    and "public_pane_id_aliases b = public_pane_id_aliases a" and "next_workspace_id b = next_workspace_id a" and "next_pane_id b = next_pane_id a"
    and "hm_ok (terminals a) \<Longrightarrow> hm_ok (terminals b)"
    and "hm_get (terminals b) t = (if t \<in> set tids \<and> \<not> terminal_attached a t then None else hm_get (terminals a) t)"
    and "set (terminal_runtime_shutdowns b) = set (terminal_runtime_shutdowns a) \<union> {t \<in> set tids. \<not> terminal_attached a t \<and> hm_contains (terminals a) t}"
  unfolding b_def
proof -
  have "workspaces (remove_unattached_terminal_ids tids a) = workspaces a \<and> active (remove_unattached_terminal_ids tids a) = active a
    \<and> selected (remove_unattached_terminal_ids tids a) = selected a \<and> public_pane_id_aliases (remove_unattached_terminal_ids tids a) = public_pane_id_aliases a
    \<and> next_workspace_id (remove_unattached_terminal_ids tids a) = next_workspace_id a \<and> next_pane_id (remove_unattached_terminal_ids tids a) = next_pane_id a
    \<and> (hm_ok (terminals a) \<longrightarrow> hm_ok (terminals (remove_unattached_terminal_ids tids a)))
    \<and> (\<forall>t. hm_get (terminals (remove_unattached_terminal_ids tids a)) t =
          (if t \<in> set tids \<and> \<not> terminal_attached a t then None else hm_get (terminals a) t))
    \<and> set (terminal_runtime_shutdowns (remove_unattached_terminal_ids tids a)) =
        set (terminal_runtime_shutdowns a) \<union> {t \<in> set tids. \<not> terminal_attached a t \<and> hm_contains (terminals a) t}" (is "?P tids a")
  proof (induction tids arbitrary: a)
    case Nil
    then show ?case by (simp add: remove_unattached_terminal_ids_def)
  next
    case (Cons x tids)
    let ?c = "remove_unattached_terminal_id x a"
    have c: "workspaces ?c = workspaces a" "active ?c = active a" "selected ?c = selected a" "public_pane_id_aliases ?c = public_pane_id_aliases a"
      "next_workspace_id ?c = next_workspace_id a" "next_pane_id ?c = next_pane_id a" by (simp_all add: remove_unattached_terminal_id_def)
    have att: "terminal_attached ?c t = terminal_attached a t" for t by (simp add: terminal_attached_def c)
    have get: "hm_get (terminals ?c) t = (if t = x \<and> \<not> terminal_attached a t then None else hm_get (terminals a) t)" for t
      by (auto simp: remove_unattached_terminal_id_def hm.get_del hm_contains_def)
    have ok: "hm_ok (terminals a) \<Longrightarrow> hm_ok (terminals ?c)" by (simp add: remove_unattached_terminal_id_def hm.ok_del)
    have sh: "set (terminal_runtime_shutdowns ?c) = set (terminal_runtime_shutdowns a) \<union> {t. t = x \<and> \<not> terminal_attached a t \<and> hm_contains (terminals a) t}"
      by (auto simp: remove_unattached_terminal_id_def)
    have con: "hm_contains (terminals ?c) t \<longleftrightarrow> hm_contains (terminals a) t \<and> \<not> (t = x \<and> \<not> terminal_attached a t)" for t
      by (auto simp: hm_contains_def get)
    have eq: "remove_unattached_terminal_ids (x # tids) a = remove_unattached_terminal_ids tids ?c" by (simp add: remove_unattached_terminal_ids_def)
    from Cons.IH [of ?c] show ?case unfolding eq c att get con sh by (auto simp: ok)
  qed
  then show "workspaces (remove_unattached_terminal_ids tids a) = workspaces a" "active (remove_unattached_terminal_ids tids a) = active a"
    "selected (remove_unattached_terminal_ids tids a) = selected a" "public_pane_id_aliases (remove_unattached_terminal_ids tids a) = public_pane_id_aliases a"
    "next_workspace_id (remove_unattached_terminal_ids tids a) = next_workspace_id a" "next_pane_id (remove_unattached_terminal_ids tids a) = next_pane_id a"
    "hm_ok (terminals a) \<Longrightarrow> hm_ok (terminals (remove_unattached_terminal_ids tids a))"
    "hm_get (terminals (remove_unattached_terminal_ids tids a)) t = (if t \<in> set tids \<and> \<not> terminal_attached a t then None else hm_get (terminals a) t)"
    "set (terminal_runtime_shutdowns (remove_unattached_terminal_ids tids a)) =
        set (terminal_runtime_shutdowns a) \<union> {t \<in> set tids. \<not> terminal_attached a t \<and> hm_contains (terminals a) t}" by simp_all
qed

lemma remove_unattached_core:
  fixes a :: "('g, 'q, 'p, 'n, 'r) app"
  assumes "spaces_ok (workspaces a)" and "hm_ok (terminals a)" and "set (space_terms (workspaces a)) \<subseteq> set (hm_keys (terminals a))"
    and "focus_ok (workspaces a) act sel"
  shows "core (workspaces a) act sel (terminals (remove_unattached_terminal_ids tids a))"
proof -
  note f = remove_unattached_facts [where tids = tids and a = a]
  have "t \<in> set (hm_keys (terminals (remove_unattached_terminal_ids tids a)))" if "t \<in> set (space_terms (workspaces a))" for t
  proof -
    from that assms(3) have "hm_get (terminals a) t \<noteq> None" using hm_get_keys [of "terminals a" t] by blast
    with that have "hm_get (terminals (remove_unattached_terminal_ids tids a)) t \<noteq> None" by (simp add: f(8) terminal_attached_iff)
    then show ?thesis unfolding hm_get_keys .
  qed
  with assms f(7) show ?thesis unfolding core_def by blast
qed

lemma distinct_concat_nths: "distinct (concat (map f wss)) \<Longrightarrow> distinct (concat (map f (nths wss A)))"
proof (induction wss arbitrary: A)
  case (Cons w wss)
  then show ?case using set_nths_subset [of wss "{j. Suc j \<in> A}"] by (auto simp: nths_Cons)
qed simp

lemma spaces_ok_nths: "spaces_ok wss \<Longrightarrow> spaces_ok (nths wss A)"
proof -
  assume ok: "spaces_ok wss"
  then have "distinct (map ws_id (nths wss A))" by (metis distinct_nthsI nths_map spaces_ok_def)
  with ok distinct_concat_nths [of ws_panes wss A] distinct_concat_nths [of ws_terms wss A] set_nths_subset [of wss A] show ?thesis unfolding spaces_ok_def by blast
qed

lemma le_pred_less: "n \<le> length xs - Suc 0 \<Longrightarrow> xs \<noteq> [] \<Longrightarrow> n < length xs"
  by (cases xs) auto

lemma mem_nths: "x \<in> set (nths xs A) \<longleftrightarrow> (\<exists>i < length xs. xs ! i = x \<and> i \<in> A)"
  by (auto simp: set_nths)

lemma focus_after_close_facts:
  fixes wid :: "string option" and a :: "('g, 'q, 'p, 'n, 'r) app"
  defines "b \<equiv> focus_after_close wid a"
  shows "workspaces b = workspaces a" and "terminals b = terminals a" and "public_pane_id_aliases b = public_pane_id_aliases a"
    and "next_workspace_id b = next_workspace_id a" and "next_pane_id b = next_pane_id a"
    and "focus_ok (workspaces a) (active b) (selected b)"
    and "workspaces a \<noteq> [] \<Longrightarrow> active b = Some (selected b)"
    and "i < length (workspaces a) \<Longrightarrow> Option.bind wid (position_of_id (workspaces a)) = Some i \<Longrightarrow> selected b = i"
    and "terminal_runtime_shutdowns b = terminal_runtime_shutdowns a"
  unfolding b_def focus_after_close_def focus_ok_def Let_def by (auto simp: min_def dest: le_pred_less split: option.splits)

lemma close_workspaces_effect:
  fixes a :: "('g, 'q, 'p, 'n, 'r) app"
  assumes inv: "app_inv a" and srt: "sorted_wrt (<) is" and rng: "\<forall>i \<in> set is. i < length (workspaces a)" and ne: "workspaces a \<noteq> []"
  obtains b where "close_workspaces is a = Some b" and "app_inv b" and "workspaces b = nths (workspaces a) (- set is)"
    and "\<And>k. active a = Some k \<Longrightarrow> k \<notin> set is \<Longrightarrow> active b = Some (selected b) \<and> workspaces b ! selected b = workspaces a ! k"
    and "\<And>t. hm_get (terminals b) t = (if \<exists>i \<in> set is. t \<in> set (ws_terms (workspaces a ! i)) then None else hm_get (terminals a) t)"
    and "set (terminal_runtime_shutdowns b) = set (terminal_runtime_shutdowns a) \<union> (\<Union>i \<in> set is. set (ws_terms (workspaces a ! i)))"
    and "public_pane_id_aliases b = public_pane_id_aliases a" and "next_pane_id b = next_pane_id a" and "next_workspace_id b = next_workspace_id a"
proof -
  let ?wss = "nths (workspaces a) (- set is)"
  let ?tids = "concat (map (terminal_ids_for_workspace (mark_session_dirty a)) is)"
  let ?pids = "concat (map (pane_ids_for_workspace (mark_session_dirty a)) is)"
  let ?c = "(remove_plugin_pane_records ?pids (mark_session_dirty a))\<lparr>workspaces := ?wss\<rparr>"
  let ?wid = "map_option ws_id (Option.bind (active (mark_session_dirty a)) (vec_get (workspaces (mark_session_dirty a))))"
  let ?d = "remove_unattached_terminal_ids ?tids ?c"
  let ?b = "focus_after_close ?wid ?d"
  have eq: "close_workspaces is a = Some ?b"
    using remove_each_nths [OF srt rng] ne by (simp add: close_workspaces_def Let_def app_frame)
  have c: "workspaces ?c = ?wss" "terminals ?c = terminals a" "public_pane_id_aliases ?c = public_pane_id_aliases a"
    "next_workspace_id ?c = next_workspace_id a" "next_pane_id ?c = next_pane_id a" "terminal_runtime_shutdowns ?c = terminal_runtime_shutdowns a"
    by (simp_all add: app_frame) (simp_all add: remove_plugin_pane_records_def mark_session_dirty_def Let_def split: option.split)
  note d = remove_unattached_facts [where tids = ?tids and a = ?c] note b = focus_after_close_facts [where wid = ?wid and a = ?d]
  have tids: "set ?tids = (\<Union>i \<in> set is. set (ws_terms (workspaces a ! i)))"
    using rng by (auto simp: terminal_ids_for_workspace_def app_frame vec_get_def)
  note ok = app_spaces [OF inv]
  have apart: "t \<notin> set (space_terms ?wss)" if "t \<in> set ?tids" for t
  proof
    from that obtain i where i: "i \<in> set is" "t \<in> set (ws_terms (workspaces a ! i))" unfolding tids by blast
    assume "t \<in> set (space_terms ?wss)"
    then obtain j where j: "j < length (workspaces a)" "j \<notin> set is" "t \<in> set (ws_terms (workspaces a ! j))" by (auto simp: mem_space_terms mem_nths)
    with i rng have "j \<noteq> i" "i < length (workspaces a)" by auto
    from \<open>i < length (workspaces a)\<close> obtain xs w ys where w: "workspaces a = xs @ w # ys" "length xs = i" "workspaces a ! i = w" by (rule vec_decomp)
    have "workspaces a ! j \<in> set xs \<union> set ys" using w j(1) \<open>j \<noteq> i\<close> by (auto simp: nth_append nth_Cons split: nat.splits)
    with spaces_ok_apart(2) [OF ok [unfolded w(1)]] i(2) j(3) w(3) show False by blast
  qed
  have sub: "set (space_terms ?wss) \<subseteq> set (space_terms (workspaces a))" using set_nths_subset [of "workspaces a" "- set is"] unfolding subset_iff mem_space_terms by blast
  have "app_inv ?b"
  proof -
    have keys: "hm_ok (terminals ?c)" "set (space_terms ?wss) \<subseteq> set (hm_keys (terminals ?c))"
      using inv sub unfolding c(2) app_inv_def core_def by blast+
    have "core (workspaces ?c) (active ?b) (selected ?b) (terminals ?d)"
    proof (rule remove_unattached_core)
      show "spaces_ok (workspaces ?c)" unfolding c(1) by (rule spaces_ok_nths [OF ok])
      show "hm_ok (terminals ?c)" by (rule keys(1))
      show "set (space_terms (workspaces ?c)) \<subseteq> set (hm_keys (terminals ?c))" unfolding c(1) by (rule keys(2))
      show "focus_ok (workspaces ?c) (active ?b) (selected ?b)" using b(6) unfolding d(1) .
    qed
    moreover have "naming ?wss (public_pane_id_aliases a) (next_workspace_id a) (next_pane_id a)"
      by (rule naming_subset [of "workspaces a" "public_pane_id_aliases a"]) (use inv set_nths_subset [of "workspaces a" "- set is"] in \<open>simp_all add: app_inv_def\<close>)
    ultimately show ?thesis unfolding app_inv_def b(1-5) d(1-6) c by simp
  qed
  moreover have "active ?b = Some (selected ?b) \<and> workspaces ?b ! selected ?b = workspaces a ! k" if k: "active a = Some k" "k \<notin> set is" for k
  proof -
    have "k < length (workspaces a)" using inv k(1) ne by (auto simp: app_inv_def core_def focus_ok_def)
    then have wid: "?wid = Some (ws_id (workspaces a ! k))" using k(1) by (simp add: app_frame vec_get_def)
    have "workspaces a ! k \<in> set ?wss" using k(2) \<open>k < _\<close> by (auto simp: mem_nths)
    then obtain j where j: "j < length ?wss" "?wss ! j = workspaces a ! k" by (metis in_set_conv_nth)
    have pos: "position_of_id ?wss (ws_id (workspaces a ! k)) = Some j" using named_position [OF spaces_ok_nths [OF ok] j(1)] j(2) by simp
    have "selected ?b = j"
    proof (rule b(8))
      show "j < length (workspaces ?d)" unfolding d(1) c(1) by (rule j(1))
      show "Option.bind ?wid (position_of_id (workspaces ?d)) = Some j" unfolding d(1) c(1) wid using pos by simp
    qed
    moreover have "active ?b = Some (selected ?b)" by (rule b(7), unfold d(1) c(1)) (use j(1) in auto)
    ultimately show ?thesis unfolding b(1) d(1) c(1) using j(2) by simp
  qed
  moreover have "hm_get (terminals ?b) t = (if \<exists>i \<in> set is. t \<in> set (ws_terms (workspaces a ! i)) then None else hm_get (terminals a) t)" for t
  proof -
    have "t \<in> set ?tids \<and> \<not> terminal_attached ?c t \<longleftrightarrow> (\<exists>i \<in> set is. t \<in> set (ws_terms (workspaces a ! i)))"
      using apart [of t] unfolding terminal_attached_iff c(1) tids by blast
    then show ?thesis unfolding b(2) d(8) c(2) by simp
  qed
  moreover have "set (terminal_runtime_shutdowns ?b) = set (terminal_runtime_shutdowns a) \<union> (\<Union>i \<in> set is. set (ws_terms (workspaces a ! i)))"
  proof -
    have "hm_contains (terminals a) t" if "t \<in> set ?tids" for t
    proof -
      from that rng have "t \<in> set (space_terms (workspaces a))" unfolding tids mem_space_terms by fastforce
      then have "t \<in> set (hm_keys (terminals a))" using inv unfolding app_inv_def core_def by blast
      then show ?thesis by (simp add: hm_contains_keys)
    qed
    then have all: "{t \<in> set ?tids. \<not> terminal_attached ?c t \<and> hm_contains (terminals ?c) t} = set ?tids"
      using apart unfolding terminal_attached_iff c(1,2) by blast
    show ?thesis unfolding b(9) d(9) unfolding all unfolding c(6) tids ..
  qed
  ultimately show thesis using eq b(1,3-5) d(1,4-6) c by (intro that [of ?b]) simp_all
qed

end
