(* ===== verification/App_Requests_Theorems.thy ===== *)
theory App_Requests_Theorems
  imports App_State_Theorems
begin

text \<open>
  Every request on workspaces, tabs and panes is answered and keeps the invariant: the ids a request names lead
  to what exists, and no handler panics.  \<open>room\<close> says that the counters of ids are not exhausted and that the
  terminal id for a new process is new.
\<close>

definition served :: "('g, 'q, 'p, 'n, 'r) reply \<Rightarrow> bool" where
  "served r \<longleftrightarrow> (\<exists>b resp. r = Some (b, resp) \<and> app_inv b)"

definition room :: "('g, 'r) effects \<Rightarrow> ('g, 'q, 'p, 'n, 'r) app \<Rightarrow> bool" where
  "room eff a \<longleftrightarrow>
     next_pane_id a + 1 \<noteq> 0 \<and> next_workspace_id a + 1 \<noteq> 0 \<and> eff_terminal_id eff \<notin> set (hm_keys (terminals a))
     \<and> (\<forall>ws \<in> set (workspaces a). next_public_pane_number ws + 1 \<noteq> 0 \<and> next_public_tab_number ws + 1 \<noteq> 0)"

lemma served_refuse [intro]: "app_inv a \<Longrightarrow> served (refuse code a)"
  by (simp add: served_def)

lemma served_Some: "app_inv b \<Longrightarrow> served (Some (b, r))"
  by (simp add: served_def)

lemma served_reply_info: "app_inv a \<Longrightarrow> x = Some i \<Longrightarrow> served (reply_info f x a)"
  by (simp add: served_def reply_info_def)

subsection \<open>Ids of requests\<close>

lemma find_map_Some: "find_map f xs = Some y \<Longrightarrow> \<exists>x \<in> set xs. f x = Some y"
  by (induction xs) (auto split: option.splits)

lemma ws_pane_state_member: "ws_inv ws \<Longrightarrow> ws_pane_state ws p = Some pane \<Longrightarrow> p \<in> set (ws_panes ws)"
proof -
  assume inv: "ws_inv ws" and "ws_pane_state ws p = Some pane"
  then obtain t where t: "t \<in> set (tabs ws)" "hm_get (tab_panes t) p = Some pane" by (auto simp: ws_pane_state_def dest: find_map_Some)
  from inv t(1) have "tab_inv t" by (auto simp: ws_inv_def ws_ok_def tabs_ok_def)
  with t hm_get_keys [of "tab_panes t" p] show ?thesis by (auto simp: mem_ws_panes tab_inv_def)
qed

lemma find_pane_from_Some: "find_pane_from n wss p = Some (i, pane) \<Longrightarrow> n \<le> i \<and> i - n < length wss \<and> ws_pane_state (wss ! (i - n)) p = Some pane"
proof (induction wss arbitrary: n)
  case (Cons w wss)
  show ?case
  proof (cases "ws_pane_state w p")
    case None
    with Cons.prems have "find_pane_from (Suc n) wss p = Some (i, pane)" by simp
    from Cons.IH [OF this] have "Suc n \<le> i" "i - Suc n < length wss" "ws_pane_state (wss ! (i - Suc n)) p = Some pane" by auto
    moreover from \<open>Suc n \<le> i\<close> obtain k where "i = Suc (n + k)" by (metis le_Suc_ex add_Suc)
    ultimately show ?thesis by simp
  qed (use Cons.prems in simp)
qed simp

lemma find_pane_ok: "app_inv a \<Longrightarrow> find_pane a p = Some (i, pane) \<Longrightarrow> i < length (workspaces a) \<and> p \<in> set (ws_panes (workspaces a ! i))"
  using find_pane_from_Some [of 0 "workspaces a" p i pane] app_ws_inv [of a i] ws_pane_state_member by (auto simp: find_pane_def)

lemma pane_with_number_ok:
  "app_inv a \<Longrightarrow> pane_with_number a i n = Some (j, p) \<Longrightarrow> j < length (workspaces a) \<and> p \<in> set (ws_panes (workspaces a ! j))"
proof -
  assume inv: "app_inv a" and "pane_with_number a i n = Some (j, p)"
  then obtain e where e: "j = i" "i < length (workspaces a)" "List.find (\<lambda>e. unat (snd e) = n) (public_pane_numbers (workspaces a ! i)) = Some e" "p = fst e"
    by (auto simp: pane_with_number_def bind_eq_Some_conv vec_get_Some)
  from find_mem [OF e(3)] have "fst e \<in> set (hm_keys (public_pane_numbers (workspaces a ! i)))" by (simp add: hm_keys_def)
  with app_ws_inv [OF inv e(2)] e show ?thesis by (simp add: ws_inv_def ws_ok_def)
qed

lemma parse_pane_id_ok:
  assumes inv: "app_inv a" and p: "parse_pane_id a s = Some (i, p)"
  shows "i < length (workspaces a) \<and> p \<in> set (ws_panes (workspaces a ! i))"
proof -
  have state: "i < length (workspaces a) \<and> p \<in> set (ws_panes (workspaces a ! i))"
    if "vec_get (workspaces a) i = Some ws" "ws_pane_state ws p = Some x" for ws x
    using that ws_pane_state_member [OF app_ws_inv [OF inv, of i], of p x] by (simp add: vec_get_Some)
  from p consider pane where "find_pane a p = Some (i, pane)" | w n where "pane_with_number a w n = Some (i, p)"
    | ws x where "vec_get (workspaces a) i = Some ws" "ws_pane_state ws p = Some x"
    by (auto simp: parse_pane_id_def bind_eq_Some_conv split: option.splits)
  then show ?thesis by cases (use find_pane_ok [OF inv] pane_with_number_ok [OF inv] state in blast)+
qed

lemma tab_in_range_ok: "tab_in_range a i j = Some (i', j') \<Longrightarrow> i' < length (workspaces a) \<and> j' < length (tabs (workspaces a ! i'))"
  by (auto simp: tab_in_range_def bind_eq_Some_conv vec_get_Some)

lemma parse_tab_id_ok: "parse_tab_id a s = Some (i, j) \<Longrightarrow> i < length (workspaces a) \<and> j < length (tabs (workspaces a ! i))"
  unfolding parse_tab_id_def by (auto simp: bind_eq_Some_conv dest!: tab_in_range_ok split: option.splits)

lemma focused_pane_ok:
  assumes inv: "app_inv a" and i: "i < length (workspaces a)" and f: "focused_pane_id (workspaces a ! i) = Some p"
  shows "p \<in> set (ws_panes (workspaces a ! i))"
proof -
  note ws = app_ws_inv [OF inv i]
  from f obtain t where t: "current_tab (workspaces a ! i) = Some t" "p = focused (tab_layout t)" by (auto simp: focused_pane_id_def)
  then have j: "active_tab (workspaces a ! i) < length (tabs (workspaces a ! i))" "tabs (workspaces a ! i) ! active_tab (workspaces a ! i) = t"
    by (simp_all add: current_tab_def vec_get_Some)
  from tab_pane_member [OF j(1)] tab_inv_members(1) [OF tab_inv_of [OF ws j(1)]] j(2) t(2) show ?thesis by simp
qed

lemma split_target_ok:
  assumes inv: "app_inv a" and t: "split_target a x y = Some (i, p)"
  shows "i < length (workspaces a) \<and> p \<in> set (ws_panes (workspaces a ! i))"
proof (cases x)
  case (Some s)
  with t parse_pane_id_ok [OF inv] show ?thesis by (simp add: split_target_def)
next
  case None
  with t have "i < length (workspaces a) \<and> focused_pane_id (workspaces a ! i) = Some p"
    by (auto simp: split_target_def Let_def bind_eq_Some_conv vec_get_Some split: option.splits)
  with focused_pane_ok [OF inv] show ?thesis by blast
qed

lemma resolve_optional_pane_ok:
  assumes inv: "app_inv a" and t: "resolve_optional_pane a x = Some (i, p)"
  shows "i < length (workspaces a) \<and> p \<in> set (ws_panes (workspaces a ! i))"
proof (cases x)
  case (Some s)
  with t parse_pane_id_ok [OF inv] show ?thesis by (simp add: resolve_optional_pane_def)
next
  case None
  with t have "i < length (workspaces a) \<and> focused_pane_id (workspaces a ! i) = Some p"
    by (auto simp: resolve_optional_pane_def bind_eq_Some_conv vec_get_Some split: option.splits)
  with focused_pane_ok [OF inv] show ?thesis by blast
qed

subsection \<open>Requests on workspaces\<close>

lemma app_inv_selected: "app_inv a \<Longrightarrow> i < length (workspaces a) \<Longrightarrow> app_inv (a\<lparr>selected := i\<rparr>)"
  by (auto simp: app_inv_def core_def focus_ok_def)

lemma found_workspace:
  "Option.bind (parse_workspace_id a wid) (\<lambda>i. map_option (g i) (vec_get (workspaces a) i)) = Some x \<Longrightarrow>
    \<exists>i. i < length (workspaces a) \<and> x = g i (workspaces a ! i)"
  by (auto simp: bind_eq_Some_conv vec_get_Some)

lemma workspace_focus_served: "app_inv a \<Longrightarrow> served (handle_workspace_focus wid a)"
proof (cases "Option.bind (parse_workspace_id a wid) (\<lambda>i. map_option (\<lambda>_. i) (vec_get (workspaces a) i))")
  case None
  then show "app_inv a \<Longrightarrow> ?thesis" by (simp add: handle_workspace_focus_def served_refuse)
next
  case (Some i)
  assume inv: "app_inv a"
  from found_workspace [OF Some] have i: "i < length (workspaces a)" by blast
  then have "i < length (workspaces (switch_workspace i a))" by (simp add: switch_workspace_fields)
  with workspace_info_some [of i "switch_workspace i a"] switch_workspace_inv [OF inv i] Some show ?thesis
    by (auto simp: handle_workspace_focus_def Let_def intro: served_reply_info)
qed

lemma workspace_rename_served: "app_inv a \<Longrightarrow> served (handle_workspace_rename eff wid l a)"
proof (cases "Option.bind (parse_workspace_id a wid) (\<lambda>i. map_option (\<lambda>ws. (i, ws)) (vec_get (workspaces a) i))")
  case None
  then show "app_inv a \<Longrightarrow> ?thesis" by (simp add: handle_workspace_rename_def served_refuse)
next
  case (Some x)
  assume inv: "app_inv a"
  from found_workspace [OF Some] obtain i where i: "i < length (workspaces a)" "x = (i, workspaces a ! i)" by blast
  let ?a = "a\<lparr>workspaces := (workspaces a)[i := ws_set_custom_name l (workspaces a ! i)]\<rparr>"
  have "app_inv ?a" by (rule app_inv_kept [OF inv i(1) kept_custom_name [OF app_ws_inv [OF inv i(1)]]])
  then have b: "app_inv (emit_event (WorkspaceRenamed (ws_id (workspaces a ! i)) l) (schedule_session_save (eff_now eff) ?a))" (is "app_inv ?b") by (simp add: app_frame)
  have "i < length (workspaces ?b)" using i by (simp add: app_frame)
  from workspace_info_some [OF this] b Some i show ?thesis
    by (auto simp: handle_workspace_rename_def Let_def update_workspace_def intro: served_reply_info)
qed

lemma workspace_move_served: "app_inv a \<Longrightarrow> served (handle_workspace_move wid j a)"
proof (cases "Option.bind (parse_workspace_id a wid) (\<lambda>i. map_option (\<lambda>ws. (i, ws)) (vec_get (workspaces a) i))")
  case None
  then show "app_inv a \<Longrightarrow> ?thesis" by (simp add: handle_workspace_move_def served_refuse)
next
  case (Some x)
  assume inv: "app_inv a"
  from found_workspace [OF Some] obtain i where i: "i < length (workspaces a)" "x = (i, workspaces a ! i)" by blast
  from move_workspace_cases [OF inv, of i j] obtain b moved where b: "move_workspace i j a = Some (b, moved)" "app_inv b" by metis
  with inv Some i show ?thesis by (simp add: handle_workspace_move_def Let_def served_def app_frame)
qed

lemma workspace_move_block_served:
  assumes inv: "app_inv a"
  shows "served (handle_workspace_move_block wids before a)"
proof -
  have "served (case move_workspace_block ids bid a of None \<Rightarrow> None
      | Some (a, moved) \<Rightarrow> (let infos = workspace_list_info a; a = (if moved then emit_event (WorkspaceReordered ids bid) a else a)
            in Some (a, Inr (ResultWorkspaceList infos))))" for ids bid
    by (cases rule: move_workspace_block_cases [OF inv, of ids bid]) (use inv in \<open>simp_all add: served_def app_frame Let_def\<close>)
  then show ?thesis unfolding handle_workspace_move_block_def using inv by (auto split: sum.split)
qed

lemma close_indices_ok:
  assumes "i < length (workspaces a)"
  shows "sorted_wrt (<) (workspace_group_close_indices a i)" and "\<forall>k \<in> set (workspace_group_close_indices a i). k < length (workspaces a)"
    and "sorted_wrt (<) (workspace_close_indices a i)" and "\<forall>k \<in> set (workspace_close_indices a i). k < length (workspaces a)"
proof -
  have s: "sorted_wrt (<) (filter P [0..<n])" for P and n :: nat by (rule sorted_wrt_filter) simp
  show g: "sorted_wrt (<) (workspace_group_close_indices a i)" "\<forall>k \<in> set (workspace_group_close_indices a i). k < length (workspaces a)"
    using assms s by (auto simp: workspace_group_close_indices_def Let_def split: option.split)
  then show "sorted_wrt (<) (workspace_close_indices a i)" "\<forall>k \<in> set (workspace_close_indices a i). k < length (workspaces a)"
    using assms by (simp_all add: workspace_close_indices_def Let_def)
qed

lemma fold_emit_inv: "app_inv (fold (\<lambda>x. emit_event (f x)) xs a) = app_inv a"
  by (induction xs arbitrary: a) (simp_all add: app_frame)

lemma workspace_close_served:
  assumes inv: "app_inv a"
  shows "served (handle_workspace_close wid g a)"
proof (cases "Option.bind (parse_workspace_id a wid) (\<lambda>i. map_option (\<lambda>_. i) (vec_get (workspaces a) i))")
  case None
  then show ?thesis using inv by (simp add: handle_workspace_close_def served_refuse)
next
  case (Some i)
  from found_workspace [OF Some] have i: "i < length (workspaces a)" by blast
  let ?is = "if g then workspace_group_close_indices a i else workspace_close_indices a i"
  have idx: "sorted_wrt (<) ?is" "\<forall>k \<in> set ?is. k < length (workspaces (a\<lparr>selected := i\<rparr>))" using close_indices_ok [OF i] by simp_all
  have "workspaces (a\<lparr>selected := i\<rparr>) \<noteq> []" using i by auto
  from close_workspaces_effect [OF app_inv_selected [OF inv i] idx this] obtain b where b: "close_workspaces ?is (a\<lparr>selected := i\<rparr>) = Some b" "app_inv b" by metis
  show ?thesis unfolding handle_workspace_close_def Some using inv b by (auto simp: Let_def fold_emit_inv app_frame intro!: served_Some)
qed

subsection \<open>New workspaces\<close>

lemma naming_mono: "naming wss al c n \<Longrightarrow> c \<le> c' \<Longrightarrow> n \<le> n' \<Longrightarrow> naming wss al c' n'"
  unfolding naming_def named_below_def by (meson less_le_trans order_less_le_trans word_le_nat_alt)

lemma word_succ_le: "(n :: 'a::len word) + 1 \<noteq> 0 \<Longrightarrow> n \<le> n + 1"
  using word_less_succ [of n n] by simp

lemma below_fresh: "naming wss al c n \<Longrightarrow> n \<notin> set (space_panes wss)"
  unfolding naming_def named_below_def mem_space_panes by blast

lemma named_apart:
  assumes "naming wss al c n" and "k = unat c"
  shows "\<forall>ws \<in> set wss. ws_id ws \<noteq> workspace_id_for k"
proof
  fix ws assume "ws \<in> set wss"
  with assms obtain j where j: "ws_id ws = workspace_id_for j" "0 < j" "j < unat c" unfolding naming_def named_below_def by blast
  have "unat c < 2 ^ 64" using unat_lt_pow [of c] by simp
  with j assms(2) workspace_id_inj [of j k] show "ws_id ws \<noteq> workspace_id_for k" by auto
qed

lemma alias_apart:
  assumes "naming wss al c n" and "s \<in> set (hm_keys al)"
  shows "\<nexists>m. s = public_pane_id_for_number (workspace_id_for (unat c)) m"
proof
  assume "\<exists>m. s = public_pane_id_for_number (workspace_id_for (unat c)) m"
  then obtain m where m: "s = public_pane_id_for_number (workspace_id_for (unat c)) m" ..
  from assms obtain k m' where k: "s = public_pane_id_for_number (workspace_id_for k) m'" "0 < k" "k < unat c" unfolding naming_def by blast
  have "unat c < 2 ^ 64" using unat_lt_pow [of c] by simp
  with public_pane_id_inj(1) [of k m' "unat c" m] m k workspace_id_inj [of k "unat c"] show False by auto
qed

lemma snoc_inv:
  assumes old: "spaces_ok (workspaces a)" "hm_ok (terminals b)" "set (space_terms (workspaces a)) \<subseteq> set (hm_keys (terminals b))"
    and nam: "naming (workspaces a) (public_pane_id_aliases b) c n" and c: "c + 1 \<noteq> 0" and n': "n \<le> n'"
    and ws: "ws_inv ws" "ws_id ws = workspace_id_for (unat c)" "set (ws_panes ws) = {p}" "set (ws_terms ws) = {t}"
    and fresh: "p \<notin> set (space_panes (workspaces a))" "p < n'" "t \<notin> set (space_terms (workspaces a))" "t \<in> set (hm_keys (terminals b))"
    and b: "workspaces b = workspaces a @ [ws]" "next_workspace_id b = c + 1" "next_pane_id b = n'" "focus_ok (workspaces b) (active b) (selected b)"
  shows "app_inv b"
proof -
  have "spaces_ok (workspaces b)"
    unfolding b(1) using named_apart [OF nam refl] ws fresh by (intro spaces_ok_snoc [OF old(1)]) auto
  moreover have "set (space_terms (workspaces b)) \<subseteq> set (hm_keys (terminals b))" using old(3) ws(4) fresh(4) by (simp add: b(1) space_terms_def)
  ultimately have "core (workspaces b) (active b) (selected b) (terminals b)" using old(2) b(4) by (simp add: core_def)
  moreover have "naming (workspaces b) (public_pane_id_aliases b) (c + 1) n'"
  proof -
    have le: "c \<le> c + 1" "unat c < unat (c + 1)" using c by (simp_all add: word_succ_le unat_succ)
    have pos: "0 < c" "0 < c + 1" using nam c by (simp_all add: naming_def word_gt_0)
    have "named_below (c + 1) n' ws" using ws fresh(2) le pos by (auto simp: named_below_def unat_gt_0 word_neq_0_conv intro!: exI [of _ "unat c"])
    moreover have "retired ws s" if "s \<in> set (hm_keys (public_pane_id_aliases b))" for s
      using alias_apart [OF nam that] ws(2) by (auto simp: retired_def)
    moreover note naming_mono [OF nam le(1) n']
    ultimately show ?thesis unfolding naming_def b(1) by simp
  qed
  ultimately show ?thesis by (simp add: app_inv_def b)
qed

lemma switched_inv':
  assumes inv: "app_inv (a\<lparr>active := Some i, selected := i\<rparr>)" and i: "i < length (workspaces a)"
  shows "app_inv (a\<lparr>active := Some i, selected := i, workspaces := (workspaces a)[i := switch_tab j (workspaces a ! i)]\<rparr>)"
  using switched_inv [OF inv, of i j] i by simp

lemma create_workspace_effect:
  fixes a :: "('g, 'q, 'p, 'n, 'r) app"
  assumes inv: "app_inv a" and room: "room eff a"
  obtains (failed) b e where "create_workspace_with_launch_env eff dir foc a = (b, Inl e)" and "app_inv b"
      and "workspaces b = workspaces a" and "eff_spawned eff = Inl e"
  | (created) b where "create_workspace_with_launch_env eff dir foc a = (b, Inr (length (workspaces a)))" and "app_inv b"
      and "length (workspaces b) = Suc (length (workspaces a))" and "length (tabs (workspaces b ! length (workspaces a))) = 1"
proof -
  let ?n = "next_pane_id a" and ?c = "next_workspace_id a" and ?t = "eff_terminal_id eff"
  have r: "?n + 1 \<noteq> 0" "?c + 1 \<noteq> 0" "?t \<notin> set (hm_keys (terminals a))" using room by (simp_all add: room_def)
  from inv have nam: "naming (workspaces a) (public_pane_id_aliases a) ?c ?n" and ok: "spaces_ok (workspaces a)"
    and keys: "hm_ok (terminals a)" "set (space_terms (workspaces a)) \<subseteq> set (hm_keys (terminals a))" and foc: "focus_ok (workspaces a) (active a) (selected a)"
    by (simp_all add: app_inv_def core_def)
  obtain n' c' and res :: "string + 'g workspace \<times> 'q terminal_state \<times> 'r" where
    res: "ws_new_with_tab dir None (eff_git eff dir) (eff_spawned eff) ?t ?n ?c = (n', c', res)" by (metis surj_pair)
  then have n'c': "n' = ?n + 1" "c' = ?c + 1"
    by (auto simp: ws_new_with_tab_def generate_workspace_id_def tab_new_with_runtime_def tile_layout_new_def alloc_def split: sum.splits)
  show thesis
  proof (cases res)
    case (Inl e)
    let ?b = "a\<lparr>next_pane_id := n', next_workspace_id := c'\<rparr>"
    have "naming (workspaces a) (public_pane_id_aliases a) c' n'" unfolding n'c' by (rule naming_mono [OF nam word_succ_le [OF r(2)] word_succ_le [OF r(1)]])
    with inv have "app_inv ?b" by (simp add: app_inv_def)
    moreover have "eff_spawned eff = Inl e"
      using res Inl by (auto simp: ws_new_with_tab_def generate_workspace_id_def tab_new_with_runtime_def tile_layout_new_def alloc_def split: sum.splits)
    ultimately show thesis using res Inl by (intro failed [of ?b e]) (simp_all add: create_workspace_with_launch_env_def)
  next
    case (Inr x)
    obtain ws terminal runtime where x: "x = (ws, terminal, runtime)" by (cases x)
    note new = ws_new_inv [OF res [unfolded Inr x]]
    let ?idx = "length (workspaces a)"
    let ?b = "a\<lparr>next_pane_id := n', next_workspace_id := c', terminal_runtimes := hm_insert ?t runtime (terminal_runtimes a),
        terminals := hm_insert ?t terminal (terminals a), workspaces := workspaces a @ [ws]\<rparr>"
    let ?d = "remove_alias_shadowed_by_new_pane (tab_root_pane (hd (tabs ws))) ?b"
    have tfresh: "?t \<notin> set (space_terms (workspaces a))" using r(3) keys(2) by blast
    have any: "app_inv e" if "workspaces e = workspaces a @ [ws]" "terminals e = terminals ?b" "public_pane_id_aliases e = public_pane_id_aliases a"
      "next_workspace_id e = c'" "next_pane_id e = n'" "focus_ok (workspaces e) (active e) (selected e)" for e :: "('g, 'q, 'p, 'n, 'r) app"
    proof (rule snoc_inv [of a e ?c ?n n' ws ?n ?t])
      show "?n < n'" using word_less_succ [OF r(1), of ?n] n'c' by simp
      show "?n \<le> n'" using word_succ_le [OF r(1)] n'c' by simp
    qed (use that keys ok nam r n'c' new below_fresh [OF nam] tfresh in \<open>auto simp: hm.ok_put hm_keys_insert workspace_id_for_def\<close>)
    show thesis
    proof (cases "foc \<or> active a = None")
      case True
      have i: "?idx < length (workspaces ?d)" by (simp add: app_frame)
      have "app_inv (?d\<lparr>active := Some ?idx, selected := ?idx\<rparr>)" by (rule any) (simp_all add: app_frame focus_ok_def)
      then have inv': "app_inv (switch_workspace ?idx ?d)"
        using switched_inv' [OF _ i] switch_workspace_view [OF i] app_inv_view by metis
      note f = switch_workspace_fields [OF i]
      let ?e = "schedule_session_save (eff_now eff) ((switch_workspace ?idx ?d)\<lparr>mode := Terminal\<rparr>)"
      have eq: "create_workspace_with_launch_env eff dir foc a = (?e, Inr ?idx)"
        using res Inr x True new(4) by (simp add: create_workspace_with_launch_env_def Let_def app_frame)
      have w: "workspaces ?e = workspaces (switch_workspace ?idx ?d)" by (simp add: app_frame)
      have "length (workspaces ?e) = Suc ?idx" "length (tabs (workspaces ?e ! ?idx)) = 1"
        unfolding w f(1) using new(8) by (simp_all add: app_frame switch_tab_facts)
      with inv' eq show thesis by (intro created [of ?e]) (simp_all add: app_frame)
    next
      case False
      let ?e = "schedule_session_save (eff_now eff) ?d"
      have eq: "create_workspace_with_launch_env eff dir foc a = (?e, Inr ?idx)"
        using res Inr x False new(4) by (auto simp: create_workspace_with_launch_env_def Let_def app_frame)
      have "focus_ok (workspaces a @ [ws]) (active a) (selected a)" using foc False by (auto simp: focus_ok_def split: if_splits)
      then have "app_inv ?e" by (intro any) (simp_all add: app_frame)
      moreover have "length (workspaces ?e) = Suc ?idx" "length (tabs (workspaces ?e ! ?idx)) = 1" using new(8) by (simp_all add: app_frame)
      ultimately show thesis using eq by (intro created [of ?e])
    qed
  qed
qed

lemma named_workspace_inv:
  fixes label :: "string option"
  assumes "app_inv a" and "i < length (workspaces a)"
  defines "b \<equiv> (case label of Some l \<Rightarrow> update_workspace i (ws_set_custom_name l) a | None \<Rightarrow> a)"
  shows "app_inv b" and "length (workspaces b) = length (workspaces a)" and "length (tabs (workspaces b ! i)) = length (tabs (workspaces a ! i))"
  using assms app_inv_kept [OF assms(1,2) kept_custom_name [OF app_ws_inv [OF assms(1,2)]]]
  by (auto simp: b_def update_workspace_def ws_set_custom_name_def split: option.split)

lemma emit_open_events:
  fixes a :: "('g, 'q, 'p, 'n, 'r) app"
  assumes "i < length (workspaces a)"
  obtains b where "emit_workspace_open_events i a = Some b" and "app_view b = app_view a"
proof -
  from workspace_info_some [OF assms] obtain info where info: "workspace_info_of a i = Some info" ..
  let ?b = "case (tab_info_of a i 0, root_pane_info a i 0) of (Some tab, Some root_pane) \<Rightarrow>
     emit_layout_updated_event i 0 (emit_event (PaneCreated root_pane) (emit_event (TabCreated tab) (emit_event (WorkspaceCreated info) a)))
   | _ \<Rightarrow> a"
  have "emit_workspace_open_events i a = Some ?b" by (simp add: emit_workspace_open_events_def info)
  moreover have "app_view ?b = app_view a" by (simp add: app_frame split: option.split)
  ultimately show thesis by (rule that)
qed

lemma workspace_create_served:
  assumes inv: "app_inv a" and room: "room eff a"
  shows "served (handle_workspace_create eff dir src foc label env a)"
proof -
  have "served (case create_workspace_with_launch_env eff d foc a of
       (a, Inl e) \<Rightarrow> refuse ''workspace_create_failed'' a
     | (a, Inr i) \<Rightarrow>
         (let a = (case label of Some l \<Rightarrow> update_workspace i (ws_set_custom_name l) a | None \<Rightarrow> a)
          in case emit_workspace_open_events i a of None \<Rightarrow> None
             | Some a \<Rightarrow> (case (workspace_info_of a i, tab_info_of a i 0, root_pane_info a i 0) of
                  (Some w, Some t, Some p) \<Rightarrow> Some (a, Inr (ResultWorkspaceCreated w t p)) | _ \<Rightarrow> None)))" for d
  proof (cases rule: create_workspace_effect [OF inv room, of d foc])
    case (1 b e)
    then show ?thesis by (simp add: served_refuse)
  next
    case (2 b)
    let ?i = "length (workspaces a)"
    let ?c = "case label of Some l \<Rightarrow> update_workspace ?i (ws_set_custom_name l) b | None \<Rightarrow> b"
    have i: "?i < length (workspaces b)" using 2 by simp
    note c = named_workspace_inv [OF 2(2) i, where label = label]
    have ic: "?i < length (workspaces ?c)" using c(2) i by simp
    from emit_open_events [OF ic] obtain d where d: "emit_workspace_open_events ?i ?c = Some d" "app_view d = app_view ?c" .
    have inv': "app_inv d" and i': "?i < length (workspaces d)" and j': "0 < length (tabs (workspaces d ! ?i))"
      using app_inv_view [OF d(2)] app_view_fields(1) [OF d(2)] c 2 i by simp_all
    from workspace_info_some [OF i'] tab_info_some [OF inv' i' j'] root_pane_some [OF inv' i' j'] obtain w t p where
      "workspace_info_of d ?i = Some w" "tab_info_of d ?i 0 = Some t" "root_pane_info d ?i 0 = Some p" by metis
    with 2(1) d(1) inv' show ?thesis by (simp add: Let_def served_Some)
  qed
  then show ?thesis using inv unfolding handle_workspace_create_def Let_def by (auto split: sum.split option.split)
qed

subsection \<open>A workspace that gains a pane\<close>

lemma grown_inv:
  fixes a :: "('g, 'q, 'p, 'n, 'r) app"
  assumes inv: "app_inv a" and i: "i < length (workspaces a)" and g: "grown (next_pane_id a) tid (workspaces a ! i) ws'"
    and n: "next_pane_id a + 1 \<noteq> 0" and t: "tid \<notin> set (hm_keys (terminals a))"
    and b: "workspaces b = (workspaces a)[i := ws']" "active b = active a" "selected b = selected a" "terminals b = hm_insert tid terminal (terminals a)"
      "public_pane_id_aliases b = public_pane_id_aliases a" "next_workspace_id b = next_workspace_id a" "next_pane_id b = next_pane_id a + 1"
  shows "app_inv b"
proof -
  from inv have c: "core (workspaces a) (active a) (selected a) (terminals a)"
    and nam: "naming (workspaces a) (public_pane_id_aliases a) (next_workspace_id a) (next_pane_id a)" by (simp_all add: app_inv_def)
  have tf: "tid \<notin> set (space_terms (workspaces a))" using t c unfolding core_def by blast
  have ok: "hm_ok (terminals a)" using c by (simp add: core_def)
  have "core (workspaces b) (active b) (selected b) (terminals b)"
    unfolding b using hm.ok_put [OF ok] by (intro core_grown [OF c i g below_fresh [OF nam] tf]) (simp_all add: hm_keys_insert)
  moreover have "naming (workspaces b) (public_pane_id_aliases b) (next_workspace_id b) (next_pane_id b)"
  proof -
    note mono = naming_mono [OF nam order_refl word_succ_le [OF n]]
    have "workspaces a ! i \<in> set (workspaces a)" using i by simp
    with mono have "named_below (next_workspace_id a) (next_pane_id a + 1) (workspaces a ! i)" unfolding naming_def by blast
    with g word_less_succ [OF n, of "next_pane_id a"] have "named_below (next_workspace_id a) (next_pane_id a + 1) ws'"
      unfolding named_below_def grown_def by auto
    from naming_update [OF mono i this grown_retired [OF g]] show ?thesis unfolding b .
  qed
  ultimately show ?thesis by (simp add: app_inv_def)
qed

lemma remove_unattached_inv: "app_inv a \<Longrightarrow> app_inv (remove_unattached_terminal_ids tids a)"
proof -
  assume inv: "app_inv a"
  note f = remove_unattached_facts [where tids = tids and a = a]
  from inv have "core (workspaces a) (active a) (selected a) (terminals (remove_unattached_terminal_ids tids a))"
    unfolding app_inv_def core_def by (intro remove_unattached_core [unfolded core_def]) simp_all
  with inv show ?thesis unfolding app_inv_def f(1-6) by simp
qed

subsection \<open>Requests on tabs\<close>

lemma tab_focus_served: "app_inv a \<Longrightarrow> served (handle_tab_focus s a)"
proof (cases "parse_tab_id a s")
  case None
  then show "app_inv a \<Longrightarrow> ?thesis" by (simp add: handle_tab_focus_def served_refuse)
next
  case (Some x)
  assume inv: "app_inv a"
  obtain i j where x: "x = (i, j)" by (cases x)
  from parse_tab_id_ok [OF Some [unfolded x]] have ij: "i < length (workspaces a)" "j < length (tabs (workspaces a ! i))" by simp_all
  let ?b = "fst (switch_workspace_tab i j a)"
  note b = switch_workspace_tab_inv [OF inv ij] switch_workspace_tab_fields(1) [OF ij]
  have "i < length (workspaces ?b)" "j < length (tabs (workspaces ?b ! i))" using ij by (simp_all add: b(2) switch_tab_facts)
  from tab_info_some [OF b(1) this] obtain t where "tab_info_of ?b i j = Some t" .
  with Some x b(1) show ?thesis by (auto simp: handle_tab_focus_def Let_def intro: served_reply_info)
qed

lemma tab_rename_served: "app_inv a \<Longrightarrow> served (handle_tab_rename eff s l a)"
proof (cases "parse_tab_id a s")
  case None
  then show "app_inv a \<Longrightarrow> ?thesis" by (simp add: handle_tab_rename_def served_refuse)
next
  case (Some x)
  assume inv: "app_inv a"
  obtain i j where x: "x = (i, j)" by (cases x)
  from parse_tab_id_ok [OF Some [unfolded x]] have ij: "i < length (workspaces a)" "j < length (tabs (workspaces a ! i))" by simp_all
  note ws = app_ws_inv [OF inv ij(1)]
  let ?b = "schedule_session_save (eff_now eff) (a\<lparr>workspaces := (workspaces a)[i := name_tab j l (workspaces a ! i)]\<rparr>)"
  have b: "app_inv ?b" using app_inv_kept [OF inv ij(1) name_tab_facts(1) [OF ws ij(2)]] by (simp add: app_frame)
  have r: "i < length (workspaces ?b)" "j < length (tabs (workspaces ?b ! i))" using ij name_tab_facts(4) [OF ws ij(2)] by (simp_all add: app_frame)
  from parse_own_tab_id [OF b r] obtain tid where tid: "public_tab_id ?b i j = Some tid" by blast
  have wid: "public_workspace_id ?b i = Some (ws_id (workspaces ?b ! i))" using r(1) by (simp add: public_workspace_id_def vec_get_def)
  let ?c = "emit_event (TabRenamed tid (ws_id (workspaces ?b ! i)) l) ?b"
  have c: "app_inv ?c" "i < length (workspaces ?c)" "j < length (tabs (workspaces ?c ! i))"
    using b r by (simp_all add: app_view_simps(5) [THEN app_inv_view] app_view_simps(5) [THEN app_view_fields(1)])
  from tab_info_some [OF c] obtain t where "tab_info_of ?c i j = Some t" .
  with Some x tid wid c(1) ij(1) show ?thesis by (auto simp: handle_tab_rename_def Let_def update_workspace_def intro: served_reply_info)
qed

lemma kept_move_tab: "ws_inv ws \<Longrightarrow> move_tab i j ws = (ws', b) \<Longrightarrow> kept ws ws'"
proof -
  assume a: "ws_inv ws" "move_tab i j ws = (ws', b)"
  note m = move_tab_effect [OF a]
  have "next_public_pane_number ws' = next_public_pane_number ws" "public_pane_numbers ws' = public_pane_numbers ws"
    using arg_cong [OF m(7), of next_public_pane_number] arg_cong [OF m(7), of public_pane_numbers] by simp_all
  with m show ?thesis by (simp add: kept_def)
qed

lemma tab_move_served:
  assumes inv: "app_inv a"
  shows "served (handle_tab_move eff s k a)"
proof (cases "parse_tab_id a s")
  case None
  with inv show ?thesis by (simp add: handle_tab_move_def served_refuse)
next
  case (Some x)
  obtain i j where x: "x = (i, j)" by (cases x)
  from parse_tab_id_ok [OF Some [unfolded x]] have i: "i < length (workspaces a)" by simp
  obtain ws' b where m: "move_tab j k (workspaces a ! i) = (ws', b)" by fastforce
  have "app_inv (a\<lparr>workspaces := (workspaces a)[i := ws']\<rparr>)" by (rule app_inv_kept [OF inv i kept_move_tab [OF app_ws_inv [OF inv i] m]])
  with Some x i m inv show ?thesis by (simp add: handle_tab_move_def Let_def vec_get_def served_def app_frame)
qed

lemma close_selected_served:
  assumes inv: "app_inv a" and i: "i < length (workspaces a)"
  obtains b where "close_selected_workspace (a\<lparr>selected := i\<rparr>) = Some b" and "app_inv b"
    and "workspaces b = nths (workspaces a) (- set (workspace_close_indices a i))"
proof -
  let ?a = "a\<lparr>selected := i\<rparr>"
  have w: "workspaces ?a = workspaces a" by simp
  have eq: "workspace_close_indices ?a i = workspace_close_indices a i"
    unfolding workspace_close_indices_def workspace_group_close_indices_def w ..
  have ne: "workspaces ?a \<noteq> []" and rng: "\<forall>k \<in> set (workspace_close_indices a i). k < length (workspaces ?a)"
    using i close_indices_ok(4) [OF i] by auto
  from close_workspaces_effect [OF app_inv_selected [OF inv i] close_indices_ok(3) [OF i] rng ne]
  obtain b where "close_workspaces (workspace_close_indices a i) ?a = Some b" "app_inv b"
    "workspaces b = nths (workspaces ?a) (- set (workspace_close_indices a i))" by metis
  then show thesis unfolding w by (intro that) (simp_all add: close_selected_workspace_def eq)
qed

lemma fold_remove_subset: "set (fold hm_remove ks m) \<subseteq> set m"
proof (induction ks arbitrary: m)
  case (Cons k ks)
  have "set (hm_remove k m) \<subseteq> set m" by (auto simp: hm_remove_filter)
  with Cons.IH [of "hm_remove k m"] show ?case by auto
qed simp

lemma tab_close_served:
  assumes inv: "app_inv a"
  shows "served (handle_tab_close eff s a)"
proof (cases "parse_tab_id a s")
  case None
  with inv show ?thesis by (simp add: handle_tab_close_def served_refuse)
next
  case (Some x)
  obtain i j where x: "x = (i, j)" by (cases x)
  from parse_tab_id_ok [OF Some [unfolded x]] have ij: "i < length (workspaces a)" "j < length (tabs (workspaces a ! i))" by simp_all
  from parse_own_tab_id [OF inv ij] obtain tid where tid: "public_tab_id a i j = Some tid" by blast
  let ?ws = "workspaces a ! i"
  note ws = app_ws_inv [OF inv ij(1)]
  have get: "vec_get (workspaces a) i = Some ?ws" using ij by (simp add: vec_get_def)
  show ?thesis
  proof (cases "length (tabs ?ws) \<le> 1")
    case True
    from close_selected_served [OF inv ij(1)] obtain b where "close_selected_workspace (a\<lparr>selected := i\<rparr>) = Some b" "app_inv b" by metis
    with True Some x tid get inv show ?thesis by (simp add: handle_tab_close_def Let_def served_def app_frame)
  next
    case False
    from ij(2) obtain xs t ys where d: "tabs ?ws = xs @ t # ys" "length xs = j" by (metis vec_decomp)
    from False have "1 < length (tabs ?ws)" by simp
    from ws_close_tab_effect [OF ws this d(1)] d(2) obtain ws' where w: "ws_close_tab j ?ws = (ws', True)" "ws_inv ws'" "tabs ws' = xs @ ys" "ws_id ws' = ws_id ?ws"
      "next_public_pane_number ws' = next_public_pane_number ?ws"
      "public_pane_numbers ws' = fold hm_remove (hm_keys (tab_panes t)) (public_pane_numbers ?ws)" by metis
    have "kept ?ws ws'" using w d(1) fold_remove_subset [of "hm_keys (tab_panes t)" "public_pane_numbers ?ws"] by (auto simp: kept_def mem_ws_panes mem_ws_terms)
    from app_inv_kept [OF inv ij(1) this] have inv': "app_inv (a\<lparr>workspaces := (workspaces a)[i := ws']\<rparr>)" .
    have "app_inv (remove_unattached_terminal_ids (terminal_ids_for_tab a i j)
        (remove_plugin_pane_records (pane_ids_for_tab a i j) (a\<lparr>workspaces := (workspaces a)[i := ws']\<rparr>)))"
      by (rule remove_unattached_inv) (use inv' in \<open>simp add: app_frame\<close>)
    with False Some x tid get w(1) show ?thesis by (simp add: handle_tab_close_def Let_def served_def app_frame)
  qed
qed

end
