(* ===== verification/App_Pane_Theorems.thy ===== *)
theory App_Pane_Theorems
  imports App_Requests_Theorems
begin

text \<open>
  The requests that create, split, zoom and close panes and tabs, and the
  death of a pane's process: each is served without a panic and keeps the
  invariant of the application.
\<close>

subsection \<open>Requests that create tabs\<close>

lemma fresh_in_spaces:
  assumes inv: "app_inv a" and room: "room eff a" and i: "i < length (workspaces a)"
  shows "next_pane_id a \<notin> set (ws_panes (workspaces a ! i))" and "eff_terminal_id eff \<notin> set (ws_terms (workspaces a ! i))"
proof -
  have mem: "workspaces a ! i \<in> set (workspaces a)" using i by simp
  have "next_pane_id a \<notin> set (space_panes (workspaces a))" using inv below_fresh unfolding app_inv_def by blast
  with mem show "next_pane_id a \<notin> set (ws_panes (workspaces a ! i))" unfolding mem_space_panes by blast
  have "eff_terminal_id eff \<notin> set (space_terms (workspaces a))" using inv room unfolding app_inv_def core_def room_def by blast
  with mem show "eff_terminal_id eff \<notin> set (ws_terms (workspaces a ! i))" unfolding mem_space_terms by blast
qed

lemma room_numbers:
  "room eff a \<Longrightarrow> i < length (workspaces a) \<Longrightarrow> next_public_pane_number (workspaces a ! i) + 1 \<noteq> 0 \<and> next_public_tab_number (workspaces a ! i) + 1 \<noteq> 0"
  by (simp add: room_def)

lemma bumped_inv:
  assumes "app_inv a" and "next_pane_id a + 1 \<noteq> 0" and "i < length (workspaces a)" and "kept (workspaces a ! i) ws'"
  shows "app_inv (a\<lparr>workspaces := (workspaces a)[i := ws'], next_pane_id := next_pane_id a + 1\<rparr>)"
proof -
  note k = app_inv_kept [OF assms(1,3,4)]
  then have "naming ((workspaces a)[i := ws']) (public_pane_id_aliases a) (next_workspace_id a) (next_pane_id a)" by (simp add: app_inv_def)
  from naming_mono [OF this order_refl word_succ_le [OF assms(2)]] k show ?thesis by (simp add: app_inv_def)
qed

lemma tab_created_inv:
  fixes b :: "('g, 'q, 'p, 'n, 'r) app" and label :: "string option" and foc :: bool
  assumes inv: "app_inv b" and i: "i < length (workspaces b)" and j: "j < length (tabs (workspaces b ! i))"
  defines "c \<equiv> (case label of Some l \<Rightarrow> update_workspace i (name_tab j l) b | None \<Rightarrow> b)"
  defines "d \<equiv> (if foc then (fst (switch_workspace_tab i j c))\<lparr>mode := Terminal\<rparr> else c)"
  shows "app_inv d" and "i < length (workspaces d)" and "j < length (tabs (workspaces d ! i))"
proof -
  note n = name_tab_facts [OF app_ws_inv [OF inv i] j]
  have c: "app_inv c" "i < length (workspaces c)" "j < length (tabs (workspaces c ! i))"
    using inv i j n(4) app_inv_kept [OF inv i n(1)] by (auto simp: c_def update_workspace_def split: option.split)
  note s = switch_workspace_tab_inv [OF c] switch_workspace_tab_fields(1) [OF c(2,3)]
  from c s show "app_inv d" "i < length (workspaces d)" "j < length (tabs (workspaces d ! i))"
    by (simp_all add: d_def app_frame switch_tab_facts)
qed

lemma tab_create_served:
  fixes a :: "('g, 'q, 'p, 'n, 'r) app"
  assumes inv: "app_inv a" and room: "room eff a"
  shows "served (handle_tab_create eff wid dir foc label env a)"
proof -
  have r: "next_pane_id a + 1 \<noteq> 0" "eff_terminal_id eff \<notin> set (hm_keys (terminals a))" using room by (simp_all add: room_def)
  have "served (case create_tab_with_runtime (workspaces a ! i) d None (eff_spawned eff) (eff_terminal_id eff) (next_pane_id a) of
       None \<Rightarrow> None
     | Some (ws, n, Inl e) \<Rightarrow> refuse ''tab_create_failed'' (a\<lparr>workspaces := (workspaces a)[i := ws], next_pane_id := n\<rparr>)
     | Some (ws, n, Inr (tab_idx, terminal, runtime)) \<Rightarrow>
         (let a = a\<lparr>workspaces := (workspaces a)[i := ws], next_pane_id := n,
                    terminal_runtimes := hm_insert (terminal_id terminal) runtime (terminal_runtimes a),
                    terminals := hm_insert (terminal_id terminal) terminal (terminals a)\<rparr>;
              a = remove_alias_shadowed_by_new_pane (tab_root_pane (tabs ws ! tab_idx)) a;
              a = (case label of Some l \<Rightarrow> update_workspace i (name_tab tab_idx l) a | None \<Rightarrow> a);
              a = (if foc then (fst (switch_workspace_tab i tab_idx a))\<lparr>mode := Terminal\<rparr> else a);
              a = emit_tab_created_events i tab_idx (schedule_session_save (eff_now eff) a)
          in case (tab_info_of a i tab_idx, root_pane_info a i tab_idx) of
               (Some t, Some p) \<Rightarrow> Some (a, Inr (ResultTabCreated t p)) | _ \<Rightarrow> None))"
    if i: "i < length (workspaces a)" for i d
  proof (cases rule: create_tab_effect [where 'q = 'q, OF app_ws_inv [OF inv i] room_numbers [OF room i, THEN conjunct1]
        room_numbers [OF room i, THEN conjunct2] fresh_in_spaces [OF inv room i], of d None "eff_spawned eff"])
    case (1 e)
    have "kept (workspaces a ! i) ((workspaces a ! i)\<lparr>next_public_tab_number := next_public_tab_number (workspaces a ! i) + 1\<rparr>)"
      using 1(2) by (simp add: kept_def ws_panes_def ws_terms_def)
    from bumped_inv [OF inv r(1) i this] 1(1) show ?thesis by (simp add: served_refuse)
  next
    case (2 ws' terminal runtime)
    let ?j = "length (tabs (workspaces a ! i))"
    let ?b = "remove_alias_shadowed_by_new_pane (tab_root_pane (tabs ws' ! ?j)) (a\<lparr>workspaces := (workspaces a)[i := ws'], next_pane_id := next_pane_id a + 1,
        terminal_runtimes := hm_insert (terminal_id terminal) runtime (terminal_runtimes a),
        terminals := hm_insert (terminal_id terminal) terminal (terminals a)\<rparr>)"
    have g: "grown (next_pane_id a) (eff_terminal_id eff) (workspaces a ! i) ws'" using 2 room_numbers [OF room i] by (simp add: grown_def)
    have b: "app_inv ?b" by (rule grown_inv [OF inv i g r]) (use 2(5) in \<open>simp_all add: app_frame\<close>)
    have ij: "i < length (workspaces ?b)" "?j < length (tabs (workspaces ?b ! i))" using i 2(7) by (simp_all add: app_frame)
    let ?c = "case label of Some l \<Rightarrow> update_workspace i (name_tab ?j l) ?b | None \<Rightarrow> ?b"
    let ?d = "if foc then (fst (switch_workspace_tab i ?j ?c))\<lparr>mode := Terminal\<rparr> else ?c"
    let ?e = "emit_tab_created_events i ?j (schedule_session_save (eff_now eff) ?d)"
    note d = tab_created_inv [OF b ij, where label = label and foc = foc]
    have v: "app_view ?e = app_view ?d" by (simp only: app_view_simps)
    have e: "app_inv ?e" "i < length (workspaces ?e)" "?j < length (tabs (workspaces ?e ! i))"
      unfolding app_inv_view [OF v] app_view_fields(1) [OF v] by (fact d)+
    from tab_info_some [OF e] root_pane_some [OF e] obtain t p where tp: "tab_info_of ?e i ?j = Some t" "root_pane_info ?e i ?j = Some p" by metis
    show ?thesis unfolding 2(1) Let_def option.case prod.case sum.case tp by (rule served_Some [OF e(1)])
  qed
  then show ?thesis using inv unfolding handle_tab_create_def Let_def
    by (auto simp: vec_get_def split: sum.split option.split if_splits)
qed

subsection \<open>Requests on panes\<close>

lemma pane_split_served:
  fixes a :: "('g, 'q, 'p, 'n, 'r) app"
  assumes inv: "app_inv a" and room: "room eff a"
  shows "served (handle_pane_split eff target wid d ratio dir foc passthrough env a)"
proof (cases "split_target a target wid")
  case None
  with inv show ?thesis by (simp add: handle_pane_split_def served_refuse)
next
  case (Some x)
  obtain i p where x: "x = (i, p)" by (cases x)
  from split_target_ok [OF inv Some [unfolded x]] have i: "i < length (workspaces a)" and p: "p \<in> set (ws_panes (workspaces a ! i))" by simp_all
  have r: "next_pane_id a + 1 \<noteq> 0" "eff_terminal_id eff \<notin> set (hm_keys (terminals a))" using room by (simp_all add: room_def)
  have get: "vec_get (workspaces a) i = Some (workspaces a ! i)" using i by (simp add: vec_get_def)
  let ?cwd = "or_else dir (Some (resolve_new_terminal_cwd eff (launch_cwd_for_pane_in_workspace eff a i p)))"
  let ?here = "case eff_current_dir eff of Some d \<Rightarrow> d | None \<Rightarrow> ''/''"
  show ?thesis
  proof (cases "normalize_launch_env env")
    case (Inl code)
    with Some x inv show ?thesis by (simp add: handle_pane_split_def served_refuse)
  next
    case (Inr e)
    show ?thesis
    proof (cases rule: ws_split_effect [where 'q = 'q, OF app_ws_inv [OF inv i] room_numbers [OF room i, THEN conjunct1] fresh_in_spaces [OF inv room i],
          of p "split_direction_to_layout d" ratio ?cwd foc None ?here "eff_spawned eff"])
      case 1
      with p show ?thesis by simp
    next
      case (2 err)
      from bumped_inv [OF inv r(1) i kept_refl [OF app_ws_inv [OF inv i]]] 2(1) Some x Inr get show ?thesis
        by (simp add: handle_pane_split_def Let_def served_refuse)
    next
      case (3 ws' j new)
      let ?ws = "set_passthrough (new_pane_id new) passthrough ws'"
      note pf = set_passthrough_facts [OF 3(2), of "new_pane_id new" passthrough]
      have "grown (next_pane_id a) (eff_terminal_id eff) (workspaces a ! i) ws'" using 3 room_numbers [OF room i] by (simp add: grown_def)
      from grown_kept [OF this pf(1)] pf have g: "grown (next_pane_id a) (eff_terminal_id eff) (workspaces a ! i) ?ws" by simp
      have j: "j < length (tabs ?ws)" using find_tab_less [OF 3(8)] 3(9) pf(4) by simp
      let ?b = "a\<lparr>workspaces := (workspaces a)[i := ?ws], next_pane_id := next_pane_id a + 1\<rparr>"
      let ?full = "?b\<lparr>terminals := hm_insert (eff_terminal_id eff) (new_terminal new) (terminals a)\<rparr>"
      let ?c = "if foc then (record_pane_focus_change (current_pane_focus_target a) i (new_pane_id new) (fst (switch_workspace_tab i j ?b)))\<lparr>mode := Terminal\<rparr> else ?b"
      let ?d = "remove_alias_shadowed_by_new_pane (new_pane_id new)
        (?c\<lparr>terminal_runtimes := hm_insert (terminal_id (new_terminal new)) (new_runtime new) (terminal_runtimes ?c)\<rparr>)"
      let ?e = "schedule_session_save (eff_now eff) (?d\<lparr>terminals := hm_insert (terminal_id (new_terminal new)) (new_terminal new) (terminals ?d)\<rparr>)"
      have full: "app_inv ?full" by (rule grown_inv [OF inv i g r]) simp_all
      have ij: "i < length (workspaces ?b)" "j < length (tabs (workspaces ?b ! i))" using i j by simp_all
      note sw = switch_workspace_tab_view [OF ij]
      have "app_inv ?e \<and> workspaces ?e = (if foc then (workspaces a)[i := switch_tab j ?ws] else (workspaces a)[i := ?ws])"
      proof (cases foc)
        case True
        let ?goal = "?full\<lparr>active := Some i, selected := i, workspaces := (workspaces ?full)[i := switch_tab j (workspaces ?full ! i)]\<rparr>"
        have "app_view ?e = app_view ?goal"
          using True i 3(6) app_view_fields [OF sw] by (simp add: app_view_def app_frame)
        moreover have "app_inv ?goal" using switched_inv [OF full, of i j] i by simp
        ultimately show ?thesis using app_inv_view [of ?e ?goal] app_view_fields(1) [of ?e ?goal] True i by simp
      next
        case False
        have "app_view ?e = app_view ?full" using False 3(6) by (simp add: app_view_def app_frame)
        with full False app_inv_view [of ?e ?full] app_view_fields(1) [of ?e ?full] show ?thesis by simp
      qed
      moreover have "next_pane_id a \<in> set (ws_panes ?ws)" using g by (simp add: grown_def)
      ultimately have e: "app_inv ?e" "i < length (workspaces ?e)" "new_pane_id new \<in> set (ws_panes (workspaces ?e ! i))"
        using i 3(5) by (simp_all add: switch_tab_facts)
      from pane_info_some [OF e] obtain pi where pi: "pane_info_of ?e i (new_pane_id new) = Some pi" .
      have "handle_pane_split eff target wid d ratio dir foc passthrough env a =
          Some (emit_layout_updated_event i j (emit_event (PaneCreated pi) ?e), Inr (ResultPaneInfo pi))"
        using Some x Inr get 3(1) pi by (simp add: handle_pane_split_def Let_def)
      moreover have "app_inv (emit_layout_updated_event i j (emit_event (PaneCreated pi) ?e))"
        using e(1) app_inv_view [of "emit_layout_updated_event i j (emit_event (PaneCreated pi) ?e)" ?e] by (simp only: app_view_simps)
      ultimately show ?thesis by (simp add: served_def)
    qed
  qed
qed

lemma kept_removed:
  assumes "ws_inv ws'" and "set (ws_panes ws') = set (ws_panes ws) - {pid}" and "set (ws_terms ws') \<subseteq> set (ws_terms ws)" and "ws_id ws' = ws_id ws"
    and "next_public_pane_number ws' = next_public_pane_number ws" and "public_pane_numbers ws' = hm_remove pid (public_pane_numbers ws)"
  shows "kept ws ws'"
  using assms by (auto simp: kept_def hm_remove_filter)

lemma pane_close_served:
  fixes a :: "('g, 'q, 'p, 'n, 'r) app"
  assumes inv: "app_inv a"
  shows "served (handle_pane_close eff target a)"
proof (cases "parse_pane_id a target")
  case None
  with inv show ?thesis by (simp add: handle_pane_close_def served_refuse)
next
  case (Some x)
  obtain i p where x: "x = (i, p)" by (cases x)
  from parse_pane_id_ok [OF inv Some [unfolded x]] have i: "i < length (workspaces a)" and p: "p \<in> set (ws_panes (workspaces a ! i))" by simp_all
  from parse_own_pane_id [OF inv i p] obtain s where s: "public_pane_id a i p = Some s" by blast
  have get: "vec_get (workspaces a) i = Some (workspaces a ! i)" using i by (simp add: vec_get_def)
  note ws = app_ws_inv [OF inv i]
  show ?thesis
  proof (cases rule: ws_remove_pane_effect [OF ws p])
    case 1
    let ?b = "remove_plugin_pane_records [p] (a\<lparr>workspaces := (workspaces a)[i := workspaces a ! i]\<rparr>)"
    have b: "app_inv ?b" "i < length (workspaces ?b)" using inv i by (simp_all add: app_frame)
    from close_selected_served [OF b] obtain c where c: "close_selected_workspace (?b\<lparr>selected := i\<rparr>) = Some c" "app_inv c" by metis
    show ?thesis unfolding handle_pane_close_def Some x option.case prod.case s get ws_close_pane_remove 1(1) Let_def c(1)
      using inv c(2) by (simp add: served_def app_frame)
  next
    case (2 ws')
    have k: "kept (workspaces a ! i) ws'" by (rule kept_removed [OF 2(2,3,4,5,7,8)])
    have b: "app_inv (remove_unattached_terminal_ids tids (remove_plugin_pane_records [p] (a\<lparr>workspaces := (workspaces a)[i := ws']\<rparr>)))" for tids
      by (rule remove_unattached_inv) (use app_inv_kept [OF inv i k] in \<open>simp add: app_frame\<close>)
    have "app_inv (case t of Some (w, j) \<Rightarrow> emit_layout_updated_event w j c | None \<Rightarrow> c) = app_inv c" for t and c :: "('g, 'q, 'p, 'n, 'r) app"
      by (simp add: app_frame split: option.split prod.split)
    with inv b show ?thesis unfolding handle_pane_close_def Some x option.case prod.case s get ws_close_pane_remove 2(1) Let_def
      by (simp add: served_def app_frame)
  qed
qed

lemma pane_zoom_served:
  fixes a :: "('g, 'q, 'p, 'n, 'r) app"
  assumes inv: "app_inv a"
  shows "served (handle_pane_zoom eff target command a)"
proof (cases "resolve_optional_pane a target")
  case None
  with inv show ?thesis by (simp add: handle_pane_zoom_def served_refuse)
next
  case (Some x)
  obtain i p where x: "x = (i, p)" by (cases x)
  from resolve_optional_pane_ok [OF inv Some [unfolded x]] have i: "i < length (workspaces a)" and p: "p \<in> set (ws_panes (workspaces a ! i))" by simp_all
  from parse_own_pane_id [OF inv i p] obtain s where s: "public_pane_id a i p = Some s" by blast
  from find_tab_of_member [OF app_ws_inv [OF inv i] p] obtain j where j: "find_tab_index_for_pane (workspaces a ! i) p = Some j" "j < length (tabs (workspaces a ! i))" by metis
  have get: "vec_get (workspaces a) i = Some (workspaces a ! i)" using i by (simp add: vec_get_def)
  obtain b changed where b: "focus_pane_in_workspace i p a = (b, changed)" by fastforce
  have bi: "app_inv b" "i < length (workspaces b)" "j < length (tabs (workspaces b ! i))"
    using focus_pane_in_workspace_inv [OF inv, of i p] i j(2) b by simp_all
  have getb: "vec_get (workspaces b) i = Some (workspaces b ! i)" "vec_get (tabs (workspaces b ! i)) j = Some (tabs (workspaces b ! i) ! j)"
    using bi by (simp_all add: vec_get_def)
  have "app_inv (update_workspace i (set_tab_zoomed j z) b)" for z
    using app_inv_kept [OF bi(1,2) kept_set_tab_zoomed [OF app_ws_inv [OF bi(1,2)] bi(3)]] bi(2) by (simp add: update_workspace_def)
  moreover have "i < length (workspaces (update_workspace i (set_tab_zoomed j z) b))" "j < length (tabs (workspaces (update_workspace i (set_tab_zoomed j z) b) ! i))" for z
    using bi by (simp_all add: update_workspace_def set_tab_zoomed_def)
  moreover note bi
  ultimately have "snd (apply_pane_zoom i p command a) \<noteq> None \<and> app_inv (fst (apply_pane_zoom i p command a))
      \<and> i < length (workspaces (fst (apply_pane_zoom i p command a))) \<and> j < length (tabs (workspaces (fst (apply_pane_zoom i p command a)) ! i))"
    using get j(1) b getb by (simp add: apply_pane_zoom_def Let_def app_frame)
  then obtain c outcome where c: "apply_pane_zoom i p command a = (c, Some outcome)" "app_inv c" "i < length (workspaces c)" "j < length (tabs (workspaces c ! i))"
    by (metis not_Some_eq prod.collapse)
  let ?d = "(if zoom_changed outcome \<or> zoom_focus_changed outcome then schedule_session_save (eff_now eff) c else c)\<lparr>mode := Terminal\<rparr>"
  have d: "app_inv ?d" "i < length (workspaces ?d)" "j < length (tabs (workspaces ?d ! i))" using c by (simp_all add: app_frame)
  from layout_some [OF d] obtain l where l: "layout_snapshot ?d i j = Some l" .
  have "handle_pane_zoom eff target command a =
      Some (if zoom_changed outcome \<or> zoom_focus_changed outcome then emit_event (LayoutUpdated l) ?d else ?d, Inr (ResultPaneZoom outcome l))"
    using Some x s get j(1) c(1) l by (simp add: handle_pane_zoom_def Let_def)
  with c(2) show ?thesis by (simp add: served_def app_frame)
qed

subsection \<open>A pane whose process ended\<close>

lemma active_after_death_facts:
  fixes aid sid :: "string option" and a :: "('g, 'q, 'p, 'n, 'r) app"
  defines "b \<equiv> active_after_death aid sid a"
  shows "workspaces b = workspaces a" and "terminals b = terminals a" and "public_pane_id_aliases b = public_pane_id_aliases a"
    and "next_workspace_id b = next_workspace_id a" and "next_pane_id b = next_pane_id a"
    and "active a \<noteq> None \<Longrightarrow> focus_ok (workspaces a) (active b) (selected b)"
    and "i < length (workspaces a) \<Longrightarrow> Option.bind aid (position_of_id (workspaces a)) = Some i \<Longrightarrow> active b = Some i"
proof -
  have pos: "i < length (workspaces a)" if "Option.bind x (position_of_id (workspaces a)) = Some i" for x i
    using that by (auto simp: bind_eq_Some_conv position_of_id_def dest: position_Some)
  show "workspaces b = workspaces a" "terminals b = terminals a" "public_pane_id_aliases b = public_pane_id_aliases a"
    "next_workspace_id b = next_workspace_id a" "next_pane_id b = next_pane_id a" by (simp_all add: b_def active_after_death_def Let_def)
  show "focus_ok (workspaces a) (active b) (selected b)" if "active a \<noteq> None"
  proof -
    from that obtain z where z: "(case Option.bind aid (position_of_id (workspaces a)) of Some i \<Rightarrow> Some i | None \<Rightarrow> active a) = Some z"
      by (cases "Option.bind aid (position_of_id (workspaces a))") auto
    show ?thesis by (auto simp: b_def active_after_death_def focus_ok_def Let_def z)
  qed
  show "i < length (workspaces a) \<Longrightarrow> Option.bind aid (position_of_id (workspaces a)) = Some i \<Longrightarrow> active b = Some i"
    by (auto simp: b_def active_after_death_def Let_def)
qed

lemma hm_retain_keys: "set (hm_keys (hm_retain P m)) \<subseteq> set (hm_keys m)"
  by (auto simp: hm_retain_def hm_keys_def)

lemma position_pane:
  assumes inv: "app_inv a"
  shows "position (\<lambda>ws. find_tab_index_for_pane ws p \<noteq> None) (workspaces a) = None \<longleftrightarrow> p \<notin> set (space_panes (workspaces a))"
    and "position (\<lambda>ws. find_tab_index_for_pane ws p \<noteq> None) (workspaces a) = Some i \<Longrightarrow>
      i < length (workspaces a) \<and> p \<in> set (ws_panes (workspaces a ! i))"
proof -
  have iff: "find_tab_index_for_pane ws p \<noteq> None \<longleftrightarrow> p \<in> set (ws_panes ws)" if "ws \<in> set (workspaces a)" for ws
    using app_spaces [OF inv] that find_tab_None [of "next_public_tab_number ws" ws p] by (auto simp: spaces_ok_def ws_inv_def ws_ok_def)
  show "position (\<lambda>ws. find_tab_index_for_pane ws p \<noteq> None) (workspaces a) = None \<longleftrightarrow> p \<notin> set (space_panes (workspaces a))"
    unfolding position_None mem_space_panes using iff by blast
  assume "position (\<lambda>ws. find_tab_index_for_pane ws p \<noteq> None) (workspaces a) = Some i"
  from position_Some [OF this] iff [of "workspaces a ! i"] show "i < length (workspaces a) \<and> p \<in> set (ws_panes (workspaces a ! i))" by simp
qed

lemma pane_died_effect:
  fixes a :: "('g, 'q, 'p, 'n, 'r) app"
  assumes inv: "app_inv a"
  obtains b where "handle_pane_died p a = Some b" and "app_inv b" and "set (space_panes (workspaces b)) = set (space_panes (workspaces a)) - {p}"
    and "\<And>k. active a = Some k \<Longrightarrow> set (ws_panes (workspaces a ! k)) \<noteq> {p} \<Longrightarrow>
        \<exists>j < length (workspaces b). active b = Some j \<and> ws_id (workspaces b ! j) = ws_id (workspaces a ! k)"
    and "p \<in> set (space_panes (workspaces a)) \<Longrightarrow> p \<notin> snd ` set (public_pane_id_aliases b)"
proof -
  let ?a = "remove_plugin_pane_records [p] (a\<lparr>pending_agent_notifications := hm_remove p (pending_agent_notifications a)\<rparr>)"
  have v: "app_view ?a = app_view a" by (simp add: app_frame) (simp add: app_view_def)
  note av = app_view_fields [OF v]
  show thesis
  proof (cases "position (\<lambda>ws. find_tab_index_for_pane ws p \<noteq> None) (workspaces a)")
    case None
    then have p: "p \<notin> set (space_panes (workspaces a))" using position_pane(1) [OF inv] by blast
    have "handle_pane_died p a = Some ?a" unfolding handle_pane_died_def Let_def av None by simp
    moreover have "app_inv ?a" using inv app_inv_view [OF v] by simp
    moreover have "\<exists>j < length (workspaces ?a). active ?a = Some j \<and> ws_id (workspaces ?a ! j) = ws_id (workspaces a ! k)" if "active a = Some k" for k
      using inv that unfolding av by (auto simp: app_inv_def core_def focus_ok_def split: if_splits)
    ultimately show thesis using p by (intro that [of ?a]) (simp_all add: av)
  next
    case (Some i)
    from position_pane(2) [OF inv Some] have i: "i < length (workspaces a)" and p: "p \<in> set (ws_panes (workspaces a ! i))" by simp_all
    let ?b = "?a\<lparr>pane_id_aliases := hm_retain (\<lambda>_ alias. alias \<noteq> p) (pane_id_aliases ?a),
                 public_pane_id_aliases := hm_retain (\<lambda>_ alias. alias \<noteq> p) (public_pane_id_aliases ?a)\<rparr>"
    have b: "workspaces ?b = workspaces a" "active ?b = active a" "selected ?b = selected a" "terminals ?b = terminals a"
      "next_workspace_id ?b = next_workspace_id a" "next_pane_id ?b = next_pane_id a"
      "public_pane_id_aliases ?b = hm_retain (\<lambda>_ alias. alias \<noteq> p) (public_pane_id_aliases a)" by (simp_all add: av)
    have "naming (workspaces a) (public_pane_id_aliases ?b) (next_workspace_id a) (next_pane_id a)"
      unfolding b(7) by (rule naming_subset [of "workspaces a" "public_pane_id_aliases a"]) (use inv hm_retain_keys [of "\<lambda>_ alias. alias \<noteq> p" "public_pane_id_aliases a"] in \<open>simp_all add: app_inv_def\<close>)
    with inv have binv: "app_inv ?b" by (simp add: app_inv_def b)
    have gone: "p \<notin> snd ` set (hm_retain (\<lambda>_ alias. alias \<noteq> p) m)" for m :: "(string, pane_id) hmap" by (auto simp: hm_retain_def)
    note ok = app_spaces [OF inv]
    from i obtain xs ws ys where d: "workspaces a = xs @ ws # ys" "length xs = i" "workspaces a ! i = ws" "\<And>y. (workspaces a)[i := y] = xs @ y # ys"
      by (rule update_decomp) blast
    have other: "\<forall>u \<in> set xs \<union> set ys. p \<notin> set (ws_panes u)" using spaces_ok_apart(1) [OF ok [unfolded d(1)]] p d(3) by blast
    have panes: "set (space_panes (workspaces a)) - {p} = set (space_panes (xs @ ys)) \<union> (set (ws_panes ws) - {p})"
      using other by (auto simp: d(1) space_panes_def)
    from inv d(1) obtain k where k: "active a = Some k" "k < length (workspaces a)" by (auto simp: app_inv_def core_def focus_ok_def)
    show thesis
    proof (cases rule: ws_remove_pane_effect [OF app_ws_inv [OF inv i] p])
      case 1
      let ?c = "mark_session_dirty (?b\<lparr>workspaces := (workspaces ?b)[i := workspaces a ! i]\<rparr>)"
      have w: "workspaces ?c = workspaces a" using i by (simp add: app_frame b(1))
      let ?aid = "map_option ws_id (Option.bind (active ?c) (vec_get (workspaces ?c)))"
      let ?sid = "map_option ws_id (vec_get (workspaces ?c) (selected ?c))"
      let ?d = "?c\<lparr>workspaces := vec_remove i (workspaces ?c)\<rparr>"
      let ?e = "remove_unattached_terminal_ids (terminal_ids_for_workspace ?a i) ?d"
      let ?f = "active_after_death ?aid ?sid ?e"
      have eq: "handle_pane_died p a = Some ?f" using 1(1) Some unfolding handle_pane_died_def Let_def av(1) by (simp add: av(1) del: not_None_eq)
      have "vec_remove i (xs @ ws # ys) = xs @ ys" using vec_remove_decomp [of xs ws ys] unfolding d(2) .
      then have "vec_remove i (workspaces ?c) = xs @ ys" unfolding w unfolding d(1) .
      then have dw: "workspaces ?d = xs @ ys" by simp
      have df: "active ?d = active a" "terminals ?d = terminals a" "public_pane_id_aliases ?d = public_pane_id_aliases ?b"
        "next_workspace_id ?d = next_workspace_id a" "next_pane_id ?d = next_pane_id a" by (simp_all add: app_frame b)
      note e = remove_unattached_facts [where tids = "terminal_ids_for_workspace ?a i" and a = ?d]
      note f = active_after_death_facts [where aid = ?aid and sid = ?sid and a = ?e]
      have "active ?e \<noteq> None" unfolding e(2) df k by simp
      from f(6) [OF this] have foc: "focus_ok (workspaces ?d) (active ?f) (selected ?f)" unfolding e(1) .
      have sp: "spaces_ok (workspaces ?d)" unfolding dw using ok d(1) spaces_ok_remove by metis
      have "core (workspaces ?d) (active ?f) (selected ?f) (terminals ?e)"
      proof (rule remove_unattached_core [OF sp _ _ foc])
        show "hm_ok (terminals ?d)" unfolding df using inv by (simp add: app_inv_def core_def)
        show "set (space_terms (workspaces ?d)) \<subseteq> set (hm_keys (terminals ?d))"
          unfolding df dw using inv by (auto simp: app_inv_def core_def d(1) space_terms_def)
      qed
      moreover have "naming (xs @ ys) (public_pane_id_aliases ?b) (next_workspace_id a) (next_pane_id a)"
        by (rule naming_subset [of "workspaces a" "public_pane_id_aliases ?b"]) (use binv in \<open>auto simp: app_inv_def b d(1)\<close>)
      ultimately have "app_inv ?f" unfolding app_inv_def f(1-5) e(1,4-6) df dw by simp
      moreover have "set (space_panes (workspaces ?f)) = set (space_panes (workspaces a)) - {p}"
        unfolding f(1) e(1) dw panes using 1(2) d(3) by simp
      moreover have "\<exists>j < length (workspaces ?f). active ?f = Some j \<and> ws_id (workspaces ?f ! j) = ws_id (workspaces a ! k')"
        if k': "active a = Some k'" "set (ws_panes (workspaces a ! k')) \<noteq> {p}" for k'
      proof -
        have "k' = k" using k' k by simp
        then have "k' \<noteq> i" "k' < length (workspaces a)" using k' 1(2) k(2) by auto
        then have "workspaces a ! k' \<in> set (xs @ ys)" using d(1,2) by (auto simp: nth_append nth_Cons split: nat.splits)
        then obtain j where j: "j < length (xs @ ys)" "(xs @ ys) ! j = workspaces a ! k'" by (metis in_set_conv_nth)
        have aid: "?aid = Some (ws_id (workspaces a ! k'))" using k' \<open>k' < _\<close> w by (simp add: app_frame b(2) vec_get_def)
        have pos: "position_of_id (workspaces ?e) (ws_id (workspaces a ! k')) = Some j"
          using named_position [of "xs @ ys" j] sp dw j unfolding e(1) by simp
        have "active ?f = Some j"
        proof (rule f(7))
          show "j < length (workspaces ?e)" unfolding e(1) dw by (fact j(1))
          show "Option.bind ?aid (position_of_id (workspaces ?e)) = Some j" unfolding aid bind.bind_lunit by (fact pos)
        qed
        with j show ?thesis unfolding f(1) e(1) dw by auto
      qed
      moreover have "p \<notin> snd ` set (public_pane_id_aliases ?f)" unfolding f(3) e(4) df(3) b(7) by (rule gone)
      ultimately show thesis using eq by (intro that [of ?f]) blast+
    next
      case (2 ws')
      let ?c = "mark_session_dirty (?b\<lparr>workspaces := (workspaces ?b)[i := ws']\<rparr>)"
      let ?f = "remove_unattached_terminal_ids (case terminal_id_for_pane ?a i p of Some tid \<Rightarrow> [tid] | None \<Rightarrow> []) ?c"
      have eq: "handle_pane_died p a = Some ?f" using 2(1) Some unfolding handle_pane_died_def Let_def av(1) by (simp add: av(1) del: not_None_eq)
      have k': "kept (workspaces ?b ! i) ws'" unfolding b(1) by (rule kept_removed [OF 2(2,3,4,5,7,8)])
      have "app_inv (?b\<lparr>workspaces := (workspaces ?b)[i := ws']\<rparr>)" by (rule app_inv_kept [OF binv _ k']) (simp add: b i)
      then have "app_inv ?c" by (simp add: app_frame)
      then have "app_inv ?f" by (rule remove_unattached_inv)
      note f = remove_unattached_facts [where tids = "case terminal_id_for_pane ?a i p of Some tid \<Rightarrow> [tid] | None \<Rightarrow> []" and a = ?c]
      have fw: "workspaces ?f = xs @ ws' # ys" unfolding f(1) using d(4) by (simp add: app_frame b(1))
      have "set (space_panes (workspaces ?f)) = set (space_panes (workspaces a)) - {p}"
        unfolding fw panes using 2(3) d(3) by (auto simp: space_panes_def)
      moreover have "\<exists>j < length (workspaces ?f). active ?f = Some j \<and> ws_id (workspaces ?f ! j) = ws_id (workspaces a ! k)"
      proof -
        have "map ws_id (xs @ ws' # ys) = map ws_id (workspaces a)" using 2(5) d by simp
        then have "ws_id ((xs @ ws' # ys) ! k) = ws_id (workspaces a ! k)" using k(2) d(1) by (metis length_map nth_map)
        moreover have "active ?f = Some k" unfolding f(2) using k(1) by (simp add: app_frame b(2))
        moreover have "k < length (workspaces ?f)" using k(2) fw d(1) by simp
        ultimately show ?thesis unfolding fw by blast
      qed
      moreover have "p \<notin> snd ` set (public_pane_id_aliases ?f)" unfolding f(4) using gone by (simp add: app_frame b(7))
      ultimately show thesis using eq \<open>app_inv ?f\<close> k(1) by (intro that [of ?f]) auto
    qed
  qed
qed

end
