(* ===== verification/App_Moves_Theorems.thy ===== *)
theory App_Moves_Theorems
  imports App_Pane_Theorems
begin

text \<open>
  Moving a pane: the request is answered without a panic, no pane is lost or duplicated, the recovery path is never
  taken, and every public pane id given out before, that of the moved pane included, still resolves to its pane.
\<close>

subsection \<open>The name of a pane\<close>

text \<open>A pane is named by the id of its workspace and its number there.\<close>

definition pane_named :: "'g workspace list \<Rightarrow> pane_id \<Rightarrow> string \<Rightarrow> usize \<Rightarrow> bool" where
  "pane_named wss q wid n \<longleftrightarrow> (\<exists>ws \<in> set wss. q \<in> set (ws_panes ws) \<and> ws_id ws = wid \<and> hm_get (public_pane_numbers ws) q = Some n)"

lemma pane_named_index:
  assumes "i < length (workspaces a)" and "q \<in> set (ws_panes (workspaces a ! i))" and "public_pane_id a i q = Some s"
  obtains wid n where "pane_named (workspaces a) q wid n" and "s = public_pane_id_for_number wid (unat n)"
  using assms that by (force simp: pane_named_def public_pane_id_def public_pane_number_def vec_get_def)

lemma named_pane_resolves:
  assumes inv: "app_inv a" and "pane_named (workspaces a) q wid n"
  shows "\<exists>i. parse_pane_id a (public_pane_id_for_number wid (unat n)) = Some (i, q)"
proof -
  from assms(2) obtain i where i: "i < length (workspaces a)" "q \<in> set (ws_panes (workspaces a ! i))" "ws_id (workspaces a ! i) = wid"
    "hm_get (public_pane_numbers (workspaces a ! i)) q = Some n" unfolding pane_named_def by (metis in_set_conv_nth)
  from parse_own_pane_id [OF inv i(1,2)] obtain s where s: "public_pane_id a i q = Some s" "parse_pane_id a s = Some (i, q)" by blast
  moreover have "public_pane_id a i q = Some (public_pane_id_for_number wid (unat n))"
    using i by (simp add: public_pane_id_def public_pane_number_def vec_get_def)
  ultimately show ?thesis by auto
qed

lemma alias_resolves:
  assumes inv: "app_inv a" and "hm_get (public_pane_id_aliases a) s = Some q" and "q \<in> set (space_panes (workspaces a))"
  shows "\<exists>i. parse_pane_id a s = Some (i, q)"
proof -
  have "find_pane_from n wss q \<noteq> None" if "\<exists>ws \<in> set wss. ws_pane_state ws q \<noteq> None" for n and wss :: "'g workspace list"
    using that by (induction n wss q rule: find_pane_from.induct) (auto split: option.split)
  moreover from assms(3) obtain ws where ws: "ws \<in> set (workspaces a)" "q \<in> set (ws_panes ws)" unfolding mem_space_panes by blast
  moreover have "ws_inv ws" using app_spaces [OF inv] ws(1) by (simp add: spaces_ok_def)
  then have "ws_pane_state ws q \<noteq> None" using ws(2) by (rule pane_state_of_member) simp
  ultimately have "find_pane a q \<noteq> None" unfolding find_pane_def by blast
  then show ?thesis using assms(2) by (auto simp: parse_pane_id_def)
qed

subsection \<open>Leaving the source\<close>

lemma naming_alias:
  assumes "naming wss al c n" and "s = public_pane_id_for_number (workspace_id_for k) m" "0 < k" "k < unat c" "0 < m" "m < 2 ^ 64"
    and "\<forall>ws \<in> set wss. retired ws s"
  shows "naming wss (hm_insert s p al) c n"
  using assms unfolding naming_def hm_keys_insert by blast

lemma encode_eq:
  assumes eq: "encode_public_number n = encode_public_number m" and n: "0 < n" "n < 2 ^ 64" and m: "0 < m" "m < 2 ^ 64"
  shows "n = m"
  using decode_encode [OF n] unfolding eq decode_encode [OF m] by simp

lemma retired_elsewhere:
  assumes "ws_id u = workspace_id_for k'" and "ws_id u \<noteq> workspace_id_for k"
  shows "retired u (public_pane_id_for_number (workspace_id_for k) m)"
  using assms public_pane_id_inj(1) [of k m k'] unfolding retired_def by metis

lemma retired_unregistered:
  assumes num: "numbers_ok N numbers" and get: "hm_get numbers p = Some n" and k: "ws_id ws = workspace_id_for k"
    and ws: "public_pane_numbers ws = hm_remove p numbers" "next_public_pane_number ws = N"
  shows "retired ws (public_pane_id_for_number (workspace_id_for k) (unat n))"
proof -
  have n: "0 < n" "n < N" using num hm_get_mem [OF get] by (auto simp: numbers_ok_def)
  have "n \<notin> snd ` set (hm_remove p numbers)"
  proof
    assume "n \<in> snd ` set (hm_remove p numbers)"
    then obtain q where q: "(q, n) \<in> set (hm_remove p numbers)" by auto
    have "hm_ok (hm_remove p numbers)" using num by (simp add: numbers_ok_def hm.ok_del)
    from hm_mem_get [OF this q] have "q \<noteq> p" "hm_get numbers q = Some n" by (simp_all add: hm.get_del split: if_splits)
    with numbers_ok_inj [OF num get] show False by blast
  qed
  then have "unat n \<notin> unat ` snd ` set (public_pane_numbers ws)" unfolding ws(1) by (auto dest: unsigned_word_eqI)
  moreover have "unat n < unat N" using n(2) by (simp add: word_less_nat_alt)
  moreover have "m = unat n" if "public_pane_id_for_number (workspace_id_for k) (unat n) = public_pane_id_for_number (ws_id ws) m" "0 < m" "m < 2 ^ 64" for m
    using encode_eq [of "unat n" m] public_pane_id_inj(2) [of k "unat n" k m] that n(1) unat_lt_pow [of n] by (simp add: k unat_gt_0 word_neq_0_conv)
  ultimately show ?thesis unfolding retired_def ws(2) by metis
qed

lemma index_after_removal_less: "i < length wss \<Longrightarrow> r < length wss \<Longrightarrow> Suc 0 < length wss \<Longrightarrow> index_after_removal r (length wss - 1) i < length wss - 1"
  by (auto simp: index_after_removal_def)

text \<open>What is left when a pane was taken out of its workspace and is not there any more.\<close>

lemma leave_source_effect:
  fixes a :: "('g, 'q, 'p, 'n, 'r) app"
  assumes inv: "app_inv a" and i: "i < length (workspaces a)" and p: "p \<in> set (ws_panes (workspaces a ! i))" and s: "public_pane_id a i p = Some s"
    and room: "room eff a" and take: "ws_take_pane_for_move p (workspaces a ! i) = Some (ws', Some taken)"
  defines "b \<equiv> leave_source i p s True (workspace_empty taken) (a\<lparr>workspaces := (workspaces a)[i := ws']\<rparr>)"
  shows "app_inv b" and "set (space_panes (workspaces b)) = set (space_panes (workspaces a)) - {p}"
    and "attached_terminal_id (moved_pane_state (taken_moved taken)) \<notin> set (space_terms (workspaces b))"
    and "terminals b = terminals a" and "next_pane_id b = next_pane_id a" and "next_workspace_id b = next_workspace_id a"
    and "public_pane_id_aliases b = hm_insert s p (public_pane_id_aliases a)"
    and "\<And>u. u \<in> set (workspaces a) \<Longrightarrow> ws_id u \<noteq> ws_id (workspaces a ! i) \<Longrightarrow> u \<in> set (workspaces b)"
    and "\<And>q wid n. q \<noteq> p \<Longrightarrow> pane_named (workspaces a) q wid n \<Longrightarrow> pane_named (workspaces b) q wid n"
    and "room eff b"
proof -
  note ws = app_ws_inv [OF inv i]
  obtain w t where T: "ws_take_pane_for_move p (workspaces a ! i) = Some (w, Some t)" "ws_ok (set (ws_panes (workspaces a ! i))) w"
    "set (ws_panes w) = set (ws_panes (workspaces a ! i)) - {p}" "set (ws_terms w) \<subseteq> set (ws_terms (workspaces a ! i))"
    "attached_terminal_id (moved_pane_state (taken_moved t)) \<in> set (ws_terms (workspaces a ! i)) - set (ws_terms w)"
    "workspace_empty t \<longleftrightarrow> tabs w = []" "ws_id w = ws_id (workspaces a ! i)"
    "next_public_pane_number w = next_public_pane_number (workspaces a ! i)" "next_public_tab_number w = next_public_tab_number (workspaces a ! i)"
    "public_pane_numbers w = public_pane_numbers (workspaces a ! i)" by (rule ws_take_effect [OF ws p]) blast
  with take have [simp]: "w = ws'" "t = taken" by simp_all
  note T = T [simplified]
  from i obtain xs u ys where d: "workspaces a = xs @ u # ys" "length xs = i" "workspaces a ! i = u" "\<And>y. (workspaces a)[i := y] = xs @ y # ys"
    by (rule update_decomp) blast
  let ?u = "unregister_moved_pane p ws'"
  have u: "ws_panes ?u = ws_panes ws'" "ws_terms ?u = ws_terms ws'" "tabs ?u = tabs ws'" "ws_id ?u = ws_id u"
    "public_pane_numbers ?u = hm_remove p (public_pane_numbers u)" "next_public_pane_number ?u = next_public_pane_number u"
    "next_public_tab_number ?u = next_public_tab_number u"
    using T d(3) by (simp_all add: unregister_moved_pane_def unregister_pane_def ws_panes_def ws_terms_def)
  have ok: "ws_ok (set (ws_panes ?u)) ?u" using T(2,3) d(3) numbers_ok_remove
    by (simp add: ws_ok_def u(1)) (auto simp: unregister_moved_pane_def unregister_pane_def hm_keys_remove)
  let ?wss = "if tabs ws' = [] then xs @ ys else xs @ ?u # ys"
  have upd: "update_workspace i (unregister_moved_pane p) (a\<lparr>workspaces := (workspaces a)[i := ws']\<rparr>) = a\<lparr>workspaces := xs @ ?u # ys\<rparr>"
    using i by (simp add: update_workspace_def d(1)) (simp flip: d(2))
  have rm: "vec_remove i (xs @ ?u # ys) = xs @ ys" using vec_remove_decomp [of xs ?u ys] by (simp add: d(2))
  have bw: "workspaces b = ?wss" unfolding b_def leave_source_def if_True Let_def upd T(6) by (simp add: close_emptied_source_def Let_def rm)
  show ba: "public_pane_id_aliases b = hm_insert s p (public_pane_id_aliases a)" unfolding b_def leave_source_def if_True Let_def upd
    by (simp add: close_emptied_source_def Let_def)
  show bt: "terminals b = terminals a" "next_pane_id b = next_pane_id a" "next_workspace_id b = next_workspace_id a"
    unfolding b_def leave_source_def if_True Let_def upd by (simp_all add: close_emptied_source_def Let_def)
  show "room eff b" using room u(6,7) unfolding room_def bt bw by (auto simp: d(1))
  show "\<And>v. v \<in> set (workspaces a) \<Longrightarrow> ws_id v \<noteq> ws_id (workspaces a ! i) \<Longrightarrow> v \<in> set (workspaces b)" unfolding bw d(3) by (auto simp: d(1))
  note sp = app_spaces [OF inv, unfolded d(1)]
  have other: "\<forall>v \<in> set xs \<union> set ys. p \<notin> set (ws_panes v)" using spaces_ok_apart(1) [OF sp] p d(3) by blast
  have none: "set (ws_panes ws') = {}" if "tabs ws' = []" using that by (simp add: ws_panes_def)
  show "set (space_panes (workspaces b)) = set (space_panes (workspaces a)) - {p}"
    using other T(3) d(3) none by (auto simp: bw d(1) space_panes_def u(1))
  have "\<forall>v \<in> set xs \<union> set ys. attached_terminal_id (moved_pane_state (taken_moved taken)) \<notin> set (ws_terms v)"
    using spaces_ok_apart(2) [OF sp] T(5) d(3) by blast
  then show "attached_terminal_id (moved_pane_state (taken_moved taken)) \<notin> set (space_terms (workspaces b))"
    using T(5) by (auto simp: bw space_terms_def u(2))
  show "pane_named (workspaces b) q wid n" if "q \<noteq> p" "pane_named (workspaces a) q wid n" for q wid n
    using that T(3) d(3) none unfolding pane_named_def bw by (auto simp: d(1) u hm.get_del)
  have k: "\<exists>k. ws_id v = workspace_id_for k \<and> 0 < k \<and> k < unat (next_workspace_id a)" if "v \<in> set (workspaces a)" for v
    using inv that unfolding app_inv_def naming_def named_below_def by blast
  from k [of u] obtain k where k': "ws_id u = workspace_id_for k" "0 < k" "k < unat (next_workspace_id a)" by (auto simp: d(1))
  from s obtain n where n: "hm_get (public_pane_numbers u) p = Some n" "s = public_pane_id_for_number (workspace_id_for k) (unat n)"
    using i d(3) k'(1) by (auto simp: public_pane_id_def public_pane_number_def vec_get_def)
  have num: "numbers_ok (next_public_pane_number u) (public_pane_numbers u)" using ws d(3) by (simp add: ws_inv_def ws_ok_def)
  then have pos: "0 < unat n" using hm_get_mem [OF n(1)] by (auto simp: numbers_ok_def unat_gt_0 word_neq_0_conv)
  have "retired ?u s" unfolding n(2) by (rule retired_unregistered [OF num n(1)]) (use u k' in simp_all)
  moreover have "retired v s" if "v \<in> set xs \<union> set ys" for v
    using k [of v] spaces_ok_apart(3) [OF sp] that k'(1) unfolding n(2) by (auto intro!: retired_elsewhere simp: d(1))
  ultimately have ret: "\<forall>v \<in> set ?wss. retired v s" by auto
  show "app_inv b"
  proof (cases "tabs ws' = []")
    case False
    have "ws_inv ?u" using False ok by (simp add: ws_inv_def u(3))
    then have "kept (workspaces a ! i) ?u" by (rule kept_removed) (use T d(3) u in simp_all)
    from app_inv_kept [OF inv i this] have c: "app_inv (a\<lparr>workspaces := xs @ ?u # ys\<rparr>)" by (simp add: d(4))
    then have "naming (xs @ ?u # ys) (public_pane_id_aliases a) (next_workspace_id a) (next_pane_id a)" by (simp add: app_inv_def)
    from naming_alias [OF this n(2) k'(2,3) pos] ret False unat_lt_pow [of n] c show ?thesis
      unfolding b_def leave_source_def if_True Let_def upd T(6) by (simp add: app_inv_def)
  next
    case True
    have "naming (xs @ ys) (public_pane_id_aliases a) (next_workspace_id a) (next_pane_id a)"
      by (rule naming_subset [of "workspaces a"]) (use inv in \<open>auto simp: app_inv_def d(1)\<close>)
    from naming_alias [OF this n(2) k'(2,3) pos] ret True unat_lt_pow [of n]
    have nam: "naming (workspaces b) (public_pane_id_aliases b) (next_workspace_id b) (next_pane_id b)" unfolding bw ba bt by simp
    have foc: "focus_ok (workspaces a) (active a) (selected a)" using inv by (simp add: app_inv_def core_def)
    have "focus_ok (workspaces b) (active b) (selected b)"
    proof (cases "xs @ ys = []")
      case True
      with rm have "vec_remove i [?u] = []" by simp
      with True \<open>tabs ws' = []\<close> have "active b = None" "selected b = 0"
        unfolding b_def leave_source_def if_True Let_def upd T(6) by (simp_all add: close_emptied_source_def Let_def)
      with True \<open>tabs ws' = []\<close> show ?thesis unfolding bw by (simp add: focus_ok_def)
    next
      case False
      then have len: "Suc 0 < length (workspaces a)" "length (xs @ ys) = length (workspaces a) - 1" by (auto simp: d(1) Suc_lessI)
      from foc i obtain z where z: "active a = Some z" "z < length (workspaces a)" "selected a < length (workspaces a)" by (auto simp: focus_ok_def split: if_splits)
      have "active b = Some (index_after_removal i (length (xs @ ys)) z)" "selected b = index_after_removal i (length (xs @ ys)) (selected a)"
        unfolding b_def leave_source_def if_True Let_def upd T(6) using \<open>tabs ws' = []\<close> False z(1) by (auto simp: close_emptied_source_def Let_def rm)
      moreover have "index_after_removal i (length (xs @ ys)) y < length (xs @ ys)" if "y < length (workspaces a)" for y
        unfolding len(2) by (rule index_after_removal_less [OF that i len(1)])
      moreover have "workspaces b = xs @ ys" unfolding bw using True by simp
      ultimately show ?thesis using z(2,3) False by (simp add: focus_ok_def)
    qed
    moreover have "spaces_ok (workspaces b)" unfolding bw using spaces_ok_remove [OF sp] True by simp
    moreover have "set (space_terms (workspaces b)) \<subseteq> set (hm_keys (terminals b))" "hm_ok (terminals b)"
      unfolding bt bw using inv True by (auto simp: app_inv_def core_def d(1) space_terms_def)
    ultimately show ?thesis using nam by (simp add: app_inv_def core_def)
  qed
qed

subsection \<open>The moved pane in its place\<close>

definition landed :: "pane_id \<Rightarrow> ('g, 'q, 'p, 'n, 'r) app \<Rightarrow> nat \<Rightarrow> nat \<Rightarrow> bool" where
  "landed p c w t \<longleftrightarrow>
     w < length (workspaces c) \<and> t < length (tabs (workspaces c ! w)) \<and> p \<in> set (ws_panes (workspaces c ! w))
     \<and> app_inv (c\<lparr>active := Some w, selected := w\<rparr>) \<and> (active c \<noteq> None \<longrightarrow> app_inv c)"

lemma landed_inv: "app_inv c \<Longrightarrow> w < length (workspaces c) \<Longrightarrow> t < length (tabs (workspaces c ! w)) \<Longrightarrow>
    p \<in> set (ws_panes (workspaces c ! w)) \<Longrightarrow> landed p c w t"
  by (simp add: landed_def app_inv_focus)

lemma space_panes_update: "w < length wss \<Longrightarrow> ws_panes ws' = ws_panes (wss ! w) \<Longrightarrow> space_panes (wss[w := ws']) = space_panes wss"
  by (simp add: space_panes_def map_update_same)

lemma pane_named_update:
  assumes "w < length wss" and "set (ws_panes (wss ! w)) \<subseteq> set (ws_panes ws')" and "ws_id ws' = ws_id (wss ! w)" and "public_pane_numbers ws' = public_pane_numbers (wss ! w)"
    and "pane_named wss q wid n"
  shows "pane_named (wss[w := ws']) q wid n"
proof -
  from assms(5) obtain j where j: "j < length wss" "q \<in> set (ws_panes (wss ! j))" "ws_id (wss ! j) = wid" "hm_get (public_pane_numbers (wss ! j)) q = Some n"
    unfolding pane_named_def by (metis in_set_conv_nth)
  have "wss[w := ws'] ! j \<in> set (wss[w := ws'])" using j(1) by simp
  moreover have "q \<in> set (ws_panes (wss[w := ws'] ! j))" "ws_id (wss[w := ws'] ! j) = wid" "hm_get (public_pane_numbers (wss[w := ws'] ! j)) q = Some n"
    using j assms(1-4) by (auto simp: nth_list_update)
  ultimately show ?thesis unfolding pane_named_def by blast
qed

lemma finish_pane_move_effect:
  fixes c :: "('g, 'q, 'p, 'n, 'r) app"
  assumes l: "landed p c w t"
  obtains d r where "finish_pane_move eff names foc pf cw ct p (w, t, cwk, ctk) c = Some (d, Inr (ResultPaneMove r))" and "app_inv d"
    and "space_panes (workspaces d) = space_panes (workspaces c)" and "public_pane_id_aliases d = public_pane_id_aliases c"
    and "\<And>q wid n. pane_named (workspaces c) q wid n \<Longrightarrow> pane_named (workspaces d) q wid n"
proof -
  from l have w: "w < length (workspaces c)" and t: "t < length (tabs (workspaces c ! w))" and p: "p \<in> set (ws_panes (workspaces c ! w))"
    and inv: "app_inv (c\<lparr>active := Some w, selected := w\<rparr>)" "active c \<noteq> None \<Longrightarrow> app_inv c" by (auto simp: landed_def)
  let ?s = "switch_tab t (workspaces c ! w)"
  let ?e = "if foc \<or> active c = None then (record_pane_focus_change pf w p (fst (switch_workspace_tab w t c)))\<lparr>mode := Terminal\<rparr> else c"
  have s: "ws_panes ?s = ws_panes (workspaces c ! w)" "ws_id ?s = ws_id (workspaces c ! w)" "public_pane_numbers ?s = public_pane_numbers (workspaces c ! w)"
    "length (tabs ?s) = length (tabs (workspaces c ! w))" by (simp_all add: switch_tab_facts) (simp add: switch_tab_def)
  have e: "app_inv ?e \<and> length (workspaces ?e) = length (workspaces c) \<and> length (tabs (workspaces ?e ! w)) = length (tabs (workspaces c ! w))
    \<and> ws_panes (workspaces ?e ! w) = ws_panes (workspaces c ! w) \<and> space_panes (workspaces ?e) = space_panes (workspaces c)
    \<and> public_pane_id_aliases ?e = public_pane_id_aliases c \<and> (\<forall>q wid n. pane_named (workspaces c) q wid n \<longrightarrow> pane_named (workspaces ?e) q wid n)"
  proof (cases "foc \<or> active c = None")
    case True
    let ?g = "c\<lparr>active := Some w, selected := w, workspaces := (workspaces c)[w := ?s]\<rparr>"
    have v: "app_view ?e = app_view ?g" using True switch_workspace_tab_view [OF w t] by (simp add: app_view_def app_frame)
    have "app_inv ?e" using app_inv_view [OF v] switched_inv' [OF inv(1), of t] w by simp
    then show ?thesis unfolding app_view_fields [OF v] using w s pane_named_update [OF w equalityD2 [OF arg_cong [OF s(1), of set]] s(2,3)] by (simp add: space_panes_update)
  next
    case False
    then show ?thesis using inv(2) by (simp only: if_False) simp
  qed
  let ?f = "schedule_session_save (eff_now eff) (mark_session_dirty (remove_alias_shadowed_by_new_pane p ?e))"
  have v: "app_view ?f = app_view ?e" by (simp only: app_view_simps)
  have f: "app_inv ?f" "w < length (workspaces ?f)" "t < length (tabs (workspaces ?f ! w))" "p \<in> set (ws_panes (workspaces ?f ! w))"
    unfolding app_inv_view [OF v] app_view_fields(1) [OF v] using e w t p by simp_all
  from pane_info_some [OF f(1,2,4)] obtain pi where pi: "pane_info_of ?f w p = Some pi" .
  from layout_some [OF f(1-3)] obtain tl where tl: "layout_snapshot ?f w t = Some tl" .
  have "w < length (workspaces ?e)" using e w by simp
  from workspace_info_some [OF this] obtain wi where wi: "(if cwk then map_option Some (workspace_info_of ?e w) else Some None) = Some wi" by (cases cwk) auto
  have view: "app_view (emit_event x (emit_some g3 y3 (emit_event x2 (emit_some g4 y4 (emit_some g5 y5 (emit_some g6 y6 (emit_some g7 y7 ?f))))))) = app_view ?e"
    for x x2 g3 y3 g4 y4 g5 y5 g6 y6 g7 y7 by (simp only: app_view_simps)
  have "\<exists>d r. finish_pane_move eff names foc pf cw ct p (w, t, cwk, ctk) c = Some (d, Inr (ResultPaneMove r)) \<and> app_view d = app_view ?e"
    unfolding finish_pane_move_def prod.case Let_def wi option.case pi tl by (intro exI conjI, rule refl, rule view)
  then obtain d r where dr: "finish_pane_move eff names foc pf cw ct p (w, t, cwk, ctk) c = Some (d, Inr (ResultPaneMove r))" "app_view d = app_view ?e" by blast
  from dr e show thesis by (intro that [of d r]) (simp_all add: app_inv_view [OF dr(2)] app_view_fields [OF dr(2)])
qed

subsection \<open>Placing a pane in another workspace\<close>

lemma moved_in_inv:
  fixes b :: "('g, 'q, 'p, 'n, 'r) app"
  assumes inv: "app_inv b" and i: "i < length (workspaces b)" and g: "grown p tid (workspaces b ! i) ws'"
    and fresh: "p \<notin> set (space_panes (workspaces b))" "tid \<notin> set (space_terms (workspaces b))" and p: "p < next_pane_id b" and t: "tid \<in> set (hm_keys (terminals b))"
  shows "app_inv (b\<lparr>workspaces := (workspaces b)[i := ws']\<rparr>)"
proof -
  from inv have c: "core (workspaces b) (active b) (selected b) (terminals b)"
    and nam: "naming (workspaces b) (public_pane_id_aliases b) (next_workspace_id b) (next_pane_id b)" by (simp_all add: app_inv_def)
  have "core ((workspaces b)[i := ws']) (active b) (selected b) (terminals b)"
    by (rule core_grown [OF c i g fresh]) (use c t in \<open>auto simp: core_def\<close>)
  moreover have "workspaces b ! i \<in> set (workspaces b)" using i by simp
  with nam have "named_below (next_workspace_id b) (next_pane_id b) (workspaces b ! i)" unfolding naming_def by blast
  with g p have "named_below (next_workspace_id b) (next_pane_id b) ws'" unfolding named_below_def grown_def by auto
  from naming_update [OF nam i this grown_retired [OF g]] have
    "naming ((workspaces b)[i := ws']) (public_pane_id_aliases b) (next_workspace_id b) (next_pane_id b)" .
  ultimately show ?thesis by (simp add: app_inv_def)
qed

lemma register_if_new_known: "p \<in> set (hm_keys (public_pane_numbers ws)) \<Longrightarrow> register_if_new p ws = ws"
  using hm_get_keys [of "public_pane_numbers ws" p] by (auto simp: register_if_new_def hm_contains_def)

lemma register_if_new_fresh:
  assumes "p \<notin> set (hm_keys (public_pane_numbers ws))" and "next_public_pane_number ws + 1 \<noteq> 0"
  shows "register_if_new p ws = ws\<lparr>public_pane_numbers := hm_insert p (next_public_pane_number ws) (public_pane_numbers ws),
    next_public_pane_number := next_public_pane_number ws + 1\<rparr>"
  using assms word_succ_le [OF assms(2)] hm_get_keys [of "public_pane_numbers ws" p]
  by (auto simp: register_if_new_def register_new_pane_with_number_def hm_contains_def max_def)

lemma insert_moved_grown:
  assumes inv: "ws_inv ws" and room: "next_public_pane_number ws + 1 \<noteq> 0" and j: "j < length (tabs ws)" and target: "target \<in> tab_ids (tabs ws ! j)"
    and new: "moved_pane_id moved \<notin> set (ws_panes ws)" "attached_terminal_id (moved_pane_state moved) \<notin> set (ws_terms ws)"
  obtains ws' where "insert_moved_pane_into_tab j target moved d r f ws = (ws', Inr (moved_pane_id moved))"
    and "grown (moved_pane_id moved) (attached_terminal_id (moved_pane_state moved)) ws ws'" and "j < length (tabs ws')"
proof -
  from j obtain xs t ys where d: "tabs ws = xs @ t # ys" "length xs = j" "tabs ws ! j = t" by (rule vec_decomp)
  have ok: "ws_ok (set (ws_panes ws)) ws" using inv by (simp add: ws_inv_def)
  show thesis
  proof (cases rule: insert_moved_effect [OF ok room d(1) new, of target d r f])
    case 1
    with target d(3) show thesis by blast
  next
    case (2 ws')
    have "moved_pane_id moved \<notin> set (hm_keys (public_pane_numbers (ws\<lparr>tabs := tabs ws'\<rparr>)))" using ok new(1) by (simp add: ws_ok_def)
    note reg = register_if_new_fresh [OF this]
    have "public_pane_numbers ws' = hm_insert (moved_pane_id moved) (next_public_pane_number ws) (public_pane_numbers ws)"
      "next_public_pane_number ws' = next_public_pane_number ws + 1"
      using arg_cong [OF 2(8), of public_pane_numbers] arg_cong [OF 2(8), of next_public_pane_number] reg room by simp_all
    with 2 room have "grown (moved_pane_id moved) (attached_terminal_id (moved_pane_state moved)) ws ws'" by (simp add: grown_def ws_inv_def)
    then show thesis using 2(1,9) d(2) find_tab_less by (intro that [of ws']) auto
  qed
qed

lemma create_tab_grown:
  assumes inv: "ws_inv ws" and room: "next_public_pane_number ws + 1 \<noteq> 0" "next_public_tab_number ws + 1 \<noteq> 0"
    and new: "moved_pane_id moved \<notin> set (ws_panes ws)" "attached_terminal_id (moved_pane_state moved) \<notin> set (ws_terms ws)"
  obtains ws' where "create_tab_from_existing_pane moved label ws = (ws', length (tabs ws))"
    and "grown (moved_pane_id moved) (attached_terminal_id (moved_pane_state moved)) ws ws'" and "length (tabs ws) < length (tabs ws')"
proof -
  have ok: "ws_ok (set (ws_panes ws)) ws" using inv by (simp add: ws_inv_def)
  show thesis
  proof (rule create_tab_from_existing_effect [OF ok room new])
    fix ws'
    assume c: "create_tab_from_existing_pane moved label ws = (ws', length (tabs ws))" "ws_ok (insert (moved_pane_id moved) (set (ws_panes ws))) ws'"
      "set (ws_panes ws') = insert (moved_pane_id moved) (set (ws_panes ws))" "set (ws_terms ws') = insert (attached_terminal_id (moved_pane_state moved)) (set (ws_terms ws))"
      "ws_id ws' = ws_id ws" "tabs ws' = tabs ws @ [tab_from_existing_pane (next_public_tab_number ws) label moved]"
      "ws' = register_if_new (moved_pane_id moved) (ws\<lparr>tabs := tabs ws', next_public_tab_number := next_public_tab_number ws + 1\<rparr>)"
    have "moved_pane_id moved \<notin> set (hm_keys (public_pane_numbers (ws\<lparr>tabs := tabs ws', next_public_tab_number := next_public_tab_number ws + 1\<rparr>)))"
      using ok new(1) by (simp add: ws_ok_def)
    note reg = register_if_new_fresh [OF this]
    have "public_pane_numbers ws' = hm_insert (moved_pane_id moved) (next_public_pane_number ws) (public_pane_numbers ws)"
      "next_public_pane_number ws' = next_public_pane_number ws + 1"
      using arg_cong [OF c(7), of public_pane_numbers] arg_cong [OF c(7), of next_public_pane_number] reg room by simp_all
    with c room have "grown (moved_pane_id moved) (attached_terminal_id (moved_pane_state moved)) ws ws'" by (simp add: grown_def ws_inv_def)
    then show thesis using c(1,6) by (intro that [of ws']) auto
  qed
qed

lemma grown_named:
  assumes i: "i < length wss" and g: "grown p tid (wss ! i) ws'" and q: "pane_named wss q wid n" "q \<noteq> p"
  shows "pane_named (wss[i := ws']) q wid n"
proof -
  from q(1) obtain j where j: "j < length wss" "q \<in> set (ws_panes (wss ! j))" "ws_id (wss ! j) = wid" "hm_get (public_pane_numbers (wss ! j)) q = Some n"
    unfolding pane_named_def by (metis in_set_conv_nth)
  have "wss[i := ws'] ! j \<in> set (wss[i := ws'])" using j(1) by simp
  moreover have "q \<in> set (ws_panes (wss[i := ws'] ! j))" "ws_id (wss[i := ws'] ! j) = wid" "hm_get (public_pane_numbers (wss[i := ws'] ! j)) q = Some n"
    using j i g q(2) by (simp_all add: nth_list_update grown_def hm.get_put)
  ultimately show ?thesis unfolding pane_named_def by blast
qed

lemma space_panes_grown: "i < length wss \<Longrightarrow> grown p tid (wss ! i) ws' \<Longrightarrow> set (space_panes (wss[i := ws'])) = insert p (set (space_panes wss))"
  by (rule update_decomp, assumption) (auto simp: space_panes_def grown_def)

definition reachable_destination :: "'g workspace list \<Rightarrow> resolved_destination \<Rightarrow> bool" where
  "reachable_destination wss resolved \<longleftrightarrow>
     (case resolved of
        ExistingTab tid target _ _ _ \<Rightarrow>
          \<exists>u \<in> set wss. \<exists>t \<in> set (tabs u). tid = public_tab_id_for_number (ws_id u) (unat (tab_number t)) \<and> target \<in> tab_ids t
      | ResolvedNewTab wid _ \<Rightarrow> wid \<in> ws_id ` set wss
      | ResolvedNewWorkspace _ _ \<Rightarrow> True)"

lemma place_elsewhere_effect:
  fixes b :: "('g, 'q, 'p, 'n, 'r) app"
  assumes inv: "app_inv b" and room: "room eff b" and dest: "reachable_destination (workspaces b) resolved"
    and fresh: "moved_pane_id moved \<notin> set (space_panes (workspaces b))"
      "attached_terminal_id (moved_pane_state moved) \<notin> set (space_terms (workspaces b))"
    and p: "moved_pane_id moved < next_pane_id b" and t: "attached_terminal_id (moved_pane_state moved) \<in> set (hm_keys (terminals b))"
  obtains c w j cw ct where "place_moved_pane eff resolved foc st moved b = Some (c, Inr (w, j, cw, ct))" and "landed (moved_pane_id moved) c w j"
    and "set (space_panes (workspaces c)) = insert (moved_pane_id moved) (set (space_panes (workspaces b)))"
    and "public_pane_id_aliases c = public_pane_id_aliases b"
    and "\<And>q wid n. pane_named (workspaces b) q wid n \<Longrightarrow> pane_named (workspaces c) q wid n"
proof -
  let ?p = "moved_pane_id moved" and ?t = "attached_terminal_id (moved_pane_state moved)"
  have ne: "q \<noteq> ?p" if "pane_named (workspaces b) q wid n" for q wid n using that fresh(1) by (auto simp: pane_named_def mem_space_panes)
  have new: "?p \<notin> set (ws_panes (workspaces b ! i))" "?t \<notin> set (ws_terms (workspaces b ! i))" if "i < length (workspaces b)" for i
    using fresh nth_mem [OF that] unfolding mem_space_panes mem_space_terms by blast+
  note found = that
  have grow: thesis if i: "i < length (workspaces b)" and g: "grown ?p ?t (workspaces b ! i) ws'" and j: "j < length (tabs ws')"
    and pl: "place_moved_pane eff resolved foc st moved b = Some (b\<lparr>workspaces := (workspaces b)[i := ws']\<rparr>, Inr (i, j, cw, ct))" for i ws' j cw ct
  proof (rule found [OF pl])
    have "app_inv (b\<lparr>workspaces := (workspaces b)[i := ws']\<rparr>)" by (rule moved_in_inv [OF inv i g fresh p t])
    then show "landed ?p (b\<lparr>workspaces := (workspaces b)[i := ws']\<rparr>) i j" using i j g by (intro landed_inv) (simp_all add: grown_def)
  qed (use space_panes_grown [OF i g] grown_named [OF i g] ne in auto)
  have sp: "spaces_ok (workspaces b)" by (rule app_spaces [OF inv])
  have dis: "distinct (map ws_id (workspaces b))" using sp by (simp add: spaces_ok_def)
  show thesis
  proof (cases resolved)
    case (ExistingTab tid target split ratio cross)
    with dest obtain i j where i: "i < length (workspaces b)" and j: "j < length (tabs (workspaces b ! i))"
      and tid: "tid = public_tab_id_for_number (ws_id (workspaces b ! i)) (unat (tab_number (tabs (workspaces b ! i) ! j)))"
      and target: "target \<in> tab_ids (tabs (workspaces b ! i) ! j)" unfolding reachable_destination_def by (auto simp: in_set_conv_nth)
    from nth_mem [OF i] inv obtain k where k: "ws_id (workspaces b ! i) = workspace_id_for k" unfolding app_inv_def naming_def named_below_def by blast
    note ws = app_ws_inv [OF inv i]
    have tok: "tabs_ok (next_public_tab_number (workspaces b ! i)) (tabs (workspaces b ! i))" using ws by (simp add: ws_inv_def ws_ok_def)
    note parse = parse_listed_tab_id [OF dis i k tok j, folded tid]
    obtain ws' where ws': "insert_moved_pane_into_tab j target moved (split_direction_to_layout split) ratio foc (workspaces b ! i) = (ws', Inr ?p)"
      "grown ?p ?t (workspaces b ! i) ws'" "j < length (tabs ws')"
      by (rule insert_moved_grown [OF ws room_numbers [OF room i, THEN conjunct1] j target new [OF i]])
    show thesis by (rule grow [OF i ws'(2,3), where cw = False and ct = False]) (simp add: place_moved_pane_def ExistingTab parse i vec_get_def ws'(1))
  next
    case (ResolvedNewTab wid label)
    with dest obtain i where i: "i < length (workspaces b)" and wid: "wid = ws_id (workspaces b ! i)" unfolding reachable_destination_def by (auto simp: in_set_conv_nth)
    note parse = parse_listed_workspace_id [OF dis i, folded wid]
    obtain ws' where ws': "create_tab_from_existing_pane moved label (workspaces b ! i) = (ws', length (tabs (workspaces b ! i)))"
      "grown ?p ?t (workspaces b ! i) ws'" "length (tabs (workspaces b ! i)) < length (tabs ws')"
      using room_numbers [OF room i] by (auto intro: create_tab_grown [OF app_ws_inv [OF inv i] _ _ new [OF i]])
    show thesis by (rule grow [OF i ws'(2,3), where cw = False and ct = True]) (simp add: place_moved_pane_def ResolvedNewTab parse i vec_get_def ws'(1))
  next
    case (ResolvedNewWorkspace label tab_label)
    let ?dir = "case hm_get (terminals b) st of Some terminal \<Rightarrow> cwd terminal | None \<Rightarrow> (case eff_current_dir eff of Some d \<Rightarrow> d | None \<Rightarrow> ''/'')"
    obtain ws counter where ws: "ws_from_existing_pane label tab_label ?dir moved (eff_git eff ?dir) (next_workspace_id b) = (ws, counter)" by fastforce
    note w = ws_from_existing_inv [OF ws]
    let ?c = "b\<lparr>workspaces := workspaces b @ [ws], next_workspace_id := counter\<rparr>" and ?i = "length (workspaces b)"
    have c: "app_inv (?c\<lparr>active := act, selected := sel\<rparr>)" if "focus_ok (workspaces b @ [ws]) act sel" for act sel
      by (rule snoc_inv [where a = b and ws = ws and c = "next_workspace_id b" and n = "next_pane_id b" and n' = "next_pane_id b" and p = ?p and t = ?t])
        (use that inv room fresh p t w sp in \<open>auto simp: app_inv_def core_def room_def workspace_id_for_def\<close>)
    show thesis
    proof (rule found [of ?c ?i 0 True True])
      show "place_moved_pane eff resolved foc st moved b = Some (?c, Inr (?i, 0, True, True))" by (simp add: place_moved_pane_def ResolvedNewWorkspace Let_def ws)
      have "app_inv (?c\<lparr>active := active b, selected := selected b\<rparr>)" if "active b \<noteq> None"
        by (rule c) (use inv that in \<open>auto simp: app_inv_def core_def focus_ok_def split: if_splits\<close>)
      moreover have "app_inv (?c\<lparr>active := Some ?i, selected := ?i\<rparr>)" by (rule c) (simp add: focus_ok_def)
      ultimately show "landed ?p ?c ?i 0" using w(2,6) by (simp add: landed_def)
      show "set (space_panes (workspaces ?c)) = insert ?p (set (space_panes (workspaces b)))" using w(2) by (simp add: space_panes_def)
    qed (auto simp: pane_named_def)
  qed
qed

subsection \<open>Resolving the destination\<close>

lemma reachable_destination_mono: "reachable_destination wss resolved \<Longrightarrow> set wss \<subseteq> set wss' \<Longrightarrow> reachable_destination wss' resolved"
  by (auto simp: reachable_destination_def split: resolved_destination.splits)

lemma find_tab_member: "ws_inv ws \<Longrightarrow> find_tab_index_for_pane ws q = Some j \<Longrightarrow> j < length (tabs ws) \<and> q \<in> tab_ids (tabs ws ! j)"
  using find_tab_None [of "next_public_tab_number ws" ws q] find_tab_of_member [of ws q]
  by (metis option.inject option.distinct(1) ws_inv_def ws_ok_def)

lemma tab_of_pane_only:
  assumes "ws_inv ws" and "j < length (tabs ws)" and "j' < length (tabs ws)" and "q \<in> tab_ids (tabs ws ! j)" and "q \<in> tab_ids (tabs ws ! j')"
  shows "j = j'"
proof (rule ccontr)
  assume ne: "j \<noteq> j'"
  from assms(2) obtain xs t ys where d: "tabs ws = xs @ t # ys" "length xs = j" "tabs ws ! j = t" by (rule vec_decomp)
  have ok: "tabs_ok (next_public_tab_number ws) (xs @ t # ys)" using assms(1) d(1) by (simp add: ws_inv_def ws_ok_def)
  have "tabs ws ! j' \<in> set xs \<union> set ys" using ne assms(3) unfolding d(1) by (auto simp: nth_append nth_Cons d(2) split: nat.splits)
  then show False using tabs_ok_disjoint(1) [OF ok, of "tabs ws ! j'"] assms(4,5) d(3) by auto
qed

text \<open>
  A destination that was accepted: in another workspace, or in this one in another tab than the pane's or in a new
  one.
\<close>

lemma resolved_reachable:
  fixes a :: "('g, 'q, 'p, 'n, 'r) app"
  assumes inv: "app_inv a" and i: "i < length (workspaces a)" and ti: "ti < length (tabs (workspaces a ! i))"
    and res: "resolve_destination a i ti (ws_id (workspaces a ! i)) destination = Some (MoveTo resolved)"
  shows "crosses_workspace (ws_id (workspaces a ! i)) resolved \<Longrightarrow>
      reachable_destination (filter (\<lambda>u. ws_id u \<noteq> ws_id (workspaces a ! i)) (workspaces a)) resolved"
    and "\<not> crosses_workspace (ws_id (workspaces a ! i)) resolved \<Longrightarrow>
      (case resolved of
         ExistingTab tid target _ _ _ \<Rightarrow> \<exists>j < length (tabs (workspaces a ! i)). j \<noteq> ti \<and> target \<in> tab_ids (tabs (workspaces a ! i) ! j)
           \<and> tid = public_tab_id_for_number (ws_id (workspaces a ! i)) (unat (tab_number (tabs (workspaces a ! i) ! j)))
       | ResolvedNewTab wid _ \<Rightarrow> wid = ws_id (workspaces a ! i)
       | ResolvedNewWorkspace _ _ \<Rightarrow> False)"
proof -
  have dis: "distinct (map ws_id (workspaces a))" using app_spaces [OF inv] by (simp add: spaces_ok_def)
  have apart: "ws_id (workspaces a ! w) = ws_id (workspaces a ! i) \<longleftrightarrow> w = i" if "w < length (workspaces a)" for w
    using nth_eq_iff_index_eq [OF dis, of w i] that i by simp
  consider (tab) w j target split ratio where "resolved = ExistingTab (public_tab_id_for_number (ws_id (workspaces a ! w)) (unat (tab_number (tabs (workspaces a ! w) ! j)))) target split ratio (i \<noteq> w)"
      "w < length (workspaces a)" "j < length (tabs (workspaces a ! w))" "i = w \<Longrightarrow> j \<noteq> ti" "target \<in> tab_ids (tabs (workspaces a ! w) ! j)"
    | (new_tab) w label where "resolved = ResolvedNewTab (ws_id (workspaces a ! w)) label" "w < length (workspaces a)"
    | (new_workspace) label tab_label where "resolved = ResolvedNewWorkspace label tab_label"
  proof (cases destination)
    case (DestTab tab_id target_pane_id split ratio)
    from res obtain w j where p: "parse_tab_id a tab_id = Some (w, j)" by (auto simp: DestTab resolve_destination_def resolve_tab_destination_def split: option.splits)
    note wj = parse_tab_id_ok [OF p, THEN conjunct1] parse_tab_id_ok [OF p, THEN conjunct2]
    note ws = app_ws_inv [OF inv wj(1)]
    have "tab_inv (tabs (workspaces a ! w) ! j)" using ws wj(2) by (auto simp: ws_inv_def ws_ok_def tabs_ok_def)
    note foc = tab_inv_members(1) [OF this]
    from res p wj find_tab_member [OF ws] foc show thesis
      by (auto simp: DestTab resolve_destination_def resolve_tab_destination_def vec_get_def public_tab_id_def public_tab_number_def
          split: option.splits if_splits prod.splits intro!: tab)
  next
    case (DestNewTab workspace_id label)
    with res i show thesis
      by (auto simp: resolve_destination_def public_workspace_id_def vec_get_def split: option.splits if_splits intro: new_tab)
  next
    case (DestNewWorkspace label tab_label)
    with res show thesis by (auto simp: resolve_destination_def intro: new_workspace)
  qed note kinds = this
  show "reachable_destination (filter (\<lambda>u. ws_id u \<noteq> ws_id (workspaces a ! i)) (workspaces a)) resolved" if "crosses_workspace (ws_id (workspaces a ! i)) resolved"
    using kinds
  proof cases
    case tab
    have "workspaces a ! w \<in> set (filter (\<lambda>u. ws_id u \<noteq> ws_id (workspaces a ! i)) (workspaces a))" using that tab apart [OF tab(2)] by (auto simp: crosses_workspace_def)
    moreover have "tabs (workspaces a ! w) ! j \<in> set (tabs (workspaces a ! w))" using tab(3) by simp
    ultimately show ?thesis unfolding reachable_destination_def tab(1) resolved_destination.case using tab(5) by blast
  next
    case new_tab
    with that show ?thesis by (auto simp: reachable_destination_def crosses_workspace_def)
  qed (simp add: reachable_destination_def)
  show "case resolved of
         ExistingTab tid target _ _ _ \<Rightarrow> \<exists>j < length (tabs (workspaces a ! i)). j \<noteq> ti \<and> target \<in> tab_ids (tabs (workspaces a ! i) ! j)
           \<and> tid = public_tab_id_for_number (ws_id (workspaces a ! i)) (unat (tab_number (tabs (workspaces a ! i) ! j)))
       | ResolvedNewTab wid _ \<Rightarrow> wid = ws_id (workspaces a ! i)
       | ResolvedNewWorkspace _ _ \<Rightarrow> False" if "\<not> crosses_workspace (ws_id (workspaces a ! i)) resolved"
    using kinds by cases (use that in \<open>auto simp: crosses_workspace_def\<close>)
qed

subsection \<open>Placing a pane in another tab of its workspace\<close>

lemma place_back_effect:
  fixes a :: "('g, 'q, 'p, 'n, 'r) app"
  assumes inv: "app_inv a" and room: "room eff a" and i: "i < length (workspaces a)" and p: "p \<in> set (ws_panes (workspaces a ! i))"
    and ti: "find_tab_index_for_pane (workspaces a ! i) p = Some ti"
    and take: "ws_take_pane_for_move p (workspaces a ! i) = Some (ws', Some taken)"
    and dest: "case resolved of
         ExistingTab tid target _ _ _ \<Rightarrow> \<exists>j < length (tabs (workspaces a ! i)). j \<noteq> ti \<and> target \<in> tab_ids (tabs (workspaces a ! i) ! j)
           \<and> tid = public_tab_id_for_number (ws_id (workspaces a ! i)) (unat (tab_number (tabs (workspaces a ! i) ! j)))
       | ResolvedNewTab wid _ \<Rightarrow> wid = ws_id (workspaces a ! i)
       | ResolvedNewWorkspace _ _ \<Rightarrow> False"
  obtains c j cw ct where "place_moved_pane eff resolved foc st (taken_moved taken) (a\<lparr>workspaces := (workspaces a)[i := ws']\<rparr>) = Some (c, Inr (i, j, cw, ct))"
    and "landed p c i j" and "set (space_panes (workspaces c)) = set (space_panes (workspaces a))"
    and "\<And>q wid n. pane_named (workspaces a) q wid n \<Longrightarrow> pane_named (workspaces c) q wid n"
proof -
  let ?u = "workspaces a ! i" and ?b = "a\<lparr>workspaces := (workspaces a)[i := ws']\<rparr>" and ?m = "taken_moved taken"
  note ws = app_ws_inv [OF inv i]
  obtain w t where T: "ws_take_pane_for_move p ?u = Some (w, Some t)" "ws_ok (set (ws_panes ?u)) w"
    "set (ws_panes w) = set (ws_panes ?u) - {p}" "set (ws_terms w) \<subseteq> set (ws_terms ?u)" "moved_pane_id (taken_moved t) = p"
    "attached_terminal_id (moved_pane_state (taken_moved t)) \<in> set (ws_terms ?u) - set (ws_terms w)" "ws_id w = ws_id ?u"
    "next_public_pane_number w = next_public_pane_number ?u" "next_public_tab_number w = next_public_tab_number ?u"
    "public_pane_numbers w = public_pane_numbers ?u" "\<And>v. v \<in> set (tabs ?u) \<Longrightarrow> p \<notin> tab_ids v \<Longrightarrow> v \<in> set (tabs w)"
    by (rule ws_take_effect [OF ws p]) blast
  with take have [simp]: "w = ws'" "t = taken" by simp_all
  note T = T [simplified]
  have new: "moved_pane_id ?m \<notin> set (ws_panes ws')" "attached_terminal_id (moved_pane_state ?m) \<notin> set (ws_terms ws')" using T(3,5,6) by auto
  have keys: "p \<in> set (hm_keys (public_pane_numbers ws'))" using T(2) p by (simp add: ws_ok_def)
  have bw: "workspaces ?b = (workspaces a)[i := ws']" "i < length (workspaces ?b)" "workspaces ?b ! i = ws'" using i by simp_all
  have dis: "distinct (map ws_id (workspaces ?b))" using app_spaces [OF inv] i T(7) by (simp add: spaces_ok_def map_update_same)
  note found = that
  have put: thesis if ok: "ws_ok (insert p (set (ws_panes ?u))) ws''" and panes: "set (ws_panes ws'') = insert p (set (ws_panes ws'))"
    and terms: "set (ws_terms ws'') = insert (attached_terminal_id (moved_pane_state ?m)) (set (ws_terms ws'))" and wid: "ws_id ws'' = ws_id ws'"
    and ne: "tabs ws'' \<noteq> []" and num: "public_pane_numbers ws'' = public_pane_numbers ws'" "next_public_pane_number ws'' = next_public_pane_number ws'"
    and j: "j < length (tabs ws'')" and pl: "place_moved_pane eff resolved foc st ?m ?b = Some (?b\<lparr>workspaces := (workspaces ?b)[i := ws'']\<rparr>, Inr (i, j, cw, ct))" for ws'' j cw ct
  proof -
    have all: "set (ws_panes ws'') = set (ws_panes ?u)" using panes T(3) p by auto
    have same: "?b\<lparr>workspaces := (workspaces ?b)[i := ws'']\<rparr> = a\<lparr>workspaces := (workspaces a)[i := ws'']\<rparr>" by simp
    have "kept ?u ws''" using ok ne all terms T(4,6-8,10) wid num p by (auto simp: kept_def ws_inv_def insert_absorb)
    note c = app_inv_kept [OF inv i this]
    show thesis
    proof (rule found [OF pl [unfolded same]])
      show "landed p (a\<lparr>workspaces := (workspaces a)[i := ws'']\<rparr>) i j" by (rule landed_inv [OF c]) (use i j all p in simp_all)
      from i show "set (space_panes (workspaces (a\<lparr>workspaces := (workspaces a)[i := ws'']\<rparr>))) = set (space_panes (workspaces a))"
        by (rule update_decomp) (use all in \<open>simp add: space_panes_def\<close>)
      show "pane_named (workspaces (a\<lparr>workspaces := (workspaces a)[i := ws'']\<rparr>)) q wid' n" if "pane_named (workspaces a) q wid' n" for q wid' n
        using pane_named_update [OF i _ _ _ that, of ws''] all wid num T(7,10) by simp
    qed
  qed
  show thesis
  proof (cases resolved)
    case (ExistingTab tid target split ratio cross)
    with dest obtain j0 where j0: "j0 < length (tabs ?u)" "j0 \<noteq> ti" "target \<in> tab_ids (tabs ?u ! j0)"
      "tid = public_tab_id_for_number (ws_id ?u) (unat (tab_number (tabs ?u ! j0)))" by auto
    have "p \<notin> tab_ids (tabs ?u ! j0)" using tab_of_pane_only [OF ws, of j0 ti p] find_tab_member [OF ws ti] j0(1,2) by blast
    with T(11) [of "tabs ?u ! j0"] j0(1) have "tabs ?u ! j0 \<in> set (tabs ws')" by simp
    then obtain j where j: "j < length (tabs ws')" "tabs ws' ! j = tabs ?u ! j0" by (metis in_set_conv_nth)
    from j(1) obtain xs v ys where d: "tabs ws' = xs @ v # ys" "length xs = j" "tabs ws' ! j = v" by (rule vec_decomp)
    from nth_mem [OF i] inv obtain k where k: "ws_id ?u = workspace_id_for k" unfolding app_inv_def naming_def named_below_def by blast
    have tok: "tabs_ok (next_public_tab_number ws') (tabs ws')" using T(2) by (simp add: ws_ok_def)
    from parse_listed_tab_id [OF dis bw(2), unfolded bw(3), of k "next_public_tab_number ws'" j] k tok j T(7) j0(4)
    have parse: "parse_tab_id ?b tid = Some (i, j)" by simp
    have r: "next_public_pane_number ws' + 1 \<noteq> 0" using room_numbers [OF room i] T(8) by simp
    show thesis
    proof (cases rule: insert_moved_effect [OF T(2) r d(1) new, of target "split_direction_to_layout split" ratio foc])
      case 1
      with j0(3) j(2) d(3) show thesis by simp
    next
      case (2 ws'')
      have "register_if_new p (ws'\<lparr>tabs := tabs ws''\<rparr>) = ws'\<lparr>tabs := tabs ws''\<rparr>" by (rule register_if_new_known) (use keys in simp)
      with 2(8) T(5) have eq: "ws'' = ws'\<lparr>tabs := tabs ws''\<rparr>" by simp
      have num: "public_pane_numbers ws'' = public_pane_numbers ws'" "next_public_pane_number ws'' = next_public_pane_number ws'"
        using arg_cong [OF eq, of public_pane_numbers] arg_cong [OF eq, of next_public_pane_number] by simp_all
      have jl: "j < length (tabs ws'')" using find_tab_less [OF 2(9)] d(2) by simp
      show thesis
        by (rule put [OF _ _ 2(4,5,6) num jl, where cw = False and ct = False])
          (use 2(1,2,3) T(5) d(2) in \<open>simp_all add: place_moved_pane_def ExistingTab parse i vec_get_def\<close>)
    qed
  next
    case (ResolvedNewTab wid label)
    with dest have "wid = ws_id ?u" by simp
    with parse_listed_workspace_id [OF dis bw(2), unfolded bw(3)] T(7) have parse: "parse_workspace_id ?b wid = Some i" by simp
    have r: "next_public_pane_number ws' + 1 \<noteq> 0" "next_public_tab_number ws' + 1 \<noteq> 0" using room_numbers [OF room i] T(8,9) by simp_all
    show thesis
    proof (rule create_tab_from_existing_effect [OF T(2) r new])
      fix ws''
      assume c: "create_tab_from_existing_pane ?m label ws' = (ws'', length (tabs ws'))" "ws_ok (insert (moved_pane_id ?m) (set (ws_panes ?u))) ws''"
        "set (ws_panes ws'') = insert (moved_pane_id ?m) (set (ws_panes ws'))" "set (ws_terms ws'') = insert (attached_terminal_id (moved_pane_state ?m)) (set (ws_terms ws'))"
        "ws_id ws'' = ws_id ws'" "tabs ws'' = tabs ws' @ [tab_from_existing_pane (next_public_tab_number ws') label ?m]"
        "ws'' = register_if_new (moved_pane_id ?m) (ws'\<lparr>tabs := tabs ws'', next_public_tab_number := next_public_tab_number ws' + 1\<rparr>)"
      have "register_if_new p (ws'\<lparr>tabs := tabs ws'', next_public_tab_number := next_public_tab_number ws' + 1\<rparr>) =
          ws'\<lparr>tabs := tabs ws'', next_public_tab_number := next_public_tab_number ws' + 1\<rparr>" by (rule register_if_new_known) (use keys in simp)
      with c(7) T(5) have eq: "ws'' = ws'\<lparr>tabs := tabs ws'', next_public_tab_number := next_public_tab_number ws' + 1\<rparr>" by simp
      have num: "public_pane_numbers ws'' = public_pane_numbers ws'" "next_public_pane_number ws'' = next_public_pane_number ws'"
        using arg_cong [OF eq, of public_pane_numbers] arg_cong [OF eq, of next_public_pane_number] by simp_all
      have jl: "length (tabs ws') < length (tabs ws'')" "tabs ws'' \<noteq> []" by (simp_all add: c(6))
      show thesis
        by (rule put [OF _ _ c(4,5) jl(2) num jl(1), where cw = False and ct = True])
          (use c(1,2,3) T(5) in \<open>simp_all add: place_moved_pane_def ResolvedNewTab parse i vec_get_def\<close>)
    qed
  next
    case ResolvedNewWorkspace
    with dest show thesis by simp
  qed
qed

subsection \<open>The request\<close>

text \<open>
  \<open>pane.move\<close> to a new tab looks the workspace up by an index it parsed but did not compare with the number of
  workspaces; \<open>destination_listed\<close> excludes the panic that follows.
\<close>

definition destination_listed :: "('g, 'q, 'p, 'n, 'r) app \<Rightarrow> pane_move_destination \<Rightarrow> bool" where
  "destination_listed a destination \<longleftrightarrow>
     (case destination of
        DestNewTab (Some wid) _ \<Rightarrow> (case parse_workspace_id a wid of Some i \<Rightarrow> i < length (workspaces a) | None \<Rightarrow> True)
      | _ \<Rightarrow> True)"

lemma resolve_destination_some:
  assumes inv: "app_inv a" and "destination_listed a destination"
  shows "resolve_destination a i ti wid destination \<noteq> None"
proof (cases destination)
  case (DestTab tab_id target_pane_id split ratio)
  show ?thesis
  proof (cases "parse_tab_id a tab_id")
    case None
    then show ?thesis by (simp add: DestTab resolve_destination_def resolve_tab_destination_def)
  next
    case (Some x)
    obtain w j where x: "x = (w, j)" by (cases x)
    have get: "vec_get (workspaces a) w = Some (workspaces a ! w)" "vec_get (tabs (workspaces a ! w)) j = Some (tabs (workspaces a ! w) ! j)"
      using parse_tab_id_ok [OF Some [unfolded x]] by (simp_all add: vec_get_def)
    have "vec_get (workspaces a) v = Some (workspaces a ! v)" if "parse_pane_id a raw = Some (v, q)" for raw v q
      using parse_pane_id_ok [OF inv that] by (simp add: vec_get_def)
    with Some x get show ?thesis
      by (auto simp: DestTab resolve_destination_def resolve_tab_destination_def split: option.split prod.split)
  qed
next
  case (DestNewTab workspace_id label)
  with assms(2) show ?thesis
    by (auto simp: destination_listed_def resolve_destination_def public_workspace_id_def vec_get_def split: option.splits)
qed (simp add: resolve_destination_def)

lemma unchanged_not_failed: "unchanged_pane_move a reason names i ti p w t \<noteq> Inl ''pane_move_failed''"
  by (simp add: unchanged_pane_move_def split: option.split)

lemma pane_named_only:
  assumes inv: "app_inv a" and i: "i < length (workspaces a)" and p: "p \<in> set (ws_panes (workspaces a ! i))" and "pane_named (workspaces a) p wid n"
  shows "public_pane_id a i p = Some (public_pane_id_for_number wid (unat n))"
proof -
  from assms(4) obtain ws where ws: "ws \<in> set (workspaces a)" "p \<in> set (ws_panes ws)" "ws_id ws = wid" "hm_get (public_pane_numbers ws) p = Some n"
    unfolding pane_named_def by blast
  from i obtain xs u ys where d: "workspaces a = xs @ u # ys" "length xs = i" "workspaces a ! i = u" by (rule vec_decomp)
  have "ws = workspaces a ! i" using spaces_ok_apart(1) [OF app_spaces [OF inv, unfolded d(1)]] ws(1,2) p d by (auto simp: d(1) d(3))
  with ws i show ?thesis by (simp add: public_pane_id_def public_pane_number_def vec_get_def)
qed

lemma move_taken_effect:
  fixes a :: "('g, 'q, 'p, 'n, 'r) app"
  assumes inv: "app_inv a" and room: "room eff a" and i: "i < length (workspaces a)" and p: "p \<in> set (ws_panes (workspaces a ! i))"
    and ti: "find_tab_index_for_pane (workspaces a ! i) p = Some ti" and s: "public_pane_id a i p = Some s"
    and names: "mn_pane_id names = s" "mn_workspace_id names = ws_id (workspaces a ! i)"
    and res: "resolve_destination a i ti (ws_id (workspaces a ! i)) destination = Some (MoveTo resolved)"
  obtains b r where "move_taken_pane eff names rc resolved foc i p st a = Some (b, Inr (ResultPaneMove r))" and "app_inv b"
    and "set (space_panes (workspaces b)) = set (space_panes (workspaces a))"
    and "\<And>q wid n. pane_named (workspaces a) q wid n \<Longrightarrow> \<exists>j. parse_pane_id b (public_pane_id_for_number wid (unat n)) = Some (j, q)"
proof -
  note ws = app_ws_inv [OF inv i]
  have get: "vec_get (workspaces a) i = Some (workspaces a ! i)" using i by (simp add: vec_get_def)
  have mem: "workspaces a ! i \<in> set (workspaces a)" "p \<in> set (space_panes (workspaces a))" using i p by (auto simp: mem_space_panes)
  note reach = resolved_reachable [OF inv i find_tab_less [OF ti] res]
  obtain ws' taken where take: "ws_take_pane_for_move p (workspaces a ! i) = Some (ws', Some taken)" and tp: "moved_pane_id (taken_moved taken) = p"
    and tt: "attached_terminal_id (moved_pane_state (taken_moved taken)) \<in> set (ws_terms (workspaces a ! i))"
    by (rule ws_take_effect [OF ws p]) blast
  show thesis
  proof (cases "crosses_workspace (ws_id (workspaces a ! i)) resolved")
    case True
    let ?b = "leave_source i p s True (workspace_empty taken) (a\<lparr>workspaces := (workspaces a)[i := ws']\<rparr>)"
    note L = leave_source_effect [OF inv i p s room take]
    have dest: "reachable_destination (workspaces ?b) resolved" using reach(1) [OF True] by (rule reachable_destination_mono) (auto intro: L(8))
    have pn: "p < next_pane_id ?b" using inv mem(1) p unfolding app_inv_def naming_def named_below_def L(5) by blast
    have tn: "attached_terminal_id (moved_pane_state (taken_moved taken)) \<in> set (hm_keys (terminals ?b))"
      unfolding L(4) using inv mem(1) tt by (auto simp: app_inv_def core_def mem_space_terms subset_iff)
    obtain c w j cw ct where P: "place_moved_pane eff resolved foc st (taken_moved taken) ?b = Some (c, Inr (w, j, cw, ct))" "landed p c w j"
      "set (space_panes (workspaces c)) = insert p (set (space_panes (workspaces ?b)))" "public_pane_id_aliases c = public_pane_id_aliases ?b"
      "\<And>q wid n. pane_named (workspaces ?b) q wid n \<Longrightarrow> pane_named (workspaces c) q wid n"
      by (rule place_elsewhere_effect [OF L(1,10) dest, of "taken_moved taken" foc st]) (use L(2,3) pn tn tp in auto)
    let ?cw = "if workspace_empty taken \<and> True then Some (mn_workspace_id names) else None" and ?ct = "map_option (\<lambda>_. mn_tab_id names) (removed_tab_idx taken)"
    obtain d r where F: "finish_pane_move eff names foc (current_pane_focus_target a) ?cw ?ct p (w, j, cw, ct) c = Some (d, Inr (ResultPaneMove r))" "app_inv d"
      "space_panes (workspaces d) = space_panes (workspaces c)" "public_pane_id_aliases d = public_pane_id_aliases c"
      "\<And>q wid n. pane_named (workspaces c) q wid n \<Longrightarrow> pane_named (workspaces d) q wid n"
      by (rule finish_pane_move_effect [OF P(2)]) blast
    have all: "set (space_panes (workspaces d)) = set (space_panes (workspaces a))" unfolding F(3) P(3) L(2) using mem(2) by blast
    have "hm_get (public_pane_id_aliases d) s = Some p" unfolding F(4) P(4) L(7) by (simp add: hm.get_put)
    from alias_resolves [OF F(2) this] all mem(2) have old: "\<exists>j. parse_pane_id d s = Some (j, p)" by simp
    show thesis
    proof (rule that [of d r, OF _ F(2) all])
      show "move_taken_pane eff names rc resolved foc i p st a = Some (d, Inr (ResultPaneMove r))"
        using P(1) F(1) True by (simp add: move_taken_pane_def Let_def get take names tp)
      show "\<exists>j. parse_pane_id d (public_pane_id_for_number wid (unat n)) = Some (j, q)" if q: "pane_named (workspaces a) q wid n" for q wid n
      proof (cases "q = p")
        case True
        with q pane_named_only [OF inv i p] s old show ?thesis by auto
      next
        case False
        from F(5) [OF P(5) [OF L(9) [OF False q]]] show ?thesis by (rule named_pane_resolves [OF F(2)])
      qed
    qed
  next
    case False
    let ?b = "a\<lparr>workspaces := (workspaces a)[i := ws']\<rparr>"
    obtain c j cw ct where P: "place_moved_pane eff resolved foc st (taken_moved taken) ?b = Some (c, Inr (i, j, cw, ct))" "landed p c i j"
      "set (space_panes (workspaces c)) = set (space_panes (workspaces a))"
      "\<And>q wid n. pane_named (workspaces a) q wid n \<Longrightarrow> pane_named (workspaces c) q wid n"
      by (rule place_back_effect [OF inv room i p ti take reach(2) [OF False], of foc st]) blast
    let ?cw = "if workspace_empty taken \<and> False then Some (mn_workspace_id names) else None" and ?ct = "map_option (\<lambda>_. mn_tab_id names) (removed_tab_idx taken)"
    obtain d r where F: "finish_pane_move eff names foc (current_pane_focus_target a) ?cw ?ct p (i, j, cw, ct) c = Some (d, Inr (ResultPaneMove r))" "app_inv d"
      "space_panes (workspaces d) = space_panes (workspaces c)" "\<And>q wid n. pane_named (workspaces c) q wid n \<Longrightarrow> pane_named (workspaces d) q wid n"
      by (rule finish_pane_move_effect [OF P(2)]) blast
    show thesis
    proof (rule that [of d r, OF _ F(2)])
      show "move_taken_pane eff names rc resolved foc i p st a = Some (d, Inr (ResultPaneMove r))"
        using P(1) F(1) False by (simp add: move_taken_pane_def Let_def get take names tp leave_source_def)
      show "set (space_panes (workspaces d)) = set (space_panes (workspaces a))" unfolding F(3) P(3) ..
      show "\<exists>j. parse_pane_id d (public_pane_id_for_number wid (unat n)) = Some (j, q)" if "pane_named (workspaces a) q wid n" for q wid n
        by (rule named_pane_resolves [OF F(2) F(4) [OF P(4) [OF that]]])
    qed
  qed
qed

lemma pane_move_effect:
  fixes a :: "('g, 'q, 'p, 'n, 'r) app"
  assumes inv: "app_inv a" and room: "room eff a" and listed: "destination_listed a destination"
  obtains b resp where "handle_pane_move eff target destination foc a = Some (b, resp)" and "app_inv b"
    and "set (space_panes (workspaces b)) = set (space_panes (workspaces a))" and "resp \<noteq> Inl ''pane_move_failed''"
    and "\<And>q wid n. pane_named (workspaces a) q wid n \<Longrightarrow> \<exists>j. parse_pane_id b (public_pane_id_for_number wid (unat n)) = Some (j, q)"
proof -
  note kept = named_pane_resolves [OF inv]
  note found = that
  have stay: thesis if "handle_pane_move eff target destination foc a = Some (a, resp)" "resp \<noteq> Inl ''pane_move_failed''" for resp
    by (rule found [OF that(1) inv refl that(2) kept])
  show thesis
  proof (cases "parse_pane_id a target")
    case None
    then show thesis by (intro stay [of "Inl ''pane_not_found''"]) (simp_all add: handle_pane_move_def)
  next
    case (Some x)
    obtain i p where x: "x = (i, p)" by (cases x)
    from parse_pane_id_ok [OF inv Some [unfolded x]] have i: "i < length (workspaces a)" and p: "p \<in> set (ws_panes (workspaces a ! i))" by simp_all
    note ws = app_ws_inv [OF inv i]
    have get: "vec_get (workspaces a) i = Some (workspaces a ! i)" using i by (simp add: vec_get_def)
    from find_tab_of_member [OF ws p] obtain ti where ti: "find_tab_index_for_pane (workspaces a ! i) p = Some ti" "ti < length (tabs (workspaces a ! i))"
      "p \<in> tab_ids (tabs (workspaces a ! i) ! ti)" by blast
    from parse_own_pane_id [OF inv i p] obtain s where s: "public_pane_id a i p = Some s" by blast
    from parse_own_tab_id [OF inv i ti(2)] obtain tid where tid: "public_tab_id a i ti = Some tid" by blast
    have "tab_inv (tabs (workspaces a ! i) ! ti)" using ws ti(2) by (auto simp: ws_inv_def ws_ok_def tabs_ok_def)
    then have "p \<in> set (hm_keys (tab_panes (tabs (workspaces a ! i) ! ti)))" using ti(3) by (simp add: tab_inv_def)
    then obtain st where st: "tab_terminal_id (tabs (workspaces a ! i) ! ti) p = Some st" using hm_get_keys [of "tab_panes (tabs (workspaces a ! i) ! ti)" p]
      by (auto simp: tab_terminal_id_def)
    let ?names = "\<lparr>mn_pane_id = s, mn_workspace_id = ws_id (workspaces a ! i), mn_tab_id = tid\<rparr>"
    note begun = Some x get ti(1) tid st s
    show thesis
    proof (cases "tab_zoomed (tabs (workspaces a ! i) ! ti)")
      case True
      show thesis by (rule stay [OF _ unchanged_not_failed]) (simp add: handle_pane_move_def begun True)
    next
      case False
      note begun = begun False
      from resolve_destination_some [OF inv listed, of i ti "ws_id (workspaces a ! i)"]
      obtain res where res: "resolve_destination a i ti (ws_id (workspaces a ! i)) destination = Some res" by blast
      show thesis
      proof (cases res)
        case (MoveError code)
        have "code \<noteq> ''pane_move_failed''" using res unfolding MoveError
          by (auto simp: resolve_destination_def resolve_tab_destination_def split: pane_move_destination.splits option.splits if_splits prod.splits)
        then show thesis by (intro stay [of "Inl code"]) (simp_all add: handle_pane_move_def begun res MoveError)
      next
        case (MoveUnchanged reason w t)
        show thesis by (rule stay [OF _ unchanged_not_failed]) (simp add: handle_pane_move_def begun res MoveUnchanged)
      next
        case (MoveTo resolved)
        let ?rc = "\<lparr>mrc_source_ws_idx = i, mrc_workspace_id = ws_id (workspaces a ! i), mrc_workspace_label = ws_custom_name (workspaces a ! i),
          mrc_tab_label = tab_custom_name (tabs (workspaces a ! i) ! ti), mrc_worktree_space = worktree_space (workspaces a ! i),
          mrc_identity_cwd = identity_cwd (workspaces a ! i)\<rparr>"
        obtain b r where b: "move_taken_pane eff ?names ?rc resolved foc i p st a = Some (b, Inr (ResultPaneMove r))" "app_inv b"
          "set (space_panes (workspaces b)) = set (space_panes (workspaces a))"
          "\<And>q wid n. pane_named (workspaces a) q wid n \<Longrightarrow> \<exists>j. parse_pane_id b (public_pane_id_for_number wid (unat n)) = Some (j, q)"
          by (rule move_taken_effect [OF inv room i p ti(1) s _ _ res [unfolded MoveTo], of ?names ?rc foc st]) simp_all
        show thesis by (rule found [where resp = "Inr (ResultPaneMove r)", OF _ b(2,3) _ b(4)]) (use b(1) in \<open>simp_all add: handle_pane_move_def begun res MoveTo\<close>)
      qed
    qed
  qed
qed

text \<open>A workspace number beyond the last workspace makes the request panic.\<close>

lemma pane_move_unlisted:
  assumes inv: "app_inv a" and i: "i < length (workspaces a)" and p: "p \<in> set (ws_panes (workspaces a ! i))"
    and ti: "find_tab_index_for_pane (workspaces a ! i) p = Some ti" "\<not> tab_zoomed (tabs (workspaces a ! i) ! ti)"
    and target: "public_pane_id a i p = Some target" and wid: "parse_workspace_id a wid = Some w" "length (workspaces a) \<le> w"
  shows "handle_pane_move eff target (DestNewTab (Some wid) label) foc a = None"
proof -
  note ws = app_ws_inv [OF inv i]
  have ti': "ti < length (tabs (workspaces a ! i))" "p \<in> tab_ids (tabs (workspaces a ! i) ! ti)" using find_tab_member [OF ws ti(1)] by simp_all
  from parse_own_pane_id [OF inv i p] target have pp: "parse_pane_id a target = Some (i, p)" by auto
  from parse_own_tab_id [OF inv i ti'(1)] obtain tid where tid: "public_tab_id a i ti = Some tid" by blast
  have "tab_inv (tabs (workspaces a ! i) ! ti)" using ws ti'(1) by (auto simp: ws_inv_def ws_ok_def tabs_ok_def)
  then have "p \<in> set (hm_keys (tab_panes (tabs (workspaces a ! i) ! ti)))" using ti'(2) by (simp add: tab_inv_def)
  then obtain st where "tab_terminal_id (tabs (workspaces a ! i) ! ti) p = Some st" using hm_get_keys [of "tab_panes (tabs (workspaces a ! i) ! ti)" p]
    by (auto simp: tab_terminal_id_def)
  then show ?thesis using pp i ti tid wid by (simp add: handle_pane_move_def vec_get_def resolve_destination_def public_workspace_id_def)
qed

end
