(* ===== verification/App_Dispatch.thy ===== *)
theory App_Dispatch
  imports App_Moves_Theorems
begin

text \<open>
  The requests on workspaces, tabs and panes that the application answers itself, in the order of the arms of
  \<open>handle_api_request_after_internal_events_drained\<close>, and the runs of the application: requests and deaths of
  panes' processes in any order.
\<close>

datatype workspace_request =
    WorkspaceCreate "string option" "string option" bool "string option" "(string, string) hmap"
  | WorkspaceFocus string
  | WorkspaceRename string string
  | WorkspaceMove string nat
  | WorkspaceMoveBlock "string list" "string option"
  | WorkspaceClose string bool

datatype tab_request =
    TabCreate "string option" "string option" bool "string option" "(string, string) hmap"
  | TabFocus string
  | TabRename string string
  | TabMove string nat
  | TabClose string

datatype pane_request =
    PaneSplit "string option" "string option" split_direction "f32 option" "string option" bool bool "(string, string) hmap"
  | PaneMove string pane_move_destination bool
  | PaneZoom "string option" pane_zoom_command
  | PaneClose string

datatype app_request = WorkspaceRequest workspace_request | TabRequest tab_request | PaneRequest pane_request

fun handle_workspace_request ::
    "('g, 'r) effects \<Rightarrow> workspace_request \<Rightarrow> ('g, 'q, 'p, 'n, 'r) app \<Rightarrow> ('g, 'q, 'p, 'n, 'r) reply" where
  "handle_workspace_request eff (WorkspaceCreate dir src foc label env) a = handle_workspace_create eff dir src foc label env a"
| "handle_workspace_request eff (WorkspaceFocus wid) a = handle_workspace_focus wid a"
| "handle_workspace_request eff (WorkspaceRename wid label) a = handle_workspace_rename eff wid label a"
| "handle_workspace_request eff (WorkspaceMove wid insert_index) a = handle_workspace_move wid insert_index a"
| "handle_workspace_request eff (WorkspaceMoveBlock wids before) a = handle_workspace_move_block wids before a"
| "handle_workspace_request eff (WorkspaceClose wid close_group) a = handle_workspace_close wid close_group a"

fun handle_tab_request ::
    "('g, 'r) effects \<Rightarrow> tab_request \<Rightarrow> ('g, 'q, 'p, 'n, 'r) app \<Rightarrow> ('g, 'q, 'p, 'n, 'r) reply" where
  "handle_tab_request eff (TabCreate wid dir foc label env) a = handle_tab_create eff wid dir foc label env a"
| "handle_tab_request eff (TabFocus tid) a = handle_tab_focus tid a"
| "handle_tab_request eff (TabRename tid label) a = handle_tab_rename eff tid label a"
| "handle_tab_request eff (TabMove tid insert_index) a = handle_tab_move eff tid insert_index a"
| "handle_tab_request eff (TabClose tid) a = handle_tab_close eff tid a"

fun handle_pane_request ::
    "('g, 'r) effects \<Rightarrow> pane_request \<Rightarrow> ('g, 'q, 'p, 'n, 'r) app \<Rightarrow> ('g, 'q, 'p, 'n, 'r) reply" where
  "handle_pane_request eff (PaneSplit target wid d ratio dir foc right_click_pane env) a =
     handle_pane_split eff target wid d ratio dir foc right_click_pane env a"
| "handle_pane_request eff (PaneMove target destination foc) a = handle_pane_move eff target destination foc a"
| "handle_pane_request eff (PaneZoom target command) a = handle_pane_zoom eff target command a"
| "handle_pane_request eff (PaneClose target) a = handle_pane_close eff target a"

fun handle_app_request ::
    "('g, 'r) effects \<Rightarrow> app_request \<Rightarrow> ('g, 'q, 'p, 'n, 'r) app \<Rightarrow> ('g, 'q, 'p, 'n, 'r) reply" where
  "handle_app_request eff (WorkspaceRequest req) a = handle_workspace_request eff req a"
| "handle_app_request eff (TabRequest req) a = handle_tab_request eff req a"
| "handle_app_request eff (PaneRequest req) a = handle_pane_request eff req a"

text \<open>The one request that can panic: \<open>pane.move\<close> to a new tab of a workspace number that is not listed.\<close>

definition listed_request :: "('g, 'q, 'p, 'n, 'r) app \<Rightarrow> app_request \<Rightarrow> bool" where
  "listed_request a req \<longleftrightarrow> (case req of PaneRequest (PaneMove _ destination _) \<Rightarrow> destination_listed a destination | _ \<Rightarrow> True)"

lemma pane_move_served: "app_inv a \<Longrightarrow> room eff a \<Longrightarrow> destination_listed a destination \<Longrightarrow> served (handle_pane_move eff target destination foc a)"
  by (rule pane_move_effect) (auto simp: served_def)

lemma request_served:
  assumes inv: "app_inv a" and room: "room eff a" and listed: "listed_request a req"
  shows "served (handle_app_request eff req a)"
proof (cases req)
  show ?thesis if "req = WorkspaceRequest r" for r
    by (cases r) (simp_all add: that inv room workspace_create_served workspace_focus_served workspace_rename_served
      workspace_move_served workspace_move_block_served workspace_close_served)
  show ?thesis if "req = TabRequest r" for r
    by (cases r) (simp_all add: that inv room tab_create_served tab_focus_served tab_rename_served tab_move_served tab_close_served)
  show ?thesis if "req = PaneRequest r" for r
    using listed by (cases r) (simp_all add: that inv room listed_request_def pane_split_served pane_move_served pane_zoom_served pane_close_served)
qed

subsection \<open>Runs of the application\<close>

inductive app_step :: "('g, 'q, 'p, 'n, 'r) app \<Rightarrow> ('g, 'q, 'p, 'n, 'r) app \<Rightarrow> bool" where
  request: "room eff a \<Longrightarrow> listed_request a req \<Longrightarrow> handle_app_request eff req a = Some (b, resp) \<Longrightarrow> app_step a b"
| pane_died: "handle_pane_died p a = Some b \<Longrightarrow> app_step a b"

inductive_cases app_stepE: "app_step a b"

definition app_start :: "('g, 'q, 'p, 'n, 'r) app \<Rightarrow> bool" where
  "app_start a \<longleftrightarrow> workspaces a = [] \<and> active a = None \<and> selected a = 0 \<and> terminals a = [] \<and> public_pane_id_aliases a = []
     \<and> next_pane_id a = 1 \<and> next_workspace_id a = 1"

lemma app_start_inv: "app_start a \<Longrightarrow> app_inv a"
  by (simp add: app_start_def app_inv_def core_def spaces_ok_def focus_ok_def space_terms_def naming_def hm_ok_def hm_keys_def)

lemma app_step_inv: "app_inv a \<Longrightarrow> app_step a b \<Longrightarrow> app_inv b"
proof (erule app_stepE)
  fix eff req resp
  assume "app_inv a" "room eff a" "listed_request a req" "handle_app_request eff req a = Some (b, resp)"
  with request_served [of a eff req] show "app_inv b" by (auto simp: served_def)
next
  fix p
  assume inv: "app_inv a" and d: "handle_pane_died p a = Some b"
  from inv obtain c where "handle_pane_died p a = Some c" "app_inv c" by (rule pane_died_effect)
  with d show "app_inv b" by simp
qed

interpretation runs: step_invariant app_start app_step app_inv
  by unfold_locales (auto intro: app_start_inv app_step_inv)

subsection \<open>Where a block of workspaces goes\<close>

lemma block_order_split:
  assumes "\<And>w. before = Some w \<Longrightarrow> w \<in> set ids - set wids"
  obtains xs ys where "filter (\<lambda>wid. wid \<notin> set wids) ids = xs @ ys" and "block_order ids wids before = xs @ wids @ ys"
    and "case before of Some w \<Rightarrow> ys \<noteq> [] \<and> hd ys = w | None \<Rightarrow> ys = []"
proof (cases before)
  case None
  with that [of "filter (\<lambda>wid. wid \<notin> set wids) ids" "[]"] show thesis by (simp add: block_order_def)
next
  case (Some w)
  let ?o = "filter (\<lambda>wid. wid \<notin> set wids) ids"
  from assms [OF Some] have "w \<in> set ?o" by simp
  then have "position (\<lambda>x. x = w) ?o \<noteq> None" by (auto simp: position_None)
  then obtain i where i: "position (\<lambda>x. x = w) ?o = Some i" by blast
  from position_Some [OF i] have "i < length ?o" "?o ! i = w" by simp_all
  then show thesis using Some i that [of "take i ?o" "drop i ?o"] by (simp add: block_order_def Let_def hd_drop_conv_nth)
qed

lemma move_workspace_block_refused:
  assumes "move_workspace_block wids before a = Some (a, False)" and "wids \<noteq> []" and "distinct wids" and "set wids \<subseteq> set (map ws_id (workspaces a))"
    and "\<And>w. before = Some w \<Longrightarrow> w \<in> set (map ws_id (workspaces a)) - set wids"
  shows "map ws_id (workspaces a) = block_order (map ws_id (workspaces a)) wids before"
  using assms by (auto simp: move_workspace_block_def Let_def split: if_splits option.splits)

subsection \<open>A small session\<close>

text \<open>
  Two workspaces, the first with two panes, reached from the start by three requests.
\<close>

definition demo_effects :: "(unit, unit) effects" where
  "demo_effects = \<lparr>eff_spawned = Inr (), eff_terminal_id = ''t1'', eff_now = 0, eff_home = None, eff_current_dir = None,
     eff_runtime_cwd = (\<lambda>_. None), eff_follow_cwd = (\<lambda>_. None), eff_cwd_policy = CwdFollow, eff_expand_path = (\<lambda>s. s),
     eff_git = (\<lambda>_. \<lparr>git_space = None, git_auto_label = [], git_status_key = [], git_branch_name = None\<rparr>)\<rparr>"

definition demo_start :: "(unit, unit, unit, unit, unit) app" where
  "demo_start = \<lparr>workspaces = [], active = None, selected = 0, mode = Navigate, previous_pane_focus = None, terminals = [],
     terminal_runtime_shutdowns = [], plugin_panes = [], pane_id_aliases = [], public_pane_id_aliases = [],
     pending_agent_notifications = [], session_dirty = False, confirm_close = False, terminal_runtimes = [],
     pending_restored_worktree_spaces = [], persist_session = False, pane_exit_checkpoint_pending = False,
     session_save_deadline = None, emitted = [], next_pane_id = 1, next_workspace_id = 1\<rparr>"

definition demo_run :: "(string \<times> app_request) list \<Rightarrow> (unit, unit, unit, unit, unit) app" where
  "demo_run reqs = foldl (\<lambda>a (tid, req). fst (the (handle_app_request (demo_effects\<lparr>eff_terminal_id := tid\<rparr>) req a))) demo_start reqs"

definition demo_app where
  "demo_app = demo_run [(''t1'', WorkspaceRequest (WorkspaceCreate None None True None [])),
     (''t2'', PaneRequest (PaneSplit None None SplitRight None None True False [])),
     (''t3'', WorkspaceRequest (WorkspaceCreate None None True None []))]"

lemma demo_app_spaces: "map (\<lambda>ws. (ws_id ws, ws_panes ws)) (workspaces demo_app) = [(''w1'', [1, 2]), (''w2'', [3])]" by code_simp

definition demo_next :: "(unit, unit) effects" where
  "demo_next = demo_effects\<lparr>eff_terminal_id := ''t4''\<rparr>"

lemma demo_app_room: "room demo_next demo_app" by code_simp

lemma demo_start_ok: "app_start demo_start"
  by (simp add: app_start_def demo_start_def)

lemma served_step: "app_inv a \<Longrightarrow> room eff a \<Longrightarrow> listed_request a req \<Longrightarrow> app_step a (fst (the (handle_app_request eff req a)))"
  using request_served [of a eff req] by (auto simp: served_def intro: app_step.request)

lemma demo_app_reached: "reaches app_step demo_start demo_app"
proof -
  let ?r1 = "(''t1'', WorkspaceRequest (WorkspaceCreate None None True None []))"
  let ?r2 = "(''t2'', PaneRequest (PaneSplit None None SplitRight None None True False []))"
  have step: "reaches app_step demo_start (fst (the (handle_app_request eff req a)))"
    if "reaches app_step demo_start a" "room eff a" "listed_request a req" for eff req and a :: "(unit, unit, unit, unit, unit) app"
    using reaches_step [OF that(1) served_step] runs.reachable_inv [OF demo_start_ok that(1)] that(2,3) by blast
  have "reaches app_step demo_start (demo_run [])" by (simp add: demo_run_def reaches_refl)
  moreover have "room (demo_effects\<lparr>eff_terminal_id := ''t1''\<rparr>) (demo_run [])" by code_simp
  ultimately have r1: "reaches app_step demo_start (demo_run [?r1])" unfolding demo_run_def foldl.simps prod.case
    by (rule step) (simp add: listed_request_def)
  moreover have "room (demo_effects\<lparr>eff_terminal_id := ''t2''\<rparr>) (demo_run [?r1])" by code_simp
  ultimately have "reaches app_step demo_start (demo_run [?r1, ?r2])" unfolding demo_run_def foldl.simps prod.case
    by (rule step) (simp add: listed_request_def)
  moreover have "room (demo_effects\<lparr>eff_terminal_id := ''t3''\<rparr>) (demo_run [?r1, ?r2])" by code_simp
  ultimately show ?thesis unfolding demo_app_def demo_run_def foldl.simps prod.case
    by (rule step) (simp add: listed_request_def)
qed

lemma demo_app_inv: "app_inv demo_app"
  by (rule runs.reachable_inv [OF demo_start_ok demo_app_reached])

lemma demo_app_facts:
  "length (workspaces demo_app) = 2" "map ws_id (workspaces demo_app) = [''w1'', ''w2'']"
  "ws_panes (workspaces demo_app ! 0) = [1, 2]" "ws_panes (workspaces demo_app ! 1) = [3]" "workspaces demo_app \<noteq> []"
  "space_panes (workspaces demo_app) = [1, 2, 3]"
proof -
  obtain x y where xy: "workspaces demo_app = [x, y]" using arg_cong [OF demo_app_spaces, of length]
    by (auto simp: length_Suc_conv)
  with demo_app_spaces show "length (workspaces demo_app) = 2" "map ws_id (workspaces demo_app) = [''w1'', ''w2'']"
    "ws_panes (workspaces demo_app ! 0) = [1, 2]" "ws_panes (workspaces demo_app ! 1) = [3]" "workspaces demo_app \<noteq> []"
    "space_panes (workspaces demo_app) = [1, 2, 3]"
    by (simp_all add: space_panes_def)
qed

lemma ninth: "parse_index ''9'' = Some 8"
  by (simp add: parse_index_def parse_unsigned_def checked_pred_def Let_def strip_prefix_def starts_with_def is_ascii_digit_def)
lemma demo_ninth: "parse_workspace_id demo_app ''9'' = Some 8"
proof -
  have "''9'' \<notin> set (map ws_id (workspaces demo_app))" unfolding demo_app_facts(2) by simp
  then have "position_of_id (workspaces demo_app) ''9'' = None" by (simp add: position_of_id_def position_None) (metis imageI)
  then show ?thesis by (simp add: parse_workspace_id_def ninth strip_prefix_def starts_with_def)
qed
lemma demo_second_pane: "public_pane_id demo_app 0 2 = Some ''w1:p2''" by code_simp
lemma demo_app_tabs: "map (\<lambda>ws. map (\<lambda>t. (hm_keys (tab_panes t), tab_zoomed t)) (tabs ws)) (workspaces demo_app) = [[([1, 2], False)], [([3], False)]]" by code_simp
lemma demo_second_tab: "find_tab_index_for_pane (workspaces demo_app ! 0) 2 = Some 0" "\<not> tab_zoomed (tabs (workspaces demo_app ! 0) ! 0)"
proof -
  obtain x y where xy: "workspaces demo_app = [x, y]" using demo_app_facts(1) by (auto simp: length_Suc_conv numeral_2_eq_2)
  with demo_app_tabs obtain t where t: "tabs x = [t]" "hm_keys (tab_panes t) = [1, 2]" "\<not> tab_zoomed t" by auto
  then show "find_tab_index_for_pane (workspaces demo_app ! 0) 2 = Some 0" "\<not> tab_zoomed (tabs (workspaces demo_app ! 0) ! 0)"
    using hm_get_keys [of "tab_panes t" 2] by (simp_all add: xy find_tab_index_for_pane_def hm_contains_def)
qed

end
