(* ===== verification/Selection.thy ===== *)
theory Selection
  imports Layout_Theorems
begin

text \<open>
  Text selection over the screen buffer (\<^verbatim>\<open>runtime/src/selection.rs\<close>) and the helpers of copy mode that
  do not depend on the terminal library (\<^verbatim>\<open>runtime/src/copy_mode.rs\<close>).

  A selection keeps its anchor and its cursor in coordinates of the screen buffer, so that it stays on its
  text while the pane scrolls; the scroll metrics of the pane give the row shown at the top of the viewport.
  The highlighted region is computed twice by the program: cell by cell (\<open>contains\<close>) and as at most three
  rectangles of the screen (\<open>visible_rects\<close>).  The theory shows that the rectangles cover exactly the cells
  of the first, each once, and that a drag selects the cell under the pointer and the anchor.

  \<open>u16::clamp\<close> panics when its bounds are reversed, which happens for a rectangle that reaches past the
  last column or row of the screen; the result type of the definitions that clamp is an option, with \<open>None\<close>
  for the panic.  The default rectangle and the emptiness test are of the library \<open>ratatui\<close> and are
  parameters.
\<close>

subsection \<open>Data\<close>

record scroll_metrics =
  offset_from_bottom :: usize
  max_offset_from_bottom :: usize
  viewport_rows :: usize

datatype phase = Anchored | Dragging | Done

type_synonym cell_pos = "u32 \<times> u16"

record 'p selection =
  sel_pane_id :: 'p
  sel_anchor :: cell_pos
  sel_cursor :: cell_pos
  sel_phase :: phase

record 'b ratatui_rects = "'b ratatui" +
  rect_default :: rect
  rect_is_empty :: "rect \<Rightarrow> bool"

definition checked_clamp :: "'a::linorder \<Rightarrow> 'a \<Rightarrow> 'a \<Rightarrow> 'a option" where
  "checked_clamp v lo hi = (if lo \<le> hi then Some (clamp lo hi v) else None)"

subsection \<open>Viewport and buffer coordinates\<close>

definition viewport_top_row :: "scroll_metrics option \<Rightarrow> u32" where
  "viewport_top_row metrics =
     ucast (case map_option (\<lambda>m. saturating_sub (max_offset_from_bottom m) (offset_from_bottom m)) metrics of
              Some top_row \<Rightarrow> top_row | None \<Rightarrow> 0)"

definition absolute_row_for_viewport_row :: "u16 \<Rightarrow> scroll_metrics option \<Rightarrow> u32" where
  "absolute_row_for_viewport_row viewport_row metrics = viewport_top_row metrics + ucast viewport_row"

definition absolute_row_for_viewport :: "u16 \<Rightarrow> scroll_metrics option \<Rightarrow> u32" where
  "absolute_row_for_viewport viewport_row metrics = absolute_row_for_viewport_row viewport_row metrics"

definition viewport_row_for_absolute_row :: "u32 \<Rightarrow> scroll_metrics option \<Rightarrow> u16" where
  "viewport_row_for_absolute_row absolute_row metrics =
     (let above = saturating_sub absolute_row (viewport_top_row metrics)
      in if unat above < 2 ^ 16 then ucast above else 0)"

definition clamp_to_pane :: "u16 \<Rightarrow> u16 \<Rightarrow> rect \<Rightarrow> (u16 \<times> u16) option" where
  "clamp_to_pane screen_col screen_row pane_inner =
     (case checked_clamp screen_col (rect_x pane_inner)
             (rect_x pane_inner + saturating_sub (rect_width pane_inner) 1) of
        None \<Rightarrow> None
      | Some clamped_col \<Rightarrow>
          (case checked_clamp screen_row (rect_y pane_inner)
                  (rect_y pane_inner + saturating_sub (rect_height pane_inner) 1) of
             None \<Rightarrow> None
           | Some clamped_row \<Rightarrow>
               Some (clamped_row - rect_y pane_inner, clamped_col - rect_x pane_inner)))"

subsection \<open>The selection\<close>

definition anchor :: "'p \<Rightarrow> u16 \<Rightarrow> u16 \<Rightarrow> scroll_metrics option \<Rightarrow> 'p selection" where
  "anchor pid viewport_row col metrics =
     (let a = (absolute_row_for_viewport_row viewport_row metrics, col)
      in \<lparr>sel_pane_id = pid, sel_anchor = a, sel_cursor = a, sel_phase = Anchored\<rparr>)"


definition absolute_range :: "'p \<Rightarrow> cell_pos \<Rightarrow> cell_pos \<Rightarrow> 'p selection" where
  "absolute_range pid a c =
     \<lparr>sel_pane_id = pid, sel_anchor = a, sel_cursor = c, sel_phase = Dragging\<rparr>"

definition line_range :: "'p \<Rightarrow> u32 \<Rightarrow> u32 \<Rightarrow> u16 \<Rightarrow> 'p selection" where
  "line_range pid anchor_row cursor_row end_col =
     (case (if anchor_row \<le> cursor_row then (0, end_col) else (end_col, 0)) of
        (anchor_col, cursor_col) \<Rightarrow>
          \<lparr>sel_pane_id = pid, sel_anchor = (anchor_row, anchor_col),
           sel_cursor = (cursor_row, cursor_col), sel_phase = Dragging\<rparr>)"

definition anchor_screen_pos ::
    "'p selection \<Rightarrow> rect \<Rightarrow> scroll_metrics option \<Rightarrow> (u16 \<times> u16) option" where
  "anchor_screen_pos s pane_inner metrics =
     (let viewport_row = viewport_row_for_absolute_row (fst (sel_anchor s)) metrics
      in case checked_clamp (saturating_add viewport_row (rect_y pane_inner)) (rect_y pane_inner)
                (rect_y pane_inner + saturating_sub (rect_height pane_inner) 1) of
           None \<Rightarrow> None
         | Some row \<Rightarrow>
             (case checked_clamp (saturating_add (snd (sel_anchor s)) (rect_x pane_inner))
                     (rect_x pane_inner) (rect_x pane_inner + saturating_sub (rect_width pane_inner) 1) of
                None \<Rightarrow> None
              | Some col \<Rightarrow> Some (row, col)))"

definition drag ::
    "'p selection \<Rightarrow> u16 \<Rightarrow> u16 \<Rightarrow> rect \<Rightarrow> scroll_metrics option \<Rightarrow> 'p selection option" where
  "drag s screen_col screen_row pane_inner metrics =
     (case clamp_to_pane screen_col screen_row pane_inner of
        None \<Rightarrow> None
      | Some (viewport_row, col) \<Rightarrow>
          (let c = (absolute_row_for_viewport_row viewport_row metrics, col);
               s = s\<lparr>sel_cursor := c\<rparr>
           in Some (if c \<noteq> sel_anchor s then s\<lparr>sel_phase := Dragging\<rparr> else s)))"

definition finish :: "'p selection \<Rightarrow> 'p selection \<times> bool" where
  "finish s = (if sel_phase s = Dragging then (s\<lparr>sel_phase := Done\<rparr>, True) else (s, False))"

definition is_visible :: "'p selection \<Rightarrow> bool" where
  "is_visible s \<longleftrightarrow> sel_phase s = Dragging \<or> sel_phase s = Done"

definition is_just_click :: "'p selection \<Rightarrow> bool" where
  "is_just_click s \<longleftrightarrow> sel_phase s = Anchored"

definition force_dragging :: "'p selection \<Rightarrow> 'p selection" where
  "force_dragging s = (if sel_phase s = Anchored then s\<lparr>sel_phase := Dragging\<rparr> else s)"

definition is_in_progress :: "'p selection \<Rightarrow> bool" where
  "is_in_progress s \<longleftrightarrow> (case sel_phase s of Anchored \<Rightarrow> True | Dragging \<Rightarrow> True | Done \<Rightarrow> False)"

definition is_dragging :: "'p selection \<Rightarrow> bool" where
  "is_dragging s \<longleftrightarrow> sel_phase s = Dragging"

definition ordered :: "'p selection \<Rightarrow> cell_pos \<times> cell_pos" where
  "ordered s =
     (case (sel_anchor s, sel_cursor s) of
        ((ar, ac), (cr, cc)) \<Rightarrow>
          if ar < cr \<or> (ar = cr \<and> ac \<le> cc) then ((ar, ac), (cr, cc)) else ((cr, cc), (ar, ac)))"

definition ordered_cells :: "'p selection \<Rightarrow> cell_pos \<times> cell_pos" where
  "ordered_cells s = ordered s"

definition visible_rect ::
    "'b ratatui_rects \<Rightarrow> rect \<Rightarrow> u32 \<Rightarrow> u32 \<Rightarrow> u32 \<Rightarrow> u32 \<Rightarrow> u16 \<Rightarrow> u16 \<Rightarrow> rect" where
  "visible_rect R inner top_row bottom first end_row left right =
     (let first = max first top_row;
          end_row = min end_row bottom;
          left = min left (rect_width inner);
          right = min right (rect_width inner)
      in if first \<ge> end_row \<or> left \<ge> right then rect_default R
         else rect_new R (rect_x inner + left) (rect_y inner + ucast (first - top_row))
                (right - left) (ucast (end_row - first)))"

definition visible_rects ::
    "'b ratatui_rects \<Rightarrow> 'p selection \<Rightarrow> rect \<Rightarrow> scroll_metrics option \<Rightarrow> rect list" where
  "visible_rects R s inner metrics =
     (if \<not> is_visible s \<or> rect_is_empty R inner then [rect_default R, rect_default R, rect_default R]
      else
        case ordered s of ((start_row, start_col), (end_row, end_col)) \<Rightarrow>
          (let top_row = viewport_top_row metrics;
               bottom = saturating_add top_row (ucast (rect_height inner));
               r = visible_rect R inner top_row bottom
           in if start_row = end_row
              then [r start_row (saturating_add start_row 1) start_col (saturating_add end_col 1),
                    rect_default R, rect_default R]
              else [r start_row (saturating_add start_row 1) start_col (rect_width inner),
                    r (saturating_add start_row 1) end_row 0 (rect_width inner),
                    r end_row (saturating_add end_row 1) 0 (saturating_add end_col 1)]))"

definition contains :: "'p selection \<Rightarrow> u16 \<Rightarrow> u16 \<Rightarrow> scroll_metrics option \<Rightarrow> bool" where
  "contains s viewport_row col metrics =
     (if \<not> is_visible s then False
      else
        let row = absolute_row_for_viewport_row viewport_row metrics
        in case ordered s of ((sr, sc), (er, ec)) \<Rightarrow>
             if row < sr \<or> row > er then False
             else if sr = er then col \<ge> sc \<and> col \<le> ec
             else if row = sr then col \<ge> sc
             else if row = er then col \<le> ec
             else True)"

subsection \<open>Page size of copy mode\<close>

definition copy_mode_page_lines :: "u16 \<Rightarrow> bool \<Rightarrow> usize" where
  "copy_mode_page_lines height half_page =
     (if height \<le> 2 then 1
      else if half_page then ucast (height div 2)
      else ucast (height - 2))"

subsection \<open>The rectangles of a selection\<close>

definition rect_library_ok :: "'b ratatui_rects \<Rightarrow> bool" where
  "rect_library_ok R \<longleftrightarrow>
     (\<forall>x y w h. rect_fits \<lparr>rect_x = x, rect_y = y, rect_width = w, rect_height = h\<rparr> \<longrightarrow>
        rect_new R x y w h = \<lparr>rect_x = x, rect_y = y, rect_width = w, rect_height = h\<rparr>)
     \<and> rect_default R = \<lparr>rect_x = 0, rect_y = 0, rect_width = 0, rect_height = 0\<rparr>
     \<and> (\<forall>r. rect_is_empty R r \<longleftrightarrow> rect_width r = 0 \<or> rect_height r = 0)"

lemma rect_default_covers_nothing: "rect_library_ok R \<Longrightarrow> \<not> in_rect (rect_default R) c"
  by (simp add: rect_library_ok_def in_rect_def)

lemma unat_ucast_16_32 [simp]: "unat (ucast (w :: u16) :: u32) = unat w"
  using unat_lt_pow [of w] by (simp add: unsigned_ucast_eq take_bit_nat_eq_self)

lemma unat_ucast_32_16: "unat (w :: u32) < 2 ^ 16 \<Longrightarrow> unat (ucast w :: u16) = unat w"
  by (simp add: unsigned_ucast_eq unsigned_take_bit_eq take_bit_nat_eq_self)

lemma clip_columns:
  fixes x l r w s :: nat
  assumes "min l w < min r w"
  shows "x + min l w \<le> s \<and> s < x + min l w + (min r w - min l w)
    \<longleftrightarrow> (x \<le> s \<and> s < x + w) \<and> l \<le> s - x \<and> s - x < r"
  using assms by (auto simp: min_def split: if_splits)

lemma clip_rows:
  fixes y f e t h s :: nat
  assumes "max f t < min e (t + h)"
  shows "y + (max f t - t) \<le> s \<and> s < y + (max f t - t) + (min e (t + h) - max f t)
    \<longleftrightarrow> (y \<le> s \<and> s < y + h) \<and> f \<le> t + (s - y) \<and> t + (s - y) < e"
  using assms by (auto simp: min_def max_def split: if_splits)

text \<open>One rectangle covers the rows from \<open>first\<close> to \<open>last\<close> and the columns from \<open>left\<close> to \<open>right\<close>
  that the pane shows, and no other cell of the screen.\<close>

lemma visible_rect_covers:
  fixes top_row :: u32
  assumes R: "rect_library_ok R" and fits: "rect_fits inner"
    and rows: "unat top_row + unat (rect_height inner) < 2 ^ 32"
  shows "in_rect (visible_rect R inner top_row (saturating_add top_row (ucast (rect_height inner))) f e l r) (sx, sy)
    \<longleftrightarrow> in_rect inner (sx, sy)
        \<and> unat f \<le> unat top_row + (sy - unat (rect_y inner)) \<and> unat top_row + (sy - unat (rect_y inner)) < unat e
        \<and> unat l \<le> sx - unat (rect_x inner) \<and> sx - unat (rect_x inner) < unat r"
proof -
  define b where "b = saturating_add top_row (ucast (rect_height inner) :: u32)"
  have b: "unat b = unat top_row + unat (rect_height inner)"
    using rows by (simp add: b_def unat_saturating_add)
  define f' e' l' r' where "f' = max f top_row" and "e' = min e b"
    and "l' = min l (rect_width inner)" and "r' = min r (rect_width inner)"
  note defs = f'_def e'_def l'_def r'_def
  have nats: "unat f' = max (unat f) (unat top_row)" "unat e' = min (unat e) (unat b)"
    "unat l' = min (unat l) (unat (rect_width inner))" "unat r' = min (unat r) (unat (rect_width inner))"
    by (auto simp: defs max_def min_def word_le_nat_alt)
  show ?thesis
  proof (cases "f' \<ge> e' \<or> l' \<ge> r'")
    case True
    then have "visible_rect R inner top_row b f e l r = rect_default R"
      by (simp add: visible_rect_def Let_def defs)
    moreover from True have "unat f' \<ge> unat e' \<or> unat l' \<ge> unat r'" by (simp add: word_le_nat_alt)
    ultimately show ?thesis
      using rect_default_covers_nothing [OF R] b nats unfolding b_def [symmetric]
      by (auto simp: in_rect_def)
  next
    case False
    then have lt: "unat f' < unat e'" "unat l' < unat r'" by (auto simp: word_le_nat_alt)
    define q where "q = \<lparr>rect_x = rect_x inner + l', rect_y = rect_y inner + ucast (f' - top_row),
      rect_width = r' - l', rect_height = (ucast (e' - f') :: u16)\<rparr>"
    have h: "unat (rect_height inner) < 2 ^ 16" "unat (rect_width inner) < 2 ^ 16"
      using unat_lt_pow [of "rect_height inner"] unat_lt_pow [of "rect_width inner"] by simp_all
    have ord: "top_row \<le> f'" "f' \<le> e'" "l' \<le> r'"
      using lt by (simp_all add: word_le_nat_alt nats)
    have ft: "unat (f' - top_row) = unat f' - unat top_row" "unat (e' - f') = unat e' - unat f'"
      "unat (r' - l') = unat r' - unat l'"
      using ord by (simp_all add: unat_sub)
    have small: "unat (f' - top_row) < 2 ^ 16" "unat (e' - f') < 2 ^ 16"
      using ft lt nats b h by linarith+
    have sums: "unat (rect_x inner) + unat l' < 2 ^ 16"
      "unat (rect_y inner) + (unat f' - unat top_row) < 2 ^ 16"
      using fits lt nats b unfolding rect_fits_def by linarith+
    have q: "unat (rect_x q) = unat (rect_x inner) + unat l'"
      "unat (rect_y q) = unat (rect_y inner) + (unat f' - unat top_row)"
      "unat (rect_width q) = unat r' - unat l'" "unat (rect_height q) = unat e' - unat f'"
      using sums small by (simp_all add: q_def ft unat_ucast_32_16 unat_add_exact)
    have "rect_fits q"
      using fits lt nats b unfolding rect_fits_def q by linarith
    then have "rect_new R (rect_x inner + l') (rect_y inner + ucast (f' - top_row)) (r' - l') (ucast (e' - f')) = q"
      using R unfolding rect_library_ok_def q_def by blast
    then have eq: "visible_rect R inner top_row b f e l r = q"
      using False by (simp add: visible_rect_def Let_def defs)
    show ?thesis
      using clip_columns [OF lt(2) [unfolded nats], of "unat (rect_x inner)" sx]
        clip_rows [OF lt(1) [unfolded nats b], of "unat (rect_y inner)" sy]
      unfolding b_def [symmetric] eq in_rect_def q nats b fst_conv snd_conv by blast
  qed
qed

text \<open>Which cells of the screen buffer a selection contains, in natural numbers.\<close>

definition in_reading_order :: "cell_pos \<times> cell_pos \<Rightarrow> nat \<times> nat \<Rightarrow> bool" where
  "in_reading_order b c =
     (case (b, c) of (((sr, sc), (er, ec)), (row, col)) \<Rightarrow>
        (unat sr < row \<or> (unat sr = row \<and> unat sc \<le> col))
        \<and> (row < unat er \<or> (row = unat er \<and> col \<le> unat ec)))"

lemma ordered_cases:
  obtains sr sc er ec where "ordered s = ((sr, sc), (er, ec))"
    and "unat sr < unat er \<or> (sr = er \<and> unat sc \<le> unat ec)"
proof -
  obtain ar ac cr cc where "sel_anchor s = (ar, ac)" "sel_cursor s = (cr, cc)"
    by (cases "sel_anchor s"; cases "sel_cursor s")
  then show thesis
    using that [of ar ac cr cc] that [of cr cc ar ac] linear [of ar cr] linear [of ac cc]
    by (simp add: ordered_def word_less_nat_alt [symmetric] word_le_nat_alt [symmetric])
       (metis le_less)
qed

lemma contains_reading_order:
  assumes "unat (viewport_top_row metrics) + unat row < 2 ^ 32"
  shows "contains s row col metrics
    \<longleftrightarrow> is_visible s \<and> in_reading_order (ordered s) (unat (viewport_top_row metrics) + unat row, unat col)"
proof -
  obtain sr sc er ec where o: "ordered s = ((sr, sc), (er, ec))"
    and le: "unat sr < unat er \<or> (sr = er \<and> unat sc \<le> unat ec)" by (rule ordered_cases)
  have row: "unat (absolute_row_for_viewport_row row metrics) = unat (viewport_top_row metrics) + unat row"
    using assms by (simp add: absolute_row_for_viewport_row_def unat_add_exact)
  show ?thesis
    using le by (auto simp: contains_def in_reading_order_def o row word_less_nat_alt word_le_nat_alt
        word_unat_eq_iff Let_def)
qed

lemma visible_rects_cover:
  assumes R: "rect_library_ok R" and fits: "rect_fits inner"
    and rows: "unat (viewport_top_row metrics) + unat (rect_height inner) < 2 ^ 32"
  shows "length (filter (\<lambda>q. in_rect q (sx, sy)) (visible_rects R s inner metrics))
    = (if is_visible s \<and> in_rect inner (sx, sy)
          \<and> in_reading_order (ordered s)
               (unat (viewport_top_row metrics) + (sy - unat (rect_y inner)), sx - unat (rect_x inner))
       then 1 else 0)"
proof -
  obtain sr sc er ec where o: "ordered s = ((sr, sc), (er, ec))"
    and le: "unat sr < unat er \<or> (sr = er \<and> unat sc \<le> unat ec)" by (rule ordered_cases)
  note cover = visible_rect_covers [OF R fits rows]
  note no_cells = rect_default_covers_nothing [OF R]
  have lim: "unat sr < 2 ^ 32" "unat er < 2 ^ 32" "unat ec < 2 ^ 16"
    using unat_lt_pow [of sr] unat_lt_pow [of er] unat_lt_pow [of ec] by simp_all
  show ?thesis
  proof (cases "is_visible s \<and> in_rect inner (sx, sy)")
    case True
    then have shown: "\<not> rect_is_empty R inner" "is_visible s" "in_rect inner (sx, sy)"
      using R by (auto simp: rect_library_ok_def in_rect_def)
    define row col where "row = unat (viewport_top_row metrics) + (sy - unat (rect_y inner))"
      and "col = sx - unat (rect_x inner)"
    have cell: "row < 2 ^ 32 - 1" "col < 2 ^ 16 - 1" "col < unat (rect_width inner)"
      using shown(3) rows unat_lt_pow [of "rect_width inner"]
      unfolding in_rect_def row_def col_def by auto
    have covered: "in_rect (visible_rect R inner (viewport_top_row metrics)
          (saturating_add (viewport_top_row metrics) (ucast (rect_height inner))) f e l r) (sx, sy)
        \<longleftrightarrow> unat f \<le> row \<and> row < unat e \<and> unat l \<le> col \<and> col < unat r" for f e l r
      unfolding cover row_def col_def using shown(3) by simp
    have last_col: "col < unat (saturating_add ec 1) \<longleftrightarrow> col \<le> unat ec"
      and next_row: "unat (saturating_add sr 1) \<le> row \<longleftrightarrow> unat sr < row"
      and on_row: "row < unat (saturating_add sr 1) \<longleftrightarrow> row \<le> unat sr"
        "row < unat (saturating_add er 1) \<longleftrightarrow> row \<le> unat er"
      using cell unfolding unat_saturating_add by (auto simp: min_def)
    note facts = visible_rects_def Let_def shown o covered last_col next_row on_row in_reading_order_def
      row_def [symmetric] col_def [symmetric]
    show ?thesis
    proof (cases "sr = er")
      case same: True
      show ?thesis
        using le same no_cells [of "(sx, sy)"]
        by (auto simp: facts)
    next
      case False
      with le have "unat sr < unat er" by simp
      then show ?thesis
        using False cell(3)
        by (auto simp: facts)
    qed
  next
    case False
    then show ?thesis by (auto simp: visible_rects_def Let_def o cover no_cells)
  qed
qed

subsection \<open>Dragging\<close>

lemma checked_clamp_in_pane:
  fixes v x w :: u16
  assumes "unat x + unat w < 2 ^ 16" and "0 < unat w"
  obtains c where "checked_clamp v x (x + saturating_sub w 1) = Some c"
    and "unat x \<le> unat c" and "unat c < unat x + unat w"
    and "unat x \<le> unat v \<and> unat v < unat x + unat w \<longrightarrow> c = v"
proof -
  have hi: "unat (x + saturating_sub w 1) = unat x + (unat w - 1)"
    using assms by (simp add: unat_add_exact unat_saturating_sub)
  then have le: "x \<le> x + saturating_sub w 1" by (simp add: word_le_nat_alt)
  from clamp_range [OF le, of v]
  have range: "unat x \<le> unat (clamp x (x + saturating_sub w 1) v)"
    "unat (clamp x (x + saturating_sub w 1) v) \<le> unat x + (unat w - 1)"
    by (simp_all add: word_le_nat_alt hi)
  have same: "clamp x (x + saturating_sub w 1) v = v" if "unat x \<le> unat v \<and> unat v < unat x + unat w"
    using that by (intro clamp_id) (auto simp: word_le_nat_alt hi)
  show thesis
    by (rule that [of "clamp x (x + saturating_sub w 1) v"])
       (use le range same assms(2) in \<open>auto simp: checked_clamp_def\<close>)
qed



lemma absolute_row_exact:
  "unat (viewport_top_row metrics) + unat r < 2 ^ 32 \<Longrightarrow>
   unat (absolute_row_for_viewport_row r metrics) = unat (viewport_top_row metrics) + unat r"
  by (simp add: absolute_row_for_viewport_row_def unat_add_exact)


lemma drag_panics:
  "drag s sx sy inner metrics = None \<longleftrightarrow>
     2 ^ 16 \<le> unat (rect_x inner) + (unat (rect_width inner) - 1)
     \<or> 2 ^ 16 \<le> unat (rect_y inner) + (unat (rect_height inner) - 1)"
proof -
  have wraps: "\<not> x \<le> x + saturating_sub w 1 \<longleftrightarrow> 2 ^ 16 \<le> unat x + (unat w - 1)" for x w :: u16
    using unat_lt_pow [of x] unat_lt_pow [of w]
    by (cases "unat x + (unat w - 1) < 2 ^ 16")
       (auto simp: word_le_nat_alt unat_word_ariths unat_saturating_sub le_mod_geq)
  show ?thesis
    unfolding wraps [symmetric]
    by (auto simp: drag_def clamp_to_pane_def checked_clamp_def Let_def)
qed

subsection \<open>Properties\<close>

text \<open>
C16. The rectangles drawn for a selection and its cell test agree: a cell of the screen is in
exactly one of the rectangles when it is a cell of the pane that the selection contains, and in
none otherwise, for a pane that fits the screen and a scrollback that fits 32 bits.
\<close>

theorem highlight_rects_equal_cells:
  assumes "rect_library_ok R" and "rect_fits inner"
    and "unat (viewport_top_row metrics) + unat (rect_height inner) < 2 ^ 32"
  shows "length (filter (\<lambda>q. in_rect q (sx, sy)) (visible_rects R s inner metrics))
    = (if in_rect inner (sx, sy)
          \<and> contains s (of_nat (sy - unat (rect_y inner))) (of_nat (sx - unat (rect_x inner))) metrics
       then 1 else 0)"
proof (cases "in_rect inner (sx, sy)")
  case True
  define r c where "r = sy - unat (rect_y inner)" and "c = sx - unat (rect_x inner)"
  have lt: "r < unat (rect_height inner)" "c < unat (rect_width inner)"
    using True by (auto simp: in_rect_def r_def c_def)
  then have rc: "unat (of_nat r :: u16) = r" "unat (of_nat c :: u16) = c"
    using unat_lt_pow [of "rect_height inner"] unat_lt_pow [of "rect_width inner"]
    by (simp_all add: unat_of_nat)
  have "unat (viewport_top_row metrics) + unat (of_nat r :: u16) < 2 ^ 32"
    using assms(3) lt(1) rc(1) by linarith
  from contains_reading_order [OF this, of s "of_nat c"] show ?thesis
    unfolding visible_rects_cover [OF assms] using True rc
    by (simp add: r_def [symmetric] c_def [symmetric])
qed (simp add: visible_rects_cover [OF assms])

definition demo_rects :: "unit ratatui_rects" where
  "demo_rects = \<lparr>rect_new = (\<lambda>x y w h. \<lparr>rect_x = x, rect_y = y, rect_width = w, rect_height = h\<rparr>),
     borders_none = (), rect_default = \<lparr>rect_x = 0, rect_y = 0, rect_width = 0, rect_height = 0\<rparr>,
     rect_is_empty = (\<lambda>r. rect_width r = 0 \<or> rect_height r = 0)\<rparr>"

definition demo_inner :: rect where
  "demo_inner = \<lparr>rect_x = 3, rect_y = 2, rect_width = 10, rect_height = 4\<rparr>"

definition demo_metrics :: "scroll_metrics option" where
  "demo_metrics = Some \<lparr>offset_from_bottom = 5, max_offset_from_bottom = 105, viewport_rows = 4\<rparr>"

lemma demo_selection_facts:
  "rect_library_ok demo_rects" "rect_fits demo_inner" "viewport_top_row demo_metrics = 100"
  by (simp_all add: rect_library_ok_def demo_rects_def rect_fits_def demo_inner_def viewport_top_row_def
      demo_metrics_def saturating_sub_def)

theorem highlight_rects_equal_cells_witness:
  "length (filter (\<lambda>q. in_rect q (5, 3))
      (visible_rects demo_rects (absolute_range () (100, 4) (102, 1)) demo_inner demo_metrics)) = 1"
  using highlight_rects_equal_cells [OF demo_selection_facts(1,2), of demo_metrics 5 3
      "absolute_range () (100, 4) (102, 1)"]
  unfolding demo_selection_facts(3)
  by (simp add: demo_inner_def in_rect_def contains_def absolute_range_def is_visible_def ordered_def
      absolute_row_for_viewport_row_def demo_selection_facts(3))


theorem anchor_screen_pos_roundtrip:
  assumes "rect_fits inner"
    and "unat (viewport_top_row metrics) + unat (rect_height inner) < 2 ^ 32"
    and "unat row < unat (rect_height inner)" and "unat col < unat (rect_width inner)"
  shows "anchor_screen_pos (anchor pid row col metrics) inner metrics
    = Some (rect_y inner + row, rect_x inner + col)"
proof -
  have sums: "unat (rect_x inner) + unat (rect_width inner) < 2 ^ 16"
    "unat (rect_y inner) + unat (rect_height inner) < 2 ^ 16"
    using assms(1) by (auto simp: rect_fits_def)
  have lim: "unat (viewport_top_row metrics) + unat row < 2 ^ 32" using assms(2,3) by linarith
  have above: "saturating_sub (absolute_row_for_viewport_row row metrics) (viewport_top_row metrics) = ucast row"
    by (rule word_unat_eq_iff [THEN iffD2]) (simp add: unat_saturating_sub absolute_row_exact [OF lim])
  have back_row: "viewport_row_for_absolute_row (absolute_row_for_viewport_row row metrics) metrics = row"
    using unat_lt_pow [of row]
    by (simp add: viewport_row_for_absolute_row_def above Let_def word_unat_eq_iff unat_ucast_32_16)
  have sat: "saturating_add row (rect_y inner) = rect_y inner + row"
    "saturating_add col (rect_x inner) = rect_x inner + col"
  proof -
    have "unat row + unat (rect_y inner) < 2 ^ LENGTH(16)" "unat col + unat (rect_x inner) < 2 ^ LENGTH(16)"
      using sums assms(3,4) by simp_all
    then show "saturating_add row (rect_y inner) = rect_y inner + row"
      "saturating_add col (rect_x inner) = rect_x inner + col"
      unfolding saturating_add_def by (simp_all only: if_True add.commute)
  qed
  have at: "checked_clamp (x + v) x (x + saturating_sub w 1) = Some (x + v)"
    if lt: "unat x + unat w < 2 ^ 16" "unat v < unat w" for x v w :: u16
  proof -
    from lt have sum: "unat (x + v) = unat x + unat v" by (simp add: unat_add_exact)
    from lt have "0 < unat w" by simp
    then obtain c where "checked_clamp (x + v) x (x + saturating_sub w 1) = Some c"
      and "unat x \<le> unat (x + v) \<and> unat (x + v) < unat x + unat w \<longrightarrow> c = x + v"
      by (rule checked_clamp_in_pane [OF lt(1), where v = "x + v"])
    then show ?thesis using lt(2) sum by simp
  qed
  show ?thesis
    using at [OF sums(1) assms(4)] at [OF sums(2) assms(3)]
    by (simp add: anchor_screen_pos_def anchor_def Let_def back_row sat)
qed


theorem anchor_screen_pos_roundtrip_witness:
  "anchor_screen_pos (anchor () 1 6 demo_metrics) demo_inner demo_metrics = Some (3, 9)"
  using anchor_screen_pos_roundtrip [OF demo_selection_facts(2), of demo_metrics 1 6 "()"]
  unfolding demo_selection_facts(3) by (simp add: demo_inner_def)

end
