(* ===== verification/Agent_View.thy ===== *)
theory Agent_View
  imports App_Info
begin

text \<open>
  The agent view: a filter and an order for the list of agents, set by a client or a plugin
  (\<^verbatim>\<open>runtime/src/agent_view_eval.rs\<close>, \<^verbatim>\<open>runtime/src/app/agent_view.rs\<close>,
  \<^verbatim>\<open>runtime/src/app/api/agent_view.rs\<close>, the types of \<^verbatim>\<open>runtime/src/api/schema/agents.rs\<close>).

  A request is validated (\<open>validate_agent_view\<close>) before it replaces the view; the view is evaluated on
  every listing (\<open>apply_agent_view\<close>).  The theory shows what validation guarantees to evaluation: the size of
  an accepted filter is bounded, and the two sides of every comparison have the same type.  The comparison
  of entries is a total preorder, which \<open>slice::sort_by\<close> needs for its result to be specified; the
  interface \<open>comparison\<close> states it, and the laws of the stable sort are proved once in it.

  The trait \<open>AgentViewEntry\<close> is the record \<open>agent_view_entry\<close> of its answers.  Installed plugins are a
  table from ids to whether the plugin is enabled, which is all this component reads of them.
\<close>

subsection \<open>Data\<close>

datatype agent_view_builtin_field =
  FStatus | FWorkspaceId | FTabId | FPaneId | FAgent | FSeen | FStateChangeSeq

datatype agent_view_field = BuiltinField agent_view_builtin_field | TokenField string

datatype view_context_value = CurrentWorkspaceId | CurrentTabId

datatype agent_view_value = StringValue string | BoolValue bool | NumberValue u64 | ContextValue view_context_value

datatype agent_view_filter =
    All "agent_view_filter list"
  | Any "agent_view_filter list"
  | NotF agent_view_filter
  | EqF agent_view_field agent_view_value
  | InF agent_view_field "agent_view_value list"
  | Exists agent_view_field

datatype agent_view_builtin_sort_field =
  SWorkspaceOrder | STabOrder | SPaneOrder | SAttention | SStatus | SAgent | SSeen | SStateChangeSeq

datatype agent_view_sort_field = BuiltinSort agent_view_builtin_sort_field | TokenSort string

datatype agent_view_sort_order = Asc | Desc

record agent_view_sort =
  sort_field :: agent_view_sort_field
  sort_order :: agent_view_sort_order

record agent_view_set_params =
  view_source :: string
  view_label :: "string option"
  view_filter :: "agent_view_filter option"
  view_sort :: "agent_view_sort list"

record agent_view_context =
  ctx_scope :: nat
  ctx_workspace_id :: "string option"
  ctx_tab_id :: "string option"

record agent_view_entry =
  entry_scope :: nat
  entry_status :: string
  entry_workspace_id :: "string option"
  entry_tab_id :: "string option"
  entry_pane_id :: "string option"
  entry_agent :: "string option"
  entry_seen :: bool
  entry_state_change_seq :: "u64 option"
  entry_token :: "string \<Rightarrow> string option"
  entry_workspace_order :: "u64 option"
  entry_tab_order :: "u64 option"
  entry_pane_order :: "u64 option"
  entry_attention :: u64

datatype eval_value = VString string | VScopedId nat string | VBool bool | VNumber u64

subsection \<open>Evaluation of a filter\<close>

definition is_id_field :: "agent_view_field \<Rightarrow> bool" where
  "is_id_field field =
     (case field of
        BuiltinField FWorkspaceId \<Rightarrow> True | BuiltinField FTabId \<Rightarrow> True | BuiltinField FPaneId \<Rightarrow> True
      | _ \<Rightarrow> False)"

definition field_value :: "agent_view_entry \<Rightarrow> agent_view_field \<Rightarrow> eval_value option" where
  "field_value entry field =
     (case field of
        BuiltinField FStatus \<Rightarrow> Some (VString (entry_status entry))
      | BuiltinField FWorkspaceId \<Rightarrow> map_option (VScopedId (entry_scope entry)) (entry_workspace_id entry)
      | BuiltinField FTabId \<Rightarrow> map_option (VScopedId (entry_scope entry)) (entry_tab_id entry)
      | BuiltinField FPaneId \<Rightarrow> map_option (VScopedId (entry_scope entry)) (entry_pane_id entry)
      | BuiltinField FAgent \<Rightarrow> map_option VString (entry_agent entry)
      | BuiltinField FSeen \<Rightarrow> Some (VBool (entry_seen entry))
      | BuiltinField FStateChangeSeq \<Rightarrow> map_option VNumber (entry_state_change_seq entry)
      | TokenField token \<Rightarrow> map_option VString (entry_token entry token))"

definition operand_value ::
    "agent_view_context \<Rightarrow> agent_view_field \<Rightarrow> agent_view_value \<Rightarrow> eval_value option" where
  "operand_value ctx field v =
     (case v of
        StringValue s \<Rightarrow> if is_id_field field then Some (VScopedId (ctx_scope ctx) s) else Some (VString s)
      | BoolValue b \<Rightarrow> Some (VBool b)
      | NumberValue n \<Rightarrow> Some (VNumber n)
      | ContextValue CurrentWorkspaceId \<Rightarrow> map_option (VScopedId (ctx_scope ctx)) (ctx_workspace_id ctx)
      | ContextValue CurrentTabId \<Rightarrow> map_option (VScopedId (ctx_scope ctx)) (ctx_tab_id ctx))"

fun matches_filter :: "agent_view_context \<Rightarrow> agent_view_entry \<Rightarrow> agent_view_filter \<Rightarrow> bool" where
  "matches_filter ctx entry (All filters) = (\<forall>f \<in> set filters. matches_filter ctx entry f)"
| "matches_filter ctx entry (Any filters) = (\<exists>f \<in> set filters. matches_filter ctx entry f)"
| "matches_filter ctx entry (NotF f) = (\<not> matches_filter ctx entry f)"
| "matches_filter ctx entry (EqF field v) = (field_value entry field = operand_value ctx field v)"
| "matches_filter ctx entry (InF field vs) =
     (let actual = field_value entry field in \<exists>v \<in> set vs. actual = operand_value ctx field v)"
| "matches_filter ctx entry (Exists field) = (field_value entry field \<noteq> None)"

subsection \<open>Comparison of entries\<close>

datatype ordering = Less | Equal | Greater

fun reverse_ordering :: "ordering \<Rightarrow> ordering" where
  "reverse_ordering Less = Greater"
| "reverse_ordering Equal = Equal"
| "reverse_ordering Greater = Less"

definition cmp_by :: "('a \<Rightarrow> 'b::linorder) \<Rightarrow> 'a \<Rightarrow> 'a \<Rightarrow> ordering" where
  "cmp_by k a b = (if k a < k b then Less else if k a = k b then Equal else Greater)"

definition then_cmp :: "ordering \<Rightarrow> ordering \<Rightarrow> ordering" where
  "then_cmp a b = (if a = Equal then b else a)"

fun cmp_bytes :: "string \<Rightarrow> string \<Rightarrow> ordering" where
  "cmp_bytes [] [] = Equal"
| "cmp_bytes [] (_ # _) = Less"
| "cmp_bytes (_ # _) [] = Greater"
| "cmp_bytes (a # s) (b # t) = then_cmp (cmp_by (\<lambda>c. of_char c :: nat) a b) (cmp_bytes s t)"

text \<open>The derived order of \<open>EvalValue\<close>: first the variants as declared, then their fields.\<close>

definition variant_rank :: "eval_value \<Rightarrow> nat" where
  "variant_rank v = (case v of VString _ \<Rightarrow> 0 | VScopedId _ _ \<Rightarrow> 1 | VBool _ \<Rightarrow> 2 | VNumber _ \<Rightarrow> 3)"

definition cmp_eval_value :: "eval_value \<Rightarrow> eval_value \<Rightarrow> ordering" where
  "cmp_eval_value v w =
     (case (v, w) of
        (VString s, VString t) \<Rightarrow> cmp_bytes s t
      | (VScopedId i s, VScopedId j t) \<Rightarrow> then_cmp (cmp_by (\<lambda>n. n) i j) (cmp_bytes s t)
      | (VBool a, VBool b) \<Rightarrow> cmp_by (\<lambda>n. n) a b
      | (VNumber m, VNumber n) \<Rightarrow> cmp_by (\<lambda>n. n) m n
      | _ \<Rightarrow> cmp_by variant_rank v w)"

definition compare_optional_values ::
    "eval_value option \<Rightarrow> eval_value option \<Rightarrow> agent_view_sort_order \<Rightarrow> ordering" where
  "compare_optional_values left right order =
     (case (left, right) of
        (Some l, Some r) \<Rightarrow>
          (let ord = cmp_eval_value l r in if order = Desc then reverse_ordering ord else ord)
      | (Some _, None) \<Rightarrow> Less
      | (None, Some _) \<Rightarrow> Greater
      | (None, None) \<Rightarrow> Equal)"

definition sort_value :: "agent_view_entry \<Rightarrow> agent_view_sort_field \<Rightarrow> eval_value option" where
  "sort_value entry field =
     (case field of
        TokenSort token \<Rightarrow> map_option VString (entry_token entry token)
      | BuiltinSort SWorkspaceOrder \<Rightarrow> map_option VNumber (entry_workspace_order entry)
      | BuiltinSort STabOrder \<Rightarrow> map_option VNumber (entry_tab_order entry)
      | BuiltinSort SPaneOrder \<Rightarrow> map_option VNumber (entry_pane_order entry)
      | BuiltinSort SAttention \<Rightarrow> Some (VNumber (entry_attention entry))
      | BuiltinSort SStatus \<Rightarrow> Some (VString (entry_status entry))
      | BuiltinSort SAgent \<Rightarrow> map_option VString (entry_agent entry)
      | BuiltinSort SSeen \<Rightarrow> Some (VBool (entry_seen entry))
      | BuiltinSort SStateChangeSeq \<Rightarrow> map_option VNumber (entry_state_change_seq entry))"

fun compare_entries :: "agent_view_entry \<Rightarrow> agent_view_entry \<Rightarrow> agent_view_sort list \<Rightarrow> ordering" where
  "compare_entries left right [] = Equal"
| "compare_entries left right (s # sorts) =
     (let ord = compare_optional_values (sort_value left (sort_field s)) (sort_value right (sort_field s))
                  (sort_order s)
      in if ord \<noteq> Equal then ord else compare_entries left right sorts)"

text \<open>\<open>slice::sort_by\<close>, a stable sort.\<close>

fun insert_by :: "('a \<Rightarrow> 'a \<Rightarrow> ordering) \<Rightarrow> 'a \<Rightarrow> 'a list \<Rightarrow> 'a list" where
  "insert_by cmp x [] = [x]"
| "insert_by cmp x (y # ys) = (if cmp x y = Greater then y # insert_by cmp x ys else x # y # ys)"

definition sort_by :: "('a \<Rightarrow> 'a \<Rightarrow> ordering) \<Rightarrow> 'a list \<Rightarrow> 'a list" where
  "sort_by cmp xs = foldr (insert_by cmp) xs []"

subsection \<open>Validation\<close>

definition MAX_FILTER_DEPTH :: nat where "MAX_FILTER_DEPTH = 8"
definition MAX_FILTER_NODES :: nat where "MAX_FILTER_NODES = 64"
definition MAX_FILTER_VALUES :: nat where "MAX_FILTER_VALUES = 32"
definition MAX_SORT_FIELDS :: nat where "MAX_SORT_FIELDS = 8"
definition MAX_SOURCE_CHARS :: nat where "MAX_SOURCE_CHARS = 120"
definition MAX_LABEL_CHARS :: nat where "MAX_LABEL_CHARS = 32"

text \<open>\<open>s.chars().count()\<close>: the bytes that begin a character; and the removal of control characters.\<close>

definition chars_count :: "string \<Rightarrow> nat" where
  "chars_count s = length (filter (\<lambda>c. \<not> (0x80 \<le> (of_char c :: nat) \<and> (of_char c :: nat) < 0xC0)) s)"

fun drop_controls :: "string \<Rightarrow> string" where
  "drop_controls [] = []"
| "drop_controls [c] = (if ascii_ctl c then [] else [c])"
| "drop_controls (c # d # s) =
     (if ascii_ctl c then drop_controls (d # s)
      else if (of_char c :: nat) = 0xC2 \<and> 0x80 \<le> (of_char d :: nat) \<and> (of_char d :: nat) \<le> 0x9F
      then drop_controls s
      else c # drop_controls (d # s))"

definition source_char :: "char \<Rightarrow> bool" where
  "source_char c \<longleftrightarrow> is_ascii_alphanumeric c \<or> c \<in> set '':._-''"

definition normalize_source :: "string \<Rightarrow> string + string" where
  "normalize_source source =
     (let s = trim source
      in if s = [] \<or> chars_count s > MAX_SOURCE_CHARS \<or> \<not> list_all source_char s
         then Inl ''agent view source must be non-empty, at most 120 characters, and contain only ASCII letters, digits, colon, dot, underscore, or hyphen''
         else Inr s)"

definition validate_agent_view_source :: "string \<Rightarrow> string + string" where
  "validate_agent_view_source source = normalize_source source"

definition normalize_label :: "string \<Rightarrow> string + string" where
  "normalize_label label =
     (let l = drop_controls (trim label)
      in if l = [] \<or> chars_count l > MAX_LABEL_CHARS
         then Inl ''agent view label must be non-empty and at most 32 characters''
         else Inr l)"

definition token_char :: "char \<Rightarrow> bool" where
  "token_char c \<longleftrightarrow> is_ascii_alphanumeric c \<or> c \<in> set ''_-''"

definition validate_token :: "string \<Rightarrow> string + unit" where
  "validate_token token =
     (if token = [] \<or> length token > 32 \<or> \<not> list_all token_char token
      then Inl (''invalid agent view token `'' @ token @ ''`'') else Inr ())"

definition validate_field :: "agent_view_field \<Rightarrow> string + unit" where
  "validate_field field = (case field of TokenField token \<Rightarrow> validate_token token | _ \<Rightarrow> Inr ())"

definition status_names :: "string list" where
  "status_names = [''idle'', ''working'', ''blocked'', ''done'', ''unknown'']"

definition validate_field_value :: "agent_view_field \<Rightarrow> agent_view_value \<Rightarrow> string + unit" where
  "validate_field_value field v =
     (case validate_field field of
        Inl e \<Rightarrow> Inl e
      | Inr _ \<Rightarrow>
          (case (field, v) of
             (BuiltinField FWorkspaceId, ContextValue CurrentWorkspaceId) \<Rightarrow> Inr ()
           | (BuiltinField FTabId, ContextValue CurrentTabId) \<Rightarrow> Inr ()
           | (_, ContextValue _) \<Rightarrow> Inl ''agent view context type does not match the selected field''
           | (BuiltinField FSeen, BoolValue _) \<Rightarrow> Inr ()
           | (BuiltinField FStateChangeSeq, NumberValue _) \<Rightarrow> Inr ()
           | (BuiltinField FStatus, StringValue s) \<Rightarrow>
               if s \<in> set status_names then Inr () else Inl (''unknown agent status `'' @ s @ ''`'')
           | (BuiltinField FWorkspaceId, StringValue _) \<Rightarrow> Inr ()
           | (BuiltinField FTabId, StringValue _) \<Rightarrow> Inr ()
           | (BuiltinField FPaneId, StringValue _) \<Rightarrow> Inr ()
           | (BuiltinField FAgent, StringValue _) \<Rightarrow> Inr ()
           | (TokenField _, StringValue _) \<Rightarrow> Inr ()
           | _ \<Rightarrow> Inl ''agent view value type does not match the selected field''))"

text \<open>A \<open>for\<close> loop whose body may fail: the first error ends it.\<close>

fun try_each :: "('a \<Rightarrow> string + unit) \<Rightarrow> 'a list \<Rightarrow> string + unit" where
  "try_each f [] = Inr ()"
| "try_each f (x # xs) = (case f x of Inl e \<Rightarrow> Inl e | Inr _ \<Rightarrow> try_each f xs)"

text \<open>The count of nodes is passed and returned.\<close>

fun validate_filter :: "agent_view_filter \<Rightarrow> nat \<Rightarrow> nat \<Rightarrow> string + nat"
  and validate_filters :: "agent_view_filter list \<Rightarrow> nat \<Rightarrow> nat \<Rightarrow> string + nat" where
  "validate_filter f depth nodes =
     (if depth > MAX_FILTER_DEPTH then Inl ''agent view filter may be nested at most 8 levels''
      else
        let nodes = nodes + 1
        in if nodes > MAX_FILTER_NODES then Inl ''agent view filter may contain at most 64 nodes''
           else
             case f of
               All fs \<Rightarrow> if fs = [] then Inl ''agent view all/any filters must not be empty''
                          else validate_filters fs (depth + 1) nodes
             | Any fs \<Rightarrow> if fs = [] then Inl ''agent view all/any filters must not be empty''
                          else validate_filters fs (depth + 1) nodes
             | NotF g \<Rightarrow> validate_filter g (depth + 1) nodes
             | EqF field v \<Rightarrow> map_sum (\<lambda>e. e) (\<lambda>_. nodes) (validate_field_value field v)
             | InF field vs \<Rightarrow>
                 if vs = [] \<or> length vs > MAX_FILTER_VALUES
                 then Inl ''agent view in filters require 1 to 32 values''
                 else map_sum (\<lambda>e. e) (\<lambda>_. nodes) (try_each (validate_field_value field) vs)
             | Exists field \<Rightarrow> map_sum (\<lambda>e. e) (\<lambda>_. nodes) (validate_field field))"
| "validate_filters [] depth nodes = Inr nodes"
| "validate_filters (f # fs) depth nodes =
     (case validate_filter f depth nodes of
        Inl e \<Rightarrow> Inl e | Inr nodes' \<Rightarrow> validate_filters fs depth nodes')"

definition validate_sort_field :: "agent_view_sort_field \<Rightarrow> string + unit" where
  "validate_sort_field field = (case field of TokenSort token \<Rightarrow> validate_token token | _ \<Rightarrow> Inr ())"

definition validate_agent_view :: "agent_view_set_params \<Rightarrow> string + agent_view_set_params" where
  "validate_agent_view spec =
     (case normalize_source (view_source spec) of
        Inl e \<Rightarrow> Inl e
      | Inr source \<Rightarrow>
          (case (case view_label spec of
                   None \<Rightarrow> Inr None | Some l \<Rightarrow> map_sum (\<lambda>e. e) Some (normalize_label l)) of
             Inl e \<Rightarrow> Inl e
           | Inr label \<Rightarrow>
               (case (case view_filter spec of None \<Rightarrow> Inr 0 | Some f \<Rightarrow> validate_filter f 1 0) of
                  Inl e \<Rightarrow> Inl e
                | Inr _ \<Rightarrow>
                    if length (view_sort spec) > MAX_SORT_FIELDS
                    then Inl ''agent view sort may contain at most 8 fields''
                    else
                      (case try_each (\<lambda>s. validate_sort_field (sort_field s)) (view_sort spec) of
                         Inl e \<Rightarrow> Inl e
                       | Inr _ \<Rightarrow> Inr (spec\<lparr>view_source := source, view_label := label\<rparr>)))))"

subsection \<open>The view of the application\<close>

record agent_panel_entry =
  panel_ws_idx :: nat
  panel_tab_idx :: nat
  panel_pane_id :: pane_id
  panel_agent_kind_label :: "string option"
  panel_state :: agent_state
  panel_seen :: bool
  panel_last_agent_state_change_seq :: "u64 option"
  panel_tokens :: "(string, string) hmap"

datatype agent_panel_sort = Spaces | Priority

record agent_views =
  agent_view_override :: "agent_view_set_params option"
  agent_panel_sort :: agent_panel_sort
  plugin_enabled :: "(string, bool) hmap"

definition status_name :: "agent_state \<Rightarrow> bool \<Rightarrow> string" where
  "status_name s was_seen =
     (case s of
        Idle \<Rightarrow> if was_seen then ''idle'' else ''done''
      | Working \<Rightarrow> ''working'' | Blocked \<Rightarrow> ''blocked'' | Unknown \<Rightarrow> ''unknown'')"

definition presented_workspace_idx :: "('g, 'q, 'p, 'n, 'z) app_state_scheme \<Rightarrow> nat option" where
  "presented_workspace_idx a = active a"

definition evaluation_context :: "('g, 'q, 'p, 'n, 'z) app_state_scheme \<Rightarrow> agent_view_context" where
  "evaluation_context a =
     (let workspace = Option.bind (presented_workspace_idx a) (vec_get (workspaces a))
      in \<lparr>ctx_scope = 0, ctx_workspace_id = map_option ws_id workspace,
          ctx_tab_id = Option.bind workspace (\<lambda>ws.
            map_option (\<lambda>n. public_tab_id_for_number (ws_id ws) (unat n)) (public_tab_number ws (active_tab ws)))\<rparr>)"

definition app_agent_view_entry ::
    "('g, 'q, 'p, 'n, 'z) app_state_scheme \<Rightarrow> agent_panel_entry \<Rightarrow> agent_view_entry" where
  "app_agent_view_entry a e =
     (let workspace = vec_get (workspaces a) (panel_ws_idx e)
      in \<lparr>entry_scope = 0,
          entry_status = status_name (panel_state e) (panel_seen e),
          entry_workspace_id = map_option ws_id workspace,
          entry_tab_id = public_tab_id a (panel_ws_idx e) (panel_tab_idx e),
          entry_pane_id = public_pane_id a (panel_ws_idx e) (panel_pane_id e),
          entry_agent = panel_agent_kind_label e,
          entry_seen = panel_seen e,
          entry_state_change_seq = panel_last_agent_state_change_seq e,
          entry_token = hm_get (panel_tokens e),
          entry_workspace_order = Some (of_nat (panel_ws_idx e)),
          entry_tab_order = Option.bind workspace (\<lambda>ws. public_tab_number ws (panel_tab_idx e)),
          entry_pane_order = Option.bind workspace (\<lambda>ws. public_pane_number ws (panel_pane_id e)),
          entry_attention = of_nat (tab_attention_priority (panel_state e) (panel_seen e))\<rparr>)"

text \<open>The key of the priority order: \<open>(Reverse(priority), Reverse(last change))\<close>, with \<open>None\<close> least.\<close>

definition cmp_priority :: "agent_panel_entry \<Rightarrow> agent_panel_entry \<Rightarrow> ordering" where
  "cmp_priority l r =
     then_cmp (reverse_ordering (cmp_by (\<lambda>e. tab_attention_priority (panel_state e) (panel_seen e)) l r))
       (reverse_ordering
         (case (panel_last_agent_state_change_seq l, panel_last_agent_state_change_seq r) of
            (None, None) \<Rightarrow> Equal | (None, Some _) \<Rightarrow> Less | (Some _, None) \<Rightarrow> Greater
          | (Some m, Some n) \<Rightarrow> cmp_by (\<lambda>n. n) m n))"

definition apply_agent_view ::
    "('g, 'q, 'p, 'n, 'z) app_state_scheme \<Rightarrow> agent_views \<Rightarrow> agent_panel_entry list \<Rightarrow> agent_panel_entry list" where
  "apply_agent_view a views entries =
     (let kept = (case agent_view_override views of
                    None \<Rightarrow> entries
                  | Some spec \<Rightarrow>
                      (case view_filter spec of
                         None \<Rightarrow> entries
                       | Some f \<Rightarrow> filter (\<lambda>e. matches_filter (evaluation_context a) (app_agent_view_entry a e) f) entries));
          sorts = (case agent_view_override views of None \<Rightarrow> [] | Some spec \<Rightarrow> view_sort spec)
      in if sorts \<noteq> []
         then sort_by (\<lambda>l r. compare_entries (app_agent_view_entry a l) (app_agent_view_entry a r) sorts) kept
         else if agent_panel_sort views = Priority then sort_by cmp_priority kept
         else kept)"

subsection \<open>Requests\<close>

definition PLUGIN_ID_MAX_CHARS :: nat where "PLUGIN_ID_MAX_CHARS = 120"

definition normalize_identifier :: "string \<Rightarrow> nat \<Rightarrow> string option" where
  "normalize_identifier v max_chars =
     (let v = trim v
      in if v \<noteq> [] \<and> chars_count v \<le> max_chars \<and> list_all source_char v then Some v else None)"

definition normalize_plugin_id :: "string \<Rightarrow> string option" where
  "normalize_plugin_id v = normalize_identifier v PLUGIN_ID_MAX_CHARS"

datatype view_response =
    ViewError string string
  | ViewState bool "string option" "string option"

definition replace_agent_view_override :: "agent_view_set_params option \<Rightarrow> agent_views \<Rightarrow> agent_views" where
  "replace_agent_view_override view s = s\<lparr>agent_view_override := view\<rparr>"

definition handle_agent_view_set ::
    "agent_view_set_params \<Rightarrow> agent_views \<Rightarrow> agent_views \<times> view_response" where
  "handle_agent_view_set params s =
     (case validate_agent_view params of
        Inl e \<Rightarrow> (s, ViewError ''invalid_agent_view'' e)
      | Inr params \<Rightarrow>
          (let stored = (replace_agent_view_override (Some params) s,
                         ViewState True (Some (view_source params)) (view_label params))
           in case strip_prefix ''plugin:'' (view_source params) of
                None \<Rightarrow> stored
              | Some plugin_id \<Rightarrow>
                  (case normalize_plugin_id plugin_id of
                     None \<Rightarrow> (s, ViewError ''invalid_agent_view'' ''plugin-owned agent view source has an invalid plugin id'')
                   | Some plugin_id \<Rightarrow>
                       (case hm_get (plugin_enabled s) plugin_id of
                          None \<Rightarrow> (s, ViewError ''plugin_not_found'' ''plugin not found'')
                        | Some enabled \<Rightarrow>
                            if \<not> enabled then (s, ViewError ''plugin_disabled'' ''plugin is disabled'') else stored))))"

definition owned_by :: "string \<Rightarrow> agent_views \<Rightarrow> bool" where
  "owned_by source s \<longleftrightarrow>
     (case agent_view_override s of None \<Rightarrow> False | Some view \<Rightarrow> view_source view = source)"

definition handle_agent_view_clear :: "string option \<Rightarrow> agent_views \<Rightarrow> agent_views \<times> view_response" where
  "handle_agent_view_clear source s =
     (case (case source of None \<Rightarrow> Inr None
              | Some src \<Rightarrow> map_sum (\<lambda>e. e) Some (validate_agent_view_source src)) of
        Inl e \<Rightarrow> (s, ViewError ''invalid_agent_view'' e)
      | Inr source \<Rightarrow>
          (let s = (if (case source of None \<Rightarrow> True | Some src \<Rightarrow> owned_by src s)
                    then replace_agent_view_override None s else s);
               view = agent_view_override s
           in (s, ViewState (view \<noteq> None) (map_option view_source view) (Option.bind view view_label))))"

definition clear_agent_view_for_source :: "string \<Rightarrow> agent_views \<Rightarrow> agent_views \<times> bool" where
  "clear_agent_view_for_source source s =
     (if owned_by source s then (replace_agent_view_override None s, True) else (s, False))"

subsection \<open>Comparisons and the stable sort\<close>

lemma reverse_ordering_simps [simp]:
  "reverse_ordering (reverse_ordering x) = x"
  "reverse_ordering x = Equal \<longleftrightarrow> x = Equal" "reverse_ordering x = Less \<longleftrightarrow> x = Greater"
  "reverse_ordering x = Greater \<longleftrightarrow> x = Less"
  by (cases x; simp)+

locale comparison =
  fixes cmp :: "'a \<Rightarrow> 'a \<Rightarrow> ordering"
  assumes cmp_refl: "cmp a a = Equal"
    and cmp_reverse: "cmp b a = reverse_ordering (cmp a b)"
    and cmp_trans: "cmp a b \<noteq> Greater \<Longrightarrow> cmp b c \<noteq> Greater \<Longrightarrow> cmp a c \<noteq> Greater"
begin

lemma cmp_less_trans: "cmp a b = Less \<Longrightarrow> cmp b c \<noteq> Greater \<Longrightarrow> cmp a c = Less"
  using cmp_trans [of a b c] cmp_trans [of b c a] cmp_reverse [of c a] cmp_reverse [of b a]
  by (cases "cmp a c") auto

lemma cmp_equal_left: "cmp a b = Equal \<Longrightarrow> cmp a c = cmp b c"
  using cmp_trans [of a b c] cmp_trans [of b a c] cmp_trans [of c b a] cmp_trans [of c a b]
    cmp_reverse [of b a] cmp_reverse [of c a] cmp_reverse [of c b]
  by (cases "cmp a c"; cases "cmp b c") auto

lemma cmp_equal_right: "cmp a b = Equal \<Longrightarrow> cmp c a = cmp c b"
  using cmp_equal_left [of a b c] cmp_reverse [of c a] cmp_reverse [of c b] by simp

lemma mset_insert_by: "mset (insert_by cmp x ys) = add_mset x (mset ys)"
  by (induction ys) auto

lemma mset_sort_by: "mset (sort_by cmp xs) = mset xs"
  unfolding sort_by_def by (induction xs) (simp_all add: mset_insert_by)

lemma set_insert_by: "set (insert_by cmp x ys) = insert x (set ys)"
  by (induction ys) auto

lemma sorted_insert_by:
  "sorted_wrt (\<lambda>a b. cmp a b \<noteq> Greater) ys \<Longrightarrow> sorted_wrt (\<lambda>a b. cmp a b \<noteq> Greater) (insert_by cmp x ys)"
proof (induction ys)
  case (Cons y ys)
  show ?case
  proof (cases "cmp x y = Greater")
    case True
    then have "cmp y x = Less" by (simp add: cmp_reverse [of y x])
    with True Cons show ?thesis by (simp add: set_insert_by)
  next
    case False
    with Cons.prems show ?thesis using cmp_trans [of x y] by auto
  qed
qed simp

lemma sorted_sort_by: "sorted_wrt (\<lambda>a b. cmp a b \<noteq> Greater) (sort_by cmp xs)"
  unfolding sort_by_def by (induction xs) (simp_all add: sorted_insert_by)

lemma insert_by_stable:
  "filter (\<lambda>b. cmp a b = Equal) (insert_by cmp x ys) = filter (\<lambda>b. cmp a b = Equal) (x # ys)"
proof (induction ys)
  case (Cons y ys)
  have "\<not> (cmp a x = Equal \<and> cmp a y = Equal)" if "cmp x y = Greater"
    using that cmp_equal_left [of a x y] by auto
  with Cons show ?case by auto
qed simp

lemma sort_by_stable:
  "filter (\<lambda>b. cmp a b = Equal) (sort_by cmp xs) = filter (\<lambda>b. cmp a b = Equal) xs"
  unfolding sort_by_def by (induction xs) (simp_all add: insert_by_stable)

lemma pullback: "comparison (\<lambda>a b. cmp (f a) (f b))"
  by unfold_locales (auto simp: cmp_refl cmp_reverse [symmetric] dest: cmp_trans)

lemma reversed: "comparison (\<lambda>a b. reverse_ordering (cmp a b))"
proof
  fix a b c
  assume "reverse_ordering (cmp a b) \<noteq> Greater" and "reverse_ordering (cmp b c) \<noteq> Greater"
  then have "cmp c b \<noteq> Greater" "cmp b a \<noteq> Greater"
    using cmp_reverse [of c b] cmp_reverse [of b a] by auto
  then have "cmp c a \<noteq> Greater" by (rule cmp_trans)
  then show "reverse_ordering (cmp a c) \<noteq> Greater" using cmp_reverse [of c a] by simp
qed (simp_all add: cmp_refl cmp_reverse [symmetric])

end

lemma comparison_cmp_by: "comparison (cmp_by k)"
  by unfold_locales (auto simp: cmp_by_def split: if_splits)

lemma comparison_then:
  assumes "comparison c" and "comparison d"
  shows "comparison (\<lambda>a b. then_cmp (c a b) (d a b))"
proof -
  note C = comparison.cmp_refl [OF assms(1)] comparison.cmp_reverse [OF assms(1)]
  note D = comparison.cmp_refl [OF assms(2)] comparison.cmp_reverse [OF assms(2)]
  show ?thesis
  proof
    show "then_cmp (c a a) (d a a) = Equal" for a by (simp add: then_cmp_def C D)
    show "then_cmp (c b a) (d b a) = reverse_ordering (then_cmp (c a b) (d a b))" for a b
      by (simp add: then_cmp_def C(2) [of b a] D(2) [of b a])
    fix x y z
    assume xy: "then_cmp (c x y) (d x y) \<noteq> Greater" and yz: "then_cmp (c y z) (d y z) \<noteq> Greater"
    show "then_cmp (c x z) (d x z) \<noteq> Greater"
    proof (cases "c x y = Equal")
      case True
      then have "c x z = c y z" by (rule comparison.cmp_equal_left [OF assms(1)])
      with True xy yz comparison.cmp_trans [OF assms(2), of x y z] show ?thesis
        by (auto simp: then_cmp_def split: if_splits)
    next
      case False
      with xy have "c x y = Less" by (cases "c x y") (auto simp: then_cmp_def)
      moreover from yz have "c y z \<noteq> Greater" by (auto simp: then_cmp_def split: if_splits)
      ultimately have "c x z = Less" by (rule comparison.cmp_less_trans [OF assms(1)])
      then show ?thesis by (simp add: then_cmp_def)
    qed
  qed
qed

lemma cmp_bytes_refl: "cmp_bytes s s = Equal"
  by (induction s) (simp_all add: then_cmp_def cmp_by_def)

lemma cmp_bytes_reverse: "cmp_bytes t s = reverse_ordering (cmp_bytes s t)"
  by (induction s t rule: cmp_bytes.induct) (auto simp: then_cmp_def cmp_by_def)

lemma cmp_bytes_trans: "cmp_bytes s t \<noteq> Greater \<Longrightarrow> cmp_bytes t u \<noteq> Greater \<Longrightarrow> cmp_bytes s u \<noteq> Greater"
proof (induction s t arbitrary: u rule: cmp_bytes.induct)
  case (1 u)
  then show ?case by simp
next
  case (2 b t)
  then show ?case by (cases u) simp_all
next
  case (4 a s b t)
  then show ?case
    by (cases u) (auto simp: then_cmp_def cmp_by_def split: if_splits)
qed simp

lemma comparison_bytes: "comparison cmp_bytes"
  by (rule comparison.intro) (rule cmp_bytes_refl cmp_bytes_reverse cmp_bytes_trans; assumption?)+

text \<open>A value as a key made of its rank, its number and its text.\<close>

definition value_number :: "eval_value \<Rightarrow> nat" where
  "value_number v = (case v of VScopedId i _ \<Rightarrow> i | VBool b \<Rightarrow> of_bool b | VNumber n \<Rightarrow> unat n | _ \<Rightarrow> 0)"

definition value_text :: "eval_value \<Rightarrow> string" where
  "value_text v = (case v of VString s \<Rightarrow> s | VScopedId _ s \<Rightarrow> s | _ \<Rightarrow> [])"

lemma cmp_eval_value_key:
  "cmp_eval_value = (\<lambda>v w. then_cmp (cmp_by variant_rank v w)
      (then_cmp (cmp_by value_number v w) (cmp_bytes (value_text v) (value_text w))))"
proof (intro ext)
  fix v w
  show "cmp_eval_value v w = then_cmp (cmp_by variant_rank v w)
      (then_cmp (cmp_by value_number v w) (cmp_bytes (value_text v) (value_text w)))"
    by (cases v; cases w)
       (auto simp: cmp_eval_value_def then_cmp_def cmp_by_def variant_rank_def value_number_def value_text_def
          word_less_nat_alt dest: word_unat_eq_iff [THEN iffD2])
qed

lemma comparison_eval_value: "comparison cmp_eval_value"
  unfolding cmp_eval_value_key
  by (intro comparison_then comparison_cmp_by comparison.pullback [OF comparison_bytes])

lemma comparison_optional_values: "comparison (\<lambda>l r. compare_optional_values l r order)"
proof -
  define c where "c = (\<lambda>l r. if order = Desc then reverse_ordering (cmp_eval_value l r) else cmp_eval_value l r)"
  have c: "comparison c"
    unfolding c_def using comparison_eval_value comparison.reversed [OF comparison_eval_value] by (cases order) simp_all
  have eq: "compare_optional_values l r order =
      (case (l, r) of (Some l, Some r) \<Rightarrow> c l r | (Some _, None) \<Rightarrow> Less | (None, Some _) \<Rightarrow> Greater
       | (None, None) \<Rightarrow> Equal)" for l r
    by (simp add: compare_optional_values_def c_def Let_def split: option.split)
  show ?thesis
    unfolding eq
  proof
    fix a b c' :: "eval_value option"
    show "(case (a, a) of (Some l, Some r) \<Rightarrow> c l r | (Some _, None) \<Rightarrow> Less | (None, Some _) \<Rightarrow> Greater
       | (None, None) \<Rightarrow> Equal) = Equal"
      by (simp add: comparison.cmp_refl [OF c] split: option.split)
    show "(case (b, a) of (Some l, Some r) \<Rightarrow> c l r | (Some _, None) \<Rightarrow> Less | (None, Some _) \<Rightarrow> Greater
       | (None, None) \<Rightarrow> Equal) = reverse_ordering (case (a, b) of (Some l, Some r) \<Rightarrow> c l r
       | (Some _, None) \<Rightarrow> Less | (None, Some _) \<Rightarrow> Greater | (None, None) \<Rightarrow> Equal)"
      using comparison.cmp_reverse [OF c, of "the b" "the a"] by (cases a; cases b) auto
    assume "(case (a, b) of (Some l, Some r) \<Rightarrow> c l r | (Some _, None) \<Rightarrow> Less | (None, Some _) \<Rightarrow> Greater
       | (None, None) \<Rightarrow> Equal) \<noteq> Greater"
      and "(case (b, c') of (Some l, Some r) \<Rightarrow> c l r | (Some _, None) \<Rightarrow> Less | (None, Some _) \<Rightarrow> Greater
       | (None, None) \<Rightarrow> Equal) \<noteq> Greater"
    then show "(case (a, c') of (Some l, Some r) \<Rightarrow> c l r | (Some _, None) \<Rightarrow> Less | (None, Some _) \<Rightarrow> Greater
       | (None, None) \<Rightarrow> Equal) \<noteq> Greater"
      using comparison.cmp_trans [OF c, of "the a" "the b" "the c'"] by (cases a; cases b; cases c') auto
  qed
qed

lemma comparison_entries: "comparison (\<lambda>l r. compare_entries l r sorts)"
proof (induction sorts)
  case Nil
  show ?case by unfold_locales simp_all
next
  case (Cons s sorts)
  have "compare_entries l r (s # sorts) =
      then_cmp (compare_optional_values (sort_value l (sort_field s)) (sort_value r (sort_field s)) (sort_order s))
        (compare_entries l r sorts)" for l r
    by (simp add: then_cmp_def Let_def)
  then show ?case
    by (simp only:) (rule comparison_then [OF comparison.pullback [OF comparison_optional_values] Cons.IH])
qed

interpretation view_order: comparison "\<lambda>l r. compare_entries (app_agent_view_entry a l) (app_agent_view_entry a r) sorts"
  for a sorts
  by (rule comparison.pullback [OF comparison_entries])

lemma cmp_priority_key:
  "cmp_priority = (\<lambda>l r. then_cmp
      (reverse_ordering (cmp_by (\<lambda>e. tab_attention_priority (panel_state e) (panel_seen e)) l r))
      (reverse_ordering (cmp_by (\<lambda>e. case panel_last_agent_state_change_seq e of None \<Rightarrow> 0 | Some n \<Rightarrow> Suc (unat n)) l r)))"
  by (intro ext)
     (auto simp: cmp_priority_def cmp_by_def word_less_nat_alt dest: word_unat_eq_iff [THEN iffD2]
        split: option.split intro!: arg_cong2 [where f = then_cmp])

interpretation priority_order: comparison cmp_priority
  unfolding cmp_priority_key
  by (intro comparison_then comparison.reversed comparison_cmp_by)

subsection \<open>What validation accepts\<close>

fun filter_height :: "agent_view_filter \<Rightarrow> nat" where
  "filter_height (All fs) = Suc (Max (insert 0 (set (map filter_height fs))))"
| "filter_height (Any fs) = Suc (Max (insert 0 (set (map filter_height fs))))"
| "filter_height (NotF f) = Suc (filter_height f)"
| "filter_height (EqF _ _) = 1"
| "filter_height (InF _ _) = 1"
| "filter_height (Exists _) = 1"

fun filter_nodes :: "agent_view_filter \<Rightarrow> nat" where
  "filter_nodes (All fs) = Suc (sum_list (map filter_nodes fs))"
| "filter_nodes (Any fs) = Suc (sum_list (map filter_nodes fs))"
| "filter_nodes (NotF f) = Suc (filter_nodes f)"
| "filter_nodes (EqF _ _) = 1"
| "filter_nodes (InF _ _) = 1"
| "filter_nodes (Exists _) = 1"

fun filter_ok :: "agent_view_filter \<Rightarrow> bool" where
  "filter_ok (All fs) = (fs \<noteq> [] \<and> (\<forall>f \<in> set fs. filter_ok f))"
| "filter_ok (Any fs) = (fs \<noteq> [] \<and> (\<forall>f \<in> set fs. filter_ok f))"
| "filter_ok (NotF f) = filter_ok f"
| "filter_ok (EqF field v) = (validate_field_value field v = Inr ())"
| "filter_ok (InF field vs) =
     (vs \<noteq> [] \<and> length vs \<le> MAX_FILTER_VALUES \<and> (\<forall>v \<in> set vs. validate_field_value field v = Inr ()))"
| "filter_ok (Exists field) = (validate_field field = Inr ())"

lemma try_each_Inr: "try_each f xs = Inr () \<longleftrightarrow> (\<forall>x \<in> set xs. f x = Inr ())"
  by (induction xs) (auto split: sum.split)

lemma map_sum_Inr: "map_sum (\<lambda>e. e) (\<lambda>_. n) r = Inr m \<longleftrightarrow> r = Inr () \<and> m = n" for r :: "'e + unit"
  by (cases r) auto

lemma filter_height_pos: "0 < filter_height f"
  by (cases f) simp_all

lemma depth_of_members:
  assumes "fs \<noteq> []"
  shows "d + Max (filter_height ` set fs) \<le> k \<longleftrightarrow> (\<forall>f \<in> set fs. d + filter_height f \<le> k)"
proof -
  obtain g where g: "g \<in> set fs" "filter_height g = Max (filter_height ` set fs)"
    using Max_in [of "filter_height ` set fs"] assms by fastforce
  have ge: "filter_height f \<le> Max (filter_height ` set fs)" if "f \<in> set fs" for f
    using that by (intro Max_ge) auto
  show ?thesis
    unfolding g(2) [symmetric] using g(1) ge by (auto simp: g(2) [symmetric] intro: order_trans [OF add_left_mono])
qed

lemma validate_filter_exact:
  "validate_filter f depth nodes = Inr m \<longleftrightarrow>
     filter_ok f \<and> depth + filter_height f \<le> Suc MAX_FILTER_DEPTH
     \<and> m = nodes + filter_nodes f \<and> m \<le> MAX_FILTER_NODES"
  and validate_filters_exact:
  "validate_filters fs depth nodes = Inr m \<longleftrightarrow>
     (\<forall>f \<in> set fs. filter_ok f \<and> depth + filter_height f \<le> Suc MAX_FILTER_DEPTH)
     \<and> m = nodes + sum_list (map filter_nodes fs) \<and> (fs \<noteq> [] \<longrightarrow> m \<le> MAX_FILTER_NODES)"
proof (induction f depth nodes and fs depth nodes arbitrary: m and m
    rule: validate_filter_validate_filters.induct)
  case (1 f depth nodes)
  show ?case
  proof (cases "depth > MAX_FILTER_DEPTH \<or> Suc nodes > MAX_FILTER_NODES")
    case True
    then show ?thesis
      using filter_height_pos [of f] by (cases f) auto
  next
    case False
    note ih = 1 [OF _ refl, simplified]
    show ?thesis
    proof (cases f)
      case (All fs)
      with False show ?thesis
        by (cases "fs = []") (auto simp: ih(1) depth_of_members)
    next
      case (Any fs)
      with False show ?thesis
        by (cases "fs = []") (auto simp: ih(2) depth_of_members)
    next
      case (NotF g)
      with False show ?thesis by (auto simp: ih(3))
    qed (use False in \<open>auto simp: map_sum_Inr try_each_Inr\<close>)
  qed
next
  case (3 f fs depth nodes)
  show ?case
  proof (cases "validate_filter f depth nodes")
    case (Inl e)
    with Inl 3(1) [of "nodes + filter_nodes f"] show ?thesis by auto
  next
    case (Inr n)
    with 3(1) [of n] 3(2) [OF Inr] show ?thesis by auto
  qed
qed auto

subsection \<open>Types of the comparisons\<close>

text \<open>
  Evaluation with a check at every comparison: values of two different variants make it fail, where
  \<open>matches_filter\<close> would silently call them different.
\<close>

definition same_variant :: "eval_value option \<Rightarrow> eval_value option \<Rightarrow> bool" where
  "same_variant x y \<longleftrightarrow> (\<forall>v w. x = Some v \<and> y = Some w \<longrightarrow> variant_rank v = variant_rank w)"

definition checked_eq :: "eval_value option \<Rightarrow> eval_value option \<Rightarrow> bool option" where
  "checked_eq x y =
     (case (x, y) of
        (Some v, Some w) \<Rightarrow> if variant_rank v = variant_rank w then Some (v = w) else None
      | _ \<Rightarrow> Some (x = y))"

fun checked_all :: "bool option list \<Rightarrow> bool option" where
  "checked_all [] = Some True"
| "checked_all (r # rs) = Option.bind r (\<lambda>b. map_option (\<lambda>c. b \<and> c) (checked_all rs))"

fun checked_matches :: "agent_view_context \<Rightarrow> agent_view_entry \<Rightarrow> agent_view_filter \<Rightarrow> bool option" where
  "checked_matches ctx entry (All fs) = checked_all (map (checked_matches ctx entry) fs)"
| "checked_matches ctx entry (Any fs) =
     map_option Not (checked_all (map (\<lambda>f. map_option Not (checked_matches ctx entry f)) fs))"
| "checked_matches ctx entry (NotF f) = map_option Not (checked_matches ctx entry f)"
| "checked_matches ctx entry (EqF field v) = checked_eq (field_value entry field) (operand_value ctx field v)"
| "checked_matches ctx entry (InF field vs) =
     map_option Not (checked_all
       (map (\<lambda>v. map_option Not (checked_eq (field_value entry field) (operand_value ctx field v))) vs))"
| "checked_matches ctx entry (Exists field) = Some (field_value entry field \<noteq> None)"

lemma checked_all_Some: "(\<forall>x \<in> set xs. f x = Some (g x)) \<Longrightarrow> checked_all (map f xs) = Some (\<forall>x \<in> set xs. g x)"
  by (induction xs) auto

lemma field_operand_variant:
  assumes "validate_field_value field v = Inr ()" and "field_value entry field = Some x"
    and "operand_value ctx field v = Some y"
  shows "variant_rank x = variant_rank y"
proof (cases field)
  case (BuiltinField b)
  with assms show ?thesis
    by (cases b; cases v)
       (auto simp: validate_field_value_def validate_field_def field_value_def operand_value_def is_id_field_def
          variant_rank_def split: view_context_value.splits)
next
  case (TokenField t)
  with assms show ?thesis
    by (cases v)
       (auto simp: validate_field_value_def field_value_def operand_value_def is_id_field_def variant_rank_def
          split: sum.splits)
qed

lemma checked_eq_validated:
  assumes "validate_field_value field v = Inr ()"
  shows "checked_eq (field_value entry field) (operand_value ctx field v)
       = Some (field_value entry field = operand_value ctx field v)"
  using field_operand_variant [OF assms] by (auto simp: checked_eq_def split: option.split)

lemma checked_matches_ok: "filter_ok f \<Longrightarrow> checked_matches ctx entry f = Some (matches_filter ctx entry f)"
proof (induction f)
  case (All fs)
  then show ?case by (simp add: checked_all_Some)
next
  case (Any fs)
  then have "checked_all (map (\<lambda>f. map_option Not (checked_matches ctx entry f)) fs)
      = Some (\<forall>f \<in> set fs. \<not> matches_filter ctx entry f)"
    by (intro checked_all_Some) simp
  then show ?case by simp
next
  case (InF field vs)
  then have "checked_all
      (map (\<lambda>v. map_option Not (checked_eq (field_value entry field) (operand_value ctx field v))) vs)
      = Some (\<forall>v \<in> set vs. field_value entry field \<noteq> operand_value ctx field v)"
    by (intro checked_all_Some) (simp add: checked_eq_validated)
  then show ?case by (simp add: Let_def)
qed (simp_all add: checked_eq_validated)

subsection \<open>The stored view\<close>

lemma source_char_graphic: "source_char c \<Longrightarrow> graphic c"
  by (auto simp: source_char_def is_ascii_alphanumeric_def graphic_def Let_def)

lemma normalize_source_ok:
  assumes "normalize_source s = Inr r"
  shows "normalize_source r = Inr r"
proof -
  from assms have r: "r \<noteq> []" "chars_count r \<le> MAX_SOURCE_CHARS" "list_all source_char r"
    by (auto simp: normalize_source_def Let_def split: if_splits)
  then have "trim r = r"
    using source_char_graphic by (intro trim_id) (auto simp: list_all_iff)
  with r show ?thesis by (simp add: normalize_source_def)
qed

definition stored_view_ok :: "agent_view_set_params \<Rightarrow> bool" where
  "stored_view_ok view \<longleftrightarrow>
     normalize_source (view_source view) = Inr (view_source view)
     \<and> (\<forall>l. view_label view = Some l \<longrightarrow> l \<noteq> [] \<and> chars_count l \<le> MAX_LABEL_CHARS)
     \<and> (\<forall>f. view_filter view = Some f \<longrightarrow>
          filter_ok f \<and> filter_height f \<le> MAX_FILTER_DEPTH \<and> filter_nodes f \<le> MAX_FILTER_NODES)
     \<and> length (view_sort view) \<le> MAX_SORT_FIELDS
     \<and> (\<forall>s \<in> set (view_sort view). validate_sort_field (sort_field s) = Inr ())"

lemma validate_agent_view_ok:
  assumes "validate_agent_view spec = Inr view"
  shows "stored_view_ok view \<and> view_filter view = view_filter spec \<and> view_sort view = view_sort spec"
proof -
  obtain source label where src: "normalize_source (view_source spec) = Inr source"
    and label: "(case view_label spec of None \<Rightarrow> Inr None | Some l \<Rightarrow> map_sum (\<lambda>e. e) Some (normalize_label l)) = Inr label"
    and f: "\<exists>n. (case view_filter spec of None \<Rightarrow> Inr 0 | Some f \<Rightarrow> validate_filter f 1 0) = Inr n"
    and sorts: "length (view_sort spec) \<le> MAX_SORT_FIELDS"
      "try_each (\<lambda>s. validate_sort_field (sort_field s)) (view_sort spec) = Inr ()"
    and view: "view = spec\<lparr>view_source := source, view_label := label\<rparr>"
    using assms by (auto simp: validate_agent_view_def split: sum.splits if_splits)
  have "l \<noteq> [] \<and> chars_count l \<le> MAX_LABEL_CHARS" if "label = Some l" for l
    using label that
    by (cases "view_label spec"; cases "normalize_label (the (view_label spec))")
       (auto simp: normalize_label_def Let_def split: if_splits)
  moreover have "filter_ok g \<and> filter_height g \<le> MAX_FILTER_DEPTH \<and> filter_nodes g \<le> MAX_FILTER_NODES"
    if "view_filter spec = Some g" for g
    using f that by (auto simp: validate_filter_exact simp del: validate_filter.simps)
  ultimately show ?thesis
    using normalize_source_ok [OF src] sorts unfolding view by (simp add: stored_view_ok_def try_each_Inr)
qed

inductive view_step :: "agent_views \<Rightarrow> agent_views \<Rightarrow> bool" where
  step_set: "view_step s (fst (handle_agent_view_set params s))"
| step_clear: "view_step s (fst (handle_agent_view_clear source s))"
| step_clear_source: "view_step s (fst (clear_agent_view_for_source src s))"
| step_panel_sort: "view_step s (s\<lparr>agent_panel_sort := panel_order\<rparr>)"
| step_plugins: "view_step s (s\<lparr>plugin_enabled := plugins\<rparr>)"

definition views_ok :: "agent_views \<Rightarrow> bool" where
  "views_ok s \<longleftrightarrow> (\<forall>view. agent_view_override s = Some view \<longrightarrow> stored_view_ok view)"

lemma handle_agent_view_set_override:
  "agent_view_override (fst (handle_agent_view_set params s)) = agent_view_override s
   \<or> (\<exists>view. validate_agent_view params = Inr view
        \<and> agent_view_override (fst (handle_agent_view_set params s)) = Some view)"
  by (auto simp: handle_agent_view_set_def replace_agent_view_override_def Let_def split: sum.split option.split)

lemma view_step_ok: "view_step s t \<Longrightarrow> views_ok s \<Longrightarrow> views_ok t"
proof (induction rule: view_step.induct)
  case (step_set s params)
  then show ?case
    using handle_agent_view_set_override [of params s] validate_agent_view_ok by (auto simp: views_ok_def)
next
  case (step_clear s source)
  then show ?case
    by (auto simp: views_ok_def handle_agent_view_clear_def replace_agent_view_override_def Let_def
        split: sum.splits if_splits)
next
  case (step_clear_source s src)
  then show ?case
    by (auto simp: views_ok_def clear_agent_view_for_source_def replace_agent_view_override_def)
qed (simp_all add: views_ok_def)

interpretation agent_view: step_invariant "\<lambda>s. agent_view_override s = None" view_step views_ok
  by unfold_locales (auto simp: views_ok_def intro: view_step_ok [unfolded views_ok_def, rule_format])

subsection \<open>Properties\<close>

text \<open>
C11. Whatever requests set and clear the agent view, every comparison that a stored filter makes
is between values of the same variant: an evaluation that fails on a comparison of two variants
always succeeds on it and gives the program's answer.
\<close>

theorem stored_filters_well_typed:
  assumes "agent_view_override s = None" and "reaches view_step s t"
    and "agent_view_override t = Some view" and "view_filter view = Some f"
  shows "checked_matches ctx entry f = Some (matches_filter ctx entry f)"
proof -
  have "views_ok t" by (rule agent_view.reachable_inv [OF assms(1,2)])
  with assms(3,4) have "filter_ok f" by (simp add: views_ok_def stored_view_ok_def)
  then show ?thesis by (rule checked_matches_ok)
qed

text \<open>
C22. Validation accepts a filter exactly when its leaves are valid, it is nested at most 8
levels deep and has at most 64 nodes.
\<close>

theorem accepted_filters_exact:
  "(\<exists>n. validate_filter f 1 0 = Inr n) =
     (filter_ok f \<and> filter_height f \<le> MAX_FILTER_DEPTH \<and> filter_nodes f \<le> MAX_FILTER_NODES)"
  unfolding validate_filter_exact by simp

text \<open>What a listing keeps and the order it is in, for every view and panel order.\<close>

definition view_keeps ::
    "('g, 'q, 'p, 'n, 'z) app_state_scheme \<Rightarrow> agent_views \<Rightarrow> agent_panel_entry \<Rightarrow> bool" where
  "view_keeps a views e =
     (case Option.bind (agent_view_override views) view_filter of
        None \<Rightarrow> True | Some f \<Rightarrow> matches_filter (evaluation_context a) (app_agent_view_entry a e) f)"

definition view_compare ::
    "('g, 'q, 'p, 'n, 'z) app_state_scheme \<Rightarrow> agent_views \<Rightarrow> agent_panel_entry \<Rightarrow> agent_panel_entry \<Rightarrow> ordering" where
  "view_compare a views =
     (case map_option view_sort (agent_view_override views) of
        Some (s # sorts) \<Rightarrow> (\<lambda>l r. compare_entries (app_agent_view_entry a l) (app_agent_view_entry a r) (s # sorts))
      | _ \<Rightarrow> if agent_panel_sort views = Priority then cmp_priority else (\<lambda>_ _. Equal))"

lemma comparison_view: "comparison (view_compare a views)"
proof -
  have "comparison (\<lambda>_ _ :: agent_panel_entry. Equal)" by unfold_locales simp_all
  then show ?thesis
    unfolding view_compare_def
    by (auto split: option.split list.split intro: view_order.comparison_axioms priority_order.comparison_axioms
        simp del: compare_entries.simps)
qed

interpretation listing: comparison "view_compare a views" for a views
  by (rule comparison_view)

lemma sort_by_all_equal: "sort_by (\<lambda>_ _. Equal) xs = xs"
  unfolding sort_by_def
proof (induction xs)
  case (Cons x xs)
  then show ?case by (cases xs) simp_all
qed simp

lemma apply_agent_view_sorts:
  "apply_agent_view a views entries = sort_by (view_compare a views) (filter (view_keeps a views) entries)"
proof (cases "agent_view_override views")
  case None
  then have "view_keeps a views = (\<lambda>_. True)" by (auto simp: view_keeps_def)
  with None show ?thesis by (simp add: apply_agent_view_def view_compare_def sort_by_all_equal)
next
  case (Some spec)
  have kept: "(case view_filter spec of None \<Rightarrow> entries
      | Some f \<Rightarrow> filter (\<lambda>e. matches_filter (evaluation_context a) (app_agent_view_entry a e) f) entries)
     = filter (view_keeps a views) entries"
    by (cases "view_filter spec") (simp_all add: view_keeps_def [abs_def] Some)
  show ?thesis
  proof (cases "view_sort spec")
    case Nil
    then show ?thesis by (simp add: apply_agent_view_def Some kept view_compare_def sort_by_all_equal)
  next
    case (Cons s sorts)
    then show ?thesis
      by (simp add: apply_agent_view_def Some kept view_compare_def del: compare_entries.simps)
  qed
qed

text \<open>
C12. The listing of agents holds exactly the entries that the view's filter keeps, is sorted by
the view's sort fields (or by the panel's priority order, or not at all), and keeps entries that
compare equal in their original order.
\<close>

theorem agent_view_listing:
  "mset (apply_agent_view a views entries) = mset (filter (view_keeps a views) entries)
   \<and> sorted_wrt (\<lambda>l r. view_compare a views l r \<noteq> Greater) (apply_agent_view a views entries)
   \<and> filter (\<lambda>x. view_compare a views e x = Equal) (apply_agent_view a views entries)
     = filter (\<lambda>x. view_compare a views e x = Equal \<and> view_keeps a views x) entries"
  unfolding apply_agent_view_sorts
  by (simp add: listing.mset_sort_by listing.sorted_sort_by listing.sort_by_stable conj_commute)

text \<open>White space that control characters protect from \<open>trim\<close> is kept: a label of one space is accepted.\<close>

lemma blank_label_accepted: "normalize_label [CHR 0x01, CHR 0x20, CHR 0x01] = Inr '' ''"
proof -
  have "trim [CHR 0x01, CHR 0x20, CHR 0x01] = [CHR 0x01, CHR 0x20, CHR 0x01]"
    by (simp add: trim_def trim_start_def trim_end_def whitespace_encodings_def strip_all.simps starts_with_def)
  then show ?thesis
    by (simp add: normalize_label_def ascii_ctl_def chars_count_def MAX_LABEL_CHARS_def)
qed

definition demo_view :: agent_view_set_params where
  "demo_view = \<lparr>view_source = ''panel'', view_label = None,
     view_filter = Some (All [EqF (BuiltinField FSeen) (BoolValue False), Exists (BuiltinField FAgent)]),
     view_sort = [\<lparr>sort_field = BuiltinSort SAttention, sort_order = Desc\<rparr>]\<rparr>"

definition demo_views :: agent_views where
  "demo_views = \<lparr>agent_view_override = None, agent_panel_sort = Spaces, plugin_enabled = []\<rparr>"

lemma demo_view_set:
  "fst (handle_agent_view_set demo_view demo_views) = demo_views\<lparr>agent_view_override := Some demo_view\<rparr>"
  by (simp add: handle_agent_view_set_def demo_view_def demo_views_def validate_agent_view_def normalize_source_def
      chars_count_def MAX_SOURCE_CHARS_def source_char_def is_ascii_alphanumeric_def graphic_def MAX_FILTER_DEPTH_def
      MAX_FILTER_NODES_def validate_field_value_def validate_field_def MAX_SORT_FIELDS_def validate_sort_field_def
      strip_prefix_def starts_with_def replace_agent_view_override_def Let_def)

definition demo_context :: agent_view_context where
  "demo_context = \<lparr>ctx_scope = 0, ctx_workspace_id = Some ''w1'', ctx_tab_id = None\<rparr>"

definition demo_entry :: agent_view_entry where
  "demo_entry = \<lparr>entry_scope = 0, entry_status = ''done'', entry_workspace_id = Some ''w1'', entry_tab_id = None,
     entry_pane_id = None, entry_agent = Some ''codex'', entry_seen = False, entry_state_change_seq = Some 3,
     entry_token = Map.empty, entry_workspace_order = Some 0, entry_tab_order = None, entry_pane_order = None,
     entry_attention = 3\<rparr>"

theorem stored_filters_well_typed_witness:
  "checked_matches demo_context demo_entry
     (All [EqF (BuiltinField FSeen) (BoolValue False), Exists (BuiltinField FAgent)]) = Some True"
proof -
  have "checked_matches demo_context demo_entry (the (view_filter demo_view))
      = Some (matches_filter demo_context demo_entry (the (view_filter demo_view)))"
  proof (rule stored_filters_well_typed)
    show "agent_view_override demo_views = None" by (simp add: demo_views_def)
    show "reaches view_step demo_views (fst (handle_agent_view_set demo_view demo_views))"
      by (rule reaches_step, rule reaches_refl, rule step_set)
    show "agent_view_override (fst (handle_agent_view_set demo_view demo_views)) = Some demo_view"
      by (simp add: demo_view_set)
  qed (simp add: demo_view_def)
  then show ?thesis
    by (simp add: demo_view_def demo_entry_def field_value_def operand_value_def)
qed

end
