(* ===== verification/Kitty_Keyboard.thy ===== *)
theory Kitty_Keyboard
  imports Rust_Str "HOL-Library.While_Combinator"
begin

text \<open>
  The record of the keyboard modes a pane's program requested (\<^verbatim>\<open>runtime/src/pane/kitty_keyboard.rs\<close>), which
  a handoff to a new server replays.  \<open>observe\<close> scans the output of the program, chunk by chunk; a sequence
  that a chunk leaves unfinished is kept, up to 64 bytes, and continued by the next one.

  The scanning loop is kept as a loop over an index (\<open>while_option\<close>, whose value is \<open>None\<close> for a loop that
  does not end).  The theory shows that it always ends and computes a recursion over the remaining bytes,
  that the chunks the output arrives in do not matter, and that the replayed sequences restore the modes.
\<close>

subsection \<open>Data\<close>

record kitty_keyboard_tracker =
  pending :: string
  stack :: "u16 list"
  flags :: u16
  modify_other_keys_level :: nat

definition kitty_keyboard_tracker_default :: kitty_keyboard_tracker where
  "kitty_keyboard_tracker_default = \<lparr>pending = [], stack = [], flags = 0, modify_other_keys_level = 0\<rparr>"

abbreviation (input) ESC :: char where "ESC \<equiv> CHR 0x1B"

subsection \<open>Sequences\<close>

text \<open>\<open>slice::split\<close> at every byte that equals the separator; it yields at least one part.\<close>

fun split_at :: "char \<Rightarrow> string \<Rightarrow> string list" where
  "split_at sep [] = [[]]"
| "split_at sep (c # s) =
     (if c = sep then [] # split_at sep s
      else case split_at sep s of [] \<Rightarrow> [[c]] | p # ps \<Rightarrow> (c # p) # ps)"

text \<open>A part that is not UTF-8 holds a byte that is no digit, so that \<open>parse\<close> fails on it as \<open>from_utf8\<close> does.\<close>

definition parse_kitty_keyboard_flags :: "string \<Rightarrow> u16" where
  "parse_kitty_keyboard_flags bytes =
     (let first_param = (case split_at CHR '';'' bytes of [] \<Rightarrow> [] | p # _ \<Rightarrow> p)
      in case parse_unsigned (2 ^ 16) first_param of Some n \<Rightarrow> of_nat n | None \<Rightarrow> 0)"

definition observe_modify_other_keys :: "kitty_keyboard_tracker \<Rightarrow> string \<Rightarrow> kitty_keyboard_tracker" where
  "observe_modify_other_keys t params =
     (case strip_prefix ''>'' params of
        None \<Rightarrow> t
      | Some params \<Rightarrow>
          if params = [] then t\<lparr>modify_other_keys_level := 0\<rparr>
          else
            case split_at CHR '';'' params of
              [] \<Rightarrow> t
            | [resource] \<Rightarrow>
                if parse_kitty_keyboard_flags resource = 4 then t\<lparr>modify_other_keys_level := 0\<rparr> else t
            | [resource, v] \<Rightarrow>
                if parse_kitty_keyboard_flags resource = 4
                then t\<lparr>modify_other_keys_level := unat (min (parse_kitty_keyboard_flags v) 2)\<rparr> else t
            | _ \<Rightarrow> t)"

definition store_pending :: "kitty_keyboard_tracker \<Rightarrow> string \<Rightarrow> kitty_keyboard_tracker" where
  "store_pending t bytes = t\<lparr>pending := (if length bytes \<le> 64 then bytes else [])\<rparr>"

text \<open>The stack is a vector: \<open>push\<close> and \<open>pop\<close> work at its end.\<close>

definition pop_flags :: "kitty_keyboard_tracker \<Rightarrow> kitty_keyboard_tracker" where
  "pop_flags t =
     (if stack t = [] then t\<lparr>flags := 0\<rparr> else t\<lparr>flags := last (stack t), stack := butlast (stack t)\<rparr>)"

definition observe_csi_u :: "kitty_keyboard_tracker \<Rightarrow> string \<Rightarrow> kitty_keyboard_tracker" where
  "observe_csi_u t params =
     (case params of
        [] \<Rightarrow> t
      | kind # rest \<Rightarrow>
          if kind = CHR ''>''
          then t\<lparr>stack := stack t @ [flags t], flags := parse_kitty_keyboard_flags rest\<rparr>
          else if kind = CHR ''='' then t\<lparr>flags := parse_kitty_keyboard_flags rest\<rparr>
          else if kind = CHR ''<''
          then (pop_flags ^^ unat (max (parse_kitty_keyboard_flags rest) 1)) t
          else t)"

definition disables_modify_other_keys :: "string \<Rightarrow> bool" where
  "disables_modify_other_keys params =
     (case strip_prefix ''>'' params of
        None \<Rightarrow> False
      | Some params \<Rightarrow> CHR '';'' \<notin> set params \<and> parse_kitty_keyboard_flags params = 4)"

definition observe_csi :: "kitty_keyboard_tracker \<Rightarrow> char \<Rightarrow> string \<Rightarrow> kitty_keyboard_tracker" where
  "observe_csi t final params =
     (if final = CHR ''u'' then observe_csi_u t params
      else if final = CHR ''m'' then observe_modify_other_keys t params
      else if final = CHR ''n'' \<and> disables_modify_other_keys params then t\<lparr>modify_other_keys_level := 0\<rparr>
      else t)"

definition reset_modes :: "kitty_keyboard_tracker \<Rightarrow> kitty_keyboard_tracker" where
  "reset_modes t = t\<lparr>stack := [], flags := 0, modify_other_keys_level := 0\<rparr>"

subsection \<open>The scanning loop\<close>

definition is_final_byte :: "char \<Rightarrow> bool" where
  "is_final_byte c \<longleftrightarrow> 0x40 \<le> (of_char c :: nat) \<and> (of_char c :: nat) \<le> 0x7E"

definition slice :: "string \<Rightarrow> nat \<Rightarrow> nat \<Rightarrow> string" where
  "slice bytes i j = take (j - i) (drop i bytes)"

function find_final :: "string \<Rightarrow> nat \<Rightarrow> nat" where
  "find_final bytes fin =
     (if fin < length bytes \<and> \<not> is_final_byte (bytes ! fin) then find_final bytes (fin + 1) else fin)"
  by auto
termination
  by (relation "measure (\<lambda>(bytes, fin). length bytes - fin)") auto

declare find_final.simps [simp del]

text \<open>One round; \<open>break\<close> moves the index to the end of the bytes.\<close>

definition observe_round ::
    "string \<Rightarrow> kitty_keyboard_tracker \<times> nat \<Rightarrow> kitty_keyboard_tracker \<times> nat" where
  "observe_round bytes = (\<lambda>(t, index).
     if bytes ! index \<noteq> ESC then (t, index + 1)
     else if index + 1 \<ge> length bytes then (store_pending t (drop index bytes), length bytes)
     else
       let t = (if bytes ! (index + 1) = CHR ''c'' then reset_modes t else t)
       in if bytes ! (index + 1) \<noteq> CHR ''['' then (t, index + 1)
          else
            let fin = find_final bytes (index + 2)
            in if fin \<ge> length bytes then (store_pending t (drop index bytes), length bytes)
               else (observe_csi t (bytes ! fin) (slice bytes (index + 2) fin), fin + 1))"

definition observe :: "kitty_keyboard_tracker \<Rightarrow> string \<Rightarrow> kitty_keyboard_tracker option" where
  "observe t bytes =
     (let combined = (if pending t = [] then bytes else pending t @ bytes);
          t = (if pending t = [] then t else t\<lparr>pending := []\<rparr>)
      in map_option fst (while_option (\<lambda>(_, index). index < length combined) (observe_round combined) (t, 0)))"

subsection \<open>Replay\<close>

definition replay_set :: "u16 \<Rightarrow> string" where
  "replay_set n = [ESC] @ ''[='' @ show_decimal (unat n) @ ''u''"

definition replay_push :: "u16 \<Rightarrow> string" where
  "replay_push n = [ESC] @ ''[>'' @ show_decimal (unat n) @ ''u''"

definition replay_level :: "nat \<Rightarrow> string" where
  "replay_level n = [ESC] @ ''[>4;'' @ show_decimal n @ ''m''"

definition replay_ansi :: "kitty_keyboard_tracker \<Rightarrow> string option" where
  "replay_ansi t =
     (let ansi =
        (case stack t of
           [] \<Rightarrow> if flags t \<noteq> 0 then replay_set (flags t) else []
         | baseline # rest \<Rightarrow>
             (if baseline \<noteq> 0 then replay_set baseline else []) @ concat (map replay_push (rest @ [flags t])))
        @ (if modify_other_keys_level t > 0 then replay_level (modify_other_keys_level t) else [])
      in if ansi = [] then None else Some ansi)"

subsection \<open>The loop as a recursion over the remaining bytes\<close>

text \<open>The tracker without its pending bytes, and the bytes left unfinished.\<close>

function scan :: "kitty_keyboard_tracker \<Rightarrow> string \<Rightarrow> kitty_keyboard_tracker \<times> string" where
  "scan t [] = (t, [])"
| "scan t [b] = (if b \<noteq> ESC then (t, []) else (t, [b]))"
| "scan t (b # c # s) =
     (if b \<noteq> ESC then scan t (c # s)
      else if c \<noteq> CHR ''['' then scan (if c = CHR ''c'' then reset_modes t else t) (c # s)
      else case dropWhile (\<lambda>x. \<not> is_final_byte x) s of
             [] \<Rightarrow> (t, b # c # s)
           | f # rest \<Rightarrow> scan (observe_csi t f (takeWhile (\<lambda>x. \<not> is_final_byte x) s)) rest)"
  by pat_completeness auto
termination
proof (relation "measure (\<lambda>(t, s). length s)", goal_cases)
  case (4 t b c s f rest)
  then have "length (f # rest) \<le> length s" by (metis length_dropWhile_le)
  then show ?case by simp
qed auto

lemma find_final_dropWhile:
  "i \<le> length bytes \<Longrightarrow>
   find_final bytes i = i + length (takeWhile (\<lambda>x. \<not> is_final_byte x) (drop i bytes))"
proof (induction bytes i rule: find_final.induct)
  case (1 bytes i)
  show ?case
  proof (cases "i < length bytes \<and> \<not> is_final_byte (bytes ! i)")
    case True
    then have "drop i bytes = bytes ! i # drop (Suc i) bytes" by (simp add: Cons_nth_drop_Suc)
    with True 1 show ?thesis by (subst find_final.simps) simp
  next
    case False
    then have "takeWhile (\<lambda>x. \<not> is_final_byte x) (drop i bytes) = []"
      using Cons_nth_drop_Suc [of i bytes, symmetric] by (cases "i < length bytes") simp_all
    with False show ?thesis by (subst find_final.simps) auto
  qed
qed

definition finish_scan :: "kitty_keyboard_tracker \<times> string \<Rightarrow> kitty_keyboard_tracker" where
  "finish_scan = (\<lambda>(t, rest). if rest = [] then t else store_pending t rest)"

lemma observe_round_scan:
  assumes "i < length bytes" and "observe_round bytes (t, i) = (t', j)"
  shows "i < j \<and> finish_scan (scan t (drop i bytes)) = finish_scan (scan t' (drop j bytes))"
proof (cases "bytes ! i = ESC \<and> Suc i < length bytes \<and> bytes ! Suc i = CHR ''[''")
  case False
  show ?thesis
  proof (cases "Suc i < length bytes")
    case True
    then have "drop i bytes = bytes ! i # bytes ! Suc i # drop (Suc (Suc i)) bytes"
      "drop (Suc i) bytes = bytes ! Suc i # drop (Suc (Suc i)) bytes"
      by (simp_all add: Cons_nth_drop_Suc)
    with False True assms(2) show ?thesis
      by (auto simp: observe_round_def Let_def split: if_splits)
  next
    case last: False
    then have "drop i bytes = [bytes ! i]" "drop (Suc i) bytes = []"
      using assms(1) Cons_nth_drop_Suc [of i bytes] by simp_all
    with last assms show ?thesis
      by (auto simp: observe_round_def finish_scan_def split: if_splits)
  qed
next
  case True
  define s where "s = drop (Suc (Suc i)) bytes"
  define k where "k = length (takeWhile (\<lambda>x. \<not> is_final_byte x) s)"
  have d: "drop i bytes = ESC # CHR ''['' # s"
    using True by (simp add: s_def Cons_nth_drop_Suc [symmetric])
  have fin: "find_final bytes (Suc (Suc i)) = i + 2 + k"
    using True find_final_dropWhile [of "Suc (Suc i)" bytes] by (simp add: s_def k_def)
  have len: "length s = length bytes - (i + 2)" by (simp add: s_def)
  show ?thesis
  proof (cases "dropWhile (\<lambda>x. \<not> is_final_byte x) s")
    case Nil
    then have "takeWhile (\<lambda>x. \<not> is_final_byte x) s = s" by (simp add: takeWhile_eq_all_conv)
    then have "k = length s" by (simp only: k_def)
    with fin len True have "find_final bytes (Suc (Suc i)) = length bytes" by auto
    with True assms(2) have "t' = store_pending t (drop i bytes)" "j = length bytes"
      by (simp_all add: observe_round_def Let_def)
    moreover have "scan t (drop i bytes) = (t, drop i bytes)" unfolding d by (simp add: Nil)
    ultimately show ?thesis using assms(1) by (simp add: finish_scan_def)
  next
    case (Cons f rest)
    have split: "s = takeWhile (\<lambda>x. \<not> is_final_byte x) s @ f # rest"
      using takeWhile_dropWhile_id [of "\<lambda>x. \<not> is_final_byte x" s] Cons by simp
    then have kl: "k < length s" by (metis k_def length_append length_Cons less_add_Suc1 add_Suc_right)
    have f: "bytes ! (i + 2 + k) = f" "drop (i + 2 + k + 1) bytes = rest"
      "slice bytes (i + 2) (i + 2 + k) = takeWhile (\<lambda>x. \<not> is_final_byte x) s"
    proof -
      have "s ! k = f" "drop (Suc k) s = rest" "take k s = takeWhile (\<lambda>x. \<not> is_final_byte x) s"
        using arg_cong [OF split, of "\<lambda>l. l ! k"] arg_cong [OF split, of "drop (Suc k)"]
          arg_cong [OF split, of "take k"] by (simp_all add: k_def nth_append)
      then show "bytes ! (i + 2 + k) = f" "drop (i + 2 + k + 1) bytes = rest"
        "slice bytes (i + 2) (i + 2 + k) = takeWhile (\<lambda>x. \<not> is_final_byte x) s"
        using kl len by (simp_all add: s_def slice_def add.commute)
    qed
    have "\<not> length bytes \<le> i + 2 + k" using kl len by simp
    with True assms fin f show ?thesis
      unfolding d by (auto simp: observe_round_def Let_def Cons)
  qed
qed

lemma observe_loop:
  "\<exists>n. while_option (\<lambda>(_, index). index < length bytes) (observe_round bytes) (t, i)
      = Some (finish_scan (scan t (drop i bytes)), n)"
proof (induction "length bytes - i" arbitrary: t i rule: less_induct)
  case less
  show ?case
  proof (cases "i < length bytes")
    case True
    obtain t' j where r: "observe_round bytes (t, i) = (t', j)" by fastforce
    from observe_round_scan [OF True r] less [of j t'] True r show ?thesis
      by (subst while_option_unfold) auto
  next
    case False
    then show ?thesis by (subst while_option_unfold) (simp add: finish_scan_def)
  qed
qed

lemma observe_scan:
  "observe t bytes = Some (finish_scan (scan (t\<lparr>pending := []\<rparr>) (pending t @ bytes)))"
proof -
  have eqs: "(if pending t = [] then t else t\<lparr>pending := []\<rparr>) = t\<lparr>pending := []\<rparr>"
    "(if pending t = [] then bytes else pending t @ bytes) = pending t @ bytes" by simp_all
  show ?thesis
    using observe_loop [of "pending t @ bytes" "t\<lparr>pending := []\<rparr>" 0]
    unfolding observe_def eqs Let_def by auto
qed

subsection \<open>Chunks\<close>

lemma takeWhile_final_append:
  "dropWhile (\<lambda>x. \<not> is_final_byte x) s = f # rest \<Longrightarrow>
   takeWhile (\<lambda>x. \<not> is_final_byte x) (s @ ys) = takeWhile (\<lambda>x. \<not> is_final_byte x) s
   \<and> dropWhile (\<lambda>x. \<not> is_final_byte x) (s @ ys) = f # rest @ ys"
  by (induction s) (auto split: if_splits)

lemma scan_append: "scan t (xs @ ys) = (case scan t xs of (t', rest) \<Rightarrow> scan t' (rest @ ys))"
proof (induction t xs rule: scan.induct)
  case (2 t b)
  show ?case by (cases ys) auto
next
  case (3 t b c s)
  show ?case
  proof (cases "b = ESC \<and> c = CHR ''[''")
    case True
    show ?thesis
    proof (cases "dropWhile (\<lambda>x. \<not> is_final_byte x) s")
      case Nil
      with True have "scan t (b # c # s) = (t, b # c # s)" by (simp add: Nil)
      then show ?thesis by simp
    next
      case (Cons f rest)
      with True 3(3) [OF _ _ Cons] takeWhile_final_append [OF Cons, of ys] show ?thesis by simp
    qed
  next
    case False
    with 3(1,2) show ?thesis by auto
  qed
qed simp

lemma pending_unchanged [simp]:
  "pending (reset_modes t) = pending t" "pending (pop_flags t) = pending t"
  "pending ((pop_flags ^^ n) t) = pending t"
  "pending (observe_csi t f params) = pending t"
proof -
  show pop: "pending (pop_flags t) = pending t" for t by (simp add: pop_flags_def)
  show pops: "pending ((pop_flags ^^ n) t) = pending t" for n by (induction n) (simp_all add: pop)
  show "pending (reset_modes t) = pending t" by (simp add: reset_modes_def)
  have "pending (observe_csi_u t params) = pending t"
    by (cases params) (simp_all add: observe_csi_u_def pops)
  moreover have "pending (observe_modify_other_keys t params) = pending t"
    by (simp add: observe_modify_other_keys_def split: list.split option.split)
  ultimately show "pending (observe_csi t f params) = pending t"
    by (simp add: observe_csi_def)
qed

lemma scan_pending: "pending (fst (scan t s)) = pending t"
  by (induction t s rule: scan.induct) (auto split: list.split)

lemma finish_scan_pending:
  assumes "pending t = []" and "length (snd (scan t s)) \<le> 64"
  shows "pending (finish_scan (scan t s)) = snd (scan t s)"
    and "(finish_scan (scan t s))\<lparr>pending := []\<rparr> = fst (scan t s)"
proof -
  obtain t' rest where r: "scan t s = (t', rest)" by fastforce
  with scan_pending [of t s] assms(1) have "pending t' = []" by simp
  with r assms(2) show "pending (finish_scan (scan t s)) = snd (scan t s)"
    and "(finish_scan (scan t s))\<lparr>pending := []\<rparr> = fst (scan t s)"
    by (auto simp: finish_scan_def store_pending_def)
qed

subsection \<open>Replay\<close>

lemma digits_not_final: "is_ascii_digit c \<Longrightarrow> \<not> is_final_byte c"
  by (auto simp: is_ascii_digit_def is_final_byte_def Let_def)

lemma not_final [simp]:
  "\<not> is_final_byte (CHR ''='')" "\<not> is_final_byte (CHR ''>'')" "\<not> is_final_byte (CHR '';'')"
  "\<not> is_final_byte (CHR ''4'')" "is_final_byte (CHR ''u'')" "is_final_byte (CHR ''m'')"
  by (simp_all add: is_final_byte_def)

lemma scan_csi:
  assumes "\<forall>x \<in> set params. \<not> is_final_byte x" and "is_final_byte f"
  shows "scan t (ESC # CHR ''['' # params @ f # rest) = scan (observe_csi t f params) rest"
proof -
  have "takeWhile (\<lambda>x. \<not> is_final_byte x) (params @ f # rest) = params"
    "dropWhile (\<lambda>x. \<not> is_final_byte x) (params @ f # rest) = f # rest"
    using assms by (simp_all add: takeWhile_append dropWhile_append)
  then show ?thesis by simp
qed

lemma split_at_none: "sep \<notin> set s \<Longrightarrow> split_at sep s = [s]"
  by (induction s) auto

lemma parse_flags_show: "n < 2 ^ 16 \<Longrightarrow> parse_kitty_keyboard_flags (show_decimal n) = of_nat n"
proof -
  assume "n < 2 ^ 16"
  moreover have "CHR '';'' \<notin> set (show_decimal n)"
    using show_decimal_digits [of "CHR '';''" n] by (auto simp: is_ascii_digit_def)
  ultimately show ?thesis
    by (simp add: parse_kitty_keyboard_flags_def split_at_none parse_show_decimal)
qed

lemma shown_not_final: "x \<in> set (show_decimal n) \<Longrightarrow> \<not> is_final_byte x"
  by (rule digits_not_final [OF show_decimal_digits])

lemma scan_replay_set: "scan t (replay_set n @ rest) = scan (t\<lparr>flags := n\<rparr>) rest"
  using scan_csi [of "CHR ''='' # show_decimal (unat n)" "CHR ''u''" t rest] unat_lt_pow [of n]
  by (simp add: replay_set_def shown_not_final observe_csi_def observe_csi_u_def parse_flags_show del: scan.simps)

lemma scan_replay_push:
  "scan t (replay_push n @ rest) = scan (t\<lparr>stack := stack t @ [flags t], flags := n\<rparr>) rest"
  using scan_csi [of "CHR ''>'' # show_decimal (unat n)" "CHR ''u''" t rest] unat_lt_pow [of n]
  by (simp add: replay_push_def shown_not_final observe_csi_def observe_csi_u_def parse_flags_show del: scan.simps)

lemma scan_replay_pushes:
  "scan t (concat (map replay_push ns) @ rest) =
   scan (t\<lparr>stack := stack t @ butlast (flags t # ns), flags := last (flags t # ns)\<rparr>) rest"
  by (induction ns arbitrary: t) (simp_all add: scan_replay_push del: scan.simps)

lemma split_at_once: "sep \<notin> set s \<Longrightarrow> split_at sep (s @ sep # r) = s # split_at sep r"
  by (induction s) auto

lemma scan_replay_level:
  assumes "n \<le> 2"
  shows "scan t (replay_level n @ rest) = scan (t\<lparr>modify_other_keys_level := n\<rparr>) rest"
proof -
  have "CHR '';'' \<notin> set (show_decimal n)"
    using show_decimal_digits [of "CHR '';''" n] by (auto simp: is_ascii_digit_def)
  then have parts: "split_at CHR '';'' (''4;'' @ show_decimal n) = [''4'', show_decimal n]"
    using split_at_once [of "CHR '';''" "''4''" "show_decimal n"] by (simp add: split_at_none)
  have four: "parse_kitty_keyboard_flags ''4'' = 4"
    by (simp add: parse_kitty_keyboard_flags_def parse_unsigned_def strip_prefix_def starts_with_def is_ascii_digit_def)
  have "unat (min (of_nat n :: u16) 2) = n"
    using assms by (auto simp: min_def word_le_nat_alt unat_of_nat)
  then have "observe_modify_other_keys t (''>4;'' @ show_decimal n) = t\<lparr>modify_other_keys_level := n\<rparr>"
    using parts four parse_flags_show [of n] assms
    by (simp add: observe_modify_other_keys_def strip_prefix_def starts_with_def)
  then show ?thesis
    using scan_csi [of "''>4;'' @ show_decimal n" "CHR ''m''" t rest]
    by (simp add: replay_level_def shown_not_final observe_csi_def del: scan.simps)
qed

lemma scan_replay:
  assumes "modify_other_keys_level t \<le> 2"
  shows "scan kitty_keyboard_tracker_default (case replay_ansi t of None \<Rightarrow> [] | Some ansi \<Rightarrow> ansi)
       = (t\<lparr>pending := []\<rparr>, [])"
proof -
  define tail where "tail = (if modify_other_keys_level t > 0 then replay_level (modify_other_keys_level t) else [])"
  define modes where "modes = (case stack t of
       [] \<Rightarrow> if flags t \<noteq> 0 then replay_set (flags t) else []
     | baseline # rest \<Rightarrow>
         (if baseline \<noteq> 0 then replay_set baseline else []) @ concat (map replay_push (rest @ [flags t])))"
  have ansi: "(case replay_ansi t of None \<Rightarrow> [] | Some ansi \<Rightarrow> ansi) = modes @ tail"
    by (simp add: replay_ansi_def Let_def modes_def tail_def)
  have set_flags: "scan d ((if n \<noteq> 0 then replay_set n else []) @ rest) = scan (d\<lparr>flags := n\<rparr>) rest"
    if "flags d = 0" for d n rest
  proof (cases "n = 0")
    case True
    with that have "d\<lparr>flags := n\<rparr> = d" by (cases d) simp
    with True show ?thesis by simp
  qed (simp add: scan_replay_set)
  have "scan kitty_keyboard_tracker_default (modes @ tail)
      = scan \<lparr>pending = [], stack = stack t, flags = flags t, modify_other_keys_level = 0\<rparr> tail"
  proof (cases "stack t")
    case Nil
    then show ?thesis
      using set_flags [of kitty_keyboard_tracker_default "flags t" tail]
      by (simp add: modes_def kitty_keyboard_tracker_default_def)
  next
    case (Cons baseline rest)
    then show ?thesis
      using set_flags [of kitty_keyboard_tracker_default baseline
          "concat (map replay_push (rest @ [flags t])) @ tail"]
      unfolding modes_def scan_replay_pushes by (simp add: kitty_keyboard_tracker_default_def)
  qed
  also have "\<dots> = (t\<lparr>pending := []\<rparr>, [])"
    using scan_replay_level [OF assms, of _ "[]"] by (simp add: tail_def)
  finally show ?thesis unfolding ansi .
qed

lemma level_bound:
  "modify_other_keys_level t \<le> 2 \<Longrightarrow> modify_other_keys_level (fst (scan t s)) \<le> 2"
proof -
  have pop: "modify_other_keys_level ((pop_flags ^^ n) t) = modify_other_keys_level t" for n t
    by (induction n) (simp_all add: pop_flags_def)
  have "modify_other_keys_level (observe_csi_u t params) = modify_other_keys_level t" for t params
    by (cases params) (simp_all add: observe_csi_u_def pop)
  moreover have "unat (min n 2) \<le> 2" for n :: u16
    by (auto simp: min_def word_le_nat_alt)
  then have "modify_other_keys_level (observe_modify_other_keys t params) \<le> 2"
    if "modify_other_keys_level t \<le> 2" for t params
    using that by (simp add: observe_modify_other_keys_def split: list.split option.split)
  ultimately have csi: "modify_other_keys_level (observe_csi t f params) \<le> 2"
    if "modify_other_keys_level t \<le> 2" for t f params
    using that by (simp add: observe_csi_def)
  show "modify_other_keys_level t \<le> 2 \<Longrightarrow> modify_other_keys_level (fst (scan t s)) \<le> 2"
    by (induction t s rule: scan.induct) (auto simp: reset_modes_def csi split: list.split)
qed

definition observe_step :: "kitty_keyboard_tracker \<Rightarrow> kitty_keyboard_tracker \<Rightarrow> bool" where
  "observe_step t t' \<longleftrightarrow> (\<exists>bytes. observe t bytes = Some t')"

lemma finish_scan_level: "modify_other_keys_level (finish_scan r) = modify_other_keys_level (fst r)"
  by (cases r) (simp add: finish_scan_def store_pending_def)

interpretation keyboard: step_invariant "\<lambda>t. t = kitty_keyboard_tracker_default" observe_step
  "\<lambda>t. modify_other_keys_level t \<le> 2"
  by unfold_locales
     (auto simp: kitty_keyboard_tracker_default_def observe_step_def observe_scan finish_scan_level intro!: level_bound)

subsection \<open>Properties\<close>

text \<open>
C13. The scanner of keyboard modes ends on every input and computes the recursion over the
remaining bytes; the bytes it keeps for the next chunk never exceed 64.
\<close>

theorem observe_terminates:
  "(\<exists>n. while_option (\<lambda>(_, index). index < length bytes) (observe_round bytes) (t, 0)
      = Some (finish_scan (scan t bytes), n))
   \<and> (\<exists>t'. observe t bytes = Some t' \<and> (length (pending t') \<le> 64))"
proof -
  obtain r rest where r: "scan (t\<lparr>pending := []\<rparr>) (pending t @ bytes) = (r, rest)" by fastforce
  then have "pending r = []" using scan_pending [of "t\<lparr>pending := []\<rparr>" "pending t @ bytes"] by simp
  then have "length (pending (finish_scan (r, rest))) \<le> 64"
    by (simp add: finish_scan_def store_pending_def)
  with observe_loop [of bytes t 0] show ?thesis by (simp add: observe_scan r)
qed

text \<open>
C14. The chunks in which a program's output arrives do not matter: while an unfinished sequence
stays within 64 bytes, observing two chunks gives what observing them at once gives.
\<close>

theorem observe_chunks:
  assumes "length (snd (scan (t\<lparr>pending := []\<rparr>) (pending t @ xs))) \<le> 64"
  shows "Option.bind (observe t xs) (\<lambda>t'. observe t' ys) = observe t (xs @ ys)"
proof -
  define r where "r = scan (t\<lparr>pending := []\<rparr>) (pending t @ xs)"
  have "pending (finish_scan r) = snd r" "(finish_scan r)\<lparr>pending := []\<rparr> = fst r"
    using finish_scan_pending [OF _ assms] unfolding r_def by simp_all
  moreover have "scan (t\<lparr>pending := []\<rparr>) (pending t @ xs @ ys) = scan (fst r) (snd r @ ys)"
    using scan_append [of "t\<lparr>pending := []\<rparr>" "pending t @ xs" ys] by (simp add: r_def split: prod.split)
  ultimately show ?thesis by (simp add: observe_scan r_def [symmetric])
qed

text \<open>
C15. Replaying the recorded keyboard modes into a new tracker restores the stack, the flags and
the modifyOtherKeys level of every tracker that observed any output.
\<close>

theorem replay_restores_modes:
  assumes "reaches observe_step kitty_keyboard_tracker_default t"
  shows "observe kitty_keyboard_tracker_default (case replay_ansi t of None \<Rightarrow> [] | Some ansi \<Rightarrow> ansi)
       = Some (t\<lparr>pending := []\<rparr>)"
proof -
  have "modify_other_keys_level t \<le> 2" by (rule keyboard.reachable_inv [OF refl assms])
  then have "scan kitty_keyboard_tracker_default (case replay_ansi t of None \<Rightarrow> [] | Some ansi \<Rightarrow> ansi)
      = (t\<lparr>pending := []\<rparr>, [])" by (rule scan_replay)
  moreover have "kitty_keyboard_tracker_default\<lparr>pending := []\<rparr> = kitty_keyboard_tracker_default"
    "pending kitty_keyboard_tracker_default = []"
    by (simp_all add: kitty_keyboard_tracker_default_def)
  ultimately show ?thesis unfolding observe_scan by (simp only: append_Nil finish_scan_def prod.case refl if_True)
qed

text \<open>The output \<open>ESC [ > 5 u\<close> in two chunks.\<close>

definition demo_keyboard :: kitty_keyboard_tracker where
  "demo_keyboard = \<lparr>pending = [], stack = [0], flags = 5, modify_other_keys_level = 0\<rparr>"

lemma demo_scan: "scan kitty_keyboard_tracker_default ([ESC] @ ''[>5u'') = (demo_keyboard, [])"
  by (simp add: is_final_byte_def observe_csi_def observe_csi_u_def parse_kitty_keyboard_flags_def parse_unsigned_def
      strip_prefix_def starts_with_def is_ascii_digit_def kitty_keyboard_tracker_default_def demo_keyboard_def)

theorem observe_chunks_witness:
  "Option.bind (observe kitty_keyboard_tracker_default ([ESC] @ ''[>'')) (\<lambda>t. observe t ''5u'') = Some demo_keyboard"
proof -
  have "length (snd (scan (kitty_keyboard_tracker_default\<lparr>pending := []\<rparr>)
      (pending kitty_keyboard_tracker_default @ [ESC] @ ''[>''))) \<le> 64"
    by (simp add: kitty_keyboard_tracker_default_def is_final_byte_def)
  from observe_chunks [OF this, of "''5u''"] show ?thesis
    using demo_scan by (simp add: observe_scan finish_scan_def kitty_keyboard_tracker_default_def del: scan.simps)
qed

theorem replay_restores_modes_witness:
  "observe kitty_keyboard_tracker_default ([ESC] @ ''[>5u'') = Some demo_keyboard"
proof -
  have "reaches observe_step kitty_keyboard_tracker_default demo_keyboard"
  proof (rule reaches_step, rule reaches_refl)
    show "observe_step kitty_keyboard_tracker_default demo_keyboard"
      unfolding observe_step_def
      using demo_scan
      by (intro exI [of _ "[ESC] @ ''[>5u''"])
         (simp add: observe_scan finish_scan_def kitty_keyboard_tracker_default_def del: scan.simps)
  qed
  moreover have "replay_ansi demo_keyboard = Some ([ESC] @ ''[>5u'')"
    by (simp add: replay_ansi_def demo_keyboard_def replay_push_def show_decimal.simps digit_char_def char_of_def bit_0)
  ultimately show ?thesis
    using replay_restores_modes [of demo_keyboard] by (simp add: demo_keyboard_def)
qed

end
