(* ===== verification/Spec2Isabelle.thy ===== *)
theory Spec2Isabelle
  imports Layout_Theorems Input_Lease Event_Hub Terminal_Properties Render_Stream_Theorems App_Dispatch
    Selection Agent_View Kitty_Keyboard
begin

text \<open>
  A verification library for the host runtime of herden (\<^verbatim>\<open>runtime/src\<close>): the server that owns terminals,
  workspaces and agents, and the protocol by which its clients show them.

  \<^bold>\<open>The program and its parts.\<close>
  The application keeps a list of workspaces; a workspace has tabs, a tab has a tiling layout of panes, and every
  pane is attached to a terminal.  Requests of the JSON interface create, move and close these and name them by
  public ids.  A terminal arbitrates what is known of the agent that runs in it: reports of hook integrations,
  observations of the screen, metadata and process exits.  What changes is published in an event hub that
  subscribers poll.  The surface of a tab is sent to clients as full frames, patches, deltas, scrolls and reuse
  messages, and a client's keys reach panes under leases.

  \<^bold>\<open>Theories and sources.\<close>
  \<^item> \<open>Prelude\<close>, \<open>F32\<close>, \<open>Rust_Str\<close>: machine integers at their width (the release build wraps), hash maps as
    association lists without an order that a theorem could use, vectors, the transition systems with their locale
    \<open>step_invariant\<close>; binary32 arithmetic; strings as their UTF-8 bytes.
  \<^item> \<open>Layout\<close>, \<open>Layout_Theorems\<close>: the tiling tree of \<^verbatim>\<open>layout.rs\<close>, all of it.
  \<^item> \<open>Agent\<close>, \<open>Agent_Resume\<close>, \<open>Metadata_Tokens\<close>: labels of agents (\<^verbatim>\<open>detect/mod.rs\<close>), session references and
    resume plans (\<^verbatim>\<open>agent_resume.rs\<close>), tokens and report sequences (\<^verbatim>\<open>metadata_tokens.rs\<close>).
  \<^item> \<open>Terminal_Data\<close>, \<open>Terminal_Hooks\<close>, \<open>Terminal_State\<close>, \<open>Terminal_Metadata\<close>: the record of
    \<^verbatim>\<open>terminal/state.rs\<close> and every method that changes it; \<open>Terminal_Theorems\<close> has the invariant over all
    sequences of operations, \<open>Terminal_Properties\<close> the behaviour of single operations.
  \<^item> \<open>Event_Hub\<close>: the bounded history of \<^verbatim>\<open>api/event_hub.rs\<close> and the subscriptions of \<^verbatim>\<open>api/subscriptions.rs\<close>.
  \<^item> \<open>Input_Lease\<close>: the lease table of \<^verbatim>\<open>input/lease.rs\<close>.
  \<^item> \<open>Surface\<close>, \<open>Wire\<close>, \<open>Surface_Scroll\<close>, \<open>Surface_Delta\<close>, \<open>Surface_Decoder\<close>, \<open>Render_Stream\<close> with their theorems:
    frames and framing (\<^verbatim>\<open>protocol/wire.rs\<close>), the codecs (\<^verbatim>\<open>protocol/surface_*.rs\<close>), the server's state per client
    (\<^verbatim>\<open>server/render_stream.rs\<close>) and the client's copy (\<^verbatim>\<open>client/shell/surface_patch.rs\<close>).
  \<^item> \<open>Public_Ids\<close>, \<open>Workspace_Tabs\<close>, \<open>Workspace\<close>, \<open>Workspace_Theorems\<close>: public numbers, tabs and workspaces
    (\<^verbatim>\<open>workspace.rs\<close>, \<^verbatim>\<open>workspace/tab.rs\<close>), with the invariant \<open>ws_inv\<close> that every operation keeps.
  \<^item> \<open>App_State\<close>, \<open>App_Ids\<close>, \<open>App_Info\<close>, \<open>App_Requests\<close>, \<open>App_Moves\<close>, \<open>App_Dispatch\<close>: the state of the application
    (\<^verbatim>\<open>app/state.rs\<close>, \<^verbatim>\<open>app/actions.rs\<close>), the resolution of ids (\<^verbatim>\<open>app/ids.rs\<close>), what is reported
    (\<^verbatim>\<open>app/creation.rs\<close>), the handlers of \<^verbatim>\<open>app/api/workspaces.rs\<close>, \<^verbatim>\<open>app/api/tabs.rs\<close>, \<^verbatim>\<open>app/api/panes.rs\<close> and
    their dispatch (\<^verbatim>\<open>app/api.rs\<close>); \<open>App_Theorems\<close>, \<open>App_State_Theorems\<close>, \<open>App_Requests_Theorems\<close>,
    \<open>App_Pane_Theorems\<close> and \<open>App_Moves_Theorems\<close> show that they keep \<open>app_inv\<close>.
  \<^item> \<open>Agent_View\<close>: filters and orders of the list of agents (\<^verbatim>\<open>agent_view_eval.rs\<close>, \<^verbatim>\<open>app/agent_view.rs\<close>,
    \<^verbatim>\<open>app/api/agent_view.rs\<close>), with the interface \<open>comparison\<close> of the orders that a stable sort accepts.
  \<^item> \<open>Selection\<close>: text selection over the scrollback (\<^verbatim>\<open>selection.rs\<close>).
  \<^item> \<open>Kitty_Keyboard\<close>: the keyboard modes a pane's program requested (\<^verbatim>\<open>pane/kitty_keyboard.rs\<close>).

  \<^bold>\<open>Conventions.\<close>
  A struct is a record, an enum a datatype, a method a function on the state.  A result of type \<open>option\<close> whose
  \<open>None\<close> is the answer of the Rust code keeps that meaning; where the Rust code could panic (an index, an unwrap, an
  assertion), the model's function returns an outer \<open>option\<close> in which \<open>None\<close> is the panic, and the theorems exclude
  it.  Clocks, new ids, started processes, directories and git are arguments.  Serialisation (bincode, serde_json,
  base64) and Unicode tables are parameters; the hypotheses on them are round trips and are met by the instances of
  the witnesses.  The iteration order of a hash map is that of its association list, so that a theorem holds for
  every order.

  \<^bold>\<open>Theorems.\<close>
  Invariants are shown for everything reachable (the layout, the terminal's published state, the surface stream as a
  refinement of the server's surface, the application), by interpretations of \<open>step_invariant\<close>.  Around them: codecs
  reproduce what was encoded and never panic on what a peer sends; keys are released where they were pressed;
  subscribers miss nothing while the history lasts; public ids resolve to what they name; requests are answered;
  accepted filters compare values of one type; a selection is drawn where it is.

  \<^bold>\<open>Bounds.\<close>
  Loops of the source are structural recursions, recursions with a proved measure, or \<open>while_option\<close> with a theorem
  that it returns; no fuel is used.  Counters are
  kept at their width; the theorems that need it say that a counter is not exhausted (\<open>room\<close>), which takes
  \<open>2 ^ 32\<close> panes or \<open>2 ^ 64\<close> workspaces or tabs.

  \<^bold>\<open>Not modelled.\<close>
  Terminal emulation and pseudo-terminals (\<^verbatim>\<open>pane.rs\<close>, \<^verbatim>\<open>pane/terminal.rs\<close>, the vendored libraries), drawing with
  ratatui, sockets, threads and process control, detection manifests (regular expressions), files and downloads,
  pairing and relay cryptography, platform code other than the Unix build, and the requests that drive terminals,
  agents, worktrees and plugins.  Their behaviour lies in third-party code or in the operating system.  Labels,
  titles, paths and rectangles are left out of the infos of the application.
\<close>

section \<open>The application\<close>





text \<open>
C9. In a sound state the public id the application reports for a tab or a pane resolves to that
tab or pane: no raw notation, legacy number or alias of a moved pane shadows it.
\<close>

theorem public_ids_resolve:
  assumes "app_inv a" and "i < length (workspaces a)"
  shows "(\<forall>j < length (tabs (workspaces a ! i)). \<exists>s. public_tab_id a i j = Some s \<and> parse_tab_id a s = Some (i, j)) \<and>
    (\<forall>p \<in> set (ws_panes (workspaces a ! i)). \<exists>s. public_pane_id a i p = Some s \<and> parse_pane_id a s = Some (i, p))"
  using parse_own_tab_id [OF assms] parse_own_pane_id [OF assms] by blast

theorem public_ids_resolve_witness:
  "\<exists>s. public_pane_id demo_app 0 2 = Some s \<and> parse_pane_id demo_app s = Some (0, 2)"
  using public_ids_resolve [OF demo_app_inv, of 0] by (simp add: demo_app_facts)

text \<open>
C10. When a pane's process ends, exactly that pane leaves the workspaces, an emptied workspace
is closed, the active workspace stays active unless that pane was all it had, no public alias of
the pane remains, and the state stays sound.
\<close>

theorem pane_death_effect:
  assumes "app_inv a"
  shows "\<exists>b. handle_pane_died p a = Some b \<and> app_inv b \<and> set (space_panes (workspaces b)) = set (space_panes (workspaces a)) - {p} \<and>
    (\<forall>k. active a = Some k \<longrightarrow> set (ws_panes (workspaces a ! k)) \<noteq> {p} \<longrightarrow>
      (\<exists>j < length (workspaces b). active b = Some j \<and> ws_id (workspaces b ! j) = ws_id (workspaces a ! k))) \<and>
    (p \<in> set (space_panes (workspaces a)) \<longrightarrow> p \<notin> snd ` set (public_pane_id_aliases b))"
  by (rule pane_died_effect [OF assms, of p]) blast

theorem pane_death_effect_witness:
  "\<exists>b. handle_pane_died 3 demo_app = Some b \<and> app_inv b \<and> set (space_panes (workspaces b)) = {1, 2}"
proof -
  have "{1, 2, 3} - {3} = {1, 2 :: pane_id}" by auto
  then show ?thesis using pane_death_effect [OF demo_app_inv, of 3] by (auto simp: demo_app_facts)
qed

text \<open>
C18. Closing a set of workspaces removes exactly those, keeps the others in order, keeps the
active workspace active when it is not among them, removes exactly the terminals of the closed
ones and queues each of their runtimes for shutdown.
\<close>

theorem closing_workspaces_exact:
  assumes "app_inv a" and "workspaces a \<noteq> []" and "sorted_wrt (<) idx" and "\<forall>i \<in> set idx. i < length (workspaces a)"
  shows "\<exists>b. close_workspaces idx a = Some b \<and> app_inv b \<and> workspaces b = nths (workspaces a) (- set idx) \<and>
    (\<forall>k. active a = Some k \<longrightarrow> k \<notin> set idx \<longrightarrow> active b = Some (selected b) \<and> workspaces b ! selected b = workspaces a ! k) \<and>
    (\<forall>t. hm_get (terminals b) t = (if \<exists>i \<in> set idx. t \<in> set (ws_terms (workspaces a ! i)) then None else hm_get (terminals a) t)) \<and>
    set (terminal_runtime_shutdowns b) = set (terminal_runtime_shutdowns a) \<union> (\<Union>i \<in> set idx. set (ws_terms (workspaces a ! i)))"
  by (rule close_workspaces_effect [OF assms(1,3,4,2)]) blast

theorem closing_workspaces_exact_witness:
  "\<exists>b. close_workspaces [0] demo_app = Some b \<and> app_inv b \<and> workspaces b = nths (workspaces demo_app) (- {0})"
  using closing_workspaces_exact [OF demo_app_inv, of "[0]"] by (auto simp: demo_app_facts)

text \<open>
C19. Moving a block of workspaces puts them side by side in the requested order right before the
given workspace, or at the end, keeps the order of the others, keeps the active and the selected
workspace, and reports a move exactly when the order changed.
\<close>

theorem workspace_block_moves_together:
  assumes "app_inv a" and "wids \<noteq> []" and "distinct wids" and "set wids \<subseteq> set (map ws_id (workspaces a))"
    and "\<And>w. before = Some w \<Longrightarrow> w \<in> set (map ws_id (workspaces a)) - set wids"
  shows "\<exists>b moved xs ys. move_workspace_block wids before a = Some (b, moved) \<and> app_inv b
    \<and> mset (workspaces b) = mset (workspaces a) \<and> moved = (map ws_id (workspaces b) \<noteq> map ws_id (workspaces a))
    \<and> filter (\<lambda>wid. wid \<notin> set wids) (map ws_id (workspaces a)) = xs @ ys \<and> map ws_id (workspaces b) = xs @ wids @ ys
    \<and> (case before of Some w \<Rightarrow> ys \<noteq> [] \<and> hd ys = w | None \<Rightarrow> ys = [])
    \<and> map_option ((!) (workspaces b)) (active b) = map_option ((!) (workspaces a)) (active a)
    \<and> workspaces b ! selected b = workspaces a ! selected a"
proof -
  obtain xs ys where o: "filter (\<lambda>wid. wid \<notin> set wids) (map ws_id (workspaces a)) = xs @ ys"
    "block_order (map ws_id (workspaces a)) wids before = xs @ wids @ ys" "case before of Some w \<Rightarrow> ys \<noteq> [] \<and> hd ys = w | None \<Rightarrow> ys = []"
    using block_order_split [of before "map ws_id (workspaces a)" wids] assms(5) by blast
  from assms(1) show ?thesis
  proof (cases rule: move_workspace_block_cases [where wids = wids and before = before])
    case refused
    have "map ws_id (workspaces a) = xs @ wids @ ys" using move_workspace_block_refused [OF refused assms(2-5)] o(2) by simp
    with refused assms(1) o show ?thesis by (intro exI [of _ a] exI [of _ False] exI [of _ xs] exI [of _ ys]) simp
  next
    case (moved b)
    have "map ws_id (workspaces b) \<noteq> map ws_id (workspaces a)"
      using moved(1) moved(3) by (auto simp: move_workspace_block_def Let_def split: if_splits)
    with moved o show ?thesis by (intro exI [of _ b] exI [of _ True] exI [of _ xs] exI [of _ ys]) simp
  qed
qed

theorem workspace_block_moves_together_witness:
  "\<exists>b moved xs ys. move_workspace_block [''w2''] (Some ''w1'') demo_app = Some (b, moved) \<and> [''w1''] = xs @ ys
     \<and> map ws_id (workspaces b) = xs @ [''w2''] @ ys \<and> ys \<noteq> [] \<and> hd ys = ''w1''"
  using workspace_block_moves_together [OF demo_app_inv, of "[''w2'']" "Some ''w1''"] by (auto simp: demo_app_facts(2))

text \<open>
C8. Moving a pane to another tab, to a new tab or to a new workspace, of this or another
workspace and also when it empties its own, is answered without a panic and without the error of
a failed move, so that the recovery path is never taken; no pane is lost or duplicated, and
every public pane id reported before, that of the moved pane included, still resolves to its
pane.
\<close>

theorem pane_move_loses_nothing:
  assumes "app_inv a" and "room eff a" and "destination_listed a destination"
  shows "\<exists>b resp. handle_pane_move eff target destination foc a = Some (b, resp) \<and> app_inv b \<and> resp \<noteq> Inl ''pane_move_failed''
    \<and> set (space_panes (workspaces b)) = set (space_panes (workspaces a))
    \<and> (\<forall>i < length (workspaces a). \<forall>q \<in> set (ws_panes (workspaces a ! i)). \<forall>s. public_pane_id a i q = Some s \<longrightarrow> (\<exists>j. parse_pane_id b s = Some (j, q)))"
proof (rule pane_move_effect [OF assms, of target foc])
  fix b resp
  assume b: "handle_pane_move eff target destination foc a = Some (b, resp)" "app_inv b" "set (space_panes (workspaces b)) = set (space_panes (workspaces a))"
    "resp \<noteq> Inl ''pane_move_failed''"
    and names: "\<And>q wid n. pane_named (workspaces a) q wid n \<Longrightarrow> \<exists>j. parse_pane_id b (public_pane_id_for_number wid (unat n)) = Some (j, q)"
  have "\<exists>j. parse_pane_id b s = Some (j, q)" if "i < length (workspaces a)" "q \<in> set (ws_panes (workspaces a ! i))" "public_pane_id a i q = Some s" for i q s
    using pane_named_index [OF that] names by metis
  with b show ?thesis by blast
qed

theorem pane_move_loses_nothing_witness:
  "\<exists>b resp. handle_pane_move demo_next ''w1:p2'' (DestNewWorkspace None None) True demo_app = Some (b, resp) \<and> resp \<noteq> Inl ''pane_move_failed''
    \<and> set (space_panes (workspaces b)) = {1, 2, 3}"
proof -
  have "destination_listed demo_app (DestNewWorkspace None None)" by (simp add: destination_listed_def)
  from pane_move_loses_nothing [OF demo_app_inv demo_app_room this, of "''w1:p2''" True] show ?thesis by (auto simp: demo_app_facts)
qed



end
